(* ===== verification/Prelude.thy ===== *)
theory Prelude
  imports Complex_Main
begin

text \<open>
  Shared vocabulary of the development: Python exceptions as values, the result type of a
  function that may raise, decimal text of integers, the JSON-like values the services pass
  around in \<open>dict[str, Any]\<close>, and the generic list lemmas several components use.
\<close>

named_theorems step_simps \<open>one-step equations of the state machines\<close>
named_theorems frame_simps \<open>fields an operation leaves alone\<close>

subsection \<open>Exceptions and results\<close>

text \<open>
  A raised exception is its class name and its message. A function that may raise returns
  \<open>exc + 'a\<close>; \<open>Inl\<close> is the raise, \<open>Inr\<close> the return.
\<close>

datatype exc = PyExc (exc_class: string) (exc_message: string)

type_synonym 'a result = "exc + 'a"

abbreviation ValueError :: "string \<Rightarrow> exc" where
  "ValueError m \<equiv> PyExc ''ValueError'' m"

abbreviation TypeError :: "string \<Rightarrow> exc" where
  "TypeError m \<equiv> PyExc ''TypeError'' m"

abbreviation RuntimeError :: "string \<Rightarrow> exc" where
  "RuntimeError m \<equiv> PyExc ''RuntimeError'' m"

abbreviation KeyError :: "string \<Rightarrow> exc" where
  "KeyError m \<equiv> PyExc ''KeyError'' m"

definition bindR :: "'a result \<Rightarrow> ('a \<Rightarrow> 'b result) \<Rightarrow> 'b result" where
  "bindR r k = (case r of Inl e \<Rightarrow> Inl e | Inr x \<Rightarrow> k x)"

lemma bindR_case [code_unfold]: "bindR m k = (case m of Inl e \<Rightarrow> Inl e | Inr x \<Rightarrow> k x)"
  by (rule bindR_def)

lemma bindR_simps [simp]:
  "bindR (Inl e) k = Inl e"
  "bindR (Inr x) k = k x"
  by (simp_all add: bindR_def)

lemma not_islE:
  assumes "\<not> isl x"
  obtains y where "x = Inr y"
  using assms by (cases x) auto

lemma bindR_Inr_iff: "bindR r k = Inr y \<longleftrightarrow> (\<exists>x. r = Inr x \<and> k x = Inr y)"
  by (cases r) auto

lemma bindR_Inl_iff: "bindR r k = Inl e \<longleftrightarrow> r = Inl e \<or> (\<exists>x. r = Inr x \<and> k x = Inl e)"
  by (cases r) auto

text \<open>A loop that runs a fallible function over a list, left to right, stopping at a raise.\<close>

fun mapR :: "('a \<Rightarrow> 'b result) \<Rightarrow> 'a list \<Rightarrow> 'b list result" where
  "mapR f [] = Inr []"
| "mapR f (x # xs) = bindR (f x) (\<lambda>y. bindR (mapR f xs) (\<lambda>ys. Inr (y # ys)))"

fun foldR :: "('s \<Rightarrow> 'a \<Rightarrow> 's result) \<Rightarrow> 's \<Rightarrow> 'a list \<Rightarrow> 's result" where
  "foldR f s [] = Inr s"
| "foldR f s (x # xs) = bindR (f s x) (\<lambda>s'. foldR f s' xs)"

lemma mapR_list_all2: "mapR f xs = Inr ys \<longleftrightarrow> list_all2 (\<lambda>x y. f x = Inr y) xs ys"
  by (induction xs arbitrary: ys) (auto simp: bindR_Inr_iff list_all2_Cons1)

lemma mapR_length: "mapR f xs = Inr ys \<Longrightarrow> length ys = length xs"
  by (induction xs arbitrary: ys) (auto simp: bindR_Inr_iff)

lemma foldR_invariant:
  assumes "foldR f s xs = Inr t" and "P s"
    and "\<And>s x s'. x \<in> set xs \<Longrightarrow> P s \<Longrightarrow> f s x = Inr s' \<Longrightarrow> P s'"
  shows "P t"
  using assms
proof (induction xs arbitrary: s)
  case Nil
  then show ?case by simp
next
  case (Cons x xs)
  then obtain u where u: "f s x = Inr u" "foldR f u xs = Inr t"
    by (auto simp: bindR_Inr_iff)
  have "P u" using Cons.prems(2,3) u(1) by (meson list.set_intros(1))
  then show ?case
    by (rule Cons.IH [OF u(2)]) (meson Cons.prems(3) list.set_intros(2))
qed

subsection \<open>Text\<close>

definition digit_char :: "nat \<Rightarrow> char" where
  "digit_char d = char_of (48 + d)"

function digits_text :: "int \<Rightarrow> string" where
  "digits_text i = (if i < 10 then [digit_char (nat i)] else digits_text (i div 10) @ [digit_char (nat (i mod 10))])"
  by auto
termination
  by (relation "measure nat") auto

declare digits_text.simps [simp del]

definition nat_text :: "nat \<Rightarrow> string" where
  "nat_text n = digits_text (int n)"

definition int_text :: "int \<Rightarrow> string" where
  "int_text i = (if i < 0 then ''-'' @ digits_text (- i) else digits_text i)"

definition is_space :: "char \<Rightarrow> bool" where
  "is_space c \<longleftrightarrow> c \<in> {CHR 0x20, CHR 0x09, CHR 0x0A, CHR 0x0B, CHR 0x0C, CHR 0x0D, CHR 0x1C, CHR 0x1D, CHR 0x1E, CHR 0x1F}"

text \<open>\<open>str.strip()\<close> and \<open>str.upper()\<close>/\<open>str.lower()\<close> on ASCII text.\<close>

definition strip :: "string \<Rightarrow> string" where
  "strip s = rev (dropWhile is_space (rev (dropWhile is_space s)))"

definition blank :: "string \<Rightarrow> bool" where
  "blank s \<longleftrightarrow> strip s = []"

definition upper_char :: "char \<Rightarrow> char" where
  "upper_char c = (let n = of_char c :: int in if 97 \<le> n \<and> n \<le> 122 then char_of (n - 32) else c)"

definition lower_char :: "char \<Rightarrow> char" where
  "lower_char c = (let n = of_char c :: int in if 65 \<le> n \<and> n \<le> 90 then char_of (n + 32) else c)"

definition str_upper :: "string \<Rightarrow> string" where
  "str_upper s = map upper_char s"

definition str_lower :: "string \<Rightarrow> string" where
  "str_lower s = map lower_char s"

definition starts_with :: "string \<Rightarrow> string \<Rightarrow> bool" where
  "starts_with s p \<longleftrightarrow> take (length p) s = p"

text \<open>A text that is not ASCII is its UTF-8 bytes; \<open>sub in s\<close> is the same on bytes.\<close>

definition utf8 :: "int list \<Rightarrow> string" where
  "utf8 bs = map char_of bs"

text \<open>Code equations that read characters by their bits, for evaluation.\<close>

lemma is_space_code [code]: "is_space (Char b0 b1 b2 b3 b4 b5 b6 b7) \<longleftrightarrow>
   \<not> b7 \<and> \<not> b6 \<and> (if b5 then \<not> (b0 \<or> b1 \<or> b2 \<or> b3 \<or> b4) else b3 \<and> (if b4 then b2 else (if b2 then \<not> b1 else b0 \<or> b1)))"
  by (cases b0; cases b1; cases b2; cases b3; cases b4; cases b5; cases b6; cases b7; simp add: is_space_def)

lemma lower_char_code [code]: "lower_char (Char b0 b1 b2 b3 b4 b5 b6 b7) =
   (if \<not> b7 \<and> b6 \<and> \<not> b5 \<and> (b0 \<or> b1 \<or> b2 \<or> b3 \<or> b4) \<and> \<not> (b4 \<and> b3 \<and> (b2 \<or> b1 \<and> b0)) then Char b0 b1 b2 b3 b4 True b6 b7 else Char b0 b1 b2 b3 b4 b5 b6 b7)"
  by (cases b0; cases b1; cases b2; cases b3; cases b4; cases b5; cases b6; cases b7; simp add: lower_char_def char_of_def)

fun half_num :: "num option \<Rightarrow> num option" where
  "half_num (Some (num.Bit0 n)) = Some n"
| "half_num (Some (num.Bit1 n)) = Some n"
| "half_num _ = None"

fun odd_num :: "num option \<Rightarrow> bool" where
  "odd_num (Some (num.Bit0 n)) = False"
| "odd_num None = False"
| "odd_num _ = True"

definition num_int :: "num option \<Rightarrow> int" where
  "num_int x = (case x of None \<Rightarrow> 0 | Some n \<Rightarrow> numeral n)"

lemma bit_num_int: "bit (num_int x) 0 = odd_num x" "bit (num_int x) (Suc k) = bit (num_int (half_num x)) k"
  by (cases x rule: half_num.cases; simp add: num_int_def bit_Suc_0_iff)+

definition num_char :: "num option \<Rightarrow> char" where
  "num_char x0 = (let x1 = half_num x0; x2 = half_num x1; x3 = half_num x2; x4 = half_num x3; x5 = half_num x4; x6 = half_num x5; x7 = half_num x6 in
     Char (odd_num x0) (odd_num x1) (odd_num x2) (odd_num x3) (odd_num x4) (odd_num x5) (odd_num x6) (odd_num x7))"

definition byte_char :: "int \<Rightarrow> char" where
  "byte_char = char_of"

lemma byte_char_code [code]: "byte_char 0 = num_char None" "byte_char (Int.Pos n) = num_char (Some n)" "byte_char (Int.Neg n) = char_of (- Int.Pos n)"
proof -
  have "num_char x = char_of (num_int x)" for x
    by (simp add: char_of_def num_char_def Let_def bit_num_int numeral_eq_Suc)
  from this [of None] this [of "Some n"] show "byte_char 0 = num_char None" "byte_char (Int.Pos n) = num_char (Some n)"
    by (simp_all add: byte_char_def num_int_def)
qed (simp add: byte_char_def)

lemma utf8_code [code]: "utf8 bs = map byte_char bs"
  by (simp add: utf8_def byte_char_def)

fun str_in :: "string \<Rightarrow> string \<Rightarrow> bool" where
  "str_in sub [] \<longleftrightarrow> sub = []"
| "str_in sub (c # cs) \<longleftrightarrow> starts_with (c # cs) sub \<or> str_in sub cs"

fun split_on :: "char \<Rightarrow> string \<Rightarrow> string list" where
  "split_on c [] = [[]]"
| "split_on c (x # xs) = (if x = c then [] # split_on c xs
     else (case split_on c xs of [] \<Rightarrow> [[x]] | w # ws \<Rightarrow> (x # w) # ws))"

fun join_with :: "string \<Rightarrow> string list \<Rightarrow> string" where
  "join_with sep [] = []"
| "join_with sep [w] = w"
| "join_with sep (w # v # ws) = w @ sep @ join_with sep (v # ws)"

lemma blank_iff: "blank s \<longleftrightarrow> (\<forall>c \<in> set s. is_space c)"
proof
  assume "blank s"
  then have "dropWhile is_space (rev (dropWhile is_space s)) = []"
    by (simp add: blank_def strip_def)
  then have "\<forall>c \<in> set (dropWhile is_space s). is_space c"
    by (simp add: dropWhile_eq_Nil_conv)
  then show "\<forall>c \<in> set s. is_space c"
    by (metis hd_dropWhile hd_in_set dropWhile_eq_Nil_conv)
next
  assume "\<forall>c \<in> set s. is_space c"
  then show "blank s" by (auto simp: blank_def strip_def dest: set_dropWhileD)
qed

lemma split_on_not_Nil [simp]: "split_on c s \<noteq> []"
  by (induction s) (auto split: list.splits)

lemma join_split_on: "join_with [c] (split_on c s) = s"
proof (induction s)
  case Nil
  then show ?case by simp
next
  case (Cons x s)
  obtain w ws where ws: "split_on c s = w # ws" by (cases "split_on c s") auto
  show ?case
    using Cons ws by (cases ws) auto
qed

subsection \<open>Python containers\<close>

text \<open>\<open>dict.get\<close> on an association list that holds the items in insertion order.\<close>

definition dict_get :: "('k \<times> 'v) list \<Rightarrow> 'k \<Rightarrow> 'v option" where
  "dict_get d k = map_of d k"

fun dict_set :: "('k \<times> 'v) list \<Rightarrow> 'k \<Rightarrow> 'v \<Rightarrow> ('k \<times> 'v) list" where
  "dict_set [] k v = [(k, v)]"
| "dict_set ((k', v') # d) k v = (if k' = k then (k, v) # d else (k', v') # dict_set d k v)"

definition dict_pop :: "('k \<times> 'v) list \<Rightarrow> 'k \<Rightarrow> ('k \<times> 'v) list" where
  "dict_pop d k = filter (\<lambda>(k', _). k' \<noteq> k) d"

definition dict_keys :: "('k \<times> 'v) list \<Rightarrow> 'k list" where
  "dict_keys d = map fst d"

lemma dict_get_set [simp]: "dict_get (dict_set d k v) k' = (if k' = k then Some v else dict_get d k')"
  by (induction d k v rule: dict_set.induct) (auto simp: dict_get_def)

lemma dict_get_pop [simp]: "dict_get (dict_pop d k) k' = (if k' = k then None else dict_get d k')"
  by (induction d) (auto simp: dict_get_def dict_pop_def)

lemma dict_get_Nil [simp]: "dict_get [] k = None"
  by (simp add: dict_get_def)

lemma dict_get_Cons [simp]: "dict_get ((k', v) # d) k = (if k = k' then Some v else dict_get d k)"
  by (simp add: dict_get_def)

text \<open>\<open>list(dict.fromkeys(xs))\<close>: duplicates dropped, first occurrences kept in order.\<close>

fun dedup_acc :: "'a list \<Rightarrow> 'a list \<Rightarrow> 'a list" where
  "dedup_acc seen [] = []"
| "dedup_acc seen (x # xs) = (if x \<in> set seen then dedup_acc seen xs else x # dedup_acc (x # seen) xs)"

definition dedup :: "'a list \<Rightarrow> 'a list" where
  "dedup xs = dedup_acc [] xs"

lemma set_dedup_acc: "set (dedup_acc seen xs) = set xs - set seen"
  by (induction seen xs rule: dedup_acc.induct) auto

lemma set_dedup [simp]: "set (dedup xs) = set xs"
  by (simp add: dedup_def set_dedup_acc)

lemma distinct_dedup_acc: "distinct (dedup_acc seen xs)"
  by (induction seen xs rule: dedup_acc.induct) (auto simp: set_dedup_acc)

lemma distinct_dedup [simp]: "distinct (dedup xs)"
  by (simp add: dedup_def distinct_dedup_acc)

lemma dedup_Nil_iff [simp]: "dedup xs = [] \<longleftrightarrow> xs = []"
  by (metis set_dedup set_empty)

text \<open>\<open>next((x for x in xs if p(x)), None)\<close>.\<close>

fun first_such :: "('a \<Rightarrow> bool) \<Rightarrow> 'a list \<Rightarrow> 'a option" where
  "first_such p [] = None"
| "first_such p (x # xs) = (if p x then Some x else first_such p xs)"

lemma first_such_Some: "first_such p xs = Some x \<Longrightarrow> x \<in> set xs \<and> p x"
  by (induction xs) (auto split: if_splits)

lemma first_such_None: "first_such p xs = None \<longleftrightarrow> (\<forall>x \<in> set xs. \<not> p x)"
  by (induction xs) auto

end
