(* ===== verification/Machine.thy ===== *)
theory Machine
  imports Prelude
begin

text \<open>
  The contract of a versioned work unit: a state that moves only along a transition table,
  a version that every accepted transition raises by one, and a refusal that leaves the
  unit alone. The second locale adds a linear stage order with one failure state. Both are
  interpreted on the decision run and on the knowledge-conclusion run.
\<close>

locale versioned_machine =
  fixes st :: "'r \<Rightarrow> 's"
    and ver :: "'r \<Rightarrow> int"
    and allowed :: "'s \<Rightarrow> 's set"
    and trans :: "'r \<Rightarrow> 's \<Rightarrow> 'a \<Rightarrow> 'r result"
  assumes trans_ok: "trans r t a = Inr r' \<Longrightarrow> t \<in> allowed (st r) \<and> st r' = t \<and> ver r' = ver r + 1"
    and trans_total: "t \<in> allowed (st r) \<Longrightarrow> \<exists>r'. trans r t a = Inr r'"
begin

fun exec :: "'r \<Rightarrow> ('s \<times> 'a) list \<Rightarrow> 'r result" where
  "exec r [] = Inr r"
| "exec r ((t, a) # ts) = bindR (trans r t a) (\<lambda>r'. exec r' ts)"

lemma trans_iff: "(\<exists>r'. trans r t a = Inr r') \<longleftrightarrow> t \<in> allowed (st r)"
  using trans_ok trans_total by blast

lemma exec_version: "exec r ts = Inr r' \<Longrightarrow> ver r' = ver r + int (length ts)"
  by (induction r ts rule: exec.induct) (auto simp: bindR_Inr_iff dest!: trans_ok)

lemma exec_terminal:
  assumes "allowed (st r) = {}" and "exec r ts = Inr r'"
  shows "ts = [] \<and> r' = r"
  using assms by (cases ts) (auto simp: bindR_Inr_iff dest!: trans_ok)

lemma exec_append: "exec r (ts @ us) = bindR (exec r ts) (\<lambda>r'. exec r' us)"
  by (induction r ts rule: exec.induct) (auto simp: bindR_def split: sum.splits)

end

locale staged_machine = versioned_machine st ver allowed trans
  for st :: "'r \<Rightarrow> 's"
    and ver :: "'r \<Rightarrow> int"
    and allowed :: "'s \<Rightarrow> 's set"
    and trans :: "'r \<Rightarrow> 's \<Rightarrow> 'a \<Rightarrow> 'r result" +
  fixes rank :: "'s \<Rightarrow> int"
    and failed :: 's
  assumes rank_step: "t \<in> allowed s \<Longrightarrow> t \<noteq> failed \<Longrightarrow> rank t = rank s + 1"
    and failed_terminal: "allowed failed = {}"
begin

lemma exec_rank:
  assumes "exec r ts = Inr r'" and "ver r = rank (st r)" and "st r \<noteq> failed"
  shows "st r' \<noteq> failed \<longrightarrow> ver r' = rank (st r')"
  using assms
proof (induction r ts rule: exec.induct)
  case (1 r)
  then show ?case by simp
next
  case (2 r t a ts)
  then obtain u where u: "trans r t a = Inr u" "exec u ts = Inr r'"
    by (auto simp: bindR_Inr_iff)
  note s = trans_ok [OF u(1)]
  show ?case
  proof (cases "t = failed")
    case True
    then show ?thesis using exec_terminal [of u ts r'] u(2) s failed_terminal by auto
  next
    case False
    then show ?thesis using "2.IH" [OF u(2)] s rank_step "2.prems" by auto
  qed
qed

end

end
