(* ===== verification/PyFloat.thy ===== *)
theory PyFloat
  imports Complex_Main "HOL-Library.Log_Nat"
begin

text \<open>
  Python's \<open>float\<close>: an IEEE-754 binary64 value. A finite value is the rational it denotes
  (the two zeros are one value: the code never looks at the sign of a zero), and every
  arithmetic operation is the exact rational operation rounded to nearest, ties to even,
  with overflow to an infinity. Comparisons with a NaN are false, as in Python. The
  definitions compute, so \<open>code_simp\<close> evaluates decimal literals such as \<open>0.1\<close> to the
  very doubles the interpreter uses.
\<close>

subsection \<open>Rounding a rational to 53 significant bits\<close>

definition half_even :: "rat \<Rightarrow> int" where
  "half_even x = (let n = \<lfloor>x\<rfloor>; d = x - of_int n in
     if d < 1/2 then n else if 1/2 < d then n + 1 else if even n then n else n + 1)"

definition ilog2 :: "rat \<Rightarrow> int" where
  "ilog2 x = (case quotient_of x of (p, q) \<Rightarrow>
     let k = bitlen p - bitlen q in if 2 powi k \<le> x then k else k - 1)"

definition ulp_exp :: "rat \<Rightarrow> int" where
  "ulp_exp x = max (ilog2 \<bar>x\<bar> - 52) (- 1074)"

definition rn64 :: "rat \<Rightarrow> rat" where
  "rn64 x = (if x = 0 then 0 else of_int (half_even (x / 2 powi ulp_exp x)) * 2 powi ulp_exp x)"

lemma half_even_near: "\<bar>of_int (half_even x) - x\<bar> \<le> 1/2"
proof -
  have "of_int \<lfloor>x\<rfloor> \<le> x" "x < of_int \<lfloor>x\<rfloor> + 1" by linarith+
  then show ?thesis by (auto simp: half_even_def Let_def abs_le_iff)
qed

lemma half_even_of_int [simp]: "half_even (of_int n) = n"
  by (simp add: half_even_def)

lemma half_even_mono: "x \<le> y \<Longrightarrow> half_even x \<le> half_even y"
proof -
  assume le: "x \<le> y"
  have fl: "\<lfloor>x\<rfloor> \<le> \<lfloor>y\<rfloor>" using le by (rule floor_mono)
  have bx: "of_int \<lfloor>x\<rfloor> \<le> x" "x < of_int \<lfloor>x\<rfloor> + 1" by linarith+
  show ?thesis
  proof (cases "\<lfloor>x\<rfloor> = \<lfloor>y\<rfloor>")
    case True
    then show ?thesis using le by (auto simp: half_even_def Let_def)
  next
    case False
    then have "\<lfloor>x\<rfloor> + 1 \<le> \<lfloor>y\<rfloor>" using fl by linarith
    then show ?thesis by (auto simp: half_even_def Let_def)
  qed
qed

lemma half_even_le_int: "x \<le> of_int n \<Longrightarrow> half_even x \<le> n"
  using half_even_mono [of x "of_int n"] by simp

lemma half_even_ge_int: "of_int n \<le> x \<Longrightarrow> n \<le> half_even x"
  using half_even_mono [of "of_int n" x] by simp

lemma half_even_nonneg: "0 \<le> x \<Longrightarrow> 0 \<le> half_even x"
  using half_even_ge_int [of 0 x] by simp

lemma half_even_nonpos: "x \<le> 0 \<Longrightarrow> half_even x \<le> 0"
  using half_even_le_int [of x 0] by simp

lemma powi_pos [simp]: "0 < (2::rat) powi k"
  by (simp add: zero_less_power_int)

lemma powi_nz [simp]: "(2::rat) powi k \<noteq> 0"
  by (simp add: power_int_eq_0_iff)

lemma powi_mono: "a \<le> b \<Longrightarrow> (2::rat) powi a \<le> 2 powi b"
  by (rule power_int_increasing) auto

lemma powi_add: "(2::rat) powi (a + b) = 2 powi a * 2 powi b"
  by (simp add: power_int_add)

lemma powi_less_cancel: "(2::rat) powi a < 2 powi b \<Longrightarrow> a < b"
  by (meson linorder_not_le powi_mono)

lemma powi_int_scale: "(2::rat) powi (a + int n) = of_int (2 ^ n) * 2 powi a"
  by (simp add: powi_add power_int_of_nat)

lemma bitlen_powi:
  assumes "0 < p"
  shows "2 powi (bitlen p - 1) \<le> (of_int p :: rat)" and "(of_int p :: rat) < 2 powi (bitlen p)"
proof -
  have b: "0 < bitlen p" using assms using bitlen_nonneg [of p] bitlen_eq_zero_iff [of p] by linarith
  have le: "2 ^ nat (bitlen p - 1) \<le> p" and lt: "p < 2 ^ nat (bitlen p)"
    using bitlen_bounds [OF assms] by auto
  have "(2::rat) powi (bitlen p - 1) = of_int (2 ^ nat (bitlen p - 1))"
    using b by (simp add: power_int_def)
  also have "\<dots> \<le> of_int p" using le by (simp only: of_int_le_iff)
  finally show "2 powi (bitlen p - 1) \<le> (of_int p :: rat)" .
  have "(of_int p :: rat) < of_int (2 ^ nat (bitlen p))" using lt by (simp only: of_int_less_iff)
  also have "\<dots> = 2 powi (bitlen p)" using b by (simp add: power_int_def)
  finally show "(of_int p :: rat) < 2 powi (bitlen p)" .
qed

lemma ilog2_bounds:
  assumes "0 < x"
  shows "2 powi ilog2 x \<le> x" and "x < 2 powi (ilog2 x + 1)"
proof -
  obtain p q where pq: "quotient_of x = (p, q)" by (cases "quotient_of x")
  have q: "0 < q" using pq by (rule quotient_of_denom_pos)
  have x: "x = of_int p / of_int q" using pq by (rule quotient_of_div)
  have p: "0 < p" using assms x q by (simp add: zero_less_divide_iff)
  define k where "k = bitlen p - bitlen q"
  have lo: "2 powi (k - 1) \<le> x"
  proof -
    have "2 powi (k - 1) * (of_int q :: rat) \<le> 2 powi (k - 1) * 2 powi (bitlen q)"
      using bitlen_powi(2) [OF q] by (simp add: mult_left_mono)
    also have "\<dots> = 2 powi (bitlen p - 1)" by (simp add: k_def powi_add [symmetric])
    also have "\<dots> \<le> of_int p" by (rule bitlen_powi(1) [OF p])
    finally show ?thesis using q x by (simp add: pos_le_divide_eq)
  qed
  have hi: "x < 2 powi (k + 1)"
  proof -
    have "(of_int p :: rat) < 2 powi (bitlen p)" by (rule bitlen_powi(2) [OF p])
    also have "\<dots> = 2 powi (k + 1) * 2 powi (bitlen q - 1)" by (simp add: k_def powi_add [symmetric])
    also have "\<dots> \<le> 2 powi (k + 1) * of_int q"
      using bitlen_powi(1) [OF q] by (simp add: mult_left_mono)
    finally show ?thesis using q x by (simp add: pos_divide_less_eq)
  qed
  show "2 powi ilog2 x \<le> x" using lo by (auto simp: ilog2_def pq k_def [symmetric] Let_def)
  show "x < 2 powi (ilog2 x + 1)" using hi by (auto simp: ilog2_def pq k_def [symmetric] Let_def)
qed

lemma ilog2_mono:
  assumes "0 < x" "x \<le> y"
  shows "ilog2 x \<le> ilog2 y"
proof -
  have "2 powi ilog2 x \<le> x" using assms(1) by (rule ilog2_bounds)
  also have "\<dots> \<le> y" by (rule assms)
  also have "y < 2 powi (ilog2 y + 1)" using assms by (intro ilog2_bounds) auto
  finally show ?thesis using powi_less_cancel by fastforce
qed

lemma rn64_0 [simp]: "rn64 0 = 0"
  by (simp add: rn64_def)

lemma rn64_nonneg: "0 \<le> x \<Longrightarrow> 0 \<le> rn64 x"
  by (simp add: rn64_def half_even_nonneg less_imp_le)

lemma rn64_nonpos: "x \<le> 0 \<Longrightarrow> rn64 x \<le> 0"
  by (simp add: rn64_def half_even_nonpos mult_le_0_iff divide_nonpos_pos less_imp_le)

lemma ulp_exp_mono: "0 < x \<Longrightarrow> x \<le> y \<Longrightarrow> ulp_exp x \<le> ulp_exp y"
  using ilog2_mono [of x y] by (auto simp: ulp_exp_def)

lemma rn64_mono_pos:
  assumes "0 < x" "x \<le> y"
  shows "rn64 x \<le> rn64 y"
proof (cases "ulp_exp x = ulp_exp y")
  case True
  have "half_even (x / 2 powi ulp_exp y) \<le> half_even (y / 2 powi ulp_exp y)"
    by (rule half_even_mono) (simp add: divide_right_mono assms less_imp_le)
  then show ?thesis using True assms by (simp add: rn64_def)
next
  case False
  then have lt: "ulp_exp x < ulp_exp y" using ulp_exp_mono [OF assms] by simp
  have y: "0 < y" using assms by simp
  have ey: "ulp_exp y = ilog2 y - 52" using lt y by (auto simp: ulp_exp_def)
  have "x < 2 powi (ilog2 x + 1)" by (rule ilog2_bounds [OF assms(1)])
  also have "\<dots> \<le> 2 powi (ulp_exp x + 53)" using assms by (intro powi_mono) (auto simp: ulp_exp_def)
  finally have "x \<le> of_int (2 ^ 53) * 2 powi ulp_exp x"
    using powi_int_scale [of "ulp_exp x" 53] by simp
  then have "half_even (x / 2 powi ulp_exp x) \<le> 2 ^ 53"
    by (intro half_even_le_int) (simp add: pos_divide_le_eq)
  then have "(of_int (half_even (x / 2 powi ulp_exp x)) :: rat) \<le> of_int (2 ^ 53)"
    by (simp only: of_int_le_iff)
  then have "rn64 x \<le> of_int (2 ^ 53) * 2 powi ulp_exp x"
    using assms by (simp add: rn64_def)
  also have "\<dots> = 2 powi (ulp_exp x + 53)"
    using powi_int_scale [of "ulp_exp x" 53] by simp
  also have "\<dots> \<le> 2 powi ilog2 y" using lt ey by (intro powi_mono) auto
  also have "\<dots> = of_int (2 ^ 52) * 2 powi ulp_exp y"
    using powi_int_scale [of "ulp_exp y" 52] ey by simp
  also have "\<dots> \<le> rn64 y"
  proof -
    have "of_int (2 ^ 52) * 2 powi ulp_exp y = (2::rat) powi ilog2 y"
      using powi_int_scale [of "ulp_exp y" 52] ey by simp
    also have "\<dots> \<le> y" by (rule ilog2_bounds [OF y])
    finally have "2 ^ 52 \<le> half_even (y / 2 powi ulp_exp y)"
      by (intro half_even_ge_int) (simp add: pos_le_divide_eq)
    then have "(of_int (2 ^ 52) :: rat) \<le> of_int (half_even (y / 2 powi ulp_exp y))"
      by (simp only: of_int_le_iff)
    then show ?thesis using y by (simp add: rn64_def)
  qed
  finally show ?thesis .
qed

lemma half_even_minus: "half_even (- x) = - half_even x"
proof -
  define n where "n = \<lfloor>x\<rfloor>"
  have b: "of_int n \<le> x" "x < of_int n + 1" unfolding n_def by linarith+
  show ?thesis
  proof (cases "x = of_int n")
    case True
    have "half_even (- x) = half_even (of_int (- n))" using True by simp
    also have "\<dots> = - n" by (rule half_even_of_int)
    finally show ?thesis using True by simp
  next
    case False
    have "\<lfloor>- x\<rfloor> = - n - 1" using b False by (intro floor_unique) auto
    then show ?thesis using n_def by (auto simp: half_even_def Let_def)
  qed
qed

lemma rn64_minus [simp]: "rn64 (- x) = - rn64 x"
  by (simp add: rn64_def ulp_exp_def half_even_minus)

theorem rn64_mono: "x \<le> y \<Longrightarrow> rn64 x \<le> rn64 y"
proof -
  assume le: "x \<le> y"
  consider "0 < x" | "x \<le> 0" "0 \<le> y" | "y < 0" by linarith
  then show ?thesis
  proof cases
    case 1
    then show ?thesis using le by (rule rn64_mono_pos)
  next
    case 2
    then have "rn64 x \<le> 0" "0 \<le> rn64 y" by (simp_all add: rn64_nonpos rn64_nonneg)
    then show ?thesis by simp
  next
    case 3
    then have "rn64 (- y) \<le> rn64 (- x)" using le by (intro rn64_mono_pos) auto
    then show ?thesis by simp
  qed
qed

text \<open>The numbers binary64 holds exactly, overflow aside: the fixed points of the rounding.\<close>

definition rep64 :: "rat \<Rightarrow> bool" where
  "rep64 x \<longleftrightarrow> rn64 x = x"

lemma rep64_0 [simp]: "rep64 0"
  by (simp add: rep64_def)

lemma rn64_scaled:
  assumes "\<bar>m\<bar> \<le> 2 ^ 53" and "- 1074 \<le> e"
  shows "rn64 (of_int m * 2 powi e) = of_int m * 2 powi e"
proof (cases "m = 0")
  case True
  then show ?thesis by simp
next
  case False
  define x :: rat where "x = of_int m * 2 powi e"
  have x0: "x \<noteq> 0" using False by (simp add: x_def)
  have ax: "\<bar>x\<bar> = of_int \<bar>m\<bar> * 2 powi e" by (simp add: x_def abs_mult)
  show ?thesis
  proof (cases "ulp_exp x \<le> e")
    case True
    define d where "d = nat (e - ulp_exp x)"
    have e: "e = ulp_exp x + int d" using True by (simp add: d_def)
    have "(2::rat) powi e = of_int (2 ^ d) * 2 powi ulp_exp x"
      using powi_int_scale [of "ulp_exp x" d] e by simp
    then have "x = of_int (m * 2 ^ d) * 2 powi ulp_exp x" by (simp add: x_def)
    then have "x / 2 powi ulp_exp x = of_int (m * 2 ^ d)"
      by (metis nonzero_mult_div_cancel_right powi_nz)
    then have "half_even (x / 2 powi ulp_exp x) = m * 2 ^ d" by (simp del: of_int_mult)
    then have "rn64 x = of_int (m * 2 ^ d) * 2 powi ulp_exp x" using x0 by (simp add: rn64_def)
    then have "rn64 x = x" using \<open>x = of_int (m * 2 ^ d) * 2 powi ulp_exp x\<close> by metis
    then show ?thesis by (simp add: x_def)
  next
    case f: False
    then have u: "ulp_exp x = ilog2 \<bar>x\<bar> - 52" using assms(2) by (auto simp: ulp_exp_def)
    have "2 powi ilog2 \<bar>x\<bar> \<le> \<bar>x\<bar>" using x0 by (intro ilog2_bounds) simp
    also have "\<dots> \<le> of_int (2 ^ 53) * 2 powi e"
      unfolding ax using assms(1) by (intro mult_right_mono) (auto simp del: of_int_power simp: of_int_le_iff)
    also have "\<dots> = 2 powi (e + 53)" using powi_int_scale [of e 53] by simp
    finally have "ilog2 \<bar>x\<bar> \<le> e + 53" by (metis linorder_not_le nle_le order_antisym_conv power_int_strict_increasing one_less_numeral_iff semiring_norm(76))
    then have u1: "ulp_exp x = e + 1" and i: "ilog2 \<bar>x\<bar> = e + 53" using f u by auto
    have "2 powi (e + 53) \<le> \<bar>x\<bar>" using ilog2_bounds(1) [of "\<bar>x\<bar>"] x0 i by simp
    then have "(of_int (2 ^ 53) :: rat) * 2 powi e \<le> of_int \<bar>m\<bar> * 2 powi e"
      using powi_int_scale [of e 53] ax by simp
    then have "(of_int (2 ^ 53) :: rat) \<le> of_int \<bar>m\<bar>" by (simp add: mult_le_cancel_right)
    then have m: "\<bar>m\<bar> = 2 ^ 53" using assms(1) by (simp only: of_int_le_iff)
    then obtain s where s: "m = s * 2 ^ 53" "s = 1 \<or> s = - 1"
      by (metis abs_eq_iff' mult_1 mult_minus1)
    have "x / 2 powi ulp_exp x = of_int (s * 2 ^ 52)"
      using u1 s(1) by (simp add: x_def powi_add)
    then have "half_even (x / 2 powi ulp_exp x) = s * 2 ^ 52" by (simp del: of_int_mult)
    then have "rn64 x = of_int (s * 2 ^ 52) * 2 powi (e + 1)" using x0 u1 by (simp add: rn64_def)
    then show ?thesis using s(1) by (simp add: x_def powi_add)
  qed
qed

lemma rep64_scaled: "\<bar>m\<bar> \<le> 2 ^ 53 \<Longrightarrow> - 1074 \<le> e \<Longrightarrow> rep64 (of_int m * 2 powi e)"
  by (simp add: rep64_def rn64_scaled)

lemma rep64_of_int: "\<bar>m\<bar> \<le> 2 ^ 53 \<Longrightarrow> rep64 (of_int m)"
  using rep64_scaled [of m 0] by simp

theorem rep64_rn64 [simp]: "rep64 (rn64 x)"
proof (cases "x = 0")
  case True
  then show ?thesis by simp
next
  case False
  define m where "m = half_even (x / 2 powi ulp_exp x)"
  have "\<bar>x\<bar> < 2 powi (ilog2 \<bar>x\<bar> + 1)" using False by (intro ilog2_bounds) simp
  also have "\<dots> \<le> 2 powi (ulp_exp x + 53)" by (intro powi_mono) (auto simp: ulp_exp_def)
  also have "\<dots> = of_int (2 ^ 53) * 2 powi ulp_exp x"
    using powi_int_scale [of "ulp_exp x" 53] by simp
  finally have b: "\<bar>x / 2 powi ulp_exp x\<bar> \<le> of_int (2 ^ 53)"
    by (simp add: abs_divide pos_divide_le_eq)
  then have b1: "x / 2 powi ulp_exp x \<le> of_int (2 ^ 53)" and b2: "of_int (- (2 ^ 53)) \<le> x / 2 powi ulp_exp x"
    by (simp_all only: abs_le_iff of_int_minus minus_le_iff)
  have "m \<le> 2 ^ 53" unfolding m_def by (rule half_even_le_int [OF b1])
  moreover have "- (2 ^ 53) \<le> m" unfolding m_def by (rule half_even_ge_int [OF b2])
  ultimately have "\<bar>m\<bar> \<le> 2 ^ 53" by linarith
  then have "rep64 (of_int m * 2 powi ulp_exp x)"
    by (rule rep64_scaled) (simp add: ulp_exp_def)
  then show ?thesis using False by (simp add: rn64_def m_def)
qed

lemma rep64_minus [simp]: "rep64 (- x) \<longleftrightarrow> rep64 x"
  by (simp add: rep64_def)

lemma rn64_le_rep: "x \<le> y \<Longrightarrow> rep64 y \<Longrightarrow> rn64 x \<le> y"
  using rn64_mono [of x y] by (simp add: rep64_def)

lemma rn64_ge_rep: "y \<le> x \<Longrightarrow> rep64 y \<Longrightarrow> y \<le> rn64 x"
  using rn64_mono [of y x] by (simp add: rep64_def)

subsection \<open>Values and operations\<close>

datatype pyfloat = Fin rat | PInf | NInf | NaN

definition f_of_rat :: "rat \<Rightarrow> pyfloat" where
  "f_of_rat x = (let r = rn64 x in if 2 ^ 1024 \<le> r then PInf else if r \<le> - (2 ^ 1024) then NInf else Fin r)"

text \<open>A literal such as \<open>0.1\<close> is the double nearest to the decimal.\<close>

abbreviation (input) lit :: "rat \<Rightarrow> pyfloat" where
  "lit x \<equiv> f_of_rat x"

fun f_neg :: "pyfloat \<Rightarrow> pyfloat" where
  "f_neg (Fin a) = Fin (- a)"
| "f_neg PInf = NInf"
| "f_neg NInf = PInf"
| "f_neg NaN = NaN"

fun f_add :: "pyfloat \<Rightarrow> pyfloat \<Rightarrow> pyfloat" where
  "f_add (Fin a) (Fin b) = f_of_rat (a + b)"
| "f_add NaN _ = NaN"
| "f_add _ NaN = NaN"
| "f_add PInf NInf = NaN"
| "f_add NInf PInf = NaN"
| "f_add PInf _ = PInf"
| "f_add _ PInf = PInf"
| "f_add NInf _ = NInf"
| "f_add _ NInf = NInf"

definition f_sub :: "pyfloat \<Rightarrow> pyfloat \<Rightarrow> pyfloat" where
  "f_sub a b = f_add a (f_neg b)"

definition f_inf_sign :: "bool \<Rightarrow> pyfloat" where
  "f_inf_sign pos = (if pos then PInf else NInf)"

text \<open>The sign of a value that is not a NaN: positive, zero or negative.\<close>

fun f_sgn :: "pyfloat \<Rightarrow> rat" where
  "f_sgn (Fin a) = sgn a"
| "f_sgn PInf = 1"
| "f_sgn NInf = - 1"
| "f_sgn NaN = 0"

definition f_mul :: "pyfloat \<Rightarrow> pyfloat \<Rightarrow> pyfloat" where
  "f_mul a b = (case (a, b) of
     (Fin x, Fin y) \<Rightarrow> f_of_rat (x * y)
   | (NaN, _) \<Rightarrow> NaN
   | (_, NaN) \<Rightarrow> NaN
   | _ \<Rightarrow> if f_sgn a * f_sgn b = 0 then NaN else f_inf_sign (0 < f_sgn a * f_sgn b))"

text \<open>Division by a divisor the caller has checked; Python raises on a zero divisor.\<close>

definition f_div :: "pyfloat \<Rightarrow> pyfloat \<Rightarrow> pyfloat option" where
  "f_div a b = (case (a, b) of
     (Fin x, Fin y) \<Rightarrow> if y = 0 then None else Some (f_of_rat (x / y))
   | (_, Fin y) \<Rightarrow> if y = 0 then None else Some (if a = NaN then NaN else f_inf_sign (0 < f_sgn a * sgn y))
   | (Fin x, _) \<Rightarrow> Some (if b = NaN then NaN else Fin 0)
   | _ \<Rightarrow> Some NaN)"

fun f_lt :: "pyfloat \<Rightarrow> pyfloat \<Rightarrow> bool" where
  "f_lt (Fin a) (Fin b) = (a < b)"
| "f_lt NaN _ = False"
| "f_lt _ NaN = False"
| "f_lt NInf b = (b \<noteq> NInf)"
| "f_lt a PInf = (a \<noteq> PInf)"
| "f_lt _ _ = False"

fun f_le :: "pyfloat \<Rightarrow> pyfloat \<Rightarrow> bool" where
  "f_le NaN _ = False"
| "f_le _ NaN = False"
| "f_le a b = (f_lt a b \<or> a = b)"

definition f_eq :: "pyfloat \<Rightarrow> pyfloat \<Rightarrow> bool" where
  "f_eq a b \<longleftrightarrow> a \<noteq> NaN \<and> a = b"

text \<open>\<open>max(a, b)\<close> and \<open>min(a, b)\<close> keep the first argument unless the second is strictly better.\<close>

definition py_max :: "pyfloat \<Rightarrow> pyfloat \<Rightarrow> pyfloat" where
  "py_max a b = (if f_lt a b then b else a)"

definition py_min :: "pyfloat \<Rightarrow> pyfloat \<Rightarrow> pyfloat" where
  "py_min a b = (if f_lt b a then b else a)"

text \<open>\<open>round(x, n)\<close>: to \<open>n\<close> decimals, ties to even on the exact value, then to the nearest double.\<close>

fun py_round :: "nat \<Rightarrow> pyfloat \<Rightarrow> pyfloat" where
  "py_round n (Fin x) = f_of_rat (of_int (half_even (x * 10 ^ n)) / 10 ^ n)"
| "py_round n v = v"

fun is_finite :: "pyfloat \<Rightarrow> bool" where
  "is_finite (Fin _) = True"
| "is_finite _ = False"

text \<open>A well-formed value: its rational is one binary64 holds.\<close>

fun wf_float :: "pyfloat \<Rightarrow> bool" where
  "wf_float (Fin x) = (rep64 x \<and> \<bar>x\<bar> < 2 ^ 1024)"
| "wf_float _ = True"

subsection \<open>Evaluation on integers\<close>

text \<open>
  Code equations that compute the roundings on integer numerators and denominators, so that
  the simplifier evaluates a float operation without unfolding rational arithmetic.
\<close>

definition half_even_quot :: "int \<Rightarrow> int \<Rightarrow> int" where
  "half_even_quot p q = (let f = p div q; r2 = 2 * (p mod q) in
     if r2 < q then f else if q < r2 then f + 1 else if even f then f else f + 1)"

definition pow2 :: "int \<Rightarrow> int" where
  "pow2 e = 2 ^ nat e"

definition round_parts :: "int \<Rightarrow> int \<Rightarrow> int \<times> int" where
  "round_parts p q = (let k = bitlen \<bar>p\<bar> - bitlen q;
       i = (if pow2 k * q \<le> \<bar>p\<bar> * pow2 (- k) then k else k - 1);
       e = max (i - 52) (- 1074)
     in (half_even_quot (p * pow2 (- e)) (q * pow2 e), e))"

lemma half_even_quot:
  assumes "0 < q"
  shows "half_even (of_int p / of_int q) = half_even_quot p q"
proof -
  have fl: "\<lfloor>(of_int p / of_int q :: rat)\<rfloor> = p div q" by (rule floor_divide_of_int_eq)
  have "(of_int p :: rat) = of_int (p div q) * of_int q + of_int (p mod q)"
    by (metis div_mult_mod_eq of_int_add of_int_mult)
  then have d: "(of_int p / of_int q :: rat) - of_int (p div q) = of_int (p mod q) / of_int q"
    using assms by (simp add: field_simps)
  have l: "(of_int (p mod q) / of_int q :: rat) < 1/2 \<longleftrightarrow> 2 * (p mod q) < q"
  proof -
    have "(of_int (p mod q) / of_int q :: rat) < 1/2 \<longleftrightarrow> of_int (2 * (p mod q)) < (of_int q :: rat)"
      using assms by (simp add: field_simps)
    then show ?thesis by (simp only: of_int_less_iff)
  qed
  have g: "(1/2 :: rat) < of_int (p mod q) / of_int q \<longleftrightarrow> q < 2 * (p mod q)"
  proof -
    have "(1/2 :: rat) < of_int (p mod q) / of_int q \<longleftrightarrow> (of_int q :: rat) < of_int (2 * (p mod q))"
      using assms by (simp add: field_simps)
    then show ?thesis by (simp only: of_int_less_iff)
  qed
  show ?thesis by (simp only: half_even_def half_even_quot_def Let_def fl d l g)
qed

lemma half_even_code [code]: "half_even x = (case quotient_of x of (p, q) \<Rightarrow> half_even_quot p q)"
  by (cases "quotient_of x") (metis case_prod_conv half_even_quot quotient_of_denom_pos quotient_of_div)

lemma powi_pow2: "(2::rat) powi e = of_int (pow2 e) / of_int (pow2 (- e))"
  by (cases "0 \<le> e") (auto simp: pow2_def power_int_def field_simps)

lemma pow2_pos [simp]: "0 < pow2 e"
  by (simp add: pow2_def)

lemma round_parts:
  assumes q: "0 < q" and p: "p \<noteq> 0" and x: "x = of_int p / of_int q" and qx: "quotient_of x = (p, q)"
  shows "round_parts p q = (half_even (x / 2 powi ulp_exp x), ulp_exp x)"
proof -
  define k where "k = bitlen \<bar>p\<bar> - bitlen q"
  have ax: "quotient_of \<bar>x\<bar> = (\<bar>p\<bar>, q)" by (simp add: rat_abs_code qx)
  have "2 powi k \<le> \<bar>x\<bar> \<longleftrightarrow> of_int (pow2 k * q) \<le> (of_int (\<bar>p\<bar> * pow2 (- k)) :: rat)"
    using q by (simp add: powi_pow2 x abs_divide field_simps)
  also have "\<dots> \<longleftrightarrow> pow2 k * q \<le> \<bar>p\<bar> * pow2 (- k)" by (rule of_int_le_iff)
  finally have i: "ilog2 \<bar>x\<bar> = (if pow2 k * q \<le> \<bar>p\<bar> * pow2 (- k) then k else k - 1)"
    by (simp add: ilog2_def ax k_def Let_def)
  have u: "max ((if pow2 k * q \<le> \<bar>p\<bar> * pow2 (- k) then k else k - 1) - 52) (- 1074) = ulp_exp x"
    by (simp add: ulp_exp_def i)
  have "x / 2 powi ulp_exp x = of_int (p * pow2 (- ulp_exp x)) / of_int (q * pow2 (ulp_exp x))"
    using q by (simp add: powi_pow2 x field_simps)
  then have "half_even (x / 2 powi ulp_exp x) = half_even_quot (p * pow2 (- ulp_exp x)) (q * pow2 (ulp_exp x))"
    using half_even_quot [of "q * pow2 (ulp_exp x)"] q by (simp del: of_int_mult)
  then show ?thesis by (simp add: round_parts_def Let_def k_def [symmetric] u)
qed

lemma rn64_code [code]:
  "rn64 x = (case quotient_of x of (p, q) \<Rightarrow> if p = 0 then 0 else
     (case round_parts p q of (m, e) \<Rightarrow> Fract (m * pow2 e) (pow2 (- e))))"
proof (cases "x = 0")
  case True
  then show ?thesis by simp
next
  case False
  obtain p q where pq: "quotient_of x = (p, q)" by (cases "quotient_of x")
  note q = quotient_of_denom_pos [OF pq] and x = quotient_of_div [OF pq]
  have p: "p \<noteq> 0" using False x by auto
  show ?thesis using False p by (simp add: pq round_parts [OF q p x pq] rn64_def Fract_of_int_quotient powi_pow2)
qed

lemma round_parts_bound:
  assumes "quotient_of x = (p, q)" and "p \<noteq> 0" and "round_parts p q = (m, e)"
  shows "\<bar>m\<bar> \<le> 2 ^ 53"
proof -
  have x0: "x \<noteq> 0" using assms(1,2) by auto
  have m: "m = half_even (x / 2 powi ulp_exp x)"
    using round_parts [OF quotient_of_denom_pos [OF assms(1)] assms(2) quotient_of_div [OF assms(1)] assms(1)] assms(3) by simp
  have "\<bar>x\<bar> < 2 powi (ilog2 \<bar>x\<bar> + 1)" using x0 by (intro ilog2_bounds) simp
  also have "\<dots> \<le> 2 powi (ulp_exp x + 53)" by (intro powi_mono) (auto simp: ulp_exp_def)
  also have "\<dots> = of_int (2 ^ 53) * 2 powi ulp_exp x"
    using powi_int_scale [of "ulp_exp x" 53] by simp
  finally have b: "\<bar>x / 2 powi ulp_exp x\<bar> \<le> of_int (2 ^ 53)"
    by (simp add: abs_divide pos_divide_le_eq)
  then have b1: "x / 2 powi ulp_exp x \<le> of_int (2 ^ 53)" and b2: "of_int (- (2 ^ 53)) \<le> x / 2 powi ulp_exp x"
    by (simp_all only: abs_le_iff of_int_minus minus_le_iff)
  have "m \<le> 2 ^ 53" unfolding m by (rule half_even_le_int [OF b1])
  moreover have "- (2 ^ 53) \<le> m" unfolding m by (rule half_even_ge_int [OF b2])
  ultimately show ?thesis by linarith
qed

lemma f_of_rat_code [code]:
  "f_of_rat x = (case quotient_of x of (p, q) \<Rightarrow> if p = 0 then Fin 0 else
     (case round_parts p q of (m, e) \<Rightarrow>
        if e < 971 then Fin (Fract (m * pow2 e) (pow2 (- e)))
        else let r = rn64 x in if 2 ^ 1024 \<le> r then PInf else if r \<le> - (2 ^ 1024) then NInf else Fin r))"
proof -
  obtain p q where pq: "quotient_of x = (p, q)" by (cases "quotient_of x")
  obtain m e where me: "round_parts p q = (m, e)" by (cases "round_parts p q")
  have big: "\<bar>rn64 x\<bar> < 2 ^ 1024" if "p \<noteq> 0" "e < 971"
  proof -
    have r: "rn64 x = of_int m * 2 powi e"
      using that(1) by (simp add: rn64_code [of x] pq me Fract_of_int_quotient powi_pow2)
    have "\<bar>rn64 x\<bar> = of_int \<bar>m\<bar> * 2 powi e" by (simp add: r abs_mult)
    also have "\<dots> \<le> of_int (2 ^ 53) * 2 powi e"
      using round_parts_bound [OF pq that(1) me] by (intro mult_right_mono) (simp_all only: of_int_le_iff, simp)
    also have "\<dots> = 2 powi (e + 53)" using powi_int_scale [of e 53] by simp
    also have "\<dots> < 2 powi 1024" using that(2) by (intro power_int_strict_increasing) auto
    also have "\<dots> = 2 ^ 1024" by (simp add: power_int_def)
    finally show ?thesis .
  qed
  have aux: "\<bar>r\<bar> < B \<Longrightarrow> \<not> B \<le> r \<and> \<not> r \<le> - B" for r B :: rat by linarith
  have small: "\<not> 2 ^ 1024 \<le> rn64 x \<and> \<not> rn64 x \<le> - (2 ^ 1024)" if "p \<noteq> 0" "e < 971"
    by (rule aux) (rule big [OF that])
  have r: "p = 0 \<Longrightarrow> rn64 x = 0" "p \<noteq> 0 \<Longrightarrow> rn64 x = Fract (m * pow2 e) (pow2 (- e))"
    using rn64_code [of x] by (simp_all add: pq me)
  show ?thesis
  proof (cases "p = 0")
    case True
    then show ?thesis using r(1) by (simp add: f_of_rat_def pq Let_def)
  next
    case False
    note r2 = r(2) [OF False]
    show ?thesis
      using small [OF False] False
      unfolding f_of_rat_def pq me Let_def prod.case if_not_P [OF False] r2 [symmetric]
      by (simp only: if_False split: if_split) blast
  qed
qed

subsection \<open>Laws\<close>

lemma f_of_rat_wf [simp]: "wf_float (f_of_rat x)"
  by (auto simp: f_of_rat_def Let_def abs_less_iff)

lemma f_of_rat_rep: "rep64 x \<Longrightarrow> \<bar>x\<bar> < 2 ^ 1024 \<Longrightarrow> f_of_rat x = Fin x"
  by (auto simp: f_of_rat_def rep64_def Let_def abs_less_iff)

lemma f_of_rat_of_int: "\<bar>m\<bar> \<le> 2 ^ 53 \<Longrightarrow> f_of_rat (of_int m) = Fin (of_int m)"
proof (rule f_of_rat_rep)
  assume m: "\<bar>m\<bar> \<le> 2 ^ 53"
  then show "rep64 (of_int m)" by (rule rep64_of_int)
  have "\<bar>of_int m :: rat\<bar> = of_int \<bar>m\<bar>" by simp
  also have "\<dots> \<le> of_int (2 ^ 53)" using m by (simp only: of_int_le_iff)
  also have "\<dots> < 2 ^ 1024" by simp
  finally show "\<bar>of_int m :: rat\<bar> < 2 ^ 1024" .
qed

lemma f_of_rat_0 [simp]: "f_of_rat 0 = Fin 0"
  by (simp add: f_of_rat_def)

lemma f_le_refl [simp]: "f_le a a \<longleftrightarrow> a \<noteq> NaN"
  by (cases a) auto

lemma f_le_Fin [simp]: "f_le (Fin a) (Fin b) \<longleftrightarrow> a \<le> b"
  by auto

lemma f_le_trans: "f_le a b \<Longrightarrow> f_le b c \<Longrightarrow> f_le a c"
  by (cases a; cases b; cases c) auto

lemma f_lt_le_trans: "f_lt a b \<Longrightarrow> f_le b c \<Longrightarrow> f_lt a c"
  by (cases a; cases b; cases c) auto

lemma f_le_lt_trans: "f_le a b \<Longrightarrow> f_lt b c \<Longrightarrow> f_lt a c"
  by (cases a; cases b; cases c) auto

lemma f_lt_imp_le: "f_lt a b \<Longrightarrow> f_le a b"
  by (cases a; cases b) auto

lemma f_lt_irrefl [simp]: "\<not> f_lt a a"
  by (cases a) auto

lemma f_lt_not_NaN: "f_lt a b \<Longrightarrow> a \<noteq> NaN \<and> b \<noteq> NaN"
  by (cases a; cases b) auto

lemma f_le_not_NaN: "f_le a b \<Longrightarrow> a \<noteq> NaN \<and> b \<noteq> NaN"
  by (cases a; cases b) auto

lemma f_not_lt: "a \<noteq> NaN \<Longrightarrow> b \<noteq> NaN \<Longrightarrow> \<not> f_lt a b \<longleftrightarrow> f_le b a"
  by (cases a; cases b) auto

lemma f_not_le: "a \<noteq> NaN \<Longrightarrow> b \<noteq> NaN \<Longrightarrow> \<not> f_le a b \<longleftrightarrow> f_lt b a"
  by (cases a; cases b) auto

lemma f_of_rat_not_NaN [simp]: "f_of_rat x \<noteq> NaN"
  by (simp add: f_of_rat_def Let_def)

lemma f_of_rat_mono: "x \<le> y \<Longrightarrow> f_le (f_of_rat x) (f_of_rat y)"
  using rn64_mono [of x y] by (auto simp: f_of_rat_def Let_def)

lemma f_of_rat_le_Fin: "x \<le> y \<Longrightarrow> wf_float (Fin y) \<Longrightarrow> f_le (f_of_rat x) (Fin y)"
  using f_of_rat_mono [of x y] f_of_rat_rep [of y] by simp

lemma f_of_rat_ge_Fin: "y \<le> x \<Longrightarrow> wf_float (Fin y) \<Longrightarrow> f_le (Fin y) (f_of_rat x)"
  using f_of_rat_mono [of y x] f_of_rat_rep [of y] by simp

lemma f_of_rat_nonneg [simp]: "0 \<le> x \<Longrightarrow> f_le (Fin 0) (f_of_rat x)"
  by (rule f_of_rat_ge_Fin) auto

lemma f_le_PInf [simp]: "f_le a PInf \<longleftrightarrow> a \<noteq> NaN"
  by (cases a) auto

lemma f_le_NInf [simp]: "f_le NInf a \<longleftrightarrow> a \<noteq> NaN"
  by (cases a) auto

lemma py_max_ge1: "a \<noteq> NaN \<Longrightarrow> f_le a (py_max a b)"
  by (auto simp: py_max_def f_lt_imp_le)

lemma py_max_not_NaN: "a \<noteq> NaN \<Longrightarrow> py_max a b \<noteq> NaN"
  using f_lt_not_NaN by (auto simp: py_max_def)

lemma py_min_le1: "a \<noteq> NaN \<Longrightarrow> f_le (py_min a b) a"
  by (auto simp: py_min_def f_lt_imp_le)

lemma py_min_le2: "a \<noteq> NaN \<Longrightarrow> b \<noteq> NaN \<Longrightarrow> f_le (py_min a b) b"
  by (auto simp: py_min_def f_not_lt)

lemma py_min_NaN [simp]: "py_min NaN b = NaN"
  by (cases b) (auto simp: py_min_def)

lemma py_min_NaN_iff: "py_min a b = NaN \<longleftrightarrow> a = NaN"
  by (cases a; cases b) (auto simp: py_min_def)

lemma wf_py_max: "wf_float a \<Longrightarrow> wf_float b \<Longrightarrow> wf_float (py_max a b)"
  by (simp add: py_max_def)

lemma wf_py_min: "wf_float a \<Longrightarrow> wf_float b \<Longrightarrow> wf_float (py_min a b)"
  by (simp add: py_min_def)

lemma wf_f_neg [simp]: "wf_float (f_neg a) = wf_float a"
  by (cases a) auto

lemma wf_f_add: "wf_float (f_add a b)"
  by (cases a; cases b) auto

lemma wf_f_sub: "wf_float (f_sub a b)"
  by (simp add: f_sub_def wf_f_add)

lemma wf_f_mul: "wf_float (f_mul a b)"
  by (cases a; cases b) (auto simp: f_mul_def f_inf_sign_def)

lemma f_add_nonneg:
  assumes "f_le (Fin 0) a" "f_le (Fin 0) b"
  shows "f_le (Fin 0) (f_add a b)"
  using assms by (cases a; cases b) auto

lemma f_mul_nonneg:
  assumes "f_le (Fin 0) a" "f_le (Fin 0) b" "is_finite a" "is_finite b"
  shows "f_le (Fin 0) (f_mul a b)"
  using assms by (cases a; cases b) (auto simp: f_mul_def)

lemma f_add_mono_Fin:
  assumes "f_le a b" "is_finite c"
  shows "f_le (f_add a c) (f_add b c)"
  using assms by (cases a; cases b; cases c) (auto intro: f_of_rat_mono)

lemma f_add_0 [simp]: "wf_float a \<Longrightarrow> f_add a (Fin 0) = a"
  by (cases a) (auto simp: f_of_rat_rep)

end
