(* ===== verification/PyVal.thy ===== *)
theory PyVal
  imports Prelude PyFloat
begin

text \<open>
  The JSON-like values held in \<open>dict[str, Any]\<close>: \<open>None\<close>, booleans, integers, floats,
  text, lists and string-keyed dictionaries in insertion order, with Python's truth test,
  \<open>dict.get\<close>, the \<open>a or b\<close> idiom and the \<open>isinstance\<close> tests the code performs.
\<close>

datatype pyval = VNone | VBool bool | VInt int | VFloat pyfloat | VStr string
  | VList "pyval list" | VDict "(string \<times> pyval) list"

fun truthy :: "pyval \<Rightarrow> bool" where
  "truthy VNone = False"
| "truthy (VBool b) = b"
| "truthy (VInt i) = (i \<noteq> 0)"
| "truthy (VFloat f) = (f \<noteq> Fin 0)"
| "truthy (VStr s) = (s \<noteq> [])"
| "truthy (VList xs) = (xs \<noteq> [])"
| "truthy (VDict d) = (d \<noteq> [])"

definition py_or :: "pyval \<Rightarrow> pyval \<Rightarrow> pyval" where
  "py_or a b = (if truthy a then a else b)"

fun is_dict :: "pyval \<Rightarrow> bool" where
  "is_dict (VDict _) = True"
| "is_dict _ = False"

fun is_str :: "pyval \<Rightarrow> bool" where
  "is_str (VStr _) = True"
| "is_str _ = False"

fun is_list :: "pyval \<Rightarrow> bool" where
  "is_list (VList _) = True"
| "is_list _ = False"

text \<open>\<open>d.get(k)\<close> on a dictionary value, with \<open>None\<close> for a missing key.\<close>

definition get_item :: "(string \<times> pyval) list \<Rightarrow> string \<Rightarrow> pyval" where
  "get_item d k = (case dict_get d k of None \<Rightarrow> VNone | Some v \<Rightarrow> v)"

definition get_default :: "(string \<times> pyval) list \<Rightarrow> string \<Rightarrow> pyval \<Rightarrow> pyval" where
  "get_default d k v = (case dict_get d k of None \<Rightarrow> v | Some x \<Rightarrow> x)"

lemma get_item_set [simp]: "get_item (dict_set d k v) k' = (if k' = k then v else get_item d k')"
  by (simp add: get_item_def)

lemma get_item_pop [simp]: "get_item (dict_pop d k) k' = (if k' = k then VNone else get_item d k')"
  by (simp add: get_item_def)

lemma get_item_Nil [simp]: "get_item [] k = VNone"
  by (simp add: get_item_def)

lemma get_item_Cons [simp]: "get_item ((k', v) # d) k = (if k = k' then v else get_item d k)"
  by (simp add: get_item_def)

lemma truthy_py_or [simp]: "truthy (py_or a b) \<longleftrightarrow> truthy a \<or> truthy b"
  by (simp add: py_or_def)

text \<open>
  \<open>a == b\<close>: numbers by value, lists item by item, dictionaries by their keys in any order. A NaN
  is different from every value.
\<close>

definition number_value :: "pyval \<Rightarrow> pyfloat option" where
  "number_value v = (case v of VBool b \<Rightarrow> Some (Fin (if b then 1 else 0)) | VInt i \<Rightarrow> Some (Fin (of_int i)) | VFloat f \<Rightarrow> Some f | _ \<Rightarrow> None)"

definition number_eq :: "pyval \<Rightarrow> pyval \<Rightarrow> bool" where
  "number_eq v w = (case (number_value v, number_value w) of (Some a, Some b) \<Rightarrow> f_eq a b | _ \<Rightarrow> False)"

fun py_eq :: "pyval \<Rightarrow> pyval \<Rightarrow> bool"
  and items_eq :: "pyval list \<Rightarrow> pyval list \<Rightarrow> bool"
  and fields_eq :: "(string \<times> pyval) list \<Rightarrow> (string \<times> pyval) list \<Rightarrow> bool" where
  "py_eq VNone w = (w = VNone)"
| "py_eq (VStr s) w = (w = VStr s)"
| "py_eq (VList xs) w = (case w of VList ys \<Rightarrow> items_eq xs ys | _ \<Rightarrow> False)"
| "py_eq (VDict d) w = (case w of VDict e \<Rightarrow> length d = length e \<and> fields_eq d e | _ \<Rightarrow> False)"
| "py_eq v w = number_eq v w"
| "items_eq [] ys = (ys = [])"
| "items_eq (x # xs) ys = (case ys of [] \<Rightarrow> False | y # zs \<Rightarrow> py_eq x y \<and> items_eq xs zs)"
| "fields_eq [] e = True"
| "fields_eq ((k, v) # d) e = (case dict_get e k of None \<Rightarrow> False | Some w \<Rightarrow> py_eq v w \<and> fields_eq d e)"

text \<open>\<open>not s\<close> for an optional text, as in \<open>if not self.last_error_code\<close>.\<close>

definition falsy_text :: "string option \<Rightarrow> bool" where
  "falsy_text s \<longleftrightarrow> s = None \<or> s = Some []"

subsection \<open>Text of values\<close>

text \<open>
  \<open>repr\<close> of a float: the shortest decimal that reads back as the same double, in positional
  notation for decimal exponents between -4 and 16. \<open>ilog10\<close> is the decimal exponent of
  a positive value; \<open>short_digits\<close> looks for a decimal of \<open>n\<close> digits that reads back.
\<close>

definition ilog10 :: "rat \<Rightarrow> int" where
  "ilog10 x = (let k = ilog2 x * 30103 div 100000 in
     if 10 powi (k + 1) \<le> x then k + 1 else if x < 10 powi k then k - 1 else k)"

definition short_digits :: "rat \<Rightarrow> nat \<Rightarrow> int option" where
  "short_digits x n = (let scale = 10 powi (int n - 1 - ilog10 x); lo = \<lfloor>x * scale\<rfloor>;
       reads = (\<lambda>c. rn64 (of_int c / scale) = x); near = half_even (x * scale)
     in if reads near then Some near else if reads lo then Some lo else if reads (lo + 1) then Some (lo + 1) else None)"

fun float_digits :: "rat \<Rightarrow> nat \<Rightarrow> nat \<Rightarrow> string \<times> int" where
  "float_digits x n 0 = (int_text (half_even (x * 10 powi (16 - ilog10 x))), ilog10 x + 1)"
| "float_digits x n (Suc fuel) = (case short_digits x n of
     None \<Rightarrow> float_digits x (n + 1) fuel
   | Some c \<Rightarrow> if c = 10 ^ n then (''1'', ilog10 x + 2) else (int_text c, ilog10 x + 1))"

definition exp_text :: "int \<Rightarrow> string" where
  "exp_text e = (if e < 0 then ''-'' else ''+'') @ (if \<bar>e\<bar> < 10 then ''0'' else []) @ int_text \<bar>e\<bar>"

definition pos_float_text :: "rat \<Rightarrow> string" where
  "pos_float_text x = (case float_digits x 1 16 of (ds, p) \<Rightarrow>
     if - 4 < p \<and> p \<le> 16 then
       (if p \<le> 0 then ''0.'' @ replicate (nat (- p)) CHR ''0'' @ ds
        else if int (length ds) \<le> p then ds @ replicate (nat p - length ds) CHR ''0'' @ ''.0''
        else take (nat p) ds @ ''.'' @ drop (nat p) ds)
     else take 1 ds @ (if length ds = 1 then [] else ''.'' @ drop 1 ds) @ ''e'' @ exp_text (p - 1))"

fun float_repr :: "pyfloat \<Rightarrow> string" where
  "float_repr (Fin x) = (if x = 0 then ''0.0'' else if x < 0 then ''-'' @ pos_float_text (- x) else pos_float_text x)"
| "float_repr PInf = ''inf''"
| "float_repr NInf = ''-inf''"
| "float_repr NaN = ''nan''"

text \<open>\<open>repr\<close> of ASCII text, and \<open>str\<close> and \<open>repr\<close> of a value.\<close>

definition hex_digit :: "nat \<Rightarrow> char" where
  "hex_digit d = (if d < 10 then char_of (48 + d) else char_of (87 + d))"

definition repr_char :: "char \<Rightarrow> char \<Rightarrow> string" where
  "repr_char q c = (let n = of_char c :: nat in
     if c = q \<or> n = 92 then [char_of (92::nat), c]
     else if n = 10 then [char_of (92::nat), CHR ''n''] else if n = 13 then [char_of (92::nat), CHR ''r'']
     else if n = 9 then [char_of (92::nat), CHR ''t'']
     else if n < 32 \<or> n = 127 then [char_of (92::nat), CHR ''x'', hex_digit (n div 16), hex_digit (n mod 16)]
     else [c])"

definition str_repr :: "string \<Rightarrow> string" where
  "str_repr s = (let sq = char_of (39::nat); dq = char_of (34::nat); q = (if sq \<in> set s \<and> dq \<notin> set s then dq else sq)
     in [q] @ concat (map (repr_char q) s) @ [q])"

fun py_repr :: "pyval \<Rightarrow> string" where
  "py_repr VNone = ''None''"
| "py_repr (VBool b) = (if b then ''True'' else ''False'')"
| "py_repr (VInt i) = int_text i"
| "py_repr (VFloat f) = float_repr f"
| "py_repr (VStr s) = str_repr s"
| "py_repr (VList xs) = ''['' @ join_with '', '' (map py_repr xs) @ '']''"
| "py_repr (VDict d) = ''{'' @ join_with '', '' (map (\<lambda>(k, v). str_repr k @ '': '' @ py_repr v) d) @ ''}''"

definition py_str :: "pyval \<Rightarrow> string" where
  "py_str v = (case v of VStr s \<Rightarrow> s | _ \<Rightarrow> py_repr v)"

subsection \<open>Integers and JSON text of values\<close>

definition is_digit :: "char \<Rightarrow> bool" where
  "is_digit c = (let n = of_char c :: nat in 48 \<le> n \<and> n \<le> 57)"

definition digits_value :: "string \<Rightarrow> int" where
  "digits_value s = foldl (\<lambda>acc c. 10 * acc + (of_char c - 48)) 0 s"

definition parse_digits :: "string \<Rightarrow> int option" where
  "parse_digits s = (let groups = split_on CHR ''_'' s in
     if \<forall>g \<in> set groups. g \<noteq> [] \<and> (\<forall>c \<in> set g. is_digit c) then Some (digits_value (concat groups)) else None)"

text \<open>\<open>int(text)\<close>: blanks around, an optional sign, digits with single underscores between them.\<close>

definition parse_int :: "string \<Rightarrow> int option" where
  "parse_int s = (case strip s of
     [] \<Rightarrow> None
   | c # cs \<Rightarrow> if c = CHR ''-'' then map_option uminus (parse_digits cs) else if c = CHR ''+'' then parse_digits cs else parse_digits (c # cs))"

definition py_int :: "pyval \<Rightarrow> int result" where
  "py_int v = (case v of
     VInt i \<Rightarrow> Inr i
   | VBool b \<Rightarrow> Inr (if b then 1 else 0)
   | VFloat (Fin x) \<Rightarrow> Inr (if 0 \<le> x then \<lfloor>x\<rfloor> else \<lceil>x\<rceil>)
   | VFloat NaN \<Rightarrow> Inl (ValueError ''cannot convert float NaN to integer'')
   | VFloat _ \<Rightarrow> Inl (PyExc ''OverflowError'' ''cannot convert float infinity to integer'')
   | VStr s \<Rightarrow> (case parse_int s of Some i \<Rightarrow> Inr i
       | None \<Rightarrow> Inl (ValueError (''invalid literal for int() with base 10: '' @ str_repr s)))
   | _ \<Rightarrow> Inl (TypeError ''int() argument must be a string, a bytes-like object or a real number''))"

text \<open>
  \<open>float(text)\<close>: blanks around, an optional sign, then \<open>inf\<close>, \<open>infinity\<close> or \<open>nan\<close> in any case, or
  a decimal with digits before or after the point and an optional exponent.
\<close>

definition split_first :: "(char \<Rightarrow> bool) \<Rightarrow> string \<Rightarrow> string \<times> string option" where
  "split_first p s = (case dropWhile (\<lambda>c. \<not> p c) s of [] \<Rightarrow> (s, None) | _ # rest \<Rightarrow> (takeWhile (\<lambda>c. \<not> p c) s, Some rest))"

definition signed :: "string \<Rightarrow> int \<times> string" where
  "signed s = (case s of [] \<Rightarrow> (1, []) | c # cs \<Rightarrow> if c = CHR ''-'' then (- 1, cs) else if c = CHR ''+'' then (1, cs) else (1, c # cs))"

definition parse_decimal :: "string \<Rightarrow> rat option" where
  "parse_decimal s = (case split_first (\<lambda>c. c = CHR ''.'') s of
     (whole, None) \<Rightarrow> map_option of_int (parse_digits whole)
   | (whole, Some part) \<Rightarrow>
       if whole = [] \<and> part = [] then None
       else (case (if whole = [] then Some 0 else parse_digits whole, if part = [] then Some 0 else parse_digits part) of
           (Some w, Some f) \<Rightarrow> Some (of_int w + of_int f / 10 ^ length (filter is_digit part))
         | _ \<Rightarrow> None))"

definition parse_number :: "string \<Rightarrow> rat option" where
  "parse_number s = (case split_first (\<lambda>c. c = CHR ''e'' \<or> c = CHR ''E'') s of
     (m, None) \<Rightarrow> parse_decimal m
   | (m, Some ex) \<Rightarrow> (case (parse_decimal m, signed ex) of
         (Some q, sg, ds) \<Rightarrow> map_option (\<lambda>n. q * (10 powi (sg * n))) (parse_digits ds)
       | _ \<Rightarrow> None))"

definition parse_float :: "string \<Rightarrow> pyfloat option" where
  "parse_float s = (case signed (strip s) of (sg, body) \<Rightarrow>
     let t = str_lower body in
     if t = ''nan'' then Some NaN
     else if t = ''inf'' \<or> t = ''infinity'' then Some (if sg < 0 then NInf else PInf)
     else map_option (\<lambda>q. f_of_rat (of_int sg * q)) (parse_number t))"

definition py_float :: "pyval \<Rightarrow> pyfloat result" where
  "py_float v = (case v of
     VFloat f \<Rightarrow> Inr f
   | VInt i \<Rightarrow> (if is_finite (f_of_rat (of_int i)) then Inr (f_of_rat (of_int i))
        else Inl (PyExc ''OverflowError'' ''int too large to convert to float''))
   | VBool b \<Rightarrow> Inr (Fin (if b then 1 else 0))
   | VStr s \<Rightarrow> (case parse_float s of Some f \<Rightarrow> Inr f
        | None \<Rightarrow> Inl (ValueError (''could not convert string to float: '' @ str_repr s)))
   | _ \<Rightarrow> Inl (TypeError ''float() argument must be a string or a real number''))"

definition json_char :: "char \<Rightarrow> string" where
  "json_char c = (let n = of_char c :: nat; bs = char_of (92::nat) in
     if n = 34 \<or> n = 92 then [bs, c] else if n = 10 then [bs, CHR ''n''] else if n = 13 then [bs, CHR ''r'']
     else if n = 9 then [bs, CHR ''t''] else if n = 8 then [bs, CHR ''b''] else if n = 12 then [bs, CHR ''f'']
     else if n < 32 then [bs] @ ''u00'' @ [hex_digit (n div 16), hex_digit (n mod 16)] else [c])"

lemma json_char_code [code]: "json_char (Char b0 b1 b2 b3 b4 b5 b6 b7) =
   (let c = Char b0 b1 b2 b3 b4 b5 b6 b7 in
    if b5 \<or> b6 \<or> b7 then (if c = CHR 0x22 \<or> c = CHR 0x5C then [CHR 0x5C, c] else [c])
    else let n = of_char c :: nat; bs = CHR 0x5C in
     if n = 10 then [bs, CHR ''n''] else if n = 13 then [bs, CHR ''r'']
     else if n = 9 then [bs, CHR ''t''] else if n = 8 then [bs, CHR ''b''] else if n = 12 then [bs, CHR ''f'']
     else [bs] @ ''u00'' @ [hex_digit (n div 16), hex_digit (n mod 16)])"
  by (cases b0; cases b1; cases b2; cases b3; cases b4; cases b5; cases b6; cases b7; simp add: json_char_def char_of_def bit_Suc_0_iff)

definition json_string :: "string \<Rightarrow> string" where
  "json_string s = [char_of (34::nat)] @ concat (map json_char s) @ [char_of (34::nat)]"

definition json_float :: "pyfloat \<Rightarrow> string" where
  "json_float f = (case f of PInf \<Rightarrow> ''Infinity'' | NInf \<Rightarrow> ''-Infinity'' | NaN \<Rightarrow> ''NaN'' | _ \<Rightarrow> float_repr f)"

text \<open>\<open>json.dumps(value, ensure_ascii=False)\<close> with the given item and key separators.\<close>

fun json_dumps :: "string \<Rightarrow> string \<Rightarrow> pyval \<Rightarrow> string" where
  "json_dumps si sk VNone = ''null''"
| "json_dumps si sk (VBool b) = (if b then ''true'' else ''false'')"
| "json_dumps si sk (VInt i) = int_text i"
| "json_dumps si sk (VFloat f) = json_float f"
| "json_dumps si sk (VStr s) = json_string s"
| "json_dumps si sk (VList xs) = ''['' @ join_with si (map (json_dumps si sk) xs) @ '']''"
| "json_dumps si sk (VDict d) = ''{'' @ join_with si (map (\<lambda>(k, v). json_string k @ sk @ json_dumps si sk v) d) @ ''}''"

definition json_text :: "pyval \<Rightarrow> string" where
  "json_text v = json_dumps '','' '':'' v"

definition json_spaced :: "pyval \<Rightarrow> string" where
  "json_spaced v = json_dumps '', '' '': '' v"

subsection \<open>JSON compatibility\<close>

text \<open>
  \<open>ensure_json\<close> (\<open>contracts/immutable.py\<close>): the error it raises for a value under a path, if
  any. Only floats can offend in this value type: keys are texts and there are no other objects.
\<close>

fun ensure_json :: "pyval \<Rightarrow> string \<Rightarrow> exc option"
  and ensure_json_items :: "pyval list \<Rightarrow> string \<Rightarrow> exc option"
  and ensure_json_fields :: "(string \<times> pyval) list \<Rightarrow> string \<Rightarrow> exc option" where
  "ensure_json (VFloat f) path = (if is_finite f then None else Some (ValueError (path @ '' contains non-finite float'')))"
| "ensure_json (VList xs) path = ensure_json_items xs (path @ ''[]'')"
| "ensure_json (VDict d) path = ensure_json_fields d path"
| "ensure_json _ path = None"
| "ensure_json_items [] path = None"
| "ensure_json_items (x # xs) path = (case ensure_json x path of Some e \<Rightarrow> Some e | None \<Rightarrow> ensure_json_items xs path)"
| "ensure_json_fields [] path = None"
| "ensure_json_fields ((k, v) # d) path = (case ensure_json v (path @ ''.'' @ k) of Some e \<Rightarrow> Some e | None \<Rightarrow> ensure_json_fields d path)"

text \<open>\<open>opt_val\<close>: an optional value as a Python value.\<close>

definition opt_float :: "pyfloat option \<Rightarrow> pyval" where
  "opt_float x = (case x of None \<Rightarrow> VNone | Some f \<Rightarrow> VFloat f)"

definition opt_bool :: "bool option \<Rightarrow> pyval" where
  "opt_bool x = (case x of None \<Rightarrow> VNone | Some b \<Rightarrow> VBool b)"

definition opt_str :: "string option \<Rightarrow> pyval" where
  "opt_str x = (case x of None \<Rightarrow> VNone | Some s \<Rightarrow> VStr s)"

lemma ensure_json_opt_float: "ensure_json (opt_float x) p = None \<longleftrightarrow> (\<forall>f. x = Some f \<longrightarrow> is_finite f)"
  by (cases x) (auto simp: opt_float_def)

end
