(* ===== verification/DecisionRun.thy ===== *)
theory DecisionRun
  imports Machine PyVal
begin

text \<open>
  The decision work unit: \<open>app/domain/decision/run.py\<close> (states, transition table, the run
  record), the in-memory repository and outbox (\<open>app/ports/decision_repository.py\<close>,
  \<open>app/ports/outbox.py\<close>) and the unit of work that stages a run, saves it under an expected
  version and finalizes it (\<open>app/application/decision/unit_of_work.py\<close>). Fresh identifiers,
  clock readings and the digest of the final response are arguments. The repository and the
  outbox are the world several units of work share; a unit of work holds its own copy of the
  run it last saw.
\<close>

subsection \<open>States and transitions\<close>

datatype decision_run_state = RECEIVED | BUNDLE_FROZEN | SPECIALISTS_COMPLETED | FORMAL_CALCULATED
  | GOVERNED | FINALIZED | PUBLISHED | FAILED

fun state_text :: "decision_run_state \<Rightarrow> string" where
  "state_text RECEIVED = ''RECEIVED''"
| "state_text BUNDLE_FROZEN = ''BUNDLE_FROZEN''"
| "state_text SPECIALISTS_COMPLETED = ''SPECIALISTS_COMPLETED''"
| "state_text FORMAL_CALCULATED = ''FORMAL_CALCULATED''"
| "state_text GOVERNED = ''GOVERNED''"
| "state_text FINALIZED = ''FINALIZED''"
| "state_text PUBLISHED = ''PUBLISHED''"
| "state_text FAILED = ''FAILED''"

fun run_transitions :: "decision_run_state \<Rightarrow> decision_run_state set" where
  "run_transitions RECEIVED = {BUNDLE_FROZEN, FAILED}"
| "run_transitions BUNDLE_FROZEN = {SPECIALISTS_COMPLETED, FAILED}"
| "run_transitions SPECIALISTS_COMPLETED = {FORMAL_CALCULATED, FAILED}"
| "run_transitions FORMAL_CALCULATED = {GOVERNED, FAILED}"
| "run_transitions GOVERNED = {FINALIZED, FAILED}"
| "run_transitions FINALIZED = {PUBLISHED}"
| "run_transitions PUBLISHED = {}"
| "run_transitions FAILED = {}"

record decision_run =
  dr_decision_id :: string
  dr_request_id :: string
  dr_state :: decision_run_state
  dr_version :: int
  dr_bundle_id :: "string option"
  dr_bundle_hash :: "string option"
  dr_formal_result_hash :: "string option"
  dr_governance_hash :: "string option"
  dr_final_response_json :: "pyval option"
  dr_final_response_hash :: "string option"
  dr_lineage_json :: "pyval option"
  dr_execution_authorization_json :: "pyval option"
  dr_snapshot_id :: "string option"
  dr_readiness_snapshot :: "pyval option"
  dr_last_error_code :: "string option"
  dr_updated_at :: int

definition new_run :: "string \<Rightarrow> string \<Rightarrow> int \<Rightarrow> decision_run" where
  "new_run did rid now = \<lparr>dr_decision_id = did, dr_request_id = rid, dr_state = RECEIVED, dr_version = 0,
     dr_bundle_id = None, dr_bundle_hash = None, dr_formal_result_hash = None, dr_governance_hash = None,
     dr_final_response_json = None, dr_final_response_hash = None, dr_lineage_json = None,
     dr_execution_authorization_json = None, dr_snapshot_id = None, dr_readiness_snapshot = None,
     dr_last_error_code = None, dr_updated_at = now\<rparr>"

definition run_transition :: "decision_run \<Rightarrow> decision_run_state \<Rightarrow> string option \<times> int \<Rightarrow> decision_run result" where
  "run_transition r target a = (case a of (error_code, now) \<Rightarrow>
     if target \<notin> run_transitions (dr_state r)
     then Inl (ValueError (''INVALID_DECISION_TRANSITION:'' @ state_text (dr_state r) @ ''->'' @ state_text target))
     else Inr (r\<lparr>dr_state := target, dr_version := dr_version r + 1, dr_last_error_code := error_code, dr_updated_at := now\<rparr>))"

definition run_execution_eligible :: "decision_run \<Rightarrow> bool" where
  "run_execution_eligible r \<longleftrightarrow> dr_state r = FINALIZED \<and> falsy_text (dr_last_error_code r)"

text \<open>The stage of a state on the only path to publication.\<close>

fun run_rank :: "decision_run_state \<Rightarrow> int" where
  "run_rank RECEIVED = 0"
| "run_rank BUNDLE_FROZEN = 1"
| "run_rank SPECIALISTS_COMPLETED = 2"
| "run_rank FORMAL_CALCULATED = 3"
| "run_rank GOVERNED = 4"
| "run_rank FINALIZED = 5"
| "run_rank PUBLISHED = 6"
| "run_rank FAILED = 7"

lemma run_transition_Inr_iff:
  "run_transition r t (e, now) = Inr r' \<longleftrightarrow> t \<in> run_transitions (dr_state r) \<and>
     r' = r\<lparr>dr_state := t, dr_version := dr_version r + 1, dr_last_error_code := e, dr_updated_at := now\<rparr>"
  by (auto simp: run_transition_def)

lemma run_rank_step: "t \<in> run_transitions s \<Longrightarrow> t \<noteq> FAILED \<Longrightarrow> run_rank t = run_rank s + 1"
  by (cases s) auto

interpretation drm: staged_machine dr_state dr_version run_transitions run_transition run_rank FAILED
proof unfold_locales
  fix r r' :: decision_run and t a
  assume "run_transition r t a = Inr r'"
  then show "t \<in> run_transitions (dr_state r) \<and> dr_state r' = t \<and> dr_version r' = dr_version r + 1"
    by (cases a) (auto simp: run_transition_Inr_iff)
next
  fix r :: decision_run and t and a :: "string option \<times> int"
  assume "t \<in> run_transitions (dr_state r)"
  then show "\<exists>r'. run_transition r t a = Inr r'"
    by (cases a) (auto simp: run_transition_Inr_iff)
qed (auto simp: run_rank_step)

subsection \<open>Repository and outbox\<close>

record outbox_event =
  ev_event_id :: string
  ev_aggregate_id :: string
  ev_event_type :: string
  ev_payload :: pyval
  ev_published :: bool

record decision_world =
  by_key :: "string \<times> string \<rightharpoonup> string \<times> string"
  runs :: "string \<rightharpoonup> decision_run"
  outbox :: "string \<rightharpoonup> outbox_event"

definition empty_world :: decision_world where
  "empty_world = \<lparr>by_key = Map.empty, runs = Map.empty, outbox = Map.empty\<rparr>"

definition repo_get_or_create ::
  "decision_world \<Rightarrow> string \<Rightarrow> string \<Rightarrow> string \<Rightarrow> string \<Rightarrow> string \<Rightarrow> int \<Rightarrow> decision_run result \<times> decision_world" where
  "repo_get_or_create w portfolio_id idempotency_key request_hash fresh_decision fresh_request now =
     (case by_key w (portfolio_id, idempotency_key) of
        Some (decision_id, old_hash) \<Rightarrow>
          if old_hash \<noteq> request_hash then (Inl (PyExc ''IdempotencyConflict'' ''IDEMPOTENCY_KEY_CONFLICT''), w)
          else (case runs w decision_id of None \<Rightarrow> (Inl (KeyError decision_id), w) | Some r \<Rightarrow> (Inr r, w))
      | None \<Rightarrow>
          let r = new_run fresh_decision fresh_request now in
          (Inr r, w\<lparr>by_key := (by_key w)((portfolio_id, idempotency_key) \<mapsto> (fresh_decision, request_hash)),
                    runs := (runs w)(fresh_decision \<mapsto> r)\<rparr>))"

definition repo_save :: "decision_world \<Rightarrow> decision_run \<Rightarrow> int option \<Rightarrow> decision_run result \<times> decision_world" where
  "repo_save w r expected_version = (case runs w (dr_decision_id r) of
       None \<Rightarrow> (Inl (KeyError (dr_decision_id r)), w)
     | Some old \<Rightarrow>
         if (case expected_version of None \<Rightarrow> False | Some v \<Rightarrow> dr_version old \<noteq> v)
         then (Inl (RuntimeError ''DECISION_RUN_VERSION_CONFLICT''), w)
         else (Inr r, w\<lparr>runs := (runs w)(dr_decision_id r \<mapsto> r)\<rparr>))"

definition repo_get :: "decision_world \<Rightarrow> string \<Rightarrow> decision_run option" where
  "repo_get w decision_id = runs w decision_id"

definition outbox_enqueue :: "decision_world \<Rightarrow> string \<Rightarrow> string \<Rightarrow> string \<Rightarrow> pyval \<Rightarrow> decision_world" where
  "outbox_enqueue w event_id aggregate_id event_type payload =
     (if outbox w event_id = None
      then w\<lparr>outbox := (outbox w)(event_id \<mapsto> \<lparr>ev_event_id = event_id, ev_aggregate_id = aggregate_id,
               ev_event_type = event_type, ev_payload = payload, ev_published = False\<rparr>)\<rparr>
      else w)"

subsection \<open>The unit of work\<close>

record unit_of_work =
  uow_run :: "decision_run option"
  uow_bundle :: "pyval option"
  uow_final_result :: "pyval option"
  uow_committed :: bool

definition new_uow :: unit_of_work where
  "new_uow = \<lparr>uow_run = None, uow_bundle = None, uow_final_result = None, uow_committed = False\<rparr>"

definition uow_receive ::
  "decision_world \<Rightarrow> unit_of_work \<Rightarrow> string \<Rightarrow> string \<Rightarrow> string \<Rightarrow> string \<Rightarrow> string \<Rightarrow> int
   \<Rightarrow> decision_run result \<times> decision_world \<times> unit_of_work" where
  "uow_receive w u portfolio_id idempotency_key request_hash fresh_decision fresh_request now =
     (case repo_get_or_create w portfolio_id idempotency_key request_hash fresh_decision fresh_request now of
        (Inl e, w') \<Rightarrow> (Inl e, w', u)
      | (Inr r, w') \<Rightarrow> (Inr r, w', u\<lparr>uow_run := Some r\<rparr>))"

definition uow_freeze_bundle ::
  "decision_world \<Rightarrow> unit_of_work \<Rightarrow> pyval \<Rightarrow> string \<Rightarrow> string \<Rightarrow> pyval option \<Rightarrow> int
   \<Rightarrow> decision_run result \<times> decision_world \<times> unit_of_work" where
  "uow_freeze_bundle w u bundle bundle_id bundle_hash readiness now = (case uow_run u of
       None \<Rightarrow> (Inl (RuntimeError ''DECISION_RUN_NOT_RECEIVED''), w, u)
     | Some r \<Rightarrow>
         if dr_state r \<noteq> RECEIVED then
           (if dr_state r = BUNDLE_FROZEN \<and> dr_bundle_hash r = Some bundle_hash then (Inr r, w, u)
            else (Inl (ValueError ''BUNDLE_ALREADY_FROZEN''), w, u))
         else
           let u' = u\<lparr>uow_bundle := Some bundle\<rparr>;
               staged = r\<lparr>dr_bundle_id := Some bundle_id, dr_bundle_hash := Some bundle_hash, dr_readiness_snapshot := readiness\<rparr>
           in (case run_transition staged BUNDLE_FROZEN (None, now) of
                 Inl e \<Rightarrow> (Inl e, w, u')
               | Inr s \<Rightarrow> (case repo_save w s (Some (dr_version r)) of
                     (Inl e, w') \<Rightarrow> (Inl e, w', u')
                   | (Inr _, w') \<Rightarrow> (Inr s, w', u'\<lparr>uow_run := Some s\<rparr>))))"

definition uow_advance ::
  "decision_world \<Rightarrow> unit_of_work \<Rightarrow> decision_run_state \<Rightarrow> string option \<Rightarrow> int
   \<Rightarrow> decision_run result \<times> decision_world \<times> unit_of_work" where
  "uow_advance w u target result_hash now = (case uow_run u of
       None \<Rightarrow> (Inl (RuntimeError ''DECISION_RUN_NOT_RECEIVED''), w, u)
     | Some r \<Rightarrow> (case run_transition r target (None, now) of
           Inl e \<Rightarrow> (Inl e, w, u)
         | Inr s0 \<Rightarrow>
             let s1 = (if target = FORMAL_CALCULATED then s0\<lparr>dr_formal_result_hash := result_hash\<rparr> else s0);
                 s = (if target = GOVERNED then s1\<lparr>dr_governance_hash := result_hash\<rparr> else s1)
             in (case repo_save w s (Some (dr_version r)) of
                   (Inl e, w') \<Rightarrow> (Inl e, w', u)
                 | (Inr _, w') \<Rightarrow> (Inr s, w', u\<lparr>uow_run := Some s\<rparr>))))"

definition finalized_event_id :: "string \<Rightarrow> string" where
  "finalized_event_id decision_id = ''decision-finalized:'' @ decision_id"

text \<open>
  \<open>finalize\<close>: the event is enqueued, then the staged run is saved; when the save raises, the
  event is removed again and the run read before is put back.
\<close>

definition uow_finalize ::
  "(pyval \<Rightarrow> string) \<Rightarrow> decision_world \<Rightarrow> unit_of_work \<Rightarrow> pyval \<Rightarrow> string \<Rightarrow> pyval \<Rightarrow> pyval option \<Rightarrow> pyval option \<Rightarrow> int
   \<Rightarrow> decision_run result \<times> decision_world \<times> unit_of_work" where
  "uow_finalize digest w u final_result snapshot_id event_payload lineage authorization now = (case uow_run u of
       None \<Rightarrow> (Inl (ValueError ''DECISION_NOT_GOVERNED''), w, u)
     | Some r \<Rightarrow>
         if dr_state r \<noteq> GOVERNED then (Inl (ValueError ''DECISION_NOT_GOVERNED''), w, u)
         else
           let staged = r\<lparr>dr_snapshot_id := Some snapshot_id, dr_lineage_json := lineage,
                 dr_execution_authorization_json := authorization,
                 dr_final_response_json := Some (if is_dict final_result then final_result else VDict [(''value'', final_result)]),
                 dr_final_response_hash := Some (digest final_result)\<rparr>
           in (case run_transition staged FINALIZED (None, now) of
                 Inl e \<Rightarrow> (Inl e, w, u)
               | Inr s \<Rightarrow>
                   let event_id = finalized_event_id (dr_decision_id s);
                       previous = repo_get w (dr_decision_id s);
                       w1 = outbox_enqueue w event_id (dr_decision_id s) ''DecisionFinalized'' event_payload
                   in (case repo_save w1 s (Some (dr_version r)) of
                         (Inl e, w2) \<Rightarrow>
                           (Inl e, w2\<lparr>outbox := (outbox w2)(event_id := None),
                                      runs := (case previous of None \<Rightarrow> runs w2 | Some p \<Rightarrow> (runs w2)(dr_decision_id s \<mapsto> p))\<rparr>, u)
                       | (Inr _, w2) \<Rightarrow>
                           (Inr s, w2, u\<lparr>uow_run := Some s, uow_final_result := Some final_result, uow_committed := True\<rparr>))))"

subsection \<open>Laws of the repository and the unit of work\<close>

lemma repo_save_cases:
  "repo_save w r ev = (res, w') \<Longrightarrow>
     (\<exists>e. res = Inl e \<and> w' = w) \<or>
     (\<exists>old. res = Inr r \<and> runs w (dr_decision_id r) = Some old \<and> (\<forall>v. ev = Some v \<longrightarrow> dr_version old = v)
        \<and> w' = w\<lparr>runs := (runs w)(dr_decision_id r \<mapsto> r)\<rparr>)"
  by (auto simp: repo_save_def split: option.splits if_splits)

lemma repo_save_ok:
  "runs w (dr_decision_id r) = Some old \<Longrightarrow> dr_version old = v \<Longrightarrow>
     repo_save w r (Some v) = (Inr r, w\<lparr>runs := (runs w)(dr_decision_id r \<mapsto> r)\<rparr>)"
  by (simp add: repo_save_def)

lemma repo_save_conflict:
  "runs w (dr_decision_id r) = Some old \<Longrightarrow> dr_version old \<noteq> v \<Longrightarrow>
     repo_save w r (Some v) = (Inl (RuntimeError ''DECISION_RUN_VERSION_CONFLICT''), w)"
  by (simp add: repo_save_def)

lemma outbox_enqueue_frame [frame_simps]:
  "runs (outbox_enqueue w eid aid ty p) = runs w"
  "by_key (outbox_enqueue w eid aid ty p) = by_key w"
  by (simp_all add: outbox_enqueue_def)

lemma outbox_enqueue_present: "outbox (outbox_enqueue w eid aid ty p) eid \<noteq> None"
  by (auto simp: outbox_enqueue_def)

lemma repo_save_frame [frame_simps]:
  "by_key (snd (repo_save w r ev)) = by_key w"
  "outbox (snd (repo_save w r ev)) = outbox w"
  by (auto simp: repo_save_def split: option.splits)

subsection \<open>Reachable systems\<close>

text \<open>
  Any number of units of work, numbered, over one world. A step is one operation of one
  unit, successful or not, with the targets the decision route advances to
  (\<open>app/routers/decision.py\<close>). A fresh decision identifier is one no stored run has.
\<close>

record decision_system =
  sys_world :: decision_world
  sys_units :: "nat \<Rightarrow> unit_of_work"

definition initial_system :: decision_system where
  "initial_system = \<lparr>sys_world = empty_world, sys_units = (\<lambda>_. new_uow)\<rparr>"

definition route_targets :: "decision_run_state set" where
  "route_targets = {SPECIALISTS_COMPLETED, FORMAL_CALCULATED, GOVERNED}"

definition put_unit :: "decision_system \<Rightarrow> nat \<Rightarrow> decision_world \<times> unit_of_work \<Rightarrow> decision_system" where
  "put_unit s i wu = s\<lparr>sys_world := fst wu, sys_units := (sys_units s)(i := snd wu)\<rparr>"

inductive decision_step :: "(pyval \<Rightarrow> string) \<Rightarrow> decision_system \<Rightarrow> decision_system \<Rightarrow> bool" for digest where
  receive: "runs (sys_world s) fd = None \<Longrightarrow>
     decision_step digest s (put_unit s i (snd (uow_receive (sys_world s) (sys_units s i) pid key h fd fr now)))"
| freeze: "decision_step digest s (put_unit s i (snd (uow_freeze_bundle (sys_world s) (sys_units s i) b bid bh rd now)))"
| advance: "t \<in> route_targets \<Longrightarrow>
     decision_step digest s (put_unit s i (snd (uow_advance (sys_world s) (sys_units s i) t rh now)))"
| finalize: "decision_step digest s
     (put_unit s i (snd (uow_finalize digest (sys_world s) (sys_units s i) fr snap pay lin auth now)))"

inductive decision_reach :: "(pyval \<Rightarrow> string) \<Rightarrow> decision_system \<Rightarrow> bool" for digest where
  start: "decision_reach digest initial_system"
| step: "decision_reach digest s \<Longrightarrow> decision_step digest s t \<Longrightarrow> decision_reach digest t"

text \<open>What a run carries at its stage.\<close>

definition run_wf :: "(pyval \<Rightarrow> string) \<Rightarrow> decision_run \<Rightarrow> bool" where
  "run_wf digest r \<longleftrightarrow> dr_state r \<notin> {FAILED, PUBLISHED} \<and> dr_version r = run_rank (dr_state r)
     \<and> (1 \<le> dr_version r \<longrightarrow> dr_bundle_hash r \<noteq> None)
     \<and> (dr_state r = FINALIZED \<longrightarrow> dr_snapshot_id r \<noteq> None \<and> dr_last_error_code r = None
          \<and> (\<exists>v. dr_final_response_hash r = Some (digest v)
               \<and> dr_final_response_json r = Some (if is_dict v then v else VDict [(''value'', v)])))"

definition world_inv :: "(pyval \<Rightarrow> string) \<Rightarrow> decision_world \<Rightarrow> bool" where
  "world_inv digest w \<longleftrightarrow>
     (\<forall>d r. runs w d = Some r \<longrightarrow> dr_decision_id r = d \<and> run_wf digest r)
     \<and> (\<forall>k d h. by_key w k = Some (d, h) \<longrightarrow> runs w d \<noteq> None)"

text \<open>A unit's copy is no newer than the stored run, and is the stored run when the versions agree.\<close>

definition unit_inv :: "(pyval \<Rightarrow> string) \<Rightarrow> decision_world \<Rightarrow> unit_of_work \<Rightarrow> bool" where
  "unit_inv digest w u \<longleftrightarrow> (\<forall>r. uow_run u = Some r \<longrightarrow> run_wf digest r \<and>
     (\<exists>q. runs w (dr_decision_id r) = Some q \<and> dr_version r \<le> dr_version q \<and> (dr_version r = dr_version q \<longrightarrow> q = r)))"

definition system_inv :: "(pyval \<Rightarrow> string) \<Rightarrow> decision_system \<Rightarrow> bool" where
  "system_inv digest s \<longleftrightarrow> world_inv digest (sys_world s) \<and> (\<forall>i. unit_inv digest (sys_world s) (sys_units s i))"

text \<open>
  How an operation may change the world: an untouched world, a new run at version 0, or one
  stored run replaced by its successor.
\<close>

definition world_extends :: "decision_world \<Rightarrow> decision_world \<Rightarrow> bool" where
  "world_extends w w' \<longleftrightarrow> (\<forall>d q. runs w d = Some q \<longrightarrow>
     (\<exists>q'. runs w' d = Some q' \<and> (q' = q \<or> dr_version q' = dr_version q + 1)))"

lemma world_extends_refl [simp]: "world_extends w w"
  by (simp add: world_extends_def)

lemma unit_inv_extends: "unit_inv digest w u \<Longrightarrow> world_extends w w' \<Longrightarrow> unit_inv digest w' u"
  unfolding unit_inv_def world_extends_def by fastforce

lemma put_unit_inv:
  assumes "system_inv digest s" and "world_inv digest w" and "unit_inv digest w u"
    and "world_extends (sys_world s) w"
  shows "system_inv digest (put_unit s i (w, u))"
  using assms by (auto simp: system_inv_def put_unit_def intro: unit_inv_extends)

text \<open>The common shape of a successful save: the successor of the unit's run replaces its stored self.\<close>

lemma save_successor:
  assumes w: "world_inv digest w" and u: "unit_inv digest w u" and r: "uow_run u = Some r"
    and s: "run_wf digest s" "dr_decision_id s = dr_decision_id r" "dr_version s = dr_version r + 1"
    and save: "repo_save w s (Some (dr_version r)) = (res, w')"
  shows "world_inv digest w' \<and> world_extends w w' \<and>
    (res = Inr s \<longrightarrow> unit_inv digest w' (u\<lparr>uow_run := Some s\<rparr>)) \<and> (res \<noteq> Inr s \<longrightarrow> w' = w)"
  using repo_save_cases [OF save]
proof (elim disjE exE conjE)
  fix old
  assume old: "runs w (dr_decision_id s) = Some old" and v: "\<forall>v. Some (dr_version r) = Some v \<longrightarrow> dr_version old = v"
    and w': "w' = w\<lparr>runs := (runs w)(dr_decision_id s \<mapsto> s)\<rparr>" and res: "res = Inr s"
  have "old = r" using u r old v s(2) by (auto simp: unit_inv_def)
  then have ov: "dr_version s = dr_version old + 1" using s(3) by simp
  have look: "runs w' d = (if d = dr_decision_id s then Some s else runs w d)" for d
    by (simp add: w')
  have "world_inv digest w'" using w s(1) by (auto simp: world_inv_def look) (fastforce simp: w')
  moreover have "world_extends w w'" using old ov by (auto simp: world_extends_def look)
  moreover have "unit_inv digest w' (u\<lparr>uow_run := Some s\<rparr>)" using s(1) by (simp add: unit_inv_def look)
  ultimately show ?thesis using res by simp
qed (use w in auto)

lemma uow_receive_inv:
  assumes "uow_receive w u pid key h fd fr now = (res, w', u')" and "world_inv digest w" and "unit_inv digest w u"
    and "runs w fd = None"
  shows "world_inv digest w' \<and> unit_inv digest w' u' \<and> world_extends w w'"
proof (cases "by_key w (pid, key)")
  case None
  then have "w' = w\<lparr>by_key := (by_key w)((pid, key) \<mapsto> (fd, h)), runs := (runs w)(fd \<mapsto> new_run fd fr now)\<rparr>"
    and "u' = u\<lparr>uow_run := Some (new_run fd fr now)\<rparr>"
    using assms(1) by (auto simp: uow_receive_def repo_get_or_create_def Let_def)
  moreover have "run_wf digest (new_run fd fr now)" by (simp add: run_wf_def new_run_def)
  ultimately show ?thesis using assms(2-4)
    by (auto simp: world_inv_def unit_inv_def world_extends_def new_run_def)
next
  case (Some p)
  then show ?thesis using assms
    by (cases p) (auto simp: uow_receive_def repo_get_or_create_def world_inv_def unit_inv_def split: if_splits option.splits)
qed

lemma uow_freeze_inv:
  assumes f: "uow_freeze_bundle w u b bid bh rd now = (res, w', u')" and w: "world_inv digest w" and u: "unit_inv digest w u"
  shows "world_inv digest w' \<and> unit_inv digest w' u' \<and> world_extends w w'"
proof (cases "\<exists>r. uow_run u = Some r \<and> dr_state r = RECEIVED")
  case False
  then show ?thesis using f w u by (auto simp: uow_freeze_bundle_def split: option.splits if_splits)
next
  case True
  then obtain r where r: "uow_run u = Some r" "dr_state r = RECEIVED" by auto
  define s where "s = r\<lparr>dr_bundle_id := Some bid, dr_bundle_hash := Some bh, dr_readiness_snapshot := rd,
     dr_state := BUNDLE_FROZEN, dr_version := dr_version r + 1, dr_last_error_code := None, dr_updated_at := now\<rparr>"
  have rw: "run_wf digest r" using u r by (auto simp: unit_inv_def)
  obtain res2 w2 where sv: "repo_save w s (Some (dr_version r)) = (res2, w2)" by fastforce
  have sw: "run_wf digest s" using rw r by (auto simp: run_wf_def s_def)
  have k: "world_inv digest w2 \<and> world_extends w w2 \<and> (res2 = Inr s \<longrightarrow> unit_inv digest w2 (u\<lparr>uow_run := Some s\<rparr>))
     \<and> (res2 \<noteq> Inr s \<longrightarrow> w2 = w)"
    by (rule save_successor [OF w u r(1) sw _ _ sv]) (simp_all add: s_def)
  have res2: "res2 = Inr s \<or> (\<exists>e. res2 = Inl e)" using repo_save_cases [OF sv] by auto
  show ?thesis
    using f k res2 sv u r
    by (auto simp: uow_freeze_bundle_def run_transition_def s_def [symmetric] unit_inv_def Let_def split: sum.splits)
qed

lemma uow_advance_inv:
  assumes f: "uow_advance w u t rh now = (res, w', u')" and w: "world_inv digest w" and u: "unit_inv digest w u"
    and t: "t \<in> route_targets"
  shows "world_inv digest w' \<and> unit_inv digest w' u' \<and> world_extends w w'"
proof (cases "\<exists>r. uow_run u = Some r \<and> t \<in> run_transitions (dr_state r)")
  case False
  then show ?thesis using f w u by (auto simp: uow_advance_def run_transition_def split: option.splits if_splits)
next
  case True
  then obtain r where r: "uow_run u = Some r" "t \<in> run_transitions (dr_state r)" by auto
  define s0 where "s0 = r\<lparr>dr_state := t, dr_version := dr_version r + 1, dr_last_error_code := None, dr_updated_at := now\<rparr>"
  define s1 where "s1 = (if t = FORMAL_CALCULATED then s0\<lparr>dr_formal_result_hash := rh\<rparr> else s0)"
  define s where "s = (if t = GOVERNED then s1\<lparr>dr_governance_hash := rh\<rparr> else s1)"
  have rw: "run_wf digest r" using u r by (auto simp: unit_inv_def)
  have sid: "dr_decision_id s = dr_decision_id r" "dr_version s = dr_version r + 1"
    by (simp_all add: s_def s1_def s0_def)
  have sw: "run_wf digest s"
    using rw r t run_rank_step [OF r(2)] by (auto simp: run_wf_def s_def s1_def s0_def route_targets_def)
  obtain res2 w2 where sv: "repo_save w s (Some (dr_version r)) = (res2, w2)" by fastforce
  note k = save_successor [OF w u r(1) sw sid sv]
  have res2: "res2 = Inr s \<or> (\<exists>e. res2 = Inl e)" using repo_save_cases [OF sv] by auto
  have "uow_advance w u t rh now = (res2, w2, if res2 = Inr s then u\<lparr>uow_run := Some s\<rparr> else u)"
    using r sv res2 unfolding s_def s1_def s0_def by (auto simp: uow_advance_def run_transition_def Let_def)
  then show ?thesis using f k u by (auto split: if_splits)
qed

lemma repo_save_enqueue:
  "repo_save (outbox_enqueue w eid aid ty p) s ev = (res, w2) \<Longrightarrow>
     (case repo_save w s ev of (res', w') \<Rightarrow> res = res' \<and> runs w2 = runs w' \<and> by_key w2 = by_key w'
        \<and> outbox w2 = outbox (outbox_enqueue w eid aid ty p))"
  by (auto simp: repo_save_def frame_simps split: option.splits if_splits)

lemma world_inv_cong: "runs w' = runs w \<Longrightarrow> by_key w' = by_key w \<Longrightarrow> world_inv digest w' = world_inv digest w"
  by (simp add: world_inv_def)

lemma unit_inv_cong: "runs w' = runs w \<Longrightarrow> uow_run u' = uow_run u \<Longrightarrow> unit_inv digest w' u' = unit_inv digest w u"
  by (simp add: unit_inv_def)

lemma world_extends_cong: "runs w' = runs w \<Longrightarrow> world_extends v w' = world_extends v w"
  by (simp add: world_extends_def)

text \<open>The run a finalization stages.\<close>

definition finalized_run ::
  "(pyval \<Rightarrow> string) \<Rightarrow> decision_run \<Rightarrow> pyval \<Rightarrow> string \<Rightarrow> pyval option \<Rightarrow> pyval option \<Rightarrow> int \<Rightarrow> decision_run" where
  "finalized_run digest r fr snap lin auth now = r\<lparr>dr_snapshot_id := Some snap, dr_lineage_json := lin,
     dr_execution_authorization_json := auth,
     dr_final_response_json := Some (if is_dict fr then fr else VDict [(''value'', fr)]),
     dr_final_response_hash := Some (digest fr), dr_state := FINALIZED, dr_version := dr_version r + 1,
     dr_last_error_code := None, dr_updated_at := now\<rparr>"

lemma finalized_run_simps [simp]:
  "dr_decision_id (finalized_run digest r fr snap lin auth now) = dr_decision_id r"
  "dr_version (finalized_run digest r fr snap lin auth now) = dr_version r + 1"
  "dr_state (finalized_run digest r fr snap lin auth now) = FINALIZED"
  by (simp_all add: finalized_run_def)

lemma uow_finalize_eq:
  assumes "uow_run u = Some r" and "dr_state r = GOVERNED"
  shows "uow_finalize digest w u fr snap pay lin auth now =
    (let s = finalized_run digest r fr snap lin auth now;
         eid = finalized_event_id (dr_decision_id r);
         w1 = outbox_enqueue w eid (dr_decision_id r) ''DecisionFinalized'' pay
     in case repo_save w1 s (Some (dr_version r)) of
          (Inl e, w2) \<Rightarrow> (Inl e, w2\<lparr>outbox := (outbox w2)(eid := None),
             runs := (case repo_get w (dr_decision_id r) of None \<Rightarrow> runs w2 | Some p \<Rightarrow> (runs w2)(dr_decision_id r \<mapsto> p))\<rparr>, u)
        | (Inr _, w2) \<Rightarrow> (Inr s, w2, u\<lparr>uow_run := Some s, uow_final_result := Some fr, uow_committed := True\<rparr>))"
  using assms by (simp add: uow_finalize_def run_transition_def finalized_run_def Let_def
      cong: sum.case_cong prod.case_cong option.case_cong)

lemma uow_finalize_not_governed:
  assumes "\<And>r. uow_run u = Some r \<Longrightarrow> dr_state r \<noteq> GOVERNED"
  shows "uow_finalize digest w u fr snap pay lin auth now = (Inl (ValueError ''DECISION_NOT_GOVERNED''), w, u)"
  using assms by (auto simp: uow_finalize_def split: option.splits)

lemma uow_finalize_inv:
  assumes f: "uow_finalize digest w u fr snap pay lin auth now = (res, w', u')"
    and w: "world_inv digest w" and u: "unit_inv digest w u"
  shows "world_inv digest w' \<and> unit_inv digest w' u' \<and> world_extends w w'"
proof (cases "\<exists>r. uow_run u = Some r \<and> dr_state r = GOVERNED")
  case False
  then have "w' = w" "u' = u" using f uow_finalize_not_governed [of u] by auto
  then show ?thesis using w u by simp
next
  case True
  then obtain r where r: "uow_run u = Some r" "dr_state r = GOVERNED" by auto
  define s where "s = finalized_run digest r fr snap lin auth now"
  define eid where "eid = finalized_event_id (dr_decision_id r)"
  define w1 where "w1 = outbox_enqueue w eid (dr_decision_id r) ''DecisionFinalized'' pay"
  have rw: "run_wf digest r" using u r by (auto simp: unit_inv_def)
  have sw: "run_wf digest s" using rw r by (auto simp: run_wf_def s_def finalized_run_def)
  have w1i: "world_inv digest w1" and u1i: "unit_inv digest w1 u"
    using w u by (simp_all add: w1_def world_inv_def unit_inv_def frame_simps)
  obtain res2 w2 where sv: "repo_save w1 s (Some (dr_version r)) = (res2, w2)" by fastforce
  have k: "world_inv digest w2 \<and> world_extends w1 w2 \<and>
      (res2 = Inr s \<longrightarrow> unit_inv digest w2 (u\<lparr>uow_run := Some s\<rparr>)) \<and> (res2 \<noteq> Inr s \<longrightarrow> w2 = w1)"
    by (rule save_successor [OF w1i u1i r(1) sw _ _ sv]) (simp_all add: s_def)
  have ext: "world_extends w w2" using k by (simp add: world_extends_def w1_def frame_simps)
  have res2: "res2 = Inr s \<or> (\<exists>e. res2 = Inl e)" using repo_save_cases [OF sv] by auto
  have eq: "uow_finalize digest w u fr snap pay lin auth now = (case res2 of
       Inl e \<Rightarrow> (Inl e, w2\<lparr>outbox := (outbox w2)(eid := None),
             runs := (case repo_get w (dr_decision_id r) of None \<Rightarrow> runs w2 | Some p \<Rightarrow> (runs w2)(dr_decision_id r \<mapsto> p))\<rparr>, u)
     | Inr _ \<Rightarrow> (Inr s, w2, u\<lparr>uow_run := Some s, uow_final_result := Some fr, uow_committed := True\<rparr>))"
    using sv unfolding s_def w1_def eid_def by (simp add: uow_finalize_eq [OF r] Let_def)
  show ?thesis
  proof (cases "res2 = Inr s")
    case True
    then have "w' = w2" "uow_run u' = Some s" using f eq by auto
    then show ?thesis using k True ext unit_inv_cong [of w2 w2 u' "u\<lparr>uow_run := Some s\<rparr>" digest] by simp
  next
    case False
    then obtain e where e: "res2 = Inl e" using res2 by auto
    then have w2: "w2 = w1" using k by auto
    have "runs w' = runs w" "by_key w' = by_key w" "u' = u"
      using f eq e w2 by (auto simp: w1_def frame_simps repo_get_def split: option.splits)
    then show ?thesis using w u
      by (simp add: world_inv_def unit_inv_def world_extends_def)
  qed
qed

lemma decision_step_inv:
  assumes "decision_step digest s t" and "system_inv digest s"
  shows "system_inv digest t \<and> world_extends (sys_world s) (sys_world t)"
proof -
  have w: "world_inv digest (sys_world s)" and u: "\<And>i. unit_inv digest (sys_world s) (sys_units s i)"
    using assms(2) by (simp_all add: system_inv_def)
  have put: "system_inv digest (put_unit s i wu) \<and> world_extends (sys_world s) (sys_world (put_unit s i wu))"
    if "world_inv digest (fst wu) \<and> unit_inv digest (fst wu) (snd wu) \<and> world_extends (sys_world s) (fst wu)" for i wu
    using that put_unit_inv [OF assms(2), of "fst wu" "snd wu" i] by (simp add: put_unit_def)
  from assms(1) show ?thesis
  proof cases
    case (receive fd i pid key h fr now)
    then show ?thesis using put uow_receive_inv [OF _ w u]
      by (metis prod.collapse)
  next
    case (freeze i b bid bh rd now)
    then show ?thesis using put uow_freeze_inv [OF _ w u] by (metis prod.collapse)
  next
    case (advance ta i rh now)
    then show ?thesis using put uow_advance_inv [OF _ w u] by (metis prod.collapse)
  next
    case (finalize i fr snap pay lin auth now)
    then show ?thesis using put uow_finalize_inv [OF _ w u] by (metis prod.collapse)
  qed
qed

lemma decision_reach_inv: "decision_reach digest s \<Longrightarrow> system_inv digest s"
proof (induction rule: decision_reach.induct)
  case start
  show ?case by (simp add: system_inv_def initial_system_def world_inv_def unit_inv_def empty_world_def new_uow_def)
next
  case (step s t)
  then show ?case using decision_step_inv by blast
qed

lemma next_stage:
  assumes "run_wf digest q" "run_wf digest q'" "dr_version q' = dr_version q + 1"
  shows "dr_state q' \<in> run_transitions (dr_state q)"
  using assms by (cases "dr_state q"; cases "dr_state q'") (auto simp: run_wf_def)

lemma unit_of_work_stored:
  assumes "decision_reach digest s" and "uow_run (sys_units s i) = Some r"
  shows "\<exists>q. runs (sys_world s) (dr_decision_id r) = Some q \<and> dr_version r \<le> dr_version q
    \<and> (dr_version r = dr_version q \<longrightarrow> q = r)"
  using decision_reach_inv [OF assms(1)] assms(2) by (auto simp: system_inv_def unit_inv_def)

subsection \<open>Properties\<close>

text \<open>C3: In every reachable system, whatever the interleaving of units of work, a stored
  run's version is the number of the stage it is in, no run past the freeze lacks the hash of
  its frozen bundle, and a finalized run carries its snapshot identifier, its response and the
  digest of that very response, and no error code.\<close>

theorem decision_run_stage_evidence:
  assumes "decision_reach digest s" and "runs (sys_world s) d = Some r"
  shows "dr_decision_id r = d \<and> dr_version r = run_rank (dr_state r)
    \<and> (dr_state r \<noteq> RECEIVED \<longrightarrow> dr_bundle_hash r \<noteq> None)
    \<and> (dr_state r = FINALIZED \<longrightarrow> run_execution_eligible r \<and> dr_snapshot_id r \<noteq> None
         \<and> (\<exists>v. dr_final_response_hash r = Some (digest v)
              \<and> dr_final_response_json r = Some (if is_dict v then v else VDict [(''value'', v)])))"
proof -
  have "run_wf digest r" and d: "dr_decision_id r = d"
    using decision_reach_inv [OF assms(1)] assms(2) by (auto simp: system_inv_def world_inv_def)
  then show ?thesis
    by (cases "dr_state r") (auto simp: run_wf_def run_execution_eligible_def falsy_text_def)
qed

definition example_digest :: "pyval \<Rightarrow> string" where
  "example_digest v = (if is_dict v then ''sha256:dict'' else ''sha256:other'')"

definition received_system :: decision_system where
  "received_system = put_unit initial_system 0
     (snd (uow_receive empty_world new_uow ''p1'' ''k1'' ''h1'' ''d1'' ''r1'' 7))"

lemma received_reach: "decision_reach example_digest received_system"
proof -
  have "decision_step example_digest initial_system received_system"
    using decision_step.receive [of initial_system "''d1''" example_digest 0 "''p1''" "''k1''" "''h1''" "''r1''" 7]
    by (simp add: received_system_def initial_system_def empty_world_def)
  then show ?thesis by (rule decision_reach.step [OF decision_reach.start])
qed

lemma received_runs: "runs (sys_world received_system) ''d1'' = Some (new_run ''d1'' ''r1'' 7)"
  by (simp add: received_system_def put_unit_def uow_receive_def repo_get_or_create_def empty_world_def Let_def)

lemma decision_run_stage_evidence_witness:
  "decision_reach example_digest received_system \<and>
   dr_version (new_run ''d1'' ''r1'' 7) = run_rank RECEIVED"
  using decision_run_stage_evidence [OF received_reach received_runs] received_reach
  by (simp add: new_run_def)

text \<open>Every step of every unit of work leaves each stored run as it is or moves it one
  stage forward along the transition table: no run disappears, skips a stage or goes back.\<close>

theorem decision_runs_only_advance:
  assumes "decision_reach digest s" and "decision_step digest s t" and "runs (sys_world s) d = Some q"
  shows "\<exists>q'. runs (sys_world t) d = Some q' \<and>
    (q' = q \<or> dr_version q' = dr_version q + 1 \<and> dr_state q' \<in> run_transitions (dr_state q))"
proof -
  have inv: "system_inv digest s" by (rule decision_reach_inv [OF assms(1)])
  obtain q' where q': "runs (sys_world t) d = Some q'" "q' = q \<or> dr_version q' = dr_version q + 1"
    using decision_step_inv [OF assms(2) inv] assms(3) by (auto simp: world_extends_def)
  have "system_inv digest t" using decision_step_inv [OF assms(2) inv] by simp
  then have "run_wf digest q" "run_wf digest q'"
    using inv assms(3) q'(1) by (auto simp: system_inv_def world_inv_def)
  then show ?thesis using q' next_stage by blast
qed

definition frozen_system :: decision_system where
  "frozen_system = put_unit received_system 0 (snd (uow_freeze_bundle (sys_world received_system)
     (sys_units received_system 0) (VStr ''bundle'') ''b1'' ''bh1'' None 8))"

lemma frozen_step: "decision_step example_digest received_system frozen_system"
  using decision_step.freeze by (simp add: frozen_system_def)

lemma decision_runs_only_advance_witness:
  "\<exists>q'. runs (sys_world frozen_system) ''d1'' = Some q' \<and> (q' = new_run ''d1'' ''r1'' 7 \<or> dr_version q' = 1)"
  using decision_runs_only_advance [OF received_reach frozen_step received_runs]
  by (auto simp: new_run_def)

text \<open>C4: What a finalization leaves behind. An error leaves the unit of work and every stored run as they were, and the
  outbox too unless the run was governed and its finalization event was already there: then exactly that event is
  lost. A success stores the finalized run, from a stored run of the version the unit had seen, together with
  its event: the new one, or the one of that id already in the outbox. So where no event of the run is in the outbox yet,
  finalization is all or nothing.\<close>

theorem finalize_all_or_nothing:
  assumes "uow_run u = Some r" and "uow_finalize digest w u fr snap pay lin auth now = (res, w', u')"
  defines "eid \<equiv> finalized_event_id (dr_decision_id r)"
  shows "(\<exists>e. res = Inl e \<and> u' = u \<and> runs w' = runs w
        \<and> (w' = w \<or> dr_state r = GOVERNED \<and> outbox w eid \<noteq> None \<and> outbox w' = (outbox w)(eid := None))) \<or>
    (\<exists>old. dr_state r = GOVERNED \<and> res = Inr (finalized_run digest r fr snap lin auth now)
       \<and> runs w (dr_decision_id r) = Some old \<and> dr_version old = dr_version r
       \<and> runs w' = (runs w)(dr_decision_id r \<mapsto> finalized_run digest r fr snap lin auth now)
       \<and> outbox w' = (outbox w)(eid \<mapsto> (case outbox w eid of Some ev \<Rightarrow> ev
            | None \<Rightarrow> \<lparr>ev_event_id = eid, ev_aggregate_id = dr_decision_id r,
             ev_event_type = ''DecisionFinalized'', ev_payload = pay, ev_published = False\<rparr>))
       \<and> uow_committed u')"
proof (cases "dr_state r = GOVERNED")
  case False
  then show ?thesis using assms(1,2) uow_finalize_not_governed [of u] by auto
next
  case True
  note eq = uow_finalize_eq [OF assms(1) True, unfolded Let_def, folded eid_def]
  show ?thesis
  proof (cases "\<exists>old. runs w (dr_decision_id r) = Some old \<and> dr_version old = dr_version r")
    case ok: True
    then show ?thesis using assms(2) True
      by (auto simp: eq repo_save_def outbox_enqueue_def Let_def fun_upd_idem split: option.splits)
  next
    case False
    have same: "outbox_enqueue w eid (dr_decision_id r) ''DecisionFinalized'' pay\<lparr>outbox := (outbox w)(eid := None)\<rparr> = w" if "outbox w eid = None"
      using that by (simp add: outbox_enqueue_def fun_upd_idem)
    show ?thesis using False same assms(2) True
      by (cases "outbox w eid") (auto simp: eq repo_save_def outbox_enqueue_def repo_get_def Let_def fun_upd_idem fun_upd_triv split: option.splits)
  qed
qed

definition governed_run :: decision_run where
  "governed_run = (new_run ''d'' ''r'' 0)\<lparr>dr_state := GOVERNED, dr_version := 4, dr_bundle_hash := Some ''bh''\<rparr>"

definition governed_world :: decision_world where
  "governed_world = empty_world\<lparr>runs := [''d'' \<mapsto> governed_run]\<rparr>"

definition governed_unit :: unit_of_work where
  "governed_unit = new_uow\<lparr>uow_run := Some governed_run\<rparr>"

lemma governed_simps [simp]:
  "dr_state governed_run = GOVERNED" "dr_version governed_run = 4" "dr_decision_id governed_run = ''d''"
  "runs governed_world = [''d'' \<mapsto> governed_run]" "outbox governed_world = Map.empty"
  "uow_run governed_unit = Some governed_run"
  by (simp_all add: governed_run_def governed_world_def governed_unit_def new_run_def empty_world_def)

lemma finalize_all_or_nothing_witness:
  "fst (uow_finalize example_digest governed_world governed_unit VNone ''s'' VNone None None 1)
     = Inr (finalized_run example_digest governed_run VNone ''s'' None None 1)"
proof -
  obtain res w' u' where f: "uow_finalize example_digest governed_world governed_unit VNone ''s'' VNone None None 1 = (res, w', u')"
    by (metis prod_cases3)
  have "\<not> (\<exists>e. res = Inl e)"
    using f by (auto simp: uow_finalize_eq [of governed_unit governed_run] repo_save_def outbox_enqueue_def Let_def)
  then have "res = Inr (finalized_run example_digest governed_run VNone ''s'' None None 1)"
    using finalize_all_or_nothing [OF _ f, of governed_run] by auto
  then show ?thesis using f by simp
qed

text \<open>Of two units of work that hold the same governed run, the one that finalizes second
  is refused with a version conflict, and the finalized run of the first stays stored.\<close>

theorem second_finalize_fenced:
  assumes "uow_run u = Some r" and "uow_run v = Some r"
    and "uow_finalize digest w u fr snap pay lin auth now = (Inr s, w1, u')"
    and "uow_finalize digest w1 v fr2 snap2 pay2 lin2 auth2 now2 = (res, w2, v')"
  shows "res = Inl (RuntimeError ''DECISION_RUN_VERSION_CONFLICT'') \<and> v' = v
    \<and> runs w2 = runs w1 \<and> runs w2 (dr_decision_id r) = Some s \<and> dr_state s = FINALIZED"
proof -
  have g: "dr_state r = GOVERNED"
    using assms(1,3) uow_finalize_not_governed [of u] by (cases "dr_state r = GOVERNED") auto
  have s: "s = finalized_run digest r fr snap lin auth now" "runs w1 (dr_decision_id r) = Some s"
    using assms(3) by (auto simp: uow_finalize_eq [OF assms(1) g] repo_save_def Let_def split: option.splits if_splits)
  then have "dr_version s \<noteq> dr_version r" "dr_decision_id s = dr_decision_id r" "dr_state s = FINALIZED" by simp_all
  then show ?thesis
    using assms(4) s(2)
    by (auto simp: uow_finalize_eq [OF assms(2) g] repo_save_def frame_simps repo_get_def Let_def fun_upd_idem)
qed

lemma second_finalize_fenced_witness:
  "\<exists>s w1 u'. uow_finalize example_digest governed_world governed_unit VNone ''s'' VNone None None 1 = (Inr s, w1, u')
    \<and> fst (uow_finalize example_digest w1 governed_unit (VInt 1) ''s'' VNone None None 2)
        = Inl (RuntimeError ''DECISION_RUN_VERSION_CONFLICT'')"
proof -
  obtain s w1 u' where f: "uow_finalize example_digest governed_world governed_unit VNone ''s'' VNone None None 1 = (Inr s, w1, u')"
    by (simp add: uow_finalize_eq [of governed_unit governed_run] repo_save_def outbox_enqueue_def Let_def)
  obtain res w2 v' where g: "uow_finalize example_digest w1 governed_unit (VInt 1) ''s'' VNone None None 2 = (res, w2, v')"
    by (metis prod_cases3)
  show ?thesis using second_finalize_fenced [OF _ _ f g, of governed_run] f g by auto
qed

text \<open>C5: The refused second finalization removes the first one's event: after it the run is
  still stored as finalized but the outbox holds no finalization event for it, because the
  rollback pops the event identifier whether or not this unit enqueued it.\<close>

theorem fenced_finalize_drops_event:
  assumes "uow_run u = Some r" and "uow_run v = Some r"
    and "uow_finalize digest w u fr snap pay lin auth now = (Inr s, w1, u')"
    and "uow_finalize digest w1 v fr2 snap2 pay2 lin2 auth2 now2 = (res, w2, v')"
  shows "outbox w1 (finalized_event_id (dr_decision_id r)) \<noteq> None
    \<and> dr_state s = FINALIZED \<and> runs w2 (dr_decision_id r) = Some s
    \<and> outbox w2 (finalized_event_id (dr_decision_id r)) = None"
proof -
  have g: "dr_state r = GOVERNED"
    using assms(1,3) uow_finalize_not_governed [of u] by (cases "dr_state r = GOVERNED") auto
  have s: "runs w1 (dr_decision_id r) = Some s" "dr_version s = dr_version r + 1" "dr_state s = FINALIZED"
    "outbox w1 (finalized_event_id (dr_decision_id r)) \<noteq> None"
    using assms(3) by (auto simp: uow_finalize_eq [OF assms(1) g] repo_save_def outbox_enqueue_def Let_def split: option.splits if_splits)
  then show ?thesis
    using assms(4)
    by (auto simp: uow_finalize_eq [OF assms(2) g] repo_save_def frame_simps repo_get_def Let_def)
qed

lemma fenced_finalize_drops_event_witness:
  "\<exists>w1 u' s w2 v' res. uow_finalize example_digest governed_world governed_unit VNone ''s'' VNone None None 1 = (Inr s, w1, u')
    \<and> uow_finalize example_digest w1 governed_unit VNone ''s'' VNone None None 2 = (res, w2, v')
    \<and> outbox w1 (finalized_event_id ''d'') \<noteq> None \<and> outbox w2 (finalized_event_id ''d'') = None"
proof -
  obtain s w1 u' where f: "uow_finalize example_digest governed_world governed_unit VNone ''s'' VNone None None 1 = (Inr s, w1, u')"
    by (simp add: uow_finalize_eq [of governed_unit governed_run] repo_save_def outbox_enqueue_def Let_def)
  obtain res w2 v' where g: "uow_finalize example_digest w1 governed_unit VNone ''s'' VNone None None 2 = (res, w2, v')"
    by (metis prod_cases3)
  show ?thesis using fenced_finalize_drops_event [OF _ _ f g, of governed_run] f g by auto
qed

text \<open>Idempotency of reception: after a key has been received with a request hash, receiving
  it again with the same hash returns the stored run and changes nothing, and with another hash
  is refused as a conflict.\<close>

theorem receive_idempotent:
  assumes "world_inv digest w" and "runs w fd = None"
    and "uow_receive w u pid key h fd fr now = (Inr r, w1, u1)"
  shows "uow_receive w1 v pid key h' fd2 fr2 now2 =
    (if h' = h then (Inr r, w1, v\<lparr>uow_run := Some r\<rparr>)
     else (Inl (PyExc ''IdempotencyConflict'' ''IDEMPOTENCY_KEY_CONFLICT''), w1, v))"
  using assms
  by (auto simp: uow_receive_def repo_get_or_create_def Let_def split: option.splits if_splits)

lemma receive_idempotent_witness:
  "uow_receive (sys_world received_system) new_uow ''p1'' ''k1'' ''h2'' ''d2'' ''r2'' 9 =
     (Inl (PyExc ''IdempotencyConflict'' ''IDEMPOTENCY_KEY_CONFLICT''), sys_world received_system, new_uow)"
proof -
  have inv: "world_inv example_digest empty_world" by (simp add: world_inv_def empty_world_def)
  have fresh: "runs empty_world ''d1'' = None" by (simp add: empty_world_def)
  have rc: "uow_receive empty_world new_uow ''p1'' ''k1'' ''h1'' ''d1'' ''r1'' 7 =
      (Inr (new_run ''d1'' ''r1'' 7), sys_world received_system, new_uow\<lparr>uow_run := Some (new_run ''d1'' ''r1'' 7)\<rparr>)"
    by (simp add: received_system_def put_unit_def uow_receive_def repo_get_or_create_def empty_world_def Let_def)
  show ?thesis
    using receive_idempotent [OF inv fresh rc, of new_uow "''h2''" "''d2''" "''r2''" 9] by simp
qed

end
