(* ===== verification/Proposal.thy ===== *)
theory Proposal
  imports PyVal
begin

text \<open>
  The investment-proposal contracts of \<open>contracts/proposal.py\<close>: the horizon, the thesis points
  and \<open>InvestmentProposalV2\<close> with its field validators, its consistency rules and its hash,
  and the adapters from and to the v1 dataclass of \<open>engines/policy/models.py\<close>. A model whose
  validation fails raises \<open>ValidationError\<close>; the message is that of the first failing check.
  The SHA-256 of the canonical JSON of a proposal is the argument \<open>digest\<close>, applied to the
  proposal with its hash field blanked.
\<close>

datatype py_datetime = Aware int | Naive int

fun is_aware :: "py_datetime \<Rightarrow> bool" where
  "is_aware (Aware _) = True"
| "is_aware (Naive _) = False"

fun instant :: "py_datetime \<Rightarrow> int" where
  "instant (Aware t) = t"
| "instant (Naive t) = t"

abbreviation ValidationError :: "string \<Rightarrow> exc" where
  "ValidationError m \<equiv> PyExc ''ValidationError'' m"

definition nonblank :: "string \<Rightarrow> string \<Rightarrow> string result" where
  "nonblank value name = (if blank value then Inl (ValidationError (name @ '' must be non-blank'')) else Inr (strip value))"

definition nonblank_all :: "string list \<Rightarrow> string \<Rightarrow> string list result" where
  "nonblank_all values name = mapR (\<lambda>v. nonblank v name) values"

definition unique_refs :: "string list \<Rightarrow> string \<Rightarrow> string list result" where
  "unique_refs values name = bindR (nonblank_all values name) (\<lambda>cleaned.
     if length cleaned \<noteq> card (set cleaned) then Inl (ValidationError (name @ '' must not contain duplicates'')) else Inr cleaned)"

definition check_that :: "bool \<Rightarrow> string \<Rightarrow> unit result" where
  "check_that ok m = (if ok then Inr () else Inl (ValidationError m))"

lemma check_that_Inr [simp]: "check_that ok m = Inr u \<longleftrightarrow> ok"
  by (simp add: check_that_def)

subsection \<open>Data\<close>

record decision_horizon =
  hz_period :: string
  hz_start :: "py_datetime option"
  hz_end :: "py_datetime option"

record thesis_point =
  tp_statement :: string
  tp_evidence_refs :: "string list"

record model_identity =
  mi_provider :: string
  mi_model :: string
  mi_model_version :: "string option"

datatype subject_kind = SYMBOL | THEME | PORTFOLIO

datatype investment_action = BUY | SELL | HOLD | INCREASE | REDUCE | EXIT | WATCH

fun action_text :: "investment_action \<Rightarrow> string" where
  "action_text BUY = ''BUY''"
| "action_text SELL = ''SELL''"
| "action_text HOLD = ''HOLD''"
| "action_text INCREASE = ''INCREASE''"
| "action_text REDUCE = ''REDUCE''"
| "action_text EXIT = ''EXIT''"
| "action_text WATCH = ''WATCH''"

fun subject_text :: "subject_kind \<Rightarrow> string" where
  "subject_text SYMBOL = ''SYMBOL''"
| "subject_text THEME = ''THEME''"
| "subject_text PORTFOLIO = ''PORTFOLIO''"

record proposal_v2 =
  pr_proposal_id :: string
  pr_subject_type :: subject_kind
  pr_subject_key :: "string option"
  pr_action :: investment_action
  pr_target_weight :: "pyfloat option"
  pr_weight_delta :: "pyfloat option"
  pr_confidence :: pyfloat
  pr_horizon :: decision_horizon
  pr_thesis :: "thesis_point list"
  pr_catalysts :: "string list"
  pr_entry_conditions :: "string list"
  pr_invalidation_conditions :: "string list"
  pr_expected_risks :: "string list"
  pr_evidence_refs :: "string list"
  pr_specialist_artifact_refs :: "string list"
  pr_unknowns :: "string list"
  pr_generated_by :: model_identity
  pr_proposal_hash :: string

subsection \<open>Validation\<close>

definition validate_horizon :: "decision_horizon \<Rightarrow> decision_horizon result" where
  "validate_horizon h =
     bindR (nonblank (hz_period h) ''period'') (\<lambda>period.
     bindR (check_that (\<forall>t \<in> set_option (hz_start h). is_aware t) ''horizon times must be timezone-aware'') (\<lambda>_.
     bindR (check_that (\<forall>t \<in> set_option (hz_end h). is_aware t) ''horizon times must be timezone-aware'') (\<lambda>_.
     bindR (check_that (case (hz_start h, hz_end h) of (Some s, Some e) \<Rightarrow> \<not> instant e \<le> instant s | _ \<Rightarrow> True)
              ''horizon end must be after start'') (\<lambda>_.
     Inr (h\<lparr>hz_period := period\<rparr>)))))"

definition validate_thesis_point :: "thesis_point \<Rightarrow> thesis_point result" where
  "validate_thesis_point t =
     bindR (nonblank (tp_statement t) ''statement'') (\<lambda>statement.
     bindR (unique_refs (tp_evidence_refs t) ''evidence_refs'') (\<lambda>refs.
     Inr (t\<lparr>tp_statement := statement, tp_evidence_refs := refs\<rparr>)))"

definition validate_identity :: "model_identity \<Rightarrow> model_identity result" where
  "validate_identity m =
     bindR (nonblank (mi_provider m) ''model identity'') (\<lambda>provider.
     bindR (nonblank (mi_model m) ''model identity'') (\<lambda>model.
     Inr (m\<lparr>mi_provider := provider, mi_model := model\<rparr>)))"

definition float_between :: "pyfloat \<Rightarrow> pyfloat \<Rightarrow> pyfloat option \<Rightarrow> bool" where
  "float_between lo hi x = (case x of None \<Rightarrow> True | Some v \<Rightarrow> f_le lo v \<and> f_le v hi)"

text \<open>The field validators, in field order, each replacing its field by the cleaned value.\<close>

definition clean_proposal :: "proposal_v2 \<Rightarrow> proposal_v2 result" where
  "clean_proposal p =
     bindR (nonblank (pr_proposal_id p) ''proposal_id'') (\<lambda>pid.
     bindR (case pr_subject_key p of None \<Rightarrow> Inr None | Some k \<Rightarrow> bindR (nonblank k ''subject_key'') (\<lambda>k'. Inr (Some k'))) (\<lambda>key.
     bindR (check_that (float_between (Fin 0) (Fin 1) (pr_target_weight p)) ''target_weight must be between 0 and 1'') (\<lambda>_.
     bindR (check_that (float_between (Fin (-1)) (Fin 1) (pr_weight_delta p)) ''weight_delta must be between -1 and 1'') (\<lambda>_.
     bindR (check_that (f_le (Fin 0) (pr_confidence p) \<and> f_le (pr_confidence p) (Fin 1)) ''confidence must be between 0 and 1'') (\<lambda>_.
     bindR (validate_horizon (pr_horizon p)) (\<lambda>hz.
     bindR (mapR validate_thesis_point (pr_thesis p)) (\<lambda>thesis.
     bindR (nonblank_all (pr_catalysts p) ''text item'') (\<lambda>catalysts.
     bindR (nonblank_all (pr_entry_conditions p) ''text item'') (\<lambda>entry.
     bindR (nonblank_all (pr_invalidation_conditions p) ''text item'') (\<lambda>inval.
     bindR (nonblank_all (pr_expected_risks p) ''text item'') (\<lambda>risks.
     bindR (unique_refs (pr_evidence_refs p) ''evidence_refs'') (\<lambda>refs.
     bindR (unique_refs (pr_specialist_artifact_refs p) ''specialist_artifact_refs'') (\<lambda>arts.
     bindR (nonblank_all (pr_unknowns p) ''text item'') (\<lambda>unknowns.
     bindR (validate_identity (pr_generated_by p)) (\<lambda>ident.
     Inr (p\<lparr>pr_proposal_id := pid, pr_subject_key := key, pr_horizon := hz, pr_thesis := thesis, pr_catalysts := catalysts,
            pr_entry_conditions := entry, pr_invalidation_conditions := inval, pr_expected_risks := risks,
            pr_evidence_refs := refs, pr_specialist_artifact_refs := arts, pr_unknowns := unknowns, pr_generated_by := ident\<rparr>))))))))))))))))"

text \<open>The consistency rules of \<open>validate_and_hash\<close>, then the hash comparison.\<close>

definition proposal_consistent :: "proposal_v2 \<Rightarrow> unit result" where
  "proposal_consistent p =
     bindR (check_that (\<not> (pr_subject_type p \<in> {SYMBOL, THEME} \<and> pr_subject_key p = None))
              ''subject_key is required for SYMBOL and THEME proposals'') (\<lambda>_.
     bindR (check_that (\<not> (pr_target_weight p \<noteq> None \<and> pr_weight_delta p \<noteq> None))
              ''target_weight and weight_delta are mutually exclusive'') (\<lambda>_.
     bindR (check_that (\<not> (pr_action p \<in> {HOLD, WATCH} \<and> (pr_target_weight p \<noteq> None \<or> pr_weight_delta p \<noteq> None)))
              (action_text (pr_action p) @ '' cannot carry a target weight or weight delta'')) (\<lambda>_.
     bindR (check_that (\<not> (pr_action p \<in> {BUY, INCREASE, SELL, REDUCE, EXIT} \<and> pr_target_weight p = None \<and> pr_weight_delta p = None))
              (action_text (pr_action p) @ '' requires target_weight or weight_delta'')) (\<lambda>_.
     bindR (check_that (\<not> (pr_action p \<in> {BUY, INCREASE} \<and> (\<exists>d \<in> set_option (pr_weight_delta p). f_lt d (Fin 0))))
              (action_text (pr_action p) @ '' requires a non-negative weight_delta'')) (\<lambda>_.
     check_that (\<not> (pr_action p \<in> {SELL, REDUCE, EXIT} \<and> (\<exists>d \<in> set_option (pr_weight_delta p). f_lt (Fin 0) d)))
              (action_text (pr_action p) @ '' requires a non-positive weight_delta''))))))"

definition validate_proposal :: "(proposal_v2 \<Rightarrow> string) \<Rightarrow> proposal_v2 \<Rightarrow> proposal_v2 result" where
  "validate_proposal digest p =
     bindR (clean_proposal p) (\<lambda>q.
     bindR (proposal_consistent q) (\<lambda>_.
     bindR (check_that (pr_proposal_hash q \<noteq> [] \<and> pr_proposal_hash q = digest (q\<lparr>pr_proposal_hash := []\<rparr>))
              ''proposal_hash does not match canonical proposal contents'') (\<lambda>_. Inr q)))"

definition build_proposal :: "(proposal_v2 \<Rightarrow> string) \<Rightarrow> proposal_v2 \<Rightarrow> proposal_v2 result" where
  "build_proposal digest p = validate_proposal digest (p\<lparr>pr_proposal_hash := digest (p\<lparr>pr_proposal_hash := []\<rparr>)\<rparr>)"

text \<open>\<open>model_copy(update=...)\<close>: the copy is validated again, hash included.\<close>

definition proposal_copy :: "(proposal_v2 \<Rightarrow> string) \<Rightarrow> proposal_v2 \<Rightarrow> (proposal_v2 \<Rightarrow> proposal_v2) \<Rightarrow> proposal_v2 result" where
  "proposal_copy digest p update = validate_proposal digest (update p)"

subsection \<open>The v1 proposal and the adapters\<close>

record invest_proposal =
  iv_symbol :: string
  iv_action :: string
  iv_proposed_weight :: pyfloat
  iv_confidence :: pyfloat
  iv_thesis_refs :: "string list"
  iv_sector :: "string option"
  iv_theme :: "string option"
  iv_evidence_count :: int
  iv_factor_coverage :: pyfloat
  iv_domain_coverage :: "(string \<times> pyfloat) list"
  iv_liquidity_ok :: bool
  iv_is_st :: bool
  iv_is_suspended :: bool

fun parse_action :: "string \<Rightarrow> investment_action result" where
  "parse_action s = (if s = ''BUY'' then Inr BUY else if s = ''SELL'' then Inr SELL else if s = ''HOLD'' then Inr HOLD
     else if s = ''INCREASE'' then Inr INCREASE else if s = ''REDUCE'' then Inr REDUCE
     else if s = ''EXIT'' then Inr EXIT else if s = ''WATCH'' then Inr WATCH
     else Inl (ValidationError ''action''))"

definition from_v1 ::
  "(proposal_v2 \<Rightarrow> string) \<Rightarrow> invest_proposal \<Rightarrow> string \<Rightarrow> decision_horizon \<Rightarrow> model_identity \<Rightarrow> string list \<Rightarrow> proposal_v2 result" where
  "from_v1 digest p pid hz ident refs = bindR (parse_action (str_upper (iv_action p))) (\<lambda>act.
     build_proposal digest \<lparr>pr_proposal_id = pid, pr_subject_type = SYMBOL, pr_subject_key = Some (iv_symbol p), pr_action = act,
       pr_target_weight = (if act \<notin> {HOLD, WATCH} then Some (iv_proposed_weight p) else None), pr_weight_delta = None,
       pr_confidence = iv_confidence p, pr_horizon = hz,
       pr_thesis = [\<lparr>tp_statement = ''v1 proposal'', tp_evidence_refs = iv_thesis_refs p\<rparr>],
       pr_catalysts = [], pr_entry_conditions = [], pr_invalidation_conditions = [], pr_expected_risks = [],
       pr_evidence_refs = refs, pr_specialist_artifact_refs = [], pr_unknowns = [], pr_generated_by = ident,
       pr_proposal_hash = []\<rparr>)"

definition float_or_zero :: "pyfloat option \<Rightarrow> pyfloat" where
  "float_or_zero x = (case x of None \<Rightarrow> Fin 0 | Some f \<Rightarrow> f)"

definition to_v1 :: "proposal_v2 \<Rightarrow> invest_proposal" where
  "to_v1 p = \<lparr>iv_symbol = (case pr_subject_key p of None \<Rightarrow> [] | Some k \<Rightarrow> k), iv_action = action_text (pr_action p),
     iv_proposed_weight = float_or_zero (pr_target_weight p), iv_confidence = pr_confidence p,
     iv_thesis_refs = pr_evidence_refs p, iv_sector = None, iv_theme = None,
     iv_evidence_count = int (length (pr_evidence_refs p)), iv_factor_coverage = Fin 1, iv_domain_coverage = [],
     iv_liquidity_ok = True, iv_is_st = False, iv_is_suspended = False\<rparr>"

subsection \<open>Laws of validation\<close>

lemma dropWhile_hd: "(xs \<noteq> [] \<Longrightarrow> \<not> P (hd xs)) \<Longrightarrow> dropWhile P xs = xs"
  by (cases xs) auto

lemma strip_strip [simp]: "strip (strip s) = strip s"
proof -
  define u where "u = dropWhile is_space s"
  define v where "v = rev (dropWhile is_space (rev u))"
  have "dropWhile is_space v = v"
  proof (rule dropWhile_hd)
    assume ne: "v \<noteq> []"
    have "u = v @ rev (takeWhile is_space (rev u))"
      unfolding v_def by (metis rev_append rev_rev_ident takeWhile_dropWhile_id)
    then have "hd u = hd v" "u \<noteq> []" using ne by (metis hd_append, auto)
    then show "\<not> is_space (hd v)" using hd_dropWhile [of is_space s] by (simp add: u_def)
  qed
  then show ?thesis by (simp add: strip_def u_def [symmetric] v_def [symmetric]) (simp add: v_def)
qed

lemma blank_strip [simp]: "blank (strip s) = blank s"
  by (simp add: blank_def)

lemma nonblank_Inr_iff: "nonblank v n = Inr w \<longleftrightarrow> \<not> blank v \<and> w = strip v"
  by (auto simp: nonblank_def)

lemma mapR_Inr_pure:
  "(\<And>x y. f x = Inr y \<longleftrightarrow> P x \<and> y = g x) \<Longrightarrow> mapR f xs = Inr ys \<longleftrightarrow> (\<forall>x \<in> set xs. P x) \<and> ys = map g xs"
  by (induction xs arbitrary: ys) (auto simp: bindR_Inr_iff)

lemma mapR_fix:
  assumes "\<And>x y. f x = Inr y \<Longrightarrow> f y = Inr y"
  shows "mapR f xs = Inr ys \<Longrightarrow> mapR f ys = Inr ys"
  by (induction xs arbitrary: ys) (auto simp: bindR_Inr_iff dest: assms)

lemma nonblank_all_Inr_iff: "nonblank_all vs n = Inr ws \<longleftrightarrow> (\<forall>v \<in> set vs. \<not> blank v) \<and> ws = map strip vs"
  unfolding nonblank_all_def by (rule mapR_Inr_pure) (rule nonblank_Inr_iff)

lemma unique_refs_Inr_iff:
  "unique_refs vs n = Inr ws \<longleftrightarrow> (\<forall>v \<in> set vs. \<not> blank v) \<and> distinct (map strip vs) \<and> ws = map strip vs"
proof -
  have "length xs = card (set xs) \<longleftrightarrow> distinct xs" for xs :: "string list"
    using card_distinct [of xs] distinct_card [of xs] by auto
  then show ?thesis by (auto simp: unique_refs_def bindR_Inr_iff nonblank_all_Inr_iff)
qed

lemma map_strip_strip [simp]: "map strip (map strip vs) = map strip vs"
  by simp

lemmas clean_iffs = nonblank_Inr_iff nonblank_all_Inr_iff unique_refs_Inr_iff

lemma validate_horizon_Inr_iff:
  "validate_horizon h = Inr k \<longleftrightarrow> \<not> blank (hz_period h) \<and> (\<forall>t \<in> set_option (hz_start h). is_aware t)
     \<and> (\<forall>t \<in> set_option (hz_end h). is_aware t)
     \<and> (\<forall>s e. hz_start h = Some s \<longrightarrow> hz_end h = Some e \<longrightarrow> instant s < instant e)
     \<and> k = h\<lparr>hz_period := strip (hz_period h)\<rparr>"
  by (auto simp: validate_horizon_def bindR_Inr_iff nonblank_Inr_iff split: option.splits)

lemma validate_identity_Inr_iff:
  "validate_identity m = Inr n \<longleftrightarrow> \<not> blank (mi_provider m) \<and> \<not> blank (mi_model m)
     \<and> n = m\<lparr>mi_provider := strip (mi_provider m), mi_model := strip (mi_model m)\<rparr>"
  by (auto simp: validate_identity_def bindR_Inr_iff nonblank_Inr_iff)

lemma thesis_fix: "validate_thesis_point t = Inr u \<Longrightarrow> validate_thesis_point u = Inr u"
  by (auto simp: validate_thesis_point_def bindR_Inr_iff clean_iffs comp_def)

definition clean_key :: "string option \<Rightarrow> string option result" where
  "clean_key k = (case k of None \<Rightarrow> Inr None | Some k' \<Rightarrow> bindR (nonblank k' ''subject_key'') (\<lambda>c. Inr (Some c)))"

lemma clean_key_Inr_iff: "clean_key k = Inr c \<longleftrightarrow> (\<forall>v \<in> set_option k. \<not> blank v) \<and> c = map_option strip k"
  by (cases k) (auto simp: clean_key_def nonblank_Inr_iff bindR_Inr_iff)

lemma clean_proposal_Inr_iff:
  "clean_proposal p = Inr q \<longleftrightarrow>
     \<not> blank (pr_proposal_id p) \<and> (\<forall>v \<in> set_option (pr_subject_key p). \<not> blank v)
     \<and> float_between (Fin 0) (Fin 1) (pr_target_weight p) \<and> float_between (Fin (-1)) (Fin 1) (pr_weight_delta p)
     \<and> f_le (Fin 0) (pr_confidence p) \<and> f_le (pr_confidence p) (Fin 1)
     \<and> (\<exists>hz thesis cat ent inv rsk ref art unk idn.
          validate_horizon (pr_horizon p) = Inr hz \<and> mapR validate_thesis_point (pr_thesis p) = Inr thesis
          \<and> nonblank_all (pr_catalysts p) ''text item'' = Inr cat \<and> nonblank_all (pr_entry_conditions p) ''text item'' = Inr ent
          \<and> nonblank_all (pr_invalidation_conditions p) ''text item'' = Inr inv
          \<and> nonblank_all (pr_expected_risks p) ''text item'' = Inr rsk
          \<and> unique_refs (pr_evidence_refs p) ''evidence_refs'' = Inr ref
          \<and> unique_refs (pr_specialist_artifact_refs p) ''specialist_artifact_refs'' = Inr art
          \<and> nonblank_all (pr_unknowns p) ''text item'' = Inr unk \<and> validate_identity (pr_generated_by p) = Inr idn
          \<and> q = p\<lparr>pr_proposal_id := strip (pr_proposal_id p), pr_subject_key := map_option strip (pr_subject_key p),
               pr_horizon := hz, pr_thesis := thesis, pr_catalysts := cat, pr_entry_conditions := ent,
               pr_invalidation_conditions := inv, pr_expected_risks := rsk, pr_evidence_refs := ref,
               pr_specialist_artifact_refs := art, pr_unknowns := unk, pr_generated_by := idn\<rparr>)"
  unfolding clean_proposal_def clean_key_def [symmetric]
  by (simp add: bindR_Inr_iff nonblank_Inr_iff clean_key_Inr_iff) metis

lemma thesis_list_fix: "mapR validate_thesis_point ts = Inr us \<Longrightarrow> mapR validate_thesis_point us = Inr us"
  by (rule mapR_fix) (rule thesis_fix)

lemma clean_proposal_fix: "clean_proposal p = Inr q \<Longrightarrow> clean_proposal q = Inr q"
  apply (subst (asm) clean_proposal_Inr_iff)
  apply (elim conjE exE)
  apply (drule thesis_list_fix)
  apply (subst clean_proposal_Inr_iff)
  apply (simp add: clean_iffs validate_horizon_Inr_iff validate_identity_Inr_iff comp_def option.map_comp option.set_map)
  done

lemma clean_proposal_hash: "clean_proposal p = Inr q \<Longrightarrow> pr_proposal_hash q = pr_proposal_hash p"
  by (auto simp: clean_proposal_def bindR_Inr_iff)

lemma validate_proposal_Inr_iff:
  "validate_proposal digest p = Inr q \<longleftrightarrow> clean_proposal p = Inr q \<and> proposal_consistent q = Inr ()
     \<and> pr_proposal_hash q \<noteq> [] \<and> pr_proposal_hash q = digest (q\<lparr>pr_proposal_hash := []\<rparr>)"
  by (auto simp: validate_proposal_def bindR_Inr_iff)

lemma proposal_consistent_iff:
  "proposal_consistent p = Inr () \<longleftrightarrow>
     (pr_subject_type p \<in> {SYMBOL, THEME} \<longrightarrow> pr_subject_key p \<noteq> None)
     \<and> (pr_target_weight p = None \<or> pr_weight_delta p = None)
     \<and> (pr_action p \<in> {HOLD, WATCH} \<longleftrightarrow> pr_target_weight p = None \<and> pr_weight_delta p = None)
     \<and> (\<forall>d. pr_weight_delta p = Some d \<longrightarrow> (pr_action p \<in> {BUY, INCREASE} \<longrightarrow> \<not> f_lt d (Fin 0))
          \<and> (pr_action p \<in> {SELL, REDUCE, EXIT} \<longrightarrow> \<not> f_lt (Fin 0) d))"
  by (cases "pr_action p"; cases "pr_weight_delta p"; cases "pr_target_weight p")
    (auto simp: proposal_consistent_def bindR_Inr_iff check_that_def)

lemma valid_proposal_bounds:
  assumes "validate_proposal digest p = Inr q"
  shows "pr_target_weight q = Some t \<Longrightarrow> f_le (Fin 0) t \<and> f_le t (Fin 1)"
    and "pr_weight_delta q = Some d \<Longrightarrow> f_le (Fin (-1)) d \<and> f_le d (Fin 1)"
    and "f_le (Fin 0) (pr_confidence q) \<and> f_le (pr_confidence q) (Fin 1)"
  using assms by (auto simp: validate_proposal_Inr_iff clean_proposal_Inr_iff float_between_def)

text \<open>C6: A proposal that construction accepts validates again to itself, so a stored proposal
  is accepted unchanged; and its weights are consistent with its action: only one of target
  and delta is given, none for HOLD and WATCH, one for every trade, with a target in [0, 1].\<close>

theorem built_proposal_revalidates:
  assumes "build_proposal digest p = Inr q"
  shows "validate_proposal digest q = Inr q
    \<and> (pr_action q \<in> {HOLD, WATCH} \<longleftrightarrow> pr_target_weight q = None \<and> pr_weight_delta q = None)
    \<and> (pr_target_weight q = None \<or> pr_weight_delta q = None)
    \<and> (\<forall>t. pr_target_weight q = Some t \<longrightarrow> f_le (Fin 0) t \<and> f_le t (Fin 1))"
proof -
  have v: "validate_proposal digest (p\<lparr>pr_proposal_hash := digest (p\<lparr>pr_proposal_hash := []\<rparr>)\<rparr>) = Inr q"
    using assms by (simp add: build_proposal_def)
  then have "validate_proposal digest q = Inr q"
    by (auto simp: validate_proposal_Inr_iff dest: clean_proposal_fix)
  moreover have "proposal_consistent q = Inr ()" using v by (simp add: validate_proposal_Inr_iff)
  ultimately show ?thesis using valid_proposal_bounds(1) [OF v] by (auto simp: proposal_consistent_iff)
qed

definition example_identity :: model_identity where
  "example_identity = \<lparr>mi_provider = ''anthropic'', mi_model = ''claude'', mi_model_version = None\<rparr>"

definition example_proposal :: proposal_v2 where
  "example_proposal = \<lparr>pr_proposal_id = ''p-1'', pr_subject_type = SYMBOL, pr_subject_key = Some ''600000.SH'',
     pr_action = BUY, pr_target_weight = Some (Fin (1/16)), pr_weight_delta = None, pr_confidence = Fin (1/2),
     pr_horizon = \<lparr>hz_period = ''3M'', hz_start = None, hz_end = None\<rparr>, pr_thesis = [], pr_catalysts = [],
     pr_entry_conditions = [], pr_invalidation_conditions = [], pr_expected_risks = [], pr_evidence_refs = [''ev-1''],
     pr_specialist_artifact_refs = [], pr_unknowns = [], pr_generated_by = example_identity, pr_proposal_hash = []\<rparr>"

definition example_hash :: "proposal_v2 \<Rightarrow> string" where
  "example_hash p = ''sha256:'' @ pr_proposal_id p"

lemma example_built: "build_proposal example_hash example_proposal = Inr (example_proposal\<lparr>pr_proposal_hash := ''sha256:p-1''\<rparr>)"
  by (code_simp)

lemma built_proposal_revalidates_witness:
  "validate_proposal example_hash (example_proposal\<lparr>pr_proposal_hash := ''sha256:p-1''\<rparr>)
     = Inr (example_proposal\<lparr>pr_proposal_hash := ''sha256:p-1''\<rparr>)"
  using built_proposal_revalidates [OF example_built] by simp

text \<open>A copy of a valid proposal with changed contents but the old hash is refused, unless
  the digest of the changed contents collides with that of the original.\<close>

theorem proposal_copy_tamper_evident:
  assumes "validate_proposal digest p = Inr p" and "proposal_copy digest p update = Inr q"
    and "pr_proposal_hash (update p) = pr_proposal_hash p"
  shows "digest (q\<lparr>pr_proposal_hash := []\<rparr>) = digest (p\<lparr>pr_proposal_hash := []\<rparr>) \<and> clean_proposal (update p) = Inr q"
  using assms by (auto simp: proposal_copy_def validate_proposal_Inr_iff dest: clean_proposal_hash)

definition weight_hash :: "proposal_v2 \<Rightarrow> string" where
  "weight_hash p = (if pr_target_weight p = Some (Fin (1/16)) then ''sha256:small'' else ''sha256:large'')"

lemma proposal_copy_tamper_evident_witness:
  "proposal_copy weight_hash (example_proposal\<lparr>pr_proposal_hash := ''sha256:small''\<rparr>) (\<lambda>p. p\<lparr>pr_unknowns := [''x'']\<rparr>)
     = Inr (example_proposal\<lparr>pr_proposal_hash := ''sha256:small'', pr_unknowns := [''x'']\<rparr>) \<and>
   clean_proposal (example_proposal\<lparr>pr_proposal_hash := ''sha256:small'', pr_unknowns := [''x'']\<rparr>)
     = Inr (example_proposal\<lparr>pr_proposal_hash := ''sha256:small'', pr_unknowns := [''x'']\<rparr>)"
proof -
  have v: "validate_proposal weight_hash (example_proposal\<lparr>pr_proposal_hash := ''sha256:small''\<rparr>)
      = Inr (example_proposal\<lparr>pr_proposal_hash := ''sha256:small''\<rparr>)" by code_simp
  have c: "proposal_copy weight_hash (example_proposal\<lparr>pr_proposal_hash := ''sha256:small''\<rparr>) (\<lambda>p. p\<lparr>pr_unknowns := [''x'']\<rparr>)
     = Inr (example_proposal\<lparr>pr_proposal_hash := ''sha256:small'', pr_unknowns := [''x'']\<rparr>)" by code_simp
  show ?thesis using proposal_copy_tamper_evident [OF v c] c by simp
qed

text \<open>The v1 adapters invert each other on what v1 carries: converting a v1 proposal to v2
  and back keeps the stripped symbol, the upper-cased action and the confidence, and the weight
  of every trade.\<close>

theorem v1_roundtrip:
  assumes "from_v1 digest p pid hz ident refs = Inr q"
  shows "iv_symbol (to_v1 q) = strip (iv_symbol p) \<and> iv_action (to_v1 q) = str_upper (iv_action p)
    \<and> iv_confidence (to_v1 q) = iv_confidence p \<and> iv_evidence_count (to_v1 q) = int (length refs)
    \<and> iv_proposed_weight (to_v1 q) =
        (if str_upper (iv_action p) \<in> {''HOLD'', ''WATCH''} then Fin 0 else iv_proposed_weight p)"
proof -
  obtain act where a: "parse_action (str_upper (iv_action p)) = Inr act" "action_text act = str_upper (iv_action p)"
    using assms by (auto simp: from_v1_def bindR_Inr_iff split: if_splits)
  show ?thesis using assms a
    by (cases act) (auto simp: from_v1_def build_proposal_def validate_proposal_Inr_iff clean_proposal_Inr_iff to_v1_def
        float_or_zero_def clean_iffs split: if_splits)
qed

lemma v1_roundtrip_witness:
  "iv_proposed_weight (to_v1 (projr (from_v1 example_hash (to_v1 example_proposal) ''p-2'' (pr_horizon example_proposal)
     example_identity []))) = Fin (1/16)"
proof -
  define p where "p = to_v1 example_proposal"
  have "\<not> isl (from_v1 example_hash p ''p-2'' (pr_horizon example_proposal) example_identity [])"
    unfolding p_def by code_simp
  then obtain q where q: "from_v1 example_hash p ''p-2'' (pr_horizon example_proposal) example_identity [] = Inr q"
    by (metis sum.collapse(2))
  have "iv_proposed_weight p = Fin (1/16)" "str_upper (iv_action p) = ''BUY''"
    unfolding p_def by code_simp+
  then show ?thesis using v1_roundtrip [OF q] q by (simp add: p_def)
qed

end
