(* ===== verification/Policy.thy ===== *)
theory Policy
  imports Proposal "HOL-Library.List_Lexorder" "HOL-Library.Char_ord"
begin

text \<open>
  The deterministic policy engine: the limits and rules of \<open>engines/policy/rules.py\<close>, the
  context and result types of \<open>engines/policy/models.py\<close>, the validators of the check and
  evaluation contracts in \<open>contracts/decision.py\<close>, the explanation of \<open>engines/policy/explanation.py\<close>
  and the engine of \<open>engines/policy/engine.py\<close>. The v1 path evaluates ten independent rules; the v2 path evaluates
  sixteen in a fixed order and carries the adjusted target weight from one to the next. All
  weights are binary64 values. \<open>digest\<close> stands for the SHA-256 of the canonical JSON of an
  evaluation with its hash blanked.
\<close>

subsection \<open>Limits, context and results\<close>

record policy_limits =
  pl_single_position_limit :: pyfloat
  pl_industry_exposure_limit :: pyfloat
  pl_theme_exposure_limit :: pyfloat
  pl_drawdown_mode_scale :: pyfloat
  pl_min_evidence_count :: int
  pl_min_confidence :: pyfloat
  pl_min_factor_coverage :: pyfloat
  pl_portfolio_gross_limit :: pyfloat
  pl_portfolio_net_limit :: pyfloat
  pl_max_evidence_age_seconds :: pyfloat
  pl_max_portfolio_snapshot_age_seconds :: pyfloat
  pl_min_domain_coverage :: pyfloat

definition default_limits :: policy_limits where
  "default_limits = \<lparr>pl_single_position_limit = lit (10/100), pl_industry_exposure_limit = lit (30/100),
     pl_theme_exposure_limit = lit (25/100), pl_drawdown_mode_scale = lit (5/10), pl_min_evidence_count = 1,
     pl_min_confidence = lit (3/10), pl_min_factor_coverage = lit (5/10), pl_portfolio_gross_limit = lit 1,
     pl_portfolio_net_limit = lit 1, pl_max_evidence_age_seconds = lit 86400,
     pl_max_portfolio_snapshot_age_seconds = lit 86400, pl_min_domain_coverage = lit (5/10)\<rparr>"

text \<open>
  A dependency status as the bundle supplies it: a plain value, an enum member (its \<open>value\<close>),
  an object with \<open>system\<close> and \<open>status\<close>, or a sequence of such. The context holds them as a
  dictionary or as a list of items.
\<close>

datatype dep_scalar = ScalarPlain pyval | ScalarEnum string

datatype dep_value = DepScalar dep_scalar | DepStatus string dep_scalar | DepSeq "dep_value list"

datatype dep_source = DepDict "(string \<times> dep_value) list" | DepItems "dep_value list"

record policy_context =
  px_portfolio_drawdown_mode :: bool
  px_restricted_universe :: "string list"
  px_existing_weights :: "(string \<times> pyfloat) list"
  px_industry_weights :: "(string \<times> pyfloat) list"
  px_theme_weights :: "(string \<times> pyfloat) list"
  px_domain_coverage :: "(string \<times> pyfloat) list"
  px_gross_exposure :: "pyfloat option"
  px_net_exposure :: "pyfloat option"
  px_portfolio_available :: "bool option"
  px_portfolio_snapshot_at :: "py_datetime option"
  px_portfolio_snapshot_fresh :: "bool option"
  px_portfolio_snapshot_freshness_seconds :: "pyfloat option"
  px_max_portfolio_snapshot_age_seconds :: pyfloat
  px_dependency_health :: "(string \<times> dep_value) list"
  px_dependency_status :: dep_source
  px_evidence_freshness_seconds :: "pyfloat option"
  px_evidence_fresh :: "bool option"
  px_max_evidence_age_seconds :: pyfloat
  px_risk_veto :: bool
  px_risk_veto_reason :: string
  px_subject_sectors :: "(string \<times> string) list"
  px_subject_themes :: "(string \<times> string) list"
  px_liquidity_ok :: "(string \<times> bool) list"
  px_security_is_st :: "(string \<times> bool) list"
  px_security_is_suspended :: "(string \<times> bool) list"
  px_required_domains :: "string list"
  px_required_dependencies :: "string list"
  px_skill_required_dependencies :: "string list"
  px_dependency_required :: "(string \<times> bool) list"

definition default_context :: policy_context where
  "default_context = \<lparr>px_portfolio_drawdown_mode = False, px_restricted_universe = [], px_existing_weights = [],
     px_industry_weights = [], px_theme_weights = [], px_domain_coverage = [], px_gross_exposure = None,
     px_net_exposure = None, px_portfolio_available = None, px_portfolio_snapshot_at = None,
     px_portfolio_snapshot_fresh = None, px_portfolio_snapshot_freshness_seconds = None,
     px_max_portfolio_snapshot_age_seconds = lit 86400, px_dependency_health = [], px_dependency_status = DepDict [],
     px_evidence_freshness_seconds = None, px_evidence_fresh = None, px_max_evidence_age_seconds = lit 86400,
     px_risk_veto = False, px_risk_veto_reason = [], px_subject_sectors = [], px_subject_themes = [],
     px_liquidity_ok = [], px_security_is_st = [], px_security_is_suspended = [],
     px_required_domains = [''market'', ''factor'', ''risk''], px_required_dependencies = [],
     px_skill_required_dependencies = [], px_dependency_required = []\<rparr>"

record policy_check =
  ck_rule :: string
  ck_passed :: bool
  ck_reason :: string
  ck_adjusted_weight :: "pyfloat option"

record approved_decision =
  ad_approved :: bool
  ad_approved_weight :: pyfloat
  ad_adjustments :: "string list"
  ad_rejections :: "string list"
  ad_checks :: "policy_check list"
  ad_policy_version :: string

definition get_float :: "(string \<times> pyfloat) list \<Rightarrow> string \<Rightarrow> pyfloat" where
  "get_float d k = (case dict_get d k of None \<Rightarrow> Fin 0 | Some v \<Rightarrow> v)"

subsection \<open>The v1 rules\<close>

definition ck_pass :: "string \<Rightarrow> string \<Rightarrow> policy_check" where
  "ck_pass rule reason = \<lparr>ck_rule = rule, ck_passed = True, ck_reason = reason, ck_adjusted_weight = None\<rparr>"

definition ck_fail :: "string \<Rightarrow> string \<Rightarrow> pyfloat option \<Rightarrow> policy_check" where
  "ck_fail rule reason adj = \<lparr>ck_rule = rule, ck_passed = False, ck_reason = reason, ck_adjusted_weight = adj\<rparr>"

definition check_single_position_limit :: "invest_proposal \<Rightarrow> policy_context \<Rightarrow> policy_limits \<Rightarrow> policy_check" where
  "check_single_position_limit p c l =
     (let existing = get_float (px_existing_weights c) (iv_symbol p);
          cap = (if px_portfolio_drawdown_mode c then f_mul (pl_single_position_limit l) (pl_drawdown_mode_scale l)
                 else pl_single_position_limit l);
          allowed = py_max (Fin 0) (f_sub cap existing)
      in if f_lt allowed (iv_proposed_weight p)
         then \<lparr>ck_rule = ''SINGLE_POSITION_LIMIT'', ck_passed = f_lt (Fin 0) allowed,
               ck_reason = ''proposed '' @ float_repr (iv_proposed_weight p) @ '' > allowed '' @ float_repr (py_round 6 allowed)
                 @ '' (limit '' @ float_repr cap @ '', existing '' @ float_repr existing @ '')'',
               ck_adjusted_weight = Some (py_round 6 allowed)\<rparr>
         else ck_pass ''SINGLE_POSITION_LIMIT'' [])"

definition check_industry_exposure :: "invest_proposal \<Rightarrow> policy_context \<Rightarrow> policy_limits \<Rightarrow> policy_check" where
  "check_industry_exposure p c l = (if falsy_text (iv_sector p) then ck_pass ''INDUSTRY_EXPOSURE'' ''no sector declared''
     else let sector = the (iv_sector p); current = get_float (px_industry_weights c) sector;
              allowed = py_max (Fin 0) (f_sub (pl_industry_exposure_limit l) current)
          in if f_lt allowed (iv_proposed_weight p)
             then ck_fail ''INDUSTRY_EXPOSURE'' (''industry '' @ sector @ '' exposure would exceed ''
                    @ float_repr (pl_industry_exposure_limit l)) (Some (py_round 6 allowed))
             else ck_pass ''INDUSTRY_EXPOSURE'' [])"

definition check_theme_exposure :: "invest_proposal \<Rightarrow> policy_context \<Rightarrow> policy_limits \<Rightarrow> policy_check" where
  "check_theme_exposure p c l = (if falsy_text (iv_theme p) then ck_pass ''THEME_EXPOSURE'' ''no theme declared''
     else let theme = the (iv_theme p); current = get_float (px_theme_weights c) theme;
              allowed = py_max (Fin 0) (f_sub (pl_theme_exposure_limit l) current)
          in if f_lt allowed (iv_proposed_weight p)
             then ck_fail ''THEME_EXPOSURE'' (''theme '' @ theme @ '' exposure would exceed ''
                    @ float_repr (pl_theme_exposure_limit l)) (Some (py_round 6 allowed))
             else ck_pass ''THEME_EXPOSURE'' [])"

definition check_liquidity :: "invest_proposal \<Rightarrow> policy_context \<Rightarrow> policy_limits \<Rightarrow> policy_check" where
  "check_liquidity p c l = (if \<not> iv_liquidity_ok p
     then ck_fail ''LIQUIDITY'' ''liquidity insufficient for proposed weight'' None else ck_pass ''LIQUIDITY'' [])"

definition check_drawdown_mode :: "invest_proposal \<Rightarrow> policy_context \<Rightarrow> policy_limits \<Rightarrow> policy_check" where
  "check_drawdown_mode p c l = (let cap = f_mul (pl_single_position_limit l) (pl_drawdown_mode_scale l) in
     if px_portfolio_drawdown_mode c \<and> f_lt cap (iv_proposed_weight p)
     then ck_fail ''DRAWDOWN_MODE'' ''portfolio in drawdown mode: position size must be halved'' (Some (py_round 6 cap))
     else ck_pass ''DRAWDOWN_MODE'' [])"

definition check_restricted_universe :: "invest_proposal \<Rightarrow> policy_context \<Rightarrow> policy_limits \<Rightarrow> policy_check" where
  "check_restricted_universe p c l = (if iv_symbol p \<in> set (px_restricted_universe c)
     then ck_fail ''RESTRICTED_UNIVERSE'' (iv_symbol p @ '' is restricted'') None else ck_pass ''RESTRICTED_UNIVERSE'' [])"

definition check_st_suspension :: "invest_proposal \<Rightarrow> policy_context \<Rightarrow> policy_limits \<Rightarrow> policy_check" where
  "check_st_suspension p c l = (if iv_action p = ''BUY'' \<and> (iv_is_st p \<or> iv_is_suspended p)
     then ck_fail ''ST_SUSPENSION'' (''cannot BUY '' @ (if iv_is_st p then ''ST'' else ''SUSPENDED'') @ '' security'') None
     else ck_pass ''ST_SUSPENSION'' [])"

definition check_minimum_evidence :: "invest_proposal \<Rightarrow> policy_context \<Rightarrow> policy_limits \<Rightarrow> policy_check" where
  "check_minimum_evidence p c l = (if iv_evidence_count p < pl_min_evidence_count l
     then ck_fail ''MINIMUM_EVIDENCE'' (''evidence_count '' @ int_text (iv_evidence_count p) @ '' < '' @ int_text (pl_min_evidence_count l)) None
     else ck_pass ''MINIMUM_EVIDENCE'' [])"

definition check_minimum_confidence :: "invest_proposal \<Rightarrow> policy_context \<Rightarrow> policy_limits \<Rightarrow> policy_check" where
  "check_minimum_confidence p c l = (if f_lt (iv_confidence p) (pl_min_confidence l)
     then ck_fail ''MINIMUM_CONFIDENCE'' (''confidence '' @ float_repr (iv_confidence p) @ '' < '' @ float_repr (pl_min_confidence l)) None
     else ck_pass ''MINIMUM_CONFIDENCE'' [])"

definition check_factor_coverage :: "invest_proposal \<Rightarrow> policy_context \<Rightarrow> policy_limits \<Rightarrow> policy_check" where
  "check_factor_coverage p c l = (if f_lt (iv_factor_coverage p) (pl_min_factor_coverage l)
     then ck_fail ''FACTOR_COVERAGE'' (''factor coverage '' @ float_repr (iv_factor_coverage p) @ '' < '' @ float_repr (pl_min_factor_coverage l)) None
     else ck_pass ''FACTOR_COVERAGE'' [])"

definition policy_rules :: "(invest_proposal \<Rightarrow> policy_context \<Rightarrow> policy_limits \<Rightarrow> policy_check) list" where
  "policy_rules = [check_restricted_universe, check_st_suspension, check_minimum_evidence, check_minimum_confidence,
     check_factor_coverage, check_liquidity, check_drawdown_mode, check_single_position_limit, check_industry_exposure,
     check_theme_exposure]"

definition hard_rejection_rules :: "string list" where
  "hard_rejection_rules = [''RESTRICTED_UNIVERSE'', ''ST_SUSPENSION'', ''MINIMUM_EVIDENCE'', ''MINIMUM_CONFIDENCE'',
     ''FACTOR_COVERAGE'', ''LIQUIDITY'']"

definition soft_adjustment_rules :: "string list" where
  "soft_adjustment_rules = [''SINGLE_POSITION_LIMIT'', ''INDUSTRY_EXPOSURE'', ''THEME_EXPOSURE'', ''DRAWDOWN_MODE'']"

definition soft_weight :: "policy_check \<Rightarrow> pyfloat option" where
  "soft_weight k = (if ck_rule k \<in> set soft_adjustment_rules then ck_adjusted_weight k else None)"

definition reduce_weight :: "pyfloat \<Rightarrow> policy_check \<Rightarrow> pyfloat" where
  "reduce_weight w k = (case soft_weight k of None \<Rightarrow> w | Some a \<Rightarrow> py_min w a)"

definition evaluate_v1 :: "policy_limits \<Rightarrow> string \<Rightarrow> invest_proposal \<Rightarrow> policy_context \<Rightarrow> approved_decision" where
  "evaluate_v1 limits version p c =
     (let checks = map (\<lambda>rule. rule p c limits) policy_rules;
          rejections = map ck_rule (filter (\<lambda>k. \<not> ck_passed k \<and> ck_rule k \<in> set hard_rejection_rules) checks);
          adjustments = map ck_rule (filter (\<lambda>k. case soft_weight k of None \<Rightarrow> False | Some a \<Rightarrow> f_lt a (iv_proposed_weight p)) checks);
          approved_weight = foldl reduce_weight (iv_proposed_weight p) checks;
          approved = (rejections = [] \<and> f_lt (Fin 0) approved_weight)
      in \<lparr>ad_approved = approved, ad_approved_weight = (if approved then py_round 6 approved_weight else Fin 0),
          ad_adjustments = adjustments, ad_rejections = rejections, ad_checks = checks, ad_policy_version = version\<rparr>)"

text \<open>The explanation; its Chinese sentences are built from \<open>approved_weight\<close> and the rule lists, which it also returns.\<close>

record decision_explanation =
  ex_symbol :: string
  ex_action :: string
  ex_approved :: bool
  ex_approved_weight :: pyfloat
  ex_proposed_weight :: pyfloat
  ex_policy_version :: string
  ex_checks_passed :: "string list"
  ex_adjustments :: "string list"
  ex_rejections :: "string list"

definition explain_decision :: "invest_proposal \<Rightarrow> approved_decision \<Rightarrow> decision_explanation" where
  "explain_decision p d = \<lparr>ex_symbol = iv_symbol p, ex_action = iv_action p, ex_approved = ad_approved d,
     ex_approved_weight = ad_approved_weight d, ex_proposed_weight = iv_proposed_weight p,
     ex_policy_version = ad_policy_version d, ex_checks_passed = map ck_rule (filter ck_passed (ad_checks d)),
     ex_adjustments = ad_adjustments d, ex_rejections = ad_rejections d\<rparr>"

subsection \<open>Properties of the v1 path\<close>

lemma ck_simps [simp]:
  "ck_rule (ck_pass r m) = r" "ck_passed (ck_pass r m)" "ck_adjusted_weight (ck_pass r m) = None"
  "ck_rule (ck_fail r m a) = r" "\<not> ck_passed (ck_fail r m a)" "ck_adjusted_weight (ck_fail r m a) = a"
  by (simp_all add: ck_pass_def ck_fail_def)

lemma foldl_reduce_le:
  assumes "w \<noteq> NaN" and "\<And>k a. k \<in> set ks \<Longrightarrow> soft_weight k = Some a \<Longrightarrow> a \<noteq> NaN"
  shows "f_le (foldl reduce_weight w ks) w \<and> foldl reduce_weight w ks \<noteq> NaN
    \<and> (\<forall>k \<in> set ks. \<forall>a. soft_weight k = Some a \<longrightarrow> f_le (foldl reduce_weight w ks) a)"
  using assms
proof (induction ks arbitrary: w)
  case Nil
  then show ?case by simp
next
  case (Cons k ks)
  have step: "f_le (reduce_weight w k) w" "reduce_weight w k \<noteq> NaN"
    "\<And>a. soft_weight k = Some a \<Longrightarrow> f_le (reduce_weight w k) a"
    using Cons.prems py_min_le1 [OF Cons.prems(1)] py_min_le2 [OF Cons.prems(1)]
    by (auto simp: reduce_weight_def py_min_NaN_iff split: option.splits)
  let ?r = "foldl reduce_weight (reduce_weight w k) ks"
  have ih: "f_le ?r (reduce_weight w k) \<and> ?r \<noteq> NaN \<and> (\<forall>j \<in> set ks. \<forall>a. soft_weight j = Some a \<longrightarrow> f_le ?r a)"
    by (rule Cons.IH [OF step(2)]) (meson Cons.prems(2) list.set_intros(2))
  then have le: "f_le ?r x" if "f_le (reduce_weight w k) x" for x using that f_le_trans by blast
  have "\<forall>j \<in> set (k # ks). \<forall>a. soft_weight j = Some a \<longrightarrow> f_le ?r a"
    using ih le step(3) by (metis set_ConsD)
  then show ?case using ih le [OF step(1)] by simp
qed

lemma foldl_reduce_NaN: "foldl reduce_weight NaN ks = NaN"
  by (induction ks) (auto simp: reduce_weight_def split: option.splits)

lemma hard_rule_names:
  "ck_rule (check_restricted_universe p c l) = ''RESTRICTED_UNIVERSE''" "ck_rule (check_st_suspension p c l) = ''ST_SUSPENSION''"
  "ck_rule (check_minimum_evidence p c l) = ''MINIMUM_EVIDENCE''" "ck_rule (check_minimum_confidence p c l) = ''MINIMUM_CONFIDENCE''"
  "ck_rule (check_factor_coverage p c l) = ''FACTOR_COVERAGE''" "ck_rule (check_liquidity p c l) = ''LIQUIDITY''"
  by (simp_all add: check_restricted_universe_def check_st_suspension_def check_minimum_evidence_def
      check_minimum_confidence_def check_factor_coverage_def check_liquidity_def)

text \<open>The v1 engine approves only proposals that no hard rule rejects: the symbol is not
  restricted, a BUY is neither ST nor suspended, evidence, confidence and factor coverage are not
  below their minimum and liquidity is declared; a rejected proposal gets weight 0, and the
  rejections listed are hard rules.\<close>

theorem v1_approval_is_safe:
  fixes l :: policy_limits
  assumes "d = evaluate_v1 l ver p c"
  shows "(ad_approved d \<longrightarrow> iv_symbol p \<notin> set (px_restricted_universe c)
      \<and> (iv_action p = ''BUY'' \<longrightarrow> \<not> iv_is_st p \<and> \<not> iv_is_suspended p)
      \<and> pl_min_evidence_count l \<le> iv_evidence_count p \<and> \<not> f_lt (iv_confidence p) (pl_min_confidence l)
      \<and> \<not> f_lt (iv_factor_coverage p) (pl_min_factor_coverage l) \<and> iv_liquidity_ok p \<and> ad_rejections d = [])
    \<and> (\<not> ad_approved d \<longrightarrow> ad_approved_weight d = Fin 0)
    \<and> set (ad_rejections d) \<subseteq> set hard_rejection_rules"
proof -
  have rej: "ad_rejections d = map ck_rule (filter (\<lambda>k. \<not> ck_passed k \<and> ck_rule k \<in> set hard_rejection_rules)
      (map (\<lambda>rule. rule p c l) policy_rules))" "ad_approved d \<Longrightarrow> ad_rejections d = []"
    using assms by (simp_all add: evaluate_v1_def Let_def)
  have mem: "ck_passed (rule p c l)"
    if "rule \<in> set policy_rules" "ck_rule (rule p c l) \<in> set hard_rejection_rules" "ad_approved d" for rule
  proof -
    have "rule p c l \<in> set (map (\<lambda>rule. rule p c l) policy_rules)" using that(1) by simp
    then show ?thesis using rej(2) [OF that(3)] that(2) unfolding rej(1) map_is_Nil_conv filter_empty_conv by blast
  qed
  have "ad_approved d \<Longrightarrow> ck_passed (check_restricted_universe p c l) \<and> ck_passed (check_st_suspension p c l)
      \<and> ck_passed (check_minimum_evidence p c l) \<and> ck_passed (check_minimum_confidence p c l)
      \<and> ck_passed (check_factor_coverage p c l) \<and> ck_passed (check_liquidity p c l)"
    using mem [of check_restricted_universe] mem [of check_st_suspension] mem [of check_minimum_evidence]
      mem [of check_minimum_confidence] mem [of check_factor_coverage] mem [of check_liquidity]
    by (simp add: hard_rule_names hard_rejection_rules_def policy_rules_def)
  then have "ad_approved d \<longrightarrow> iv_symbol p \<notin> set (px_restricted_universe c)
      \<and> (iv_action p = ''BUY'' \<longrightarrow> \<not> iv_is_st p \<and> \<not> iv_is_suspended p)
      \<and> pl_min_evidence_count l \<le> iv_evidence_count p \<and> \<not> f_lt (iv_confidence p) (pl_min_confidence l)
      \<and> \<not> f_lt (iv_factor_coverage p) (pl_min_factor_coverage l) \<and> iv_liquidity_ok p"
    by (auto simp: check_restricted_universe_def check_st_suspension_def check_minimum_evidence_def
        check_minimum_confidence_def check_factor_coverage_def check_liquidity_def split: if_splits)
  moreover have "\<not> ad_approved d \<longrightarrow> ad_approved_weight d = Fin 0"
    using assms by (simp add: evaluate_v1_def Let_def)
  moreover have "set (ad_rejections d) \<subseteq> set hard_rejection_rules" unfolding rej(1) by auto
  ultimately show ?thesis using rej(2) by blast
qed

lemma v1_approval_is_safe_witness:
  "ad_approved (evaluate_v1 default_limits ''policy.v1'' (to_v1 example_proposal) default_context)
   \<and> pl_min_evidence_count default_limits \<le> iv_evidence_count (to_v1 example_proposal)"
proof -
  have "ad_approved (evaluate_v1 default_limits ''policy.v1'' (to_v1 example_proposal) default_context)" by code_simp
  then show ?thesis
    using v1_approval_is_safe [OF refl, of default_limits "''policy.v1''" "to_v1 example_proposal" default_context] by blast
qed

lemma py_round_mono_Fin: "x \<le> y \<Longrightarrow> f_le (py_round n (Fin x)) (py_round n (Fin y))"
  by (auto intro!: f_of_rat_mono divide_right_mono half_even_mono mult_right_mono)

lemma py_round_mono: "f_le a b \<Longrightarrow> f_le (py_round n a) (py_round n b)"
  by (cases a; cases b) (simp_all add: py_round_mono_Fin del: py_round.simps(1), simp_all)

lemma py_round_not_NaN: "a \<noteq> NaN \<Longrightarrow> py_round n a \<noteq> NaN"
  by (cases a) auto

lemma adjusted_not_NaN:
  assumes "f_mul (pl_single_position_limit l) (pl_drawdown_mode_scale l) \<noteq> NaN"
  shows "ck_adjusted_weight (check_restricted_universe p c l) \<noteq> Some NaN" "ck_adjusted_weight (check_st_suspension p c l) \<noteq> Some NaN"
    "ck_adjusted_weight (check_minimum_evidence p c l) \<noteq> Some NaN" "ck_adjusted_weight (check_minimum_confidence p c l) \<noteq> Some NaN"
    "ck_adjusted_weight (check_factor_coverage p c l) \<noteq> Some NaN" "ck_adjusted_weight (check_liquidity p c l) \<noteq> Some NaN"
    "ck_adjusted_weight (check_drawdown_mode p c l) \<noteq> Some NaN" "ck_adjusted_weight (check_single_position_limit p c l) \<noteq> Some NaN"
    "ck_adjusted_weight (check_industry_exposure p c l) \<noteq> Some NaN" "ck_adjusted_weight (check_theme_exposure p c l) \<noteq> Some NaN"
  using assms
  by (simp_all add: check_restricted_universe_def check_st_suspension_def check_minimum_evidence_def
      check_minimum_confidence_def check_factor_coverage_def check_liquidity_def check_drawdown_mode_def
      check_single_position_limit_def check_industry_exposure_def check_theme_exposure_def Let_def
      py_round_not_NaN py_max_not_NaN del: py_round.simps)

text \<open>The v1 engine only ever reduces a weight: an approved weight is at most the proposed one,
  both rounded to six decimals, and at most every reduced weight a soft rule asked for.\<close>

theorem v1_weight_reduced:
  fixes l :: policy_limits
  assumes "d = evaluate_v1 l ver p c" and "ad_approved d" and "f_mul (pl_single_position_limit l) (pl_drawdown_mode_scale l) \<noteq> NaN"
  shows "f_le (ad_approved_weight d) (py_round 6 (iv_proposed_weight p))
    \<and> (\<forall>k \<in> set (ad_checks d). \<forall>a. ck_rule k \<in> set soft_adjustment_rules \<longrightarrow> ck_adjusted_weight k = Some a
         \<longrightarrow> f_le (ad_approved_weight d) (py_round 6 a))"
proof -
  define ks where "ks = map (\<lambda>rule. rule p c l) policy_rules"
  define w where "w = foldl reduce_weight (iv_proposed_weight p) ks"
  have d: "ad_checks d = ks" "f_lt (Fin 0) w" "ad_approved_weight d = py_round 6 w"
    using assms(1,2) by (auto simp: evaluate_v1_def Let_def ks_def w_def)
  have p: "iv_proposed_weight p \<noteq> NaN" using d(2) foldl_reduce_NaN [of ks] by (auto simp: w_def)
  have soft: "a \<noteq> NaN" if kin: "k \<in> set ks" and ka: "soft_weight k = Some a" for k a
  proof -
    have a: "ck_adjusted_weight k = Some a" using ka by (simp add: soft_weight_def split: if_splits)
    obtain rule where "k = rule p c l" "rule \<in> set policy_rules"
      using kin by (auto simp: ks_def)
    then have "k \<in> {check_restricted_universe p c l, check_st_suspension p c l, check_minimum_evidence p c l,
        check_minimum_confidence p c l, check_factor_coverage p c l, check_liquidity p c l, check_drawdown_mode p c l,
        check_single_position_limit p c l, check_industry_exposure p c l, check_theme_exposure p c l}"
      by (simp add: policy_rules_def) blast
    then show ?thesis using a adjusted_not_NaN [OF assms(3)] by auto
  qed
  have r: "f_le w (iv_proposed_weight p) \<and> w \<noteq> NaN \<and> (\<forall>k \<in> set ks. \<forall>a. soft_weight k = Some a \<longrightarrow> f_le w a)"
    unfolding w_def by (rule foldl_reduce_le [OF p]) (rule soft)
  have "f_le (py_round 6 w) (py_round 6 a)" if "k \<in> set ks" "ck_rule k \<in> set soft_adjustment_rules" "ck_adjusted_weight k = Some a" for k a
  proof (rule py_round_mono)
    have "soft_weight k = Some a" using that(2,3) by (simp add: soft_weight_def)
    then show "f_le w a" using r that(1) by blast
  qed
  then show ?thesis unfolding d(1) d(3) using r py_round_mono by blast
qed

lemma v1_weight_reduced_witness:
  "f_le (ad_approved_weight (evaluate_v1 default_limits ''policy.v1'' (to_v1 example_proposal) default_context)) (py_round 6 (Fin (1/16)))"
proof -
  have "ad_approved (evaluate_v1 default_limits ''policy.v1'' (to_v1 example_proposal) default_context)"
    and "f_mul (pl_single_position_limit default_limits) (pl_drawdown_mode_scale default_limits) \<noteq> NaN"
    and "iv_proposed_weight (to_v1 example_proposal) = Fin (1/16)" by code_simp+
  then show ?thesis
    using v1_weight_reduced [OF refl, of default_limits "''policy.v1''" "to_v1 example_proposal" default_context] by simp
qed

end
