(* ===== verification/PolicyV2.thy ===== *)
theory PolicyV2
  imports Policy
begin

text \<open>
  The v2 policy evaluation: \<open>evaluate_v2_checks\<close> of \<open>engines/policy/rules.py\<close>, the contracts
  \<open>PolicyCheckResult\<close> and \<open>PolicyEvaluation\<close> of \<open>contracts/decision.py\<close> and the v2 branch of
  \<open>PolicyEngine.evaluate\<close>. Each block of the long function is one definition that returns the
  arguments of its \<open>add\<close> call and the target weight the next block starts from; the checks
  are then validated in order, as \<open>add\<close> does, the first failing validator ending the evaluation.
\<close>

datatype severity = INFO | WARN | ADJUST | REJECT

record check_spec =
  cs_rule :: string
  cs_passed :: bool
  cs_severity :: severity
  cs_original :: pyval
  cs_adjusted :: pyval
  cs_code :: string
  cs_reason :: string

definition v2_rule_ids :: "string list" where
  "v2_rule_ids = [''SINGLE_POSITION_LIMIT'', ''PORTFOLIO_GROSS_LIMIT'', ''PORTFOLIO_NET_LIMIT'', ''INDUSTRY_EXPOSURE'',
     ''THEME_EXPOSURE'', ''LIQUIDITY'', ''DRAWDOWN_MODE'', ''RESTRICTED_UNIVERSE'', ''ST_SUSPENSION'', ''MINIMUM_EVIDENCE'',
     ''MINIMUM_CONFIDENCE'', ''FACTOR_COVERAGE'', ''DEPENDENCY_HEALTH'', ''EVIDENCE_FRESHNESS'',
     ''PORTFOLIO_SNAPSHOT_FRESHNESS'', ''RISK_VETO'']"

subsection \<open>The rules\<close>

definition subject_of :: "proposal_v2 \<Rightarrow> string" where
  "subject_of p = (case pr_subject_key p of None \<Rightarrow> [] | Some k \<Rightarrow> k)"

definition current_weight :: "proposal_v2 \<Rightarrow> policy_context \<Rightarrow> pyfloat" where
  "current_weight p c = get_float (px_existing_weights c) (subject_of p)"

definition v2_target :: "proposal_v2 \<Rightarrow> pyfloat \<Rightarrow> pyfloat option" where
  "v2_target p current = (case pr_target_weight p of
     Some t \<Rightarrow> Some t
   | None \<Rightarrow> (case pr_weight_delta p of Some d \<Rightarrow> Some (py_max (Fin 0) (f_add current d)) | None \<Rightarrow> None))"

text \<open>The common shape of a limit: the check passes, or is an adjustment to \<open>min(target, allowed)\<close>.\<close>

definition limit_spec :: "string \<Rightarrow> bool \<Rightarrow> pyfloat \<Rightarrow> pyfloat \<Rightarrow> string \<times> string \<Rightarrow> string \<times> string \<Rightarrow> check_spec" where
  "limit_spec rule ok target adjusted codes reasons =
     \<lparr>cs_rule = rule, cs_passed = ok, cs_severity = (if ok then INFO else ADJUST), cs_original = VFloat target,
      cs_adjusted = VFloat adjusted, cs_code = (if ok then fst codes else snd codes),
      cs_reason = (if ok then fst reasons else snd reasons)\<rparr>"

definition gate_spec :: "string \<Rightarrow> bool \<Rightarrow> pyval \<Rightarrow> string \<times> string \<Rightarrow> string \<times> string \<Rightarrow> check_spec" where
  "gate_spec rule ok val codes reasons =
     \<lparr>cs_rule = rule, cs_passed = ok, cs_severity = (if ok then INFO else REJECT), cs_original = val,
      cs_adjusted = val, cs_code = (if ok then fst codes else snd codes),
      cs_reason = (if ok then fst reasons else snd reasons)\<rparr>"

definition rule_single_position :: "policy_limits \<Rightarrow> pyfloat option \<Rightarrow> check_spec \<times> pyfloat option" where
  "rule_single_position l target = (case target of
     None \<Rightarrow> (gate_spec ''SINGLE_POSITION_LIMIT'' True VNone (''NOT_ACTIONABLE'', []) (''proposal has no target weight'', []), None)
   | Some t \<Rightarrow>
       let allowed = py_max (Fin 0) (pl_single_position_limit l); adjusted = py_min t allowed
       in (limit_spec ''SINGLE_POSITION_LIMIT'' (f_le t allowed) t adjusted
             (''SINGLE_POSITION_LIMIT_OK'', ''SINGLE_POSITION_LIMIT_EXCEEDED'')
             (''single position is within limit'', ''target '' @ float_repr t @ '' exceeds limit '' @ float_repr allowed),
           Some adjusted))"

definition rule_gross :: "proposal_v2 \<Rightarrow> policy_context \<Rightarrow> policy_limits \<Rightarrow> bool \<Rightarrow> pyfloat option \<Rightarrow> check_spec \<times> pyfloat option" where
  "rule_gross p c l actionable target = (case (target, px_gross_exposure c) of
     (Some t, Some gross) \<Rightarrow>
       let others = f_sub gross (current_weight p c);
           projected = f_add others t;
           allowed = py_max (Fin 0) (f_sub (pl_portfolio_gross_limit l) others);
           adjusted = py_min t allowed
       in (limit_spec ''PORTFOLIO_GROSS_LIMIT'' (f_le projected (pl_portfolio_gross_limit l)) t adjusted
             (''PORTFOLIO_GROSS_OK'', ''PORTFOLIO_GROSS_EXCEEDED'')
             (''gross exposure is within limit'', ''target reduced to portfolio gross headroom''), Some adjusted)
   | (_, gross) \<Rightarrow>
       (gate_spec ''PORTFOLIO_GROSS_LIMIT'' (\<not> actionable \<or> gross \<noteq> None) (opt_float gross)
          (''PORTFOLIO_GROSS_OK'', ''PORTFOLIO_SNAPSHOT_MISSING'')
          (''gross exposure available or proposal is non-actionable'', ''portfolio snapshot is required for target weight''), target))"

definition rule_net :: "proposal_v2 \<Rightarrow> policy_context \<Rightarrow> policy_limits \<Rightarrow> bool \<Rightarrow> pyfloat option \<Rightarrow> check_spec \<times> pyfloat option" where
  "rule_net p c l actionable target = (case (target, px_net_exposure c) of
     (Some t, Some net) \<Rightarrow>
       let projected = f_sub (f_add net t) (current_weight p c);
           allowed = py_max (Fin 0) (f_sub (pl_portfolio_net_limit l) (f_sub net (current_weight p c)));
           adjusted = py_min t allowed
       in (limit_spec ''PORTFOLIO_NET_LIMIT'' (f_le projected (pl_portfolio_net_limit l)) t adjusted
             (''PORTFOLIO_NET_OK'', ''PORTFOLIO_NET_EXCEEDED'')
             (''net exposure is within limit'', ''target reduced to portfolio net headroom''), Some adjusted)
   | (_, net) \<Rightarrow>
       (gate_spec ''PORTFOLIO_NET_LIMIT'' (\<not> actionable \<or> net \<noteq> None) (opt_float net)
          (''PORTFOLIO_NET_OK'', ''PORTFOLIO_SNAPSHOT_MISSING'')
          (''net exposure available or proposal is non-actionable'', ''portfolio snapshot is required for target weight''), target))"

definition exposure_allowed :: "(string \<times> pyfloat) list \<Rightarrow> pyfloat \<Rightarrow> string option \<Rightarrow> pyfloat" where
  "exposure_allowed weights limit key =
     (let current = (if falsy_text key then Fin 0 else get_float weights (the key)) in py_max (Fin 0) (f_sub limit current))"

definition rule_industry :: "proposal_v2 \<Rightarrow> policy_context \<Rightarrow> policy_limits \<Rightarrow> pyfloat option \<Rightarrow> check_spec \<times> pyfloat option" where
  "rule_industry p c l target =
     (let sector = dict_get (px_subject_sectors c) (subject_of p);
          allowed = exposure_allowed (px_industry_weights c) (pl_industry_exposure_limit l) sector
      in if target = None \<or> falsy_text sector
         then (gate_spec ''INDUSTRY_EXPOSURE'' True (opt_float target) (''INDUSTRY_EXPOSURE_OK'', []) (''no industry exposure supplied'', []), target)
         else let t = the target; adjusted = py_min t allowed
              in (limit_spec ''INDUSTRY_EXPOSURE'' (f_le t allowed) t adjusted
                    (''INDUSTRY_EXPOSURE_OK'', ''INDUSTRY_EXPOSURE_EXCEEDED'')
                    (''industry exposure is within limit'', ''target reduced to industry headroom''), Some adjusted))"

definition rule_theme :: "proposal_v2 \<Rightarrow> policy_context \<Rightarrow> policy_limits \<Rightarrow> pyfloat option \<Rightarrow> check_spec \<times> pyfloat option" where
  "rule_theme p c l target =
     (let theme = dict_get (px_subject_themes c) (subject_of p);
          allowed = exposure_allowed (px_theme_weights c) (pl_theme_exposure_limit l) theme
      in if target = None \<or> falsy_text theme
         then (gate_spec ''THEME_EXPOSURE'' True (opt_float target) (''THEME_EXPOSURE_OK'', []) (''no theme exposure supplied'', []), target)
         else let t = the target; adjusted = py_min t allowed
              in (limit_spec ''THEME_EXPOSURE'' (f_le t allowed) t adjusted
                    (''THEME_EXPOSURE_OK'', ''THEME_EXPOSURE_EXCEEDED'')
                    (''theme exposure is within limit'', ''target reduced to theme headroom''), Some adjusted))"

definition security_actionable :: "proposal_v2 \<Rightarrow> bool" where
  "security_actionable p \<longleftrightarrow> pr_subject_type p = SYMBOL \<and> pr_action p \<in> {BUY, INCREASE}"

definition rule_liquidity :: "proposal_v2 \<Rightarrow> policy_context \<Rightarrow> check_spec" where
  "rule_liquidity p c = (let liq = dict_get (px_liquidity_ok c) (subject_of p); ok = (\<not> security_actionable p \<or> liq = Some True)
     in gate_spec ''LIQUIDITY'' ok (opt_bool liq) (''LIQUIDITY_OK'', ''LIQUIDITY_UNKNOWN_OR_INSUFFICIENT'')
          (''liquidity is sufficient'', ''liquidity capacity is missing or insufficient''))"

definition drawdown_cap :: "policy_limits \<Rightarrow> pyfloat" where
  "drawdown_cap l = f_mul (pl_single_position_limit l) (pl_drawdown_mode_scale l)"

definition rule_drawdown :: "policy_context \<Rightarrow> policy_limits \<Rightarrow> pyfloat option \<Rightarrow> check_spec \<times> pyfloat option" where
  "rule_drawdown c l target =
     (if target = None \<or> \<not> px_portfolio_drawdown_mode c
      then (gate_spec ''DRAWDOWN_MODE'' True (opt_float target) (''DRAWDOWN_MODE_OK'', []) (''portfolio is not in drawdown mode'', []), target)
      else let t = the target; cap = drawdown_cap l; adjusted = py_min t cap
           in (limit_spec ''DRAWDOWN_MODE'' (f_le t cap) t adjusted (''DRAWDOWN_MODE_OK'', ''DRAWDOWN_MODE_ADJUSTED'')
                 (''drawdown position is within cap'', ''target reduced for drawdown mode''), Some adjusted))"

definition rule_restricted :: "proposal_v2 \<Rightarrow> policy_context \<Rightarrow> pyfloat option \<Rightarrow> check_spec" where
  "rule_restricted p c target = gate_spec ''RESTRICTED_UNIVERSE''
     (\<not> (\<exists>k \<in> set_option (pr_subject_key p). k \<in> set (px_restricted_universe c))) (opt_float target)
     (''UNIVERSE_ALLOWED'', ''UNIVERSE_RESTRICTED'') (''subject is allowed'', ''subject is restricted'')"

definition rule_st :: "proposal_v2 \<Rightarrow> policy_context \<Rightarrow> check_spec" where
  "rule_st p c =
     (let st = dict_get (px_security_is_st c) (subject_of p); susp = dict_get (px_security_is_suspended c) (subject_of p);
          blocked = (security_actionable p \<and> (st = Some True \<or> susp = Some True));
          known = (\<not> security_actionable p \<or> st \<noteq> None \<and> susp \<noteq> None);
          ok = (known \<and> \<not> blocked)
      in gate_spec ''ST_SUSPENSION'' ok (VDict [(''is_st'', opt_bool st), (''is_suspended'', opt_bool susp)])
           (''SECURITY_TRADABLE'', if \<not> known then ''SECURITY_STATE_UNKNOWN'' else ''ST_OR_SUSPENDED'')
           (''security is tradable'', if \<not> known then ''ST/suspension facts are missing'' else ''cannot increase a ST or suspended security''))"

definition rule_evidence :: "proposal_v2 \<Rightarrow> policy_context \<Rightarrow> policy_limits \<Rightarrow> check_spec" where
  "rule_evidence p c l =
     (let n = int (length (pr_evidence_refs p));
          missing = filter (\<lambda>d. f_lt (get_float (px_domain_coverage c) d) (pl_min_domain_coverage l)) (px_required_domains c);
          ok = (pl_min_evidence_count l \<le> n \<and> missing = []);
          reason = ''evidence refs: '' @ int_text n @ ''; missing domains: ''
            @ (if join_with '', '' missing = [] then ''none'' else join_with '', '' missing)
      in gate_spec ''MINIMUM_EVIDENCE'' ok (VInt n) (''MINIMUM_EVIDENCE_OK'', ''MINIMUM_DOMAIN_COVERAGE_MISSING'') (reason, reason))"

definition rule_confidence :: "proposal_v2 \<Rightarrow> policy_limits \<Rightarrow> check_spec" where
  "rule_confidence p l = (let reason = ''confidence: '' @ float_repr (pr_confidence p) in
     gate_spec ''MINIMUM_CONFIDENCE'' (f_le (pl_min_confidence l) (pr_confidence p)) (VFloat (pr_confidence p))
       (''CONFIDENCE_OK'', ''CONFIDENCE_TOO_LOW'') (reason, reason))"

definition factor_coverage :: "policy_context \<Rightarrow> pyfloat option" where
  "factor_coverage c = (case dict_get (px_domain_coverage c) ''factor'' of
     Some v \<Rightarrow> Some v
   | None \<Rightarrow> (case dict_get (px_domain_coverage c) ''FACTOR'' of
        Some v \<Rightarrow> Some v
      | None \<Rightarrow> dict_get (px_domain_coverage c) ''factor_coverage''))"

definition factor_required :: "policy_context \<Rightarrow> bool" where
  "factor_required c \<longleftrightarrow> ''factor'' \<in> set (px_required_domains c) \<or> ''factor'' \<in> set (px_required_dependencies c)
     \<or> ''factor'' \<in> set (px_skill_required_dependencies c) \<or> dict_get (px_dependency_required c) ''factor'' = Some True"

definition rule_factor :: "policy_context \<Rightarrow> policy_limits \<Rightarrow> check_spec" where
  "rule_factor c l =
     (let cov = factor_coverage c; shown = (case cov of None \<Rightarrow> ''None'' | Some v \<Rightarrow> float_repr v);
          ok = (case cov of None \<Rightarrow> False | Some v \<Rightarrow> f_le (pl_min_factor_coverage l) v)
      in if factor_required c
         then let reason = ''required factor coverage: '' @ shown in
           gate_spec ''FACTOR_COVERAGE'' ok (opt_float cov) (''FACTOR_COVERAGE_OK'', ''FACTOR_COVERAGE_LOW'') (reason, reason)
         else \<lparr>cs_rule = ''FACTOR_COVERAGE'', cs_passed = True, cs_severity = (if ok then INFO else WARN),
           cs_original = opt_float cov, cs_adjusted = opt_float cov,
           cs_code = (if ok then ''FACTOR_COVERAGE_OK'' else ''FACTOR_COVERAGE_DEGRADED''),
           cs_reason = ''optional factor coverage: '' @ shown\<rparr>)"

text \<open>Dependency health: the statuses by system, their text, and the required systems.\<close>

definition item_key :: "dep_value \<Rightarrow> pyval" where
  "item_key item = (case item of
     DepScalar (ScalarPlain (VDict d)) \<Rightarrow> py_or (get_item d ''system'') (get_item d ''source_system'')
   | DepStatus system _ \<Rightarrow> VStr system
   | _ \<Rightarrow> VNone)"

definition dep_statuses :: "policy_context \<Rightarrow> (string \<times> dep_value) list" where
  "dep_statuses c = (case px_dependency_status c of
     DepDict d \<Rightarrow> foldl (\<lambda>m (k, v). dict_set m k v) (px_dependency_health c) d
   | DepItems items \<Rightarrow> foldl (\<lambda>m item. if truthy (item_key item) then dict_set m (py_str (item_key item)) item else m)
       (px_dependency_health c) items)"

fun plain_status :: "pyval \<Rightarrow> string" where
  "plain_status (VList xs) = join_with '','' (map plain_status xs)"
| "plain_status v = str_upper (py_str v)"

definition scalar_status :: "dep_scalar \<Rightarrow> string" where
  "scalar_status v = (case v of ScalarPlain w \<Rightarrow> plain_status w | ScalarEnum s \<Rightarrow> str_upper s)"

fun status_value :: "dep_value \<Rightarrow> string" where
  "status_value (DepScalar v) = scalar_status v"
| "status_value (DepStatus system v) = scalar_status v"
| "status_value (DepSeq vs) = join_with '','' (map status_value vs)"

definition healthy_statuses :: "string list" where
  "healthy_statuses = [''OK'', ''HEALTHY'', ''AVAILABLE'', ''TRUE'', ''VERIFIED'']"

definition normalized_statuses :: "policy_context \<Rightarrow> (string \<times> string) list" where
  "normalized_statuses c = map (\<lambda>(k, v). (k, status_value v)) (dep_statuses c)"

definition required_systems :: "policy_context \<Rightarrow> bool \<Rightarrow> string list" where
  "required_systems c actionable =
     (let skill = px_required_dependencies c @ px_skill_required_dependencies c @ map fst (filter snd (px_dependency_required c))
      in if actionable then ''quant'' # skill else skill)"

definition rule_dependencies :: "policy_context \<Rightarrow> bool \<Rightarrow> check_spec" where
  "rule_dependencies c actionable =
     (let norm = normalized_statuses c; required = required_systems c actionable;
          missing = sorted_list_of_set {k \<in> set required. dict_get norm k = None};
          unhealthy = sorted_list_of_set {k \<in> set required. \<not> (\<exists>s \<in> set_option (dict_get norm k). s \<in> set healthy_statuses)};
          ok = (missing = [] \<and> unhealthy = [])
      in gate_spec ''DEPENDENCY_HEALTH'' ok (VDict (map (\<lambda>(k, s). (k, VStr s)) norm))
           (''DEPENDENCIES_HEALTHY'', ''DEPENDENCY_UNHEALTHY_OR_MISSING'')
           (''required dependencies healthy'',
            ''missing='' @ join_with '','' missing @ '' unhealthy='' @ join_with '','' unhealthy))"

definition rule_evidence_fresh :: "proposal_v2 \<Rightarrow> policy_context \<Rightarrow> policy_limits \<Rightarrow> bool \<Rightarrow> check_spec" where
  "rule_evidence_fresh p c l actionable =
     (let fresh = (case px_evidence_freshness_seconds c of
            Some s \<Rightarrow> Some (f_le s (py_min (px_max_evidence_age_seconds c) (pl_max_evidence_age_seconds l)))
          | None \<Rightarrow> if actionable \<and> pr_evidence_refs p \<noteq> [] then Some False else px_evidence_fresh c);
          ok = (case fresh of None \<Rightarrow> True | Some b \<Rightarrow> b)
      in gate_spec ''EVIDENCE_FRESHNESS'' ok (opt_float (px_evidence_freshness_seconds c))
           (''EVIDENCE_FRESH'', ''EVIDENCE_STALE_OR_UNKNOWN'')
           (''evidence is fresh'', ''evidence freshness is stale or unavailable''))"

definition rule_portfolio_fresh :: "policy_context \<Rightarrow> policy_limits \<Rightarrow> bool \<Rightarrow> check_spec" where
  "rule_portfolio_fresh c l actionable =
     (let ok0 = (case px_portfolio_snapshot_freshness_seconds c of
            Some s \<Rightarrow> Some (f_le s (py_min (px_max_portfolio_snapshot_age_seconds c) (pl_max_portfolio_snapshot_age_seconds l)))
          | None \<Rightarrow> px_portfolio_snapshot_fresh c);
          ok1 = (if px_portfolio_available c = Some False
                    \<or> actionable \<and> px_portfolio_available c = None \<and> px_portfolio_snapshot_at c = None
                 then Some False else ok0);
          ok = (if \<not> actionable then True else ok1 = Some True)
      in gate_spec ''PORTFOLIO_SNAPSHOT_FRESHNESS'' ok (opt_float (px_portfolio_snapshot_freshness_seconds c))
           (''PORTFOLIO_SNAPSHOT_FRESH'', ''PORTFOLIO_SNAPSHOT_MISSING_OR_STALE'')
           (''portfolio snapshot is fresh'', ''fresh portfolio snapshot is required for target weight''))"

definition rule_risk_veto :: "policy_context \<Rightarrow> check_spec" where
  "rule_risk_veto c = gate_spec ''RISK_VETO'' (\<not> px_risk_veto c) (VBool (px_risk_veto c)) (''RISK_CLEAR'', ''RISK_VETO'')
     (''risk specialist did not veto'', if px_risk_veto_reason c = [] then ''risk specialist vetoed proposal'' else px_risk_veto_reason c)"

text \<open>The sixteen blocks in order, with the target carried forward.\<close>

definition v2_specs :: "proposal_v2 \<Rightarrow> policy_context \<Rightarrow> policy_limits \<Rightarrow> check_spec list \<times> pyfloat option" where
  "v2_specs p c l =
     (let target = v2_target p (current_weight p c); actionable = (target \<noteq> None);
          (k1, t1) = rule_single_position l target;
          (k2, t2) = rule_gross p c l actionable t1;
          (k3, t3) = rule_net p c l actionable t2;
          (k4, t4) = rule_industry p c l t3;
          (k5, t5) = rule_theme p c l t4;
          k6 = rule_liquidity p c;
          (k7, t7) = rule_drawdown c l t5
      in ([k1, k2, k3, k4, k5, k6, k7, rule_restricted p c t7, rule_st p c, rule_evidence p c l, rule_confidence p l,
           rule_factor c l, rule_dependencies c actionable, rule_evidence_fresh p c l actionable,
           rule_portfolio_fresh c l actionable, rule_risk_veto c], t7))"

subsection \<open>The check and evaluation contracts\<close>

record check_result =
  cr_rule_id :: string
  cr_rule_version :: string
  cr_passed :: bool
  cr_severity :: severity
  cr_input_snapshot :: pyval
  cr_original :: pyval
  cr_adjusted :: pyval
  cr_reason_code :: string
  cr_reason :: string

definition check_semantics :: "check_result \<Rightarrow> unit result" where
  "check_semantics k =
     bindR (check_that (\<not> (blank (cr_reason_code k) \<or> blank (cr_reason k))) ''policy checks require reason_code and reason'') (\<lambda>_.
     bindR (check_that (\<not> (\<not> cr_passed k \<and> cr_severity k = INFO)) ''failed policy checks cannot have INFO severity'') (\<lambda>_.
     bindR (check_that (\<not> (cr_severity k = ADJUST \<and> cr_adjusted k = VNone)) ''ADJUST checks require adjusted_value'') (\<lambda>_.
     check_that (\<not> (cr_severity k = REJECT \<and> cr_passed k)) ''REJECT checks must fail'')))"

definition require_json :: "pyval \<Rightarrow> unit result" where
  "require_json v = (case ensure_json v ''payload'' of None \<Rightarrow> Inr () | Some e \<Rightarrow> Inl (ValidationError (exc_message e)))"

definition validate_check :: "check_result \<Rightarrow> check_result result" where
  "validate_check k =
     bindR (nonblank (cr_rule_id k) ''policy identifier'') (\<lambda>rid.
     bindR (nonblank (cr_rule_version k) ''policy identifier'') (\<lambda>rver.
     bindR (nonblank (cr_reason_code k) ''policy identifier'') (\<lambda>code.
     bindR (require_json (cr_input_snapshot k)) (\<lambda>_.
     bindR (require_json (cr_original k)) (\<lambda>_.
     bindR (require_json (cr_adjusted k)) (\<lambda>_.
     (let k' = k\<lparr>cr_rule_id := rid, cr_rule_version := rver, cr_reason_code := code, cr_reason := strip (cr_reason k)\<rparr> in
      bindR (check_semantics k') (\<lambda>_. Inr k'))))))))"

definition input_snapshot :: "proposal_v2 \<Rightarrow> policy_context \<Rightarrow> pyval" where
  "input_snapshot p c = VDict [(''proposal_id'', VStr (pr_proposal_id p)), (''subject_type'', VStr (subject_text (pr_subject_type p))),
     (''subject_key'', opt_str (pr_subject_key p)), (''action'', VStr (action_text (pr_action p))),
     (''target_weight'', opt_float (pr_target_weight p)), (''weight_delta'', opt_float (pr_weight_delta p)),
     (''current_weight'', VFloat (current_weight p c))]"

definition v2_check :: "string \<Rightarrow> proposal_v2 \<Rightarrow> policy_context \<Rightarrow> check_spec \<Rightarrow> check_result result" where
  "v2_check rule_version p c s = validate_check \<lparr>cr_rule_id = cs_rule s, cr_rule_version = rule_version, cr_passed = cs_passed s,
     cr_severity = cs_severity s, cr_input_snapshot = input_snapshot p c, cr_original = cs_original s,
     cr_adjusted = cs_adjusted s, cr_reason_code = cs_code s, cr_reason = cs_reason s\<rparr>"

definition evaluate_v2_checks ::
  "proposal_v2 \<Rightarrow> policy_context \<Rightarrow> policy_limits \<Rightarrow> string \<Rightarrow> (check_result list \<times> pyfloat option) result" where
  "evaluate_v2_checks p c l policy_version = (case v2_specs p c l of (specs, target) \<Rightarrow>
     bindR (mapR (v2_check (policy_version @ ''.1'') p c) specs) (\<lambda>checks. Inr (checks, target)))"

record policy_evaluation =
  pe_policy_result_id :: string
  pe_policy_version :: string
  pe_checks :: "check_result list"
  pe_approved :: bool
  pe_original :: pyval
  pe_adjusted :: pyval
  pe_result_hash :: string

definition failed_reject :: "check_result \<Rightarrow> bool" where
  "failed_reject k \<longleftrightarrow> cr_severity k = REJECT \<and> \<not> cr_passed k"

definition adjustments_of :: "check_result list \<Rightarrow> check_result list" where
  "adjustments_of checks = filter (\<lambda>k. cr_severity k = ADJUST \<and> cr_adjusted k \<noteq> VNone) checks"

definition validate_evaluation :: "(policy_evaluation \<Rightarrow> string) \<Rightarrow> policy_evaluation \<Rightarrow> policy_evaluation result" where
  "validate_evaluation digest e =
     bindR (nonblank (pe_policy_result_id e) ''policy identifier'') (\<lambda>rid.
     bindR (nonblank (pe_policy_version e) ''policy identifier'') (\<lambda>ver.
     (let e' = e\<lparr>pe_policy_result_id := rid, pe_policy_version := ver\<rparr> in
     bindR (check_that (pe_checks e \<noteq> []) ''policy evaluation must contain an ordered check trace'') (\<lambda>_.
     bindR (require_json (pe_original e)) (\<lambda>_.
     bindR (require_json (pe_adjusted e)) (\<lambda>_.
     bindR (check_that (\<not> (pe_approved e \<and> (\<exists>k \<in> set (pe_checks e). failed_reject k)))
              ''approved policy evaluation cannot contain rejected checks'') (\<lambda>_.
     bindR (check_that (adjustments_of (pe_checks e) = [] \<or> pe_adjusted e = cr_adjusted (last (adjustments_of (pe_checks e))))
              ''adjusted_value must equal the last ordered adjustment'') (\<lambda>_.
     bindR (check_that (pe_result_hash e \<noteq> [] \<and> pe_result_hash e = digest (e'\<lparr>pe_result_hash := []\<rparr>))
              ''result_hash does not match canonical policy evaluation'') (\<lambda>_.
     Inr e')))))))))"

definition build_evaluation :: "(policy_evaluation \<Rightarrow> string) \<Rightarrow> policy_evaluation \<Rightarrow> policy_evaluation result" where
  "build_evaluation digest e =
     (if \<not> (ensure_json (pe_original e) [] = None \<and> ensure_json (pe_adjusted e) [] = None)
      then Inl (ValueError ''Out of range float values are not JSON compliant'')
      else validate_evaluation digest (e\<lparr>pe_result_hash := digest (e\<lparr>pe_result_hash := []\<rparr>)\<rparr>))"

definition v2_version :: "string \<Rightarrow> string" where
  "v2_version version = (if version \<noteq> ''policy.v1'' then version else ''policy.v2'')"

definition evaluate_v2 ::
  "(policy_evaluation \<Rightarrow> string) \<Rightarrow> policy_limits \<Rightarrow> string \<Rightarrow> proposal_v2 \<Rightarrow> policy_context \<Rightarrow> policy_evaluation result" where
  "evaluate_v2 digest l version p c =
     bindR (evaluate_v2_checks p c l (v2_version version)) (\<lambda>(checks, adjusted).
       let has_reject = (\<exists>k \<in> set checks. failed_reject k);
           actionable = (pr_target_weight p \<noteq> None \<or> pr_weight_delta p \<noteq> None);
           reduction = (pr_action p \<in> {SELL, REDUCE, EXIT});
           weight_valid = (if \<not> actionable then True
             else if reduction then (case adjusted of None \<Rightarrow> False | Some a \<Rightarrow> f_le (Fin 0) a)
             else (case adjusted of None \<Rightarrow> False | Some a \<Rightarrow> f_lt (Fin 0) a));
           approved = (\<not> has_reject \<and> weight_valid)
       in build_evaluation digest
            \<lparr>pe_policy_result_id = ''pe-'' @ pr_proposal_id p @ ''-'' @ v2_version version, pe_policy_version = v2_version version,
             pe_checks = checks, pe_approved = approved,
             pe_original = (if pr_target_weight p \<noteq> None then opt_float (pr_target_weight p) else opt_float (pr_weight_delta p)),
             pe_adjusted = opt_float adjusted, pe_result_hash = []\<rparr>)"

subsection \<open>Laws of the trace\<close>

lemma require_json_Inr [simp]: "require_json v = Inr u \<longleftrightarrow> ensure_json v ''payload'' = None"
  by (auto simp: require_json_def split: option.splits)

lemma v2_check_Inr:
  assumes "v2_check ver p c s = Inr k"
  shows "cr_rule_id k = strip (cs_rule s)" "cr_passed k = cs_passed s" "cr_severity k = cs_severity s"
    "cr_adjusted k = cs_adjusted s" "cr_original k = cs_original s"
    "ensure_json (cs_original s) ''payload'' = None" "ensure_json (cs_adjusted s) ''payload'' = None"
    "check_semantics k = Inr ()"
  using assms by (auto simp: v2_check_def validate_check_def bindR_Inr_iff nonblank_Inr_iff Let_def)

lemma evaluate_v2_checks_Inr:
  assumes "evaluate_v2_checks p c l ver = Inr (checks, target)"
  shows "list_all2 (\<lambda>s k. v2_check (ver @ ''.1'') p c s = Inr k) (fst (v2_specs p c l)) checks"
    and "target = snd (v2_specs p c l)"
  using assms by (auto simp: evaluate_v2_checks_def bindR_Inr_iff mapR_list_all2 split: prod.splits)

lemma evaluate_v2_Inr:
  assumes "evaluate_v2 digest l ver p c = Inr e"
  shows "list_all2 (\<lambda>s k. v2_check (v2_version ver @ ''.1'') p c s = Inr k) (fst (v2_specs p c l)) (pe_checks e)"
    and "pe_adjusted e = opt_float (snd (v2_specs p c l))"
    and "pe_approved e \<Longrightarrow> \<not> (\<exists>k \<in> set (pe_checks e). failed_reject k)"
    and "adjustments_of (pe_checks e) = [] \<or> pe_adjusted e = cr_adjusted (last (adjustments_of (pe_checks e)))"
    and "pe_result_hash e = digest (e\<lparr>pe_result_hash := []\<rparr>)"
  using assms
  by (auto simp: evaluate_v2_def build_evaluation_def validate_evaluation_def bindR_Inr_iff Let_def
      dest: evaluate_v2_checks_Inr split: if_splits)

lemma limit_spec_simps [simp]:
  "cs_rule (limit_spec r ok t a codes reasons) = r" "cs_passed (limit_spec r ok t a codes reasons) = ok"
  "cs_severity (limit_spec r ok t a codes reasons) = (if ok then INFO else ADJUST)"
  "cs_original (limit_spec r ok t a codes reasons) = VFloat t" "cs_adjusted (limit_spec r ok t a codes reasons) = VFloat a"
  by (simp_all add: limit_spec_def)

lemma gate_spec_simps [simp]:
  "cs_rule (gate_spec r ok v codes reasons) = r" "cs_passed (gate_spec r ok v codes reasons) = ok"
  "cs_severity (gate_spec r ok v codes reasons) = (if ok then INFO else REJECT)"
  "cs_original (gate_spec r ok v codes reasons) = v" "cs_adjusted (gate_spec r ok v codes reasons) = v"
  by (simp_all add: gate_spec_def)

lemma rule_names [simp]:
  "cs_rule (fst (rule_single_position l t)) = ''SINGLE_POSITION_LIMIT''"
  "cs_rule (fst (rule_gross p c l act t)) = ''PORTFOLIO_GROSS_LIMIT''"
  "cs_rule (fst (rule_net p c l act t)) = ''PORTFOLIO_NET_LIMIT''"
  "cs_rule (fst (rule_industry p c l t)) = ''INDUSTRY_EXPOSURE''"
  "cs_rule (fst (rule_theme p c l t)) = ''THEME_EXPOSURE''"
  "cs_rule (fst (rule_drawdown c l t)) = ''DRAWDOWN_MODE''"
  by (simp_all add: rule_single_position_def rule_gross_def rule_net_def rule_industry_def rule_theme_def
      rule_drawdown_def Let_def split: option.splits)

lemma gate_names [simp]:
  "cs_rule (rule_liquidity p c) = ''LIQUIDITY''"
  "cs_rule (rule_restricted p c t) = ''RESTRICTED_UNIVERSE''"
  "cs_rule (rule_st p c) = ''ST_SUSPENSION''"
  "cs_rule (rule_evidence p c l) = ''MINIMUM_EVIDENCE''"
  "cs_rule (rule_confidence p l) = ''MINIMUM_CONFIDENCE''"
  "cs_rule (rule_factor c l) = ''FACTOR_COVERAGE''"
  "cs_rule (rule_dependencies c act) = ''DEPENDENCY_HEALTH''"
  "cs_rule (rule_evidence_fresh p c l act) = ''EVIDENCE_FRESHNESS''"
  "cs_rule (rule_portfolio_fresh c l act) = ''PORTFOLIO_SNAPSHOT_FRESHNESS''"
  "cs_rule (rule_risk_veto c) = ''RISK_VETO''"
  by (simp_all add: rule_liquidity_def rule_restricted_def rule_st_def rule_evidence_def rule_confidence_def
      rule_factor_def rule_dependencies_def rule_evidence_fresh_def rule_portfolio_fresh_def rule_risk_veto_def Let_def)

lemma v2_specs_eq:
  obtains t1 t2 t3 t4 t5 t7 where
    "t1 = snd (rule_single_position l (v2_target p (current_weight p c)))"
    "t2 = snd (rule_gross p c l (v2_target p (current_weight p c) \<noteq> None) t1)"
    "t3 = snd (rule_net p c l (v2_target p (current_weight p c) \<noteq> None) t2)"
    "t4 = snd (rule_industry p c l t3)" "t5 = snd (rule_theme p c l t4)" "t7 = snd (rule_drawdown c l t5)"
    "v2_specs p c l = ([fst (rule_single_position l (v2_target p (current_weight p c))),
       fst (rule_gross p c l (v2_target p (current_weight p c) \<noteq> None) t1),
       fst (rule_net p c l (v2_target p (current_weight p c) \<noteq> None) t2),
       fst (rule_industry p c l t3), fst (rule_theme p c l t4), rule_liquidity p c, fst (rule_drawdown c l t5),
       rule_restricted p c t7, rule_st p c, rule_evidence p c l, rule_confidence p l, rule_factor c l,
       rule_dependencies c (v2_target p (current_weight p c) \<noteq> None),
       rule_evidence_fresh p c l (v2_target p (current_weight p c) \<noteq> None),
       rule_portfolio_fresh c l (v2_target p (current_weight p c) \<noteq> None), rule_risk_veto c], t7)"
  unfolding v2_specs_def Let_def case_prod_beta by blast

lemma v2_specs_rules: "map cs_rule (fst (v2_specs p c l)) = v2_rule_ids"
  by (rule v2_specs_eq [of l p c]) (simp add: v2_rule_ids_def)

lemma list_all2_in1: "list_all2 P xs ys \<Longrightarrow> x \<in> set xs \<Longrightarrow> \<exists>y \<in> set ys. P x y"
  by (induction rule: list_all2_induct) auto

lemma list_all2_in2: "list_all2 P xs ys \<Longrightarrow> y \<in> set ys \<Longrightarrow> \<exists>x \<in> set xs. P x y"
  by (induction rule: list_all2_induct) auto

lemma v2_rule_ids_clean: "map strip v2_rule_ids = v2_rule_ids"
  by code_simp

lemma approved_gate:
  assumes "evaluate_v2 digest l ver p c = Inr e" and "pe_approved e" and "s \<in> set (fst (v2_specs p c l))"
    and "cs_severity s = REJECT"
  shows "cs_passed s"
proof -
  obtain k where k: "k \<in> set (pe_checks e)" "v2_check (v2_version ver @ ''.1'') p c s = Inr k"
    using list_all2_in1 [OF evaluate_v2_Inr(1) [OF assms(1)] assms(3)] by auto
  then show ?thesis using evaluate_v2_Inr(3) [OF assms(1,2)] v2_check_Inr [OF k(2)] assms(4)
    by (auto simp: failed_reject_def)
qed

lemma approved_gate_spec:
  assumes "evaluate_v2 digest l ver p c = Inr e" and "pe_approved e"
    and "gate_spec r ok v codes reasons \<in> set (fst (v2_specs p c l))"
  shows "ok"
  using approved_gate [OF assms] by (cases ok) auto

text \<open>The fixed positions of the gates among the specs.\<close>

lemma v2_gates_member:
  "rule_liquidity p c \<in> set (fst (v2_specs p c l))"
  "rule_st p c \<in> set (fst (v2_specs p c l))"
  "rule_evidence p c l \<in> set (fst (v2_specs p c l))"
  "rule_confidence p l \<in> set (fst (v2_specs p c l))"
  "rule_dependencies c (v2_target p (current_weight p c) \<noteq> None) \<in> set (fst (v2_specs p c l))"
  "rule_evidence_fresh p c l (v2_target p (current_weight p c) \<noteq> None) \<in> set (fst (v2_specs p c l))"
  "rule_portfolio_fresh c l (v2_target p (current_weight p c) \<noteq> None) \<in> set (fst (v2_specs p c l))"
  "rule_risk_veto c \<in> set (fst (v2_specs p c l))"
  "\<exists>t. rule_restricted p c t \<in> set (fst (v2_specs p c l))"
  by (rule v2_specs_eq [of l p c]; simp; fail)+ (rule v2_specs_eq [of l p c]; auto)

subsection \<open>The target weight along the trace\<close>

definition capped :: "pyfloat \<Rightarrow> pyfloat option \<Rightarrow> pyfloat option \<Rightarrow> bool" where
  "capped cap t t' \<longleftrightarrow> (case t of None \<Rightarrow> t' = None
     | Some x \<Rightarrow> x \<noteq> NaN \<longrightarrow> (\<exists>y. t' = Some y \<and> y \<noteq> NaN \<and> f_le y x \<and> (cap \<noteq> NaN \<longrightarrow> f_le y cap)))"

lemma capped_min: "capped cap (Some x) (Some (py_min x cap))"
  by (auto simp: capped_def py_min_NaN_iff intro: py_min_le1 py_min_le2)

lemma capped_keep: "capped NaN t t"
  by (auto simp: capped_def split: option.splits)

lemma capped_trans: "capped a t u \<Longrightarrow> capped b u v \<Longrightarrow> capped a t v \<and> capped b t v"
  by (auto simp: capped_def split: option.splits) (meson f_le_trans)+

lemma exposure_allowed_not_NaN [simp]: "exposure_allowed w lm k \<noteq> NaN"
  by (simp add: exposure_allowed_def py_max_not_NaN Let_def)

definition headroom_gross :: "proposal_v2 \<Rightarrow> policy_context \<Rightarrow> policy_limits \<Rightarrow> pyfloat" where
  "headroom_gross p c l = (case px_gross_exposure c of None \<Rightarrow> NaN
     | Some g \<Rightarrow> py_max (Fin 0) (f_sub (pl_portfolio_gross_limit l) (f_sub g (current_weight p c))))"

definition headroom_net :: "proposal_v2 \<Rightarrow> policy_context \<Rightarrow> policy_limits \<Rightarrow> pyfloat" where
  "headroom_net p c l = (case px_net_exposure c of None \<Rightarrow> NaN
     | Some n \<Rightarrow> py_max (Fin 0) (f_sub (pl_portfolio_net_limit l) (f_sub n (current_weight p c))))"

definition headroom_sector :: "proposal_v2 \<Rightarrow> policy_context \<Rightarrow> policy_limits \<Rightarrow> pyfloat" where
  "headroom_sector p c l = (let sector = dict_get (px_subject_sectors c) (subject_of p) in
     if falsy_text sector then NaN else exposure_allowed (px_industry_weights c) (pl_industry_exposure_limit l) sector)"

definition headroom_theme :: "proposal_v2 \<Rightarrow> policy_context \<Rightarrow> policy_limits \<Rightarrow> pyfloat" where
  "headroom_theme p c l = (let theme = dict_get (px_subject_themes c) (subject_of p) in
     if falsy_text theme then NaN else exposure_allowed (px_theme_weights c) (pl_theme_exposure_limit l) theme)"

definition headroom_drawdown :: "policy_context \<Rightarrow> policy_limits \<Rightarrow> pyfloat" where
  "headroom_drawdown c l = (if px_portfolio_drawdown_mode c then drawdown_cap l else NaN)"

lemmas capped_intros = capped_min capped_keep

lemma capped_None: "capped cap None None"
  by (simp add: capped_def)

lemma rule_single_capped: "capped (py_max (Fin 0) (pl_single_position_limit l)) t (snd (rule_single_position l t))"
  by (auto simp: rule_single_position_def Let_def capped_None intro: capped_min split: option.splits)

lemma rule_gross_capped: "capped (headroom_gross p c l) t (snd (rule_gross p c l act t))"
  by (auto simp: rule_gross_def headroom_gross_def Let_def capped_None intro: capped_intros split: option.splits)

lemma rule_net_capped: "capped (headroom_net p c l) t (snd (rule_net p c l act t))"
  by (auto simp: rule_net_def headroom_net_def Let_def capped_None intro: capped_intros split: option.splits)

lemma rule_industry_capped: "capped (headroom_sector p c l) t (snd (rule_industry p c l t))"
  by (auto simp: rule_industry_def headroom_sector_def Let_def capped_None intro: capped_intros)

lemma rule_theme_capped: "capped (headroom_theme p c l) t (snd (rule_theme p c l t))"
  by (auto simp: rule_theme_def headroom_theme_def Let_def capped_None intro: capped_intros)

lemma rule_drawdown_capped: "capped (headroom_drawdown c l) t (snd (rule_drawdown c l t))"
  by (auto simp: rule_drawdown_def headroom_drawdown_def Let_def capped_None intro: capped_intros)

lemma v2_specs_capped:
  fixes p c l
  defines "t0 \<equiv> v2_target p (current_weight p c)" and "t \<equiv> snd (v2_specs p c l)"
  shows "capped (py_max (Fin 0) (pl_single_position_limit l)) t0 t \<and> capped (headroom_gross p c l) t0 t
    \<and> capped (headroom_net p c l) t0 t \<and> capped (headroom_sector p c l) t0 t \<and> capped (headroom_theme p c l) t0 t
    \<and> capped (headroom_drawdown c l) t0 t"
proof -
  define t1 where "t1 = snd (rule_single_position l t0)"
  define t2 where "t2 = snd (rule_gross p c l (t0 \<noteq> None) t1)"
  define t3 where "t3 = snd (rule_net p c l (t0 \<noteq> None) t2)"
  define t4 where "t4 = snd (rule_industry p c l t3)"
  define t5 where "t5 = snd (rule_theme p c l t4)"
  have t: "t = snd (rule_drawdown c l t5)"
    unfolding t_def t5_def t4_def t3_def t2_def t1_def t0_def by (rule v2_specs_eq [of l p c]) simp
  note steps = rule_single_capped [of l t0, folded t1_def] rule_gross_capped [of p c l t1 "t0 \<noteq> None", folded t2_def]
    rule_net_capped [of p c l t2 "t0 \<noteq> None", folded t3_def] rule_industry_capped [of p c l t3, folded t4_def]
    rule_theme_capped [of p c l t4, folded t5_def] rule_drawdown_capped [of c l t5, folded t]
  show ?thesis using steps by (metis capped_trans)
qed

lemma v2_target_not_NaN:
  assumes "evaluate_v2 digest l ver p c = Inr e" and "v2_target p (current_weight p c) = Some t"
  shows "t \<noteq> NaN"
proof -
  obtain s where s: "s = fst (rule_single_position l (Some t))" "cs_original s = VFloat t"
    by (simp add: rule_single_position_def Let_def)
  have "s \<in> set (fst (v2_specs p c l))"
    by (rule v2_specs_eq [of l p c]) (simp add: assms(2) s(1))
  then obtain k where "v2_check (v2_version ver @ ''.1'') p c s = Inr k"
    using list_all2_in1 [OF evaluate_v2_Inr(1) [OF assms(1)]] by blast
  then show ?thesis using v2_check_Inr(6) s(2) by force
qed

subsection \<open>Properties\<close>

text \<open>Every v2 evaluation the engine returns carries the complete trace: the sixteen rules,
  each once and in the fixed order, every failed check marked as an adjustment or a rejection,
  and a result hash that is the digest of the evaluation itself.\<close>

theorem v2_trace_complete:
  assumes "evaluate_v2 digest l ver p c = Inr e"
  shows "map cr_rule_id (pe_checks e) = v2_rule_ids
    \<and> (\<forall>k \<in> set (pe_checks e). cr_passed k \<or> cr_severity k \<noteq> INFO)
    \<and> (\<forall>k \<in> set (pe_checks e). cr_severity k = REJECT \<longrightarrow> \<not> cr_passed k)
    \<and> pe_result_hash e = digest (e\<lparr>pe_result_hash := []\<rparr>)"
proof -
  note tr = evaluate_v2_Inr(1) [OF assms]
  have "map cr_rule_id (pe_checks e) = map strip (map cs_rule (fst (v2_specs p c l)))"
    using tr by (induction rule: list_all2_induct) (auto simp: v2_check_Inr(1))
  moreover have "check_semantics k = Inr ()" if "k \<in> set (pe_checks e)" for k
    using list_all2_in2 [OF tr that] v2_check_Inr(8) by blast
  then have "(cr_passed k \<or> cr_severity k \<noteq> INFO) \<and> (cr_severity k = REJECT \<longrightarrow> \<not> cr_passed k)" if "k \<in> set (pe_checks e)" for k
    using that by (force simp: check_semantics_def bindR_Inr_iff)
  ultimately show ?thesis
    using evaluate_v2_Inr(5) [OF assms] by (auto simp: v2_specs_rules v2_rule_ids_clean)
qed

definition example_context :: policy_context where
  "example_context = default_context\<lparr>px_gross_exposure := Some (lit (9/10)), px_net_exposure := Some (lit (5/10)),
     px_portfolio_available := Some True, px_portfolio_snapshot_fresh := Some True,
     px_dependency_health := [(''quant'', DepScalar (ScalarPlain (VStr ''ok'')))],
     px_evidence_freshness_seconds := Some (Fin 60), px_liquidity_ok := [(''600000.SH'', True)],
     px_security_is_st := [(''600000.SH'', False)], px_security_is_suspended := [(''600000.SH'', False)],
     px_domain_coverage := [(''market'', Fin 1), (''factor'', Fin 1), (''risk'', Fin 1)]\<rparr>"

definition evaluation_hash :: "policy_evaluation \<Rightarrow> string" where
  "evaluation_hash e = ''sha256:'' @ pe_policy_result_id e"

definition example_evaluation :: "policy_evaluation result" where
  "example_evaluation = evaluate_v2 evaluation_hash default_limits ''policy.v1'' example_proposal example_context"

lemma example_evaluation_approved:
  "case example_evaluation of Inl _ \<Rightarrow> False | Inr e \<Rightarrow> pe_approved e \<and> pe_adjusted e = VFloat (Fin (1/16))"
  by code_simp

lemma example_evaluation_Inr:
  obtains e where "evaluate_v2 evaluation_hash default_limits ''policy.v1'' example_proposal example_context = Inr e"
    and "pe_approved e" and "pe_adjusted e = VFloat (Fin (1/16))"
  using example_evaluation_approved unfolding example_evaluation_def by (auto split: sum.splits)

lemma v2_trace_complete_witness:
  "\<exists>e. evaluate_v2 evaluation_hash default_limits ''policy.v1'' example_proposal example_context = Inr e
     \<and> map cr_rule_id (pe_checks e) = v2_rule_ids"
  by (rule example_evaluation_Inr) (use v2_trace_complete in blast)

text \<open>C1: What an approval certifies. An approved v2 evaluation means that the risk specialist did
  not veto, the subject is not restricted, the confidence reaches the minimum, the evidence
  references reach the minimum count and every required domain its minimum coverage, every required
  system is present with a healthy status (quant always, for a proposal with a weight); that a
  symbol to be bought or increased has its liquidity confirmed, is known not to be ST and known not to be
  suspended; and that for a proposal with a weight the portfolio snapshot is not marked unavailable.\<close>

theorem v2_approval_is_safe:
  assumes "evaluate_v2 digest l ver p c = Inr e" and "pe_approved e"
  shows "\<not> px_risk_veto c
    \<and> (\<forall>k. pr_subject_key p = Some k \<longrightarrow> k \<notin> set (px_restricted_universe c))
    \<and> f_le (pl_min_confidence l) (pr_confidence p)
    \<and> pl_min_evidence_count l \<le> int (length (pr_evidence_refs p))
    \<and> (\<forall>d \<in> set (px_required_domains c). \<not> f_lt (get_float (px_domain_coverage c) d) (pl_min_domain_coverage l))
    \<and> (\<forall>k \<in> set (required_systems c (v2_target p (current_weight p c) \<noteq> None)).
         \<exists>s. dict_get (normalized_statuses c) k = Some s \<and> s \<in> set healthy_statuses)
    \<and> (security_actionable p \<longrightarrow> dict_get (px_liquidity_ok c) (subject_of p) = Some True
         \<and> dict_get (px_security_is_st c) (subject_of p) = Some False
         \<and> dict_get (px_security_is_suspended c) (subject_of p) = Some False)
    \<and> (v2_target p (current_weight p c) \<noteq> None \<longrightarrow> px_portfolio_available c \<noteq> Some False)"
proof -
  note gate = approved_gate_spec [OF assms]
  note m = v2_gates_member [where p = p and c = c and l = l]
  obtain t where t: "rule_restricted p c t \<in> set (fst (v2_specs p c l))" using m(9) by auto
  have "\<not> px_risk_veto c" by (rule gate [OF m(8) [unfolded rule_risk_veto_def]])
  moreover have "\<not> (\<exists>k \<in> set_option (pr_subject_key p). k \<in> set (px_restricted_universe c))"
    by (rule gate [OF t [unfolded rule_restricted_def]])
  moreover have "f_le (pl_min_confidence l) (pr_confidence p)"
    by (rule gate [OF m(4) [unfolded rule_confidence_def Let_def]])
  moreover have "pl_min_evidence_count l \<le> int (length (pr_evidence_refs p))
      \<and> filter (\<lambda>d. f_lt (get_float (px_domain_coverage c) d) (pl_min_domain_coverage l)) (px_required_domains c) = []"
    by (rule gate [OF m(3) [unfolded rule_evidence_def Let_def]])
  moreover have "\<not> security_actionable p \<or> dict_get (px_liquidity_ok c) (subject_of p) = Some True"
    by (rule gate [OF m(1) [unfolded rule_liquidity_def Let_def]])
  moreover note gate [OF m(2) [unfolded rule_st_def Let_def]] gate [OF m(5) [unfolded rule_dependencies_def Let_def]]
    gate [OF m(7) [unfolded rule_portfolio_fresh_def Let_def]]
  ultimately show ?thesis
    by (auto simp: filter_empty_conv split: if_splits)
qed

lemma v2_approval_is_safe_witness:
  "dict_get (px_liquidity_ok example_context) ''600000.SH'' = Some True \<and> f_le (lit (3/10)) (Fin (1/2))"
proof (rule example_evaluation_Inr)
  fix e
  assume e: "evaluate_v2 evaluation_hash default_limits ''policy.v1'' example_proposal example_context = Inr e" "pe_approved e"
  show ?thesis using v2_approval_is_safe [OF e]
    by (simp add: security_actionable_def example_proposal_def subject_of_def default_limits_def)
qed

text \<open>C2: The weight an evaluation returns never exceeds the proposed one, nor the single-position
  limit, nor any headroom it was checked against: gross and net exposure, the industry and theme of
  the subject, and the drawdown cap while the portfolio is in drawdown mode (a headroom that does
  not apply is a NaN here). It holds for every evaluation, whatever the floating-point inputs.\<close>

theorem v2_weight_within_limits:
  assumes "evaluate_v2 digest l ver p c = Inr e" and "v2_target p (current_weight p c) = Some t"
  shows "\<exists>y. pe_adjusted e = VFloat y \<and> f_le y t \<and> f_le y (py_max (Fin 0) (pl_single_position_limit l))
    \<and> (\<forall>cap \<in> {headroom_gross p c l, headroom_net p c l, headroom_sector p c l, headroom_theme p c l, headroom_drawdown c l}.
         cap \<noteq> NaN \<longrightarrow> f_le y cap)"
  using v2_specs_capped [where p = p and c = c and l = l] v2_target_not_NaN [OF assms] evaluate_v2_Inr(2) [OF assms(1)] assms(2)
  by (auto simp: capped_def opt_float_def py_max_not_NaN)

lemma v2_weight_within_limits_witness:
  "f_le (Fin (1/16)) (py_max (Fin 0) (lit (10/100)))"
proof (rule example_evaluation_Inr)
  fix e
  assume e: "evaluate_v2 evaluation_hash default_limits ''policy.v1'' example_proposal example_context = Inr e"
    and a: "pe_adjusted e = VFloat (Fin (1/16))"
  have "v2_target example_proposal (current_weight example_proposal example_context) = Some (Fin (1/16))"
    by (simp add: v2_target_def example_proposal_def)
  from v2_weight_within_limits [OF e this] a show ?thesis by (auto simp: default_limits_def)
qed

text \<open>The rounding of the headroom can make a consistent evaluation impossible. With the
  default limits, gross exposure 0.9 and a proposed weight of 0.2, the single-position rule adjusts
  the weight to 0.1; the gross rule passes, since 0.9 + 0.1 is 1.0, and yet lowers the weight to
  1.0 - 0.9, which is below 0.1. The evaluation is then refused by its own validator, because its
  adjusted value is not that of its last adjustment.\<close>

theorem v2_rounding_refuses_evaluation:
  "evaluate_v2 evaluation_hash default_limits ''policy.v1''
     (example_proposal\<lparr>pr_target_weight := Some (lit (2/10))\<rparr>) example_context
   = Inl (ValidationError ''adjusted_value must equal the last ordered adjustment'')"
  by code_simp

end
