(* ===== verification/ModelGateway.thy ===== *)
theory ModelGateway
  imports PyVal
begin

text \<open>
  The model gateway of \<open>app/model_gateway\<close>: circuit breaker, retry loop, token and cost budget,
  routing and \<open>ModelGateway.complete\<close> with its structured-output repair. The provider endpoints,
  the clock, the sleeper and the output schema are arguments. The world they act on is a type
  variable: an endpoint call maps a world to an answer or an error and a new world, the clock
  reads the world. Metrics are not modelled: nothing the gateway decides depends on them.
\<close>

subsection \<open>Circuit breaker\<close>

datatype circuit_state = CLOSED | OPEN | HALF_OPEN

record circuit_breaker =
  cb_threshold :: int
  cb_recovery :: pyfloat
  cb_state :: circuit_state
  cb_failures :: int
  cb_opened_at :: "pyfloat option"

definition new_breaker :: "int \<Rightarrow> pyfloat \<Rightarrow> circuit_breaker" where
  "new_breaker threshold recovery = \<lparr>cb_threshold = max 1 threshold, cb_recovery = py_max (Fin 0) recovery,
     cb_state = CLOSED, cb_failures = 0, cb_opened_at = None\<rparr>"

definition cb_allow :: "pyfloat \<Rightarrow> circuit_breaker \<Rightarrow> bool \<times> circuit_breaker" where
  "cb_allow now b = (if cb_state b = OPEN
     then (if (case cb_opened_at b of None \<Rightarrow> False | Some t \<Rightarrow> f_le (cb_recovery b) (f_sub now t))
           then (True, b\<lparr>cb_state := HALF_OPEN\<rparr>) else (False, b))
     else (True, b))"

definition cb_before_call :: "pyfloat \<Rightarrow> circuit_breaker \<Rightarrow> unit result \<times> circuit_breaker" where
  "cb_before_call now b = (case cb_allow now b of (ok, b') \<Rightarrow>
     (if ok then Inr () else Inl (PyExc ''CircuitOpenError'' ''circuit breaker is open''), b'))"

definition cb_success :: "circuit_breaker \<Rightarrow> circuit_breaker" where
  "cb_success b = b\<lparr>cb_state := CLOSED, cb_failures := 0, cb_opened_at := None\<rparr>"

definition cb_failure :: "pyfloat \<Rightarrow> circuit_breaker \<Rightarrow> circuit_breaker" where
  "cb_failure now b = (let b' = b\<lparr>cb_failures := cb_failures b + 1\<rparr> in
     if cb_state b' = HALF_OPEN \<or> cb_threshold b' \<le> cb_failures b'
     then b'\<lparr>cb_state := OPEN, cb_opened_at := Some now\<rparr> else b')"

definition cb_call :: "('w \<Rightarrow> pyfloat) \<Rightarrow> ('w \<Rightarrow> 'a result \<times> 'w) \<Rightarrow> circuit_breaker \<Rightarrow> 'w \<Rightarrow> 'a result \<times> circuit_breaker \<times> 'w" where
  "cb_call clock op b w = (case cb_before_call (clock w) b of
     (Inl e, b') \<Rightarrow> (Inl e, b', w)
   | (Inr _, b') \<Rightarrow> (case op w of
       (Inl e, w') \<Rightarrow> (Inl e, cb_failure (clock w') b', w')
     | (Inr x, w') \<Rightarrow> (Inr x, cb_success b', w')))"

subsection \<open>Retry\<close>

record retry_policy =
  rp_max_attempts :: int
  rp_base_delay :: pyfloat
  rp_max_delay :: pyfloat
  rp_jitter :: pyfloat

definition default_retry :: retry_policy where
  "default_retry = \<lparr>rp_max_attempts = 3, rp_base_delay = lit (25/100), rp_max_delay = lit 8, rp_jitter = Fin 0\<rparr>"

definition retry_delay :: "retry_policy \<Rightarrow> nat \<Rightarrow> pyfloat option \<Rightarrow> pyfloat \<Rightarrow> pyfloat" where
  "retry_delay p attempt retry_after random_value = (case retry_after of
     Some r \<Rightarrow> py_max (Fin 0) (py_min r (rp_max_delay p))
   | None \<Rightarrow> let value = py_min (rp_max_delay p) (f_mul (rp_base_delay p) (f_of_rat (2 ^ attempt))) in
       if rp_jitter p \<noteq> Fin 0 then f_add value (f_mul (f_mul value (rp_jitter p)) random_value) else value)"

text \<open>An exception of a provider call, with the attributes the retry loop looks at; \<open>ce_retryable\<close> says that it is a \<open>RetryableError\<close> or of a subclass.\<close>

record call_error =
  ce_exc :: exc
  ce_retryable :: bool
  ce_status :: "int option"
  ce_retry_after :: "pyfloat option"

definition retryable :: "call_error \<Rightarrow> bool" where
  "retryable e \<longleftrightarrow> ce_retryable e
     \<or> (\<exists>s \<in> set_option (ce_status e). s \<in> {408, 429, 500, 502, 503, 504})"

text \<open>The retry loop; \<open>left\<close> counts the attempts that remain after the current one.\<close>

fun retry_loop ::
  "('w \<Rightarrow> (call_error + 'a) \<times> 'w) \<Rightarrow> retry_policy \<Rightarrow> (pyfloat \<Rightarrow> 'w \<Rightarrow> 'w) \<Rightarrow> (call_error \<Rightarrow> bool) \<Rightarrow> (nat \<Rightarrow> pyfloat)
   \<Rightarrow> nat \<Rightarrow> nat \<Rightarrow> 'w \<Rightarrow> (call_error + 'a) \<times> 'w" where
  "retry_loop op p sleeper retry_if rnd attempt left w = (case op w of
     (Inr x, w') \<Rightarrow> (Inr x, w')
   | (Inl e, w') \<Rightarrow> (case left of
       0 \<Rightarrow> (Inl e, w')
     | Suc left' \<Rightarrow> if \<not> retry_if e then (Inl e, w')
         else retry_loop op p sleeper retry_if rnd (attempt + 1) left'
                (sleeper (retry_delay p attempt (ce_retry_after e) (rnd attempt)) w')))"

declare retry_loop.simps [simp del]

definition max_attempts :: "retry_policy \<Rightarrow> nat" where
  "max_attempts p = nat (max 1 (rp_max_attempts p))"

definition retry_call ::
  "('w \<Rightarrow> (call_error + 'a) \<times> 'w) \<Rightarrow> retry_policy \<Rightarrow> (pyfloat \<Rightarrow> 'w \<Rightarrow> 'w) \<Rightarrow> (call_error \<Rightarrow> bool) \<Rightarrow> (nat \<Rightarrow> pyfloat)
   \<Rightarrow> 'w \<Rightarrow> (call_error + 'a) \<times> 'w" where
  "retry_call op p sleeper retry_if rnd w = retry_loop op p sleeper retry_if rnd 0 (max_attempts p - 1) w"

subsection \<open>Budget\<close>

record token_budget =
  tb_max_input :: "int option"
  tb_max_output :: "int option"
  tb_max_total :: "int option"
  tb_max_cost :: "pyfloat option"
  tb_input :: int
  tb_output :: int
  tb_cost :: pyfloat

definition new_budget :: "int option \<Rightarrow> int option \<Rightarrow> int option \<Rightarrow> pyfloat option \<Rightarrow> token_budget" where
  "new_budget mi mo mt mc = \<lparr>tb_max_input = mi, tb_max_output = mo, tb_max_total = mt, tb_max_cost = mc,
     tb_input = 0, tb_output = 0, tb_cost = Fin 0\<rparr>"

definition tb_total :: "token_budget \<Rightarrow> int" where
  "tb_total b = tb_input b + tb_output b"

abbreviation BudgetExceeded :: "string \<Rightarrow> exc" where
  "BudgetExceeded m \<equiv> PyExc ''BudgetExceededError'' m"

definition over :: "int option \<Rightarrow> int \<Rightarrow> bool" where
  "over m n \<longleftrightarrow> (case m of None \<Rightarrow> False | Some k \<Rightarrow> k < n)"

definition over_cost :: "pyfloat option \<Rightarrow> pyfloat \<Rightarrow> bool" where
  "over_cost m c \<longleftrightarrow> (case m of None \<Rightarrow> False | Some k \<Rightarrow> f_lt k c)"

definition budget_check :: "token_budget \<Rightarrow> int \<Rightarrow> int \<Rightarrow> pyfloat \<Rightarrow> unit result" where
  "budget_check b i out cost =
     (if over (tb_max_input b) (tb_input b + i) then Inl (BudgetExceeded ''input token budget exceeded'')
      else if over (tb_max_output b) (tb_output b + out) then Inl (BudgetExceeded ''output token budget exceeded'')
      else if over (tb_max_total b) (tb_total b + i + out) then Inl (BudgetExceeded ''total token budget exceeded'')
      else if over_cost (tb_max_cost b) (f_add (tb_cost b) cost) then Inl (BudgetExceeded ''model cost budget exceeded'')
      else Inr ())"

definition budget_reserve :: "token_budget \<Rightarrow> int \<Rightarrow> int \<Rightarrow> pyfloat \<Rightarrow> token_budget result" where
  "budget_reserve b i out cost = bindR (budget_check b i out cost) (\<lambda>_.
     Inr (b\<lparr>tb_input := tb_input b + max 0 i, tb_output := tb_output b + max 0 out,
            tb_cost := f_add (tb_cost b) (py_max (Fin 0) cost)\<rparr>))"

definition budget_charge :: "token_budget \<Rightarrow> int \<Rightarrow> int \<Rightarrow> pyfloat \<Rightarrow> token_budget result" where
  "budget_charge b i out cost = budget_reserve b i out cost"

subsection \<open>Requests, routes and responses\<close>

record model_route =
  mr_name :: string
  mr_provider :: "string option"
  mr_model :: "string option"
  mr_version :: "string option"
  mr_cost_in :: pyfloat
  mr_cost_out :: pyfloat

record model_request =
  rq_messages :: "pyval list"
  rq_prompt :: "string option"
  rq_system :: "string option"
  rq_model :: "string option"
  rq_temperature :: pyfloat
  rq_max_tokens :: int
  rq_response_format :: "pyval option"
  rq_schema :: "(pyval \<Rightarrow> pyval option) option"
  rq_trace_headers :: pyval
  rq_extra :: "(string \<times> pyval) list"
  rq_budget :: "token_budget option"

definition chat_message :: "string \<Rightarrow> string \<Rightarrow> pyval" where
  "chat_message role content = VDict [(''role'', VStr role), (''content'', VStr content)]"

definition request_payload :: "model_request \<Rightarrow> (string \<times> pyval) list" where
  "request_payload r =
     (let m0 = rq_messages r;
          m1 = (if falsy_text (rq_system r) then m0 else chat_message ''system'' (the (rq_system r)) # m0);
          m2 = (case rq_prompt r of None \<Rightarrow> m1 | Some p \<Rightarrow> m1 @ [chat_message ''user'' p]);
          p0 = [(''messages'', VList m2), (''temperature'', VFloat (rq_temperature r)), (''max_tokens'', VInt (rq_max_tokens r))];
          p1 = (if falsy_text (rq_model r) then p0 else dict_set p0 ''model'' (VStr (the (rq_model r))));
          p2 = (case rq_response_format r of None \<Rightarrow> p1 | Some f \<Rightarrow> if truthy f then dict_set p1 ''response_format'' f else p1)
      in foldl (\<lambda>d (k, v). dict_set d k v) p2 (rq_extra r))"

text \<open>\<open>len\<close> of a text: the bytes of its UTF-8 form that start a character.\<close>

definition code_points :: "string \<Rightarrow> nat" where
  "code_points s = length (filter (\<lambda>c. let n = of_char c :: nat in n < 128 \<or> 192 \<le> n) s)"

definition estimate_tokens :: "(string \<times> pyval) list \<Rightarrow> int" where
  "estimate_tokens payload = max 1 (int (code_points (json_text (VDict payload))) div 4)"

definition first_truthy :: "(string \<times> pyval) list \<Rightarrow> string list \<Rightarrow> pyval \<Rightarrow> pyval" where
  "first_truthy d ks v = foldr (\<lambda>k acc. py_or (get_item d k) acc) ks v"

definition usage_of :: "(string \<times> pyval) list \<Rightarrow> (string \<times> pyval) list" where
  "usage_of response = (case get_item response ''usage'' of VDict u \<Rightarrow> u | _ \<Rightarrow> [])"

definition response_output_tokens :: "(string \<times> pyval) list \<Rightarrow> int result" where
  "response_output_tokens response =
     py_int (first_truthy (usage_of response) [''completion_tokens'', ''output_tokens'', ''completionTokens''] (VInt 0))"

definition response_input_tokens :: "(string \<times> pyval) list \<Rightarrow> int \<Rightarrow> int result" where
  "response_input_tokens response fallback =
     py_int (first_truthy (usage_of response) [''prompt_tokens'', ''input_tokens'', ''promptTokens''] (VInt fallback))"

definition resolve_model_version :: "model_route \<Rightarrow> (string \<times> pyval) list \<Rightarrow> string option" where
  "resolve_model_version route response = map_option py_str (first_such (\<lambda>v. v \<noteq> VNone \<and> \<not> blank (py_str v))
     [opt_str (mr_version route), get_item response ''model_version'', get_item response ''system_fingerprint'',
      get_item response ''model'', opt_str (mr_model route)])"

text \<open>
  The content of the first choice. \<open>.get\<close> on something that is not a dictionary, an index into
  something that is not a sequence and \<open>.strip()\<close> on something that is not a text raise.
\<close>

definition get_attr :: "pyval \<Rightarrow> string \<Rightarrow> pyval result" where
  "get_attr v k = (case v of VDict d \<Rightarrow> Inr (get_item d k) | _ \<Rightarrow> Inl (PyExc ''AttributeError'' ''get''))"

definition first_item :: "pyval \<Rightarrow> pyval result" where
  "first_item v = (case v of VList (x # _) \<Rightarrow> Inr x | VStr (c # _) \<Rightarrow> Inr (VStr [c])
     | VDict _ \<Rightarrow> Inl (KeyError ''0'') | _ \<Rightarrow> Inl (TypeError ''object is not subscriptable''))"

definition response_content :: "(string \<times> pyval) list \<Rightarrow> string result" where
  "response_content response =
     bindR (first_item (py_or (get_item response ''choices'') (VList [VDict []]))) (\<lambda>choice.
     bindR (get_attr choice ''message'') (\<lambda>message.
     bindR (get_attr (py_or message (VDict [])) ''content'') (\<lambda>content.
     case py_or content (VStr []) of VStr s \<Rightarrow> Inr (strip s) | _ \<Rightarrow> Inl (PyExc ''AttributeError'' ''strip''))))"

abbreviation StructuredOutput :: exc where
  "StructuredOutput \<equiv> PyExc ''StructuredOutputError'' ''model output failed structured-output validation''"

text \<open>\<open>schema\<close> stands for \<open>json.loads\<close> followed by the validation of the output model.\<close>

definition validate_structured :: "(string \<times> pyval) list \<Rightarrow> (pyval \<Rightarrow> pyval option) option \<Rightarrow> pyval option result" where
  "validate_structured response schema = (case schema of None \<Rightarrow> Inr None
   | Some f \<Rightarrow> bindR (response_content response) (\<lambda>content.
       case f (VStr content) of None \<Rightarrow> Inl StructuredOutput | Some v \<Rightarrow> Inr (Some v)))"

definition repair_message :: pyval where
  "repair_message = chat_message ''system'' ''Previous output failed the required structured schema. Return one valid JSON object matching every required field and type; no prose or Markdown.''"

definition append_structured_repair :: "(string \<times> pyval) list \<Rightarrow> (string \<times> pyval) list result" where
  "append_structured_repair payload = (case py_or (get_item payload ''messages'') (VList []) of
     VList ms \<Rightarrow> Inr (dict_set payload ''messages'' (VList (ms @ [repair_message])))
   | VStr s \<Rightarrow> Inr (dict_set payload ''messages'' (VList (map (\<lambda>c. VStr [c]) s @ [repair_message])))
   | VDict d \<Rightarrow> Inr (dict_set payload ''messages'' (VList (map (\<lambda>(k, _). VStr k) d @ [repair_message])))
   | _ \<Rightarrow> Inl (TypeError ''object is not iterable''))"

subsection \<open>The gateway\<close>

text \<open>What surrounds the gateway: the endpoint of a route (\<open>_invoke\<close>), the clock, the sleeper, the jitter.\<close>

record 'w gateway_env =
  ge_invoke :: "model_route \<Rightarrow> (string \<times> pyval) list \<Rightarrow> 'w \<Rightarrow> (call_error + pyval) \<times> 'w"
  ge_clock :: "'w \<Rightarrow> pyfloat"
  ge_sleep :: "pyfloat \<Rightarrow> 'w \<Rightarrow> 'w"
  ge_random :: "nat \<Rightarrow> pyfloat"

record model_gateway =
  gw_primary :: model_route
  gw_fallback :: "model_route option"
  gw_retry :: retry_policy
  gw_breakers :: "string \<rightharpoonup> circuit_breaker"
  gw_budget :: token_budget

record 'w call_state =
  gs_breakers :: "string \<rightharpoonup> circuit_breaker"
  gs_budget :: token_budget
  gs_world :: 'w
  gs_in :: int
  gs_out :: int
  gs_cost :: pyfloat

record model_result =
  ms_route :: string
  ms_provider :: "string option"
  ms_model :: pyval
  ms_version :: "string option"
  ms_response :: "(string \<times> pyval) list"
  ms_structured :: "pyval option"
  ms_input_tokens :: int
  ms_output_tokens :: int
  ms_cost :: pyfloat

definition int_cost :: "int \<Rightarrow> pyfloat \<Rightarrow> pyfloat" where
  "int_cost n c = f_mul (f_of_rat (of_int n)) c"

definition route_cost :: "model_route \<Rightarrow> int \<Rightarrow> int \<Rightarrow> pyfloat" where
  "route_cost r i out = f_add (int_cost i (mr_cost_in r)) (int_cost out (mr_cost_out r))"

definition router_routes :: "model_gateway \<Rightarrow> model_route list" where
  "router_routes gw = (case gw_fallback gw of None \<Rightarrow> [gw_primary gw] | Some f \<Rightarrow> [gw_primary gw, f])"

definition set_breaker :: "string \<Rightarrow> (circuit_breaker \<Rightarrow> circuit_breaker) \<Rightarrow> 'w call_state \<Rightarrow> 'w call_state" where
  "set_breaker name f s = s\<lparr>gs_breakers := (gs_breakers s)(name := map_option f (gs_breakers s name))\<rparr>"

text \<open>One provider response: charge it, then validate it.\<close>

definition accept_response ::
  "model_request \<Rightarrow> model_route \<Rightarrow> int \<Rightarrow> (string \<times> pyval) list \<Rightarrow> 'w call_state \<Rightarrow> pyval option result \<times> 'w call_state" where
  "accept_response rq route attempt_tokens response s =
     (case response_input_tokens response attempt_tokens of Inl e \<Rightarrow> (Inl e, s)
      | Inr i \<Rightarrow> (case response_output_tokens response of Inl e \<Rightarrow> (Inl e, s)
      | Inr out \<Rightarrow> (let cost = route_cost route i out in case budget_charge (gs_budget s) i out cost of Inl e \<Rightarrow> (Inl e, s)
      | Inr b \<Rightarrow> (validate_structured response (rq_schema rq),
           s\<lparr>gs_budget := b, gs_in := gs_in s + i, gs_out := gs_out s + out, gs_cost := f_add (gs_cost s) cost\<rparr>))))"

text \<open>The attempts on one route; \<open>left\<close> is the number of structured-repair attempts that remain.\<close>

fun attempt_loop ::
  "'w gateway_env \<Rightarrow> retry_policy \<Rightarrow> model_request \<Rightarrow> model_route \<Rightarrow> nat \<Rightarrow> (string \<times> pyval) list \<Rightarrow> 'w call_state
   \<Rightarrow> model_result result \<times> 'w call_state" where
  "attempt_loop env rp rq route left payload s =
     (let tokens = estimate_tokens payload; out_cap = max 0 (rq_max_tokens rq) in
      case budget_check (gs_budget s) tokens out_cap (route_cost route tokens out_cap) of
        Inl e \<Rightarrow> (Inl e, s)
      | Inr _ \<Rightarrow> (case retry_call (ge_invoke env route payload) rp (ge_sleep env) retryable (ge_random env) (gs_world s) of
          (Inl e, w) \<Rightarrow> (Inl (ce_exc e), s\<lparr>gs_world := w\<rparr>)
        | (Inr (VDict response), w) \<Rightarrow> (case accept_response rq route tokens response (s\<lparr>gs_world := w\<rparr>) of
            (Inr structured, s') \<Rightarrow>
              (Inr \<lparr>ms_route = mr_name route, ms_provider = mr_provider route,
                 ms_model = (if falsy_text (mr_model route) then get_item response ''model'' else opt_str (mr_model route)),
                 ms_version = resolve_model_version route response, ms_response = response, ms_structured = structured,
                 ms_input_tokens = gs_in s', ms_output_tokens = gs_out s', ms_cost = gs_cost s'\<rparr>,
               set_breaker (mr_name route) cb_success s')
          | (Inl e, s') \<Rightarrow> if exc_class e = ''StructuredOutputError'' then
               (case left of 0 \<Rightarrow> (Inl e, s')
                | Suc left' \<Rightarrow> (case append_structured_repair payload of Inl e' \<Rightarrow> (Inl e', s')
                    | Inr payload' \<Rightarrow> attempt_loop env rp rq route left' payload' s'))
             else (Inl e, s'))
        | (Inr _, w) \<Rightarrow> (Inl (PyExc ''ModelGatewayError'' ''model response must be a JSON object''), s\<lparr>gs_world := w\<rparr>)))"

declare attempt_loop.simps [simp del]

definition try_route ::
  "'w gateway_env \<Rightarrow> retry_policy \<Rightarrow> model_request \<Rightarrow> (string \<times> pyval) list \<Rightarrow> int \<Rightarrow> model_route \<Rightarrow> circuit_breaker \<Rightarrow> 'w call_state
   \<Rightarrow> model_result result \<times> 'w call_state" where
  "try_route env rp rq payload tokens route b s =
     (let route_payload = (if falsy_text (mr_model route) then payload else dict_set payload ''model'' (VStr (the (mr_model route))));
          out_cap = max 0 (rq_max_tokens rq)
      in case budget_check (gs_budget s) tokens out_cap (route_cost route tokens out_cap) of
           Inl e \<Rightarrow> (Inl e, s)
         | Inr _ \<Rightarrow> (case cb_before_call (ge_clock env (gs_world s)) b of
             (Inl e, b') \<Rightarrow> (Inl e, set_breaker (mr_name route) (\<lambda>_. b') s)
           | (Inr _, b') \<Rightarrow> attempt_loop env rp rq route (if rq_schema rq = None then 0 else 1) route_payload
               (set_breaker (mr_name route) (\<lambda>_. b') s)))"

definition all_routes_failed :: "exc option \<Rightarrow> exc" where
  "all_routes_failed prev = (case prev of
     Some e \<Rightarrow> if exc_class e = ''StructuredOutputError'' then e else PyExc ''ModelGatewayError'' ''all model routes failed''
   | None \<Rightarrow> PyExc ''ModelGatewayError'' ''all model routes failed'')"

fun route_loop ::
  "'w gateway_env \<Rightarrow> retry_policy \<Rightarrow> model_request \<Rightarrow> (string \<times> pyval) list \<Rightarrow> int \<Rightarrow> exc option \<Rightarrow> model_route list \<Rightarrow> 'w call_state
   \<Rightarrow> model_result result \<times> 'w call_state" where
  "route_loop env rp rq payload tokens prev [] s = (Inl (all_routes_failed prev), s)"
| "route_loop env rp rq payload tokens prev (route # routes) s = (case gs_breakers s (mr_name route) of
     None \<Rightarrow> (Inl (KeyError (mr_name route)), s)
   | Some b \<Rightarrow> (case try_route env rp rq payload tokens route b s of
       (Inr r, s') \<Rightarrow> (Inr r, s')
     | (Inl e, s') \<Rightarrow>
         if exc_class e = ''BudgetExceededError'' then (Inl e, s')
         else if exc_class e = ''CircuitOpenError'' then route_loop env rp rq payload tokens (Some e) routes s'
         else route_loop env rp rq payload tokens (Some e) routes
                (set_breaker (mr_name route) (cb_failure (ge_clock env (gs_world s'))) s')))"

definition call_payload :: "model_request \<Rightarrow> (string \<times> pyval) list" where
  "call_payload rq = dict_set (request_payload rq) ''_trace_headers'' (rq_trace_headers rq)"

definition gateway_complete :: "'w gateway_env \<Rightarrow> model_gateway \<Rightarrow> model_request \<Rightarrow> 'w \<Rightarrow> model_result result \<times> 'w call_state" where
  "gateway_complete env gw rq w =
     route_loop env (gw_retry gw) rq (call_payload rq) (estimate_tokens (call_payload rq)) None (router_routes gw)
       \<lparr>gs_breakers = gw_breakers gw, gs_budget = (case rq_budget rq of None \<Rightarrow> gw_budget gw | Some b \<Rightarrow> b), gs_world = w,
        gs_in = 0, gs_out = 0, gs_cost = Fin 0\<rparr>"

text \<open>The state a call leaves behind: the breakers, and the budget the call was charged to.\<close>

definition after_call :: "model_gateway \<Rightarrow> model_request \<Rightarrow> 'w call_state \<Rightarrow> model_gateway \<times> token_budget option" where
  "after_call gw rq s = (case rq_budget rq of
     None \<Rightarrow> (gw\<lparr>gw_breakers := gs_breakers s, gw_budget := gs_budget s\<rparr>, None)
   | Some _ \<Rightarrow> (gw\<lparr>gw_breakers := gs_breakers s\<rparr>, Some (gs_budget s)))"

definition gateway_step :: "'w gateway_env \<Rightarrow> model_gateway \<Rightarrow> model_request \<Rightarrow> 'w \<Rightarrow> model_result result \<times> model_gateway \<times> token_budget option \<times> 'w" where
  "gateway_step env gw rq w = (case gateway_complete env gw rq w of (r, s) \<Rightarrow>
     case after_call gw rq s of (gw', b) \<Rightarrow> (r, gw', b, gs_world s))"

text \<open>
  The compatible entry points: a formed payload is taken apart into a request again, its other
  fields becoming the extra ones. \<open>None\<close> is a payload whose fields do not have the declared types.
\<close>

definition payload_request :: "(pyval \<Rightarrow> pyval option) option \<Rightarrow> pyval \<Rightarrow> (string \<times> pyval) list \<Rightarrow> model_request option" where
  "payload_request schema headers d =
     (case (get_default d ''messages'' (VList []), get_item d ''model'', get_default d ''temperature'' (VFloat (lit (2/10))),
            get_default d ''max_tokens'' (VInt 2048)) of
        (VList ms, m, VFloat t, VInt n) \<Rightarrow>
          if m = VNone \<or> is_str m then Some \<lparr>rq_messages = ms, rq_prompt = None, rq_system = None,
               rq_model = (case m of VStr x \<Rightarrow> Some x | _ \<Rightarrow> None), rq_temperature = t, rq_max_tokens = n,
               rq_response_format = dict_get d ''response_format'', rq_schema = schema, rq_trace_headers = headers,
               rq_extra = filter (\<lambda>(k, _). k \<notin> {''messages'', ''model'', ''temperature'', ''max_tokens'', ''response_format''}) d,
               rq_budget = None\<rparr>
          else None
      | _ \<Rightarrow> None)"

definition complete_payload ::
  "'w gateway_env \<Rightarrow> model_gateway \<Rightarrow> (pyval \<Rightarrow> pyval option) option \<Rightarrow> pyval \<Rightarrow> (string \<times> pyval) list \<Rightarrow> 'w
   \<Rightarrow> (model_result result \<times> model_gateway \<times> 'w) option" where
  "complete_payload env gw schema headers d w = (case payload_request schema headers d of None \<Rightarrow> None
     | Some rq \<Rightarrow> (case gateway_step env gw rq w of (r, gw', _, w') \<Rightarrow> Some (r, gw', w')))"

definition chat_payload :: "model_request \<Rightarrow> pyval \<Rightarrow> pyval \<Rightarrow> (string \<times> pyval) list" where
  "chat_payload rq tools choice =
     (let d0 = request_payload rq;
          d1 = (if tools = VNone then d0 else dict_set d0 ''tools'' tools)
      in if choice = VNone then d1 else dict_set d1 ''tool_choice'' choice)"

definition create_chat_completion ::
  "'w gateway_env \<Rightarrow> model_gateway \<Rightarrow> model_request \<Rightarrow> pyval \<Rightarrow> pyval \<Rightarrow> 'w
   \<Rightarrow> ((string \<times> pyval) list result \<times> model_gateway \<times> 'w) option" where
  "create_chat_completion env gw rq tools choice w =
     (case complete_payload env gw None (rq_trace_headers rq) (chat_payload rq tools choice) w of
        None \<Rightarrow> None | Some (r, gw', w') \<Rightarrow> Some (bindR r (\<lambda>x. Inr (ms_response x)), gw', w'))"

definition result_as_dict :: "model_result \<Rightarrow> string \<Rightarrow> (string \<times> pyval) list" where
  "result_as_dict r trace_id = foldl (\<lambda>d (k, v). dict_set d k v) (ms_response r)
     [(''route'', VStr (ms_route r)), (''provider'', opt_str (ms_provider r)), (''model'', ms_model r),
      (''model_version'', opt_str (ms_version r)), (''structured_output'', (case ms_structured r of None \<Rightarrow> VNone | Some v \<Rightarrow> v)),
      (''usage'', VDict [(''input_tokens'', VInt (ms_input_tokens r)), (''output_tokens'', VInt (ms_output_tokens r)),
         (''total_tokens'', VInt (ms_input_tokens r + ms_output_tokens r))]),
      (''cost'', VFloat (ms_cost r)), (''trace_id'', VStr trace_id)]"

text \<open>A chat call made with typed arguments always forms a request.\<close>

lemma chat_payload_accepted:
  assumes "rq_extra rq = []"
  shows "payload_request schema headers (chat_payload rq tools choice) \<noteq> None"
proof -
  define d where "d = request_payload rq"
  define e where "e = chat_payload rq tools choice"
  have e: "dict_get e k = dict_get d k" if "k \<notin> {''tools'', ''tool_choice''}" for k
    using that by (simp add: e_def chat_payload_def Let_def d_def)
  have "\<exists>ms. dict_get d ''messages'' = Some (VList ms)" "dict_get d ''temperature'' = Some (VFloat (rq_temperature rq))"
       "dict_get d ''max_tokens'' = Some (VInt (rq_max_tokens rq))" "get_item d ''model'' = VNone \<or> is_str (get_item d ''model'')"
    using assms by (simp_all add: d_def request_payload_def Let_def get_item_def split: option.split)
  moreover have "get_item e ''model'' = get_item d ''model''" using e [of "''model''"] by (simp add: get_item_def)
  ultimately show ?thesis using e [of "''messages''"] e [of "''temperature''"] e [of "''max_tokens''"]
    by (auto simp: payload_request_def get_default_def e_def [symmetric])
qed


subsection \<open>Laws of the breaker\<close>

datatype cb_event = CallAllowed pyfloat | CallSucceeded | CallFailed pyfloat

fun cb_step :: "circuit_breaker \<Rightarrow> cb_event \<Rightarrow> circuit_breaker" where
  "cb_step b (CallAllowed now) = snd (cb_allow now b)"
| "cb_step b CallSucceeded = cb_success b"
| "cb_step b (CallFailed now) = cb_failure now b"

definition breaker_wf :: "circuit_breaker \<Rightarrow> bool" where
  "breaker_wf b \<longleftrightarrow> 1 \<le> cb_threshold b \<and> 0 \<le> cb_failures b \<and> (cb_state b = OPEN \<longleftrightarrow> cb_state b \<noteq> CLOSED \<and> cb_state b \<noteq> HALF_OPEN)
     \<and> (cb_state b = CLOSED \<longrightarrow> cb_failures b < cb_threshold b)
     \<and> (cb_state b \<noteq> CLOSED \<longrightarrow> cb_opened_at b \<noteq> None)"

lemma cb_step_wf: "breaker_wf b \<Longrightarrow> breaker_wf (cb_step b e)"
  by (cases e; cases "cb_state b") (auto simp: breaker_wf_def cb_allow_def cb_success_def cb_failure_def Let_def split: option.splits)

lemma new_breaker_wf: "breaker_wf (new_breaker n r)"
  by (simp add: breaker_wf_def new_breaker_def)

lemma cb_steps_wf: "breaker_wf b \<Longrightarrow> breaker_wf (foldl cb_step b es)"
  by (induction es arbitrary: b) (auto intro: cb_step_wf)

lemma cb_before_call_cases:
  "cb_before_call now b = (Inl e, b') \<Longrightarrow> b' = b \<and> cb_state b = OPEN \<and> e = PyExc ''CircuitOpenError'' ''circuit breaker is open''"
  by (auto simp: cb_before_call_def cb_allow_def split: if_splits)

lemma cb_failures_count:
  "cb_state b = CLOSED \<Longrightarrow> cb_failures b + int (length ts) < cb_threshold b \<Longrightarrow>
     foldl (\<lambda>b t. cb_failure t b) b ts = b\<lparr>cb_failures := cb_failures b + int (length ts)\<rparr>"
proof (induction ts arbitrary: b)
  case Nil
  then show ?case by simp
next
  case (Cons t ts)
  have f: "cb_failure t b = b\<lparr>cb_failures := cb_failures b + 1\<rparr>"
    using Cons.prems by (simp add: cb_failure_def Let_def)
  show ?case using Cons.IH [of "cb_failure t b"] Cons.prems by (simp add: f)
qed

subsection \<open>Laws of the budget\<close>

text \<open>Input, output and cost stay within their limits; the total does when no count is negative.\<close>

definition budget_ok :: "token_budget \<Rightarrow> bool" where
  "budget_ok b \<longleftrightarrow> \<not> over (tb_max_input b) (tb_input b) \<and> \<not> over (tb_max_output b) (tb_output b)
     \<and> \<not> over_cost (tb_max_cost b) (tb_cost b) \<and> wf_float (tb_cost b)"

definition same_limits :: "token_budget \<Rightarrow> token_budget \<Rightarrow> bool" where
  "same_limits b b' \<longleftrightarrow> tb_max_input b' = tb_max_input b \<and> tb_max_output b' = tb_max_output b
     \<and> tb_max_total b' = tb_max_total b \<and> tb_max_cost b' = tb_max_cost b"

lemma same_limits_refl [simp]: "same_limits b b"
  by (simp add: same_limits_def)

lemma same_limits_trans: "same_limits a b \<Longrightarrow> same_limits b c \<Longrightarrow> same_limits a c"
  by (simp add: same_limits_def)

lemma f_add_py_max0: "wf_float c \<Longrightarrow> f_add c (py_max (Fin 0) x) = (if f_lt (Fin 0) x then f_add c x else c)"
  by (simp add: py_max_def)

lemma budget_reserve_ok:
  assumes "budget_reserve b i out cost = Inr b'" and "budget_ok b"
  shows "budget_ok b'" and "same_limits b b'"
proof -
  have chk: "\<not> over (tb_max_input b) (tb_input b + i)" "\<not> over (tb_max_output b) (tb_output b + out)"
    "\<not> over_cost (tb_max_cost b) (f_add (tb_cost b) cost)"
    and b': "b' = b\<lparr>tb_input := tb_input b + max 0 i, tb_output := tb_output b + max 0 out,
            tb_cost := f_add (tb_cost b) (py_max (Fin 0) cost)\<rparr>"
    using assms(1) by (auto simp: budget_reserve_def budget_check_def bindR_Inr_iff split: if_splits)
  show "same_limits b b'" by (simp add: b' same_limits_def)
  show "budget_ok b'" using assms(2) chk
    by (auto simp: budget_ok_def b' f_add_py_max0 over_def over_cost_def max_def wf_f_add split: option.splits)
qed

lemma budget_reserve_total:
  assumes "budget_reserve b i out cost = Inr b'" and "0 \<le> i" and "0 \<le> out"
  shows "\<not> over (tb_max_total b') (tb_total b')"
  using assms by (auto simp: budget_reserve_def budget_check_def bindR_Inr_iff tb_total_def add_ac split: if_splits)

lemma budget_reserve_Inl: "budget_reserve b i out cost = Inl e \<Longrightarrow> exc_class e = ''BudgetExceededError''"
  by (auto simp: budget_reserve_def budget_check_def bindR_Inl_iff split: if_splits)

subsection \<open>Laws of the gateway\<close>

text \<open>The budget is only ever changed by successful reservations.\<close>

definition budget_step :: "token_budget \<Rightarrow> token_budget \<Rightarrow> bool" where
  "budget_step b b' \<longleftrightarrow> (budget_ok b \<longrightarrow> budget_ok b') \<and> same_limits b b'"

lemma budget_step_refl [simp]: "budget_step b b"
  by (simp add: budget_step_def)

lemma budget_step_trans: "budget_step a b \<Longrightarrow> budget_step b c \<Longrightarrow> budget_step a c"
  by (auto simp: budget_step_def intro: same_limits_trans)

lemma set_breaker_frame [simp]:
  "gs_budget (set_breaker n f s) = gs_budget s" "gs_world (set_breaker n f s) = gs_world s"
  "gs_in (set_breaker n f s) = gs_in s" "gs_out (set_breaker n f s) = gs_out s" "gs_cost (set_breaker n f s) = gs_cost s"
  by (simp_all add: set_breaker_def)

lemma accept_response_budget:
  assumes "accept_response rq route t resp s = (r, s')"
  shows "budget_step (gs_budget s) (gs_budget s') \<and> gs_breakers s' = gs_breakers s \<and> gs_world s' = gs_world s"
  using assms budget_reserve_ok
  by (auto simp: accept_response_def budget_charge_def budget_step_def Let_def budget_reserve_def bindR_Inr_iff same_limits_def
      split: sum.splits)

lemma attempt_loop_cases:
  assumes "attempt_loop env rp rq route left payload s = (r, s')"
  obtains (refused) "s' = s"
    | (called) w o1 where "retry_call (ge_invoke env route payload) rp (ge_sleep env) retryable (ge_random env) (gs_world s) = (o1, w)"
        and "s' = s\<lparr>gs_world := w\<rparr>"
    | (answered) w o1 n resp ro s1 where
        "retry_call (ge_invoke env route payload) rp (ge_sleep env) retryable (ge_random env) (gs_world s) = (o1, w)"
        and "accept_response rq route n resp (s\<lparr>gs_world := w\<rparr>) = (ro, s1)"
        and "s' = s1 \<or> s' = set_breaker (mr_name route) cb_success s1
          \<or> (\<exists>l p. left = Suc l \<and> attempt_loop env rp rq route l p s1 = (r, s'))"
proof -
  obtain o1 w where o: "retry_call (ge_invoke env route payload) rp (ge_sleep env) retryable (ge_random env) (gs_world s) = (o1, w)"
    by fastforce
  define n where "n = estimate_tokens payload"
  show ?thesis
  proof (cases "\<exists>e. budget_check (gs_budget s) n (max 0 (rq_max_tokens rq)) (route_cost route n (max 0 (rq_max_tokens rq))) = Inl e")
    case True
    then show ?thesis using assms refused by (subst (asm) attempt_loop.simps) (auto simp: n_def Let_def)
  next
    case False
    then have ok: "budget_check (gs_budget s) n (max 0 (rq_max_tokens rq)) (route_cost route n (max 0 (rq_max_tokens rq))) = Inr ()"
      by (cases "budget_check (gs_budget s) n (max 0 (rq_max_tokens rq)) (route_cost route n (max 0 (rq_max_tokens rq)))") auto
    show ?thesis
    proof (cases "\<exists>resp. o1 = Inr (VDict resp)")
      case False
      then show ?thesis using assms called [OF o] ok o
        by (subst (asm) attempt_loop.simps) (auto simp: n_def [symmetric] Let_def split: sum.splits pyval.splits)
    next
      case True
      then obtain resp where resp: "o1 = Inr (VDict resp)" by auto
      obtain ro s1 where a: "accept_response rq route n resp (s\<lparr>gs_world := w\<rparr>) = (ro, s1)" by fastforce
      have "s' = s1 \<or> s' = set_breaker (mr_name route) cb_success s1
          \<or> (\<exists>l p. left = Suc l \<and> attempt_loop env rp rq route l p s1 = (r, s'))"
        using assms ok o resp a
        by (subst (asm) attempt_loop.simps) (auto simp: n_def [symmetric] Let_def split: sum.splits nat.splits if_splits)
      then show ?thesis using answered [OF o a] by blast
    qed
  qed
qed

lemma try_route_cases:
  assumes "try_route env rp rq payload tokens route b s = (r, s')"
  obtains (refused) "s' = s" | (rejected) f where "s' = set_breaker (mr_name route) f s"
    | (tried) f left p where "left \<le> 1" and "attempt_loop env rp rq route left p (set_breaker (mr_name route) f s) = (r, s')"
  using assms by (fastforce simp: try_route_def Let_def split: sum.splits prod.splits if_splits)

text \<open>
  The contract of a relation between the states before and after a call: reflexive, transitive,
  kept by the world moving on, by an accepted or refused response and by any change of a breaker.
  A complete call then satisfies it.
\<close>

locale call_relation =
  fixes rq :: model_request
    and R :: "'w call_state \<Rightarrow> 'w call_state \<Rightarrow> bool"
  assumes R_refl: "R s s"
    and R_trans: "R s t \<Longrightarrow> R t u \<Longrightarrow> R s u"
    and R_world: "R s (s\<lparr>gs_world := w\<rparr>)"
    and R_breaker: "R s (set_breaker n f s)"
    and R_accept: "accept_response rq route n_in resp s = (r, s') \<Longrightarrow> R s s'"
begin

lemma R_attempt: "attempt_loop env rp rq route left payload s = (r, s') \<Longrightarrow> R s s'"
proof (induction left arbitrary: payload s rule: less_induct)
  case (less left)
  from less.prems show ?case
  proof (cases rule: attempt_loop_cases)
    case refused
    then show ?thesis by (simp add: R_refl)
  next
    case (called w o1)
    then show ?thesis by (simp add: R_world)
  next
    case (answered w o1 n resp ro s1)
    have 1: "R s s1" using R_world R_accept [OF answered(2)] by (rule R_trans)
    from answered(3) show ?thesis
    proof (elim disjE exE conjE)
      fix l p
      assume "left = Suc l" "attempt_loop env rp rq route l p s1 = (r, s')"
      then show ?thesis using R_trans [OF 1] less.IH [of l p s1] by simp
    qed (use 1 R_breaker R_trans in blast)+
  qed
qed

lemma R_try: "try_route env rp rq payload tokens route b s = (r, s') \<Longrightarrow> R s s'"
  by (erule try_route_cases) (use R_refl R_breaker R_trans R_attempt in blast)+

lemma R_routes: "route_loop env rp rq payload tokens prev routes s = (r, s') \<Longrightarrow> R s s'"
proof (induction routes arbitrary: prev s)
  case Nil
  then show ?case using R_refl by auto
next
  case (Cons route routes)
  show ?case
  proof (cases "gs_breakers s (mr_name route)")
    case None
    then show ?thesis using Cons.prems R_refl by auto
  next
    case (Some b)
    obtain o1 s1 where t: "try_route env rp rq payload tokens route b s = (o1, s1)" by fastforce
    have 1: "R s s1" by (rule R_try [OF t])
    have 2: "R s s'" if "route_loop env rp rq payload tokens p routes (set_breaker n f s1) = (r, s')" for p n f
      using 1 R_breaker [of s1 n f] Cons.IH [OF that] R_trans by blast
    have 3: "R s s'" if "route_loop env rp rq payload tokens p routes s1 = (r, s')" for p
      using 1 Cons.IH [OF that] R_trans by blast
    show ?thesis using Cons.prems Some t 1 2 3 by (auto split: sum.splits if_splits)
  qed
qed

lemma R_complete:
  assumes "gateway_complete env gw rq w = (r, s')"
  shows "R \<lparr>gs_breakers = gw_breakers gw, gs_budget = (case rq_budget rq of None \<Rightarrow> gw_budget gw | Some b \<Rightarrow> b), gs_world = w,
        gs_in = 0, gs_out = 0, gs_cost = Fin 0\<rparr> s'"
  using assms unfolding gateway_complete_def by (rule R_routes)

end

interpretation spend: call_relation rq "\<lambda>s s'. budget_step (gs_budget s) (gs_budget s')" for rq
  by unfold_locales (auto intro: budget_step_trans dest: accept_response_budget)



















subsection \<open>Counting provider calls\<close>

definition counts :: "'w gateway_env \<Rightarrow> ('w \<Rightarrow> nat) \<Rightarrow> bool" where
  "counts env cnt \<longleftrightarrow> (\<forall>r p w. cnt (snd (ge_invoke env r p w)) \<le> cnt w + 1) \<and> (\<forall>d w. cnt (ge_sleep env d w) = cnt w)"

lemma retry_loop_count:
  assumes "\<And>w. cnt (snd (op w)) \<le> cnt w + (1::nat)" and "\<And>d w. cnt (sleeper d w) = cnt w"
  shows "retry_loop op p sleeper rif rnd a left w = (r, w') \<Longrightarrow> cnt w' \<le> cnt w + left + 1"
proof (induction left arbitrary: a w)
  case 0
  then show ?case using assms(1) [of w] by (subst (asm) retry_loop.simps) (auto split: prod.splits sum.splits)
next
  case (Suc left)
  obtain o1 w1 where o: "op w = (o1, w1)" by fastforce
  have "cnt w1 \<le> cnt w + 1" using assms(1) [of w] o by simp
  then show ?case
    using Suc o assms(2) by (subst (asm) retry_loop.simps) (fastforce split: prod.splits sum.splits if_splits)
qed

lemma max_attempts_pos: "0 < max_attempts p"
  by (simp add: max_attempts_def)

lemma attempt_loop_count:
  assumes "counts env cnt"
  shows "attempt_loop env rp rq route left payload s = (r, s') \<Longrightarrow>
    cnt (gs_world s') \<le> cnt (gs_world s) + (left + 1) * max_attempts rp"
proof (induction left arbitrary: payload s rule: less_induct)
  case (less left)
  have w1: "cnt w \<le> cnt (gs_world s) + max_attempts rp"
    if "retry_call (ge_invoke env route payload) rp (ge_sleep env) retryable (ge_random env) (gs_world s) = (o1, w)" for o1 w
    using retry_loop_count [of cnt "ge_invoke env route payload" "ge_sleep env"] assms that max_attempts_pos [of rp]
    unfolding retry_call_def counts_def by fastforce
  from less.prems show ?case
  proof (cases rule: attempt_loop_cases)
    case refused
    then show ?thesis by simp
  next
    case (called w o1)
    then show ?thesis using w1 [OF called(1)] by simp
  next
    case (answered w o1 n resp ro s1)
    have s1: "gs_world s1 = w" using accept_response_budget [OF answered(2)] by simp
    from answered(3) show ?thesis
    proof (elim disjE exE conjE)
      fix l p
      assume l: "left = Suc l" "attempt_loop env rp rq route l p s1 = (r, s')"
      then have "cnt (gs_world s') \<le> cnt w + (l + 1) * max_attempts rp" using less.IH [of l p s1] s1 by simp
      then show ?thesis using w1 [OF answered(1)] l(1) by simp
    qed (use s1 w1 [OF answered(1)] in simp_all)
  qed
qed

lemma try_route_count:
  assumes "counts env cnt" and "try_route env rp rq payload tokens route b s = (r, s')"
  shows "cnt (gs_world s') \<le> cnt (gs_world s) + 2 * max_attempts rp"
  using assms(2)
proof (cases rule: try_route_cases)
  case (tried f left p)
  then have "cnt (gs_world s') \<le> cnt (gs_world s) + (left + 1) * max_attempts rp"
    using attempt_loop_count [OF assms(1) tried(2)] by simp
  also have "\<dots> \<le> cnt (gs_world s) + 2 * max_attempts rp" using tried(1) by (simp add: mult_le_mono)
  finally show ?thesis .
qed simp_all

lemma route_loop_count:
  assumes "counts env cnt"
  shows "route_loop env rp rq payload tokens prev routes s = (r, s') \<Longrightarrow>
    cnt (gs_world s') \<le> cnt (gs_world s) + length routes * (2 * max_attempts rp)"
proof (induction routes arbitrary: prev s)
  case Nil
  then show ?case by auto
next
  case (Cons route routes)
  show ?case
  proof (cases "gs_breakers s (mr_name route)")
    case None
    then show ?thesis using Cons.prems by auto
  next
    case (Some b)
    obtain o1 s1 where t: "try_route env rp rq payload tokens route b s = (o1, s1)" by fastforce
    have 1: "cnt (gs_world s1) \<le> cnt (gs_world s) + 2 * max_attempts rp" by (rule try_route_count [OF assms t])
    have 2: "cnt (gs_world s') \<le> cnt (gs_world s1) + length routes * (2 * max_attempts rp)"
      if "route_loop env rp rq payload tokens p routes t = (r, s')" "gs_world t = gs_world s1" for p t
      using Cons.IH [OF that(1)] that(2) by simp
    have 3: "x \<le> cnt (gs_world s1) + length routes * (2 * max_attempts rp) \<Longrightarrow>
        x \<le> cnt (gs_world s) + length (route # routes) * (2 * max_attempts rp)" for x
      using 1 by simp
    show ?thesis using Cons.prems Some t
      by (auto split: sum.splits if_splits intro!: 3 [simplified] intro: 2 dest: 2)
  qed
qed

subsection \<open>Properties\<close>

text \<open>
  A scripted world for the witnesses: the answers still to come, and the calls made. An
  exhausted script answers with a connection error.
\<close>

definition scripted_env :: "((call_error + pyval) list \<times> nat) gateway_env" where
  "scripted_env = \<lparr>ge_invoke = (\<lambda>r p (answers, n). case answers of
        [] \<Rightarrow> (Inl \<lparr>ce_exc = RuntimeError ''unreachable'', ce_retryable = False, ce_status = Some 503, ce_retry_after = None\<rparr>, ([], n + 1))
      | a # rest \<Rightarrow> (a, (rest, n + 1))),
     ge_clock = (\<lambda>_. Fin 100), ge_sleep = (\<lambda>_ w. w), ge_random = (\<lambda>_. Fin 0)\<rparr>"

definition example_route :: "string \<Rightarrow> model_route" where
  "example_route name = \<lparr>mr_name = name, mr_provider = None, mr_model = Some ''m'', mr_version = None, mr_cost_in = Fin 0, mr_cost_out = Fin 0\<rparr>"

definition example_gateway :: model_gateway where
  "example_gateway = \<lparr>gw_primary = example_route ''primary'', gw_fallback = Some (example_route ''fallback''),
     gw_retry = default_retry, gw_breakers = [''primary'' \<mapsto> new_breaker 3 (Fin 30), ''fallback'' \<mapsto> new_breaker 3 (Fin 30)],
     gw_budget = new_budget (Some 1000) (Some 5000) None None\<rparr>"

definition example_request :: model_request where
  "example_request = \<lparr>rq_messages = [chat_message ''user'' ''hi''], rq_prompt = None, rq_system = None, rq_model = None,
     rq_temperature = Fin 0, rq_max_tokens = 100, rq_response_format = None, rq_schema = None, rq_trace_headers = VDict [],
     rq_extra = [], rq_budget = None\<rparr>"

definition usage_answer :: "int \<Rightarrow> int \<Rightarrow> (string \<times> pyval) list" where
  "usage_answer i out = [(''usage'', VDict [(''prompt_tokens'', VInt i), (''completion_tokens'', VInt out)])]"

text \<open>C7: A circuit breaker in use never loses its shape: after any sequence of admissions,
  successes and failures it is closed with fewer failures than its threshold, or it has an
  opening time; while it is open and its recovery time has not elapsed every admission is refused
  and leaves it unchanged, so refused calls do not postpone the recovery; and a failure of the
  half-open probe opens it again at once.\<close>

theorem breaker_state_machine:
  fixes b :: circuit_breaker
  assumes "b = foldl cb_step (new_breaker n r) es"
  shows "(cb_state b = CLOSED \<longrightarrow> cb_failures b < cb_threshold b)
    \<and> (cb_state b \<noteq> CLOSED \<longrightarrow> cb_opened_at b \<noteq> None)
    \<and> (\<forall>t now. cb_state b = OPEN \<longrightarrow> cb_opened_at b = Some t \<longrightarrow> \<not> f_le (cb_recovery b) (f_sub now t) \<longrightarrow> cb_allow now b = (False, b))
    \<and> (\<forall>t now. cb_state b = OPEN \<longrightarrow> cb_opened_at b = Some t \<longrightarrow> f_le (cb_recovery b) (f_sub now t)
         \<longrightarrow> cb_allow now b = (True, b\<lparr>cb_state := HALF_OPEN\<rparr>))
    \<and> (\<forall>now. cb_state b = HALF_OPEN \<longrightarrow> cb_state (cb_failure now b) = OPEN \<and> cb_opened_at (cb_failure now b) = Some now)
    \<and> cb_state (cb_success b) = CLOSED \<and> cb_failures (cb_success b) = 0"
proof -
  have "breaker_wf b" unfolding assms by (intro cb_steps_wf new_breaker_wf)
  then show ?thesis
    by (auto simp: breaker_wf_def cb_allow_def cb_failure_def cb_success_def Let_def)
qed

lemma breaker_state_machine_witness:
  "cb_allow (Fin 20) (foldl cb_step (new_breaker 2 (Fin 30)) [CallFailed (Fin 1), CallFailed (Fin 2)])
     = (False, foldl cb_step (new_breaker 2 (Fin 30)) [CallFailed (Fin 1), CallFailed (Fin 2)])"
proof -
  define b where "b = foldl cb_step (new_breaker 2 (Fin 30)) [CallFailed (Fin 1), CallFailed (Fin 2)]"
  have "cb_state b = OPEN" "cb_opened_at b = Some (Fin 2)" "\<not> f_le (cb_recovery b) (f_sub (Fin 20) (Fin 2))"
    unfolding b_def by code_simp+
  then show ?thesis using breaker_state_machine [OF b_def] by (simp add: b_def)
qed

text \<open>A closed breaker opens on exactly the failure that reaches its threshold: with fewer
  consecutive failures it stays closed, with one more it is open since that failure.\<close>

theorem breaker_opens_at_threshold:
  assumes "length ts < nat (max 1 n)"
  shows "foldl (\<lambda>b t. cb_failure t b) (new_breaker n r) ts = (new_breaker n r)\<lparr>cb_failures := int (length ts)\<rparr>
    \<and> (cb_state (cb_failure now (foldl (\<lambda>b t. cb_failure t b) (new_breaker n r) ts)) = OPEN \<longleftrightarrow> int (length ts) + 1 = max 1 n)"
proof -
  have "foldl (\<lambda>b t. cb_failure t b) (new_breaker n r) ts = (new_breaker n r)\<lparr>cb_failures := int (length ts)\<rparr>"
    using cb_failures_count [of "new_breaker n r" ts] assms by (simp add: new_breaker_def)
  then show ?thesis using assms by (auto simp: cb_failure_def new_breaker_def Let_def)
qed

lemma breaker_opens_at_threshold_witness:
  "cb_state (cb_failure (Fin 3) (foldl (\<lambda>b t. cb_failure t b) (new_breaker 3 (Fin 30)) [Fin 1, Fin 2])) = OPEN"
  using breaker_opens_at_threshold [of "[Fin 1, Fin 2]" 3 "Fin 30" "Fin 3"] by auto

text \<open>The retry loop calls the operation at most \<open>max(1, max_attempts)\<close> times, and when it
  returns an error it has used every attempt or met an error that may not be retried.\<close>

theorem retry_call_bounded:
  fixes cnt :: "'w \<Rightarrow> nat"
  assumes "\<And>w. cnt (snd (op w)) = cnt w + 1" and "\<And>d w. cnt (sleeper d w) = cnt w"
    and "retry_call op p sleeper rif rnd w = (r, w')"
  shows "cnt w' \<le> cnt w + max_attempts p \<and> cnt w < cnt w'
    \<and> (\<forall>e. r = Inl e \<longrightarrow> cnt w' = cnt w + max_attempts p \<or> \<not> rif e)"
proof -
  have "retry_loop op p sleeper rif rnd a left w = (r, w') \<Longrightarrow> cnt w' \<le> cnt w + left + 1 \<and> cnt w < cnt w'
      \<and> (\<forall>e. r = Inl e \<longrightarrow> cnt w' = cnt w + left + 1 \<or> \<not> rif e)" for a left w
  proof (induction left arbitrary: a w)
    case 0
    then show ?case using assms(1) [of w] by (subst (asm) retry_loop.simps) (auto split: prod.splits sum.splits)
  next
    case (Suc left)
    obtain o1 w1 where o: "op w = (o1, w1)" by fastforce
    have w1: "cnt w1 = cnt w + 1" using assms(1) [of w] o by simp
    have ih: "retry_loop op p sleeper rif rnd (a + 1) left (sleeper d w1) = (r, w') \<Longrightarrow> cnt w' \<le> cnt w1 + left + 1
        \<and> cnt w1 < cnt w' \<and> (\<forall>e. r = Inl e \<longrightarrow> cnt w' = cnt w1 + left + 1 \<or> \<not> rif e)" for d
      using Suc.IH [of "a + 1" "sleeper d w1"] assms(2) by simp
    show ?case using Suc.prems o w1 ih
      by (subst (asm) retry_loop.simps) (fastforce split: sum.splits if_splits)
  qed
  then show ?thesis using assms(3) max_attempts_pos [of p] unfolding retry_call_def by fastforce
qed

definition failing_op :: "nat \<Rightarrow> (call_error + nat) \<times> nat" where
  "failing_op w = (Inl \<lparr>ce_exc = RuntimeError ''busy'', ce_retryable = False, ce_status = Some 429, ce_retry_after = None\<rparr>, w + 1)"

lemma retry_call_bounded_witness:
  "snd (retry_call failing_op default_retry (\<lambda>_ w. w) retryable (\<lambda>_. Fin 0) 0) = 3"
proof -
  obtain r w where rw: "retry_call failing_op default_retry (\<lambda>_ w. w) retryable (\<lambda>_. Fin 0) 0 = (r, w)" by fastforce
  have "r = Inl \<lparr>ce_exc = RuntimeError ''busy'', ce_retryable = False, ce_status = Some 429, ce_retry_after = None\<rparr>"
    using rw by (simp add: retry_call_def max_attempts_def default_retry_def failing_op_def retryable_def retry_loop.simps numeral_eq_Suc)
  then show ?thesis using retry_call_bounded [of "\<lambda>w. w" failing_op "\<lambda>_ w. w", OF _ _ rw] rw
    by (auto simp: failing_op_def retryable_def max_attempts_def default_retry_def)
qed

text \<open>A budget within its limits stays within them through any complete call, whatever the
  providers answer: charged input tokens, output tokens and cost never exceed their limits, and the
  limits themselves do not change.\<close>

theorem gateway_respects_budget:
  assumes "gateway_complete env gw rq w = (r, s)"
    and "budget_ok (case rq_budget rq of None \<Rightarrow> gw_budget gw | Some b \<Rightarrow> b)"
  shows "budget_ok (gs_budget s) \<and> same_limits (case rq_budget rq of None \<Rightarrow> gw_budget gw | Some b \<Rightarrow> b) (gs_budget s)"
  using spend.R_complete [OF assms(1)] assms(2) by (simp add: budget_step_def)

lemma gateway_respects_budget_witness:
  "budget_ok (gs_budget (snd (gateway_complete scripted_env example_gateway example_request ([Inr (VDict (usage_answer 7 5))], 0))))"
proof -
  obtain r s where rs: "gateway_complete scripted_env example_gateway example_request ([Inr (VDict (usage_answer 7 5))], 0) = (r, s)"
    by fastforce
  have "budget_ok (gw_budget example_gateway)" "rq_budget example_request = None"
    by (simp_all add: budget_ok_def example_gateway_def new_budget_def over_def over_cost_def example_request_def)
  then show ?thesis using gateway_respects_budget [OF rs] rs by simp
qed



text \<open>C8: One complete call makes at most \<open>2 * max_attempts\<close> provider calls per route: the
  retries, doubled by the one structured-output repair.\<close>

theorem gateway_calls_bounded:
  assumes "counts env cnt" and "gateway_complete env gw rq w = (r, s)"
  shows "cnt (gs_world s) \<le> cnt w + length (router_routes gw) * (2 * max_attempts (gw_retry gw)) \<and> length (router_routes gw) \<le> 2"
  using route_loop_count [OF assms(1) assms(2) [unfolded gateway_complete_def]]
  by (simp add: router_routes_def split: option.splits)

lemma gateway_calls_bounded_witness:
  "snd (gs_world (snd (gateway_complete scripted_env example_gateway example_request ([], 0)))) \<le> 12"
proof -
  obtain r s where rs: "gateway_complete scripted_env example_gateway example_request ([], 0) = (r, s)" by fastforce
  have c: "counts scripted_env snd" by (auto simp: counts_def scripted_env_def split: list.splits)
  show ?thesis using gateway_calls_bounded [OF c rs] rs
    by (simp add: router_routes_def example_gateway_def max_attempts_def default_retry_def)
qed

text \<open>While every route's breaker is open and not yet due for a probe, a call reaches no
  provider: it fails, and the world, the breakers and the budget are as they were.\<close>

theorem open_breakers_stop_calls:
  assumes "\<And>route. route \<in> set (router_routes gw) \<Longrightarrow> \<exists>b t. gw_breakers gw (mr_name route) = Some b \<and> cb_state b = OPEN
      \<and> cb_opened_at b = Some t \<and> \<not> f_le (cb_recovery b) (f_sub (ge_clock env w) t)"
    and "gateway_complete env gw rq w = (r, s)"
  shows "(\<exists>e. r = Inl e) \<and> gs_world s = w \<and> gs_breakers s = gw_breakers gw
    \<and> gs_budget s = (case rq_budget rq of None \<Rightarrow> gw_budget gw | Some b \<Rightarrow> b)"
proof -
  define s0 where "s0 = \<lparr>gs_breakers = gw_breakers gw, gs_budget = (case rq_budget rq of None \<Rightarrow> gw_budget gw | Some b \<Rightarrow> b),
     gs_world = w, gs_in = 0, gs_out = 0, gs_cost = Fin 0\<rparr>"
  have step: "try_route env rp rq payload tokens route b s0 = (o1, s1) \<Longrightarrow> s1 = s0 \<and> (\<exists>e. o1 = Inl e)"
    if "route \<in> set (router_routes gw)" "gs_breakers s0 (mr_name route) = Some b" for route b rp payload tokens o1 s1
  proof -
    have "\<exists>t. cb_state b = OPEN \<and> cb_opened_at b = Some t \<and> \<not> f_le (cb_recovery b) (f_sub (ge_clock env w) t)"
      using assms(1) [OF that(1)] that(2) by (auto simp: s0_def)
    then obtain t where b: "cb_state b = OPEN" "cb_opened_at b = Some t" "\<not> f_le (cb_recovery b) (f_sub (ge_clock env w) t)" by blast
    have e: "cb_before_call (ge_clock env (gs_world s0)) b = (Inl (PyExc ''CircuitOpenError'' ''circuit breaker is open''), b)"
      using b by (simp add: cb_before_call_def cb_allow_def s0_def)
    have same: "set_breaker (mr_name route) (\<lambda>_. b) s0 = s0"
      using that(2) by (simp add: set_breaker_def fun_upd_idem s0_def)
    show "try_route env rp rq payload tokens route b s0 = (o1, s1) \<Longrightarrow> s1 = s0 \<and> (\<exists>e. o1 = Inl e)"
      using same by (auto simp: try_route_def e Let_def split: sum.splits)
  qed
  have exc: "exc_class e \<in> {''BudgetExceededError'', ''CircuitOpenError''}"
    if "route \<in> set (router_routes gw)" "gs_breakers s0 (mr_name route) = Some b" "try_route env rp rq payload tokens route b s0 = (Inl e, s1)"
    for route b rp payload tokens e s1
  proof -
    have "\<exists>t. cb_state b = OPEN \<and> cb_opened_at b = Some t \<and> \<not> f_le (cb_recovery b) (f_sub (ge_clock env w) t)"
      using assms(1) [OF that(1)] that(2) by (auto simp: s0_def)
    then have "cb_before_call (ge_clock env (gs_world s0)) b = (Inl (PyExc ''CircuitOpenError'' ''circuit breaker is open''), b)"
      by (auto simp: cb_before_call_def cb_allow_def s0_def)
    then show ?thesis using that(3)
      by (auto simp: try_route_def Let_def budget_check_def split: sum.splits if_splits)
  qed
  have "route_loop env rp rq payload tokens prev routes s0 = (r, s) \<Longrightarrow> set routes \<subseteq> set (router_routes gw) \<Longrightarrow>
      s = s0 \<and> (\<exists>e. r = Inl e)" for rp payload tokens prev routes
  proof (induction routes arbitrary: prev)
    case Nil
    then show ?case by auto
  next
    case (Cons route routes)
    obtain b where b: "gs_breakers s0 (mr_name route) = Some b"
      using assms(1) [of route] Cons.prems(2) by (auto simp: s0_def)
    obtain o1 s1 where t: "try_route env rp rq payload tokens route b s0 = (o1, s1)" by fastforce
    obtain e where e: "s1 = s0" "o1 = Inl e" using step [OF _ b t] Cons.prems(2) by auto
    have "exc_class e \<in> {''BudgetExceededError'', ''CircuitOpenError''}"
      using exc [OF _ b] t e Cons.prems(2) by auto
    then show ?case using Cons b t e by (auto split: if_splits)
  qed
  from this [OF assms(2) [unfolded gateway_complete_def, folded s0_def]] show ?thesis by (simp add: s0_def)
qed

definition tripped_breaker :: circuit_breaker where
  "tripped_breaker = (new_breaker 3 (Fin 30))\<lparr>cb_state := OPEN, cb_failures := 3, cb_opened_at := Some (Fin 90)\<rparr>"

definition tripped_gateway :: model_gateway where
  "tripped_gateway = example_gateway\<lparr>gw_breakers := [''primary'' \<mapsto> tripped_breaker, ''fallback'' \<mapsto> tripped_breaker]\<rparr>"

lemma open_breakers_stop_calls_witness:
  "snd (gs_world (snd (gateway_complete scripted_env tripped_gateway example_request ([Inr VNone], 0)))) = 0"
proof -
  obtain r s where rs: "gateway_complete scripted_env tripped_gateway example_request ([Inr VNone], 0) = (r, s)" by fastforce
  have "\<not> f_le (cb_recovery tripped_breaker) (f_sub (Fin 100) (Fin 90))" by code_simp
  then have "\<exists>b t. gw_breakers tripped_gateway (mr_name route) = Some b \<and> cb_state b = OPEN
      \<and> cb_opened_at b = Some t \<and> \<not> f_le (cb_recovery b) (f_sub (ge_clock scripted_env ([Inr VNone], 0)) t)"
    if "route \<in> set (router_routes tripped_gateway)" for route
    using that by (auto simp: router_routes_def tripped_gateway_def example_gateway_def example_route_def scripted_env_def tripped_breaker_def)
  from open_breakers_stop_calls [OF this rs] rs show ?thesis by simp
qed

text \<open>A response whose use exceeds the budget is not charged at all: the charge is refused by
  the check, so the call ends with a budget error and the budget is what it was before the
  response, although the provider has answered.\<close>

theorem overrun_is_not_charged:
  assumes "response_input_tokens resp n = Inr i" and "response_output_tokens resp = Inr out"
    and "budget_check (gs_budget s) i out (route_cost route i out) = Inl e"
  shows "accept_response rq route n resp s = (Inl e, s) \<and> exc_class e = ''BudgetExceededError''"
  using assms by (auto simp: accept_response_def budget_charge_def budget_reserve_def Let_def budget_check_def split: if_splits)

definition fresh_call_state :: "nat call_state" where
  "fresh_call_state = \<lparr>gs_breakers = Map.empty, gs_budget = new_budget (Some 10) None None None, gs_world = 0, gs_in = 0, gs_out = 0, gs_cost = Fin 0\<rparr>"

lemma overrun_is_not_charged_witness:
  "tb_input (gs_budget (snd (accept_response example_request (example_route ''primary'') 3 (usage_answer 50 5) fresh_call_state))) = 0"
proof -
  have r: "response_input_tokens (usage_answer 50 5) 3 = Inr 50" "response_output_tokens (usage_answer 50 5) = Inr 5"
    by (simp_all add: response_input_tokens_def response_output_tokens_def usage_of_def usage_answer_def first_truthy_def py_or_def py_int_def)
  have "budget_check (gs_budget fresh_call_state) 50 5 (route_cost (example_route ''primary'') 50 5) = Inl (BudgetExceeded ''input token budget exceeded'')"
    by (simp add: budget_check_def fresh_call_state_def new_budget_def over_def)
  from overrun_is_not_charged [OF r this, of example_request] show ?thesis
    by (simp add: fresh_call_state_def new_budget_def)
qed

end
