(* ===== verification/JobQueue.thy ===== *)
theory JobQueue
  imports PyVal
begin

text \<open>
  The durable job queue: the \<open>job_task\<close> table with the statements of
  \<open>storage/repositories/job_repository.py\<close>, and the worker of \<open>workers/job_worker.py\<close>. The table is
  a list of rows; an \<open>UPDATE ... WHERE\<close> is \<open>update_rows\<close>, which also returns the row count, and a
  comparison with SQL's NULL is false. Times are integers (microseconds); \<open>now\<close>, fresh identifiers and
  lease tokens are arguments. The unique index on the idempotency key is that of migration
  \<open>006_v21_governance_schema.sql\<close>. Job payloads are kept as values, not as their JSON text.
\<close>

subsection \<open>The table\<close>

record job_row =
  jb_id :: string
  jb_task_type :: string
  jb_payload :: pyval
  jb_status :: string
  jb_progress :: pyfloat
  jb_result_ref :: "string option"
  jb_error :: pyval
  jb_retry_count :: int
  jb_max_retries :: int
  jb_idempotency_key :: "string option"
  jb_worker :: "string option"
  jb_lease_token :: "string option"
  jb_lease_version :: int
  jb_created_at :: int
  jb_started_at :: "int option"
  jb_heartbeat_at :: "int option"
  jb_finished_at :: "int option"
  jb_not_before :: "int option"

type_synonym job_table = "job_row list"

definition update_rows :: "(job_row \<Rightarrow> bool) \<Rightarrow> (job_row \<Rightarrow> job_row) \<Rightarrow> job_table \<Rightarrow> bool \<times> job_table" where
  "update_rows p f t = (\<exists>r \<in> set t. p r, map (\<lambda>r. if p r then f r else r) t)"

definition job_get :: "job_table \<Rightarrow> string \<Rightarrow> job_row option" where
  "job_get t i = first_such (\<lambda>r. jb_id r = i) t"

definition job_get_by_key :: "job_table \<Rightarrow> string \<Rightarrow> job_row option" where
  "job_get_by_key t k = first_such (\<lambda>r. jb_idempotency_key r = Some k) t"

definition new_job :: "string \<Rightarrow> string \<Rightarrow> pyval \<Rightarrow> string option \<Rightarrow> int \<Rightarrow> int \<Rightarrow> int option \<Rightarrow> job_row" where
  "new_job i ty payload key max_retries now not_before = \<lparr>jb_id = i, jb_task_type = ty, jb_payload = payload, jb_status = ''PENDING'',
     jb_progress = Fin 0, jb_result_ref = None, jb_error = VNone, jb_retry_count = 0, jb_max_retries = max_retries,
     jb_idempotency_key = key, jb_worker = None, jb_lease_token = None, jb_lease_version = 0, jb_created_at = now,
     jb_started_at = None, jb_heartbeat_at = None, jb_finished_at = None, jb_not_before = not_before\<rparr>"

definition job_insert :: "job_table \<Rightarrow> job_row \<Rightarrow> job_row result \<times> job_table" where
  "job_insert t r = (if (\<exists>q \<in> set t. jb_id q = jb_id r) \<or> jb_idempotency_key r \<noteq> None \<and> (\<exists>q \<in> set t. jb_idempotency_key q = jb_idempotency_key r)
     then (Inl (PyExc ''IntegrityError'' ''UNIQUE constraint failed''), t) else (Inr r, t @ [r]))"

definition job_create ::
  "job_table \<Rightarrow> string \<Rightarrow> string \<Rightarrow> pyval \<Rightarrow> string option \<Rightarrow> int \<Rightarrow> int \<Rightarrow> int option \<Rightarrow> job_row result \<times> job_table" where
  "job_create t fresh ty payload key max_retries now not_before =
     (case (if falsy_text key then None else job_get_by_key t (the key)) of
        Some r \<Rightarrow> (Inr r, t)
      | None \<Rightarrow> job_insert t (new_job fresh ty payload key max_retries now not_before))"

subsection \<open>Leases\<close>

definition lease_matches :: "string option \<Rightarrow> int option \<Rightarrow> job_row \<Rightarrow> bool" where
  "lease_matches token version r \<longleftrightarrow> (token = None \<or> jb_lease_token r = token) \<and> (version = None \<or> version = Some (jb_lease_version r))"

definition job_heartbeat ::
  "job_table \<Rightarrow> string \<Rightarrow> string \<Rightarrow> pyfloat option \<Rightarrow> string option \<Rightarrow> int option \<Rightarrow> int \<Rightarrow> bool \<times> job_table" where
  "job_heartbeat t i worker progress token version now =
     update_rows (\<lambda>r. jb_id r = i \<and> jb_status r = ''RUNNING'' \<and> jb_worker r = Some worker \<and> lease_matches token version r)
       (\<lambda>r. r\<lparr>jb_heartbeat_at := Some now, jb_progress := (case progress of None \<Rightarrow> jb_progress r | Some p \<Rightarrow> p)\<rparr>) t"

definition open_status :: "job_row \<Rightarrow> bool" where
  "open_status r \<longleftrightarrow> jb_status r \<in> {''PENDING'', ''FAILED_RETRYABLE''}"

definition lease_expired :: "int \<Rightarrow> job_row \<Rightarrow> bool" where
  "lease_expired cutoff r \<longleftrightarrow> jb_status r = ''RUNNING'' \<and> (\<exists>h \<in> set_option (jb_heartbeat_at r). h < cutoff)"

definition lease_cutoff :: "int \<Rightarrow> int \<Rightarrow> int" where
  "lease_cutoff now lease_seconds = now - max lease_seconds 1 * 1000000"

definition claimable :: "int \<Rightarrow> int \<Rightarrow> string list \<Rightarrow> job_row \<Rightarrow> bool" where
  "claimable now cutoff types r \<longleftrightarrow> (open_status r \<or> lease_expired cutoff r)
     \<and> (\<forall>nb \<in> set_option (jb_not_before r). nb \<le> now) \<and> (types = [] \<or> jb_task_type r \<in> set types)"

definition take_lease :: "string \<Rightarrow> string \<Rightarrow> int \<Rightarrow> job_row \<Rightarrow> job_row" where
  "take_lease worker token now r = r\<lparr>jb_status := ''RUNNING'', jb_worker := Some worker,
     jb_started_at := (case jb_started_at r of None \<Rightarrow> Some now | s \<Rightarrow> s), jb_heartbeat_at := Some now,
     jb_lease_token := Some token, jb_lease_version := jb_lease_version r + 1\<rparr>"

text \<open>
  The oldest claimable row; ties, which the SQL leaves open, go to the row inserted first. The
  SQLite path selects a row and then updates it if it is still open or expired, with other
  transactions possibly in between; the PostgreSQL statement does both at once.
\<close>

definition claim_select :: "job_table \<Rightarrow> int \<Rightarrow> int \<Rightarrow> string list \<Rightarrow> job_row option" where
  "claim_select t now lease_seconds types =
     (case sort_key jb_created_at (filter (claimable now (lease_cutoff now lease_seconds) types) t) of [] \<Rightarrow> None | r # _ \<Rightarrow> Some r)"

definition claim_update ::
  "job_table \<Rightarrow> job_row \<Rightarrow> string \<Rightarrow> string \<Rightarrow> int \<Rightarrow> int \<Rightarrow> job_row option \<times> job_table" where
  "claim_update t row worker token now lease_seconds =
     (case update_rows (\<lambda>r. jb_id r = jb_id row \<and> (open_status r \<or> lease_expired (lease_cutoff now lease_seconds) r))
             (take_lease worker token now) t of
        (hit, t') \<Rightarrow> (if hit then Some (take_lease worker token now row) else None, t'))"

definition job_claim_next ::
  "job_table \<Rightarrow> string \<Rightarrow> string list \<Rightarrow> int \<Rightarrow> string \<Rightarrow> int \<Rightarrow> job_row option \<times> job_table" where
  "job_claim_next t worker types lease_seconds token now =
     (case claim_select t now lease_seconds types of None \<Rightarrow> (None, t)
      | Some row \<Rightarrow> claim_update t row worker token now lease_seconds)"

definition job_claim :: "job_table \<Rightarrow> string \<Rightarrow> string \<Rightarrow> string \<Rightarrow> int \<Rightarrow> job_row option \<times> job_table" where
  "job_claim t i worker token now =
     (case update_rows (\<lambda>r. jb_id r = i \<and> open_status r)
             (\<lambda>r. (take_lease worker token now r)\<lparr>jb_started_at := Some now\<rparr>) t of
        (hit, t') \<Rightarrow> (if \<not> hit then None
          else (case job_get t' i of None \<Rightarrow> None | Some r \<Rightarrow> if jb_status r = ''RUNNING'' then Some r else None), t'))"

definition job_mark_running :: "job_table \<Rightarrow> string \<Rightarrow> string \<Rightarrow> int \<Rightarrow> job_table" where
  "job_mark_running t i worker now = snd (update_rows (\<lambda>r. jb_id r = i)
     (\<lambda>r. r\<lparr>jb_status := ''RUNNING'', jb_worker := Some worker, jb_started_at := Some now, jb_heartbeat_at := Some now\<rparr>) t)"

definition has_lease :: "job_table \<Rightarrow> string \<Rightarrow> string \<Rightarrow> string option \<Rightarrow> int option \<Rightarrow> bool" where
  "has_lease t i worker token version \<longleftrightarrow> \<not> falsy_text token \<and> version \<noteq> None \<and>
     (\<exists>r \<in> set t. jb_id r = i \<and> jb_status r = ''RUNNING'' \<and> jb_worker r = Some worker
        \<and> jb_lease_token r = token \<and> Some (jb_lease_version r) = version)"

definition owner_matches :: "string option \<Rightarrow> job_row \<Rightarrow> bool" where
  "owner_matches worker r \<longleftrightarrow> falsy_text worker \<or> jb_worker r = worker"

definition job_mark_finished ::
  "job_table \<Rightarrow> string \<Rightarrow> string \<Rightarrow> string option \<Rightarrow> pyval \<Rightarrow> string option \<Rightarrow> string option \<Rightarrow> int option \<Rightarrow> int \<Rightarrow> bool \<times> job_table" where
  "job_mark_finished t i status result_ref error worker token version now =
     update_rows (\<lambda>r. jb_id r = i \<and> jb_status r = ''RUNNING'' \<and> owner_matches worker r \<and> lease_matches token version r)
       (\<lambda>r. r\<lparr>jb_status := status, jb_result_ref := result_ref, jb_error := (if truthy error then error else VNone),
              jb_finished_at := Some now, jb_progress := (if status = ''SUCCEEDED'' then Fin 1 else Fin 0)\<rparr>) t"

text \<open>\<open>mark_failed\<close> reads the row, decides the new status, and updates in a second transaction.\<close>

definition fail_read :: "job_table \<Rightarrow> string \<Rightarrow> string option \<Rightarrow> string option \<Rightarrow> int option \<Rightarrow> (string \<times> int) option" where
  "fail_read t i worker token version = (case job_get t i of None \<Rightarrow> None
     | Some r \<Rightarrow> if \<not> owner_matches worker r \<or> \<not> lease_matches token version r then None
         else let n = jb_retry_count r + 1 in
           Some (if n \<le> jb_max_retries r then ''FAILED_RETRYABLE'' else ''FAILED_FINAL'', n))"

definition fail_write ::
  "job_table \<Rightarrow> string \<Rightarrow> string \<times> int \<Rightarrow> pyval \<Rightarrow> string option \<Rightarrow> string option \<Rightarrow> int option \<Rightarrow> int \<Rightarrow> bool \<times> job_table" where
  "fail_write t i verdict error worker token version now =
     update_rows (\<lambda>r. jb_id r = i \<and> jb_status r = ''RUNNING'' \<and> owner_matches worker r \<and> lease_matches token version r)
       (\<lambda>r. r\<lparr>jb_status := fst verdict, jb_error := error, jb_retry_count := snd verdict, jb_finished_at := Some now, jb_progress := Fin 0\<rparr>) t"

definition job_mark_failed ::
  "job_table \<Rightarrow> string \<Rightarrow> pyval \<Rightarrow> string option \<Rightarrow> string option \<Rightarrow> int option \<Rightarrow> int \<Rightarrow> bool \<times> job_table" where
  "job_mark_failed t i error worker token version now = (case fail_read t i worker token version of
     None \<Rightarrow> (False, t) | Some verdict \<Rightarrow> fail_write t i verdict error worker token version now)"

definition job_cancel :: "job_table \<Rightarrow> string \<Rightarrow> bool \<times> job_table" where
  "job_cancel t i = update_rows (\<lambda>r. jb_id r = i \<and> open_status r) (\<lambda>r. r\<lparr>jb_status := ''CANCELLED''\<rparr>) t"

subsection \<open>The worker\<close>

definition job_task_types :: "string list" where
  "job_task_types = [''memory_lifecycle_sweep'', ''memory_expire'', ''memory_revalidation'', ''decision_outcome'',
     ''decision_review'', ''retrieval_evaluation'']"

text \<open>
  \<open>process_one_job\<close> with its heartbeat context: \<open>handler\<close> runs a job on a payload, \<open>others k\<close> is what
  the other workers (and this worker's heartbeat thread) do to the table in the \<open>k\<close>-th gap between
  two statements of this worker. \<open>ensure_lease\<close> is called on entry of the context, after the
  handler and on exit. A heartbeat refused on entry has the effect of a lost lease.
\<close>

definition ensure_lease :: "job_table \<Rightarrow> bool \<Rightarrow> job_row \<Rightarrow> string \<Rightarrow> unit result" where
  "ensure_lease t lost task worker = (if lost then Inl (PyExc ''LeaseLostError'' (''job lease lost: task_id='' @ jb_id task))
     else if jb_lease_token task = None then Inr ()
     else if has_lease t (jb_id task) worker (jb_lease_token task) (Some (jb_lease_version task)) then Inr ()
     else Inl (PyExc ''LeaseLostError'' (''job lease lost: task_id='' @ jb_id task)))"

definition run_handler ::
  "(string \<Rightarrow> pyval \<Rightarrow> pyval result) \<Rightarrow> (nat \<Rightarrow> job_table \<Rightarrow> job_table) \<Rightarrow> job_row \<Rightarrow> string \<Rightarrow> int \<Rightarrow> job_table \<Rightarrow> pyval result \<times> job_table" where
  "run_handler handler others task worker now t =
     (case job_heartbeat t (jb_id task) worker None (jb_lease_token task) (Some (jb_lease_version task)) now of (alive, t1) \<Rightarrow>
        let t2 = others 1 t1; lost = (\<not> alive) in
        (case ensure_lease t2 lost task worker of Inl e \<Rightarrow> (Inl e, t2)
         | Inr _ \<Rightarrow> (case handler (jb_task_type task) (py_or (jb_payload task) (VDict [])) of
             Inl e \<Rightarrow> (Inl e, others 2 t2)
           | Inr v \<Rightarrow> (let t3 = others 2 t2 in case ensure_lease t3 lost task worker of Inl e \<Rightarrow> (Inl e, t3)
               | Inr _ \<Rightarrow> (let t4 = others 3 t3 in case ensure_lease t4 lost task worker of Inl e \<Rightarrow> (Inl e, t4)
                   | Inr _ \<Rightarrow> (Inr v, t4))))))"

definition error_value :: "exc \<Rightarrow> pyval" where
  "error_value e = VDict [(''code'', VStr (exc_class e)), (''message'', VStr (exc_message e))]"

definition claim_task ::
  "string \<Rightarrow> string option \<Rightarrow> string \<Rightarrow> int \<Rightarrow> job_table \<Rightarrow> job_row option \<times> job_table" where
  "claim_task worker job_id token now t = (if falsy_text job_id
     then job_claim_next t worker job_task_types 300 token now else job_claim t (the job_id) worker token now)"

definition run_task ::
  "(string \<Rightarrow> pyval \<Rightarrow> pyval result) \<Rightarrow> (nat \<Rightarrow> job_table \<Rightarrow> job_table) \<Rightarrow> job_row \<Rightarrow> string \<Rightarrow> int \<Rightarrow> job_table \<Rightarrow> pyval result \<times> job_table" where
  "run_task handler others task worker now t = (if jb_task_type task \<notin> set job_task_types
     then (Inl (ValueError (''unsupported task_type: '' @ jb_task_type task)), t)
     else run_handler handler others task worker now t)"

definition report_outcome :: "job_row \<Rightarrow> pyval result \<Rightarrow> string \<Rightarrow> int \<Rightarrow> job_table \<Rightarrow> bool \<times> job_table" where
  "report_outcome task outcome worker now t = (case outcome of
     Inr v \<Rightarrow> job_mark_finished t (jb_id task) ''SUCCEEDED'' (Some (json_spaced v)) VNone (Some worker)
                (jb_lease_token task) (Some (jb_lease_version task)) now
   | Inl e \<Rightarrow> job_mark_failed t (jb_id task) (error_value e) (Some worker)
                (jb_lease_token task) (Some (jb_lease_version task)) now)"

definition process_one_job ::
  "(string \<Rightarrow> pyval \<Rightarrow> pyval result) \<Rightarrow> (nat \<Rightarrow> job_table \<Rightarrow> job_table) \<Rightarrow> string \<Rightarrow> string option \<Rightarrow> string \<Rightarrow> (nat \<Rightarrow> int) \<Rightarrow> job_table \<Rightarrow> bool \<times> job_table" where
  "process_one_job handler others worker job_id token clock t =
     (case claim_task worker job_id token (clock 0) t of
        (None, t0) \<Rightarrow> (False, t0)
      | (Some task, t0) \<Rightarrow> (case run_task handler others task worker (clock 1) (others 0 t0) of
          (outcome, t2) \<Rightarrow> (True, snd (report_outcome task outcome worker (clock 2) (others 4 t2)))))"

subsection \<open>Sequences of operations\<close>

text \<open>
  The operations the workers and the callers perform; a worker finishes a job as SUCCEEDED. The whole interface of
  the repository, with \<open>mark_running\<close> and with \<open>mark_finished\<close> under any status, is \<open>repository_op\<close> below.
\<close>

datatype job_op =
    OpCreate string string pyval "string option" int int "int option"
  | OpClaimNext string "string list" int string int
  | OpClaim string string string int
  | OpHeartbeat string string "pyfloat option" "string option" "int option" int
  | OpSucceed string "string option" "string option" "string option" "int option" int
  | OpFail string pyval "string option" "string option" "int option" int
  | OpCancel string

fun job_apply :: "job_table \<Rightarrow> job_op \<Rightarrow> job_table" where
  "job_apply t (OpCreate i ty p k m now nb) = snd (job_create t i ty p k m now nb)"
| "job_apply t (OpClaimNext w types secs tok now) = snd (job_claim_next t w types secs tok now)"
| "job_apply t (OpClaim i w tok now) = snd (job_claim t i w tok now)"
| "job_apply t (OpHeartbeat i w pr tok v now) = snd (job_heartbeat t i w pr tok v now)"
| "job_apply t (OpSucceed i ref w tok v now) = snd (job_mark_finished t i ''SUCCEEDED'' ref VNone w tok v now)"
| "job_apply t (OpFail i e w tok v now) = snd (job_mark_failed t i e w tok v now)"
| "job_apply t (OpCancel i) = snd (job_cancel t i)"

definition job_run :: "job_table \<Rightarrow> job_op list \<Rightarrow> job_table" where
  "job_run t ops = foldl job_apply t ops"

definition terminal_job :: "job_row \<Rightarrow> bool" where
  "terminal_job r \<longleftrightarrow> jb_status r \<in> {''SUCCEEDED'', ''FAILED_FINAL'', ''CANCELLED''}"

text \<open>What one operation may do to a row.\<close>

inductive row_step :: "job_row \<Rightarrow> job_row \<Rightarrow> bool" where
  stay: "row_step r r"
| lease: "open_status r \<or> jb_status r = ''RUNNING'' \<Longrightarrow> jb_status r' = ''RUNNING'' \<Longrightarrow> jb_lease_version r' = jb_lease_version r + 1
    \<Longrightarrow> jb_retry_count r' = jb_retry_count r \<Longrightarrow> jb_id r' = jb_id r \<Longrightarrow> jb_max_retries r' = jb_max_retries r \<Longrightarrow> row_step r r'"
| beat: "jb_status r = ''RUNNING'' \<Longrightarrow> jb_status r' = ''RUNNING'' \<Longrightarrow> jb_lease_version r' = jb_lease_version r
    \<Longrightarrow> jb_retry_count r' = jb_retry_count r \<Longrightarrow> jb_id r' = jb_id r \<Longrightarrow> jb_max_retries r' = jb_max_retries r \<Longrightarrow> row_step r r'"
| succeed: "jb_status r = ''RUNNING'' \<Longrightarrow> jb_status r' = ''SUCCEEDED'' \<Longrightarrow> jb_lease_version r' = jb_lease_version r
    \<Longrightarrow> jb_retry_count r' = jb_retry_count r \<Longrightarrow> jb_id r' = jb_id r \<Longrightarrow> jb_max_retries r' = jb_max_retries r \<Longrightarrow> row_step r r'"
| fail: "jb_status r = ''RUNNING'' \<Longrightarrow> jb_status r' = (if jb_retry_count r' \<le> jb_max_retries r then ''FAILED_RETRYABLE'' else ''FAILED_FINAL'')
    \<Longrightarrow> jb_lease_version r' = jb_lease_version r \<Longrightarrow> jb_retry_count r' = jb_retry_count r + 1 \<Longrightarrow> jb_id r' = jb_id r
    \<Longrightarrow> jb_max_retries r' = jb_max_retries r \<Longrightarrow> row_step r r'"
| cancel: "open_status r \<Longrightarrow> jb_status r' = ''CANCELLED'' \<Longrightarrow> jb_lease_version r' = jb_lease_version r
    \<Longrightarrow> jb_retry_count r' = jb_retry_count r \<Longrightarrow> jb_id r' = jb_id r \<Longrightarrow> jb_max_retries r' = jb_max_retries r \<Longrightarrow> row_step r r'"

inductive_cases row_stepE: "row_step r r'"

definition table_ok :: "job_table \<Rightarrow> bool" where
  "table_ok t \<longleftrightarrow> distinct (map jb_id t)"

lemma job_get_Some_iff: "table_ok t \<Longrightarrow> job_get t i = Some r \<longleftrightarrow> r \<in> set t \<and> jb_id r = i"
  by (induction t) (auto simp: table_ok_def job_get_def)

lemma update_rows_eq: "update_rows p f t = (hit, t') \<longleftrightarrow> hit = (\<exists>r \<in> set t. p r) \<and> t' = map (\<lambda>r. if p r then f r else r) t"
  by (auto simp: update_rows_def)

lemma update_rows_id: "\<not> (\<exists>r \<in> set t. p r) \<Longrightarrow> update_rows p f t = (False, t)"
  by (auto simp: update_rows_def intro: map_idI)

text \<open>Every operation maps each row along \<open>row_step\<close> and adds at most one new pending row.\<close>

definition table_step :: "job_table \<Rightarrow> job_table \<Rightarrow> bool" where
  "table_step t t' \<longleftrightarrow> (\<exists>f new. t' = map f t @ new \<and> (\<forall>r \<in> set t. row_step r (f r)) \<and>
     (new = [] \<or> (\<exists>r. new = [r] \<and> jb_status r = ''PENDING'' \<and> jb_retry_count r = 0 \<and> (\<forall>q \<in> set t. jb_id q \<noteq> jb_id r))))"

lemma table_step_map: "(\<And>r. r \<in> set t \<Longrightarrow> row_step r (f r)) \<Longrightarrow> table_step t (map f t)"
  by (auto simp: table_step_def)

lemma table_step_refl: "table_step t t"
  using table_step_map [of t "\<lambda>r. r"] by (simp add: row_step.stay)

lemma table_step_snoc:
  "jb_status r = ''PENDING'' \<Longrightarrow> jb_retry_count r = 0 \<Longrightarrow> (\<forall>q \<in> set t. jb_id q \<noteq> jb_id r) \<Longrightarrow> table_step t (t @ [r])"
  unfolding table_step_def by (intro exI [of _ "\<lambda>r. r"] exI [of _ "[r]"]) (auto intro: row_step.stay)

lemma table_step_update:
  "(\<And>r. r \<in> set t \<Longrightarrow> p r \<Longrightarrow> row_step r (f r)) \<Longrightarrow> table_step t (snd (update_rows p f t))"
  unfolding update_rows_def snd_conv by (rule table_step_map) (auto intro: row_step.stay)

lemma job_fail_step:
  assumes ok: "table_ok t"
  shows "table_step t (snd (job_mark_failed t i e w tok v now))"
proof (cases "fail_read t i w tok v")
  case None
  then show ?thesis by (simp add: job_mark_failed_def table_step_refl)
next
  case (Some verdict)
  then obtain r where r: "job_get t i = Some r"
    and vd: "verdict = (if jb_retry_count r + 1 \<le> jb_max_retries r then ''FAILED_RETRYABLE'' else ''FAILED_FINAL'', jb_retry_count r + 1)"
    by (auto simp: fail_read_def Let_def split: option.splits if_splits)
  have same: "q = r" if "q \<in> set t" "jb_id q = i" for q
    using that r job_get_Some_iff [OF ok, of i q] by simp
  have "table_step t (snd (fail_write t i verdict e w tok v now))"
    unfolding fail_write_def
  proof (rule table_step_update)
    fix q
    assume "q \<in> set t" and q: "jb_id q = i \<and> jb_status q = ''RUNNING'' \<and> owner_matches w q \<and> lease_matches tok v q"
    then have "q = r" using same by blast
    then show "row_step q (q\<lparr>jb_status := fst verdict, jb_error := e, jb_retry_count := snd verdict, jb_finished_at := Some now, jb_progress := Fin 0\<rparr>)"
      using q by (intro row_step.fail) (simp_all add: vd)
  qed
  then show ?thesis by (simp add: job_mark_failed_def Some)
qed

lemma job_apply_step: "table_ok t \<Longrightarrow> table_step t (job_apply t op)"
proof (cases op)
  case (OpCreate i ty p k m now nb)
  have "table_step t (snd (job_insert t (new_job i ty p k m now nb)))"
    using table_step_refl by (auto simp: job_insert_def new_job_def intro!: table_step_snoc)
  then show ?thesis using OpCreate table_step_refl by (auto simp: job_create_def split: option.splits)
next
  case (OpClaimNext w types secs tok now)
  have "table_step t (snd (claim_update t row w tok now secs))" for row
  proof -
    have "table_step t (snd (update_rows (\<lambda>r. jb_id r = jb_id row \<and> (open_status r \<or> lease_expired (lease_cutoff now secs) r)) (take_lease w tok now) t))"
      by (rule table_step_update) (auto intro!: row_step.lease simp: take_lease_def lease_expired_def)
    then show ?thesis by (simp add: claim_update_def update_rows_def)
  qed
  then show ?thesis using OpClaimNext by (auto simp: job_claim_next_def table_step_refl split: option.splits)
next
  case (OpClaim i w tok now)
  have "table_step t (snd (update_rows (\<lambda>r. jb_id r = i \<and> open_status r) (\<lambda>r. (take_lease w tok now r)\<lparr>jb_started_at := Some now\<rparr>) t))"
    by (rule table_step_update) (auto intro!: row_step.lease simp: take_lease_def)
  then show ?thesis using OpClaim by (simp add: job_claim_def update_rows_def)
next
  case (OpHeartbeat i w pr tok v now)
  then show ?thesis
    by (simp add: job_heartbeat_def) (rule table_step_update, auto intro!: row_step.beat)
next
  case (OpSucceed i ref w tok v now)
  then show ?thesis
    by (simp add: job_mark_finished_def) (rule table_step_update, auto intro!: row_step.succeed)
next
  case (OpCancel i)
  then show ?thesis
    by (simp add: job_cancel_def) (rule table_step_update, auto intro!: row_step.cancel)
qed (simp add: job_fail_step)

lemma row_step_id: "row_step r r' \<Longrightarrow> jb_id r' = jb_id r"
  by (auto elim: row_stepE)

lemma table_step_ok: "table_step t t' \<Longrightarrow> table_ok t \<Longrightarrow> table_ok t'"
proof -
  assume "table_step t t'" and ok: "table_ok t"
  then obtain f new where f: "t' = map f t @ new" "\<forall>r \<in> set t. row_step r (f r)"
    and n: "new = [] \<or> (\<exists>r. new = [r] \<and> (\<forall>q \<in> set t. jb_id q \<noteq> jb_id r))" by (auto simp: table_step_def)
  have "map jb_id (map f t) = map jb_id t" using f(2) by (auto simp: row_step_id)
  then have "map jb_id t' = map jb_id t @ map jb_id new" unfolding f(1) map_append by (rule arg_cong)
  then show "table_ok t'" using ok n by (auto simp: table_ok_def)
qed

lemma table_step_row:
  assumes "table_step t t'" and "table_ok t" and "job_get t i = Some r"
  shows "\<exists>r'. job_get t' i = Some r' \<and> row_step r r'"
proof -
  obtain f new where f: "t' = map f t @ new" "\<forall>r \<in> set t. row_step r (f r)"
    using assms(1) by (auto simp: table_step_def)
  have r: "r \<in> set t" "jb_id r = i" using assms(2,3) by (auto simp: job_get_Some_iff)
  then show ?thesis using f row_step_id table_step_ok [OF assms(1,2)]
    by (intro exI [of _ "f r"]) (auto simp: job_get_Some_iff)
qed

lemma job_run_ok: "table_ok t \<Longrightarrow> table_ok (job_run t ops)"
  unfolding job_run_def by (induction ops arbitrary: t) (auto intro: table_step_ok job_apply_step)

text \<open>A property of a row that every step keeps holds after any run.\<close>

lemma job_run_keeps:
  assumes "table_ok t" and "job_get t i = Some r" and "P r" and "\<And>r r'. row_step r r' \<Longrightarrow> P r \<Longrightarrow> P r'"
  shows "\<exists>r'. job_get (job_run t ops) i = Some r' \<and> P r'"
  using assms(1-3)
proof (induction ops arbitrary: t r)
  case Nil
  then show ?case by (auto simp: job_run_def)
next
  case (Cons op ops)
  obtain r' where "job_get (job_apply t op) i = Some r'" "row_step r r'"
    using table_step_row [OF job_apply_step [OF Cons.prems(1)] Cons.prems(1,2)] by auto
  then show ?case
    using Cons.IH [of "job_apply t op" r'] Cons.prems assms(4) table_step_ok [OF job_apply_step]
    by (auto simp: job_run_def)
qed

subsection \<open>The whole interface of the repository\<close>

text \<open>
  \<open>mark_running\<close> (called by nothing in the program) sets any job RUNNING without looking at its state, and
  \<open>mark_finished\<close> stores any status on a running job.
\<close>

datatype repository_op =
    Queued job_op
  | OpMarkRunning string string int
  | OpFinish string string "string option" pyval "string option" "string option" "int option" int

fun repository_apply :: "job_table \<Rightarrow> repository_op \<Rightarrow> job_table" where
  "repository_apply t (Queued op) = job_apply t op"
| "repository_apply t (OpMarkRunning i w now) = job_mark_running t i w now"
| "repository_apply t (OpFinish i status ref err w tok v now) = snd (job_mark_finished t i status ref err w tok v now)"

definition repository_run :: "job_table \<Rightarrow> repository_op list \<Rightarrow> job_table" where
  "repository_run t ops = foldl repository_apply t ops"

text \<open>One operation keeps the ids, restarts or finishes a row at its lease version, or moves it along \<open>row_step\<close>.\<close>

definition restarts :: "string \<Rightarrow> repository_op \<Rightarrow> bool" where
  "restarts i op \<longleftrightarrow> (\<exists>w now. op = OpMarkRunning i w now)"

definition any_step :: "bool \<Rightarrow> job_row \<Rightarrow> job_row \<Rightarrow> bool" where
  "any_step restarted r r' \<longleftrightarrow> row_step r r' \<or> (restarted \<or> jb_status r = ''RUNNING'') \<and> jb_lease_version r' = jb_lease_version r"

lemma update_rows_row:
  assumes "table_ok t" and "job_get t i = Some r" and "\<And>q. jb_id (f q) = jb_id q"
  shows "table_ok (snd (update_rows p f t)) \<and> job_get (snd (update_rows p f t)) i = Some (if p r then f r else r)"
proof -
  have ids: "jb_id (if p q then f q else q) = jb_id q" for q by (simp add: assms(3))
  then have "map jb_id (map (\<lambda>r. if p r then f r else r) t) = map jb_id t" by (simp only: map_map comp_def ids)
  then have "table_ok (map (\<lambda>r. if p r then f r else r) t)" using assms(1) by (simp only: table_ok_def)
  moreover have "(if p r then f r else r) \<in> set (map (\<lambda>r. if p r then f r else r) t)" "jb_id (if p r then f r else r) = i"
    using job_get_Some_iff [OF assms(1), of i r] assms(2) ids by auto
  ultimately show ?thesis using job_get_Some_iff unfolding update_rows_def snd_conv by blast
qed

lemma repository_apply_row:
  assumes "table_ok t" and "job_get t i = Some r"
  shows "table_ok (repository_apply t op) \<and> (\<exists>r'. job_get (repository_apply t op) i = Some r' \<and> any_step (restarts i op) r r')"
proof (cases op)
  case (Queued q)
  obtain r' where "job_get (job_apply t q) i = Some r'" "row_step r r'"
    using table_step_row [OF job_apply_step [OF assms(1)] assms] by blast
  then show ?thesis
    using table_step_ok [OF job_apply_step [OF assms(1)] assms(1)] Queued by (auto simp: any_step_def)
next
  case (OpMarkRunning j w now)
  have "jb_id r = i" using assms by (simp add: job_get_Some_iff)
  then show ?thesis
    using update_rows_row [OF assms, of "\<lambda>r. r\<lparr>jb_status := ''RUNNING'', jb_worker := Some w, jb_started_at := Some now, jb_heartbeat_at := Some now\<rparr>" "\<lambda>r. jb_id r = j"]
    by (auto simp: OpMarkRunning job_mark_running_def any_step_def restarts_def intro: row_step.stay)
next
  case (OpFinish j status ref err w tok v now)
  then show ?thesis using update_rows_row [OF assms]
    by (auto simp: job_mark_finished_def any_step_def intro: row_step.stay)
qed

text \<open>A property of a row that every such step keeps holds after any run.\<close>

lemma repository_run_keeps:
  assumes "table_ok t" and "job_get t i = Some r" and "P r" and "\<forall>op \<in> set ops. \<forall>q q'. any_step (restarts i op) q q' \<longrightarrow> P q \<longrightarrow> P q'"
  shows "table_ok (repository_run t ops) \<and> (\<exists>r'. job_get (repository_run t ops) i = Some r' \<and> P r')"
  using assms
proof (induction ops arbitrary: t r)
  case Nil
  then show ?case by (auto simp: repository_run_def)
next
  case (Cons op ops)
  obtain r' where r': "table_ok (repository_apply t op)" "job_get (repository_apply t op) i = Some r'" "any_step (restarts i op) r r'"
    using repository_apply_row [OF Cons.prems(1,2)] by auto
  have "P r'" using Cons.prems(3,4) r'(3) by simp
  then show ?case
    using Cons.IH [OF r'(1,2)] Cons.prems(4) by (simp add: repository_run_def)
qed

subsection \<open>Properties\<close>

definition two_jobs :: job_table where
  "two_jobs = [new_job ''a'' ''decision_outcome'' (VDict []) None 1 200 None, new_job ''b'' ''decision_review'' (VDict []) None 1 100 None]"

lemma two_jobs_ok: "table_ok two_jobs"
  by (simp add: table_ok_def two_jobs_def new_job_def)

text \<open>C10: Jobs end once, unless they are restarted by hand. A job that has succeeded, failed for good or been cancelled keeps its
  row, unchanged, through any later sequence of operations of the repository, creations, claims, heartbeats, completions under any status, failures
  and cancellations by any workers, as long as none of them is a \<open>mark_running\<close> of that job. That one operation has no
  guard: it makes the ended job RUNNING again.\<close>

theorem terminal_jobs_stay:
  assumes "table_ok t" and "job_get t i = Some r" and "terminal_job r"
  shows "((\<forall>w now. OpMarkRunning i w now \<notin> set ops) \<longrightarrow> job_get (repository_run t ops) i = Some r)
    \<and> (\<exists>r'. job_get (repository_apply t (OpMarkRunning i w now)) i = Some r' \<and> jb_status r' = ''RUNNING'')"
proof -
  have "q' = r" if "any_step False q q'" "q = r" for q q'
    using that assms(3) by (auto simp: any_step_def terminal_job_def open_status_def elim: row_stepE)
  moreover have "\<not> restarts i op" if "\<forall>w now. OpMarkRunning i w now \<notin> set ops" "op \<in> set ops" for op
    using that by (auto simp: restarts_def)
  ultimately have "job_get (repository_run t ops) i = Some r" if "\<forall>w now. OpMarkRunning i w now \<notin> set ops"
    using repository_run_keeps [OF assms(1,2), of "\<lambda>q. q = r" ops] that by auto
  moreover have "jb_id r = i" using assms(1,2) by (simp add: job_get_Some_iff)
  ultimately show ?thesis
    using update_rows_row [OF assms(1,2), of "\<lambda>r. r\<lparr>jb_status := ''RUNNING'', jb_worker := Some w, jb_started_at := Some now, jb_heartbeat_at := Some now\<rparr>" "\<lambda>r. jb_id r = i"]
    by (auto simp: job_mark_running_def)
qed

definition succeeded_jobs :: job_table where
  "succeeded_jobs = job_run two_jobs [OpClaimNext ''w'' [] 300 ''tok'' 500, OpSucceed ''b'' None (Some ''w'') (Some ''tok'') (Some 1) 600]"

lemma succeeded_jobs_status: "map_option jb_status (job_get succeeded_jobs ''b'') = Some ''SUCCEEDED''"
  by code_simp

lemma terminal_jobs_stay_witness:
  "job_get (repository_run succeeded_jobs [Queued (OpClaimNext ''v'' [] 300 ''tok2'' 900), OpMarkRunning ''a'' ''v'' 950, Queued (OpCancel ''b'')]) ''b'' = job_get succeeded_jobs ''b''
     \<and> (\<exists>r. job_get (repository_apply succeeded_jobs (OpMarkRunning ''b'' ''v'' 900)) ''b'' = Some r \<and> jb_status r = ''RUNNING'')"
proof -
  obtain r where r: "job_get succeeded_jobs ''b'' = Some r" "jb_status r = ''SUCCEEDED''"
    using succeeded_jobs_status by auto
  have "table_ok succeeded_jobs" unfolding succeeded_jobs_def by (rule job_run_ok [OF two_jobs_ok])
  from terminal_jobs_stay [OF this r(1)] r show ?thesis by (simp add: terminal_job_def)
qed

text \<open>C11: A stale lease is fenced for ever. Once a job's lease version has passed the one a worker
  holds, no later sequence of operations of the repository brings it back, \<open>mark_running\<close> included: the worker's heartbeat, its completion and
  its failure report are refused and change nothing, and its lease check fails.\<close>

theorem stale_lease_fenced:
  assumes "table_ok t" and "job_get t i = Some r" and "v < jb_lease_version r" and "t' = repository_run t ops"
  shows "job_heartbeat t' i w pr tok (Some v) now = (False, t')
    \<and> job_mark_finished t' i status ref err wo tok (Some v) now = (False, t')
    \<and> job_mark_failed t' i err wo tok (Some v) now = (False, t')
    \<and> \<not> has_lease t' i w tok (Some v)"
proof -
  have "v < jb_lease_version q'" if "any_step b q q'" "v < jb_lease_version q" for b q q'
    using that by (auto simp: any_step_def elim: row_stepE)
  then obtain r' where ok: "table_ok t'" and r': "job_get t' i = Some r'" "v < jb_lease_version r'"
    using repository_run_keeps [OF assms(1,2), of "\<lambda>q. v < jb_lease_version q" ops] assms(3,4) by blast
  have "\<not> lease_matches tok (Some v) q" if "q \<in> set t'" "jb_id q = i" for q
    using job_get_Some_iff [OF ok, of i q] that r' by (auto simp: lease_matches_def)
  then have none: "\<not> (\<exists>q \<in> set t'. jb_id q = i \<and> P q \<and> Q q \<and> lease_matches tok (Some v) q)" for P Q by blast
  show ?thesis
    using none [of "\<lambda>q. jb_status q = ''RUNNING''" "\<lambda>q. jb_worker q = Some w"]
      none [of "\<lambda>q. jb_status q = ''RUNNING''" "owner_matches wo"] r' none [of "\<lambda>_. True" "\<lambda>_. True"]
      job_get_Some_iff [OF ok, of i]
    by (auto simp: job_heartbeat_def job_mark_finished_def job_mark_failed_def fail_read_def has_lease_def lease_matches_def
        update_rows_id split: option.splits)
qed

definition reclaimed_jobs :: job_table where
  "reclaimed_jobs = job_run two_jobs [OpClaimNext ''w'' [] 300 ''tok'' 500, OpClaimNext ''v'' [''decision_review''] 1 ''tok2'' 5000000]"

lemma reclaimed_version: "map_option jb_lease_version (job_get reclaimed_jobs ''b'') = Some 2"
  by code_simp

lemma stale_lease_fenced_witness:
  "job_mark_finished reclaimed_jobs ''b'' ''SUCCEEDED'' None VNone (Some ''w'') (Some ''tok'') (Some 1) 6000000 = (False, reclaimed_jobs)"
proof -
  obtain r where r: "job_get reclaimed_jobs ''b'' = Some r" "1 < jb_lease_version r" using reclaimed_version by auto
  have "table_ok reclaimed_jobs" unfolding reclaimed_jobs_def by (rule job_run_ok [OF two_jobs_ok])
  moreover have "reclaimed_jobs = repository_run reclaimed_jobs []" by (simp add: repository_run_def)
  ultimately show ?thesis using stale_lease_fenced [OF _ r] by blast
qed

text \<open>The failures a job has reported, against its limit.\<close>

definition retry_ok :: "job_row \<Rightarrow> bool" where
  "retry_ok r \<longleftrightarrow> 0 \<le> jb_retry_count r \<and>
     (if jb_status r = ''FAILED_FINAL'' then jb_retry_count r = max 0 (jb_max_retries r) + 1
      else jb_retry_count r \<le> max 0 (jb_max_retries r))"

lemma row_step_retry: "row_step r r' \<Longrightarrow> retry_ok r \<Longrightarrow> retry_ok r'"
  by (auto simp: retry_ok_def open_status_def elim!: row_stepE split: if_splits)

lemma table_step_all:
  assumes "table_step t t'" and "\<forall>r \<in> set t. retry_ok r"
  shows "\<forall>r \<in> set t'. retry_ok r"
proof
  fix q
  assume q: "q \<in> set t'"
  obtain f new where f: "t' = map f t @ new" "\<forall>r \<in> set t. row_step r (f r)"
    and n: "new = [] \<or> (\<exists>r. new = [r] \<and> jb_status r = ''PENDING'' \<and> jb_retry_count r = 0 \<and> (\<forall>q \<in> set t. jb_id q \<noteq> jb_id r))"
    using assms(1) by (auto simp: table_step_def)
  from q f(1) consider (old) r where "r \<in> set t" "q = f r" | (new) "q \<in> set new" by auto
  then show "retry_ok q"
  proof cases
    case old
    then show ?thesis using f(2) assms(2) row_step_retry by blast
  next
    case new
    then show ?thesis using n by (auto simp: retry_ok_def)
  qed
qed

lemma job_run_retry: "table_ok t \<Longrightarrow> \<forall>r \<in> set t. retry_ok r \<Longrightarrow> \<forall>r \<in> set (job_run t ops). retry_ok r"
  unfolding job_run_def
proof (induction ops arbitrary: t)
  case (Cons op ops)
  have "table_step t (job_apply t op)" by (rule job_apply_step [OF Cons.prems(1)])
  then show ?case using Cons.IH [of "job_apply t op"] Cons.prems table_step_ok table_step_all by auto
qed simp

text \<open>Reported failures are bounded. In every queue that grew from the empty one, a job has
  reported at most \<open>max_retries + 1\<close> failures, is offered again only while the count is at most
  \<open>max_retries\<close>, and is final exactly when the count has passed it.\<close>

theorem retries_bounded:
  assumes "r \<in> set (job_run [] ops)"
  shows "0 \<le> jb_retry_count r \<and> jb_retry_count r \<le> max 0 (jb_max_retries r) + 1
    \<and> (jb_status r = ''FAILED_FINAL'' \<longleftrightarrow> jb_retry_count r = max 0 (jb_max_retries r) + 1)"
  using job_run_retry [of "[]" ops] assms by (force simp: retry_ok_def table_ok_def split: if_splits)

lemma retries_bounded_witness:
  "jb_retry_count (the (job_get (job_run [] [OpCreate ''a'' ''decision_review'' VNone None 0 1 None,
     OpClaim ''a'' ''w'' ''t'' 2, OpFail ''a'' VNone (Some ''w'') (Some ''t'') (Some 1) 3]) ''a'')) \<le> 1"
proof -
  define t where "t = job_run [] [OpCreate ''a'' ''decision_review'' VNone None 0 1 None,
     OpClaim ''a'' ''w'' ''t'' 2, OpFail ''a'' VNone (Some ''w'') (Some ''t'') (Some 1) 3]"
  have "map_option jb_max_retries (job_get t ''a'') = Some 0" unfolding t_def by code_simp
  then obtain r where r: "job_get t ''a'' = Some r" "jb_max_retries r = 0" by auto
  then have "r \<in> set t" by (auto simp: job_get_def dest: first_such_Some)
  then show ?thesis using retries_bounded [of r, folded t_def] r retries_bounded [of r] unfolding t_def by fastforce
qed

lemma claim_select_Some:
  assumes "claim_select t now secs types = Some r"
  shows "r \<in> set t \<and> claimable now (lease_cutoff now secs) types r
    \<and> (\<forall>q \<in> set t. claimable now (lease_cutoff now secs) types q \<longrightarrow> jb_created_at r \<le> jb_created_at q)"
proof -
  define xs where "xs = filter (claimable now (lease_cutoff now secs) types) t"
  obtain rs where s: "sort_key jb_created_at xs = r # rs"
    using assms by (auto simp: claim_select_def xs_def split: list.splits)
  have m: "set xs = insert r (set rs)" using s by (metis set_sort list.simps(15))
  have "sorted (map jb_created_at (r # rs))" using s by (metis sorted_sort_key)
  then have "\<forall>q \<in> set xs. jb_created_at r \<le> jb_created_at q" unfolding m by auto
  moreover have "r \<in> set xs" by (simp add: m)
  ultimately show ?thesis by (auto simp: xs_def)
qed

lemma claim_select_None: "claim_select t now secs types = None \<longleftrightarrow> (\<forall>q \<in> set t. \<not> claimable now (lease_cutoff now secs) types q)"
proof -
  define xs where "xs = filter (claimable now (lease_cutoff now secs) types) t"
  have "set (sort_key jb_created_at xs) = {q \<in> set t. claimable now (lease_cutoff now secs) types q}" by (auto simp: xs_def)
  moreover have "claim_select t now secs types = None \<longleftrightarrow> sort_key jb_created_at xs = []"
    by (simp add: claim_select_def xs_def split: list.splits)
  ultimately show ?thesis by (metis (no_types, lifting) Collect_empty_eq set_empty)
qed

text \<open>Claiming is fair and exclusive. \<open>claim_next\<close> returns a job exactly when some job is
  claimable; it is one of the oldest claimable jobs, never one before its \<open>not_before\<close> time, and
  afterwards the caller holds its lease: the stored row is the returned one, running, under the
  caller's token and a new version.\<close>

theorem claim_next_takes_oldest:
  assumes "table_ok t" and "job_claim_next t worker types secs token now = (res, t')" and "token \<noteq> []"
  shows "(res = None \<longleftrightarrow> (\<forall>q \<in> set t. \<not> claimable now (lease_cutoff now secs) types q))
    \<and> (res = None \<longrightarrow> t' = t)
    \<and> (\<forall>r. res = Some r \<longrightarrow> (\<exists>old. job_get t (jb_id r) = Some old \<and> claimable now (lease_cutoff now secs) types old
        \<and> (\<forall>q \<in> set t. claimable now (lease_cutoff now secs) types q \<longrightarrow> jb_created_at old \<le> jb_created_at q)
        \<and> r = take_lease worker token now old)
      \<and> job_get t' (jb_id r) = Some r
      \<and> has_lease t' (jb_id r) worker (Some token) (Some (jb_lease_version r)))"
proof (cases "claim_select t now secs types")
  case None
  then show ?thesis using assms(2) claim_select_None [of t now secs types] by (simp add: job_claim_next_def)
next
  case (Some old)
  note sel = claim_select_Some [OF Some]
  have hit: "\<exists>r \<in> set t. jb_id r = jb_id old \<and> (open_status r \<or> lease_expired (lease_cutoff now secs) r)"
    using sel by (auto simp: claimable_def)
  define f where "f = (\<lambda>r. if jb_id r = jb_id old \<and> (open_status r \<or> lease_expired (lease_cutoff now secs) r)
      then take_lease worker token now r else r)"
  have res: "res = Some (take_lease worker token now old)" and t': "t' = map f t"
    using assms(2) hit by (auto simp: job_claim_next_def Some claim_update_def update_rows_def f_def split: if_splits)
  have ok': "table_ok t'"
    using job_run_ok [OF assms(1), of "[OpClaimNext worker types secs token now]"] assms(2) by (simp add: job_run_def)
  have fo: "f old = take_lease worker token now old" using sel by (auto simp: f_def claimable_def)
  have "take_lease worker token now old \<in> set t'" using sel fo t' by force
  then have "job_get t' (jb_id old) = Some (take_lease worker token now old)"
    using job_get_Some_iff [OF ok'] by (simp add: take_lease_def)
  moreover have "has_lease t' (jb_id old) worker (Some token) (Some (jb_lease_version old + 1))"
    using \<open>take_lease worker token now old \<in> set t'\<close> assms(3)
    by (auto simp: has_lease_def falsy_text_def take_lease_def intro!: bexI [of _ "take_lease worker token now old"])
  moreover have "job_get t (jb_id old) = Some old" using sel job_get_Some_iff [OF assms(1)] by simp
  ultimately show ?thesis using res sel by (auto simp: take_lease_def)
qed

lemma claim_next_takes_oldest_witness:
  "\<exists>r t'. job_claim_next two_jobs ''w'' [] 300 ''tok'' 500 = (Some r, t') \<and> has_lease t' (jb_id r) ''w'' (Some ''tok'') (Some (jb_lease_version r))"
proof -
  obtain res t' where c: "job_claim_next two_jobs ''w'' [] 300 ''tok'' 500 = (res, t')" by fastforce
  have "claimable 500 (lease_cutoff 500 300) [] (hd two_jobs)" by code_simp
  then have "\<not> (\<forall>q \<in> set two_jobs. \<not> claimable 500 (lease_cutoff 500 300) [] q)" by (auto simp: two_jobs_def)
  then show ?thesis using claim_next_takes_oldest [OF two_jobs_ok c] c by auto
qed

lemma job_get_map: "(\<And>r. jb_id (g r) = jb_id r) \<Longrightarrow> job_get (map g t) i = map_option g (job_get t i)"
  unfolding job_get_def by (induction t) auto

lemma claim_task_token:
  assumes ok: "table_ok t" and c: "claim_task worker job_id token now t = (Some task, t0)"
  shows "jb_lease_token task = Some token"
proof (cases "falsy_text job_id")
  case True
  then show ?thesis using c
    by (auto simp: claim_task_def job_claim_next_def claim_update_def update_rows_def take_lease_def split: if_splits option.splits)
next
  case False
  define i where "i = the job_id"
  define g where "g = (\<lambda>r. if jb_id r = i \<and> open_status r then (take_lease worker token now r)\<lparr>jb_started_at := Some now\<rparr> else r)"
  have gid: "jb_id (g r) = jb_id r" for r by (simp add: g_def take_lease_def)
  from c False obtain q where q: "q \<in> set t" "jb_id q = i" "open_status q" and t: "job_get (map g t) i = Some task"
    by (auto simp: claim_task_def job_claim_def update_rows_def i_def [symmetric] g_def [symmetric] split: if_splits option.splits)
  have "job_get t i = Some q" using q job_get_Some_iff [OF ok] by simp
  then have "task = g q" using t by (simp add: job_get_map gid)
  then show ?thesis using q by (simp add: g_def take_lease_def)
qed

lemma report_under_lease:
  assumes "table_ok t" and "worker \<noteq> []" and "jb_lease_token task = Some token" and "token \<noteq> []"
  shows "(\<not> has_lease t (jb_id task) worker (jb_lease_token task) (Some (jb_lease_version task)) \<longrightarrow>
      snd (report_outcome task outcome worker now t) = t)
    \<and> (has_lease t (jb_id task) worker (jb_lease_token task) (Some (jb_lease_version task)) \<longrightarrow>
      (\<exists>r r'. job_get t (jb_id task) = Some r \<and> job_get (snd (report_outcome task outcome worker now t)) (jb_id task) = Some r'
        \<and> (case outcome of Inr _ \<Rightarrow> jb_status r' = ''SUCCEEDED''
           | Inl _ \<Rightarrow> jb_retry_count r' = jb_retry_count r + 1 \<and> jb_status r' \<in> {''FAILED_RETRYABLE'', ''FAILED_FINAL''})
        \<and> (\<forall>j. j \<noteq> jb_id task \<longrightarrow> job_get (snd (report_outcome task outcome worker now t)) j = job_get t j)))"
proof -
  define P where "P r \<longleftrightarrow> jb_id r = jb_id task \<and> jb_status r = ''RUNNING'' \<and> owner_matches (Some worker) r
    \<and> lease_matches (jb_lease_token task) (Some (jb_lease_version task)) r" for r
  have lease: "has_lease t (jb_id task) worker (jb_lease_token task) (Some (jb_lease_version task)) \<longleftrightarrow> (\<exists>r \<in> set t. P r)"
    using assms(2-4) by (auto simp: has_lease_def P_def owner_matches_def lease_matches_def falsy_text_def)
  have get_upd: "job_get (map (\<lambda>r. if P r then f r else r) t) j = map_option (\<lambda>r. if P r then f r else r) (job_get t j)"
    if "\<And>r. jb_id (f r) = jb_id r" for f j
    unfolding job_get_def using that by (induction t) auto
  have other: "map_option (\<lambda>r. if P r then f r else r) (job_get t j) = job_get t j" if "j \<noteq> jb_id task" for f j
    using that by (cases "job_get t j") (auto simp: P_def job_get_def dest!: first_such_Some)
  have fin: "snd (job_mark_finished t (jb_id task) st ref err (Some worker) (jb_lease_token task) (Some (jb_lease_version task)) now)
      = map (\<lambda>r. if P r then r\<lparr>jb_status := st, jb_result_ref := ref, jb_error := (if truthy err then err else VNone),
              jb_finished_at := Some now, jb_progress := (if st = ''SUCCEEDED'' then Fin 1 else Fin 0)\<rparr> else r) t" for st ref err
    by (simp add: job_mark_finished_def update_rows_def P_def)
  show ?thesis
  proof (cases "\<exists>r \<in> set t. P r")
    case False
    have "map (\<lambda>r. if P r then f r else r) t = t" for f using False by (auto intro: map_idI)
    moreover have "snd (job_mark_failed t (jb_id task) e (Some worker) (jb_lease_token task) (Some (jb_lease_version task)) now) = t" for e
      using False by (auto simp: job_mark_failed_def fail_write_def update_rows_def P_def intro!: map_idI split: option.splits)
    ultimately show ?thesis using False lease fin by (auto simp: report_outcome_def split: sum.splits)
  next
    case True
    then obtain r where r: "r \<in> set t" "P r" by auto
    then have g: "job_get t (jb_id task) = Some r" using job_get_Some_iff [OF assms(1)] by (simp add: P_def)
    have fl: "fail_read t (jb_id task) (Some worker) (jb_lease_token task) (Some (jb_lease_version task))
        = Some (if jb_retry_count r + 1 \<le> jb_max_retries r then ''FAILED_RETRYABLE'' else ''FAILED_FINAL'', jb_retry_count r + 1)"
      using r g by (simp add: fail_read_def P_def Let_def)
    have failed: "snd (job_mark_failed t (jb_id task) e (Some worker) (jb_lease_token task) (Some (jb_lease_version task)) now)
        = map (\<lambda>q. if P q then q\<lparr>jb_status := (if jb_retry_count r + 1 \<le> jb_max_retries r then ''FAILED_RETRYABLE'' else ''FAILED_FINAL''),
            jb_error := e, jb_retry_count := jb_retry_count r + 1, jb_finished_at := Some now, jb_progress := Fin 0\<rparr> else q) t" for e
      by (simp add: job_mark_failed_def fl fail_write_def update_rows_def P_def)
    show ?thesis using lease True g r
      by (cases outcome) (simp_all add: report_outcome_def fin failed get_upd other)
  qed
qed

text \<open>A worker's verdict counts only under the lease it claimed. Whatever the other workers
  did in the gaps of \<open>process_one_job\<close>, when the worker no longer holds the lease of the task it
  claimed it leaves the table as it finds it; and while it does, the task ends as SUCCEEDED after
  a result and as a counted failure after an error, and no other row changes.\<close>

theorem verdict_only_under_lease:
  assumes "table_ok t" and "worker \<noteq> []" and "token \<noteq> []"
    and "claim_task worker job_id token (clock 0) t = (Some task, t0)"
    and "run_task handler others task worker (clock 1) (others 0 t0) = (outcome, t2)" and "table_ok (others 4 t2)"
  defines "held \<equiv> has_lease (others 4 t2) (jb_id task) worker (Some token) (Some (jb_lease_version task))"
  shows "\<exists>tf. process_one_job handler others worker job_id token clock t = (True, tf) \<and> (\<not> held \<longrightarrow> tf = others 4 t2)
    \<and> (held \<longrightarrow> (\<exists>r r'. job_get (others 4 t2) (jb_id task) = Some r \<and> job_get tf (jb_id task) = Some r'
        \<and> (case outcome of Inr _ \<Rightarrow> jb_status r' = ''SUCCEEDED''
           | Inl _ \<Rightarrow> jb_retry_count r' = jb_retry_count r + 1 \<and> jb_status r' \<in> {''FAILED_RETRYABLE'', ''FAILED_FINAL''})
        \<and> (\<forall>j. j \<noteq> jb_id task \<longrightarrow> job_get tf j = job_get (others 4 t2) j)))"
proof -
  note tok = claim_task_token [OF assms(1,4)]
  show ?thesis
    using report_under_lease [OF assms(6,2) tok assms(3), of outcome "clock 2"] assms(4,5) tok
    unfolding held_def by (simp add: process_one_job_def)
qed

lemma verdict_only_under_lease_witness:
  "\<exists>tf. process_one_job (\<lambda>_ _. Inr VNone) (\<lambda>_ t. t) ''w'' None ''tok'' (\<lambda>_. 500) two_jobs = (True, tf)
     \<and> map_option jb_status (job_get tf ''b'') = Some ''SUCCEEDED''"
proof -
  define r where "r = claim_task ''w'' None ''tok'' 500 two_jobs"
  obtain task t0 where c: "claim_task ''w'' None ''tok'' 500 two_jobs = (Some task, t0)" and i: "jb_id task = ''b''"
  proof -
    have "map_option jb_id (fst r) = Some ''b''" unfolding r_def by code_simp
    then show ?thesis using that by (cases r) (auto simp: r_def)
  qed
  have "case fst r of None \<Rightarrow> False | Some task \<Rightarrow> (case run_task (\<lambda>_ _. Inr VNone) (\<lambda>_ t. t) task ''w'' 500 (snd r) of
      (outcome, t2) \<Rightarrow> outcome = Inr VNone \<and> has_lease t2 ''b'' ''w'' (Some ''tok'') (Some (jb_lease_version task)) \<and> table_ok t2)"
    unfolding r_def by code_simp
  then obtain t2 where t2: "run_task (\<lambda>_ _. Inr VNone) (\<lambda>_ t. t) task ''w'' 500 t0 = (Inr VNone, t2)"
      "has_lease t2 ''b'' ''w'' (Some ''tok'') (Some (jb_lease_version task))" "table_ok t2"
    using c by (auto simp: r_def split: prod.splits)
  show ?thesis
    using verdict_only_under_lease [OF two_jobs_ok, of "''w''" "''tok''" None "\<lambda>_. 500" task t0 "\<lambda>_ _. Inr VNone" "\<lambda>_ t. t" "Inr VNone" t2]
      c t2 i by auto
qed

end
