(* ===== verification/Leases.thy ===== *)
theory Leases
  imports PyVal
begin

text \<open>
  Fenced leases. The locale \<open>fenced_lease\<close> is the contract shared by the outcome-evaluation leases
  (\<open>app/application/outcomes/lease_repository.py\<close>, in memory and in the table
  \<open>decision_outcome_runs\<close>) and the replay leases (theory Replay): a claim hands out a
  strictly growing fencing token, only the holder of the current, unexpired lease can store a
  result, and a stored result never changes. A claim is made at a time and on terms of its own
  (the lease length of an outcome, the run id of a replay). Times are integers (microseconds); the clock and
  the digest of a result are arguments. The in-memory repository also mirrors its leases to the
  database on a best-effort basis; that mirror is not modelled.
\<close>

datatype ('key, 'owner, 'terms, 'res) lease_event = Claim 'key 'owner int 'terms | Complete 'key "'owner \<times> int \<times> int" int 'res

locale fenced_lease =
  fixes token_of :: "'t \<Rightarrow> 'k \<Rightarrow> int"
    and lease_of :: "'t \<Rightarrow> 'k \<Rightarrow> ('o \<times> int \<times> int) option"
    and result_of :: "'t \<Rightarrow> 'k \<Rightarrow> 'r option"
    and expiry :: "int \<Rightarrow> 'x \<Rightarrow> int"
    and claim :: "'t \<Rightarrow> 'k \<Rightarrow> 'o \<Rightarrow> int \<Rightarrow> 'x \<Rightarrow> int option \<times> 't"
    and complete :: "'t \<Rightarrow> 'k \<Rightarrow> 'o \<times> int \<times> int \<Rightarrow> int \<Rightarrow> 'r \<Rightarrow> 'r result \<times> 't"
  assumes lease_token: "lease_of t k = Some (ow, n, ex) \<Longrightarrow> n = token_of t k"
    and claim_ok: "claim t k ow now secs = (Some n, t') \<Longrightarrow> n = token_of t k + 1 \<and> lease_of t' k = Some (ow, n, expiry now secs)
      \<and> (\<forall>k'. result_of t' k' = result_of t k') \<and> (\<forall>k'. k' \<noteq> k \<longrightarrow> lease_of t' k' = lease_of t k' \<and> token_of t' k' = token_of t k')"
    and claim_none: "claim t k ow now secs = (None, t') \<Longrightarrow> t' = t"
    and claim_busy: "lease_of t k = Some (ow', n, ex') \<Longrightarrow> now < ex' \<Longrightarrow> ow' \<noteq> ow \<Longrightarrow> result_of t k = None \<Longrightarrow> fst (claim t k ow now secs) = None"
    and complete_err: "complete t k l now r = (Inl e, t') \<Longrightarrow> t' = t"
    and complete_new: "complete t k (ow, n, ex) now r = (Inr r', t') \<Longrightarrow> result_of t k = None \<Longrightarrow>
        r' = r \<and> (\<exists>ex'. lease_of t k = Some (ow, n, ex') \<and> now < ex') \<and> result_of t' k = Some r
        \<and> (\<forall>k'. token_of t' k' = token_of t k') \<and> (\<forall>k'. k' \<noteq> k \<longrightarrow> result_of t' k' = result_of t k' \<and> lease_of t' k' = lease_of t k')"
    and complete_old: "complete t k l now r = (Inr r', t') \<Longrightarrow> result_of t k = Some r0 \<Longrightarrow> r' = r0 \<and> t' = t"
begin

fun apply_event :: "'t \<Rightarrow> ('k, 'o, 'x, 'r) lease_event \<Rightarrow> 't" where
  "apply_event t (Claim k ow now ex) = snd (claim t k ow now ex)"
| "apply_event t (Complete k l now r) = snd (complete t k l now r)"

lemma result_step: "result_of t k = Some r \<Longrightarrow> result_of (apply_event t e) k = Some r"
proof (cases e)
  case (Claim k' ow now ex)
  obtain res t' where c: "claim t k' ow now ex = (res, t')" by fastforce
  then show "result_of t k = Some r \<Longrightarrow> ?thesis" using Claim claim_ok claim_none by (cases res) fastforce+
next
  case (Complete k' l now r')
  obtain res t' where c: "complete t k' l now r' = (res, t')" by fastforce
  obtain ow n ex where l: "l = (ow, n, ex)" by (cases l)
  assume r: "result_of t k = Some r"
  show ?thesis
  proof (cases res)
    case (Inl x)
    then have "t' = t" using c complete_err by blast
    then show ?thesis using c Complete r by simp
  next
    case (Inr x)
    then show ?thesis using c complete_new [of t k' ow n ex now r' x t'] complete_old [of t k' l now r' x t'] Complete r l
      by (cases "result_of t k'"; cases "k' = k") auto
  qed
qed

lemma token_step: "token_of t k \<le> token_of (apply_event t e) k"
proof (cases e)
  case (Claim k' ow now ex)
  obtain res t' where c: "claim t k' ow now ex = (res, t')" by fastforce
  show ?thesis
  proof (cases res)
    case None
    then have "t' = t" using c claim_none by blast
    then show ?thesis using c Claim by simp
  next
    case (Some n)
    then show ?thesis using c claim_ok [of t k' ow now ex n t'] lease_token [of t' k' ow n "expiry now ex"] Claim by (cases "k = k'") auto
  qed
next
  case (Complete k' l now r')
  obtain res t' where c: "complete t k' l now r' = (res, t')" by fastforce
  obtain ow n ex where l: "l = (ow, n, ex)" by (cases l)
  show ?thesis
  proof (cases res)
    case (Inl x)
    then have "t' = t" using c complete_err by blast
    then show ?thesis using c Complete by simp
  next
    case (Inr x)
    then show ?thesis using c complete_new [of t k' ow n ex now r' x t'] complete_old [of t k' l now r' x t'] Complete l
      by (cases "result_of t k'") auto
  qed
qed

lemma single_result: "result_of t k = Some r \<Longrightarrow> result_of (foldl apply_event t es) k = Some r"
  by (induction es arbitrary: t) (auto intro: result_step)

lemma token_mono: "token_of t k \<le> token_of (foldl apply_event t es) k"
proof (induction es arbitrary: t)
  case (Cons e es)
  then show ?case using token_step [of t k e] order_trans by fastforce
qed simp

text \<open>A claim by anyone fences every lease handed out before it, for ever.\<close>

lemma old_lease_fenced:
  assumes "claim t k ow now ex = (Some n, t')" and "m \<le> token_of t k" and "result_of (foldl apply_event t' es) k = None"
  shows "\<exists>e. complete (foldl apply_event t' es) k (ow', m, ex') now' r = (Inl e, foldl apply_event t' es)"
proof -
  define u where "u = foldl apply_event t' es"
  have "token_of t' k = token_of t k + 1" using claim_ok [OF assms(1)] lease_token by fastforce
  then have "m < token_of u k" using token_mono [of t' k es] assms(2) by (simp add: u_def)
  obtain res u' where c: "complete u k (ow', m, ex') now' r = (res, u')" by fastforce
  show ?thesis
  proof (cases res)
    case (Inl e)
    then show ?thesis using complete_err c by (auto simp: u_def)
  next
    case (Inr x)
    then show ?thesis using complete_new [of u k ow' m ex' now' r x u'] lease_token [of u k] c assms(3) \<open>m < token_of u k\<close>
      by (auto simp: u_def)
  qed
qed

text \<open>Two completions that both succeed return the same result.\<close>

lemma completions_agree:
  assumes "complete t k l now r = (Inr x, t')" and "complete (foldl apply_event t' es) k l2 now2 r2 = (Inr y, u)"
  shows "x = y"
proof -
  obtain ow n ex where l: "l = (ow, n, ex)" by (cases l)
  have "result_of t' k = Some x"
    using complete_new [of t k ow n ex now r x t'] complete_old [OF assms(1)] assms(1) l by (cases "result_of t k") auto
  then show ?thesis using single_result complete_old [OF assms(2)] by blast
qed

end

subsection \<open>The in-memory repository\<close>

record outcome_lease =
  ol_snapshot :: string
  ol_owner :: string
  ol_token :: int
  ol_expires :: int

record outcome_memory =
  om_leases :: "string \<rightharpoonup> outcome_lease"
  om_results :: "string \<rightharpoonup> pyval"

definition lease_until :: "int \<Rightarrow> int \<Rightarrow> int" where
  "lease_until now seconds = now + max 1 seconds * 1000000"

definition mem_claim :: "outcome_memory \<Rightarrow> string \<Rightarrow> string \<Rightarrow> int \<Rightarrow> int \<Rightarrow> outcome_lease option \<times> outcome_memory" where
  "mem_claim m snap owner now seconds =
     (let old = om_leases m snap in
      if (case old of None \<Rightarrow> False | Some l \<Rightarrow> now < ol_expires l \<and> ol_owner l \<noteq> owner) then (None, m)
      else let lease = \<lparr>ol_snapshot = snap, ol_owner = owner,
                 ol_token = (case old of None \<Rightarrow> 1 | Some l \<Rightarrow> ol_token l + 1), ol_expires = lease_until now seconds\<rparr>
           in (Some lease, m\<lparr>om_leases := (om_leases m)(snap \<mapsto> lease)\<rparr>))"

abbreviation lease_fenced :: exc where
  "lease_fenced \<equiv> RuntimeError ''OUTCOME_LEASE_FENCED''"

abbreviation payload_conflict :: exc where
  "payload_conflict \<equiv> RuntimeError ''OUTCOME_EVENT_PAYLOAD_CONFLICT''"

definition mem_complete :: "(pyval \<Rightarrow> string) \<Rightarrow> outcome_memory \<Rightarrow> outcome_lease \<Rightarrow> int \<Rightarrow> pyval \<Rightarrow> pyval result \<times> outcome_memory" where
  "mem_complete digest m lease now result =
     (if om_leases m (ol_snapshot lease) \<noteq> Some lease \<or> ol_expires lease \<le> now then (Inl lease_fenced, m)
      else (case om_results m (ol_snapshot lease) of
          Some final \<Rightarrow> if digest final \<noteq> digest result then (Inl payload_conflict, m) else (Inr final, m)
        | None \<Rightarrow> (Inr result, m\<lparr>om_results := (om_results m)(ol_snapshot lease \<mapsto> result)\<rparr>)))"

subsection \<open>The table of outcome runs\<close>

record outcome_row =
  or_status :: string
  or_owner :: "string option"
  or_token :: int
  or_expires :: "int option"
  or_result :: "pyval option"
  or_hash :: "string option"

type_synonym outcome_table = "string \<rightharpoonup> outcome_row"

definition db_claim :: "outcome_table \<Rightarrow> string \<Rightarrow> string \<Rightarrow> int \<Rightarrow> int \<Rightarrow> outcome_lease option \<times> outcome_table" where
  "db_claim t snap owner now seconds =
     (let expires = lease_until now seconds in case t snap of
        Some r \<Rightarrow>
          if or_status r \<noteq> ''SUCCEEDED'' \<and> (or_expires r = None \<or> (\<exists>e \<in> set_option (or_expires r). e \<le> now) \<or> or_owner r = Some owner)
          then (Some \<lparr>ol_snapshot = snap, ol_owner = owner, ol_token = or_token r + 1, ol_expires = expires\<rparr>,
                t(snap \<mapsto> r\<lparr>or_status := ''RUNNING'', or_owner := Some owner, or_token := or_token r + 1, or_expires := Some expires\<rparr>))
          else (None, t)
      | None \<Rightarrow>
          (Some \<lparr>ol_snapshot = snap, ol_owner = owner, ol_token = 1, ol_expires = expires\<rparr>,
           t(snap \<mapsto> \<lparr>or_status = ''RUNNING'', or_owner = Some owner, or_token = 1, or_expires = Some expires, or_result = None, or_hash = None\<rparr>)))"

definition db_complete :: "(pyval \<Rightarrow> string) \<Rightarrow> outcome_table \<Rightarrow> outcome_lease \<Rightarrow> int \<Rightarrow> pyval \<Rightarrow> pyval result \<times> outcome_table" where
  "db_complete digest t lease now result = (case t (ol_snapshot lease) of
     None \<Rightarrow> (Inl lease_fenced, t)
   | Some r \<Rightarrow>
       if or_status r = ''RUNNING'' \<and> or_owner r = Some (ol_owner lease) \<and> or_token r = ol_token lease
          \<and> (\<exists>e \<in> set_option (or_expires r). now < e)
       then (Inr result, t(ol_snapshot lease \<mapsto> r\<lparr>or_status := ''SUCCEEDED'', or_hash := Some (digest result), or_result := Some result\<rparr>))
       else if or_status r = ''SUCCEEDED'' \<and> or_result r \<noteq> None then
         (let final = the (or_result r); prior = (if falsy_text (or_hash r) then digest final else the (or_hash r)) in
          if prior \<noteq> digest result then (Inl payload_conflict, t) else (Inr final, t))
       else (Inl lease_fenced, t))"

definition db_result :: "outcome_table \<Rightarrow> string \<Rightarrow> pyval option" where
  "db_result t snap = (case t snap of None \<Rightarrow> None | Some r \<Rightarrow> or_result r)"

text \<open>
  \<open>OutcomeWorker.evaluate\<close> on the table: a stored result is returned, a busy lease gives \<open>None\<close>,
  otherwise the calculator runs and its value is completed under the lease. \<open>others\<close> is what
  other workers do to the table while the calculator runs.
\<close>

definition outcome_evaluate ::
  "(pyval \<Rightarrow> string) \<Rightarrow> (outcome_table \<Rightarrow> outcome_table) \<Rightarrow> string \<Rightarrow> string \<Rightarrow> (unit \<Rightarrow> pyval result) \<Rightarrow> int \<Rightarrow> int \<Rightarrow> outcome_table
   \<Rightarrow> pyval option result \<times> outcome_table" where
  "outcome_evaluate digest others snap owner calculator now1 now2 t = (case db_result t snap of
     Some v \<Rightarrow> (Inr (Some v), t)
   | None \<Rightarrow> (case db_claim t snap owner now1 60 of
       (None, t1) \<Rightarrow> (Inr None, t1)
     | (Some lease, t1) \<Rightarrow> (case calculator () of
         Inl e \<Rightarrow> (Inl e, others t1)
       | Inr v \<Rightarrow> (case db_complete digest (others t1) lease now2 v of
           (Inl e, t2) \<Rightarrow> (Inl e, t2) | (Inr final, t2) \<Rightarrow> (Inr (Some final), t2)))))"

subsection \<open>The contract holds of both\<close>

text \<open>The operations of the two repositories in the shape of the contract.\<close>

definition lease_tuple :: "outcome_lease \<Rightarrow> string \<times> int \<times> int" where
  "lease_tuple l = (ol_owner l, ol_token l, ol_expires l)"

definition tuple_lease :: "string \<Rightarrow> string \<times> int \<times> int \<Rightarrow> outcome_lease" where
  "tuple_lease snap l = \<lparr>ol_snapshot = snap, ol_owner = fst l, ol_token = fst (snd l), ol_expires = snd (snd l)\<rparr>"

definition db_lease :: "outcome_table \<Rightarrow> string \<Rightarrow> (string \<times> int \<times> int) option" where
  "db_lease t k = (case t k of None \<Rightarrow> None
     | Some r \<Rightarrow> (case (or_owner r, or_expires r) of (Some ow, Some ex) \<Rightarrow> Some (ow, or_token r, ex) | _ \<Rightarrow> None))"

definition db_token :: "outcome_table \<Rightarrow> string \<Rightarrow> int" where
  "db_token t k = (case t k of None \<Rightarrow> 0 | Some r \<Rightarrow> or_token r)"

definition done_result :: "outcome_table \<Rightarrow> string \<Rightarrow> pyval option" where
  "done_result t k = (case t k of None \<Rightarrow> None | Some r \<Rightarrow> if or_status r = ''SUCCEEDED'' then or_result r else None)"

definition db_claim_op :: "outcome_table \<Rightarrow> string \<Rightarrow> string \<Rightarrow> int \<Rightarrow> int \<Rightarrow> int option \<times> outcome_table" where
  "db_claim_op t k owner now seconds = (case db_claim t k owner now seconds of (l, t') \<Rightarrow> (map_option ol_token l, t'))"

definition db_complete_op ::
  "(pyval \<Rightarrow> string) \<Rightarrow> outcome_table \<Rightarrow> string \<Rightarrow> string \<times> int \<times> int \<Rightarrow> int \<Rightarrow> pyval \<Rightarrow> pyval result \<times> outcome_table" where
  "db_complete_op digest t k l now r = db_complete digest t (tuple_lease k l) now r"

definition mem_lease :: "outcome_memory \<Rightarrow> string \<Rightarrow> (string \<times> int \<times> int) option" where
  "mem_lease m k = map_option lease_tuple (om_leases m k)"

definition mem_token :: "outcome_memory \<Rightarrow> string \<Rightarrow> int" where
  "mem_token m k = (case om_leases m k of None \<Rightarrow> 0 | Some l \<Rightarrow> ol_token l)"

definition mem_claim_op :: "outcome_memory \<Rightarrow> string \<Rightarrow> string \<Rightarrow> int \<Rightarrow> int \<Rightarrow> int option \<times> outcome_memory" where
  "mem_claim_op m k owner now seconds = (case mem_claim m k owner now seconds of (l, m') \<Rightarrow> (map_option ol_token l, m'))"

definition mem_complete_op ::
  "(pyval \<Rightarrow> string) \<Rightarrow> outcome_memory \<Rightarrow> string \<Rightarrow> string \<times> int \<times> int \<Rightarrow> int \<Rightarrow> pyval \<Rightarrow> pyval result \<times> outcome_memory" where
  "mem_complete_op digest m k l now r = mem_complete digest m (tuple_lease k l) now r"

interpretation ol_db: fenced_lease db_token db_lease done_result lease_until db_claim_op "db_complete_op digest" for digest
proof unfold_locales
  fix t k ow n ex
  assume "db_lease t k = Some (ow, n, ex)"
  then show "n = db_token t k" by (auto simp: db_lease_def db_token_def split: option.splits)
next
  fix t k ow now secs n t'
  assume "db_claim_op t k ow now secs = (Some n, t')"
  then show "n = db_token t k + 1 \<and> db_lease t' k = Some (ow, n, lease_until now secs)
      \<and> (\<forall>k'. done_result t' k' = done_result t k') \<and> (\<forall>k'. k' \<noteq> k \<longrightarrow> db_lease t' k' = db_lease t k' \<and> db_token t' k' = db_token t k')"
    by (auto simp: db_claim_op_def db_claim_def Let_def db_token_def db_lease_def done_result_def split: option.splits if_splits)
next
  fix t k ow now secs t'
  assume "db_claim_op t k ow now secs = (None, t')"
  then show "t' = t" by (auto simp: db_claim_op_def db_claim_def Let_def split: option.splits if_splits)
next
  fix t k ow' n ex' now ow secs
  assume "db_lease t k = Some (ow', n, ex')" "now < ex'" "ow' \<noteq> ow"
  then show "fst (db_claim_op t k ow now secs) = None"
    by (auto simp: db_claim_op_def db_claim_def Let_def db_lease_def split: option.splits)
next
  fix t k l now r e t'
  assume "db_complete_op digest t k l now r = (Inl e, t')"
  then show "t' = t" by (auto simp: db_complete_op_def db_complete_def Let_def split: option.splits if_splits)
next
  fix t k ow n ex now r r' t'
  assume "db_complete_op digest t k (ow, n, ex) now r = (Inr r', t')" "done_result t k = None"
  then show "r' = r \<and> (\<exists>ex'. db_lease t k = Some (ow, n, ex') \<and> now < ex') \<and> done_result t' k = Some r
      \<and> (\<forall>k'. db_token t' k' = db_token t k') \<and> (\<forall>k'. k' \<noteq> k \<longrightarrow> done_result t' k' = done_result t k' \<and> db_lease t' k' = db_lease t k')"
    by (auto simp: db_complete_op_def db_complete_def tuple_lease_def Let_def db_token_def db_lease_def done_result_def
        split: option.splits if_splits)
next
  fix t k l now r r' t' r0
  assume "db_complete_op digest t k l now r = (Inr r', t')" "done_result t k = Some r0"
  then show "r' = r0 \<and> t' = t"
    by (auto simp: db_complete_op_def db_complete_def tuple_lease_def Let_def done_result_def split: option.splits if_splits)
qed

interpretation ol_mem: fenced_lease mem_token mem_lease om_results lease_until mem_claim_op "mem_complete_op digest" for digest
proof unfold_locales
  fix m k ow n ex
  assume "mem_lease m k = Some (ow, n, ex)"
  then show "n = mem_token m k" by (auto simp: mem_lease_def mem_token_def lease_tuple_def)
next
  fix m k ow now secs n m'
  assume "mem_claim_op m k ow now secs = (Some n, m')"
  then show "n = mem_token m k + 1 \<and> mem_lease m' k = Some (ow, n, lease_until now secs)
      \<and> (\<forall>k'. om_results m' k' = om_results m k') \<and> (\<forall>k'. k' \<noteq> k \<longrightarrow> mem_lease m' k' = mem_lease m k' \<and> mem_token m' k' = mem_token m k')"
    by (auto simp: mem_claim_op_def mem_claim_def Let_def mem_token_def mem_lease_def lease_tuple_def split: option.splits if_splits)
next
  fix m k ow now secs m'
  assume "mem_claim_op m k ow now secs = (None, m')"
  then show "m' = m" by (auto simp: mem_claim_op_def mem_claim_def Let_def split: option.splits if_splits)
next
  fix m k ow' n ex' now ow secs
  assume "mem_lease m k = Some (ow', n, ex')" "now < ex'" "ow' \<noteq> ow"
  then show "fst (mem_claim_op m k ow now secs) = None"
    by (auto simp: mem_claim_op_def mem_claim_def Let_def mem_lease_def lease_tuple_def)
next
  fix m k l now r e m'
  assume "mem_complete_op digest m k l now r = (Inl e, m')"
  then show "m' = m" by (auto simp: mem_complete_op_def mem_complete_def Let_def split: option.splits if_splits)
next
  fix m k ow n ex now r r' m'
  assume "mem_complete_op digest m k (ow, n, ex) now r = (Inr r', m')" "om_results m k = None"
  then show "r' = r \<and> (\<exists>ex'. mem_lease m k = Some (ow, n, ex') \<and> now < ex') \<and> om_results m' k = Some r
      \<and> (\<forall>k'. mem_token m' k' = mem_token m k') \<and> (\<forall>k'. k' \<noteq> k \<longrightarrow> om_results m' k' = om_results m k' \<and> mem_lease m' k' = mem_lease m k')"
    by (auto simp: mem_complete_op_def mem_complete_def tuple_lease_def Let_def mem_token_def mem_lease_def lease_tuple_def
        split: option.splits if_splits)
next
  fix m k l now r r' m' r0
  assume "mem_complete_op digest m k l now r = (Inr r', m')" "om_results m k = Some r0"
  then show "r' = r0 \<and> m' = m"
    by (auto simp: mem_complete_op_def mem_complete_def tuple_lease_def Let_def split: option.splits if_splits)
qed

subsection \<open>Properties\<close>

type_synonym outcome_event = "(string, string, int, pyval) lease_event"

fun db_apply :: "(pyval \<Rightarrow> string) \<Rightarrow> outcome_table \<Rightarrow> outcome_event \<Rightarrow> outcome_table" where
  "db_apply digest t (Claim k owner now secs) = snd (db_claim t k owner now secs)"
| "db_apply digest t (Complete k l now r) = snd (db_complete digest t (tuple_lease k l) now r)"

definition db_run :: "(pyval \<Rightarrow> string) \<Rightarrow> outcome_event list \<Rightarrow> outcome_table \<Rightarrow> outcome_table" where
  "db_run digest es t = foldl (db_apply digest) t es"

lemma db_apply_eq: "ol_db.apply_event digest t e = db_apply digest t e"
  by (cases e) (auto simp: ol_db.apply_event.simps db_claim_op_def db_complete_op_def split: prod.splits)

lemma db_run_eq: "db_run digest es t = foldl (ol_db.apply_event digest) t es"
  unfolding db_run_def by (induction es arbitrary: t) (simp_all add: db_apply_eq)

text \<open>A row with a result is a succeeded one; every event keeps this.\<close>

definition outcome_ok :: "outcome_table \<Rightarrow> bool" where
  "outcome_ok t \<longleftrightarrow> (\<forall>k r. t k = Some r \<longrightarrow> or_status r \<noteq> ''SUCCEEDED'' \<longrightarrow> or_result r = None)"

lemma db_claim_keeps_ok: "outcome_ok t \<Longrightarrow> outcome_ok (snd (db_claim t k owner now secs))"
  by (auto simp: outcome_ok_def db_claim_def Let_def split: option.splits if_splits)

lemma db_complete_keeps_ok: "outcome_ok t \<Longrightarrow> outcome_ok (snd (db_complete digest t l now r))"
  by (auto simp: outcome_ok_def db_complete_def Let_def split: option.splits if_splits)

lemma db_run_ok: "outcome_ok t \<Longrightarrow> outcome_ok (db_run digest es t)"
  unfolding db_run_def
proof (induction es arbitrary: t)
  case (Cons e es)
  have "outcome_ok (db_apply digest t e)"
    by (cases e) (simp_all add: db_claim_keeps_ok db_complete_keeps_ok Cons.prems)
  then show ?case using Cons.IH by simp
qed simp

lemma db_result_done: "outcome_ok t \<Longrightarrow> db_result t k = done_result t k"
  by (auto simp: db_result_def done_result_def outcome_ok_def split: option.splits)

lemma evaluate_done:
  assumes "outcome_ok t" and "outcome_evaluate digest (db_run digest es) snap owner calc now1 now2 t = (Inr (Some x), t')"
  shows "done_result t' snap = Some x \<and> outcome_ok t'"
proof (cases "db_result t snap")
  case (Some v)
  then show ?thesis using assms db_result_done [OF assms(1)] by (simp add: outcome_evaluate_def)
next
  case None
  obtain l t1 where c: "db_claim t snap owner now1 60 = (l, t1)" by fastforce
  have ok: "outcome_ok (db_run digest es t1)" using db_claim_keeps_ok [OF assms(1)] c db_run_ok by (metis snd_conv)
  obtain lease v where lv: "l = Some lease" "calc () = Inr v"
    and d: "db_complete digest (db_run digest es t1) lease now2 v = (Inr x, t')"
    using assms(2) None c by (auto simp: outcome_evaluate_def split: option.splits sum.splits prod.splits)
  have snap: "ol_snapshot lease = snap" using c lv by (auto simp: db_claim_def Let_def split: option.splits if_splits)
  have "outcome_ok t'" using db_complete_keeps_ok [OF ok] d by (metis snd_conv)
  moreover have "done_result t' snap = Some x"
    using d snap by (auto simp: db_complete_def done_result_def Let_def split: option.splits if_splits)
  ultimately show ?thesis by simp
qed

text \<open>C12: One outcome per decision snapshot. Whatever other workers claim and complete in between
  and during the evaluations, two evaluations of the same snapshot that return a value return the
  same value, even when their calculators disagree.\<close>

theorem outcome_evaluations_agree:
  assumes "outcome_ok t"
    and "outcome_evaluate digest (db_run digest es) snap owner calc now1 now2 t = (Inr (Some x), t1)"
    and "outcome_evaluate digest (db_run digest es') snap owner' calc' now3 now4 (db_run digest between t1) = (Inr (Some y), t2)"
  shows "x = y"
proof -
  note d1 = evaluate_done [OF assms(1,2)]
  have k: "done_result (db_run digest between t1) snap = Some x"
    using ol_db.single_result [of t1 snap x digest between] d1 by (simp add: db_run_eq)
  have "db_result (db_run digest between t1) snap = Some x"
    using db_result_done [OF db_run_ok] d1 k by simp
  then show ?thesis using assms(3) by (simp add: outcome_evaluate_def)
qed

definition const_digest :: "pyval \<Rightarrow> string" where
  "const_digest v = json_text v"

lemma outcome_evaluations_agree_witness:
  "\<exists>t1 t2. outcome_evaluate const_digest (db_run const_digest []) ''s'' ''w1'' (\<lambda>_. Inr (VInt 1)) 0 1 Map.empty = (Inr (Some (VInt 1)), t1)
    \<and> outcome_evaluate const_digest (db_run const_digest []) ''s'' ''w2'' (\<lambda>_. Inr (VInt 2)) 5 6
        (db_run const_digest [Claim ''s'' ''w3'' 2 60] t1) = (Inr (Some (VInt 1)), t2)"
proof -
  have ok: "outcome_ok Map.empty" by (simp add: outcome_ok_def)
  obtain t1 where e1: "outcome_evaluate const_digest (db_run const_digest []) ''s'' ''w1'' (\<lambda>_. Inr (VInt 1)) 0 1 Map.empty = (Inr (Some (VInt 1)), t1)"
    by (simp add: outcome_evaluate_def db_result_def db_claim_def db_run_def db_complete_def lease_until_def Let_def)
  obtain y t2 where e2: "outcome_evaluate const_digest (db_run const_digest []) ''s'' ''w2'' (\<lambda>_. Inr (VInt 2)) 5 6
        (db_run const_digest [Claim ''s'' ''w3'' 2 60] t1) = (Inr (Some y), t2)"
  proof -
    have "done_result t1 ''s'' = Some (VInt 1)" "outcome_ok t1" using evaluate_done [OF ok e1] by auto
    then have "db_result (db_run const_digest [Claim ''s'' ''w3'' 2 60] t1) ''s'' = Some (VInt 1)"
      using ol_db.single_result [of t1 "''s''" "VInt 1" const_digest "[Claim ''s'' ''w3'' 2 60]", folded db_run_eq]
        db_result_done [OF db_run_ok] by simp
    then show ?thesis using that by (simp add: outcome_evaluate_def)
  qed
  show ?thesis using outcome_evaluations_agree [OF ok e1 e2] e1 e2 by auto
qed

text \<open>A lease is fenced by the next claim. After a worker has claimed a snapshot, every lease
  handed out for it before is refused, with no effect, as long as no result is stored: no sequence
  of other claims and completions makes it valid again.\<close>

theorem outcome_stale_lease_fenced:
  assumes "db_claim t snap owner now secs = (Some l, t')" and "ol_snapshot old = snap" and "ol_token old < ol_token l"
    and "u = db_run digest es t'" and "done_result u snap = None"
  shows "\<exists>e. db_complete digest u old now' r = (Inl e, u)"
proof -
  have c: "db_claim_op t snap owner now secs = (Some (ol_token l), t')" by (simp add: db_claim_op_def assms(1))
  have tok: "ol_token old \<le> db_token t snap"
    using assms(1,3) by (auto simp: db_claim_def db_token_def Let_def split: option.splits if_splits)
  have old: "tuple_lease snap (lease_tuple old) = old" using assms(2) by (cases old) (simp add: tuple_lease_def lease_tuple_def)
  show ?thesis
    using ol_db.old_lease_fenced [OF c tok, of digest es "ol_owner old" "ol_expires old" now' r] assms(4,5) old
    by (simp add: db_run_eq db_complete_op_def lease_tuple_def)
qed

definition claimed_table :: outcome_table where
  "claimed_table = snd (db_claim Map.empty ''s'' ''w1'' 0 60)"

definition reclaimed_table :: outcome_table where
  "reclaimed_table = snd (db_claim claimed_table ''s'' ''w2'' 60000000 60)"

lemma outcome_stale_lease_fenced_witness:
  "\<exists>e. db_complete const_digest reclaimed_table \<lparr>ol_snapshot = ''s'', ol_owner = ''w1'', ol_token = 1, ol_expires = 60000000\<rparr> 5 VNone
     = (Inl e, reclaimed_table)"
proof -
  have c: "db_claim claimed_table ''s'' ''w2'' 60000000 60 =
      (Some \<lparr>ol_snapshot = ''s'', ol_owner = ''w2'', ol_token = 2, ol_expires = 120000000\<rparr>, reclaimed_table)"
    and d: "done_result reclaimed_table ''s'' = None"
    by (simp_all add: reclaimed_table_def claimed_table_def db_claim_def lease_until_def Let_def done_result_def)
  show ?thesis
    using outcome_stale_lease_fenced [OF c, of "\<lparr>ol_snapshot = ''s'', ol_owner = ''w1'', ol_token = 1, ol_expires = 60000000\<rparr>" reclaimed_table const_digest "[]" 5 VNone] d
    by (simp add: db_run_def)
qed

text \<open>The in-memory repository keeps one result per snapshot too: a later completion under a
  valid lease returns the stored result, or a payload conflict when its own result has another
  digest, and any other completion is refused.\<close>

theorem memory_completion:
  assumes "om_results m (ol_snapshot l) = Some final"
  shows "mem_complete digest m l now r =
    (if om_leases m (ol_snapshot l) = Some l \<and> now < ol_expires l
     then (if digest final = digest r then Inr final else Inl payload_conflict) else Inl lease_fenced, m)"
  using assms by (auto simp: mem_complete_def)

lemma memory_completion_witness:
  "fst (mem_complete const_digest \<lparr>om_leases = Map.empty, om_results = [''s'' \<mapsto> VNone]\<rparr> (tuple_lease ''s'' (''w'', 1, 9)) 3 VNone) = Inl lease_fenced"
  using memory_completion [of "\<lparr>om_leases = Map.empty, om_results = [''s'' \<mapsto> VNone]\<rparr>" "tuple_lease ''s'' (''w'', 1, 9)" VNone const_digest 3 VNone]
  by (simp add: tuple_lease_def)

end
