(* ===== verification/Replay.thy ===== *)
theory Replay
  imports Leases
begin

text \<open>
  Exact replay runs (\<open>app/application/replay/run_service.py\<close>): the identity of a replay, the
  process-local cache of runs, the table \<open>decision_replay_runs\<close> with its leases, and
  \<open>run_exact\<close> as one step with two gaps where other processes act on the table: between reading
  the prior run and claiming it, and while the calculator runs. The digest is \<open>_digest\<close>
  (SHA-256 of the canonical JSON), an argument; so are the new identifiers and the clock.
  Failures of the database session are not modelled.
\<close>

record replay_run =
  rr_id :: string
  rr_snapshot :: string
  rr_input_hash :: string
  rr_expected :: "string option"
  rr_actual :: "string option"
  rr_status :: string
  rr_discrepancy :: "string option"
  rr_owner :: "string option"
  rr_token :: int
  rr_expires :: "int option"

type_synonym replay_key = "string \<times> string"
type_synonym replay_table = "replay_key \<rightharpoonup> replay_run"

record replay_world =
  rw_runs :: "replay_key \<rightharpoonup> replay_run"
  rw_table :: replay_table

record replay_answer =
  ra_id :: string
  ra_status :: string
  ra_match :: bool
  ra_actual :: "string option"
  ra_discrepancy :: "string option"
  ra_output :: "pyval option"

definition replay_identity :: "(pyval \<Rightarrow> string) \<Rightarrow> string \<Rightarrow> pyval \<Rightarrow> string option \<Rightarrow> string" where
  "replay_identity digest decision_snapshot_id snapshot expected = digest (VDict
     [(''decision_snapshot_id'', VStr decision_snapshot_id), (''snapshot'', snapshot), (''expected_output_hash'', opt_str expected)])"

definition run_key :: "replay_run \<Rightarrow> replay_key" where
  "run_key r = (rr_snapshot r, rr_input_hash r)"

abbreviation identity_conflict :: exc where
  "identity_conflict \<equiv> RuntimeError ''REPLAY_IDENTITY_CONFLICT''"

abbreviation replay_fenced :: exc where
  "replay_fenced \<equiv> RuntimeError ''REPLAY_RUN_FENCED''"

subsection \<open>The table\<close>

definition load_persistent :: "replay_table \<Rightarrow> replay_key \<Rightarrow> string option \<Rightarrow> bool \<Rightarrow> replay_run option result" where
  "load_persistent t key expected strict = (case t key of
     None \<Rightarrow> Inr None
   | Some row \<Rightarrow> if rr_expected row \<noteq> expected then (if strict then Inl identity_conflict else Inr None)
       else Inr (Some (row\<lparr>rr_snapshot := fst key, rr_input_hash := snd key\<rparr>)))"

definition replay_expiry :: "int \<Rightarrow> string \<Rightarrow> int" where
  "replay_expiry now run_id = now + 60 * 1000000"

definition replay_claimable :: "replay_run \<Rightarrow> replay_run \<Rightarrow> int \<Rightarrow> bool" where
  "replay_claimable row run now \<longleftrightarrow> rr_status row \<noteq> ''SUCCEEDED'' \<and> rr_expected row = rr_expected run
     \<and> (case rr_expires row of None \<Rightarrow> True | Some e \<Rightarrow> e \<le> now \<or> (rr_owner run \<noteq> None \<and> rr_owner row = rr_owner run))"

definition claim_persistent :: "replay_table \<Rightarrow> replay_run \<Rightarrow> int \<Rightarrow> replay_run option result \<times> replay_table" where
  "claim_persistent t run now =
     (let key = run_key run; expires = Some (replay_expiry now (rr_id run)) in case t key of
        Some row \<Rightarrow>
          if replay_claimable row run now
          then (Inr (Some (run\<lparr>rr_token := rr_token row + 1, rr_expires := expires, rr_status := ''RUNNING''\<rparr>)),
                t(key \<mapsto> row\<lparr>rr_status := ''RUNNING'', rr_owner := rr_owner run, rr_token := rr_token row + 1, rr_expires := expires\<rparr>))
          else if rr_expected row \<noteq> rr_expected run then (Inl identity_conflict, t) else (Inr None, t)
      | None \<Rightarrow>
          (let fresh = run\<lparr>rr_token := 1, rr_expires := expires, rr_status := ''RUNNING''\<rparr> in
           (Inr (Some fresh), t(key \<mapsto> fresh\<lparr>rr_actual := None, rr_discrepancy := None\<rparr>))))"

definition persist_run :: "replay_table \<Rightarrow> replay_run \<Rightarrow> int \<Rightarrow> bool \<Rightarrow> unit result \<times> replay_table" where
  "persist_run t run now strict = (case t (run_key run) of
     None \<Rightarrow> (Inr (), t(run_key run \<mapsto> run))
   | Some row \<Rightarrow>
       if rr_status row \<noteq> ''SUCCEEDED'' \<and> rr_owner row \<noteq> None \<and> rr_owner row = rr_owner run \<and> rr_token row = rr_token run
          \<and> (case rr_expires row of None \<Rightarrow> False | Some e \<Rightarrow> now < e)
       then (Inr (), t(run_key run \<mapsto> row\<lparr>rr_actual := rr_actual run, rr_status := rr_status run, rr_discrepancy := rr_discrepancy run\<rparr>))
       else (if strict then Inl replay_fenced else Inr (), t))"

subsection \<open>Running a replay\<close>

definition find_prior :: "bool \<Rightarrow> replay_key \<Rightarrow> string option \<Rightarrow> replay_world \<Rightarrow> replay_run option result \<times> replay_world" where
  "find_prior persistent key expected w = (case rw_runs w key of
     Some r \<Rightarrow> (Inr (Some r), w)
   | None \<Rightarrow> (case load_persistent (rw_table w) key expected persistent of
       Inl e \<Rightarrow> (Inl e, w)
     | Inr None \<Rightarrow> (Inr None, w)
     | Inr (Some r) \<Rightarrow> (Inr (Some r), w\<lparr>rw_runs := (rw_runs w)(key \<mapsto> r)\<rparr>)))"

definition prior_answer :: "replay_run \<Rightarrow> replay_answer" where
  "prior_answer r = \<lparr>ra_id = rr_id r, ra_status = rr_status r, ra_match = (rr_discrepancy r = None),
     ra_actual = rr_actual r, ra_discrepancy = rr_discrepancy r, ra_output = None\<rparr>"

definition busy_answer :: "replay_run \<Rightarrow> replay_answer" where
  "busy_answer r = \<lparr>ra_id = rr_id r, ra_status = ''LEASE_BUSY'', ra_match = False, ra_actual = None, ra_discrepancy = None, ra_output = None\<rparr>"

definition new_replay :: "string \<Rightarrow> replay_key \<Rightarrow> string option \<Rightarrow> string \<Rightarrow> replay_run" where
  "new_replay run_id key expected owner = \<lparr>rr_id = run_id, rr_snapshot = fst key, rr_input_hash = snd key, rr_expected = expected,
     rr_actual = None, rr_status = ''RUNNING'', rr_discrepancy = None, rr_owner = Some owner, rr_token = 1, rr_expires = None\<rparr>"

definition hash_mismatch :: "string option \<Rightarrow> string \<Rightarrow> bool" where
  "hash_mismatch expected actual \<longleftrightarrow> expected \<noteq> None \<and> Some actual \<noteq> expected"

definition finish_replay :: "bool \<Rightarrow> replay_key \<Rightarrow> string option \<Rightarrow> string \<Rightarrow> int \<Rightarrow> replay_run \<Rightarrow> pyval \<Rightarrow> string \<Rightarrow> replay_world
   \<Rightarrow> replay_answer result \<times> replay_world" where
  "finish_replay persistent key expected disc_id now run output actual w =
     (let mismatch = hash_mismatch expected actual;
          done = run\<lparr>rr_actual := Some actual, rr_expected := expected, rr_status := ''SUCCEEDED'',
                   rr_discrepancy := (if mismatch then Some disc_id else None)\<rparr>;
          answer = \<lparr>ra_id = rr_id done, ra_status = rr_status done, ra_match = (\<not> mismatch), ra_actual = Some actual,
                    ra_discrepancy = rr_discrepancy done, ra_output = Some output\<rparr>
      in case (if persistent then persist_run (rw_table w) done now True else (Inr (), rw_table w)) of
           (Inl e, t) \<Rightarrow> (Inl e, w\<lparr>rw_table := t\<rparr>)
         | (Inr _, t) \<Rightarrow> (Inr answer, w\<lparr>rw_table := t, rw_runs := (rw_runs w)(key \<mapsto> done)\<rparr>))"

definition calculate_replay :: "(pyval \<Rightarrow> string) \<Rightarrow> bool \<Rightarrow> replay_key \<Rightarrow> string option \<Rightarrow> string \<Rightarrow> int \<Rightarrow> (replay_table \<Rightarrow> replay_table)
   \<Rightarrow> (unit \<Rightarrow> pyval result) \<Rightarrow> replay_run \<Rightarrow> replay_world \<Rightarrow> replay_answer result \<times> replay_world" where
  "calculate_replay digest persistent key expected disc_id now gap calculator run w =
     (let w1 = w\<lparr>rw_runs := (rw_runs w)(key \<mapsto> run)\<rparr>; w2 = w1\<lparr>rw_table := gap (rw_table w1)\<rparr> in
      case calculator () of Inl e \<Rightarrow> (Inl e, w2)
      | Inr output \<Rightarrow> finish_replay persistent key expected disc_id now run output (digest output) w2)"

record replay_call =
  rc_persistent :: bool
  rc_owner :: string
  rc_run_id :: string
  rc_disc_id :: string
  rc_decision :: string
  rc_snapshot :: pyval
  rc_expected :: "string option"
  rc_gap1 :: "replay_table \<Rightarrow> replay_table"
  rc_gap2 :: "replay_table \<Rightarrow> replay_table"
  rc_now1 :: int
  rc_now2 :: int

definition call_key :: "(pyval \<Rightarrow> string) \<Rightarrow> replay_call \<Rightarrow> replay_key" where
  "call_key digest c = (rc_decision c, replay_identity digest (rc_decision c) (rc_snapshot c) (rc_expected c))"

definition run_exact :: "(pyval \<Rightarrow> string) \<Rightarrow> replay_call \<Rightarrow> (pyval \<Rightarrow> pyval result) \<Rightarrow> replay_world \<Rightarrow> replay_answer result \<times> replay_world" where
  "run_exact digest c calculator w =
     (let key = call_key digest c; calc = (\<lambda>_. calculator (rc_snapshot c)) in case find_prior (rc_persistent c) key (rc_expected c) w of
        (Inl e, w1) \<Rightarrow> (Inl e, w1)
      | (Inr prior, w1) \<Rightarrow>
          if prior \<noteq> None \<and> rr_status (the prior) = ''SUCCEEDED'' then (Inr (prior_answer (the prior)), w1)
          else let run = (case prior of Some r \<Rightarrow> r | None \<Rightarrow> new_replay (rc_run_id c) key (rc_expected c) (rc_owner c)) in
            if rc_persistent c then
              (let w2 = w1\<lparr>rw_table := rc_gap1 c (rw_table w1)\<rparr>; mine = run\<lparr>rr_owner := Some (rc_owner c)\<rparr> in
               case claim_persistent (rw_table w2) mine (rc_now1 c) of
                 (Inl e, t) \<Rightarrow> (Inl e, w2\<lparr>rw_table := t\<rparr>)
               | (Inr None, t) \<Rightarrow> (Inr (busy_answer mine), w2\<lparr>rw_table := t\<rparr>)
               | (Inr (Some claimed), t) \<Rightarrow> calculate_replay digest True key (rc_expected c) (rc_disc_id c) (rc_now2 c) (rc_gap2 c) calc claimed (w2\<lparr>rw_table := t\<rparr>))
            else calculate_replay digest False key (rc_expected c) (rc_disc_id c) (rc_now2 c) (rc_gap2 c) calc run w1)"

definition fixed_projection :: "(pyval \<Rightarrow> string) \<Rightarrow> pyval \<Rightarrow> pyval result" where
  "fixed_projection digest snapshot = (case snapshot of
     VDict d \<Rightarrow> Inr (VDict [(''snapshot_id'', get_item d ''snapshot_id''), (''decision_id'', get_item d ''decision_id''),
       (''snapshot_hash'', VStr (digest snapshot)), (''calculation_version'', VStr ''exact-replay.v1'')])
   | _ \<Rightarrow> Inl (PyExc ''AttributeError'' ''get''))"

definition run_exact_fixed :: "(pyval \<Rightarrow> string) \<Rightarrow> replay_call \<Rightarrow> replay_world \<Rightarrow> replay_answer result \<times> replay_world" where
  "run_exact_fixed digest c w = run_exact digest c (fixed_projection digest) w"

subsection \<open>The lease contract\<close>

text \<open>
  The contract is stated per identity: table key and expected hash. A row with another expected
  hash counts as absent. A completion writes the actual hash and the discrepancy of a run; it
  always follows a claim, so the row exists and has the expected hash of the claim.
\<close>

definition recorded :: "replay_table \<Rightarrow> replay_key \<Rightarrow> (string option \<times> string option) option" where
  "recorded t key = (case t key of None \<Rightarrow> None
     | Some row \<Rightarrow> if rr_status row = ''SUCCEEDED'' then Some (rr_actual row, rr_discrepancy row) else None)"

type_synonym replay_ident = "replay_key \<times> string option"

definition ident_row :: "replay_table \<Rightarrow> replay_ident \<Rightarrow> replay_run option" where
  "ident_row t k = (case t (fst k) of None \<Rightarrow> None | Some row \<Rightarrow> if rr_expected row = snd k then Some row else None)"

definition rp_lease :: "replay_table \<Rightarrow> replay_ident \<Rightarrow> (string \<times> int \<times> int) option" where
  "rp_lease t k = (case ident_row t k of None \<Rightarrow> None
     | Some row \<Rightarrow> (case (rr_owner row, rr_expires row) of (Some ow, Some ex) \<Rightarrow> Some (ow, rr_token row, ex) | _ \<Rightarrow> None))"

definition rp_token :: "replay_table \<Rightarrow> replay_ident \<Rightarrow> int" where
  "rp_token t k = (case ident_row t k of None \<Rightarrow> 0 | Some row \<Rightarrow> rr_token row)"

definition rp_result :: "replay_table \<Rightarrow> replay_ident \<Rightarrow> (string option \<times> string option) option" where
  "rp_result t k = (if ident_row t k = None then None else recorded t (fst k))"

definition rp_claim :: "replay_table \<Rightarrow> replay_ident \<Rightarrow> string \<Rightarrow> int \<Rightarrow> string \<Rightarrow> int option \<times> replay_table" where
  "rp_claim t k owner now run_id = (case claim_persistent t (new_replay run_id (fst k) (snd k) owner) now of
     (Inr (Some r), t') \<Rightarrow> (Some (rr_token r), t') | (_, t') \<Rightarrow> (None, t'))"

definition completed_run :: "replay_ident \<Rightarrow> string \<times> int \<times> int \<Rightarrow> string option \<times> string option \<Rightarrow> replay_run" where
  "completed_run k l res = (new_replay ''r'' (fst k) (snd k) (fst l))
     \<lparr>rr_token := fst (snd l), rr_expires := Some (snd (snd l)), rr_status := ''SUCCEEDED'', rr_actual := fst res, rr_discrepancy := snd res\<rparr>"

definition rp_complete :: "replay_table \<Rightarrow> replay_ident \<Rightarrow> string \<times> int \<times> int \<Rightarrow> int \<Rightarrow> string option \<times> string option
   \<Rightarrow> (string option \<times> string option) result \<times> replay_table" where
  "rp_complete t k l now res = (if ident_row t k = None then (Inl replay_fenced, t)
     else (case persist_run t (completed_run k l res) now True of (Inl e, t') \<Rightarrow> (Inl e, t') | (Inr _, t') \<Rightarrow> (Inr res, t')))"

lemmas rp_defs = rp_lease_def rp_token_def rp_result_def rp_claim_def rp_complete_def ident_row_def recorded_def
  claim_persistent_def replay_claimable_def persist_run_def completed_run_def new_replay_def run_key_def Let_def

lemma claim_persistent_ok:
  assumes "claim_persistent t run now = (Inr (Some c), t')"
  obtains row' where "t' = t(run_key run \<mapsto> row')" and "rr_token c = rr_token row'" and "rr_owner row' = rr_owner run"
    and "rr_expires row' = Some (replay_expiry now (rr_id run))" and "rr_expected row' = rr_expected run" and "rr_status row' = ''RUNNING''"
    and "run_key c = run_key run" and "rr_status c = ''RUNNING''"
    and "(t (run_key run) = None \<and> rr_token row' = 1) \<or> (\<exists>row. t (run_key run) = Some row \<and> rr_status row \<noteq> ''SUCCEEDED''
      \<and> rr_expected row = rr_expected run \<and> rr_token row' = rr_token row + 1)"
  using assms by (auto simp: claim_persistent_def Let_def replay_claimable_def run_key_def split: option.splits if_splits)

lemma rp_claim_ok:
  assumes "rp_claim t k ow now rid = (Some n, t')"
  obtains row' where "t' = t(fst k \<mapsto> row')" and "n = rr_token row'" and "rr_owner row' = Some ow"
    and "rr_expires row' = Some (replay_expiry now rid)" and "rr_expected row' = snd k" and "rr_status row' = ''RUNNING''"
    and "n = rp_token t k + 1" and "recorded t (fst k) = None" and "t (fst k) \<noteq> None \<longrightarrow> rr_expected (the (t (fst k))) = snd k"
proof -
  define run where "run = new_replay rid (fst k) (snd k) ow"
  obtain c where c: "claim_persistent t run now = (Inr (Some c), t')" and n: "n = rr_token c"
    using assms by (auto simp: rp_claim_def run_def split: sum.splits option.splits prod.splits)
  have run: "run_key run = fst k" "rr_owner run = Some ow" "rr_id run = rid" "rr_expected run = snd k"
    by (simp_all add: run_def new_replay_def run_key_def)
  obtain row' where r: "t' = t(fst k \<mapsto> row')" "rr_token c = rr_token row'" "rr_owner row' = Some ow"
      "rr_expires row' = Some (replay_expiry now rid)" "rr_expected row' = snd k" "rr_status row' = ''RUNNING''"
      "(t (fst k) = None \<and> rr_token row' = 1) \<or> (\<exists>row. t (fst k) = Some row \<and> rr_status row \<noteq> ''SUCCEEDED''
        \<and> rr_expected row = snd k \<and> rr_token row' = rr_token row + 1)"
    using claim_persistent_ok [OF c] unfolding run by metis
  have "n = rp_token t k + 1" "recorded t (fst k) = None" "t (fst k) \<noteq> None \<longrightarrow> rr_expected (the (t (fst k))) = snd k"
    using r n by (auto simp: rp_token_def ident_row_def recorded_def)
  then show ?thesis using that r n by simp
qed

lemma rp_complete_ok:
  assumes "rp_complete t k (ow, n, ex) now r = (Inr r', t')"
  obtains row where "t (fst k) = Some row" and "rr_expected row = snd k" and "rr_status row \<noteq> ''SUCCEEDED''"
    and "rr_owner row = Some ow" and "rr_token row = n" and "\<exists>e. rr_expires row = Some e \<and> now < e" and "r' = r"
    and "t' = t(fst k \<mapsto> row\<lparr>rr_actual := fst r, rr_status := ''SUCCEEDED'', rr_discrepancy := snd r\<rparr>)"
proof -
  obtain row where row: "t (fst k) = Some row" "rr_expected row = snd k"
    using assms by (auto simp: rp_complete_def ident_row_def split: option.splits if_splits)
  define run where "run = completed_run k (ow, n, ex) r"
  have run: "run_key run = fst k" "rr_owner run = Some ow" "rr_token run = n" "rr_actual run = fst r"
      "rr_discrepancy run = snd r" "rr_status run = ''SUCCEEDED''"
    by (simp_all add: run_def completed_run_def new_replay_def run_key_def)
  have p: "persist_run t run now True = (Inr (), t') \<and> r' = r"
    using assms row by (auto simp: rp_complete_def ident_row_def run_def split: sum.splits prod.splits)
  show ?thesis using that [OF row] p row unfolding persist_run_def run by (auto split: if_splits option.splits)
qed

interpretation rp: fenced_lease rp_token rp_lease rp_result replay_expiry rp_claim rp_complete
proof unfold_locales
  fix t k ow n ex
  assume "rp_lease t k = Some (ow, n, ex)"
  then show "n = rp_token t k" by (auto simp: rp_lease_def rp_token_def split: option.splits)
next
  fix t k ow now rid n t'
  assume "rp_claim t k ow now rid = (Some n, t')"
  then obtain row' where r: "t' = t(fst k \<mapsto> row')" "n = rr_token row'" "rr_owner row' = Some ow"
      "rr_expires row' = Some (replay_expiry now rid)" "rr_expected row' = snd k" "rr_status row' = ''RUNNING''"
      "n = rp_token t k + 1" "recorded t (fst k) = None" "t (fst k) \<noteq> None \<longrightarrow> rr_expected (the (t (fst k))) = snd k"
    by (rule rp_claim_ok) blast
  have row: "ident_row t' k' = (if k' = k then Some row' else if fst k' = fst k then None else ident_row t k')" for k'
    using r by (cases k', cases k) (auto simp: ident_row_def)
  have old: "fst k' = fst k \<Longrightarrow> k' \<noteq> k \<Longrightarrow> ident_row t k' = None" for k'
    using r(9) by (cases k', cases k) (auto simp: ident_row_def split: option.splits)
  have res: "rp_result t' k' = rp_result t k'" for k'
  proof -
    have "recorded t' (fst k') = recorded t (fst k')" using r(1,6,8) by (simp add: recorded_def)
    then show ?thesis using old [of k'] r(8) by (auto simp: rp_result_def row)
  qed
  have lease: "rp_lease t' k' = (if k' = k then Some (ow, n, replay_expiry now rid) else rp_lease t k')" for k'
    using r(2-4) old [of k'] by (simp add: rp_lease_def row)
  have token: "k' \<noteq> k \<Longrightarrow> rp_token t' k' = rp_token t k'" for k'
    using old [of k'] by (simp add: rp_token_def row)
  show "n = rp_token t k + 1 \<and> rp_lease t' k = Some (ow, n, replay_expiry now rid)
      \<and> (\<forall>k'. rp_result t' k' = rp_result t k') \<and> (\<forall>k'. k' \<noteq> k \<longrightarrow> rp_lease t' k' = rp_lease t k' \<and> rp_token t' k' = rp_token t k')"
    using r(7) res lease token by simp
next
  fix t k ow now rid t'
  assume "rp_claim t k ow now rid = (None, t')"
  then show "t' = t" by (auto simp: rp_claim_def claim_persistent_def Let_def split: option.splits if_splits)
next
  fix t k ow' n ex' now ow rid
  assume "rp_lease t k = Some (ow', n, ex')" "now < ex'" "ow' \<noteq> ow"
  then show "fst (rp_claim t k ow now rid) = None"
    by (auto simp: rp_defs split: option.splits if_splits)
next
  fix t k l now r e t'
  assume "rp_complete t k l now r = (Inl e, t')"
  then show "t' = t" by (auto simp: rp_complete_def persist_run_def split: option.splits if_splits)
next
  fix t k ow n ex now r r' t'
  assume "rp_complete t k (ow, n, ex) now r = (Inr r', t')" "rp_result t k = None"
  then obtain row where c: "t (fst k) = Some row" "rr_expected row = snd k" "rr_status row \<noteq> ''SUCCEEDED''" "rr_owner row = Some ow"
      "rr_token row = n" "\<exists>e. rr_expires row = Some e \<and> now < e" "r' = r"
      "t' = t(fst k \<mapsto> row\<lparr>rr_actual := fst r, rr_status := ''SUCCEEDED'', rr_discrepancy := snd r\<rparr>)"
    by (elim rp_complete_ok) blast
  define row' where "row' = row\<lparr>rr_actual := fst r, rr_status := ''SUCCEEDED'', rr_discrepancy := snd r\<rparr>"
  have row: "ident_row t' k' = (if k' = k then Some row' else ident_row t k')" for k'
    using c by (cases k', cases k) (auto simp: ident_row_def row'_def)
  have rest: "k' \<noteq> k \<Longrightarrow> ident_row t k' \<noteq> None \<Longrightarrow> fst k' \<noteq> fst k" for k'
    using c(1,2) by (cases k', cases k) (auto simp: ident_row_def split: if_splits)
  have same: "ident_row t k = Some row" using c by (simp add: ident_row_def)
  have rec: "recorded t' key = (if key = fst k then Some r else recorded t key)" for key
    using c by (simp add: recorded_def)
  have "rp_result t' k = Some r" by (simp add: rp_result_def row rec)
  moreover have "rp_token t' k' = rp_token t k'" for k' using same by (simp add: rp_token_def row row'_def)
  moreover have "k' \<noteq> k \<Longrightarrow> rp_result t' k' = rp_result t k' \<and> rp_lease t' k' = rp_lease t k'" for k'
    using rest [of k'] by (auto simp: rp_result_def rp_lease_def row rec)
  moreover have "\<exists>ex'. rp_lease t k = Some (ow, n, ex') \<and> now < ex'" using c same by (auto simp: rp_lease_def)
  ultimately show "r' = r \<and> (\<exists>ex'. rp_lease t k = Some (ow, n, ex') \<and> now < ex') \<and> rp_result t' k = Some r
      \<and> (\<forall>k'. rp_token t' k' = rp_token t k') \<and> (\<forall>k'. k' \<noteq> k \<longrightarrow> rp_result t' k' = rp_result t k' \<and> rp_lease t' k' = rp_lease t k')"
    using c(7) by simp
next
  fix t k l now r r' t' r0
  assume "rp_complete t k l now r = (Inr r', t')" "rp_result t k = Some r0"
  then show "r' = r0 \<and> t' = t"
    by (auto simp: rp_defs split: option.splits if_splits)
qed

subsection \<open>Properties\<close>

type_synonym replay_event = "(replay_ident, string, string, string option \<times> string option) lease_event"

fun replay_event_step :: "replay_table \<Rightarrow> replay_event \<Rightarrow> replay_table" where
  "replay_event_step t (Claim k owner now run_id) = snd (rp_claim t k owner now run_id)"
| "replay_event_step t (Complete k l now res) = snd (rp_complete t k l now res)"

definition replay_events :: "replay_event list \<Rightarrow> replay_table \<Rightarrow> replay_table" where
  "replay_events es t = foldl replay_event_step t es"

lemma replay_events_eq: "replay_events es t = foldl rp.apply_event t es"
proof -
  have "replay_event_step = rp.apply_event" by (intro ext, case_tac xa) simp_all
  then show ?thesis by (simp add: replay_events_def)
qed

lemma recorded_stays: "recorded t key = Some x \<Longrightarrow> recorded (replay_events es t) key = Some x"
proof -
  assume r: "recorded t key = Some x"
  then obtain row where row: "t key = Some row" by (auto simp: recorded_def split: option.splits)
  have "rp_result t (key, rr_expected row) = Some x" using r row by (simp add: rp_result_def ident_row_def)
  then have "rp_result (replay_events es t) (key, rr_expected row) = Some x"
    unfolding replay_events_eq by (rule rp.single_result)
  then show ?thesis by (simp add: rp_result_def split: if_splits)
qed

lemma claim_keeps_recorded: "claim_persistent t run now = (res, t') \<Longrightarrow> recorded t' key = recorded t key"
  by (auto simp: claim_persistent_def Let_def replay_claimable_def recorded_def split: option.splits if_splits)

lemma persist_records:
  assumes "persist_run t run now True = (Inr (), t')" and "rr_status run = ''SUCCEEDED''"
  shows "recorded t' (run_key run) = Some (rr_actual run, rr_discrepancy run)" and "recorded t key = Some x \<Longrightarrow> recorded t' key = Some x"
  using assms by (auto simp: persist_run_def recorded_def split: option.splits if_splits)

lemma persist_refused: "persist_run t run now True = (Inl e, t') \<Longrightarrow> t' = t \<and> e = replay_fenced"
  by (auto simp: persist_run_def split: option.splits if_splits)

text \<open>The process-local cache: every run is stored under its own key, and a succeeded one is what
  the table records.\<close>

definition cache_backed :: "replay_world \<Rightarrow> bool" where
  "cache_backed w \<longleftrightarrow> (\<forall>key r. rw_runs w key = Some r \<longrightarrow> run_key r = key \<and>
     (rr_status r = ''SUCCEEDED'' \<longrightarrow> recorded (rw_table w) key = Some (rr_actual r, rr_discrepancy r)))"

definition records_kept :: "replay_table \<Rightarrow> replay_table \<Rightarrow> bool" where
  "records_kept t t' \<longleftrightarrow> (\<forall>key x. recorded t key = Some x \<longrightarrow> recorded t' key = Some x)"

lemma cache_backed_table: "cache_backed w \<Longrightarrow> records_kept (rw_table w) t' \<Longrightarrow> cache_backed (w\<lparr>rw_table := t'\<rparr>)"
  by (simp add: cache_backed_def records_kept_def)

lemma cache_backed_add:
  assumes "cache_backed w" and "run_key r = key" and "rr_status r = ''SUCCEEDED'' \<Longrightarrow> recorded (rw_table w) key = Some (rr_actual r, rr_discrepancy r)"
  shows "cache_backed (w\<lparr>rw_runs := (rw_runs w)(key \<mapsto> r)\<rparr>)"
  using assms by (auto simp: cache_backed_def)

lemma records_kept_events: "records_kept t (replay_events es t)"
  by (simp add: records_kept_def recorded_stays)

lemma records_kept_refl: "records_kept t t"
  by (simp add: records_kept_def)

lemma records_kept_trans: "records_kept t u \<Longrightarrow> records_kept u v \<Longrightarrow> records_kept t v"
  by (simp add: records_kept_def)

lemma cache_backedD: "cache_backed w \<Longrightarrow> rw_runs w key = Some r \<Longrightarrow> rr_status r = ''SUCCEEDED'' \<Longrightarrow>
    recorded (rw_table w) key = Some (rr_actual r, rr_discrepancy r)"
  unfolding cache_backed_def by blast

lemma cache_backed_key: "cache_backed w \<Longrightarrow> rw_runs w key = Some r \<Longrightarrow> run_key r = key"
  unfolding cache_backed_def by blast

lemma records_keptD: "records_kept t t' \<Longrightarrow> recorded t key = Some x \<Longrightarrow> recorded t' key = Some x"
  unfolding records_kept_def by blast

lemma find_prior_backed:
  assumes "cache_backed w" and "find_prior p key e w = (res, w1)"
  shows "cache_backed w1 \<and> rw_table w1 = rw_table w \<and> (\<forall>r. res = Inr (Some r) \<longrightarrow> rw_runs w1 key = Some r)"
proof (cases "rw_runs w key")
  case (Some r)
  then show ?thesis using assms by (auto simp: find_prior_def)
next
  case None
  show ?thesis
  proof (cases "\<exists>r. load_persistent (rw_table w) key e p = Inr (Some r)")
    case True
    then obtain r where r: "load_persistent (rw_table w) key e p = Inr (Some r)" by blast
    then have "run_key r = key" "rr_status r = ''SUCCEEDED'' \<Longrightarrow> recorded (rw_table w) key = Some (rr_actual r, rr_discrepancy r)"
      by (auto simp: load_persistent_def run_key_def recorded_def split: option.splits if_splits)
    then have "cache_backed (w\<lparr>rw_runs := (rw_runs w)(key \<mapsto> r)\<rparr>)" using cache_backed_add assms(1) by blast
    then show ?thesis using assms(2) None r by (auto simp: find_prior_def)
  next
    case False
    then show ?thesis using assms None by (auto simp: find_prior_def split: sum.splits option.splits)
  qed
qed

definition answer_recorded :: "replay_world \<Rightarrow> replay_key \<Rightarrow> replay_answer \<Rightarrow> bool" where
  "answer_recorded w key a \<longleftrightarrow> recorded (rw_table w) key = Some (ra_actual a, ra_discrepancy a) \<and> ra_match a = (ra_discrepancy a = None)"

lemma calculate_backed:
  assumes "cache_backed w" and "run_key run = key" and "rr_status run \<noteq> ''SUCCEEDED''"
    and "calculate_replay digest True key e disc now (replay_events es) calc run w = (res, w')"
  shows "cache_backed w' \<and> records_kept (rw_table w) (rw_table w') \<and> (\<forall>a. res = Inr a \<longrightarrow> answer_recorded w' key a)"
proof -
  define w2 where "w2 = w\<lparr>rw_runs := (rw_runs w)(key \<mapsto> run), rw_table := replay_events es (rw_table w)\<rparr>"
  have w1: "cache_backed (w\<lparr>rw_runs := (rw_runs w)(key \<mapsto> run)\<rparr>)" using cache_backed_add assms by blast
  have w2: "cache_backed w2" using cache_backed_table [OF w1, of "replay_events es (rw_table w)"] records_kept_events by (simp add: w2_def)
  have kept2: "records_kept (rw_table w) (rw_table w2)" using records_kept_events by (simp add: w2_def)
  show ?thesis
  proof (cases "calc ()")
    case (Inl x)
    then show ?thesis using assms(4) w2 kept2 by (auto simp: calculate_replay_def w2_def Let_def)
  next
    case (Inr outp)
    define fin where "fin = run\<lparr>rr_actual := Some (digest outp), rr_expected := e, rr_status := ''SUCCEEDED'',
                   rr_discrepancy := (if hash_mismatch e (digest outp) then Some disc else None)\<rparr>"
    have k: "run_key fin = key" using assms(2) by (simp add: fin_def run_key_def)
    have st: "rr_status fin = ''SUCCEEDED''" by (simp add: fin_def)
    obtain pr t where p: "persist_run (rw_table w2) fin now True = (pr, t)" by fastforce
    have f: "finish_replay True key e disc now run outp (digest outp) w2 = (res, w')"
      using assms(4) Inr by (simp add: calculate_replay_def w2_def Let_def)
    show ?thesis
    proof (cases pr)
      case (Inl x)
      then have "t = rw_table w2" using p persist_refused by blast
      then show ?thesis using f p Inl w2 kept2 by (auto simp: finish_replay_def Let_def fin_def)
    next
      case (Inr u)
      have p': "persist_run (rw_table w2) fin now True = (Inr (), t)" using p Inr by simp
      have kept: "records_kept (rw_table w2) t" using persist_records(2) [OF p' st] by (simp add: records_kept_def)
      have rec: "recorded t key = Some (rr_actual fin, rr_discrepancy fin)" using persist_records(1) [OF p' st] k by simp
      have "cache_backed (w2\<lparr>rw_table := t, rw_runs := (rw_runs w2)(key \<mapsto> fin)\<rparr>)"
        using cache_backed_add [OF cache_backed_table [OF w2 kept] k] rec by simp
      then show ?thesis using f p' rec records_kept_trans [OF kept2 kept] by (auto simp: finish_replay_def Let_def fin_def answer_recorded_def)
    qed
  qed
qed

lemma run_exact_backed:
  assumes "cache_backed w" and "rc_persistent c" and "rc_gap1 c = replay_events es1" and "rc_gap2 c = replay_events es2"
    and "run_exact digest c calculator w = (res, w')"
  shows "cache_backed w' \<and> records_kept (rw_table w) (rw_table w') \<and> (\<forall>a. res = Inr a \<longrightarrow> ra_status a = ''SUCCEEDED'' \<longrightarrow> answer_recorded w' (call_key digest c) a)"
proof -
  define key where "key = call_key digest c"
  obtain pr w1 where f: "find_prior True key (rc_expected c) w = (pr, w1)" by fastforce
  note fp = find_prior_backed [OF assms(1) f]
  consider (err) x where "pr = Inl x" | (old) r where "pr = Inr (Some r)" "rr_status r = ''SUCCEEDED''"
    | (run) prior where "pr = Inr prior" "\<not> (prior \<noteq> None \<and> rr_status (the prior) = ''SUCCEEDED'')"
    by (cases pr; cases "projr pr") fastforce+
  then show ?thesis
  proof cases
    case err
    then show ?thesis using assms(2,5) f fp records_kept_refl by (auto simp: run_exact_def key_def Let_def)
  next
    case old
    then have "recorded (rw_table w1) key = Some (rr_actual r, rr_discrepancy r)" using fp cache_backedD by blast
    then show ?thesis using assms(2,5) f fp old records_kept_refl by (auto simp: run_exact_def key_def Let_def prior_answer_def answer_recorded_def)
  next
    case run
    define r where "r = (case prior of Some r \<Rightarrow> r | None \<Rightarrow> new_replay (rc_run_id c) key (rc_expected c) (rc_owner c))"
    define mine where "mine = r\<lparr>rr_owner := Some (rc_owner c)\<rparr>"
    define w2 where "w2 = w1\<lparr>rw_table := replay_events es1 (rw_table w1)\<rparr>"
    have "run_key r = key"
    proof (cases prior)
      case None
      then show ?thesis by (simp add: r_def run_key_def new_replay_def)
    next
      case (Some x)
      then have "cache_backed w1" "rw_runs w1 key = Some x" using fp run(1) by auto
      then show ?thesis using cache_backed_key Some by (simp add: r_def)
    qed
    then have mk: "run_key mine = key" by (simp add: mine_def run_key_def)
    have w2: "cache_backed w2" using cache_backed_table [of w1 "replay_events es1 (rw_table w1)"] fp records_kept_events by (simp add: w2_def)
    obtain cl t where c: "claim_persistent (rw_table w2) mine (rc_now1 c) = (cl, t)" by fastforce
    have w3: "cache_backed (w2\<lparr>rw_table := t\<rparr>)"
      using cache_backed_table [OF w2, of t] claim_keeps_recorded [OF c] by (simp add: records_kept_def)
    have k2: "records_kept (rw_table w) (rw_table w2)" using fp records_kept_events by (simp add: w2_def)
    have k3: "records_kept (rw_table w) t"
      using records_kept_trans [OF k2, of t] claim_keeps_recorded [OF c] by (simp add: records_kept_def)
    note e = assms(5) [unfolded run_exact_def Let_def key_def [symmetric] eqTrueI [OF assms(2)] f run(1) prod.case sum.case if_not_P [OF run(2)] if_True,
      folded r_def, folded mine_def, unfolded assms(3), folded w2_def]
    show ?thesis
    proof (cases "\<exists>claimed. cl = Inr (Some claimed)")
      case True
      then obtain claimed where cl: "claim_persistent (rw_table w2) mine (rc_now1 c) = (Inr (Some claimed), t)" using c by auto
      have ck: "run_key claimed = key" "rr_status claimed \<noteq> ''SUCCEEDED''"
        by (rule claim_persistent_ok [OF cl], simp add: mk)+
      show ?thesis using calculate_backed [OF w3 ck, of digest "rc_expected c" "rc_disc_id c" "rc_now2 c" es2] e cl assms(4,5)
          records_kept_trans [OF k3] by (auto simp: key_def)
    next
      case False
      then show ?thesis using e c w3 k3 assms(5) by (cases cl) (auto simp: busy_answer_def split: option.splits)
    qed
  qed
qed

text \<open>A success answer of a persistent replay is backed by the table. Whatever other processes
  claim and complete in the two gaps of the call, when it answers SUCCEEDED the table row of its
  identity is SUCCEEDED with the answer's hash and discrepancy, and the process-local cache holds no
  succeeded run that the table does not have.\<close>

theorem replay_success_recorded:
  assumes "cache_backed w" and "rc_persistent c" and "rc_gap1 c = replay_events es1" and "rc_gap2 c = replay_events es2"
    and "run_exact digest c calculator w = (Inr a, w')" and "ra_status a = ''SUCCEEDED''"
  shows "recorded (rw_table w') (call_key digest c) = Some (ra_actual a, ra_discrepancy a) \<and> cache_backed w'"
  using run_exact_backed [OF assms(1-5)] assms(6) by (auto simp: answer_recorded_def)

definition demo_call :: "string \<Rightarrow> replay_call" where
  "demo_call owner = \<lparr>rc_persistent = True, rc_owner = owner, rc_run_id = ''r'' @ owner, rc_disc_id = ''d'' @ owner, rc_decision = ''dec'',
     rc_snapshot = VDict [(''snapshot_id'', VStr ''s'')], rc_expected = Some ''x'', rc_gap1 = replay_events [], rc_gap2 = replay_events [],
     rc_now1 = 0, rc_now2 = 5\<rparr>"

definition empty_replay :: replay_world where
  "empty_replay = \<lparr>rw_runs = Map.empty, rw_table = Map.empty\<rparr>"

lemma success_answer: "(case fst x of Inr a \<Rightarrow> P a | Inl _ \<Rightarrow> False) \<Longrightarrow> \<exists>a. x = (Inr a, snd x) \<and> P a"
  by (cases x) (simp split: sum.splits)

definition demo_world :: replay_world where
  "demo_world = snd (run_exact json_text (demo_call ''w1'') (fixed_projection json_text) empty_replay)"

lemma empty_replay_backed: "cache_backed empty_replay"
  by (simp add: cache_backed_def empty_replay_def)

lemma demo_answer: "\<exists>a. run_exact json_text (demo_call ''w1'') (fixed_projection json_text) empty_replay = (Inr a, demo_world)
    \<and> ra_status a = ''SUCCEEDED'' \<and> \<not> ra_match a \<and> ra_discrepancy a = Some ''dw1''"
proof -
  let ?x = "run_exact json_text (demo_call ''w1'') (fixed_projection json_text) empty_replay"
  have "(case fst ?x of Inr a \<Rightarrow> ra_status a = ''SUCCEEDED'' \<and> \<not> ra_match a \<and> ra_discrepancy a = Some ''dw1'' | _ \<Rightarrow> False)"
    by code_simp
  from success_answer [OF this] show ?thesis by (simp add: demo_world_def)
qed

lemma replay_success_recorded_witness:
  "\<exists>h. recorded (rw_table demo_world) (call_key json_text (demo_call ''w1'')) = Some (h, Some ''dw1'')"
proof -
  obtain a where a: "run_exact json_text (demo_call ''w1'') (fixed_projection json_text) empty_replay = (Inr a, demo_world)"
      "ra_status a = ''SUCCEEDED''" "ra_discrepancy a = Some ''dw1''"
    using demo_answer by blast
  have d: "rc_persistent (demo_call ''w1'')" "rc_gap1 (demo_call ''w1'') = replay_events []" "rc_gap2 (demo_call ''w1'') = replay_events []"
    by (simp_all add: demo_call_def)
  show ?thesis using replay_success_recorded [OF empty_replay_backed d a(1,2)] a(3) by auto
qed

text \<open>C13: Replays of one identity agree. When two persistent processes, with a database configured and process caches that hold only what its table
  recorded, replay the same snapshot with the same expectation and both answer SUCCEEDED, they report the same hash, the same verdict and the same
  discrepancy artifact, even if their calculators disagree and whatever others do in between.\<close>

theorem replay_answers_agree:
  assumes "cache_backed w1" and "rc_persistent c1" and "rc_gap1 c1 = replay_events es1" and "rc_gap2 c1 = replay_events es2"
    and "run_exact digest c1 calc1 w1 = (Inr a1, w1')" and "ra_status a1 = ''SUCCEEDED''"
    and "cache_backed w2" and "rc_persistent c2" and "rc_gap1 c2 = replay_events es3" and "rc_gap2 c2 = replay_events es4"
    and "rw_table w2 = replay_events between (rw_table w1')"
    and "run_exact digest c2 calc2 w2 = (Inr a2, w2')" and "ra_status a2 = ''SUCCEEDED''"
    and "rc_decision c1 = rc_decision c2" and "rc_snapshot c1 = rc_snapshot c2" and "rc_expected c1 = rc_expected c2"
  shows "ra_actual a1 = ra_actual a2 \<and> ra_match a1 = ra_match a2 \<and> ra_discrepancy a1 = ra_discrepancy a2"
proof -
  have key: "call_key digest c1 = call_key digest c2" using assms(14-16) by (simp add: call_key_def)
  note b1 = run_exact_backed [OF assms(1-5)] and b2 = run_exact_backed [OF assms(7-10,12)]
  have r1: "recorded (rw_table w1') (call_key digest c1) = Some (ra_actual a1, ra_discrepancy a1)" "ra_match a1 = (ra_discrepancy a1 = None)"
    using b1 assms(6) by (auto simp: answer_recorded_def)
  have r2: "recorded (rw_table w2') (call_key digest c2) = Some (ra_actual a2, ra_discrepancy a2)" "ra_match a2 = (ra_discrepancy a2 = None)"
    using b2 assms(13) by (auto simp: answer_recorded_def)
  have "recorded (rw_table w2) (call_key digest c1) = Some (ra_actual a1, ra_discrepancy a1)"
    using r1(1) assms(11) recorded_stays by simp
  then have "recorded (rw_table w2') (call_key digest c1) = Some (ra_actual a1, ra_discrepancy a1)"
    using b2 records_keptD by blast
  then show ?thesis using r1(2) r2 key by simp
qed

definition other_world :: replay_world where
  "other_world = demo_world\<lparr>rw_runs := Map.empty\<rparr>"

lemma replay_answers_agree_witness:
  "\<exists>a1 a2 w. run_exact json_text (demo_call ''w2'') (\<lambda>_. Inr VNone) other_world = (Inr a2, w) \<and> ra_discrepancy a2 = Some ''dw1''
     \<and> run_exact json_text (demo_call ''w1'') (fixed_projection json_text) empty_replay = (Inr a1, demo_world) \<and> ra_actual a1 = ra_actual a2"
proof -
  obtain a1 where a1: "run_exact json_text (demo_call ''w1'') (fixed_projection json_text) empty_replay = (Inr a1, demo_world)"
      "ra_status a1 = ''SUCCEEDED''" "ra_discrepancy a1 = Some ''dw1''"
    using demo_answer by blast
  let ?x = "run_exact json_text (demo_call ''w2'') (\<lambda>_. Inr VNone) other_world"
  have "(case fst ?x of Inr a \<Rightarrow> ra_status a = ''SUCCEEDED'' | _ \<Rightarrow> False)" by code_simp
  from success_answer [OF this] obtain a2 w where a2: "?x = (Inr a2, w)" "ra_status a2 = ''SUCCEEDED''" by blast
  have o: "cache_backed other_world" "rw_table other_world = replay_events [] (rw_table demo_world)"
    by (simp_all add: cache_backed_def other_world_def replay_events_def)
  have d: "rc_persistent (demo_call x)" "rc_gap1 (demo_call x) = replay_events []" "rc_gap2 (demo_call x) = replay_events []"
      "rc_decision (demo_call x) = rc_decision (demo_call y)" "rc_snapshot (demo_call x) = rc_snapshot (demo_call y)"
      "rc_expected (demo_call x) = rc_expected (demo_call y)" for x y
    by (simp_all add: demo_call_def)
  show ?thesis using replay_answers_agree [OF empty_replay_backed d(1-3) a1(1,2) o(1) d(1-3) o(2) a2 d(4-6)] a1 a2 by auto
qed

lemma calculate_verdict:
  assumes "calculate_replay digest p key e disc now gap calc run w = (Inr a, w')" and "ra_output a = Some out"
  shows "calc () = Inr out \<and> ra_status a = ''SUCCEEDED'' \<and> ra_actual a = Some (digest out)
    \<and> (ra_match a \<longleftrightarrow> e = None \<or> e = Some (digest out)) \<and> ra_discrepancy a = (if ra_match a then None else Some disc)"
proof -
  obtain o2 w2 where c: "calc () = Inr o2" and f: "finish_replay p key e disc now run o2 (digest o2) w2 = (Inr a, w')"
    using assms(1) by (auto simp: calculate_replay_def Let_def split: sum.splits)
  have "ra_output a = Some o2 \<and> ra_status a = ''SUCCEEDED'' \<and> ra_actual a = Some (digest o2)
    \<and> ra_match a = (\<not> hash_mismatch e (digest o2)) \<and> ra_discrepancy a = (if ra_match a then None else Some disc)"
    using f by (auto simp: finish_replay_def Let_def split: sum.splits prod.splits)
  then show ?thesis using c assms(2) by (auto simp: hash_mismatch_def)
qed

lemma run_exact_fresh:
  assumes "run_exact digest c calculator w = (Inr a, w')" and "ra_output a = Some out"
  shows "\<exists>p key gap run w2. calculate_replay digest p key (rc_expected c) (rc_disc_id c) (rc_now2 c) gap
    (\<lambda>_. calculator (rc_snapshot c)) run w2 = (Inr a, w')"
proof -
  have n: "ra_output (prior_answer r) = None" "ra_output (busy_answer r) = None" for r
    by (simp_all add: prior_answer_def busy_answer_def)
  obtain pr w1 where f: "find_prior (rc_persistent c) (call_key digest c) (rc_expected c) w = (pr, w1)" by fastforce
  obtain prior where pr: "pr = Inr prior" using assms(1) f by (cases pr) (auto simp: run_exact_def Let_def)
  have np: "\<not> (prior \<noteq> None \<and> rr_status (the prior) = ''SUCCEEDED'')"
    using assms f pr n(1) [of "the prior"] by (auto simp: run_exact_def Let_def split: if_splits)
  define r where "r = (case prior of Some r \<Rightarrow> r | None \<Rightarrow> new_replay (rc_run_id c) (call_key digest c) (rc_expected c) (rc_owner c))"
  define mine where "mine = r\<lparr>rr_owner := Some (rc_owner c)\<rparr>"
  define w2 where "w2 = w1\<lparr>rw_table := rc_gap1 c (rw_table w1)\<rparr>"
  note e = assms(1) [unfolded run_exact_def Let_def f pr prod.case sum.case if_not_P [OF np], folded r_def, folded mine_def w2_def]
  show ?thesis
  proof (cases "rc_persistent c")
    case True
    obtain cl t where c: "claim_persistent (rw_table w2) mine (rc_now1 c) = (cl, t)" by fastforce
    obtain claimed where "cl = Inr (Some claimed)"
      using e assms(2) n(2) [of mine] True c by (auto split: sum.splits option.splits)
    then have "calculate_replay digest True (call_key digest c) (rc_expected c) (rc_disc_id c) (rc_now2 c) (rc_gap2 c)
        (\<lambda>_. calculator (rc_snapshot c)) claimed (w2\<lparr>rw_table := t\<rparr>) = (Inr a, w')"
      using e True c by simp
    then show ?thesis by blast
  next
    case False
    show ?thesis using e [unfolded if_not_P [OF False]] by blast
  qed
qed

text \<open>The verdict of a replay, in the process-local mode as in the persistent one: a fresh
  calculation reports the digest of its output and matches exactly when no hash was expected or the
  expected one was produced; a discrepancy artifact is created exactly on a mismatch.\<close>

theorem replay_verdict:
  assumes "run_exact digest c calculator w = (Inr a, w')" and "ra_output a = Some out"
  shows "calculator (rc_snapshot c) = Inr out \<and> ra_status a = ''SUCCEEDED'' \<and> ra_actual a = Some (digest out)
    \<and> (ra_match a \<longleftrightarrow> rc_expected c = None \<or> rc_expected c = Some (digest out))
    \<and> ra_discrepancy a = (if ra_match a then None else Some (rc_disc_id c))"
  using run_exact_fresh [OF assms] calculate_verdict [OF _ assms(2)] by blast

lemma replay_verdict_witness:
  "\<exists>a w. run_exact json_text (demo_call ''w1'') (\<lambda>_. Inr (VInt 1)) empty_replay = (Inr a, w) \<and> \<not> ra_match a \<and> ra_actual a = Some ''1''"
proof -
  let ?x = "run_exact json_text (demo_call ''w1'') (\<lambda>_. Inr (VInt 1)) empty_replay"
  have "(case fst ?x of Inr a \<Rightarrow> ra_output a = Some (VInt 1) | _ \<Rightarrow> False)" by code_simp
  from success_answer [OF this] obtain a w where a: "?x = (Inr a, w)" "ra_output a = Some (VInt 1)" by blast
  have t: "json_text (VInt 1) = ''1''" "rc_expected (demo_call ''w1'') = Some ''x''" by code_simp+
  show ?thesis using replay_verdict [OF a] a t by auto
qed

text \<open>A claim fences every run claimed before it. Once another process has claimed the identity,
  the success of a run with an older token is refused with REPLAY_RUN_FENCED and leaves the table
  alone, for ever.\<close>

theorem stale_replay_fenced:
  assumes "rp_claim t k owner now run_id = (Some n, t')" and "run_key run = fst k" and "rr_token run < n" and "0 \<le> rr_token run"
  shows "persist_run (replay_events es t') run now' True = (Inl replay_fenced, replay_events es t')"
proof -
  have "rp_lease t' k = Some (owner, n, replay_expiry now run_id)" using rp.claim_ok [OF assms(1)] by blast
  then have "rp_token t' k = n" using rp.lease_token by blast
  then have tok: "n \<le> rp_token (replay_events es t') k" using rp.token_mono [of t' k es] by (simp add: replay_events_eq)
  show ?thesis using tok assms(2-4)
    by (auto simp: persist_run_def rp_token_def ident_row_def split: option.splits if_splits)
qed

definition demo_ident :: replay_ident where
  "demo_ident = ((''dec'', ''h''), None)"

definition first_claimed :: replay_table where
  "first_claimed = snd (rp_claim Map.empty demo_ident ''w1'' 0 ''r1'')"

definition second_claimed :: replay_table where
  "second_claimed = snd (rp_claim first_claimed demo_ident ''w2'' 60000000 ''r2'')"

lemma stale_replay_fenced_witness:
  "persist_run (replay_events [Claim demo_ident ''w3'' 200000000 ''r3''] second_claimed) (completed_run demo_ident (''w1'', 1, 60000000) (Some ''a'', None)) 5 True
   = (Inl replay_fenced, replay_events [Claim demo_ident ''w3'' 200000000 ''r3''] second_claimed)"
proof -
  have "fst (rp_claim first_claimed demo_ident ''w2'' 60000000 ''r2'') = Some 2" by code_simp
  then have c: "rp_claim first_claimed demo_ident ''w2'' 60000000 ''r2'' = (Some 2, second_claimed)"
    by (simp add: second_claimed_def prod_eq_iff)
  have r: "run_key (completed_run demo_ident (''w1'', 1, 60000000) (Some ''a'', None)) = fst demo_ident"
      "rr_token (completed_run demo_ident (''w1'', 1, 60000000) (Some ''a'', None)) = 1"
    by (simp_all add: completed_run_def new_replay_def run_key_def)
  show ?thesis by (rule stale_replay_fenced [OF c r(1)]) (simp_all add: r(2))
qed

end
