(* ===== verification/Authorization.thy ===== *)
theory Authorization
  imports Proposal
begin

text \<open>
  Who may execute: the execution-authorization envelope and its finalizer
  (\<open>app/domain/decision/execution_authorization.py\<close>) and the authority markers of public answers
  (\<open>app/domain/decision/authority.py\<close>). A decision or governance object is read through its fields, as
  a dictionary; a missing attribute reads as \<open>None\<close>. Notionals are finite decimals, as rationals;
  instants are integers; the new envelope id and the two clock readings are arguments. The context
  variable of the finalizer is the flag \<open>inside\<close>.
\<close>

record envelope =
  ev_contract :: string
  ev_envelope_id :: string
  ev_decision_id :: string
  ev_decision_snapshot_id :: string
  ev_portfolio_id :: string
  ev_allowed_actions :: "string list"
  ev_max_notional :: rat
  ev_valid_until :: py_datetime
  ev_contract_checksums :: "(string \<times> string) list"
  ev_authority :: string

definition aware_le :: "py_datetime \<Rightarrow> int \<Rightarrow> bool result" where
  "aware_le t now = (case t of Aware x \<Rightarrow> Inr (x \<le> now)
     | Naive _ \<Rightarrow> Inl (TypeError ''can't compare offset-naive and offset-aware datetimes''))"

definition envelope_fields :: "envelope \<Rightarrow> unit result" where
  "envelope_fields e = check_that (ev_envelope_id e \<noteq> [] \<and> ev_decision_id e \<noteq> [] \<and> ev_decision_snapshot_id e \<noteq> []
     \<and> ev_portfolio_id e \<noteq> []) ''String should have at least 1 character'' "

definition validate_envelope :: "envelope \<Rightarrow> int \<Rightarrow> envelope result" where
  "validate_envelope e now =
     bindR (envelope_fields e) (\<lambda>_.
     bindR (check_that (0 \<le> ev_max_notional e) ''Input should be greater than or equal to 0'') (\<lambda>_.
     bindR (check_that (ev_contract e = ''execution-authorization.v1'' \<and> ev_authority e = ''FORMAL'') ''FORMAL_AUTHORIZATION_REQUIRED'') (\<lambda>_.
     bindR (aware_le (ev_valid_until e) now) (\<lambda>expired.
     bindR (check_that (\<not> expired) ''AUTHORIZATION_EXPIRED'') (\<lambda>_.
     bindR (check_that (ev_allowed_actions e \<noteq> []) ''ALLOWED_ACTIONS_REQUIRED'') (\<lambda>_.
     bindR (check_that (ev_contract_checksums e \<noteq> [] \<and> (\<forall>(_, v) \<in> set (ev_contract_checksums e). starts_with v ''sha256:''))
              ''CONTRACT_CHECKSUM_REQUIRED'') (\<lambda>_.
     Inr e)))))))"

definition envelope_init :: "bool \<Rightarrow> envelope \<Rightarrow> int \<Rightarrow> envelope result" where
  "envelope_init inside e now = (if \<not> inside then Inl (TypeError ''EXECUTION_AUTHORIZATION_FINALIZER_ONLY'') else validate_envelope e now)"

definition envelope_construct :: "bool \<Rightarrow> envelope \<Rightarrow> envelope result" where
  "envelope_construct inside e = (if \<not> inside then Inl (TypeError ''EXECUTION_AUTHORIZATION_FINALIZER_ONLY'') else Inr e)"

definition envelope_copy :: "envelope \<Rightarrow> (string \<times> pyval) list \<Rightarrow> envelope result" where
  "envelope_copy e update = (if update \<noteq> [] then Inl (TypeError ''EXECUTION_AUTHORIZATION_IMMUTABLE'') else Inr e)"

subsection \<open>The finalizer\<close>

definition approved_actions :: "string set" where
  "approved_actions = {''APPROVED'', ''APPROVE'', ''APPROVE_WITH_ADJUSTMENT'', ''BUY'', ''SELL''}"

definition passive_actions :: "string set" where
  "passive_actions = {''HOLD'', ''WATCH'', ''VETO'', ''REJECTED'', ''REJECT''}"

definition decision_state :: "(string \<times> pyval) list \<Rightarrow> string" where
  "decision_state d = str_upper (py_str (py_or (get_item d ''state'') (get_item d ''status'')))"

definition decision_action :: "(string \<times> pyval) list \<Rightarrow> pyval" where
  "decision_action d = py_or (py_or (get_item d ''investment_action'') (get_item d ''action'')) (get_item d ''status'')"

definition require :: "bool \<Rightarrow> string \<Rightarrow> unit result" where
  "require ok m = (if ok then Inr () else Inl (ValueError m))"

lemma require_Inr [simp]: "require ok m = Inr u \<longleftrightarrow> ok"
  by (simp add: require_def)

definition only_passive :: "string list \<Rightarrow> bool" where
  "only_passive actions \<longleftrightarrow> (\<forall>a \<in> set actions. str_upper a \<in> {''HOLD'', ''WATCH'', ''VETO''})"

definition check_action :: "(string \<times> pyval) list \<Rightarrow> string list \<Rightarrow> rat \<Rightarrow> unit result" where
  "check_action d actions max_notional =
     (if decision_action d = VNone then Inr ()
      else let normalized = str_upper (py_str (decision_action d)) in
        bindR (require (normalized \<notin> passive_actions) ''EXECUTION_NOT_ELIGIBLE'') (\<lambda>_.
        bindR (require (normalized \<in> approved_actions) ''EXECUTION_ACTION_NOT_APPROVED'') (\<lambda>_.
        bindR (require (actions \<noteq> [] \<and> \<not> only_passive actions) ''ALLOWED_ACTIONS_REQUIRED'') (\<lambda>_.
        require (0 < max_notional) ''POSITIVE_NOTIONAL_REQUIRED''))))"

definition required_lineage :: "string list" where
  "required_lineage = [''trace_id'', ''request_id'', ''decision_bundle_id'', ''decision_id'', ''decision_snapshot_id'',
     ''market_snapshot_id'', ''factor_artifact_id'', ''content_snapshot_id'', ''portfolio_id'', ''policy_version'', ''producer_commit'']"

record finalize_request =
  fq_decision :: "(string \<times> pyval) list"
  fq_snapshot_id :: string
  fq_governance :: "(string \<times> pyval) list"
  fq_policy_version :: string
  fq_lineage :: "(string \<times> pyval) list"
  fq_valid_until :: py_datetime
  fq_portfolio_id :: string
  fq_checksums :: "(string \<times> string) list"
  fq_actions :: "string list"
  fq_max_notional :: rat
  fq_strategy_version :: "string option"

definition envelope_of :: "finalize_request \<Rightarrow> string \<Rightarrow> envelope" where
  "envelope_of q fresh = \<lparr>ev_contract = ''execution-authorization.v1'', ev_envelope_id = fresh,
     ev_decision_id = py_str (py_or (get_item (fq_decision q) ''decision_id'') (get_item (fq_lineage q) ''decision_id'')),
     ev_decision_snapshot_id = fq_snapshot_id q, ev_portfolio_id = fq_portfolio_id q, ev_allowed_actions = fq_actions q,
     ev_max_notional = fq_max_notional q, ev_valid_until = fq_valid_until q, ev_contract_checksums = fq_checksums q,
     ev_authority = ''FORMAL''\<rparr>"

definition finalize_checks :: "finalize_request \<Rightarrow> int \<Rightarrow> unit result" where
  "finalize_checks q now =
     bindR (require (decision_state (fq_decision q) = ''FINALIZED'') ''DECISION_NOT_FINALIZED'') (\<lambda>_.
     bindR (check_action (fq_decision q) (fq_actions q) (fq_max_notional q)) (\<lambda>_.
     bindR (require (fq_snapshot_id q \<noteq> []) ''DECISION_SNAPSHOT_REQUIRED'') (\<lambda>_.
     bindR (require (get_item (fq_governance q) ''approved'' = VBool True) ''GOVERNANCE_REQUIRED'') (\<lambda>_.
     bindR (require (fq_policy_version q \<noteq> []) ''POLICY_VERSION_REQUIRED'') (\<lambda>_.
     bindR (require (\<forall>s \<in> set_option (fq_strategy_version q). \<not> blank s) ''STRATEGY_VERSION_REQUIRED'') (\<lambda>_.
     bindR (require (get_item (fq_lineage q) ''policy_version'' = VStr (fq_policy_version q)) ''POLICY_LINEAGE_MISMATCH'') (\<lambda>_.
     bindR (require (set required_lineage \<subseteq> set (dict_keys (fq_lineage q))) ''LINEAGE_REQUIRED'') (\<lambda>_.
     bindR (require (is_aware (fq_valid_until q)) ''VALID_UNTIL_MUST_BE_TIMEZONE_AWARE'') (\<lambda>_.
     bindR (require (now < instant (fq_valid_until q)) ''AUTHORIZATION_EXPIRED'') (\<lambda>_.
     bindR (require (py_str (get_item (fq_lineage q) ''decision_snapshot_id'') = fq_snapshot_id q) ''SNAPSHOT_LINEAGE_MISMATCH'') (\<lambda>_.
     require (py_str (get_item (fq_lineage q) ''portfolio_id'') = fq_portfolio_id q) ''PORTFOLIO_LINEAGE_MISMATCH'')))))))))))"

definition authorize :: "finalize_request \<Rightarrow> string \<Rightarrow> int \<Rightarrow> int \<Rightarrow> envelope result" where
  "authorize q fresh now1 now2 = bindR (finalize_checks q now1) (\<lambda>_. envelope_init True (envelope_of q fresh) now2)"

subsection \<open>Authority of public answers\<close>

datatype authority = FORMAL | ANALYSIS_ONLY | COMPATIBILITY_READ_ONLY

fun authority_text :: "authority \<Rightarrow> string" where
  "authority_text FORMAL = ''FORMAL''"
| "authority_text ANALYSIS_ONLY = ''ANALYSIS_ONLY''"
| "authority_text COMPATIBILITY_READ_ONLY = ''COMPATIBILITY_READ_ONLY''"

datatype formal_status = FS_HOLD | FS_APPROVED | FS_REJECTED

record formal_response =
  fr_contract :: string
  fr_authority :: authority
  fr_decision_id :: string
  fr_decision_snapshot_id :: string
  fr_decision_bundle_id :: string
  fr_portfolio_id :: string
  fr_status :: formal_status
  fr_execution_eligible :: bool
  fr_valid_until :: py_datetime
  fr_lineage :: "(string \<times> pyval) list"

definition validate_formal :: "formal_response \<Rightarrow> formal_response result" where
  "validate_formal r =
     bindR (check_that (fr_decision_id r \<noteq> [] \<and> fr_decision_snapshot_id r \<noteq> [] \<and> fr_decision_bundle_id r \<noteq> [] \<and> fr_portfolio_id r \<noteq> [])
              ''String should have at least 1 character'') (\<lambda>_.
     bindR (check_that (fr_contract r = ''formal-decision.v2'') ''FORMAL_CONTRACT_REQUIRED'') (\<lambda>_.
     bindR (check_that (fr_authority r = FORMAL) ''FORMAL_AUTHORITY_REQUIRED'') (\<lambda>_.
     bindR (check_that ({''market_snapshot_id'', ''factor_artifact_id'', ''content_snapshot_id'', ''policy_version'', ''producer_commit''}
              \<subseteq> set (dict_keys (fr_lineage r))) ''LINEAGE_REQUIRED'') (\<lambda>_.
     Inr r))))"

definition analysis_response :: "(string \<times> pyval) list \<Rightarrow> bool \<Rightarrow> (string \<times> pyval) list" where
  "analysis_response payload compatibility =
     (let r0 = foldl dict_pop payload [''execution_eligible'', ''authorization_envelope'', ''execution_authorization'', ''allowed_actions'', ''max_notional''];
          r1 = dict_set r0 ''authority'' (VStr (authority_text (if compatibility then COMPATIBILITY_READ_ONLY else ANALYSIS_ONLY)))
      in dict_set r1 ''execution_eligible'' (VBool False))"

subsection \<open>Properties\<close>

text \<open>The reference: when an envelope may be issued.\<close>

definition authorized :: "finalize_request \<Rightarrow> int \<Rightarrow> bool" where
  "authorized q now \<longleftrightarrow> decision_state (fq_decision q) = ''FINALIZED''
     \<and> (decision_action (fq_decision q) \<noteq> VNone \<longrightarrow>
          str_upper (py_str (decision_action (fq_decision q))) \<in> approved_actions
          \<and> (\<exists>a \<in> set (fq_actions q). str_upper a \<notin> {''HOLD'', ''WATCH'', ''VETO''}) \<and> 0 < fq_max_notional q)
     \<and> get_item (fq_governance q) ''approved'' = VBool True
     \<and> fq_policy_version q \<noteq> [] \<and> get_item (fq_lineage q) ''policy_version'' = VStr (fq_policy_version q)
     \<and> set required_lineage \<subseteq> set (dict_keys (fq_lineage q))
     \<and> fq_snapshot_id q \<noteq> [] \<and> py_str (get_item (fq_lineage q) ''decision_snapshot_id'') = fq_snapshot_id q
     \<and> fq_portfolio_id q \<noteq> [] \<and> py_str (get_item (fq_lineage q) ''portfolio_id'') = fq_portfolio_id q
     \<and> (\<forall>s \<in> set_option (fq_strategy_version q). \<not> blank s)
     \<and> (\<exists>t. fq_valid_until q = Aware t \<and> now < t)
     \<and> fq_actions q \<noteq> [] \<and> 0 \<le> fq_max_notional q
     \<and> fq_checksums q \<noteq> [] \<and> (\<forall>(_, v) \<in> set (fq_checksums q). starts_with v ''sha256:'')"

lemma passive_not_approved: "a \<in> approved_actions \<Longrightarrow> a \<notin> passive_actions"
  by (auto simp: approved_actions_def passive_actions_def)

lemma check_action_ok: "check_action d actions n = Inr () \<longleftrightarrow> (decision_action d \<noteq> VNone \<longrightarrow>
    str_upper (py_str (decision_action d)) \<in> approved_actions \<and> (\<exists>a \<in> set actions. str_upper a \<notin> {''HOLD'', ''WATCH'', ''VETO''}) \<and> 0 < n)"
  by (auto simp: check_action_def Let_def bindR_Inr_iff only_passive_def dest: passive_not_approved)

lemma validate_envelope_ok: "validate_envelope e now = Inr e' \<longleftrightarrow> e' = e \<and> ev_envelope_id e \<noteq> [] \<and> ev_decision_id e \<noteq> []
    \<and> ev_decision_snapshot_id e \<noteq> [] \<and> ev_portfolio_id e \<noteq> [] \<and> 0 \<le> ev_max_notional e
    \<and> ev_contract e = ''execution-authorization.v1'' \<and> ev_authority e = ''FORMAL''
    \<and> (\<exists>t. ev_valid_until e = Aware t \<and> now < t) \<and> ev_allowed_actions e \<noteq> []
    \<and> ev_contract_checksums e \<noteq> [] \<and> (\<forall>(_, v) \<in> set (ev_contract_checksums e). starts_with v ''sha256:'')"
  by (cases "ev_valid_until e") (auto simp: validate_envelope_def envelope_fields_def aware_le_def bindR_Inr_iff)

text \<open>C14: The finalizer issues an envelope exactly when the decision is authorized. Clock readings
  do not go back; the new id and the decision id are not empty. The envelope is then the one formed
  from the request.\<close>

theorem authorize_iff_authorized:
  assumes "fresh \<noteq> []" and "ev_decision_id (envelope_of q fresh) \<noteq> []" and "now1 \<le> now2"
  shows "authorize q fresh now1 now2 = Inr e \<longleftrightarrow> authorized q now2 \<and> e = envelope_of q fresh"
proof -
  have env: "ev_envelope_id (envelope_of q fresh) = fresh" "ev_decision_snapshot_id (envelope_of q fresh) = fq_snapshot_id q"
    "ev_portfolio_id (envelope_of q fresh) = fq_portfolio_id q" "ev_allowed_actions (envelope_of q fresh) = fq_actions q"
    "ev_max_notional (envelope_of q fresh) = fq_max_notional q" "ev_valid_until (envelope_of q fresh) = fq_valid_until q"
    "ev_contract_checksums (envelope_of q fresh) = fq_checksums q" "ev_authority (envelope_of q fresh) = ''FORMAL''"
    "ev_contract (envelope_of q fresh) = ''execution-authorization.v1''"
    by (simp_all add: envelope_of_def)
  have c: "authorize q fresh now1 now2 = Inr e \<longleftrightarrow> finalize_checks q now1 = Inr () \<and> validate_envelope (envelope_of q fresh) now2 = Inr e"
    by (auto simp: authorize_def bindR_Inr_iff envelope_init_def)
  show ?thesis
  proof (cases "fq_valid_until q")
    case (Aware t)
    have "now1 < t" if "now2 < t" using that assms(3) by simp
    then show ?thesis using assms(1,2) Aware unfolding c validate_envelope_ok env finalize_checks_def authorized_def
      by (simp add: bindR_Inr_iff check_action_ok) blast
  next
    case (Naive t)
    then show ?thesis unfolding c validate_envelope_ok env authorized_def by simp
  qed
qed

definition example_finalize :: finalize_request where
  "example_finalize = \<lparr>fq_decision = [(''state'', VStr ''finalized''), (''action'', VStr ''buy''), (''decision_id'', VStr ''d1'')],
     fq_snapshot_id = ''s1'', fq_governance = [(''approved'', VBool True)], fq_policy_version = ''p1'',
     fq_lineage = map (\<lambda>k. (k, VStr (if k = ''policy_version'' then ''p1'' else if k = ''decision_snapshot_id'' then ''s1''
        else if k = ''portfolio_id'' then ''f1'' else ''x''))) required_lineage,
     fq_valid_until = Aware 100, fq_portfolio_id = ''f1'', fq_checksums = [(''c'', ''sha256:00'')], fq_actions = [''BUY''],
     fq_max_notional = 1000, fq_strategy_version = None\<rparr>"

lemma authorize_iff_authorized_witness:
  "authorize example_finalize ''e1'' 10 20 = Inr (envelope_of example_finalize ''e1'') \<and> \<not> isl (authorize example_finalize ''e1'' 10 20)"
proof -
  have f: "''e1'' \<noteq> ''''" "ev_decision_id (envelope_of example_finalize ''e1'') \<noteq> []" "(10::int) \<le> 20" by code_simp+
  have "\<not> isl (authorize example_finalize ''e1'' 10 20)" by code_simp
  then obtain e where e: "authorize example_finalize ''e1'' 10 20 = Inr e" by (rule not_islE)
  then show ?thesis using authorize_iff_authorized [OF f, of e] by simp
qed

text \<open>An analysis answer carries no execution authority: whatever the payload says, the answer is
  not eligible for execution, its authority is not FORMAL, and it has no envelope, authorization,
  actions or notional; every other field of the payload is kept.\<close>

theorem analysis_never_executable:
  "get_item (analysis_response payload legacy) ''execution_eligible'' = VBool False
   \<and> get_item (analysis_response payload legacy) ''authority'' \<noteq> VStr (authority_text FORMAL)
   \<and> (\<forall>k \<in> {''authorization_envelope'', ''execution_authorization'', ''allowed_actions'', ''max_notional''}.
        dict_get (analysis_response payload legacy) k = None)
   \<and> (\<forall>k. k \<notin> {''execution_eligible'', ''authority'', ''authorization_envelope'', ''execution_authorization'', ''allowed_actions'', ''max_notional''}
        \<longrightarrow> dict_get (analysis_response payload legacy) k = dict_get payload k)"
  by (auto simp: analysis_response_def Let_def)

lemma analysis_never_executable_witness:
  "dict_get (analysis_response [(''max_notional'', VInt 5), (''a'', VInt 1)] True) ''a'' = Some (VInt 1)
   \<and> dict_get (analysis_response [(''max_notional'', VInt 5), (''a'', VInt 1)] True) ''max_notional'' = None"
  using analysis_never_executable [of "[(''max_notional'', VInt 5), (''a'', VInt 1)]" True] by simp

text \<open>Outside the finalizer no envelope can be made, by the constructor, by \<open>model_construct\<close> or by a
  changed copy.\<close>

lemma envelope_only_in_finalizer:
  "isl (envelope_init False e now) \<and> isl (envelope_construct False e) \<and> (update \<noteq> [] \<longrightarrow> isl (envelope_copy e update))"
  by (simp add: envelope_init_def envelope_construct_def envelope_copy_def)

end
