(* ===== verification/TaskGraph.thy ===== *)
theory TaskGraph
  imports PyVal "HOL-Library.List_Lexorder" "HOL-Library.Char_ord" "HOL-Library.Multiset"
begin

text \<open>
  The task graph of the agent supervisor (\<open>agent/task_graph.py\<close>): adding a task with its
  dependencies, and the topological layers. The two dictionaries are association lists in insertion
  order, a dependency set is a list without duplicates. A failing \<open>add_task\<close> keeps the changes it
  has already made, as in the code. Names are compared by character, as \<open>sorted\<close> does.
\<close>

record 'a task_graph =
  tg_tasks :: "(string \<times> 'a) list"
  tg_deps :: "(string \<times> string list) list"

definition empty_graph :: "'a task_graph" where
  "empty_graph = \<lparr>tg_tasks = [], tg_deps = []\<rparr>"

abbreviation TaskGraphError :: "string \<Rightarrow> exc" where
  "TaskGraphError m \<equiv> PyExc ''TaskGraphError'' m"

definition ready_tasks :: "(string \<times> string list) list \<Rightarrow> string list" where
  "ready_tasks rem = sort (map fst (filter (\<lambda>(_, ds). ds = []) rem))"

definition drop_ready :: "string list \<Rightarrow> (string \<times> string list) list \<Rightarrow> (string \<times> string list) list" where
  "drop_ready ready rem = map (\<lambda>(k, ds). (k, filter (\<lambda>d. d \<notin> set ready) ds)) (filter (\<lambda>(k, _). k \<notin> set ready) rem)"

lemma set_ready [simp]: "set (ready_tasks rem) = {k. (k, []) \<in> set rem}"
  by (force simp: ready_tasks_def)

lemma drop_ready_shorter: "ready_tasks rem \<noteq> [] \<Longrightarrow> length (drop_ready (ready_tasks rem) rem) < length rem"
proof -
  assume "ready_tasks rem \<noteq> []"
  then obtain k where "k \<in> set (ready_tasks rem)" by (cases "ready_tasks rem") auto
  then have "(k, []) \<in> set rem" by simp
  then show ?thesis by (auto simp: drop_ready_def intro!: length_filter_less [of "(k, [])"])
qed

function topological_layers :: "(string \<times> string list) list \<Rightarrow> string list list result" where
  "topological_layers rem = (if rem = [] then Inr []
     else let ready = ready_tasks rem in
       if ready = [] then Inl (TaskGraphError ''task graph contains a cycle'')
       else bindR (topological_layers (drop_ready ready rem)) (\<lambda>ls. Inr (ready # ls)))"
  by pat_completeness auto
termination by (relation "measure length") (auto simp: drop_ready_shorter)

declare topological_layers.simps [simp del]

definition add_task :: "'a task_graph \<Rightarrow> string \<Rightarrow> 'a \<Rightarrow> string list \<Rightarrow> unit result \<times> 'a task_graph" where
  "add_task g i task depends_on =
     (if i \<in> set (dict_keys (tg_tasks g)) then (Inl (TaskGraphError (''duplicate task_id: '' @ i)), g)
      else let g1 = g\<lparr>tg_tasks := dict_set (tg_tasks g) i task\<rparr>; deps = dedup depends_on;
               unknown = filter (\<lambda>d. d \<notin> set (dict_keys (tg_tasks g1))) deps
      in if unknown \<noteq> [] then (Inl (TaskGraphError (''unknown dependency: '' @ py_repr (VList (map VStr (sort unknown))))), g1)
      else let g2 = g1\<lparr>tg_deps := dict_set (tg_deps g1) i deps\<rparr> in
        (case topological_layers (tg_deps g2) of Inl e \<Rightarrow> (Inl e, g2) | Inr _ \<Rightarrow> (Inr (), g2)))"

definition graph_dependencies :: "'a task_graph \<Rightarrow> string \<Rightarrow> string list" where
  "graph_dependencies g i = (case dict_get (tg_deps g) i of None \<Rightarrow> [] | Some ds \<Rightarrow> ds)"

subsection \<open>The layers\<close>

text \<open>A ranking of the tasks under which every dependency is a task of lower rank.\<close>

definition ranked :: "(string \<Rightarrow> nat) \<Rightarrow> (string \<times> string list) list \<Rightarrow> bool" where
  "ranked r rem \<longleftrightarrow> (\<forall>(k, ds) \<in> set rem. \<forall>d \<in> set ds. d \<in> set (map fst rem) \<and> r d < r k)"

definition layered :: "string list list \<Rightarrow> (string \<times> string list) list \<Rightarrow> bool" where
  "layered ls rem \<longleftrightarrow> mset (concat ls) = mset (map fst rem)
     \<and> (\<forall>n < length ls. ls ! n \<noteq> [] \<and> sorted (ls ! n)
          \<and> (\<forall>k \<in> set (ls ! n). \<forall>ds. (k, ds) \<in> set rem \<longrightarrow> set ds \<subseteq> set (concat (take n ls))))"

lemma keys_drop_ready: "map fst (drop_ready ready rem) = filter (\<lambda>k. k \<notin> set ready) (map fst rem)"
  by (induction rem) (auto simp: drop_ready_def)

lemma mset_ready: "distinct (map fst rem) \<Longrightarrow> mset (ready_tasks rem) = mset (filter (\<lambda>k. k \<in> set (ready_tasks rem)) (map fst rem))"
proof -
  assume d: "distinct (map fst rem)"
  have "distinct (ready_tasks rem)" using d by (simp add: ready_tasks_def distinct_map_filter)
  then show ?thesis using d by (intro set_eq_iff_mset_eq_distinct [THEN iffD1]) (auto intro: rev_image_eqI)
qed

lemma layers_layered:
  assumes "topological_layers rem = Inr ls" and "distinct (map fst rem)"
  shows "layered ls rem"
  using assms
proof (induction rem arbitrary: ls rule: topological_layers.induct)
  case (1 rem)
  show ?case
  proof (cases "rem = []")
    case True
    then show ?thesis using 1 by (simp add: topological_layers.simps layered_def)
  next
    case False
    define ready where "ready = ready_tasks rem"
    define rest where "rest = drop_ready ready rem"
    obtain ls' where r: "ready \<noteq> []" and l: "topological_layers rest = Inr ls'" "ls = ready # ls'"
      using "1.prems"(1) False by (auto simp: topological_layers.simps [of rem] Let_def bindR_Inr_iff ready_def rest_def split: if_splits)
    have "distinct (map fst rest)" using "1.prems"(2) by (simp add: rest_def keys_drop_ready del: filter_map)
    then have ih: "layered ls' rest" using "1.IH" False r l(1) by (simp add: ready_def rest_def)
    have "mset (concat ls') = mset (filter (\<lambda>k. k \<notin> set ready) (map fst rem))"
      using ih unfolding layered_def rest_def keys_drop_ready by blast
    then have "mset (concat ls) = mset (filter (\<lambda>k. k \<in> set ready) (map fst rem)) + mset (filter (\<lambda>k. k \<notin> set ready) (map fst rem))"
      using mset_ready [OF "1.prems"(2), folded ready_def] by (simp only: l(2) concat.simps mset_append)
    then have "mset (concat ls) = mset (map fst rem)" by (simp only: mset_filter multiset_partition [symmetric])
    moreover have "ls ! n \<noteq> [] \<and> sorted (ls ! n) \<and> (\<forall>k \<in> set (ls ! n). \<forall>ds. (k, ds) \<in> set rem \<longrightarrow> set ds \<subseteq> set (concat (take n ls)))"
      if n: "n < length ls" for n
    proof (cases n)
      case 0
      have nil: "ds = []" if "k \<in> set ready" "(k, ds) \<in> set rem" for k ds
        using that eq_key_imp_eq_value [OF "1.prems"(2), of k ds "[]"] by (simp add: ready_def)
      have "\<forall>k \<in> set ready. \<forall>ds. (k, ds) \<in> set rem \<longrightarrow> set ds \<subseteq> {}"
        by (intro ballI allI impI) (use nil in simp)
      moreover have "sorted ready" by (simp add: ready_def ready_tasks_def)
      ultimately show ?thesis using 0 r by (simp add: l(2))
    next
      case (Suc m)
      have m: "m < length ls'" using n Suc l(2) by simp
      have ds: "set ds \<subseteq> set ready \<union> set (concat (take m ls'))" if k: "k \<in> set (ls' ! m)" "(k, ds) \<in> set rem" for k ds
      proof -
        have "k \<in> set (concat ls')" using nth_mem [OF m] k(1) by auto
        then have "k \<in> set (map fst rest)" using ih by (metis layered_def mset_eq_setD)
        then have "k \<notin> set ready" by (auto simp: rest_def keys_drop_ready simp del: set_ready)
        then have "(k, filter (\<lambda>d. d \<notin> set ready) ds) \<in> set rest" using k(2) by (force simp: rest_def drop_ready_def)
        then have "set (filter (\<lambda>d. d \<notin> set ready) ds) \<subseteq> set (concat (take m ls'))" using ih m k(1) unfolding layered_def by blast
        then show ?thesis by auto
      qed
      have "ls' ! m \<noteq> [] \<and> sorted (ls' ! m)" using ih m by (simp add: layered_def)
      then show ?thesis using ds Suc by (simp add: l(2))
    qed
    ultimately show ?thesis by (simp add: layered_def)
  qed
qed

lemma rankedD: "ranked r rem \<Longrightarrow> (k, ds) \<in> set rem \<Longrightarrow> d \<in> set ds \<Longrightarrow> d \<in> set (map fst rem) \<and> r d < r k"
  unfolding ranked_def by blast

lemma ranked_ready: "ranked r rem \<Longrightarrow> rem \<noteq> [] \<Longrightarrow> ready_tasks rem \<noteq> []"
proof -
  assume r: "ranked r rem" and "rem \<noteq> []"
  then obtain x where x: "x \<in> set rem" "\<And>y. y \<in> set rem \<Longrightarrow> r (fst x) \<le> r (fst y)"
    using ex_min_if_finite arg_min_if_finite [of "set rem" "\<lambda>y. r (fst y)"] by (metis List.finite_set linorder_le_less_linear set_empty)
  have "snd x = []"
  proof (rule ccontr)
    assume "snd x \<noteq> []"
    then obtain d where d: "d \<in> set (snd x)" by (cases "snd x") auto
    then have "d \<in> set (map fst rem)" "r d < r (fst x)" using rankedD [OF r, of "fst x" "snd x" d] x(1) by simp_all
    then show False using x(2) by fastforce
  qed
  then have "fst x \<in> set (ready_tasks rem)" using x(1) by (cases x) simp
  then show ?thesis by (cases "ready_tasks rem = []") (simp del: set_ready, simp)
qed

lemma ranked_drop: "ranked r rem \<Longrightarrow> ranked r (drop_ready ready rem)"
proof -
  assume r: "ranked r rem"
  have "d \<in> set (map fst (drop_ready ready rem)) \<and> r d < r k" if k: "(k, ds) \<in> set (drop_ready ready rem)" "d \<in> set ds" for k ds d
  proof -
    obtain es where "(k, es) \<in> set rem" "ds = filter (\<lambda>d. d \<notin> set ready) es" using k(1) by (auto simp: drop_ready_def)
    then show ?thesis using rankedD [OF r, of k es d] k(2) by (simp add: keys_drop_ready del: set_map)
  qed
  then show ?thesis unfolding ranked_def by blast
qed

lemma ranked_layers: "ranked r rem \<Longrightarrow> \<exists>ls. topological_layers rem = Inr ls"
proof (induction rem rule: topological_layers.induct)
  case (1 rem)
  show ?case
  proof (cases "rem = []")
    case False
    then show ?thesis using 1 ranked_ready [OF "1.prems" False] ranked_drop
      by (fastforce simp: topological_layers.simps [of rem] Let_def bindR_Inr_iff)
  qed (simp add: topological_layers.simps)
qed

lemma in_concat_nth: "k \<in> set (concat ls) \<longleftrightarrow> (\<exists>n < length ls. k \<in> set (ls ! n))"
  by (metis (no_types, lifting) UN_iff in_set_conv_nth set_concat)

lemma layered_ranked:
  assumes l: "layered ls rem" and d: "distinct (map fst rem)"
  shows "\<exists>r. ranked r rem"
proof -
  define r where "r k = (LEAST n. n < length ls \<and> k \<in> set (ls ! n))" for k
  have keys: "set (map fst rem) = set (concat ls)" using l by (metis layered_def mset_eq_setD)
  have at: "r k < length ls \<and> k \<in> set (ls ! r k)" if k: "k \<in> set (concat ls)" for k
  proof -
    obtain n where "n < length ls" "k \<in> set (ls ! n)" using iffD1 [OF in_concat_nth k] by auto
    then show ?thesis unfolding r_def by (intro LeastI [of "\<lambda>n. n < length ls \<and> k \<in> set (ls ! n)" n] conjI)
  qed
  have "e \<in> set (map fst rem) \<and> r e < r k" if k: "(k, ds) \<in> set rem" "e \<in> set ds" for k ds e
  proof -
    have "k \<in> set (concat ls)" using k(1) keys by force
    then have n: "r k < length ls" "k \<in> set (ls ! r k)" using at by auto
    then have "e \<in> set (concat (take (r k) ls))" using l k unfolding layered_def by blast
    then obtain m where m: "m < r k" "m < length ls" "e \<in> set (ls ! m)" unfolding in_concat_nth by auto
    have "r e \<le> m" unfolding r_def using m by (intro Least_le) simp
    moreover have "e \<in> set (concat ls)" using m by (intro iffD2 [OF in_concat_nth]) auto
    ultimately show ?thesis using m(1) keys by auto
  qed
  then have "ranked r rem" unfolding ranked_def by blast
  then show ?thesis by (rule exI [of _ r])
qed

text \<open>C15: The layers exist exactly for an acyclic, closed graph, and then they are a correct
  schedule: every task once, no layer empty, each layer sorted, and every dependency of a task in
  an earlier layer.\<close>

theorem layers_iff_acyclic:
  assumes "distinct (map fst rem)"
  shows "((\<exists>ls. topological_layers rem = Inr ls) \<longleftrightarrow> (\<exists>r. ranked r rem))
    \<and> (\<forall>ls. topological_layers rem = Inr ls \<longrightarrow> layered ls rem)"
  using layers_layered [OF _ assms] layered_ranked [OF _ assms] ranked_layers by blast

definition diamond :: "(string \<times> string list) list" where
  "diamond = [(''b'', [''a'']), (''d'', [''c'', ''b'']), (''c'', [''a'']), (''a'', [])]"

lemma layers_iff_acyclic_witness:
  "topological_layers diamond = Inr [[''a''], [''b'', ''c''], [''d'']] \<and> layered [[''a''], [''b'', ''c''], [''d'']] diamond"
proof -
  have d: "distinct (map fst diamond)" by (simp add: diamond_def)
  have "topological_layers diamond = Inr [[''a''], [''b'', ''c''], [''d'']]" by code_simp
  then show ?thesis using layers_iff_acyclic [OF d] by blast
qed

subsection \<open>Adding tasks\<close>

definition graph_ok :: "'a task_graph \<Rightarrow> bool" where
  "graph_ok g \<longleftrightarrow> distinct (dict_keys (tg_tasks g)) \<and> set (dict_keys (tg_deps g)) = set (dict_keys (tg_tasks g))
     \<and> distinct (dict_keys (tg_deps g)) \<and> (\<exists>r. ranked r (tg_deps g))"

lemma dict_set_fresh: "k \<notin> set (dict_keys d) \<Longrightarrow> dict_set d k v = d @ [(k, v)]"
  by (induction d k v rule: dict_set.induct) (auto simp: dict_keys_def)

lemma ranked_snoc:
  assumes "ranked r rem" and "k \<notin> set (map fst rem)" and "set ds \<subseteq> set (map fst rem)"
  shows "\<exists>r'. ranked r' (rem @ [(k, ds)])"
proof -
  define r' where "r' = r(k := Suc (Max (insert 0 (r ` set (map fst rem)))))"
  have lt: "r d < r' k" if "d \<in> set (map fst rem)" for d
    using that by (simp add: r'_def less_Suc_eq_le del: set_map)
  have same: "r' d = r d" if "d \<in> set (map fst rem)" for d using that assms(2) by (auto simp: r'_def)
  have "d \<in> set (map fst (rem @ [(k, ds)])) \<and> r' d < r' j" if j: "(j, es) \<in> set (rem @ [(k, ds)])" "d \<in> set es" for j es d
  proof (cases "(j, es) \<in> set rem")
    case True
    then have "d \<in> set (map fst rem)" "r d < r j" "j \<in> set (map fst rem)" using rankedD [OF assms(1) True j(2)] by force+
    then show ?thesis using same [of d] same [of j] by simp
  next
    case False
    then have "j = k" "es = ds" using j(1) by auto
    then have "d \<in> set (map fst rem)" using j(2) assms(3) by blast
    then show ?thesis using lt [of d] same [of d] \<open>j = k\<close> by simp
  qed
  then show ?thesis unfolding ranked_def by blast
qed

text \<open>On a graph built so far without an error, adding a task succeeds exactly when its id is new
  and all its dependencies are there already (so it cannot depend on itself); the graph then has the
  new task and stays acyclic.\<close>

theorem add_task_correct:
  assumes "graph_ok g"
  shows "(fst (add_task g i task deps) = Inr () \<longleftrightarrow> i \<notin> set (dict_keys (tg_tasks g)) \<and> set deps \<subseteq> set (dict_keys (tg_tasks g)))
    \<and> (fst (add_task g i task deps) = Inr () \<longrightarrow> graph_ok (snd (add_task g i task deps))
         \<and> dict_get (tg_tasks (snd (add_task g i task deps))) i = Some task
         \<and> set (graph_dependencies (snd (add_task g i task deps)) i) = set deps)"
proof (cases "i \<in> set (dict_keys (tg_tasks g))")
  case True
  then show ?thesis by (simp add: add_task_def)
next
  case False
  define D where "D = tg_deps g @ [(i, dedup deps)]"
  have f: "i \<notin> set (dict_keys (tg_deps g))" using False assms by (simp add: graph_ok_def)
  have keys: "set (dict_keys (dict_set (tg_tasks g) i task)) = insert i (set (dict_keys (tg_tasks g)))"
    using dict_set_fresh [OF False, of task] by (auto simp: dict_keys_def)
  have keys2: "set (dict_keys (tg_tasks g @ [(i, task)])) = insert i (set (dict_keys (tg_tasks g)))"
    by (auto simp: dict_keys_def)
  define ok where "ok \<longleftrightarrow> set deps \<subseteq> insert i (set (dict_keys (tg_tasks g)))"
  have none: "filter (\<lambda>d. d \<notin> insert i (set (dict_keys (tg_tasks g)))) (dedup deps) = [] \<longleftrightarrow> ok"
    by (auto simp: filter_empty_conv ok_def)
  have res: "fst (add_task g i task deps) = Inr () \<longleftrightarrow> ok \<and> (\<exists>ls. topological_layers D = Inr ls)"
    using False none by (auto simp: add_task_def Let_def keys dict_set_fresh [OF f] D_def split: sum.split)
  have st: "snd (add_task g i task deps) = g\<lparr>tg_tasks := tg_tasks g @ [(i, task)], tg_deps := D\<rparr>" if ok
    using False that none by (auto simp: add_task_def Let_def keys2 dict_set_fresh [OF f] dict_set_fresh [OF False] D_def split: sum.split)
  have dist: "distinct (map fst D)" using assms f by (simp add: D_def graph_ok_def dict_keys_def)
  have lay: "(\<exists>ls. topological_layers D = Inr ls) \<longleftrightarrow> (\<exists>r. ranked r D)"
    using ranked_layers layered_ranked [OF layers_layered [OF _ dist] dist] by blast
  have self: "i \<notin> set deps" if "ranked r D" for r
    using rankedD [OF that, of i "dedup deps" i] by (auto simp: D_def)
  obtain r where r: "ranked r (tg_deps g)" using assms by (auto simp: graph_ok_def)
  have k: "set (map fst (tg_deps g)) = set (dict_keys (tg_tasks g))" using assms by (simp add: graph_ok_def dict_keys_def)
  have ex: "\<exists>r. ranked r D" if "set deps \<subseteq> set (dict_keys (tg_tasks g))"
    unfolding D_def by (rule ranked_snoc [OF r]) (use f that k in \<open>auto simp: dict_keys_def\<close>)
  have iff: "fst (add_task g i task deps) = Inr () \<longleftrightarrow> set deps \<subseteq> set (dict_keys (tg_tasks g))"
    unfolding res lay using self ex by (auto simp: ok_def)
  have good: "graph_ok (g\<lparr>tg_tasks := tg_tasks g @ [(i, task)], tg_deps := D\<rparr>)" if "\<exists>r. ranked r D"
    using that assms False dist by (auto simp: graph_ok_def dict_keys_def D_def)
  have get: "dict_get (tg_tasks g @ [(i, task)]) i = Some task" "dict_get D i = Some (dedup deps)"
    using False f by (simp_all add: dict_get_def D_def dict_keys_def map_add_def map_of_eq_None_iff [THEN iffD2])
  show ?thesis
  proof (cases "set deps \<subseteq> set (dict_keys (tg_tasks g))")
    case True
    then have ok by (auto simp: ok_def)
    then show ?thesis using iff True False st good ex get by (simp add: graph_dependencies_def)
  qed (simp add: iff False)
qed

definition two_tasks :: "int task_graph" where
  "two_tasks = snd (add_task (snd (add_task empty_graph ''a'' 1 [])) ''b'' 2 [''a''])"

lemma two_tasks_ok: "graph_ok two_tasks"
proof -
  have d: "tg_deps two_tasks = [(''a'', []), (''b'', [''a''])]" "dict_keys (tg_tasks two_tasks) = [''a'', ''b'']" by code_simp+
  have "ranked (\<lambda>k. if k = ''b'' then 1 else 0) (tg_deps two_tasks)" by (simp add: d ranked_def)
  then show ?thesis unfolding graph_ok_def d by (auto simp: dict_keys_def)
qed

lemma add_task_correct_witness:
  "fst (add_task two_tasks ''c'' 3 [''a'', ''b'']) = Inr () \<and> fst (add_task two_tasks ''c'' 3 [''c'']) \<noteq> Inr ()"
proof -
  have k: "''c'' \<notin> set (dict_keys (tg_tasks two_tasks))" "set [''a'', ''b''] \<subseteq> set (dict_keys (tg_tasks two_tasks))"
      "\<not> set [''c''] \<subseteq> set (dict_keys (tg_tasks two_tasks))" by code_simp+
  show ?thesis using add_task_correct [OF two_tasks_ok, of "''c''" 3 "[''a'', ''b'']"] add_task_correct [OF two_tasks_ok, of "''c''" 3 "[''c'']"] k
    by simp
qed

text \<open>
  A failed \<open>add_task\<close> is not undone. A task that names itself as a dependency is stored with that
  dependency before the cycle is found, and every later \<open>add_task\<close>, whatever it adds, then fails.
\<close>

fun add_all :: "'a task_graph \<Rightarrow> (string \<times> 'a \<times> string list) list \<Rightarrow> 'a task_graph" where
  "add_all g [] = g"
| "add_all g ((i, task, deps) # rest) = add_all (snd (add_task g i task deps)) rest"

definition self_dependent :: "'a task_graph \<Rightarrow> bool" where
  "self_dependent g \<longleftrightarrow> distinct (dict_keys (tg_deps g)) \<and> set (dict_keys (tg_deps g)) \<subseteq> set (dict_keys (tg_tasks g))
     \<and> (\<exists>(k, ds) \<in> set (tg_deps g). k \<in> set ds)"

lemma self_dependent_no_layers:
  assumes "distinct (map fst rem)" and "(k, ds) \<in> set rem" and "k \<in> set ds"
  shows "isl (topological_layers rem)"
proof (cases "topological_layers rem")
  case (Inr ls)
  obtain r where "ranked r rem" using layered_ranked [OF layers_layered [OF Inr assms(1)] assms(1)] by blast
  then show ?thesis using rankedD [OF _ assms(2,3)] by blast
qed simp

lemma self_dependent_add:
  assumes "self_dependent g"
  shows "isl (fst (add_task g i task deps)) \<and> self_dependent (snd (add_task g i task deps))"
proof (cases "i \<in> set (dict_keys (tg_tasks g))")
  case True
  then show ?thesis using assms by (simp add: add_task_def)
next
  case False
  define D where "D = tg_deps g @ [(i, dedup deps)]"
  have f: "i \<notin> set (dict_keys (tg_deps g))" using False assms by (auto simp: self_dependent_def)
  obtain k ds where k: "(k, ds) \<in> set (tg_deps g)" "k \<in> set ds" using assms by (auto simp: self_dependent_def)
  have d: "distinct (map fst D)" using assms f by (simp add: D_def self_dependent_def dict_keys_def)
  then have "isl (topological_layers D)" using self_dependent_no_layers [OF d, of k ds] k by (simp add: D_def)
  then have res: "isl (fst (add_task g i task deps))"
    using False by (auto simp: add_task_def Let_def dict_set_fresh [OF f] D_def split: sum.split)
  have "snd (add_task g i task deps) \<in> {g\<lparr>tg_tasks := tg_tasks g @ [(i, task)]\<rparr>, g\<lparr>tg_tasks := tg_tasks g @ [(i, task)], tg_deps := D\<rparr>}"
    using False by (auto simp: add_task_def Let_def dict_set_fresh [OF f] dict_set_fresh [OF False] D_def split: sum.split)
  moreover have "self_dependent (g\<lparr>tg_tasks := tg_tasks g @ [(i, task)]\<rparr>)" "self_dependent (g\<lparr>tg_tasks := tg_tasks g @ [(i, task)], tg_deps := D\<rparr>)"
    using assms d by (auto simp: self_dependent_def dict_keys_def D_def)
  ultimately show ?thesis using res by auto
qed

text \<open>A refused task poisons the graph. After a task that depends on itself has been refused on
  a sound graph, no later task can be added, however correct it is.\<close>

theorem refused_task_poisons_graph:
  assumes "graph_ok g" and "i \<notin> set (dict_keys (tg_tasks g))" and "i \<in> set deps"
    and "set deps \<subseteq> insert i (set (dict_keys (tg_tasks g)))"
  shows "isl (fst (add_task g i task deps)) \<and> isl (fst (add_task (add_all (snd (add_task g i task deps)) later) j task' deps'))"
proof -
  have f: "i \<notin> set (dict_keys (tg_deps g))" using assms by (simp add: graph_ok_def)
  have keys2: "set (dict_keys (tg_tasks g @ [(i, task)])) = insert i (set (dict_keys (tg_tasks g)))"
    by (auto simp: dict_keys_def)
  have none: "filter (\<lambda>d. d \<notin> insert i (set (dict_keys (tg_tasks g)))) (dedup deps) = []" using assms(4) by (auto simp: filter_empty_conv)
  have "snd (add_task g i task deps) = g\<lparr>tg_tasks := tg_tasks g @ [(i, task)], tg_deps := tg_deps g @ [(i, dedup deps)]\<rparr>"
    using assms(2) none by (auto simp: add_task_def Let_def keys2 dict_set_fresh [OF f] dict_set_fresh [OF assms(2)] split: sum.split)
  then have s: "self_dependent (snd (add_task g i task deps))"
    using assms(1,3) f by (auto simp: self_dependent_def graph_ok_def dict_keys_def)
  have all: "self_dependent h \<Longrightarrow> self_dependent (add_all h later)" for h :: "'a task_graph"
    by (induction h later rule: add_all.induct) (simp_all add: self_dependent_add)
  have "fst (add_task g i task deps) \<noteq> Inr ()" using add_task_correct [OF assms(1), of i task deps] assms(2,3) by blast
  then have "isl (fst (add_task g i task deps))" by (cases "fst (add_task g i task deps)") auto
  then show ?thesis using self_dependent_add [OF all [OF s], of j task' deps'] by simp
qed

lemma refused_task_poisons_graph_witness:
  "isl (fst (add_task (add_all (snd (add_task two_tasks ''c'' 3 [''c''])) [(''d'', 4, [''a''])]) ''e'' 5 []))"
proof -
  have k: "''c'' \<notin> set (dict_keys (tg_tasks two_tasks))" "''c'' \<in> set [''c'']"
      "set [''c''] \<subseteq> insert ''c'' (set (dict_keys (tg_tasks two_tasks)))" by code_simp+
  show ?thesis using refused_task_poisons_graph [OF two_tasks_ok k] by blast
qed

end
