(* ===== verification/ConflictResolver.thy ===== *)
theory ConflictResolver
  imports PyVal "HOL-Library.List_Lexorder" "HOL-Library.Char_ord"
begin

text \<open>
  The conflict resolver of the decision engine (\<open>engines/decision/conflict_resolver.py\<close>): the score
  gate of v1 and the domain-authority resolution of v2 with the veto of the risk agent. A conflict or
  an opinion is its dictionary (\<open>model_dump\<close> of the pydantic forms has the same keys). Texts are their
  UTF-8 bytes, which compare as the characters do.
\<close>

subsection \<open>Version 1\<close>

definition insufficient_text :: string where
  "insufficient_text = utf8 [0xe4, 0xbf, 0xa1, 0xe5, 0x8f, 0xb7, 0xe6, 0x88, 0x96, 0xe7, 0xbb, 0x84, 0xe5, 0x90, 0x88,
     0xe7, 0xba, 0xa6, 0xe6, 0x9d, 0x9f, 0xe4, 0xb8, 0x8d, 0xe8, 0xb6, 0xb3]"

definition resolve_conflicts :: "pyfloat \<Rightarrow> bool \<Rightarrow> string list \<Rightarrow> string \<times> string list" where
  "resolve_conflicts signal_score portfolio_ok warnings =
     (if f_le (lit 80) signal_score \<and> portfolio_ok then (''candidate_buy'', warnings)
      else if f_le (lit 65) signal_score \<and> portfolio_ok then (''wait_confirmation'', warnings)
      else (''observe'', warnings @ [insufficient_text]))"

subsection \<open>Domain authority\<close>

definition domain_authority :: "pyval \<Rightarrow> string" where
  "domain_authority t = (if t = VStr ''FACT_CONFLICT'' then ''EVIDENCE_AUTHORITY''
     else if t = VStr ''REGIME_CONFLICT'' then ''MARKET_SPECIALIST''
     else if t = VStr ''SIGNAL_CONFLICT'' then ''FACTOR_SPECIALIST''
     else if t = VStr ''RISK_CONFLICT'' then ''RISK_SPECIALIST''
     else if t = VStr ''PORTFOLIO_CONFLICT'' then ''PORTFOLIO_SPECIALIST'' else ''SUPERVISOR'')"

definition domain_aliases :: "string \<Rightarrow> string list" where
  "domain_aliases a = (if a = ''EVIDENCE_AUTHORITY'' then [''EVIDENCE_AUTHORITY'', ''EVIDENCEAUTHORITY'', ''RESEARCHAGENT'', ''RESEARCH'']
     else if a = ''MARKET_SPECIALIST'' then [''MARKET_SPECIALIST'', ''MARKETAGENT'', ''MARKET'']
     else if a = ''FACTOR_SPECIALIST'' then [''FACTOR_SPECIALIST'', ''FACTORAGENT'', ''FACTOR'']
     else if a = ''RISK_SPECIALIST'' then [''RISK_SPECIALIST'', ''RISKAGENT'', ''RISK'']
     else if a = ''PORTFOLIO_SPECIALIST'' then [''PORTFOLIO_SPECIALIST'', ''PORTFOLIOAGENT'', ''PORTFOLIO''] else [a])"

definition agent_key :: "pyval \<Rightarrow> string" where
  "agent_key v = str_upper (filter (\<lambda>c. c \<notin> {CHR ''_'', CHR ''-'', CHR '' ''}) (py_str v))"

definition is_domain_owner :: "pyval \<Rightarrow> string \<Rightarrow> bool" where
  "is_domain_owner v authority \<longleftrightarrow> agent_key v \<in> set (map (\<lambda>a. agent_key (VStr a)) (domain_aliases authority))"

definition is_risk_agent :: "pyval \<Rightarrow> bool" where
  "is_risk_agent v \<longleftrightarrow> agent_key v \<in> set (map (\<lambda>a. agent_key (VStr a)) (domain_aliases ''RISK_SPECIALIST''))"

subsection \<open>Version 2\<close>

type_synonym opinion = "(string \<times> pyval) list"

definition conflict_options :: "(string \<times> pyval) list \<Rightarrow> opinion list result" where
  "conflict_options c = (case py_or (py_or (get_item c ''options'') (get_item c ''opinions'')) (VList []) of
     VList xs \<Rightarrow> Inr (concat (map (\<lambda>x. case x of VDict d \<Rightarrow> [d] | _ \<Rightarrow> []) xs))
   | VStr _ \<Rightarrow> Inr [] | VDict _ \<Rightarrow> Inr []
   | _ \<Rightarrow> Inl (TypeError ''object is not iterable''))"

definition conflict_kind :: "(string \<times> pyval) list \<Rightarrow> pyval result" where
  "conflict_kind c = (case py_or (py_or (get_item c ''type'') (get_item c ''conflict_type'')) (VStr ''SIGNAL_CONFLICT'') of
     VList _ \<Rightarrow> Inl (TypeError ''unhashable type'') | VDict _ \<Rightarrow> Inl (TypeError ''unhashable type'') | t \<Rightarrow> Inr t)"

type_synonym opinion_key = "pyfloat \<times> string \<times> string"

definition opinion_key :: "opinion \<Rightarrow> opinion_key result" where
  "opinion_key o' = bindR (py_float (get_default o' ''confidence'' (VFloat (Fin 0)))) (\<lambda>f.
     Inr (f, py_str (get_default o' ''agent'' (VStr [])), py_str (get_default o' ''value'' (VStr []))))"

definition key_less :: "opinion_key \<Rightarrow> opinion_key \<Rightarrow> bool" where
  "key_less k l = (case (k, l) of ((f, a, v), (g, b, w)) \<Rightarrow>
     if \<not> f_eq f g then f_lt f g else if a \<noteq> b then a < b else v < w)"

fun max_by_key :: "(opinion \<times> opinion_key) \<Rightarrow> (opinion \<times> opinion_key) list \<Rightarrow> opinion \<times> opinion_key" where
  "max_by_key best [] = best"
| "max_by_key best (x # xs) = max_by_key (if key_less (snd best) (snd x) then x else best) xs"

definition confidence_fallback :: "opinion list \<Rightarrow> opinion result" where
  "confidence_fallback options = bindR (mapR (\<lambda>x. bindR (opinion_key x) (\<lambda>k. Inr (x, k))) options) (\<lambda>ks.
     Inr (case ks of [] \<Rightarrow> [] | k # rest \<Rightarrow> fst (max_by_key k rest)))"

definition find_owner :: "string \<Rightarrow> opinion list \<Rightarrow> opinion option" where
  "find_owner authority options = first_such (\<lambda>x. is_domain_owner (get_item x ''agent'') authority) options"

definition find_policy :: "opinion list \<Rightarrow> opinion option" where
  "find_policy options = first_such (\<lambda>x. agent_key (get_item x ''agent'') \<in> {''POLICYENGINE'', ''DETERMINISTICPOLICY''}) options"

definition vetoing :: "opinion \<Rightarrow> bool" where
  "vetoing x \<longleftrightarrow> is_risk_agent (get_item x ''agent'') \<and> truthy (get_item x ''veto'')"

definition find_risk_veto :: "opinion list \<Rightarrow> opinion option" where
  "find_risk_veto options = first_such vetoing options"

definition opinion_or :: "opinion option \<Rightarrow> opinion \<Rightarrow> opinion" where
  "opinion_or x d = (case x of None \<Rightarrow> d | Some y \<Rightarrow> if y = [] then d else y)"

record resolution =
  rs_dimension :: pyval
  rs_type :: pyval
  rs_resolved_by :: pyval
  rs_value :: pyval

definition resolve_one :: "(string \<times> pyval) list \<Rightarrow> (resolution \<times> string option) result" where
  "resolve_one c =
     bindR (conflict_kind c) (\<lambda>kind. let authority = domain_authority kind in
     bindR (conflict_options c) (\<lambda>options.
     bindR (confidence_fallback options) (\<lambda>fallback.
     let owner = find_owner authority options; risk = find_risk_veto options;
         selected = opinion_or risk (opinion_or owner (opinion_or (find_policy options) fallback));
         veto = truthy (get_item c ''risk_veto'') \<or> risk \<noteq> None
                \<or> (kind = VStr ''RISK_CONFLICT'' \<and> truthy (get_item (opinion_or owner []) ''veto''))
     in Inr (\<lparr>rs_dimension = get_item c ''dimension'', rs_type = kind,
               rs_resolved_by = py_or (get_item selected ''agent'') (VStr authority), rs_value = get_item selected ''value''\<rparr>,
             if veto then Some (py_str (py_or (get_item c ''dimension'') (VStr ''risk''))) else None))))"

record resolved =
  rv_final_action :: string
  rv_vetoed :: bool
  rv_veto_reasons :: "string list"
  rv_resolutions :: "resolution list"

definition resolve_conflicts_v2 :: "(string \<times> pyval) list list \<Rightarrow> resolved result" where
  "resolve_conflicts_v2 conflicts = bindR (mapR resolve_one conflicts) (\<lambda>rows.
     let reasons = concat (map (\<lambda>(_, v). case v of None \<Rightarrow> [] | Some r \<Rightarrow> [r]) rows); vetoed = (reasons \<noteq> []) in
     Inr \<lparr>rv_final_action = (if vetoed then ''veto'' else ''proceed''), rv_vetoed = vetoed, rv_veto_reasons = reasons,
          rv_resolutions = map fst rows\<rparr>)"

subsection \<open>Properties\<close>

text \<open>A conflict that must stop the decision.\<close>

definition risk_stops :: "(string \<times> pyval) list \<Rightarrow> bool" where
  "risk_stops c \<longleftrightarrow> truthy (get_item c ''risk_veto'') \<or> (\<exists>x \<in> set (case conflict_options c of Inr xs \<Rightarrow> xs | Inl _ \<Rightarrow> []). vetoing x)"

lemma risk_owner: "is_domain_owner v (domain_authority (VStr ''RISK_CONFLICT'')) \<longleftrightarrow> is_risk_agent v"
  by (simp add: is_domain_owner_def is_risk_agent_def domain_authority_def)

lemma opinion_or_in: "opinion_or (find_owner a xs) [] = [] \<or> opinion_or (find_owner a xs) [] \<in> set xs \<and>
    is_domain_owner (get_item (opinion_or (find_owner a xs) []) ''agent'') a"
  by (auto simp: opinion_or_def find_owner_def dest!: first_such_Some split: option.splits)

lemma resolve_one_veto:
  assumes "resolve_one c = Inr (r, v)"
  shows "v \<noteq> None \<longleftrightarrow> risk_stops c"
proof -
  obtain kind options fallback where k: "conflict_kind c = Inr kind" "conflict_options c = Inr options" "confidence_fallback options = Inr fallback"
    and v: "v \<noteq> None \<longleftrightarrow> truthy (get_item c ''risk_veto'') \<or> find_risk_veto options \<noteq> None
        \<or> (kind = VStr ''RISK_CONFLICT'' \<and> truthy (get_item (opinion_or (find_owner (domain_authority kind) options) []) ''veto''))"
    using assms by (auto simp: resolve_one_def Let_def bindR_Inr_iff split: if_splits)
  have risk: "find_risk_veto options \<noteq> None \<longleftrightarrow> (\<exists>x \<in> set options. vetoing x)"
    using first_such_None [of vetoing options] by (auto simp: find_risk_veto_def)
  have "\<exists>x \<in> set options. vetoing x"
    if "kind = VStr ''RISK_CONFLICT''" "truthy (get_item (opinion_or (find_owner (domain_authority kind) options) []) ''veto'')"
  proof -
    define x where "x = opinion_or (find_owner (domain_authority kind) options) []"
    have "x \<noteq> []" using that(2) by (auto simp: x_def)
    then have "x \<in> set options" "is_risk_agent (get_item x ''agent'')"
      using opinion_or_in [of "domain_authority kind" options] risk_owner that(1) by (auto simp: x_def)
    then show ?thesis using that(2) by (auto simp: vetoing_def x_def)
  qed
  then show ?thesis unfolding v risk risk_stops_def k(2) sum.case by blast
qed

lemma mapR_nth: "mapR f xs = Inr ys \<Longrightarrow> length ys = length xs \<and> (\<forall>n < length xs. f (xs ! n) = Inr (ys ! n))"
proof (induction xs arbitrary: ys)
  case (Cons x xs)
  then obtain y zs where "f x = Inr y" "mapR f xs = Inr zs" "ys = y # zs" by (auto simp: bindR_Inr_iff)
  then show ?case using Cons.IH by (auto simp: nth_Cons split: nat.split)
qed simp

text \<open>C16: The veto belongs to risk alone. When the conflicts are resolved, the action is \<open>veto\<close> exactly
  if some conflict is flagged with a risk veto or holds a vetoing opinion of a risk agent, whatever
  the domain, the order, the confidence or the other opinions; every conflict gets one resolution and
  every stopping conflict one reason.\<close>

theorem veto_iff_risk_stops:
  assumes "resolve_conflicts_v2 conflicts = Inr r"
  shows "(rv_final_action r = ''veto'' \<longleftrightarrow> (\<exists>c \<in> set conflicts. risk_stops c))
    \<and> (rv_vetoed r \<longleftrightarrow> rv_final_action r = ''veto'')
    \<and> length (rv_resolutions r) = length conflicts
    \<and> length (rv_veto_reasons r) = length (filter risk_stops conflicts)"
proof -
  obtain rows where rows: "mapR resolve_one conflicts = Inr rows"
    and r: "rv_veto_reasons r = concat (map (\<lambda>(_, v). case v of None \<Rightarrow> [] | Some r \<Rightarrow> [r]) rows)"
      "rv_vetoed r \<longleftrightarrow> rv_veto_reasons r \<noteq> []" "rv_final_action r = (if rv_vetoed r then ''veto'' else ''proceed'')"
      "rv_resolutions r = map fst rows"
    using assms by (auto simp: resolve_conflicts_v2_def bindR_Inr_iff Let_def)
  have n: "mapR resolve_one cs = Inr rs \<Longrightarrow> length rs = length cs
      \<and> length (concat (map (\<lambda>(_, v). case v of None \<Rightarrow> [] | Some r \<Rightarrow> [r]) rs)) = length (filter risk_stops cs)" for cs rs
  proof (induction cs arbitrary: rs)
    case (Cons c cs)
    obtain a v rs' where s: "resolve_one c = Inr (a, v)" "mapR resolve_one cs = Inr rs'" "rs = (a, v) # rs'"
      using Cons.prems by (auto simp: bindR_Inr_iff)
    show ?case using Cons.IH [OF s(2)] resolve_one_veto [OF s(1)] by (auto simp: s(3) split: option.splits)
  qed simp
  have "rv_veto_reasons r \<noteq> [] \<longleftrightarrow> (\<exists>c \<in> set conflicts. risk_stops c)"
    using n [OF rows] r(1) by (metis filter_empty_conv length_0_conv)
  then show ?thesis using n [OF rows] r by simp
qed

definition example_conflicts :: "(string \<times> pyval) list list" where
  "example_conflicts = [[(''type'', VStr ''SIGNAL_CONFLICT''), (''dimension'', VStr ''size''),
     (''options'', VList [VDict [(''agent'', VStr ''FactorAgent''), (''value'', VInt 1), (''confidence'', VStr ''0.9'')],
        VDict [(''agent'', VStr ''risk-agent''), (''value'', VInt 0), (''veto'', VBool True)]])]]"

lemma veto_iff_risk_stops_witness:
  "\<exists>r. resolve_conflicts_v2 example_conflicts = Inr r \<and> rv_final_action r = ''veto'' \<and> length (rv_veto_reasons r) = 1"
proof -
  have "\<not> isl (resolve_conflicts_v2 example_conflicts)" by code_simp
  then obtain r where r: "resolve_conflicts_v2 example_conflicts = Inr r" by (rule not_islE)
  have s: "filter risk_stops example_conflicts = example_conflicts" "length example_conflicts = 1" by code_simp+
  have "\<exists>c \<in> set example_conflicts. risk_stops c" using s by (metis filter_False length_0_conv zero_neq_one)
  then show ?thesis using veto_iff_risk_stops [OF r] r s by simp
qed

text \<open>When nobody with authority speaks, the opinion with the greatest key decides: confidence, then
  agent, then value. Confidences are validated to be finite.\<close>

definition key_ok :: "opinion_key \<Rightarrow> bool" where
  "key_ok k \<longleftrightarrow> (\<exists>q. fst k = Fin q)"

lemma key_less_trans: "key_ok a \<Longrightarrow> key_ok b \<Longrightarrow> key_ok c \<Longrightarrow> \<not> key_less a b \<Longrightarrow> \<not> key_less b c \<Longrightarrow> \<not> key_less a c"
  by (cases a; cases b; cases c) (auto simp: key_less_def key_ok_def f_eq_def split: if_splits)

lemma max_by_key_max:
  assumes "\<forall>y \<in> set (x # xs). key_ok (snd y)"
  shows "max_by_key x xs \<in> set (x # xs) \<and> (\<forall>y \<in> set (x # xs). \<not> key_less (snd (max_by_key x xs)) (snd y))"
  using assms
proof (induction x xs rule: max_by_key.induct)
  case (1 best)
  then show ?case by (cases best) (auto simp: key_less_def key_ok_def f_eq_def)
next
  case (2 best x xs)
  define b where "b = (if key_less (snd best) (snd x) then x else best)"
  have ok: "\<forall>y \<in> set (b # xs). key_ok (snd y)" using 2(2) by (simp add: b_def)
  note ih = 2(1) [folded b_def, OF ok]
  have b: "\<not> key_less (snd b) (snd best)" "\<not> key_less (snd b) (snd x)"
    using 2(2) by (auto simp: b_def key_less_def key_ok_def f_eq_def split: prod.splits if_splits)
  have "key_ok (snd (max_by_key b xs))" using ih ok by blast
  then have "\<not> key_less (snd (max_by_key b xs)) (snd best)" "\<not> key_less (snd (max_by_key b xs)) (snd x)"
    using ih b 2(2) ok key_less_trans [of "snd (max_by_key b xs)" "snd b"] by (auto simp: b_def)
  then show ?case using ih by (auto simp: b_def [symmetric]) (auto simp: b_def split: if_splits)
qed

end
