(* ===== verification/Grounding.thy ===== *)
theory Grounding
  imports PyVal "HOL-Library.List_Lexorder" "HOL-Library.Char_ord"
begin

text \<open>
  Grounding of candidate findings in a frozen content bundle
  (\<open>app/application/knowledge_conclusion/grounding.py\<close>): the ownership graph of a bundle, the checks
  of one finding, the semantics of verdict and stance, and the citation edges. A bundle and its
  records are dictionaries; texts are UTF-8 bytes and \<open>casefold\<close> acts on ASCII letters. The lexical
  extraction of hard facts (\<open>app/domain/content_fact_tokens.py\<close>, eight regular expressions) is the
  argument \<open>facts\<close>, and the SHA-256 of a canonical quote is \<open>quote_digest\<close>; the lemmas hold for all
  of them. An integer beyond the range of floats, on which \<open>float\<close> raises, reads as no number, and a list or dictionary
  as a source grade or truth status, on which the set test raises, as another grade.
\<close>

record finding =
  fd_text :: string
  fd_knowledge_ids :: "string list"
  fd_evidence_ids :: "string list"
  fd_confidence :: pyfloat

record evidence_record =
  er_id :: string
  er_knowledge :: string
  er_text :: string
  er_source :: string
  er_extraction :: pyfloat
  er_verification :: pyfloat
  er_quality :: pyfloat
  er_raw :: "(string \<times> pyval) list"

record knowledge_record =
  kn_id :: string
  kn_text :: string
  kn_evidence :: "evidence_record list"
  kn_raw :: "(string \<times> pyval) list"

record grounded_finding =
  gf_finding :: finding
  gf_knowledge :: "knowledge_record list"
  gf_evidence :: "evidence_record list"
  gf_polarity :: int

record citation_edge =
  ce_knowledge :: string
  ce_evidence :: string
  ce_quote_hash :: string
  ce_provenance :: string

abbreviation GroundingError :: "string \<Rightarrow> string \<Rightarrow> exc" where
  "GroundingError reason detail \<equiv> PyExc ''GroundingError'' (reason @ '': '' @ detail)"

definition ground_that :: "bool \<Rightarrow> string \<Rightarrow> string \<Rightarrow> unit result" where
  "ground_that ok reason detail = (if ok then Inr () else Inl (GroundingError reason detail))"

lemma ground_that_Inr [simp]: "ground_that ok r d = Inr u \<longleftrightarrow> ok"
  by (simp add: ground_that_def)

subsection \<open>Reading the bundle\<close>

type_synonym mapping = "(string \<times> pyval) list"

definition dict_items :: "pyval list \<Rightarrow> mapping list" where
  "dict_items xs = concat (map (\<lambda>x. case x of VDict d \<Rightarrow> [d] | _ \<Rightarrow> []) xs)"

fun as_records :: "mapping \<Rightarrow> string list \<Rightarrow> mapping list" where
  "as_records b [] = []"
| "as_records b (n # ns) = (case get_item b n of VList xs \<Rightarrow> dict_items xs | _ \<Rightarrow> as_records b ns)"

definition nonblank_str :: "pyval \<Rightarrow> string option" where
  "nonblank_str v = (case v of VStr s \<Rightarrow> if blank s then None else Some (strip s) | _ \<Rightarrow> None)"

fun first_text :: "mapping \<Rightarrow> string list \<Rightarrow> string \<Rightarrow> string" where
  "first_text r [] d = d"
| "first_text r (n # ns) d = (case nonblank_str (get_item r n) of Some s \<Rightarrow> s | None \<Rightarrow> first_text r ns d)"

definition record_id :: "mapping \<Rightarrow> string list \<Rightarrow> string" where
  "record_id r names = first_text r names []"

fun first_str :: "mapping \<Rightarrow> string list \<Rightarrow> string" where
  "first_str r [] = []"
| "first_str r (n # ns) = (case get_item r n of VStr s \<Rightarrow> s | _ \<Rightarrow> first_str r ns)"

definition record_text :: "mapping \<Rightarrow> string" where
  "record_text r = first_str r [''statement'', ''text'', ''content'', ''quote'', ''body'', ''summary'']"

definition claim_nature :: "mapping \<Rightarrow> string" where
  "claim_nature r = str_upper (py_str (py_or (get_item r ''claim_nature'') (VStr [])))"

definition requires_attribution :: "mapping \<Rightarrow> bool" where
  "requires_attribution r \<longleftrightarrow>
     claim_nature r \<in> {''OPINION'', ''FORECAST'', ''CAUSAL_THESIS'', ''SOURCE_OPINION'', ''SOURCE_FORECAST''}
     \<or> get_item r ''source_grade'' \<in> {VStr ''SECONDARY'', VStr ''UNKNOWN''}
       \<and> get_item r ''external_truth_status'' \<noteq> VStr ''EXTERNALLY_VERIFIED''"

definition source_label :: "mapping \<Rightarrow> string option" where
  "source_label r = (case get_item r ''attribution'' of VDict a \<Rightarrow> nonblank_str (get_item a ''source_label'') | _ \<Rightarrow> None)"

definition forecast_word :: string where
  "forecast_word = utf8 [233, 162, 132, 230, 181, 139]"

definition opinion_word :: string where
  "opinion_word = utf8 [232, 167, 130, 231, 130, 185]"

definition attributed :: "mapping \<Rightarrow> string \<Rightarrow> string" where
  "attributed r statement = (if \<not> requires_attribution r then statement else (case source_label r of None \<Rightarrow> statement
     | Some label \<Rightarrow> label @ utf8 [231, 154, 132] @ (if str_in ''FORECAST'' (claim_nature r) then forecast_word else opinion_word)
         @ utf8 [239, 188, 154] @ statement))"

definition temporal_lines :: "mapping \<Rightarrow> string list" where
  "temporal_lines r = (case get_item r ''temporal'' of
     VDict t \<Rightarrow>
       if get_item t ''kind'' = VStr ''FORECAST_TARGET''
       then [case get_item t ''label'' of
               VStr l \<Rightarrow> if blank l then forecast_word @ utf8 [231, 155, 174, 230, 160, 135, 230, 151, 182, 233, 151, 180, 230, 156, 170, 230, 152, 142, 231, 161, 174]
                   else forecast_word @ utf8 [231, 155, 174, 230, 160, 135, 239, 188, 154] @ l
             | _ \<Rightarrow> forecast_word @ utf8 [231, 155, 174, 230, 160, 135, 230, 151, 182, 233, 151, 180, 230, 156, 170, 230, 152, 142, 231, 161, 174]]
       else if get_item t ''kind'' = VStr ''UNKNOWN'' \<and> get_item t ''explicitly_unknown'' = VBool True
       then [utf8 [230, 151, 182, 233, 151, 180, 230, 156, 170, 230, 152, 142, 231, 161, 174]] else []
   | _ \<Rightarrow> [])"

definition present_text :: "pyval \<Rightarrow> string list" where
  "present_text v = (case v of VStr s \<Rightarrow> if blank s then [] else [s] | _ \<Rightarrow> [])"

definition knowledge_text :: "mapping \<Rightarrow> string" where
  "knowledge_text r =
     (let values = [attributed r (record_text r)] @ present_text (get_item r ''condition'') @ present_text (get_item r ''invalidation'')
        @ (case get_item r ''detail'' of VDict d \<Rightarrow> concat (map (\<lambda>(_, v). case nonblank_str v of None \<Rightarrow> [] | Some s \<Rightarrow> [s]) d) | _ \<Rightarrow> [])
        @ temporal_lines r
      in join_with [CHR 0x0A] (dedup (filter (\<lambda>v. v \<noteq> []) values)))"

definition number_of :: "pyval \<Rightarrow> pyfloat option" where
  "number_of v = (let f = (case v of VInt i \<Rightarrow> f_of_rat (of_int i) | VFloat g \<Rightarrow> g | _ \<Rightarrow> NaN) in if is_finite f then Some f else None)"

fun first_number :: "mapping \<Rightarrow> string list \<Rightarrow> pyfloat \<Rightarrow> pyfloat" where
  "first_number r [] d = d"
| "first_number r (n # ns) d = (case number_of (get_item r n) of Some f \<Rightarrow> f | None \<Rightarrow> first_number r ns d)"

definition source_identity :: "mapping \<Rightarrow> mapping \<Rightarrow> string" where
  "source_identity r fallback = first_text r [''source_identity'', ''author'', ''source_id'', ''publisher'', ''source'']
     (first_text fallback [''source_identity'', ''source_identity_hash'', ''author'', ''source_id'', ''publisher''] ''content-internal'')"

definition merged :: "mapping \<Rightarrow> mapping \<Rightarrow> mapping" where
  "merged a b = foldl (\<lambda>d (k, v). dict_set d k v) a b"

definition evidence_of :: "bool \<Rightarrow> mapping \<Rightarrow> mapping \<Rightarrow> string \<Rightarrow> mapping \<Rightarrow> evidence_record list" where
  "evidence_of v2 bundle_source knowledge kid row =
     (let eid = record_id row [''evidence_id'', ''id'']; named = record_id row [''knowledge_id'', ''owner_knowledge_id''];
          owner = (if named = [] then kid else named); one = Fin 1; base = (if v2 then Fin 0 else one);
          verification = first_number row [''verification_weight''] base
      in if eid \<noteq> [] \<and> owner = kid
         then [\<lparr>er_id = eid, er_knowledge = kid, er_text = record_text row, er_source = source_identity row (merged bundle_source knowledge),
                er_extraction = first_number row [''extraction_confidence'', ''confidence'']
                   (if v2 then first_number knowledge [''confidence''] (Fin 0) else one),
                er_verification = (if v2 \<and> get_item row ''ownership'' = VStr ''SECONDARY'' then f_mul verification (Fin (1/2)) else verification),
                er_quality = first_number row [''quality'', ''quality_score''] base, er_raw = row\<rparr>]
         else [])"

definition knowledge_of :: "mapping \<Rightarrow> mapping \<Rightarrow> knowledge_record list" where
  "knowledge_of bundle knowledge =
     (let kid = record_id knowledge [''knowledge_id'', ''id'']; flat = as_records bundle [''evidence'', ''evidences''];
          bundle_source = (case get_item bundle ''source'' of VDict s \<Rightarrow> s | _ \<Rightarrow> []);
          v2 = (get_item bundle ''contract'' = VStr ''content-knowledge-bundle.v2'');
          nested = as_records knowledge [''evidence'', ''evidences''];
          rows = (if nested \<noteq> [] then nested else filter (\<lambda>row. record_id row [''knowledge_id'', ''owner_knowledge_id''] = kid) flat)
      in if kid = [] then []
         else [\<lparr>kn_id = kid, kn_text = knowledge_text knowledge,
                kn_evidence = concat (map (evidence_of v2 bundle_source knowledge kid) rows), kn_raw = knowledge\<rparr>])"

definition bundle_graph :: "mapping \<Rightarrow> knowledge_record list" where
  "bundle_graph bundle = concat (map (knowledge_of bundle) (as_records bundle [''knowledge'', ''knowledge_items'', ''items'']))"

subsection \<open>One finding\<close>

definition positive_words :: "string list" where
  "positive_words = [utf8 [229, 162, 158, 233, 149, 191], utf8 [228, 184, 138, 229, 141, 135], utf8 [230, 148, 185, 229, 150, 132],
     utf8 [230, 143, 144, 233, 171, 152], utf8 [230, 137, 169, 229, 164, 167], ''increase'', ''growth'', ''rise'', ''improve'']"

definition negative_words :: "string list" where
  "negative_words = [utf8 [228, 184, 139, 233, 153, 141], utf8 [228, 184, 139, 230, 187, 145], utf8 [229, 135, 143, 229, 176, 145],
     utf8 [230, 148, 182, 231, 188, 169], utf8 [230, 129, 182, 229, 140, 150], ''decrease'', ''decline'', ''fall'', ''deteriorat'']"

definition polarity :: "string \<Rightarrow> int" where
  "polarity t = (let l = str_lower t in
     sgn (int (length (filter (\<lambda>w. str_in w l) positive_words)) - int (length (filter (\<lambda>w. str_in w l) negative_words))))"

definition semantics_kept :: "string \<Rightarrow> knowledge_record \<Rightarrow> unit result" where
  "semantics_kept rendered item =
     bindR (ground_that (requires_attribution (kn_raw item) \<longrightarrow>
              (case source_label (kn_raw item) of None \<Rightarrow> False | Some label \<Rightarrow> str_in label rendered))
              ''CONCLUSION_UNGROUNDED'' ''attributed source claim lost its attribution'') (\<lambda>_.
     case get_item (kn_raw item) ''temporal'' of
       VDict t \<Rightarrow>
         bindR (ground_that (get_item t ''kind'' = VStr ''UNKNOWN'' \<longrightarrow> get_item t ''explicitly_unknown'' = VBool True)
                  ''CONCLUSION_UNGROUNDED'' ''unknown time was not explicit'') (\<lambda>_.
         ground_that (get_item t ''kind'' = VStr ''FORECAST_TARGET'' \<longrightarrow> str_in forecast_word rendered
              \<or> (case get_item t ''label'' of VStr l \<Rightarrow> l \<noteq> [] \<and> str_in l rendered | _ \<Rightarrow> False))
           ''CONCLUSION_UNGROUNDED'' ''forecast target rendered as a settled fact'')
     | _ \<Rightarrow> Inr ())"

definition knowledge_by_id :: "mapping \<Rightarrow> string \<rightharpoonup> knowledge_record" where
  "knowledge_by_id bundle = map_of (rev (map (\<lambda>k. (kn_id k, k)) (bundle_graph bundle)))"

definition evidence_by_id :: "knowledge_record list \<Rightarrow> string \<rightharpoonup> evidence_record" where
  "evidence_by_id ks = map_of (rev (map (\<lambda>e. (er_id e, e)) (concat (map kn_evidence ks))))"

definition entity_fields :: "string list" where
  "entity_fields = [''entity'', ''entities'', ''company'', ''company_name'', ''product'', ''product_name'', ''issuer'', ''ticker'', ''symbol'']"

definition mapping_entities :: "mapping \<Rightarrow> string list" where
  "mapping_entities r = concat (map (\<lambda>k. case get_item r k of VStr s \<Rightarrow> [s]
     | VList xs \<Rightarrow> concat (map (\<lambda>x. case x of VStr s \<Rightarrow> [s] | _ \<Rightarrow> []) xs) | _ \<Rightarrow> []) entity_fields)"

type_synonym fact_extractor = "string \<Rightarrow> string list \<Rightarrow> string set"

definition source_text :: "knowledge_record list \<Rightarrow> evidence_record list \<Rightarrow> string" where
  "source_text ks es = join_with [CHR 0x0A] (map kn_text ks @ map er_text es)"

definition source_entities :: "knowledge_record list \<Rightarrow> evidence_record list \<Rightarrow> string list" where
  "source_entities ks es = concat (map mapping_entities (map kn_raw ks @ map er_raw es))"

definition ground_evidence :: "finding \<Rightarrow> knowledge_record list \<Rightarrow> evidence_record list result" where
  "ground_evidence f ks =
     bindR (ground_that (\<forall>i \<in> set (fd_evidence_ids f). evidence_by_id ks i \<noteq> None)
              ''CITATION_INVALID'' ''evidence is absent or owned by uncited knowledge'') (\<lambda>_.
     let es = map (\<lambda>i. the (evidence_by_id ks i)) (fd_evidence_ids f) in
     bindR (ground_that (\<forall>e \<in> set es. er_knowledge e \<in> set (fd_knowledge_ids f))
              ''CITATION_INVALID'' ''evidence ownership does not match a cited knowledge item'') (\<lambda>_.
     bindR (ground_that (set (map er_knowledge es) = set (fd_knowledge_ids f))
              ''CITATION_INVALID'' ''each cited knowledge item must own cited evidence'') (\<lambda>_. Inr es)))"

definition ground_finding :: "fact_extractor \<Rightarrow> mapping \<Rightarrow> finding \<Rightarrow> grounded_finding result" where
  "ground_finding facts bundle f =
     bindR (ground_that (is_finite (fd_confidence f) \<and> f_le (Fin 0) (fd_confidence f) \<and> f_le (fd_confidence f) (Fin 1))
              ''CONFIDENCE_INVALID'' ''finding confidence must be finite and in range'') (\<lambda>_.
     bindR (ground_that (\<forall>i \<in> set (fd_knowledge_ids f). knowledge_by_id bundle i \<noteq> None)
              ''CITATION_INVALID'' ''cited knowledge is absent'') (\<lambda>_.
     let ks = map (\<lambda>i. the (knowledge_by_id bundle i)) (fd_knowledge_ids f) in
     bindR (mapR (semantics_kept (fd_text f)) ks) (\<lambda>_.
     bindR (ground_evidence f ks) (\<lambda>es.
     let stated = polarity (fd_text f); supported = polarity (source_text ks es); entities = source_entities ks es in
     bindR (ground_that (stated = 0 \<or> supported = 0 \<or> stated = supported)
              ''POLARITY_UNSUPPORTED'' ''finding direction conflicts with cited content'') (\<lambda>_.
     bindR (ground_that (facts (fd_text f) entities \<subseteq> facts (source_text ks es) entities)
              ''CONCLUSION_UNGROUNDED'' ''unsupported hard facts'') (\<lambda>_.
     Inr \<lparr>gf_finding = f, gf_knowledge = ks, gf_evidence = es, gf_polarity = stated\<rparr>))))))"

definition ground_findings :: "fact_extractor \<Rightarrow> mapping \<Rightarrow> finding list \<Rightarrow> grounded_finding list result" where
  "ground_findings facts bundle fs = mapR (ground_finding facts bundle) fs"

subsection \<open>Verdict and stance\<close>

fun unseen_evidence :: "string list \<Rightarrow> evidence_record list \<Rightarrow> evidence_record list" where
  "unseen_evidence seen [] = []"
| "unseen_evidence seen (e # es) = (if er_id e \<in> set seen then unseen_evidence seen es else e # unseen_evidence (er_id e # seen) es)"

definition evidence_strength :: "evidence_record \<Rightarrow> pyfloat" where
  "evidence_strength e = f_mul (f_mul (er_extraction e) (er_verification e)) (py_min (py_max (er_quality e) (Fin 0)) (Fin 1))"

definition f_sum :: "pyfloat list \<Rightarrow> pyfloat" where
  "f_sum xs = foldl f_add (Fin 0) xs"

definition evidence_weight :: "grounded_finding \<Rightarrow> pyfloat" where
  "evidence_weight g = f_sum (map evidence_strength (unseen_evidence [] (gf_evidence g)))"

definition directed_weight :: "(int \<Rightarrow> bool) \<Rightarrow> grounded_finding list \<Rightarrow> pyfloat" where
  "directed_weight p gs = f_sum (map evidence_weight (filter (\<lambda>g. p (gf_polarity g)) gs))"

definition validate_semantics :: "fact_extractor \<Rightarrow> mapping \<Rightarrow> finding list \<Rightarrow> string \<Rightarrow> string \<Rightarrow> int \<Rightarrow> grounded_finding list result" where
  "validate_semantics facts bundle fs verdict stance minimum =
     (if minimum < 1 then Inl (ValueError ''minimum independent sources must be positive'')
      else bindR (ground_findings facts bundle fs) (\<lambda>gs.
        let sources = set (concat (map (\<lambda>g. map er_source (gf_evidence g)) gs));
            positive = directed_weight (\<lambda>p. 0 < p) gs; negative = directed_weight (\<lambda>p. p < 0) gs;
            independent = (minimum \<le> int (card sources));
            pos = (independent \<and> f_lt negative positive \<and> f_lt (Fin 0) positive);
            neg = (independent \<and> f_lt positive negative \<and> f_lt (Fin 0) negative)
        in bindR (ground_that (verdict = ''SUPPORTED'' \<longrightarrow> pos) ''POLARITY_UNSUPPORTED'' ''supported verdict lacks independent positive evidence'') (\<lambda>_.
           bindR (ground_that (verdict = ''CONTRADICTED'' \<longrightarrow> neg) ''POLARITY_UNSUPPORTED'' ''contradicted verdict lacks independent negative evidence'') (\<lambda>_.
           bindR (ground_that (verdict = ''MIXED'' \<longrightarrow> independent \<and> f_lt (Fin 0) positive \<and> f_lt (Fin 0) negative)
                    ''POLARITY_UNSUPPORTED'' ''mixed verdict lacks both directions'') (\<lambda>_.
           bindR (ground_that (verdict = ''INSUFFICIENT_EVIDENCE'' \<longrightarrow> stance \<notin> {''BULLISH'', ''BEARISH''})
                    ''POLARITY_UNSUPPORTED'' ''insufficient evidence cannot carry a directional stance'') (\<lambda>_.
           bindR (ground_that (stance = ''BULLISH'' \<longrightarrow> pos) ''POLARITY_UNSUPPORTED'' ''bullish stance lacks independent positive evidence'') (\<lambda>_.
           bindR (ground_that (stance = ''BEARISH'' \<longrightarrow> neg) ''POLARITY_UNSUPPORTED'' ''bearish stance lacks independent negative evidence'') (\<lambda>_.
           Inr gs))))))))"

subsection \<open>Citation edges\<close>

definition producer_quote :: "evidence_record \<Rightarrow> string result" where
  "producer_quote e = (case filter (\<lambda>v. case v of VStr s \<Rightarrow> s \<noteq> [] | _ \<Rightarrow> False)
       (map (get_item (er_raw e)) [''quote'', ''text'', ''content'']) of
     VStr s # _ \<Rightarrow> Inr s | _ \<Rightarrow> Inl (GroundingError ''CITATION_INVALID'' ''producer evidence quote missing''))"

definition quote_hash :: "(string \<Rightarrow> string) \<Rightarrow> evidence_record \<Rightarrow> string result" where
  "quote_hash quote_digest e = bindR (producer_quote e) (\<lambda>q. let computed = quote_digest q in
     case get_item (er_raw e) ''quote_hash'' of VNone \<Rightarrow> Inr computed
     | VStr s \<Rightarrow> if s = computed \<or> s = ''sha256:'' @ computed then Inr s
         else Inl (GroundingError ''CITATION_INVALID'' ''producer quote hash does not match evidence quote'')
     | _ \<Rightarrow> Inl (GroundingError ''CITATION_INVALID'' ''producer quote hash does not match evidence quote''))"

definition quote_provenance :: "evidence_record \<Rightarrow> string" where
  "quote_provenance e = (if get_item (er_raw e) ''quote_hash'' = VNone then ''DERIVED_FROM_PRODUCER_QUOTE'' else ''PRODUCER_EXPLICIT'')"

definition edge_of :: "(string \<Rightarrow> string) \<Rightarrow> evidence_record \<Rightarrow> citation_edge result" where
  "edge_of quote_digest e = bindR (quote_hash quote_digest e) (\<lambda>h.
     Inr \<lparr>ce_knowledge = er_knowledge e, ce_evidence = er_id e, ce_quote_hash = h, ce_provenance = quote_provenance e\<rparr>)"

definition citation_edges :: "fact_extractor \<Rightarrow> (string \<Rightarrow> string) \<Rightarrow> mapping \<Rightarrow> finding \<Rightarrow> citation_edge list result" where
  "citation_edges facts quote_digest bundle f = bindR (ground_finding facts bundle f) (\<lambda>g.
     mapR (edge_of quote_digest) (sort_key er_knowledge (sort_key er_id (gf_evidence g))))"

subsection \<open>The ownership graph\<close>

lemma map_of_rev_Some: "map_of (rev (map (\<lambda>x. (key x, x)) xs)) i = Some y \<Longrightarrow> y \<in> set xs \<and> key y = i"
  by (auto dest!: map_of_SomeD)

lemma bundle_graph_owns:
  assumes "k \<in> set (bundle_graph bundle)" and "e \<in> set (kn_evidence k)"
  shows "er_knowledge e = kn_id k \<and> er_id e \<noteq> []"
  using assms by (auto simp: bundle_graph_def knowledge_of_def evidence_of_def Let_def split: if_splits)

lemma bundle_graph_ids: "k \<in> set (bundle_graph bundle) \<Longrightarrow> kn_id k \<noteq> []"
  by (auto simp: bundle_graph_def knowledge_of_def Let_def split: if_splits)

lemma ground_evidence_Inr:
  assumes "ground_evidence f ks = Inr es"
  shows "map er_id es = fd_evidence_ids f \<and> (\<forall>e \<in> set es. \<exists>k \<in> set ks. e \<in> set (kn_evidence k))
    \<and> set (map er_knowledge es) = set (fd_knowledge_ids f)"
proof -
  have all: "\<forall>i \<in> set (fd_evidence_ids f). evidence_by_id ks i \<noteq> None"
    and es: "es = map (\<lambda>i. the (evidence_by_id ks i)) (fd_evidence_ids f)"
    and own: "set (map er_knowledge es) = set (fd_knowledge_ids f)"
    using assms by (auto simp: ground_evidence_def Let_def bindR_Inr_iff)
  have at: "er_id (the (evidence_by_id ks i)) = i \<and> (\<exists>k \<in> set ks. the (evidence_by_id ks i) \<in> set (kn_evidence k))"
    if i: "i \<in> set (fd_evidence_ids f)" for i
  proof -
    obtain e where "evidence_by_id ks i = Some e" using all i by blast
    then show ?thesis using map_of_rev_Some [of er_id "concat (map kn_evidence ks)" i e] by (simp add: evidence_by_id_def)
  qed
  have "map er_id es = fd_evidence_ids f" unfolding es using at by (simp add: map_idI)
  moreover have "\<forall>e \<in> set es. \<exists>k \<in> set ks. e \<in> set (kn_evidence k)" unfolding es using at by simp
  ultimately show ?thesis using own by simp
qed

lemma ground_finding_Inr:
  assumes "ground_finding facts bundle f = Inr g"
  shows "gf_finding g = f"
    and "\<forall>i \<in> set (fd_knowledge_ids f). knowledge_by_id bundle i \<noteq> None"
    and "gf_knowledge g = map (\<lambda>i. the (knowledge_by_id bundle i)) (fd_knowledge_ids f)"
    and "ground_evidence f (gf_knowledge g) = Inr (gf_evidence g)"
    and "gf_polarity g = polarity (fd_text f)"
    and "gf_polarity g = 0 \<or> polarity (source_text (gf_knowledge g) (gf_evidence g)) = 0
      \<or> gf_polarity g = polarity (source_text (gf_knowledge g) (gf_evidence g))"
    and "facts (fd_text f) (source_entities (gf_knowledge g) (gf_evidence g))
      \<subseteq> facts (source_text (gf_knowledge g) (gf_evidence g)) (source_entities (gf_knowledge g) (gf_evidence g))"
    and "f_le (Fin 0) (fd_confidence f) \<and> f_le (fd_confidence f) (Fin 1)"
  using assms by (auto simp: ground_finding_def Let_def bindR_Inr_iff)

subsection \<open>Properties\<close>

text \<open>C17: What a grounded finding cites is owned by the frozen bundle. Every cited knowledge item is in
  the bundle's graph, every cited evidence record is nested in a cited item and belongs to it, every
  cited item owns cited evidence, the text states no hard fact that the cited content does not, and
  its direction does not oppose the content's.\<close>

theorem grounded_finding_owned:
  assumes "ground_finding facts bundle f = Inr g"
  shows "map kn_id (gf_knowledge g) = fd_knowledge_ids f \<and> map er_id (gf_evidence g) = fd_evidence_ids f
    \<and> set (gf_knowledge g) \<subseteq> set (bundle_graph bundle)
    \<and> (\<forall>e \<in> set (gf_evidence g). \<exists>k \<in> set (gf_knowledge g). e \<in> set (kn_evidence k) \<and> er_knowledge e = kn_id k)
    \<and> (\<forall>k \<in> set (gf_knowledge g). \<exists>e \<in> set (gf_evidence g). er_knowledge e = kn_id k)
    \<and> facts (fd_text f) (source_entities (gf_knowledge g) (gf_evidence g))
        \<subseteq> facts (source_text (gf_knowledge g) (gf_evidence g)) (source_entities (gf_knowledge g) (gf_evidence g))
    \<and> polarity (fd_text f) * polarity (source_text (gf_knowledge g) (gf_evidence g)) \<noteq> - 1"
proof -
  note d = ground_finding_Inr [OF assms]
  note e = ground_evidence_Inr [OF d(4)]
  have k: "kn_id (the (knowledge_by_id bundle i)) = i \<and> the (knowledge_by_id bundle i) \<in> set (bundle_graph bundle)"
    if i: "i \<in> set (fd_knowledge_ids f)" for i
  proof -
    obtain x where "knowledge_by_id bundle i = Some x" using d(2) i by blast
    then show ?thesis using map_of_rev_Some [of kn_id "bundle_graph bundle" i x] by (simp add: knowledge_by_id_def)
  qed
  have ids: "map kn_id (gf_knowledge g) = fd_knowledge_ids f" unfolding d(3) using k by (simp add: map_idI)
  have sub: "set (gf_knowledge g) \<subseteq> set (bundle_graph bundle)" unfolding d(3) using k by auto
  have own: "\<forall>x \<in> set (gf_evidence g). \<exists>y \<in> set (gf_knowledge g). x \<in> set (kn_evidence y) \<and> er_knowledge x = kn_id y"
    using e sub bundle_graph_owns by blast
  have "\<forall>y \<in> set (gf_knowledge g). \<exists>x \<in> set (gf_evidence g). er_knowledge x = kn_id y"
  proof
    fix y assume "y \<in> set (gf_knowledge g)"
    then have "kn_id y \<in> set (map kn_id (gf_knowledge g))" by simp
    then have "kn_id y \<in> set (map er_knowledge (gf_evidence g))" using ids e by simp
    then show "\<exists>x \<in> set (gf_evidence g). er_knowledge x = kn_id y" by force
  qed
  moreover have "polarity (fd_text f) * polarity (source_text (gf_knowledge g) (gf_evidence g)) \<noteq> - 1"
    using d(5,6) by (auto simp: polarity_def Let_def sgn_if split: if_splits)
  ultimately show ?thesis using ids sub own e d(7) by blast
qed

definition demo_bundle :: mapping where
  "demo_bundle = [(''knowledge'', VList [
     VDict [(''id'', VStr ''k1''), (''statement'', VStr ''revenue growth''), (''evidence'', VList [
        VDict [(''evidence_id'', VStr ''e1''), (''quote'', VStr ''revenue growth in 2024''), (''author'', VStr ''a'')]])],
     VDict [(''id'', VStr ''k2''), (''statement'', VStr ''costs rise''), (''evidence'', VList [
        VDict [(''evidence_id'', VStr ''e2''), (''quote'', VStr ''costs rise''), (''author'', VStr ''b'')]])]])]"

definition demo_finding :: finding where
  "demo_finding = \<lparr>fd_text = ''growth'', fd_knowledge_ids = [''k2'', ''k1''], fd_evidence_ids = [''e1'', ''e2''], fd_confidence = Fin (1/2)\<rparr>"

definition no_facts :: fact_extractor where
  "no_facts t es = {}"

lemma demo_grounded: "\<not> isl (ground_finding no_facts demo_bundle demo_finding)"
  by code_simp

lemma grounded_finding_owned_witness:
  "\<exists>g. ground_finding no_facts demo_bundle demo_finding = Inr g \<and> map er_id (gf_evidence g) = [''e1'', ''e2'']"
proof -
  obtain g where g: "ground_finding no_facts demo_bundle demo_finding = Inr g" using demo_grounded by (rule not_islE)
  then show ?thesis using grounded_finding_owned [OF g] by (simp add: demo_finding_def)
qed

text \<open>Citation edges are the evidence records of the finding, one edge each and no others (no
  product of the two id lists): each edge pairs an evidence id with the item that owns it in the
  bundle, carries the producer's quote hash or the digest of the producer's quote, and the edges are
  ordered by item and evidence.\<close>

theorem citation_edges_exact:
  assumes "citation_edges facts quote_digest bundle f = Inr es"
  shows "length es = length (fd_evidence_ids f) \<and> set (map ce_evidence es) = set (fd_evidence_ids f)
    \<and> set (map ce_knowledge es) = set (fd_knowledge_ids f) \<and> sorted (map ce_knowledge es)
    \<and> (\<forall>c \<in> set es. \<exists>k \<in> set (bundle_graph bundle). \<exists>e \<in> set (kn_evidence k). kn_id k = ce_knowledge c \<and> er_id e = ce_evidence c
         \<and> quote_hash quote_digest e = Inr (ce_quote_hash c))"
proof -
  obtain g where g: "ground_finding facts bundle f = Inr g"
    and m: "mapR (edge_of quote_digest) (sort_key er_knowledge (sort_key er_id (gf_evidence g))) = Inr es"
    using assms by (auto simp: citation_edges_def bindR_Inr_iff)
  note o = grounded_finding_owned [OF g]
  note ev = ground_evidence_Inr [OF ground_finding_Inr(4) [OF g]]
  define xs where "xs = sort_key er_knowledge (sort_key er_id (gf_evidence g))"
  have edge: "mapR (edge_of quote_digest) ys = Inr cs \<Longrightarrow> map ce_knowledge cs = map er_knowledge ys \<and> map ce_evidence cs = map er_id ys
      \<and> (\<forall>c \<in> set cs. \<exists>e \<in> set ys. ce_knowledge c = er_knowledge e \<and> ce_evidence c = er_id e \<and> quote_hash quote_digest e = Inr (ce_quote_hash c))" for ys cs
  proof (induction ys arbitrary: cs)
    case (Cons y ys)
    obtain c cs' where c: "edge_of quote_digest y = Inr c" "mapR (edge_of quote_digest) ys = Inr cs'" "cs = c # cs'"
      using Cons.prems by (auto simp: bindR_Inr_iff)
    have "ce_knowledge c = er_knowledge y \<and> ce_evidence c = er_id y \<and> quote_hash quote_digest y = Inr (ce_quote_hash c)"
      using c(1) by (auto simp: edge_of_def bindR_Inr_iff)
    then show ?case using Cons.IH [OF c(2)] c(3) by auto
  qed simp
  note ed = edge [OF m, folded xs_def]
  have set_xs: "set xs = set (gf_evidence g)" "length xs = length (gf_evidence g)" "sorted (map er_knowledge xs)"
    by (simp_all add: xs_def)
  have "length (gf_evidence g) = length (fd_evidence_ids f)" using ev by (metis length_map)
  moreover have "length es = length xs" using ed by (metis length_map)
  moreover have "set (map ce_evidence es) = set (fd_evidence_ids f)" using ed ev set_xs by (metis set_map)
  moreover have "set (map ce_knowledge es) = set (fd_knowledge_ids f)" using ed ev set_xs by (metis set_map)
  moreover have "sorted (map ce_knowledge es)" using ed set_xs by simp
  moreover have "\<forall>c \<in> set es. \<exists>k \<in> set (bundle_graph bundle). \<exists>e \<in> set (kn_evidence k). kn_id k = ce_knowledge c \<and> er_id e = ce_evidence c
         \<and> quote_hash quote_digest e = Inr (ce_quote_hash c)"
  proof
    fix c assume "c \<in> set es"
    then obtain e where e: "e \<in> set xs" "ce_knowledge c = er_knowledge e" "ce_evidence c = er_id e" "quote_hash quote_digest e = Inr (ce_quote_hash c)"
      using ed by blast
    then obtain k where "k \<in> set (gf_knowledge g)" "e \<in> set (kn_evidence k)" "er_knowledge e = kn_id k" using o set_xs(1) by blast
    then show "\<exists>k \<in> set (bundle_graph bundle). \<exists>e \<in> set (kn_evidence k). kn_id k = ce_knowledge c \<and> er_id e = ce_evidence c
         \<and> quote_hash quote_digest e = Inr (ce_quote_hash c)" using e o by (intro bexI [of _ k] bexI [of _ e]) auto
  qed
  ultimately show ?thesis using set_xs(2) by simp
qed

lemma citation_edges_exact_witness:
  "\<exists>es. citation_edges no_facts id demo_bundle demo_finding = Inr es \<and> length es = 2 \<and> sorted (map ce_knowledge es)"
proof -
  have "\<not> isl (citation_edges no_facts id demo_bundle demo_finding)" by code_simp
  then obtain es where e: "citation_edges no_facts id demo_bundle demo_finding = Inr es" by (rule not_islE)
  then show ?thesis using citation_edges_exact [OF e] by (simp add: demo_finding_def)
qed

lemma f_lt_asym: "f_lt a b \<Longrightarrow> \<not> f_lt b a"
  using f_lt_le_trans [of a b a] f_lt_imp_le [of b a] by auto

text \<open>Accepted verdicts and stances agree. A supported verdict is never bearish, a contradicted one
  never bullish, an insufficient one never directional; a supported or bullish conclusion has more
  positive than negative evidence weight, and any directional label rests on the required number of
  independent sources.\<close>

theorem verdict_stance_consistent:
  assumes "validate_semantics facts bundle fs verdict stance minimum = Inr gs"
  shows "(verdict = ''SUPPORTED'' \<longrightarrow> stance \<noteq> ''BEARISH'') \<and> (verdict = ''CONTRADICTED'' \<longrightarrow> stance \<noteq> ''BULLISH'')
    \<and> (verdict = ''INSUFFICIENT_EVIDENCE'' \<longrightarrow> stance \<notin> {''BULLISH'', ''BEARISH''})
    \<and> (verdict = ''SUPPORTED'' \<or> stance = ''BULLISH'' \<longrightarrow> f_lt (directed_weight (\<lambda>p. p < 0) gs) (directed_weight (\<lambda>p. 0 < p) gs))
    \<and> (verdict \<in> {''SUPPORTED'', ''CONTRADICTED'', ''MIXED''} \<or> stance \<in> {''BULLISH'', ''BEARISH''} \<longrightarrow>
         1 \<le> minimum \<and> minimum \<le> int (card (set (concat (map (\<lambda>g. map er_source (gf_evidence g)) gs)))))"
proof -
  define pos neg ind where "pos = directed_weight (\<lambda>p. 0 < p) gs" and "neg = directed_weight (\<lambda>p. p < 0) gs"
    and "ind \<longleftrightarrow> minimum \<le> int (card (set (concat (map (\<lambda>g. map er_source (gf_evidence g)) gs))))"
  have c: "1 \<le> minimum" "verdict = ''SUPPORTED'' \<longrightarrow> ind \<and> f_lt neg pos" "verdict = ''CONTRADICTED'' \<longrightarrow> ind \<and> f_lt pos neg"
      "verdict = ''MIXED'' \<longrightarrow> ind" "verdict = ''INSUFFICIENT_EVIDENCE'' \<longrightarrow> stance \<notin> {''BULLISH'', ''BEARISH''}"
      "stance = ''BULLISH'' \<longrightarrow> ind \<and> f_lt neg pos" "stance = ''BEARISH'' \<longrightarrow> ind \<and> f_lt pos neg"
    using assms unfolding validate_semantics_def Let_def
    by (simp_all only: bindR_Inr_iff ground_that_Inr pos_def neg_def ind_def sum.inject not_less split: if_splits) auto
  have n: "f_lt neg pos \<longrightarrow> \<not> f_lt pos neg" using f_lt_asym by blast
  show ?thesis unfolding pos_def [symmetric] neg_def [symmetric] ind_def [symmetric] insert_iff empty_iff
    using c [unfolded insert_iff empty_iff] n by satx
qed

lemma verdict_stance_consistent_witness:
  "\<exists>gs. validate_semantics no_facts demo_bundle [demo_finding] ''SUPPORTED'' ''BULLISH'' 2 = Inr gs
     \<and> f_lt (directed_weight (\<lambda>p. p < 0) gs) (directed_weight (\<lambda>p. 0 < p) gs)"
proof -
  have "\<not> isl (validate_semantics no_facts demo_bundle [demo_finding] ''SUPPORTED'' ''BULLISH'' 2)" by code_simp
  then obtain gs where g: "validate_semantics no_facts demo_bundle [demo_finding] ''SUPPORTED'' ''BULLISH'' 2 = Inr gs" by (rule not_islE)
  then show ?thesis using verdict_stance_consistent [OF g] by blast
qed

end
