(* ===== verification/ActionLanguage.thy ===== *)
theory ActionLanguage
  imports Proposal
begin

text \<open>
  The research-output gate of \<open>app/domain/knowledge_conclusion.py\<close>: which displayed texts read as a
  trading instruction. Texts are UTF-8 bytes. NFKC normalization is the argument \<open>nfkc\<close>, a table of
  the standard library; after it every character outside ASCII counts as a word character (a
  non-ASCII punctuation mark that NFKC keeps is a separator in the code). The regular expressions are
  kept as values of the type \<open>rx\<close> with a matcher that lists where a match can end.
\<close>

subsection \<open>Regular expressions\<close>

datatype rx = Chars string | Sp0 | Sp1 | Bnd | Sq "rx list" | Any "rx list" | Opt rx

definition is_word :: "char \<Rightarrow> bool" where
  "is_word c = (let n = of_char c :: int in 97 \<le> n \<and> n \<le> 122 \<or> 65 \<le> n \<and> n \<le> 90 \<or> 48 \<le> n \<and> n \<le> 57 \<or> n = 95 \<or> 128 \<le> n)"

lemma is_word_code [code]: "is_word (Char b0 b1 b2 b3 b4 b5 b6 b7) \<longleftrightarrow>
   b7 \<or> b6 \<and> (b0 \<or> b1 \<or> b2 \<or> b3 \<or> b4) \<and> \<not> (b4 \<and> b3 \<and> (b2 \<or> b1 \<and> b0)) \<or> b6 \<and> b0 \<and> b1 \<and> b2 \<and> b3 \<and> b4 \<and> \<not> b5
   \<or> \<not> b6 \<and> b5 \<and> b4 \<and> (\<not> b3 \<or> \<not> b1 \<and> \<not> b2)"
  by (cases b0; cases b1; cases b2; cases b3; cases b4; cases b5; cases b6; cases b7; simp add: is_word_def)

type_synonym rx_pos = "char option \<times> string"

definition boundary :: "rx_pos \<Rightarrow> bool" where
  "boundary st = ((case fst st of None \<Rightarrow> False | Some c \<Rightarrow> is_word c) \<noteq> (case snd st of [] \<Rightarrow> False | c # _ \<Rightarrow> is_word c))"

fun skip_chars :: "string \<Rightarrow> rx_pos \<Rightarrow> rx_pos list" where
  "skip_chars [] st = [st]"
| "skip_chars (w # ws) (p, []) = []"
| "skip_chars (w # ws) (p, c # cs) = (if c = w then skip_chars ws (Some c, cs) else [])"

fun skip_spaces :: "string \<Rightarrow> rx_pos list" where
  "skip_spaces [] = []"
| "skip_spaces (c # cs) = (if is_space c then (Some c, cs) # skip_spaces cs else [])"

fun ends :: "rx \<Rightarrow> rx_pos \<Rightarrow> rx_pos list"
  and ends_seq :: "rx list \<Rightarrow> rx_pos \<Rightarrow> rx_pos list"
  and ends_any :: "rx list \<Rightarrow> rx_pos \<Rightarrow> rx_pos list" where
  "ends (Chars w) st = skip_chars w st"
| "ends Sp0 st = st # skip_spaces (snd st)"
| "ends Sp1 st = skip_spaces (snd st)"
| "ends Bnd st = (if boundary st then [st] else [])"
| "ends (Sq rs) st = ends_seq rs st"
| "ends (Any rs) st = ends_any rs st"
| "ends (Opt r) st = ends r st @ [st]"
| "ends_seq [] st = [st]"
| "ends_seq (r # rs) st = concat (map (ends_seq rs) (ends r st))"
| "ends_any [] st = []"
| "ends_any (r # rs) st = ends r st @ ends_any rs st"

fun rx_search :: "rx \<Rightarrow> char option \<Rightarrow> string \<Rightarrow> bool" where
  "rx_search r p [] \<longleftrightarrow> ends r (p, []) \<noteq> []"
| "rx_search r p (c # cs) \<longleftrightarrow> ends r (p, c # cs) \<noteq> [] \<or> rx_search r (Some c) cs"

subsection \<open>The patterns\<close>

definition words :: "string list \<Rightarrow> rx" where
  "words ws = Any (map Chars ws)"

definition spelled :: "string \<Rightarrow> rx" where
  "spelled w = Sq ([Bnd] @ concat (map (\<lambda>c. [Chars [c], Sp0]) (butlast w)) @ [Chars [last w], Bnd])"

definition liquidate_forms :: "string list" where
  "liquidate_forms = [''liquidate'', ''liquidates'', ''liquidated'', ''liquidating'']"

definition english_patterns :: "rx list" where
  "english_patterns = [spelled ''buy'', spelled ''sell'', spelled ''hold'',
     Sq [Bnd, Chars ''go'', Sp1, Chars ''long'', Bnd],
     Sq [Bnd, Chars ''go'', Sp1, Chars ''short'', Bnd],
     Sq [Bnd, words ([''open'', ''close'', ''enter'', ''exit'', ''clear''] @ liquidate_forms @ [''hold'']), Sp1,
         Opt (Sq [words [''a'', ''the'', ''your''], Sp1]),
         words [''long'', ''short'', ''position'', ''positions'', ''trade'', ''trades'', ''exposure'', ''holding'', ''holdings''], Bnd],
     Sq [Bnd, words ([''enter'', ''exit'', ''open'', ''close'', ''clear''] @ liquidate_forms @ [''hold'']), Sp1,
         words [''now'', ''immediately'', ''today''], Bnd],
     Sq [Bnd, words [''increase'', ''decrease'', ''add'', ''reduce'', ''trim''], Sp1, Opt (Sq [words [''your'', ''the''], Sp1]),
         words [''position'', ''positions'', ''exposure'', ''holding'', ''holdings''], Bnd],
     Sq [Bnd, Chars ''stop'', Sp0, Chars ''loss'', Bnd],
     Sq [Bnd, Chars ''take'', Sp0, Chars ''profit'', Bnd],
     Sq [Bnd, Chars ''take'', Sp1, words [''profits'', ''profit''], Sp1, words [''now'', ''immediately'', ''today''], Bnd],
     Sq [Bnd, words [''set'', ''place'', ''move'', ''use'', ''add''], Sp1, Opt (Sq [words [''a'', ''the'', ''your''], Sp1]),
         Any [Chars ''stop'', Sq [Chars ''stop'', Sp0, Chars ''loss''], Sq [Chars ''take'', Sp0, Chars ''profit''],
              Sq [Chars ''profit'', Sp0, Chars ''taking''], Sq [Chars ''target'', Opt (Sq [Sp0, Chars ''price''])]], Bnd],
     Sq [Bnd, Chars ''stop'', Sp1, words [''at'', ''below'', ''above''], Bnd],
     Sq [Bnd, Any [Sq [Chars ''target'', Sp0, Chars ''price''], Sq [Chars ''price'', Sp0, Chars ''target'']], Bnd],
     Sq [Bnd, Chars ''recommend'', Opt (words [''ed'', ''ation'']), Sp1, Opt (Sq [Chars ''that'', Sp1]),
         Opt (Sq [words [''you'', ''investors'', ''investor''], Sp1]),
         Any ([Sq [Chars ''go'', Sp1, words [''long'', ''short'']]] @ map Chars [''buying'', ''buy'', ''selling'', ''sell'', ''holding'', ''hold'',
           ''entering'', ''enter'', ''exiting'', ''exit'', ''open'', ''close'', ''clear'', ''liquidate'', ''liquidating'']), Bnd],
     Sq [Bnd, Any [Sq [Chars ''order'', Sp0, Chars ''command''], Sq [Chars ''execution'', Sp0, Chars ''authorization''], Chars ''broker''], Bnd]]"

definition chinese_actions :: "string list" where
  "chinese_actions = [utf8 [228, 185, 176, 229, 133, 165], utf8 [229, 141, 150, 229, 135, 186], utf8 [229, 187, 186, 228, 187, 147],
     utf8 [229, 188, 128, 228, 187, 147], utf8 [229, 185, 179, 228, 187, 147], utf8 [230, 184, 133, 228, 187, 147],
     utf8 [229, 138, 160, 228, 187, 147], utf8 [229, 135, 143, 228, 187, 147], utf8 [232, 161, 165, 228, 187, 147],
     utf8 [229, 129, 154, 229, 164, 154], utf8 [229, 129, 154, 231, 169, 186], utf8 [229, 133, 165, 229, 156, 186],
     utf8 [231, 166, 187, 229, 156, 186], utf8 [232, 191, 155, 229, 156, 186], utf8 [229, 135, 186, 229, 156, 186],
     utf8 [233, 128, 128, 229, 135, 186, 228, 186, 164, 230, 152, 147], utf8 [228, 187, 147, 228, 189, 141, 230, 140, 135, 228, 187, 164],
     utf8 [230, 173, 162, 230, 141, 159], utf8 [230, 173, 162, 231, 155, 136], utf8 [230, 173, 162, 232, 181, 154],
     utf8 [231, 155, 174, 230, 160, 135, 228, 187, 183]]"

text \<open>The alternatives with a longer form (the target price with its suffix, and an action after the word
  for recommending) contain a shorter one and add nothing to the search.\<close>

definition hold_word :: string where
  "hold_word = utf8 [230, 140, 129, 230, 156, 137]"

definition hold_safe_suffixes :: "string list" where
  "hold_safe_suffixes = [utf8 [231, 142, 176, 233, 135, 145], utf8 [232, 181, 132, 228, 186, 167], utf8 [232, 130, 161, 230, 157, 131],
     utf8 [232, 130, 161, 228, 187, 189], utf8 [229, 128, 186, 229, 136, 184], utf8 [231, 137, 169, 228, 184, 154],
     utf8 [230, 149, 176, 233, 135, 143], utf8 [230, 175, 148, 228, 190, 139]]"

function hold_instruction :: "string \<Rightarrow> bool" where
  "hold_instruction s = (case s of [] \<Rightarrow> False
     | c # cs \<Rightarrow> if starts_with s hold_word
         then (let rest = drop (length hold_word) s in
               if \<exists>w \<in> set hold_safe_suffixes. starts_with rest w then hold_instruction rest else True)
         else hold_instruction cs)"
  by pat_completeness auto
termination by (relation "measure length") (auto simp: hold_word_def utf8_def)

declare hold_instruction.simps [simp del]

subsection \<open>Normalization and the gate\<close>

fun drop_invisible :: "string \<Rightarrow> string" where
  "drop_invisible (a # b # c # s) =
     (let x = of_char a :: int; y = of_char b :: int; z = of_char c :: int in
      if x = 226 \<and> y = 128 \<and> 139 \<le> z \<and> z \<le> 143 \<or> x = 226 \<and> y = 129 \<and> z = 160 \<or> x = 239 \<and> y = 187 \<and> z = 191
      then drop_invisible s else a # drop_invisible (b # c # s))"
| "drop_invisible s = s"

fun squeeze :: "bool \<Rightarrow> string \<Rightarrow> string" where
  "squeeze gap [] = []"
| "squeeze gap (c # cs) = (if is_word c then c # squeeze False cs else if gap then squeeze True cs else CHR '' '' # squeeze True cs)"

definition normalized_text :: "(string \<Rightarrow> string) \<Rightarrow> string \<Rightarrow> string" where
  "normalized_text nfkc v = strip (drop_invisible (nfkc v))"

definition separated_text :: "(string \<Rightarrow> string) \<Rightarrow> string \<Rightarrow> string" where
  "separated_text nfkc v =
     strip (map (\<lambda>c. if c = CHR ''_'' then CHR '' '' else c) (squeeze False (str_lower (normalized_text nfkc v))))"

definition prohibited_action_language :: "(string \<Rightarrow> string) \<Rightarrow> string \<Rightarrow> string option" where
  "prohibited_action_language nfkc v =
     (let separated = separated_text nfkc v; compact = filter (\<lambda>c. c \<noteq> CHR '' '') separated in
      if \<exists>r \<in> set english_patterns. rx_search r None separated then Some ''trading or execution instruction''
      else if (\<exists>w \<in> set chinese_actions. str_in w compact) \<or> hold_instruction compact then Some ''trading or position instruction''
      else if normalized_text nfkc v = [] then Some ''blank'' else None)"

definition reject_action_language :: "(string \<Rightarrow> string) \<Rightarrow> string \<Rightarrow> string \<Rightarrow> string result" where
  "reject_action_language nfkc v field_name =
     (let n = normalized_text nfkc v in
      if n = [] then Inl (ValueError (field_name @ '' must be nonblank''))
      else (case prohibited_action_language nfkc n of
          Some reason \<Rightarrow> Inl (ValueError (field_name @ '' contains prohibited action language: '' @ reason))
        | None \<Rightarrow> Inr (strip v)))"

fun reject_recursively :: "(string \<Rightarrow> string) \<Rightarrow> pyval \<Rightarrow> string \<Rightarrow> pyval result"
  and reject_items :: "(string \<Rightarrow> string) \<Rightarrow> pyval list \<Rightarrow> string \<Rightarrow> pyval list result"
  and reject_fields :: "(string \<Rightarrow> string) \<Rightarrow> (string \<times> pyval) list \<Rightarrow> string \<Rightarrow> (string \<times> pyval) list result" where
  "reject_recursively nfkc (VStr s) f = bindR (reject_action_language nfkc s f) (\<lambda>t. Inr (VStr t))"
| "reject_recursively nfkc (VDict d) f = bindR (reject_fields nfkc d f) (\<lambda>e. Inr (VDict e))"
| "reject_recursively nfkc (VList xs) f = bindR (reject_items nfkc xs f) (\<lambda>ys. Inr (VList ys))"
| "reject_recursively nfkc v f = Inr v"
| "reject_items nfkc [] f = Inr []"
| "reject_items nfkc (x # xs) f = bindR (reject_recursively nfkc x f) (\<lambda>y. bindR (reject_items nfkc xs f) (\<lambda>ys. Inr (y # ys)))"
| "reject_fields nfkc [] f = Inr []"
| "reject_fields nfkc ((k, x) # d) f = bindR (reject_recursively nfkc x (f @ ''.'' @ k)) (\<lambda>y. bindR (reject_fields nfkc d f) (\<lambda>e. Inr ((k, y) # e)))"

subsection \<open>Properties\<close>

lemma lower_upper_char: "lower_char (upper_char c) = lower_char c"
  by (simp add: lower_char_def upper_char_def Let_def)

lemma str_lower_upper: "str_lower (str_upper s) = str_lower s"
  by (simp add: str_lower_def str_upper_def lower_upper_char)

end
