(* ===== verification/Conclusion.thy ===== *)
theory Conclusion
  imports Grounding ActionLanguage "HOL-Library.Product_Lexorder" "HOL-Library.Multiset"
begin

text \<open>
  The content-only research conclusion: the contract of \<open>app/domain/knowledge_conclusion.py\<close> (request,
  finding, model identity, conclusion, its construction from findings and its revalidation) and the
  model-free path of \<open>app/application/knowledge_conclusion/deterministic_fallback.py\<close>. A model whose
  validation fails raises \<open>ValidationError\<close> with the message of the first failing check. The arguments
  \<open>nfkc\<close>, \<open>facts\<close> and \<open>id_digest\<close> are Unicode normalization, the extraction of hard facts, and the
  shortened SHA-256 of the bundle and snapshot ids.
\<close>

subsection \<open>The contract\<close>

datatype conclusion_verdict = SUPPORTED | CONTRADICTED | MIXED | INSUFFICIENT_EVIDENCE

datatype market_stance = BULLISH | BEARISH | NEUTRAL | UNCERTAIN

datatype model_mode = MODEL | FALLBACK

record conclusion_model =
  cm_mode :: model_mode
  cm_provider :: string
  cm_model :: string
  cm_prompt_version :: string

record conclusion_request =
  kq_snapshot_id :: string
  kq_query :: string
  kq_symbol :: "string option"
  kq_business_as_of :: "py_datetime option"
  kq_knowledge_as_of :: "py_datetime option"
  kq_availability_as_of :: "py_datetime option"
  kq_bundle_contract :: string

record conclusion =
  kc_contract :: string
  kc_conclusion_id :: string
  kc_scope :: string
  kc_execution_eligible :: bool
  kc_query :: string
  kc_bundle_id :: string
  kc_snapshot_id :: string
  kc_verdict :: conclusion_verdict
  kc_stance :: market_stance
  kc_summary :: string
  kc_findings :: "finding list"
  kc_conditions :: "string list"
  kc_risks :: "string list"
  kc_contradictions :: "string list"
  kc_limitations :: "string list"
  kc_model :: conclusion_model
  kc_created_at :: py_datetime

text \<open>Inside a pydantic validator a \<open>ValueError\<close> becomes a \<open>ValidationError\<close>.\<close>

definition validating :: "'a result \<Rightarrow> 'a result" where
  "validating r = (case r of Inl e \<Rightarrow> Inl (ValidationError (exc_message e)) | Inr x \<Rightarrow> Inr x)"

lemma validating_Inr [simp]: "validating r = Inr x \<longleftrightarrow> r = Inr x"
  by (simp add: validating_def split: sum.splits)

definition nonblank_identifier :: "string \<Rightarrow> string \<Rightarrow> string result" where
  "nonblank_identifier value field_name =
     (if strip value = [] then Inl (ValueError (field_name @ '' must be nonblank'')) else Inr (strip value))"

definition validated_citations :: "string list \<Rightarrow> string \<Rightarrow> string list result" where
  "validated_citations values field_name =
     bindR (mapR (\<lambda>v. nonblank_identifier v field_name) values) (\<lambda>cleaned.
     if card (set cleaned) \<noteq> length cleaned then Inl (ValueError (field_name @ '' must be unique'')) else Inr cleaned)"

definition validate_finding :: "(string \<Rightarrow> string) \<Rightarrow> finding \<Rightarrow> finding result" where
  "validate_finding nfkc f =
     bindR (validating (reject_action_language nfkc (fd_text f) ''finding.text'')) (\<lambda>t.
     bindR (check_that (fd_knowledge_ids f \<noteq> []) ''Tuple should have at least 1 item'') (\<lambda>_.
     bindR (validating (validated_citations (fd_knowledge_ids f) ''knowledge_ids'')) (\<lambda>ks.
     bindR (check_that (fd_evidence_ids f \<noteq> []) ''Tuple should have at least 1 item'') (\<lambda>_.
     bindR (validating (validated_citations (fd_evidence_ids f) ''evidence_ids'')) (\<lambda>es.
     bindR (check_that (f_le (Fin 0) (fd_confidence f) \<and> f_le (fd_confidence f) (Fin 1)) ''Input should be between 0 and 1'') (\<lambda>_.
     Inr \<lparr>fd_text = t, fd_knowledge_ids = ks, fd_evidence_ids = es, fd_confidence = fd_confidence f\<rparr>))))))"

definition validate_conclusion_model :: "conclusion_model \<Rightarrow> conclusion_model result" where
  "validate_conclusion_model m =
     bindR (nonblank (cm_provider m) ''model identity'') (\<lambda>provider.
     bindR (nonblank (cm_model m) ''model identity'') (\<lambda>model.
     bindR (check_that (cm_prompt_version m = ''knowledge-conclusion.prompt.v1'') ''Input should be 'knowledge-conclusion.prompt.v1' '') (\<lambda>_.
     Inr (m\<lparr>cm_provider := provider, cm_model := model\<rparr>))))"

definition bundle_contracts :: "string set" where
  "bundle_contracts = {''content-knowledge-bundle.v1'', ''content-knowledge-bundle.v2''}"

definition validate_request :: "(string \<Rightarrow> string) \<Rightarrow> conclusion_request \<Rightarrow> conclusion_request result" where
  "validate_request nfkc q =
     bindR (validating (nonblank_identifier (kq_snapshot_id q) ''content_snapshot_id'')) (\<lambda>snap.
     bindR (validating (reject_action_language nfkc (kq_query q) ''query'')) (\<lambda>query.
     bindR (case kq_symbol q of None \<Rightarrow> Inr None
            | Some s \<Rightarrow> bindR (validating (nonblank_identifier s ''symbol'')) (\<lambda>t. Inr (Some t))) (\<lambda>symbol.
     bindR (check_that (kq_bundle_contract q \<in> bundle_contracts) ''Input should be a known bundle contract'') (\<lambda>_.
     Inr (q\<lparr>kq_snapshot_id := snap, kq_query := query, kq_symbol := symbol\<rparr>)))))"

definition clean_texts :: "(string \<Rightarrow> string) \<Rightarrow> string list \<Rightarrow> string \<Rightarrow> string list result" where
  "clean_texts nfkc values field_name = mapR (\<lambda>v. validating (reject_action_language nfkc v field_name)) values"

definition clean_conclusion :: "(string \<Rightarrow> string) \<Rightarrow> conclusion \<Rightarrow> conclusion result" where
  "clean_conclusion nfkc c =
     bindR (check_that (kc_contract c = ''knowledge-conclusion.v1'') ''Input should be 'knowledge-conclusion.v1' '') (\<lambda>_.
     bindR (validating (nonblank_identifier (kc_conclusion_id c) ''conclusion_id'')) (\<lambda>cid.
     bindR (check_that (kc_scope c = ''CONTENT_ONLY_RESEARCH'' \<and> \<not> kc_execution_eligible c) ''Input should be the literal'') (\<lambda>_.
     bindR (validating (reject_action_language nfkc (kc_query c) ''query'')) (\<lambda>query.
     bindR (validating (nonblank_identifier (kc_bundle_id c) ''content_bundle_id'')) (\<lambda>bid.
     bindR (validating (nonblank_identifier (kc_snapshot_id c) ''content_snapshot_id'')) (\<lambda>sid.
     bindR (validating (reject_action_language nfkc (kc_summary c) ''summary'')) (\<lambda>summary.
     bindR (check_that (kc_findings c \<noteq> []) ''Tuple should have at least 1 item'') (\<lambda>_.
     bindR (clean_texts nfkc (kc_conditions c) ''conditions'') (\<lambda>conditions.
     bindR (clean_texts nfkc (kc_risks c) ''risks'') (\<lambda>risks.
     bindR (clean_texts nfkc (kc_contradictions c) ''contradictions'') (\<lambda>contradictions.
     bindR (clean_texts nfkc (kc_limitations c) ''limitations'') (\<lambda>limitations.
     bindR (check_that (is_aware (kc_created_at c)) ''created_at must be timezone-aware'') (\<lambda>_.
     Inr (c\<lparr>kc_conclusion_id := cid, kc_query := query, kc_bundle_id := bid, kc_snapshot_id := sid, kc_summary := summary,
        kc_conditions := conditions, kc_risks := risks, kc_contradictions := contradictions, kc_limitations := limitations\<rparr>))))))))))))))"

definition displayed :: "conclusion \<Rightarrow> string list" where
  "displayed c = kc_summary c # kc_conditions c @ kc_risks c @ kc_contradictions c @ kc_limitations c"

definition display_tree :: "conclusion \<Rightarrow> pyval" where
  "display_tree c = (let texts = \<lambda>xs. VList (map VStr xs) in
     VDict [(''query'', VStr (kc_query c)), (''summary'', VStr (kc_summary c)),
       (''findings'', VList (map (\<lambda>f. VDict [(''text'', VStr (fd_text f))]) (kc_findings c))),
       (''conditions'', texts (kc_conditions c)), (''risks'', texts (kc_risks c)),
       (''contradictions'', texts (kc_contradictions c)), (''limitations'', texts (kc_limitations c))])"

definition displayed_grounded :: "(string \<Rightarrow> string) \<Rightarrow> conclusion \<Rightarrow> conclusion result" where
  "displayed_grounded nfkc c =
     bindR (validating (reject_recursively nfkc (display_tree c) ''knowledge_conclusion'')) (\<lambda>_.
     bindR (check_that (set (displayed c) \<subseteq> fd_text ` set (kc_findings c)) ''displayed narrative must be selected from a cited finding'') (\<lambda>_.
     Inr c))"

definition validate_conclusion :: "(string \<Rightarrow> string) \<Rightarrow> conclusion \<Rightarrow> conclusion result" where
  "validate_conclusion nfkc c = bindR (clean_conclusion nfkc c) (displayed_grounded nfkc)"

text \<open>Validated again from its dictionary, the nested findings and the model identity too.\<close>

definition revalidate_conclusion :: "(string \<Rightarrow> string) \<Rightarrow> conclusion \<Rightarrow> conclusion result" where
  "revalidate_conclusion nfkc c =
     bindR (mapR (validate_finding nfkc) (kc_findings c)) (\<lambda>fs.
     bindR (validate_conclusion_model (kc_model c)) (\<lambda>m.
     validate_conclusion nfkc (c\<lparr>kc_findings := fs, kc_model := m\<rparr>)))"

record conclusion_parts =
  cp_conclusion_id :: string
  cp_bundle_id :: string
  cp_verdict :: conclusion_verdict
  cp_stance :: market_stance
  cp_summary :: finding
  cp_findings :: "finding list"
  cp_conditions :: "finding list"
  cp_risks :: "finding list"
  cp_contradictions :: "finding list"
  cp_limitations :: "finding list"
  cp_model :: conclusion_model
  cp_created_at :: py_datetime

definition construct_conclusion :: "(string \<Rightarrow> string) \<Rightarrow> conclusion_request \<Rightarrow> conclusion_parts \<Rightarrow> conclusion result" where
  "construct_conclusion nfkc q p =
     (let all = (if cp_summary p \<in> set (cp_findings p) then cp_findings p else cp_summary p # cp_findings p) in
      if \<not> set (cp_conditions p @ cp_risks p @ cp_contradictions p @ cp_limitations p) \<subseteq> set all
      then Inl (ValueError ''displayed finding must be included in findings'')
      else validate_conclusion nfkc
        \<lparr>kc_contract = ''knowledge-conclusion.v1'', kc_conclusion_id = cp_conclusion_id p, kc_scope = ''CONTENT_ONLY_RESEARCH'',
         kc_execution_eligible = False, kc_query = kq_query q, kc_bundle_id = cp_bundle_id p, kc_snapshot_id = kq_snapshot_id q,
         kc_verdict = cp_verdict p, kc_stance = cp_stance p, kc_summary = fd_text (cp_summary p), kc_findings = all,
         kc_conditions = map fd_text (cp_conditions p), kc_risks = map fd_text (cp_risks p),
         kc_contradictions = map fd_text (cp_contradictions p), kc_limitations = map fd_text (cp_limitations p),
         kc_model = cp_model p, kc_created_at = cp_created_at p\<rparr>)"

subsection \<open>The deterministic fallback\<close>

text \<open>\<open>str.splitlines\<close> on UTF-8 bytes: the length of the line break at the head of a text, 0 if there is none.\<close>

definition break_length :: "string \<Rightarrow> nat" where
  "break_length s = (case map (\<lambda>c. of_char c :: int) (take 3 s) of
     [] \<Rightarrow> 0
   | a # rest \<Rightarrow>
       if a = 13 \<and> take 1 rest = [10] then 2
       else if 10 \<le> a \<and> a \<le> 13 \<or> 28 \<le> a \<and> a \<le> 30 then 1
       else if a = 194 \<and> take 1 rest = [133] then 2
       else if a = 226 \<and> rest \<in> {[128, 168], [128, 169]} then 3 else 0)"

function lines_from :: "string \<Rightarrow> string \<Rightarrow> string list" where
  "lines_from line [] = (if line = [] then [] else [rev line])"
| "lines_from line (c # cs) = (let n = break_length (c # cs) in
     if n = 0 then lines_from (c # line) cs else rev line # lines_from [] (drop (n - 1) cs))"
  by pat_completeness auto
termination by (relation "measure (length \<circ> snd)") auto

definition splitlines :: "string \<Rightarrow> string list" where
  "splitlines s = lines_from [] s"

definition raw_confidence :: "knowledge_record \<Rightarrow> pyfloat" where
  "raw_confidence k = (if kn_evidence k = [] then Fin 0
     else (case f_div (f_sum (map evidence_strength (kn_evidence k))) (f_of_rat (of_nat (length (kn_evidence k)))) of
         Some q \<Rightarrow> q | None \<Rightarrow> Fin 0))"

definition display_text :: "(string \<Rightarrow> string) \<Rightarrow> string \<Rightarrow> string" where
  "display_text nfkc t = strip (join_with [CHR 0x0A] (filter (\<lambda>l. prohibited_action_language nfkc l = None) (splitlines t)))"

definition projected_finding :: "(string \<Rightarrow> string) \<Rightarrow> knowledge_record \<Rightarrow> finding list" where
  "projected_finding nfkc k =
     (if kn_evidence k = [] \<or> strip (kn_text k) = [] \<or> display_text nfkc (kn_text k) = [] then []
      else (case validate_finding nfkc \<lparr>fd_text = display_text nfkc (kn_text k), fd_knowledge_ids = [kn_id k],
                 fd_evidence_ids = map er_id (kn_evidence k), fd_confidence = py_min (Fin 1) (py_max (Fin 0) (raw_confidence k))\<rparr> of
          Inl _ \<Rightarrow> [] | Inr f \<Rightarrow> [f]))"

definition aggregate_findings :: "(string \<Rightarrow> string) \<Rightarrow> mapping \<Rightarrow> finding list" where
  "aggregate_findings nfkc bundle = concat (map (projected_finding nfkc) (bundle_graph bundle))"

definition grounded_weight :: "grounded_finding \<Rightarrow> pyfloat" where
  "grounded_weight g = (if gf_evidence g = [] then Fin 0
     else f_mul (f_sum (map evidence_strength (gf_evidence g)))
       (if card (set (map er_source (gf_evidence g))) = 1 then Fin 1 else Fin (5/4)))"

definition order_key :: "grounded_finding \<Rightarrow> string list \<times> string list \<times> string" where
  "order_key g = (fd_knowledge_ids (gf_finding g), fd_evidence_ids (gf_finding g), fd_text (gf_finding g))"

definition ordered :: "grounded_finding list \<Rightarrow> grounded_finding list" where
  "ordered gs = sort_key order_key gs"

definition unseen_step :: "string list \<times> pyfloat \<Rightarrow> grounded_finding \<Rightarrow> string list \<times> pyfloat" where
  "unseen_step st g = (let unseen = filter (\<lambda>e. er_id e \<notin> set (fst st)) (gf_evidence g) in
     (fst st @ map er_id unseen, if unseen = [] then snd st else f_add (snd st) (grounded_weight (g\<lparr>gf_evidence := unseen\<rparr>))))"

definition deduplicated_weight :: "grounded_finding list \<Rightarrow> int \<Rightarrow> pyfloat" where
  "deduplicated_weight gs p = snd (foldl unseen_step ([], Fin 0) (filter (\<lambda>g. gf_polarity g = p) (ordered gs)))"

text \<open>The quotient is defined: it is computed when both weights are nonzero.\<close>

definition balanced :: "pyfloat \<Rightarrow> pyfloat \<Rightarrow> bool" where
  "balanced pos neg = (case f_div (py_min pos neg) (py_max pos neg) of Some q \<Rightarrow> f_le (lit (67/100)) q | None \<Rightarrow> False)"

definition fallback_verdict :: "grounded_finding list \<Rightarrow> conclusion_verdict" where
  "fallback_verdict gs =
     (if gs = [] \<or> (length gs = 1 \<and> f_lt (grounded_weight (gs ! 0)) (Fin (1/2))) then INSUFFICIENT_EVIDENCE
      else let pos = deduplicated_weight gs 1; neg = deduplicated_weight gs (- 1) in
        if pos = Fin 0 \<and> neg = Fin 0 then INSUFFICIENT_EVIDENCE
        else if neg \<noteq> Fin 0 \<and> f_lt (f_mul pos (Fin (3/2))) neg then CONTRADICTED
        else if pos \<noteq> Fin 0 \<and> neg \<noteq> Fin 0 \<and> balanced pos neg then MIXED
        else SUPPORTED)"

definition fallback_identity :: conclusion_model where
  "fallback_identity = \<lparr>cm_mode = FALLBACK, cm_provider = ''content-internal'', cm_model = ''deterministic-grounding-v1'',
     cm_prompt_version = ''knowledge-conclusion.prompt.v1''\<rparr>"

definition insufficient_finding :: "(string \<Rightarrow> string) \<Rightarrow> mapping \<Rightarrow> finding result" where
  "insufficient_finding nfkc bundle =
     (case first_such (\<lambda>k. kn_evidence k \<noteq> []) (bundle_graph bundle) of
        None \<Rightarrow> Inl (ValueError ''fallback requires at least one cited evidence record'')
      | Some k \<Rightarrow> validate_finding nfkc \<lparr>fd_text = ''The cited content is insufficient for a content-only research conclusion.'',
            fd_knowledge_ids = [kn_id k], fd_evidence_ids = [er_id (hd (kn_evidence k))], fd_confidence = Fin 0\<rparr>)"

definition fallback_grounding :: "fact_extractor \<Rightarrow> (string \<Rightarrow> string) \<Rightarrow> mapping \<Rightarrow> finding list \<Rightarrow> (grounded_finding list \<times> conclusion_verdict) result" where
  "fallback_grounding facts nfkc bundle fs =
     bindR (ground_findings facts bundle (if fs = [] then aggregate_findings nfkc bundle else fs)) (\<lambda>gs.
     if gs \<noteq> [] then Inr (gs, fallback_verdict gs)
     else bindR (insufficient_finding nfkc bundle) (\<lambda>f. bindR (ground_findings facts bundle [f]) (\<lambda>hs. Inr (hs, INSUFFICIENT_EVIDENCE))))"

definition fallback_conclusion :: "fact_extractor \<Rightarrow> (string \<Rightarrow> string) \<Rightarrow> (string \<Rightarrow> string) \<Rightarrow> conclusion_request \<Rightarrow> mapping
    \<Rightarrow> finding list \<Rightarrow> string \<Rightarrow> string option \<Rightarrow> py_datetime \<Rightarrow> conclusion result" where
  "fallback_conclusion facts nfkc id_digest q bundle fs bundle_id conclusion_id created_at =
     bindR (fallback_grounding facts nfkc bundle fs) (\<lambda>(gs, verdict).
     let selected = map gf_finding (ordered gs);
         identity = (case conclusion_id of None \<Rightarrow> id_digest (bundle_id @ kq_snapshot_id q)
                     | Some i \<Rightarrow> if i = [] then id_digest (bundle_id @ kq_snapshot_id q) else i)
     in construct_conclusion nfkc q \<lparr>cp_conclusion_id = identity, cp_bundle_id = bundle_id, cp_verdict = verdict, cp_stance = UNCERTAIN,
          cp_summary = hd selected, cp_findings = selected, cp_conditions = [], cp_risks = [],
          cp_contradictions = (if verdict \<in> {MIXED, CONTRADICTED} then tl selected else []),
          cp_limitations = (if verdict = INSUFFICIENT_EVIDENCE then selected else []),
          cp_model = fallback_identity, cp_created_at = created_at\<rparr>)"

subsection \<open>Lemmas\<close>

lemma clean_texts_Inr: "clean_texts nfkc xs n = Inr ys \<Longrightarrow> length ys = length xs"
  by (simp add: clean_texts_def mapR_length)

lemma validate_conclusion_Inr:
  assumes "validate_conclusion nfkc c = Inr d"
  shows "set (displayed d) \<subseteq> fd_text ` set (kc_findings d)" and "kc_findings d = kc_findings c" and "\<not> kc_execution_eligible d"
    and "kc_scope d = ''CONTENT_ONLY_RESEARCH''" and "kc_contract d = ''knowledge-conclusion.v1''" and "kc_verdict d = kc_verdict c" and "kc_stance d = kc_stance c"
    and "kc_model d = kc_model c" and "kc_created_at d = kc_created_at c" and "is_aware (kc_created_at d)" and "kc_findings d \<noteq> []"
    and "\<exists>v. reject_recursively nfkc (display_tree d) ''knowledge_conclusion'' = Inr v"
  using assms by (auto simp: validate_conclusion_def clean_conclusion_def displayed_grounded_def bindR_Inr_iff)

lemma mapR_Inr_iff: "(\<exists>ys. mapR f xs = Inr ys) \<longleftrightarrow> (\<forall>x \<in> set xs. \<exists>y. f x = Inr y)"
  by (induction xs) (auto simp: bindR_Inr_iff)

lemma mapR_Inr_map: "mapR f xs = Inr ys \<Longrightarrow> ys = map (\<lambda>x. projr (f x)) xs \<and> (\<forall>x \<in> set xs. \<exists>y. f x = Inr y)"
  by (induction xs arbitrary: ys) (auto simp: bindR_Inr_iff)

lemma mapR_mset:
  assumes "mapR f xs = Inr ys" and "mset xs = mset xs'"
  shows "\<exists>ys'. mapR f xs' = Inr ys' \<and> mset ys' = mset ys"
proof -
  note x = mapR_Inr_map [OF assms(1)]
  have "\<forall>x \<in> set xs'. \<exists>y. f x = Inr y" using x assms(2) by (metis mset_eq_setD)
  then obtain ys' where y: "mapR f xs' = Inr ys'" using mapR_Inr_iff [of f xs'] by blast
  have "mset ys' = image_mset (\<lambda>x. projr (f x)) (mset xs')" using mapR_Inr_map [OF y] by simp
  also have "\<dots> = mset ys" using x assms(2) by (metis mset_map)
  finally show ?thesis using y by blast
qed

lemma ground_finding_of: "ground_finding facts bundle f = Inr g \<Longrightarrow> gf_finding g = f"
  by (auto simp: ground_finding_def bindR_Inr_iff Let_def)

lemma ground_findings_of:
  assumes "ground_findings facts bundle fs = Inr gs"
  shows "map gf_finding gs = fs \<and> (\<forall>f \<in> set fs. \<exists>g \<in> set gs. ground_finding facts bundle f = Inr g)"
proof -
  have "mapR (ground_finding facts bundle) fs = Inr gs \<Longrightarrow> ?thesis"
    by (induction fs arbitrary: gs) (force simp: bindR_Inr_iff dest: ground_finding_of)+
  then show ?thesis using assms by (simp add: ground_findings_def)
qed

lemma ground_findings_self:
  assumes "ground_findings facts bundle fs = Inr gs"
  shows "\<forall>g \<in> set gs. ground_finding facts bundle (gf_finding g) = Inr g"
proof -
  have self: "ground_finding facts bundle (gf_finding g) = Inr g" if "ground_finding facts bundle f = Inr g" for f g
    using ground_finding_of [OF that] that by simp
  have "mapR (ground_finding facts bundle) fs = Inr gs \<Longrightarrow> ?thesis"
    by (induction fs arbitrary: gs) (auto simp: bindR_Inr_iff self)
  then show ?thesis using assms by (simp add: ground_findings_def)
qed

subsection \<open>Properties\<close>

lemma ordered_simps [simp]: "set (ordered gs) = set gs" "length (ordered gs) = length gs" "mset (ordered gs) = mset gs" "ordered gs = [] \<longleftrightarrow> gs = []"
  by (simp_all add: ordered_def) (metis length_0_conv length_sort)

lemma fallback_grounding_Inr:
  assumes "fallback_grounding facts nfkc bundle fs = Inr (gs, v)"
  shows "gs \<noteq> []" and "\<forall>g \<in> set gs. ground_finding facts bundle (gf_finding g) = Inr g" and "fs \<noteq> [] \<longrightarrow> map gf_finding gs = fs \<and> v = fallback_verdict gs"
proof -
  obtain hs where h1: "ground_findings facts bundle (if fs = [] then aggregate_findings nfkc bundle else fs) = Inr hs"
    and h2: "(if hs \<noteq> [] then Inr (hs, fallback_verdict hs)
       else bindR (insufficient_finding nfkc bundle) (\<lambda>f. bindR (ground_findings facts bundle [f]) (\<lambda>hs. Inr (hs, INSUFFICIENT_EVIDENCE)))) = Inr (gs, v)"
    using assms unfolding fallback_grounding_def bindR_Inr_iff by blast
  have "gs \<noteq> [] \<and> (\<exists>xs. ground_findings facts bundle xs = Inr gs) \<and> (hs \<noteq> [] \<longrightarrow> gs = hs \<and> v = fallback_verdict gs)"
  proof (cases "hs = []")
    case True
    then obtain f where f: "ground_findings facts bundle [f] = Inr gs" using h2 by (auto simp: bindR_Inr_iff)
    then have "gs \<noteq> []" by (auto simp: ground_findings_def bindR_Inr_iff)
    then show ?thesis using f True by blast
  next
    case False
    then show ?thesis using h1 h2 by auto
  qed
  then obtain xs where x: "gs \<noteq> []" "ground_findings facts bundle xs = Inr gs" "hs \<noteq> [] \<longrightarrow> gs = hs \<and> v = fallback_verdict gs" by blast
  show "gs \<noteq> []" by (rule x(1))
  show "\<forall>g \<in> set gs. ground_finding facts bundle (gf_finding g) = Inr g" by (rule ground_findings_self [OF x(2)])
  show "fs \<noteq> [] \<longrightarrow> map gf_finding gs = fs \<and> v = fallback_verdict gs"
  proof
    assume "fs \<noteq> []"
    then have h: "map gf_finding hs = fs" using h1 ground_findings_of [of facts "bundle" fs hs] by simp
    then have "hs \<noteq> []" using \<open>fs \<noteq> []\<close> by auto
    then show "map gf_finding gs = fs \<and> v = fallback_verdict gs" using x(3) h by simp
  qed
qed

lemma construct_selected:
  assumes "construct_conclusion nfkc q p = Inr c" and "cp_summary p \<in> set (cp_findings p)"
  shows "kc_findings c = cp_findings p \<and> kc_verdict c = cp_verdict p \<and> kc_stance c = cp_stance p \<and> kc_model c = cp_model p
    \<and> \<not> kc_execution_eligible c \<and> set (displayed c) \<subseteq> fd_text ` set (kc_findings c)"
proof -
  obtain d where d: "validate_conclusion nfkc d = Inr c" "kc_findings d = cp_findings p" "kc_verdict d = cp_verdict p"
    "kc_stance d = cp_stance p" "kc_model d = cp_model p"
    using assms by (auto simp: construct_conclusion_def Let_def split: if_splits)
  show ?thesis using validate_conclusion_Inr(1-3,6-8) [OF d(1)] d(2-5) by simp
qed

text \<open>C18: The fallback answers only from the frozen bundle. A fallback conclusion takes no market stance,
  can never be executed, names the deterministic model, shows no text that is not the text of one of
  its findings, and each of its findings is grounded in the bundle; when the caller gave findings,
  they are exactly the conclusion's.\<close>

theorem fallback_only_from_bundle:
  assumes "fallback_conclusion facts nfkc id_digest q bundle fs bundle_id cid now = Inr c"
  shows "kc_stance c = UNCERTAIN \<and> \<not> kc_execution_eligible c \<and> cm_mode (kc_model c) = FALLBACK
    \<and> set (displayed c) \<subseteq> fd_text ` set (kc_findings c)
    \<and> (\<forall>f \<in> set (kc_findings c). \<exists>g. ground_finding facts bundle f = Inr g)
    \<and> (fs \<noteq> [] \<longrightarrow> mset (kc_findings c) = mset fs)"
proof -
  obtain gs v where g: "fallback_grounding facts nfkc bundle fs = Inr (gs, v)"
    using assms by (auto simp: fallback_conclusion_def bindR_Inr_iff)
  note fg = fallback_grounding_Inr [OF g]
  let ?sel = "map gf_finding (ordered gs)"
  have "?sel \<noteq> []" using fg(1) by (metis ordered_simps(4) map_is_Nil_conv)
  then have ne: "hd ?sel \<in> set ?sel" by (rule hd_in_set)
  have c: "kc_findings c = ?sel \<and> kc_stance c = UNCERTAIN \<and> kc_model c = fallback_identity
    \<and> \<not> kc_execution_eligible c \<and> set (displayed c) \<subseteq> fd_text ` set (kc_findings c)"
    using assms [unfolded fallback_conclusion_def g bindR_simps Let_def prod.case, THEN construct_selected] ne
    by (auto simp del: set_map)
  note s = c [THEN conjunct1]
  have m: "cm_mode (kc_model c) = FALLBACK" using c by (simp add: fallback_identity_def)
  have f: "\<forall>f \<in> set (kc_findings c). \<exists>g. ground_finding facts bundle f = Inr g" unfolding s using fg(2) by auto
  have "fs \<noteq> [] \<longrightarrow> mset (kc_findings c) = mset fs" unfolding s using fg(3) by (metis ordered_simps(3) mset_map)
  then show ?thesis using c m f by blast
qed

definition demo_request :: conclusion_request where
  "demo_request = \<lparr>kq_snapshot_id = ''s1'', kq_query = ''q'', kq_symbol = None, kq_business_as_of = None,
     kq_knowledge_as_of = None, kq_availability_as_of = None, kq_bundle_contract = ''content-knowledge-bundle.v1''\<rparr>"

lemma demo_fallback:
  "\<not> isl (fallback_conclusion no_facts id id demo_request demo_bundle [demo_finding] ''b1'' (Some ''c1'') (Aware 5))"
  by code_simp

lemma fallback_only_from_bundle_witness:
  "\<exists>c. fallback_conclusion no_facts id id demo_request demo_bundle [demo_finding] ''b1'' (Some ''c1'') (Aware 5) = Inr c
     \<and> kc_stance c = UNCERTAIN \<and> mset (kc_findings c) = {#demo_finding#}"
proof -
  obtain c where c: "fallback_conclusion no_facts id id demo_request demo_bundle [demo_finding] ''b1'' (Some ''c1'') (Aware 5) = Inr c"
    using demo_fallback by (rule not_islE)
  then show ?thesis using fallback_only_from_bundle [OF c] by simp
qed

lemma fallback_verdict_mset:
  assumes "ordered gs = ordered gs'"
  shows "fallback_verdict gs = fallback_verdict gs'"
proof -
  have m: "length gs = length gs'" using assms by (metis ordered_simps(2))
  have e: "gs = [] \<longleftrightarrow> gs' = []" using m by auto
  have "gs = gs'" if one: "length gs = 1"
  proof -
    obtain a where a: "gs = [a]" using one by (cases gs) auto
    obtain b where b: "gs' = [b]" using one m by (cases gs') auto
    show ?thesis using assms by (simp add: a b ordered_def)
  qed
  then have w: "length gs = 1 \<and> f_lt (grounded_weight (gs ! 0)) (Fin (1/2)) \<longleftrightarrow> length gs' = 1 \<and> f_lt (grounded_weight (gs' ! 0)) (Fin (1/2))"
    using m by auto
  have d: "deduplicated_weight gs p = deduplicated_weight gs' p" for p by (simp add: deduplicated_weight_def assms)
  show ?thesis unfolding fallback_verdict_def d e w by (rule refl)
qed

text \<open>The fallback does not depend on the order of its findings. As long as no two different findings
  share their citations and text, any permutation of the findings gives the same conclusion: the same
  verdict, summary, lists and id.\<close>

theorem fallback_order_free:
  assumes "fallback_conclusion facts nfkc id_digest q bundle fs bundle_id cid now = Inr c"
    and "mset fs' = mset fs" and "inj_on (\<lambda>f. (fd_knowledge_ids f, fd_evidence_ids f, fd_text f)) (set fs)"
  shows "fallback_conclusion facts nfkc id_digest q bundle fs' bundle_id cid now = Inr c"
proof (cases "fs = []")
  case True
  then show ?thesis using assms by simp
next
  case False
  then have ne: "fs' \<noteq> []" using assms(2) by auto
  obtain gs v where g: "fallback_grounding facts nfkc bundle fs = Inr (gs, v)"
    using assms(1) by (auto simp: fallback_conclusion_def bindR_Inr_iff)
  note fg = fallback_grounding_Inr [OF g]
  obtain gs0 where gr0: "ground_findings facts bundle fs = Inr gs0"
    using g [unfolded fallback_grounding_def if_not_P [OF False]] by (auto simp: bindR_Inr_iff)
  have "gs0 \<noteq> []" using ground_findings_of [OF gr0] False by auto
  then have gr: "ground_findings facts bundle fs = Inr gs" using g gr0 False by (simp add: fallback_grounding_def)
  obtain gs' where gs': "ground_findings facts bundle fs' = Inr gs'" "mset gs' = mset gs"
    using mapR_mset [OF gr [unfolded ground_findings_def] assms(2) [symmetric]] by (auto simp: ground_findings_def)
  have inj: "inj_on order_key (set gs)"
  proof (rule inj_onI)
    fix x y assume xy: "x \<in> set gs" "y \<in> set gs" "order_key x = order_key y"
    have "gf_finding x \<in> set fs" "gf_finding y \<in> set fs" using fg(3) False xy(1,2) by (metis image_eqI list.set_map)+
    then have "gf_finding x = gf_finding y" using inj_onD [OF assms(3)] xy(3) by (simp add: order_key_def)
    then show "x = y" using fg(2) xy(1,2) by (metis sum.inject(2))
  qed
  have o: "ordered gs' = ordered gs" unfolding ordered_def
    by (rule sort_key_eq_sort_key [OF gs'(2)]) (metis inj gs'(2) mset_eq_setD)
  have "gs' \<noteq> []" using gs'(2) fg(1) by auto
  then have "fallback_grounding facts nfkc bundle fs' = Inr (gs', v)"
    using gs'(1) ne fg(3) False fallback_verdict_mset [OF o] by (simp add: fallback_grounding_def)
  then show ?thesis using assms(1) g o by (simp add: fallback_conclusion_def)
qed

definition second_finding :: finding where
  "second_finding = \<lparr>fd_text = ''up'', fd_knowledge_ids = [''k1''], fd_evidence_ids = [''e1''], fd_confidence = Fin 1\<rparr>"

lemma fallback_order_free_witness:
  "\<exists>c. fallback_conclusion no_facts id id demo_request demo_bundle [demo_finding, second_finding] ''b1'' None (Aware 5) = Inr c
     \<and> fallback_conclusion no_facts id id demo_request demo_bundle [second_finding, demo_finding] ''b1'' None (Aware 5) = Inr c"
proof -
  have "\<not> isl (fallback_conclusion no_facts id id demo_request demo_bundle [demo_finding, second_finding] ''b1'' None (Aware 5))" by code_simp
  then obtain c where c: "fallback_conclusion no_facts id id demo_request demo_bundle [demo_finding, second_finding] ''b1'' None (Aware 5) = Inr c"
    by (rule not_islE)
  have "inj_on (\<lambda>f. (fd_knowledge_ids f, fd_evidence_ids f, fd_text f)) (set [demo_finding, second_finding])"
    by (simp add: demo_finding_def second_finding_def)
  from fallback_order_free [OF c _ this, of "[second_finding, demo_finding]"] c show ?thesis by (simp add: add_mset_commute)
qed

lemma unseen_step_wf: "wf_float (snd st) \<Longrightarrow> wf_float (snd (foldl unseen_step st gs))"
  by (induction gs arbitrary: st) (auto simp: unseen_step_def Let_def wf_f_add)

lemma deduplicated_weight_wf: "wf_float (deduplicated_weight gs p)"
  unfolding deduplicated_weight_def by (rule unseen_step_wf) simp

text \<open>The fallback can report support for what its evidence contradicts. Between a ratio of 0.67 and
  two thirds of supporting to opposing weight, neither the bound for contradiction nor the one for a
  mixed result applies, and the verdict is SUPPORTED although more weight speaks against than for.\<close>

theorem supported_against_evidence:
  assumes "1 < length gs" and "deduplicated_weight gs 1 = Fin p" and "deduplicated_weight gs (- 1) = Fin n"
    and "0 < p" and "p \<le> 6699 / 10000 * n" and "n \<le> 3 / 2 * p"
  shows "fallback_verdict gs = SUPPORTED \<and> f_lt (deduplicated_weight gs 1) (deduplicated_weight gs (- 1))"
proof -
  have n: "p < n" "0 < n" using assms(4,5) by auto
  have "f_le (Fin n) (f_of_rat (p * (3/2)))"
    using f_of_rat_ge_Fin [of n "p * (3/2)"] assms(6) deduplicated_weight_wf [of gs "- 1"] assms(3) by simp
  then have c: "\<not> f_lt (f_mul (Fin p) (Fin (3/2))) (Fin n)"
    using f_lt_le_trans [of "f_of_rat (p * (3/2))" "Fin n" "f_of_rat (p * (3/2))"] by (auto simp: f_mul_def)
  have "p / n \<le> 6699 / 10000" using assms(5) n by (simp add: field_simps)
  then have q: "f_le (f_of_rat (p / n)) (f_of_rat (6699 / 10000))" by (rule f_of_rat_mono)
  have "f_lt (f_of_rat (6699 / 10000)) (f_of_rat (67 / 100))" by code_simp
  then have "\<not> f_le (f_of_rat (67 / 100)) (f_of_rat (p / n))"
    using q f_le_lt_trans f_lt_le_trans f_lt_irrefl by metis
  then have b: "\<not> balanced (Fin p) (Fin n)" using n by (simp add: balanced_def f_div_def py_min_def py_max_def)
  show ?thesis using assms(1-4) n b c by (auto simp: fallback_verdict_def)
qed

definition opposed_item :: "string \<Rightarrow> int \<Rightarrow> pyfloat \<Rightarrow> grounded_finding" where
  "opposed_item i p w = \<lparr>gf_finding = \<lparr>fd_text = i, fd_knowledge_ids = [i], fd_evidence_ids = [i], fd_confidence = Fin 1\<rparr>, gf_knowledge = [],
     gf_evidence = [\<lparr>er_id = i, er_knowledge = i, er_text = i, er_source = ''a'', er_extraction = Fin 1, er_verification = w, er_quality = Fin 1,
        er_raw = []\<rparr>], gf_polarity = p\<rparr>"

lemma supported_against_evidence_witness:
  "fallback_verdict [opposed_item ''a'' 1 (Fin 1), opposed_item ''b'' (- 1) (Fin 1), opposed_item ''c'' (- 1) (Fin (255/512))] = SUPPORTED"
proof -
  let ?gs = "[opposed_item ''a'' 1 (Fin 1), opposed_item ''b'' (- 1) (Fin 1), opposed_item ''c'' (- 1) (Fin (255/512))]"
  have "deduplicated_weight ?gs 1 = Fin 1" "deduplicated_weight ?gs (- 1) = Fin (767/512)" by code_simp+
  from supported_against_evidence [OF _ this] show ?thesis by simp
qed

lemma reject_action_language_None: "reject_action_language nfkc v f = Inr t \<Longrightarrow> prohibited_action_language nfkc (normalized_text nfkc v) = None"
  by (simp add: reject_action_language_def Let_def split: if_splits option.splits)

lemma reject_items_Inr: "reject_items nfkc xs f = Inr ys \<Longrightarrow> x \<in> set xs \<Longrightarrow> \<exists>y. reject_recursively nfkc x f = Inr y"
  by (induction xs arbitrary: ys) (auto simp: bindR_Inr_iff)

lemma reject_fields_Inr: "reject_fields nfkc d f = Inr e \<Longrightarrow> (k, x) \<in> set d \<Longrightarrow> \<exists>y. reject_recursively nfkc x (f @ ''.'' @ k) = Inr y"
  by (induction d arbitrary: e) (auto simp: bindR_Inr_iff)

lemma reject_texts:
  assumes "reject_recursively nfkc (VList (map VStr xs)) f = Inr v" and "t \<in> set xs"
  shows "prohibited_action_language nfkc (normalized_text nfkc t) = None"
proof -
  obtain ys where "reject_items nfkc (map VStr xs) f = Inr ys" using assms(1) by (auto simp: bindR_Inr_iff)
  then obtain y where "reject_recursively nfkc (VStr t) f = Inr y" using reject_items_Inr [of nfkc "map VStr xs" f ys "VStr t"] assms(2) by auto
  then show ?thesis by (auto simp: bindR_Inr_iff dest: reject_action_language_None)
qed

text \<open>A validated conclusion gives no instruction. The query, every displayed text and the text of
  every finding passes the action-language gate.\<close>

theorem conclusion_displays_no_action:
  assumes "validate_conclusion nfkc c = Inr d"
    and "t = kc_query d \<or> t \<in> set (displayed d) \<or> t \<in> fd_text ` set (kc_findings d)"
  shows "prohibited_action_language nfkc (normalized_text nfkc t) = None"
proof -
  define tree where "tree = (case display_tree d of VDict fs \<Rightarrow> fs | _ \<Rightarrow> [])"
  have tree: "display_tree d = VDict tree" by (simp add: tree_def display_tree_def Let_def)
  obtain e where e: "reject_fields nfkc tree ''knowledge_conclusion'' = Inr e"
    using validate_conclusion_Inr(12) [OF assms(1)] by (auto simp: tree bindR_Inr_iff)
  have field: "\<exists>y. reject_recursively nfkc x (''knowledge_conclusion'' @ ''.'' @ k) = Inr y" if "(k, x) \<in> set tree" for k x
    using reject_fields_Inr [OF e that] .
  have query: "prohibited_action_language nfkc (normalized_text nfkc (kc_query d)) = None"
    using field [of "''query''" "VStr (kc_query d)"]
    by (auto simp: tree_def display_tree_def Let_def bindR_Inr_iff dest: reject_action_language_None)
  have finding: "prohibited_action_language nfkc (normalized_text nfkc (fd_text f)) = None" if f: "f \<in> set (kc_findings d)" for f
  proof -
    let ?xs = "map (\<lambda>f. VDict [(''text'', VStr (fd_text f))]) (kc_findings d)" and ?n = "''knowledge_conclusion'' @ ''.'' @ ''findings''"
    obtain ys where "reject_items nfkc ?xs ?n = Inr ys"
      using field [of "''findings''" "VList ?xs"] by (auto simp: tree_def display_tree_def Let_def bindR_Inr_iff)
    from reject_items_Inr [OF this, of "VDict [(''text'', VStr (fd_text f))]"] f
    obtain y where "reject_recursively nfkc (VDict [(''text'', VStr (fd_text f))]) ?n = Inr y" by auto
    then show ?thesis by (auto simp: bindR_Inr_iff dest: reject_action_language_None)
  qed
  show ?thesis using assms(2) query finding validate_conclusion_Inr(1) [OF assms(1)] by (elim disjE) auto
qed

lemma conclusion_displays_no_action_witness:
  "\<exists>c. fallback_conclusion no_facts id id demo_request demo_bundle [demo_finding] ''b1'' (Some ''c1'') (Aware 5) = Inr c
     \<and> prohibited_action_language id (normalized_text id (kc_query c)) = None"
proof -
  obtain c where c: "fallback_conclusion no_facts id id demo_request demo_bundle [demo_finding] ''b1'' (Some ''c1'') (Aware 5) = Inr c"
    using demo_fallback by (rule not_islE)
  then obtain d where "validate_conclusion id d = Inr c"
    by (auto simp: fallback_conclusion_def construct_conclusion_def Let_def bindR_Inr_iff split: if_splits)
  from conclusion_displays_no_action [OF this, of "kc_query c"] c show ?thesis by blast
qed

end
