(* ===== verification/KnowledgeRun.thy ===== *)
theory KnowledgeRun
  imports Machine Conclusion
begin

text \<open>
  The durable run of a knowledge conclusion: its states (\<open>app/domain/knowledge_conclusion_run.py\<close>), the
  reference repository with its version fence and its compare-and-swap of the sealed response
  (\<open>app/ports/knowledge_conclusion_repository.py\<close>) and the application service
  (\<open>app/application/knowledge_conclusion/run_service.py\<close>). A service method reads the run once and
  then returns it, saves a successor or commits a result: the middle is \<open>kc_plan\<close>, a function of the run
  it read, and the end is \<open>perform\<close>, on the store of that moment. Clock readings and new uuids are
  arguments; so are SHA-256 over canonical JSON (\<open>digest\<close>), the ISO text of an instant and what
  grounding takes as arguments, together in \<open>kc_env\<close>.
\<close>

subsection \<open>The run\<close>

datatype kc_state = RECEIVED | BUNDLE_REQUESTED | BUNDLE_FROZEN | SYNTHESIZING | VALIDATING | SUCCEEDED | FAILED

fun kc_state_text :: "kc_state \<Rightarrow> string" where
  "kc_state_text RECEIVED = ''RECEIVED''"
| "kc_state_text BUNDLE_REQUESTED = ''BUNDLE_REQUESTED''"
| "kc_state_text BUNDLE_FROZEN = ''BUNDLE_FROZEN''"
| "kc_state_text SYNTHESIZING = ''SYNTHESIZING''"
| "kc_state_text VALIDATING = ''VALIDATING''"
| "kc_state_text SUCCEEDED = ''SUCCEEDED''"
| "kc_state_text FAILED = ''FAILED''"

fun kc_transitions :: "kc_state \<Rightarrow> kc_state set" where
  "kc_transitions RECEIVED = {BUNDLE_REQUESTED, FAILED}"
| "kc_transitions BUNDLE_REQUESTED = {BUNDLE_FROZEN, FAILED}"
| "kc_transitions BUNDLE_FROZEN = {SYNTHESIZING, FAILED}"
| "kc_transitions SYNTHESIZING = {VALIDATING, FAILED}"
| "kc_transitions VALIDATING = {SUCCEEDED, FAILED}"
| "kc_transitions SUCCEEDED = {}"
| "kc_transitions FAILED = {}"

record frozen_bundle =
  fb_bundle_id :: string
  fb_bundle_hash :: string
  fb_payload :: mapping
  fb_producer_sha :: string
  fb_contract_checksum :: string
  fb_snapshot_id :: string

record audit_metadata =
  am_consumer_sha :: string
  am_profile :: string
  am_trace_id :: string

definition validate_audit_metadata :: "audit_metadata \<Rightarrow> audit_metadata result" where
  "validate_audit_metadata m = (if blank (am_consumer_sha m) \<or> blank (am_profile m) \<or> blank (am_trace_id m)
     then Inl (ValueError ''audit metadata values must be nonblank'') else Inr m)"

record kc_citation =
  ct_finding_index :: int
  ct_knowledge :: string
  ct_evidence :: string
  ct_quote_hash :: string
  ct_provenance :: string

record kc_run =
  kr_conclusion_id :: string
  kr_idempotency_key :: string
  kr_raw_request :: mapping
  kr_raw_hash :: string
  kr_effective_hash :: string
  kr_request :: conclusion_request
  kr_policy_version :: string
  kr_state :: kc_state
  kr_version :: int
  kr_bundle :: "frozen_bundle option"
  kr_model_request_id :: "string option"
  kr_provider_key :: "string option"
  kr_sealed :: "mapping option"
  kr_result :: "conclusion option"
  kr_result_hash :: "string option"
  kr_error_code :: "string option"
  kr_audit :: "audit_metadata option"
  kr_created_at :: py_datetime
  kr_updated_at :: py_datetime

definition kc_transition :: "kc_run \<Rightarrow> kc_state \<Rightarrow> py_datetime \<times> string option \<Rightarrow> kc_run result" where
  "kc_transition r target a =
     (if target \<notin> kc_transitions (kr_state r)
      then Inl (PyExc ''KnowledgeConclusionStateConflict''
        (''INVALID_KNOWLEDGE_CONCLUSION_TRANSITION:'' @ kc_state_text (kr_state r) @ ''->'' @ kc_state_text target))
      else Inr (r\<lparr>kr_state := target, kr_version := kr_version r + 1, kr_error_code := snd a, kr_updated_at := fst a\<rparr>))"

fun kc_rank :: "kc_state \<Rightarrow> int" where
  "kc_rank RECEIVED = 0"
| "kc_rank BUNDLE_REQUESTED = 1"
| "kc_rank BUNDLE_FROZEN = 2"
| "kc_rank SYNTHESIZING = 3"
| "kc_rank VALIDATING = 4"
| "kc_rank SUCCEEDED = 5"
| "kc_rank FAILED = 6"

lemma kc_transition_Inr: "kc_transition r t a = Inr r' \<longleftrightarrow> t \<in> kc_transitions (kr_state r)
    \<and> r' = r\<lparr>kr_state := t, kr_version := kr_version r + 1, kr_error_code := snd a, kr_updated_at := fst a\<rparr>"
  by (auto simp: kc_transition_def)

interpretation kcm: staged_machine kr_state kr_version kc_transitions kc_transition kc_rank FAILED
proof
  show "t \<in> kc_transitions s \<Longrightarrow> t \<noteq> FAILED \<Longrightarrow> kc_rank t = kc_rank s + 1" for s t by (cases s) auto
qed (auto simp: kc_transition_Inr)

subsection \<open>The repository\<close>

record kc_store =
  ks_runs :: "string \<rightharpoonup> kc_run"
  ks_by_key :: "string \<rightharpoonup> string"
  ks_citations :: "string \<rightharpoonup> kc_citation list"
  ks_audits :: "(string \<times> string \<times> string \<times> mapping) list"
  ks_lineage :: "string \<rightharpoonup> mapping list"

definition empty_kc_store :: kc_store where
  "empty_kc_store = \<lparr>ks_runs = Map.empty, ks_by_key = Map.empty, ks_citations = Map.empty, ks_audits = [], ks_lineage = Map.empty\<rparr>"

definition absent_seal :: string where
  "absent_seal = ''knowledge-conclusion.sealed-response.absent.v1''"

definition or_default :: "string option \<Rightarrow> string \<Rightarrow> string" where
  "or_default a d = (case a of None \<Rightarrow> d | Some s \<Rightarrow> if s = [] then d else s)"

definition seal_digest :: "(pyval \<Rightarrow> string) \<Rightarrow> kc_run \<Rightarrow> string option" where
  "seal_digest digest r = map_option (\<lambda>d. digest (VDict d)) (kr_sealed r)"

definition captured_seal :: "(pyval \<Rightarrow> string) \<Rightarrow> kc_run \<Rightarrow> string" where
  "captured_seal digest r = or_default (seal_digest digest r) absent_seal"

definition repo_reserve :: "kc_run \<Rightarrow> kc_store \<Rightarrow> kc_run result \<times> kc_store" where
  "repo_reserve r s = (case ks_by_key s (kr_idempotency_key r) of
     Some prior_id \<Rightarrow> (case ks_runs s prior_id of
         None \<Rightarrow> (Inl (KeyError prior_id), s)
       | Some prior \<Rightarrow> if kr_raw_hash prior \<noteq> kr_raw_hash r
           then (Inl (PyExc ''KnowledgeConclusionIdempotencyConflict'' ''IDEMPOTENCY_KEY_CONFLICT''), s) else (Inr prior, s))
   | None \<Rightarrow> (Inr r, s\<lparr>ks_by_key := (ks_by_key s)(kr_idempotency_key r \<mapsto> kr_conclusion_id r),
                         ks_runs := (ks_runs s)(kr_conclusion_id r \<mapsto> r)\<rparr>))"

abbreviation run_fenced :: exc where
  "run_fenced \<equiv> PyExc ''KnowledgeConclusionFenced'' ''KNOWLEDGE_CONCLUSION_RUN_FENCED''"

definition fence_open :: "(pyval \<Rightarrow> string) \<Rightarrow> int \<Rightarrow> string option \<Rightarrow> kc_run \<Rightarrow> bool" where
  "fence_open digest expected seal prior \<longleftrightarrow> kr_version prior = expected \<and> (\<forall>d \<in> set_option seal. captured_seal digest prior = d)"

definition repo_save_run :: "(pyval \<Rightarrow> string) \<Rightarrow> kc_run \<Rightarrow> int \<Rightarrow> string option \<Rightarrow> kc_store \<Rightarrow> kc_run result \<times> kc_store" where
  "repo_save_run digest r expected seal s = (case ks_runs s (kr_conclusion_id r) of
     None \<Rightarrow> (Inl run_fenced, s)
   | Some prior \<Rightarrow> if \<not> fence_open digest expected seal prior then (Inl run_fenced, s)
       else (Inr r, s\<lparr>ks_runs := (ks_runs s)(kr_conclusion_id r \<mapsto> r)\<rparr>))"

definition citation_key :: "kc_citation \<Rightarrow> int \<times> string \<times> string" where
  "citation_key c = (ct_finding_index c, ct_knowledge c, ct_evidence c)"

definition repo_commit :: "(pyval \<Rightarrow> string) \<Rightarrow> kc_run \<Rightarrow> kc_citation list \<Rightarrow> int \<Rightarrow> string option \<Rightarrow> kc_store \<Rightarrow> kc_run result \<times> kc_store" where
  "repo_commit digest r cits expected seal s = (case ks_runs s (kr_conclusion_id r) of
     None \<Rightarrow> (Inl run_fenced, s)
   | Some prior \<Rightarrow> if \<not> fence_open digest expected seal prior then (Inl run_fenced, s)
       else if kr_state prior = SUCCEEDED then (Inr prior, s)
       else if card (set (map citation_key cits)) \<noteq> length cits then (Inl (ValueError ''DUPLICATE_KNOWLEDGE_CONCLUSION_CITATION''), s)
       else (Inr r, s\<lparr>ks_runs := (ks_runs s)(kr_conclusion_id r \<mapsto> r), ks_citations := (ks_citations s)(kr_conclusion_id r \<mapsto> cits)\<rparr>))"

definition repo_citations :: "string \<Rightarrow> kc_store \<Rightarrow> kc_citation list" where
  "repo_citations i s = (case ks_citations s i of None \<Rightarrow> [] | Some cs \<Rightarrow> cs)"

definition repo_audit :: "string \<Rightarrow> string \<Rightarrow> string \<Rightarrow> mapping \<Rightarrow> kc_store \<Rightarrow> string \<times> kc_store" where
  "repo_audit fresh i mode detail s = (fresh, s\<lparr>ks_audits := ks_audits s @ [(fresh, i, mode, detail)]\<rparr>)"

definition audit_events :: "string \<Rightarrow> kc_store \<Rightarrow> (string \<times> mapping) list" where
  "audit_events i s = concat (map (\<lambda>(_, owner, mode, detail). if owner = i then [(mode, detail)] else []) (ks_audits s))"

text \<open>A lineage audit, as its fields, is kept under the id of its conclusion.\<close>

definition lineage_audits :: "string \<Rightarrow> kc_store \<Rightarrow> mapping list" where
  "lineage_audits i s = (case ks_lineage s i of None \<Rightarrow> [] | Some xs \<Rightarrow> xs)"

definition append_lineage_audit :: "mapping \<Rightarrow> kc_store \<Rightarrow> mapping \<times> kc_store" where
  "append_lineage_audit audit s = (let i = py_str (get_item audit ''conclusion_id'') in
     (audit, s\<lparr>ks_lineage := (ks_lineage s)(i \<mapsto> lineage_audits i s @ [audit])\<rparr>))"

subsection \<open>The service\<close>

record kc_env =
  kv_digest :: "pyval \<Rightarrow> string"
  kv_quote_digest :: "string \<Rightarrow> string"
  kv_id_digest :: "string \<Rightarrow> string"
  kv_facts :: fact_extractor
  kv_nfkc :: "string \<Rightarrow> string"
  kv_clock_text :: "py_datetime \<Rightarrow> string"

text \<open>The JSON dumps that are hashed: of a request, and of a conclusion.\<close>

definition texts :: "string list \<Rightarrow> pyval" where
  "texts xs = VList (map VStr xs)"

definition opt_instant :: "(py_datetime \<Rightarrow> string) \<Rightarrow> py_datetime option \<Rightarrow> pyval" where
  "opt_instant clock_text t = opt_str (map_option clock_text t)"

definition request_dump :: "(py_datetime \<Rightarrow> string) \<Rightarrow> conclusion_request \<Rightarrow> mapping" where
  "request_dump clock_text q = [(''content_snapshot_id'', VStr (kq_snapshot_id q)), (''query'', VStr (kq_query q)), (''symbol'', opt_str (kq_symbol q)),
     (''business_as_of'', opt_instant clock_text (kq_business_as_of q)), (''knowledge_as_of'', opt_instant clock_text (kq_knowledge_as_of q)),
     (''availability_as_of'', opt_instant clock_text (kq_availability_as_of q)), (''content_bundle_contract'', VStr (kq_bundle_contract q))]"

definition idempotency_request :: "(py_datetime \<Rightarrow> string) \<Rightarrow> conclusion_request \<Rightarrow> mapping" where
  "idempotency_request clock_text q = (if kq_bundle_contract q = ''content-knowledge-bundle.v1''
     then dict_pop (request_dump clock_text q) ''content_bundle_contract'' else request_dump clock_text q)"

fun verdict_text :: "conclusion_verdict \<Rightarrow> string" where
  "verdict_text SUPPORTED = ''SUPPORTED''"
| "verdict_text CONTRADICTED = ''CONTRADICTED''"
| "verdict_text MIXED = ''MIXED''"
| "verdict_text INSUFFICIENT_EVIDENCE = ''INSUFFICIENT_EVIDENCE''"

fun stance_text :: "market_stance \<Rightarrow> string" where
  "stance_text BULLISH = ''BULLISH''"
| "stance_text BEARISH = ''BEARISH''"
| "stance_text NEUTRAL = ''NEUTRAL''"
| "stance_text UNCERTAIN = ''UNCERTAIN''"

fun mode_text :: "model_mode \<Rightarrow> string" where
  "mode_text MODEL = ''MODEL''"
| "mode_text FALLBACK = ''FALLBACK''"

definition finding_dump :: "finding \<Rightarrow> pyval" where
  "finding_dump f = VDict [(''text'', VStr (fd_text f)), (''knowledge_ids'', texts (fd_knowledge_ids f)),
     (''evidence_ids'', texts (fd_evidence_ids f)), (''confidence'', VFloat (fd_confidence f))]"

definition conclusion_dump :: "(py_datetime \<Rightarrow> string) \<Rightarrow> conclusion \<Rightarrow> pyval" where
  "conclusion_dump clock_text c = VDict [(''contract'', VStr (kc_contract c)), (''conclusion_id'', VStr (kc_conclusion_id c)), (''scope'', VStr (kc_scope c)),
     (''execution_eligible'', VBool (kc_execution_eligible c)), (''query'', VStr (kc_query c)), (''content_bundle_id'', VStr (kc_bundle_id c)),
     (''content_snapshot_id'', VStr (kc_snapshot_id c)), (''verdict'', VStr (verdict_text (kc_verdict c))),
     (''market_stance'', VStr (stance_text (kc_stance c))), (''summary'', VStr (kc_summary c)),
     (''findings'', VList (map finding_dump (kc_findings c))), (''conditions'', texts (kc_conditions c)), (''risks'', texts (kc_risks c)),
     (''contradictions'', texts (kc_contradictions c)), (''limitations'', texts (kc_limitations c)),
     (''model'', VDict [(''mode'', VStr (mode_text (cm_mode (kc_model c)))), (''provider'', VStr (cm_provider (kc_model c))),
        (''model'', VStr (cm_model (kc_model c))), (''prompt_version'', VStr (cm_prompt_version (kc_model c)))]),
     (''created_at'', VStr (clock_text (kc_created_at c)))]"

definition result_hash :: "kc_env \<Rightarrow> conclusion \<Rightarrow> string" where
  "result_hash env c = kv_digest env (conclusion_dump (kv_clock_text env) c)"

definition or_now :: "py_datetime option \<Rightarrow> py_datetime \<Rightarrow> py_datetime option" where
  "or_now t now = Some (case t of None \<Rightarrow> now | Some x \<Rightarrow> x)"

definition effective_request :: "conclusion_request \<Rightarrow> py_datetime \<Rightarrow> conclusion_request" where
  "effective_request q now = q\<lparr>kq_business_as_of := or_now (kq_business_as_of q) now, kq_knowledge_as_of := or_now (kq_knowledge_as_of q) now,
     kq_availability_as_of := or_now (kq_availability_as_of q) now\<rparr>"

definition request_hash :: "kc_env \<Rightarrow> conclusion_request \<Rightarrow> string \<Rightarrow> string" where
  "request_hash env q policy = kv_digest env (VDict [(''request'', VDict (idempotency_request (kv_clock_text env) q)), (''conclusion_policy_version'', VStr policy)])"

definition new_kc_run :: "kc_env \<Rightarrow> conclusion_request \<Rightarrow> string \<Rightarrow> string \<Rightarrow> audit_metadata option \<Rightarrow> string \<Rightarrow> py_datetime \<Rightarrow> kc_run" where
  "new_kc_run env q key policy meta fresh now =
     \<lparr>kr_conclusion_id = fresh, kr_idempotency_key = key, kr_raw_request = idempotency_request (kv_clock_text env) q, kr_raw_hash = request_hash env q policy,
      kr_effective_hash = request_hash env (effective_request q now) policy, kr_request = effective_request q now, kr_policy_version = policy,
      kr_state = RECEIVED, kr_version = 0, kr_bundle = None, kr_model_request_id = None, kr_provider_key = None, kr_sealed = None, kr_result = None,
      kr_result_hash = None, kr_error_code = None, kr_audit = meta, kr_created_at = now, kr_updated_at = now\<rparr>"

definition kc_reserve :: "kc_env \<Rightarrow> conclusion_request \<Rightarrow> string \<Rightarrow> string \<Rightarrow> audit_metadata option \<Rightarrow> string \<Rightarrow> py_datetime \<Rightarrow> kc_store
    \<Rightarrow> kc_run result \<times> kc_store" where
  "kc_reserve env q key policy meta fresh now s =
     (if blank key then (Inl (ValueError ''idempotency_key must be nonblank''), s)
      else repo_reserve (new_kc_run env q key policy meta fresh now) s)"


text \<open>What a method does after reading the run: return it, save a successor, or commit a result.\<close>

datatype kc_effect = Unchanged kc_run | Save kc_run int "string option" | Commit kc_run "kc_citation list" int "string option"

fun perform :: "kc_env \<Rightarrow> kc_effect \<Rightarrow> kc_store \<Rightarrow> kc_run result \<times> kc_store" where
  "perform env (Unchanged r) s = (Inr r, s)"
| "perform env (Save r expected seal) s = repo_save_run (kv_digest env) r expected seal s"
| "perform env (Commit r cits expected seal) s = repo_commit (kv_digest env) r cits expected seal s"

definition save_transition :: "kc_env \<Rightarrow> kc_run \<Rightarrow> kc_state \<Rightarrow> py_datetime \<Rightarrow> int \<Rightarrow> string option \<Rightarrow> kc_effect result" where
  "save_transition env r target now expected seal =
     bindR (kc_transition r target (now, None)) (\<lambda>staged.
     Inr (Save staged expected (Some (or_default seal (captured_seal (kv_digest env) r)))))"

definition plan_request_bundle :: "kc_env \<Rightarrow> py_datetime \<Rightarrow> kc_run \<Rightarrow> kc_effect result" where
  "plan_request_bundle env now r =
     (if kr_state r \<in> {BUNDLE_REQUESTED, BUNDLE_FROZEN, SYNTHESIZING, VALIDATING, SUCCEEDED} then Inr (Unchanged r)
      else save_transition env r BUNDLE_REQUESTED now (kr_version r) None)"

definition same_bundle :: "frozen_bundle \<Rightarrow> frozen_bundle \<Rightarrow> bool" where
  "same_bundle a b \<longleftrightarrow> fb_bundle_id a = fb_bundle_id b \<and> fb_bundle_hash a = fb_bundle_hash b \<and> py_eq (VDict (fb_payload a)) (VDict (fb_payload b))
     \<and> fb_producer_sha a = fb_producer_sha b \<and> fb_contract_checksum a = fb_contract_checksum b \<and> fb_snapshot_id a = fb_snapshot_id b"

definition plan_freeze_bundle :: "kc_env \<Rightarrow> frozen_bundle \<Rightarrow> py_datetime \<Rightarrow> kc_run \<Rightarrow> kc_effect result" where
  "plan_freeze_bundle env b now r =
     (if fb_snapshot_id b \<noteq> kq_snapshot_id (kr_request r) then Inl (ValueError ''BUNDLE_SNAPSHOT_MISMATCH'')
      else (case kr_bundle r of
          Some b' \<Rightarrow> if same_bundle b' b then Inr (Unchanged r) else Inl (ValueError ''BUNDLE_ALREADY_FROZEN'')
        | None \<Rightarrow> save_transition env (r\<lparr>kr_bundle := Some b\<rparr>) BUNDLE_FROZEN now (kr_version r) None))"

definition plan_begin_synthesis :: "kc_env \<Rightarrow> string \<Rightarrow> py_datetime \<Rightarrow> kc_run \<Rightarrow> kc_effect result" where
  "plan_begin_synthesis env worker now r =
     (if kr_state r \<in> {SYNTHESIZING, VALIDATING, SUCCEEDED} then Inr (Unchanged r)
      else if blank worker then Inl (ValueError ''worker_id must be nonblank'')
      else save_transition env (r\<lparr>kr_model_request_id := Some (''kc-model:'' @ kr_conclusion_id r),
             kr_provider_key := Some (''kc-provider:'' @ kr_conclusion_id r)\<rparr>) SYNTHESIZING now (kr_version r) None)"

definition plan_seal_response :: "kc_env \<Rightarrow> mapping \<Rightarrow> py_datetime \<Rightarrow> kc_run \<Rightarrow> kc_effect result" where
  "plan_seal_response env sealed now r =
     (if kr_state r = VALIDATING \<and> (case kr_sealed r of None \<Rightarrow> False | Some d \<Rightarrow> py_eq (VDict d) (VDict sealed)) then Inr (Unchanged r)
      else if kr_state r \<noteq> SYNTHESIZING then Inl (ValueError ''MODEL_RESPONSE_NOT_EXPECTED'')
      else save_transition env (r\<lparr>kr_sealed := Some sealed\<rparr>) VALIDATING now (kr_version r) (Some (captured_seal (kv_digest env) r)))"

definition sealed_attempts :: "mapping option \<Rightarrow> pyval list result" where
  "sealed_attempts sealed = (let prior = (case sealed of None \<Rightarrow> [] | Some d \<Rightarrow> d) in
     case py_or (get_item prior ''attempts'') (VList []) of
       VList xs \<Rightarrow> Inr xs
     | VStr s \<Rightarrow> Inr (map (\<lambda>c. VStr [c]) s)
     | VDict d \<Rightarrow> Inr (map (\<lambda>(k, _). VStr k) d)
     | _ \<Rightarrow> Inl (TypeError ''object is not iterable''))"

definition plan_seal_attempt :: "kc_env \<Rightarrow> mapping \<Rightarrow> string option \<Rightarrow> py_datetime \<Rightarrow> kc_run \<Rightarrow> kc_effect result" where
  "plan_seal_attempt env attempt seal now r =
     (if kr_state r \<notin> {SYNTHESIZING, VALIDATING} then Inl (ValueError ''MODEL_ATTEMPT_NOT_EXPECTED'')
      else bindR (sealed_attempts (kr_sealed r)) (\<lambda>attempts.
        if 2 \<le> length attempts then Inl (ValueError ''MODEL_REPAIR_LIMIT_EXCEEDED'')
        else Inr (Save (r\<lparr>kr_sealed := Some [(''format'', VStr ''knowledge-conclusion.sealed-response.v1''),
                 (''attempts'', VList (attempts @ [VDict attempt]))], kr_updated_at := now, kr_version := kr_version r + 1\<rparr>)
               (kr_version r) (Some (or_default seal (captured_seal (kv_digest env) r))))))"

definition plan_begin_validation :: "kc_env \<Rightarrow> string option \<Rightarrow> py_datetime \<Rightarrow> kc_run \<Rightarrow> kc_effect result" where
  "plan_begin_validation env seal now r =
     (if kr_state r = VALIDATING
      then (if \<exists>d \<in> set_option seal. captured_seal (kv_digest env) r \<noteq> d
            then Inl (PyExc ''KnowledgeConclusionStateConflict'' ''SEALED_RESPONSE_CONCURRENT_REPLACEMENT'') else Inr (Unchanged r))
      else if kr_state r \<noteq> SYNTHESIZING then Inl (ValueError ''VALIDATION_NOT_EXPECTED'')
      else save_transition env r VALIDATING now (kr_version r) (Some (or_default seal (captured_seal (kv_digest env) r))))"

definition finding_citations :: "kc_env \<Rightarrow> mapping \<Rightarrow> nat \<times> finding \<Rightarrow> kc_citation list result" where
  "finding_citations env payload x =
     bindR (citation_edges (kv_facts env) (kv_quote_digest env) payload (snd x)) (\<lambda>edges.
     Inr (map (\<lambda>e. \<lparr>ct_finding_index = int (fst x), ct_knowledge = ce_knowledge e, ct_evidence = ce_evidence e,
        ct_quote_hash = ce_quote_hash e, ct_provenance = ce_provenance e\<rparr>) edges))"

definition result_citations :: "kc_env \<Rightarrow> mapping \<Rightarrow> conclusion \<Rightarrow> kc_citation list result" where
  "result_citations env payload c = bindR (mapR (finding_citations env payload) (enumerate 0 (kc_findings c))) (\<lambda>css. Inr (concat css))"

definition plan_commit :: "kc_env \<Rightarrow> conclusion \<Rightarrow> string option \<Rightarrow> py_datetime \<Rightarrow> kc_run \<Rightarrow> kc_effect result" where
  "plan_commit env c seal now r =
     (if kr_state r = SUCCEEDED then Inr (Unchanged r)
      else (case (kr_state r, kr_bundle r) of
          (VALIDATING, Some b) \<Rightarrow>
            if kc_conclusion_id c \<noteq> kr_conclusion_id r \<or> kc_bundle_id c \<noteq> fb_bundle_id b then Inl (ValueError ''RESULT_FROZEN_BUNDLE_MISMATCH'')
            else bindR (ground_findings (kv_facts env) (fb_payload b) (kc_findings c)) (\<lambda>_.
              bindR (result_citations env (fb_payload b) c) (\<lambda>cits.
              bindR (kc_transition (r\<lparr>kr_result := Some c, kr_result_hash := Some (result_hash env c)\<rparr>) SUCCEEDED (now, None)) (\<lambda>staged.
              Inr (Commit staged cits (kr_version r) (Some (case seal of None \<Rightarrow> captured_seal (kv_digest env) r | Some d \<Rightarrow> d))))))
        | _ \<Rightarrow> Inl (ValueError ''GROUNDED_RESULT_NOT_EXPECTED'')))"

datatype kc_op = RequestBundle | FreezeBundle frozen_bundle | BeginSynthesis string | SealResponse mapping
  | SealAttempt mapping "string option" | BeginValidation "string option" | CommitGrounded conclusion "string option"

fun kc_plan :: "kc_env \<Rightarrow> kc_op \<Rightarrow> py_datetime \<Rightarrow> kc_run \<Rightarrow> kc_effect result" where
  "kc_plan env RequestBundle now r = plan_request_bundle env now r"
| "kc_plan env (FreezeBundle b) now r = plan_freeze_bundle env b now r"
| "kc_plan env (BeginSynthesis w) now r = plan_begin_synthesis env w now r"
| "kc_plan env (SealResponse d) now r = plan_seal_response env d now r"
| "kc_plan env (SealAttempt d seal) now r = plan_seal_attempt env d seal now r"
| "kc_plan env (BeginValidation seal) now r = plan_begin_validation env seal now r"
| "kc_plan env (CommitGrounded c seal) now r = plan_commit env c seal now r"

definition service_call :: "kc_env \<Rightarrow> kc_op \<Rightarrow> string \<Rightarrow> py_datetime \<Rightarrow> kc_store \<Rightarrow> kc_run result \<times> kc_store" where
  "service_call env op i now s = (case ks_runs s i of
     None \<Rightarrow> (Inl (KeyError i), s)
   | Some r \<Rightarrow> (case kc_plan env op now r of Inl e \<Rightarrow> (Inl e, s) | Inr eff \<Rightarrow> perform env eff s))"

subsection \<open>Replay\<close>

datatype kc_replay_answer = NewModelRequired string | HashVerified string bool string | Recomputed string conclusion string

text \<open>The exceptions that \<open>except ValueError\<close> catches, among those the callees raise.\<close>

definition is_value_error :: "exc \<Rightarrow> bool" where
  "is_value_error e \<longleftrightarrow> exc_class e \<in> {''ValueError'', ''ValidationError'', ''GroundingError'', ''ModelOutputInvalid'',
     ''SealedResponseBindingInvalid'', ''SealedResponseConcurrentReplacement'', ''JSONDecodeError'', ''UnicodeDecodeError'', ''Error''}"

text \<open>
  The fallback inputs recorded before the result: \<open>read_finding\<close> stands for pydantic's reading of a row
  into the field types of a finding.
\<close>

definition recorded_inputs :: "(string \<times> mapping) list \<Rightarrow> pyval list option" where
  "recorded_inputs events = (case first_such (\<lambda>(mode, detail). mode = ''MODEL_FALLBACK'' \<and> is_list (get_item detail ''fallback_input_findings'')) (rev events) of
     None \<Rightarrow> None | Some (_, detail) \<Rightarrow> (case get_item detail ''fallback_input_findings'' of VList rows \<Rightarrow> Some rows | _ \<Rightarrow> None))"

definition replay_inputs :: "kc_env \<Rightarrow> (pyval \<Rightarrow> finding result) \<Rightarrow> kc_run \<Rightarrow> kc_store \<Rightarrow> finding list result" where
  "replay_inputs env read_finding r s = (case recorded_inputs (audit_events (kr_conclusion_id r) s) of
     Some rows \<Rightarrow> (case mapR (\<lambda>row. bindR (read_finding row) (validate_finding (kv_nfkc env))) rows of
         Inl _ \<Rightarrow> Inl (ValueError ''DETERMINISTIC_REPLAY_INPUT_INVALID'') | Inr fs \<Rightarrow> Inr fs)
   | None \<Rightarrow> (case kr_result r of None \<Rightarrow> Inr []
       | Some c \<Rightarrow> if kc_verdict c = INSUFFICIENT_EVIDENCE then Inr [] else Inr (kc_findings c)))"

definition replay_model :: "kc_env \<Rightarrow> (kc_run \<Rightarrow> conclusion result) \<Rightarrow> kc_run \<Rightarrow> frozen_bundle \<Rightarrow> kc_store \<Rightarrow> (conclusion \<times> string) result" where
  "replay_model env reconstruct r b s =
     bindR (reconstruct r) (\<lambda>c.
     bindR (result_citations env (fb_payload b) c) (\<lambda>expected.
     let persisted = repo_citations (kr_conclusion_id r) s in
     if length expected \<noteq> length persisted \<or> set expected \<noteq> set persisted then Inl (ValueError ''citation ownership mismatch'')
     else if Some (result_hash env c) \<noteq> kr_result_hash r then Inl (ValueError ''committed result hash mismatch'')
     else Inr (c, result_hash env c)))"

definition kc_replay :: "kc_env \<Rightarrow> (pyval \<Rightarrow> finding result) \<Rightarrow> (kc_run \<Rightarrow> conclusion result) \<Rightarrow> string \<Rightarrow> string \<Rightarrow> string \<Rightarrow> kc_store
    \<Rightarrow> kc_replay_answer result \<times> kc_store" where
  "kc_replay env read_finding reconstruct fresh i mode s = (case ks_runs s i of
     None \<Rightarrow> (Inl (KeyError i), s)
   | Some r \<Rightarrow> (case kr_bundle r of
       None \<Rightarrow> (Inl (ValueError ''BUNDLE_NOT_FROZEN''), s)
     | Some b \<Rightarrow>
         if mode = ''RECOMPUTE_MODEL'' then (Inr (NewModelRequired i), snd (repo_audit fresh i mode [(''new_model_identity_required'', VBool True)] s))
         else (case (kr_result r, kr_result_hash r) of
             (Some c, Some h) \<Rightarrow>
               if mode = ''VERIFY_HASH'' then
                 (let valid = (h = result_hash env c) in
                   (Inr (HashVerified fresh valid h), snd (repo_audit fresh i mode [(''valid'', VBool valid), (''bundle_hash'', VStr (fb_bundle_hash b))] s)))
               else if mode = ''RECOMPUTE_DETERMINISTIC'' then
                 (if cm_mode (kc_model c) = MODEL then
                    (case replay_model env reconstruct r b s of
                       Inr (c', h') \<Rightarrow> (Inr (Recomputed fresh c' h'), snd (repo_audit fresh i mode
                           [(''valid'', VBool True), (''result_hash'', VStr h'), (''model_mode'', VStr ''MODEL'')] s))
                     | Inl e \<Rightarrow> if is_value_error e
                         then (Inl (ValueError ''DETERMINISTIC_MODEL_REPLAY_INVALID''), snd (repo_audit fresh i mode
                             [(''valid'', VBool False), (''reason'', VStr ''SEALED_MODEL_REPLAY_INVALID'')] s))
                         else (Inl e, s))
                  else (case bindR (replay_inputs env read_finding r s) (\<lambda>fs. fallback_conclusion (kv_facts env) (kv_nfkc env) (kv_id_digest env)
                              (kr_request r) (fb_payload b) fs (fb_bundle_id b) (Some (kr_conclusion_id r)) (kc_created_at c)) of
                       Inl e \<Rightarrow> (Inl e, s)
                     | Inr c' \<Rightarrow> if result_hash env c' \<noteq> h then (Inl (ValueError ''DETERMINISTIC_REPLAY_MISMATCH''), s)
                         else (Inr (Recomputed fresh c' h), snd (repo_audit fresh i mode [(''result_hash'', VStr h)] s))))
               else (Inl (ValueError ''UNKNOWN_REPLAY_MODE''), s)
           | _ \<Rightarrow> (Inl (ValueError ''RESULT_NOT_AVAILABLE''), s))))"

subsection \<open>What a plan can do\<close>

text \<open>The fields a run keeps for ever, and one step of a run.\<close>

definition same_identity :: "kc_run \<Rightarrow> kc_run \<Rightarrow> bool" where
  "same_identity r r' \<longleftrightarrow> kr_conclusion_id r' = kr_conclusion_id r \<and> kr_idempotency_key r' = kr_idempotency_key r \<and> kr_raw_request r' = kr_raw_request r
     \<and> kr_raw_hash r' = kr_raw_hash r \<and> kr_effective_hash r' = kr_effective_hash r \<and> kr_request r' = kr_request r
     \<and> kr_policy_version r' = kr_policy_version r \<and> kr_audit r' = kr_audit r \<and> kr_created_at r' = kr_created_at r"

definition run_step :: "kc_run \<Rightarrow> kc_run \<Rightarrow> bool" where
  "run_step r r' \<longleftrightarrow> same_identity r r' \<and> kr_version r' = kr_version r + 1 \<and> kr_state r \<noteq> SUCCEEDED
     \<and> (kr_state r' \<in> kc_transitions (kr_state r) \<or> kr_state r' = kr_state r \<and> kr_state r \<in> {SYNTHESIZING, VALIDATING})
     \<and> (\<forall>b. kr_bundle r = Some b \<longrightarrow> kr_bundle r' = Some b)
     \<and> (kr_bundle r = None \<longrightarrow> kr_bundle r' = None \<or> kr_state r' = BUNDLE_FROZEN \<and> (\<exists>b. kr_bundle r' = Some b \<and> fb_snapshot_id b = kq_snapshot_id (kr_request r)))"

text \<open>A run is well formed when its bundle and result are there exactly from their stages on.\<close>

definition run_ok :: "kc_env \<Rightarrow> kc_run \<Rightarrow> bool" where
  "run_ok env r \<longleftrightarrow> 0 \<le> kr_version r
     \<and> (kr_state r \<in> {RECEIVED, BUNDLE_REQUESTED} \<longrightarrow> kr_bundle r = None)
     \<and> (kr_state r \<notin> {RECEIVED, BUNDLE_REQUESTED, FAILED} \<longrightarrow> kr_bundle r \<noteq> None)
     \<and> (\<forall>b. kr_bundle r = Some b \<longrightarrow> fb_snapshot_id b = kq_snapshot_id (kr_request r))
     \<and> (kr_state r \<noteq> SUCCEEDED \<longrightarrow> kr_result r = None \<and> kr_result_hash r = None)"

definition committed :: "kc_env \<Rightarrow> kc_run \<Rightarrow> kc_citation list \<Rightarrow> bool" where
  "committed env r cits \<longleftrightarrow> (\<exists>b c. kr_bundle r = Some b \<and> kr_result r = Some c \<and> kr_result_hash r = Some (result_hash env c)
     \<and> kc_conclusion_id c = kr_conclusion_id r \<and> kc_bundle_id c = fb_bundle_id b
     \<and> (\<exists>gs. ground_findings (kv_facts env) (fb_payload b) (kc_findings c) = Inr gs)
     \<and> result_citations env (fb_payload b) c = Inr cits \<and> distinct (map citation_key cits))"

lemma plan_unchanged: "kc_plan env op now r = Inr (Unchanged r') \<Longrightarrow> r' = r"
  by (cases op) (auto simp: plan_request_bundle_def plan_freeze_bundle_def plan_begin_synthesis_def plan_seal_response_def
      plan_seal_attempt_def plan_begin_validation_def plan_commit_def save_transition_def bindR_Inr_iff
      split: if_splits option.splits kc_state.splits)

lemma save_transition_Inr:
  "save_transition env r t now e seal = Inr (Save r' e' seal') \<longleftrightarrow>
     kc_transition r t (now, None) = Inr r' \<and> e' = e \<and> seal' = Some (or_default seal (captured_seal (kv_digest env) r))"
  by (auto simp: save_transition_def bindR_Inr_iff)

lemma save_transition_effect: "save_transition env r t now e seal \<noteq> Inr (Unchanged r') \<and> save_transition env r t now e seal \<noteq> Inr (Commit r' cits e' seal')"
  by (auto simp: save_transition_def bindR_Inr_iff)

lemma same_identity_simps [simp]:
  "same_identity r r"
  "same_identity r (r\<lparr>kr_bundle := x\<rparr>)"
  "same_identity r (r\<lparr>kr_sealed := y\<rparr>)"
  "same_identity r (r\<lparr>kr_model_request_id := u, kr_provider_key := v\<rparr>)"
  "same_identity r (r\<lparr>kr_sealed := y, kr_updated_at := t, kr_version := n\<rparr>)"
  by (simp_all add: same_identity_def)

lemma save_step:
  assumes "save_transition env q t now e0 seal = Inr (Save r' e s)"
    and "same_identity r q" and "kr_version q = kr_version r" and "kr_state q = kr_state r" and "t \<notin> {SUCCEEDED, FAILED}"
    and "kr_bundle q = kr_bundle r \<and> t \<noteq> BUNDLE_FROZEN
       \<or> t = BUNDLE_FROZEN \<and> kr_bundle r = None \<and> (\<exists>b. kr_bundle q = Some b \<and> fb_snapshot_id b = kq_snapshot_id (kr_request r))"
    and "kr_result q = kr_result r" and "kr_result_hash q = kr_result_hash r"
  shows "e = e0 \<and> run_step r r' \<and> (run_ok env r \<longrightarrow> run_ok env r') \<and> kr_state r' \<noteq> SUCCEEDED"
proof -
  have t: "t \<in> kc_transitions (kr_state r)" and e: "e = e0"
    and r': "r' = q\<lparr>kr_state := t, kr_version := kr_version r + 1, kr_error_code := None, kr_updated_at := now\<rparr>"
    using assms(1,3,4) by (auto simp: save_transition_Inr kc_transition_Inr)
  have id: "same_identity r r'" using assms(2) by (simp add: r' same_identity_def)
  have st: "kr_state r \<noteq> SUCCEEDED" using t by auto
  have step: "run_step r r'" using id t st assms(6) by (auto simp: run_step_def r')
  have req: "kr_request r' = kr_request r" using id by (simp add: same_identity_def)
  have "run_ok env r'" if ok: "run_ok env r"
    using t ok assms(5,6) req
    by (cases "kr_state r") (auto simp: run_ok_def r' assms(7,8))
  then show ?thesis using e step assms(5) by (simp add: r')
qed

lemma plan_save:
  assumes "kc_plan env op now r = Inr (Save r' e seal)"
  shows "e = kr_version r \<and> run_step r r' \<and> (run_ok env r \<longrightarrow> run_ok env r') \<and> kr_state r' \<noteq> SUCCEEDED"
proof (cases op)
  case RequestBundle
  then show ?thesis using assms by (auto simp: plan_request_bundle_def split: if_splits dest!: save_step [where r = r])
next
  case (FreezeBundle b)
  then show ?thesis using assms by (auto simp: plan_freeze_bundle_def split: if_splits option.splits dest!: save_step [where r = r])
next
  case (BeginSynthesis w)
  then show ?thesis using assms by (auto simp: plan_begin_synthesis_def split: if_splits dest!: save_step [where r = r])
next
  case (SealResponse d)
  then show ?thesis using assms by (auto simp: plan_seal_response_def split: if_splits dest!: save_step [where r = r])
next
  case (SealAttempt d x)
  then have "kr_state r \<in> {SYNTHESIZING, VALIDATING}" "e = kr_version r"
    "\<exists>y. r' = r\<lparr>kr_sealed := y, kr_updated_at := now, kr_version := kr_version r + 1\<rparr>"
    using assms by (auto simp: plan_seal_attempt_def bindR_Inr_iff split: if_splits)
  then show ?thesis by (auto simp: run_step_def run_ok_def)
next
  case (BeginValidation x)
  then show ?thesis using assms by (auto simp: plan_begin_validation_def split: if_splits dest!: save_step [where r = r])
next
  case (CommitGrounded c x)
  then show ?thesis using assms by (auto simp: plan_commit_def bindR_Inr_iff split: if_splits option.splits kc_state.splits)
qed

lemma plan_commit_step:
  assumes "kc_plan env op now r = Inr (Commit r' cits e seal)"
  shows "e = kr_version r \<and> run_step r r' \<and> (run_ok env r \<longrightarrow> run_ok env r') \<and> kr_state r' = SUCCEEDED
    \<and> (card (set (map citation_key cits)) = length cits \<longrightarrow> committed env r' cits)"
proof (cases op)
  case (CommitGrounded c x)
  have "distinct (map citation_key cits)" if "card (set (map citation_key cits)) = length cits" using that card_distinct [of "map citation_key cits"] by simp
  then show ?thesis using assms CommitGrounded
    by (auto simp: plan_commit_def kc_transition_Inr bindR_Inr_iff run_step_def same_identity_def run_ok_def committed_def
        split: if_splits option.splits kc_state.splits)
qed (use assms save_transition_effect in \<open>auto simp: plan_request_bundle_def plan_freeze_bundle_def plan_begin_synthesis_def plan_seal_response_def
      plan_seal_attempt_def plan_begin_validation_def bindR_Inr_iff split: if_splits option.splits\<close>)

subsection \<open>Runs of the service\<close>

text \<open>
  Any number of workers: each acts on a run it observed at any earlier moment, so the system keeps the
  set of all runs that were ever returned beside the store. A reservation brings a uuid that no
  stored run has.
\<close>

inductive kc_step :: "kc_env \<Rightarrow> kc_store \<times> kc_run set \<Rightarrow> kc_store \<times> kc_run set \<Rightarrow> bool" for env where
  reserve: "ks_runs s fresh = None \<Longrightarrow> kc_reserve env q key policy meta fresh now s = (Inr r, s') \<Longrightarrow> kc_step env (s, H) (s', insert r H)"
| act: "r \<in> H \<Longrightarrow> kc_plan env op now r = Inr eff \<Longrightarrow> perform env eff s = (res, s') \<Longrightarrow>
     kc_step env (s, H) (s', case res of Inl e \<Rightarrow> H | Inr r' \<Rightarrow> insert r' H)"
| audit: "kc_step env (s, H) (snd (repo_audit fresh i mode detail s), H)"
| lineage: "kc_step env (s, H) (snd (append_lineage_audit a s), H)"

definition kc_reachable :: "kc_env \<Rightarrow> kc_store \<times> kc_run set \<Rightarrow> bool" where
  "kc_reachable env st \<longleftrightarrow> (kc_step env)\<^sup>*\<^sup>* (empty_kc_store, {}) st"

definition row_ok :: "kc_env \<Rightarrow> kc_store \<Rightarrow> string \<Rightarrow> kc_run \<Rightarrow> bool" where
  "row_ok env s i r \<longleftrightarrow> kr_conclusion_id r = i \<and> run_ok env r
     \<and> (kr_state r = SUCCEEDED \<longrightarrow> (\<exists>cits. ks_citations s i = Some cits \<and> committed env r cits))"

definition was_stored :: "kc_store \<Rightarrow> kc_run \<Rightarrow> bool" where
  "was_stored s r \<longleftrightarrow> (\<exists>q. ks_runs s (kr_conclusion_id r) = Some q \<and> (r = q \<or> kr_version r < kr_version q))"

definition kc_inv :: "kc_env \<Rightarrow> kc_store \<times> kc_run set \<Rightarrow> bool" where
  "kc_inv env st \<longleftrightarrow> (\<forall>i r. ks_runs (fst st) i = Some r \<longrightarrow> row_ok env (fst st) i r) \<and> (\<forall>r \<in> snd st. was_stored (fst st) r)"

definition run_written :: "kc_env \<Rightarrow> kc_store \<Rightarrow> kc_run \<Rightarrow> kc_run \<Rightarrow> kc_store \<Rightarrow> bool" where
  "run_written env s r r' s' \<longleftrightarrow> ks_runs s (kr_conclusion_id r) = Some r \<and> run_step r r' \<and> (run_ok env r \<longrightarrow> run_ok env r')
     \<and> ks_runs s' = (ks_runs s)(kr_conclusion_id r \<mapsto> r')
     \<and> (if kr_state r' = SUCCEEDED then \<exists>cits. ks_citations s' = (ks_citations s)(kr_conclusion_id r \<mapsto> cits) \<and> committed env r' cits
        else ks_citations s' = ks_citations s)"

lemma observed_current:
  assumes "kc_inv env (s, H)" and "r \<in> H" and "ks_runs s (kr_conclusion_id r) = Some q" and "kr_version q = kr_version r"
  shows "q = r"
  using assms by (force simp: kc_inv_def was_stored_def)

lemma perform_effect:
  assumes inv: "kc_inv env (s, H)" and r: "r \<in> H" and plan: "kc_plan env op now r = Inr eff" and perf: "perform env eff s = (res, s')"
  shows "s' = s \<and> (\<forall>q. res = Inr q \<longrightarrow> q = r) \<or> (\<exists>r'. res = Inr r' \<and> run_written env s r r' s')"
proof (cases eff)
  case (Unchanged q)
  then show ?thesis using plan_unchanged [of env op now r q] plan perf by auto
next
  case (Save r' e seal)
  note p = plan_save [OF plan [unfolded Save]]
  have id: "kr_conclusion_id r' = kr_conclusion_id r" using p by (simp add: run_step_def same_identity_def)
  show ?thesis using perf Save p id observed_current [OF inv r]
    by (auto simp: repo_save_run_def fence_open_def run_written_def split: option.splits if_splits)
next
  case (Commit r' cits e seal)
  note p = plan_commit_step [OF plan [unfolded Commit]]
  have id: "kr_conclusion_id r' = kr_conclusion_id r" and st: "kr_state r \<noteq> SUCCEEDED" using p by (simp_all add: run_step_def same_identity_def)
  show ?thesis
  proof (cases "\<exists>e'. res = Inl e'")
    case True
    then show ?thesis using perf Commit by (auto simp: repo_commit_def split: option.splits if_splits)
  next
    case False
    then obtain q where q: "ks_runs s (kr_conclusion_id r') = Some q" "fence_open (kv_digest env) e seal q"
      using perf Commit by (auto simp: repo_commit_def split: option.splits if_splits)
    have "q = r" using observed_current [OF inv r] q p id by (simp add: fence_open_def)
    then have w: "res = Inr r'" "s' = s\<lparr>ks_runs := (ks_runs s)(kr_conclusion_id r \<mapsto> r'), ks_citations := (ks_citations s)(kr_conclusion_id r \<mapsto> cits)\<rparr>"
      "card (set (map citation_key cits)) = length cits"
      using perf Commit q False id st by (auto simp: repo_commit_def split: if_splits)
    have "committed env r' cits" using p w(3) by blast
    then have "run_written env s r r' s'" using p \<open>q = r\<close> q(1) id w(2) unfolding run_written_def by auto
    then show ?thesis using w(1) by blast
  qed
qed

lemma written_inv:
  assumes "kc_inv env (s, H)" and "run_written env s r r' s'"
  shows "kc_inv env (s', insert r' H)"
proof -
  have r: "ks_runs s (kr_conclusion_id r) = Some r" and runs: "ks_runs s' = (ks_runs s)(kr_conclusion_id r \<mapsto> r')"
    using assms(2) by (simp_all add: run_written_def)
  have "run_ok env r" using assms(1) r by (simp add: kc_inv_def row_ok_def)
  then have id: "kr_conclusion_id r' = kr_conclusion_id r" and v: "kr_version r' = kr_version r + 1" and ok: "run_ok env r'"
    using assms(2) by (simp_all add: run_written_def run_step_def same_identity_def)
  have "row_ok env s' i q" if q: "ks_runs s' i = Some q" for i q
  proof (cases "i = kr_conclusion_id r")
    case True
    then have "q = r'" using q runs by simp
    then show ?thesis using True id ok assms(2) by (auto simp: run_written_def row_ok_def)
  next
    case False
    then have q': "ks_runs s i = Some q" and c: "ks_citations s' i = ks_citations s i"
      using q runs assms(2) by (auto simp: run_written_def split: if_splits)
    have "row_ok env s i q" using assms(1) q' by (simp add: kc_inv_def)
    then show ?thesis using c by (simp add: row_ok_def)
  qed
  moreover have "was_stored s' x" if x: "x \<in> insert r' H" for x
  proof (cases "x = r'")
    case False
    then have o: "was_stored s x" using x assms(1) by (simp add: kc_inv_def)
    show ?thesis
    proof (cases "kr_conclusion_id x = kr_conclusion_id r")
      case True
      then have "kr_version x < kr_version r'" using o r v by (auto simp: was_stored_def)
      then show ?thesis using True runs by (simp add: was_stored_def)
    next
      case False
      then show ?thesis using o runs by (simp add: was_stored_def)
    qed
  qed (simp add: runs id was_stored_def)
  ultimately show ?thesis by (simp add: kc_inv_def)
qed

lemma reserve_cases:
  assumes "kc_reserve env q key policy meta fresh now s = (Inr r, s')" and "ks_runs s fresh = None"
  shows "s' = s \<and> (\<exists>i. ks_runs s i = Some r) \<and> kr_raw_hash r = request_hash env q policy
    \<or> r = new_kc_run env q key policy meta fresh now
      \<and> s' = s\<lparr>ks_by_key := (ks_by_key s)(key \<mapsto> fresh), ks_runs := (ks_runs s)(fresh \<mapsto> r)\<rparr>"
  using assms by (auto simp: kc_reserve_def repo_reserve_def new_kc_run_def split: if_splits option.splits)

lemma new_kc_run_ok: "run_ok env (new_kc_run env q key policy meta fresh now)" "kr_state (new_kc_run env q key policy meta fresh now) = RECEIVED"
  "kr_conclusion_id (new_kc_run env q key policy meta fresh now) = fresh"
  by (simp_all add: new_kc_run_def run_ok_def)

lemma reserve_inv:
  assumes "kc_inv env (s, H)" and "ks_runs s fresh = None" and "row_ok env s fresh r" and "kr_state r = RECEIVED"
    and "s' = s\<lparr>ks_by_key := keys, ks_runs := (ks_runs s)(fresh \<mapsto> r)\<rparr>"
  shows "kc_inv env (s', insert r H)"
proof -
  have runs: "ks_runs s' = (ks_runs s)(fresh \<mapsto> r)" and c: "ks_citations s' = ks_citations s" by (simp_all add: assms(5))
  have "row_ok env s' i q" if q: "ks_runs s' i = Some q" for i q
    using q assms(1,3) by (auto simp: runs c kc_inv_def row_ok_def split: if_splits)
  moreover have "was_stored s' x" if x: "x \<in> insert r H" for x
  proof (cases "x = r")
    case True
    then show ?thesis using assms(3) by (simp add: was_stored_def runs row_ok_def)
  next
    case False
    then have "was_stored s x" using x assms(1) by (simp add: kc_inv_def)
    then show ?thesis using assms(2) by (auto simp: was_stored_def runs)
  qed
  ultimately show ?thesis by (simp add: kc_inv_def)
qed

lemma kc_inv_frame:
  assumes "kc_inv env (s, H)" and "ks_runs s' = ks_runs s" and "ks_citations s' = ks_citations s"
  shows "kc_inv env (s', H)"
  using assms by (simp add: kc_inv_def row_ok_def was_stored_def)

lemma kc_inv_insert: "kc_inv env (s, H) \<Longrightarrow> ks_runs s i = Some r \<Longrightarrow> kc_inv env (s, insert r H)"
  by (simp add: kc_inv_def row_ok_def was_stored_def)

lemma kc_step_inv:
  assumes "kc_step env st st'" and "kc_inv env st"
  shows "kc_inv env st'"
  using assms
proof (cases rule: kc_step.cases)
  case (reserve s fresh q key policy meta now r s' H)
  have st: "kc_inv env (s, H)" using assms(2) reserve(1) by simp
  note new = new_kc_run_ok [of env q key policy meta fresh now]
  from reserve_cases [OF reserve(4,3)] show ?thesis unfolding reserve(2)
    using kc_inv_insert [OF st] reserve_inv [OF st reserve(3), of r s'] new by (elim disjE conjE exE) (simp_all add: row_ok_def)
next
  case (act r H op now eff s res s')
  have st: "kc_inv env (s, H)" using assms(2) act(1) by simp
  from perform_effect [OF st act(3,4,5)] show ?thesis
  proof (elim disjE exE conjE)
    assume s': "s' = s" and q: "\<forall>q. res = Inr q \<longrightarrow> q = r"
    show ?thesis
    proof (cases res)
      case (Inr q')
      then have "insert q' H = H" using q act(3) by (simp add: insert_absorb)
      then show ?thesis using st act(2) s' Inr by simp
    qed (use st act(2) s' in simp)
  next
    fix r' assume "res = Inr r'" "run_written env s r r' s'"
    then show ?thesis using written_inv [OF st] act(2) by simp
  qed
next
  case (audit s H fresh i mode detail)
  then show ?thesis using kc_inv_frame [of env s H] assms(2) by (simp add: repo_audit_def)
next
  case (lineage s H a)
  then show ?thesis using kc_inv_frame [of env s H] assms(2) by (simp add: append_lineage_audit_def Let_def)
qed

lemma kc_reachable_inv:
  assumes "kc_reachable env st"
  shows "kc_inv env st"
  using assms unfolding kc_reachable_def
proof (induction rule: rtranclp_induct)
  case base
  then show ?case by (simp add: kc_inv_def empty_kc_store_def)
next
  case (step y z)
  then show ?case using kc_step_inv by blast
qed


subsection \<open>An example\<close>

text \<open>Operations called one after the other on the run of one conclusion.\<close>

fun play :: "kc_env \<Rightarrow> kc_op list \<Rightarrow> py_datetime \<Rightarrow> kc_run \<Rightarrow> kc_store \<Rightarrow> (kc_run \<times> kc_store) result" where
  "play env [] now r s = Inr (r, s)"
| "play env (op # ops) now r s = (case service_call env op (kr_conclusion_id r) now s of
     (Inl e, _) \<Rightarrow> Inl e | (Inr r', s') \<Rightarrow> play env ops now r' s')"

lemma play_reachable:
  assumes "kc_reachable env (s, H)" and "r \<in> H" and "ks_runs s (kr_conclusion_id r) = Some r" and "play env ops now r s = Inr (r', s')"
  shows "\<exists>H'. (kc_step env)\<^sup>*\<^sup>* (s, H) (s', H') \<and> kc_reachable env (s', H') \<and> ks_runs s' (kr_conclusion_id r) = Some r'"
  using assms
proof (induction ops arbitrary: s H r)
  case Nil
  then show ?case by auto
next
  case (Cons op ops)
  note prems = Cons.prems
  obtain eff where eff: "kc_plan env op now r = Inr eff" using prems(3,4) by (auto simp: service_call_def split: sum.splits)
  obtain q t where q: "perform env eff s = (Inr q, t)" "play env ops now q t = Inr (r', s')"
    using prems(3,4) eff by (auto simp: service_call_def split: sum.splits prod.splits)
  have step: "kc_step env (s, H) (t, insert q H)" using kc_step.act [OF prems(2) eff q(1)] by simp
  then have reach: "kc_reachable env (t, insert q H)" using prems(1) unfolding kc_reachable_def by simp
  have stored: "ks_runs t (kr_conclusion_id q) = Some q \<and> kr_conclusion_id q = kr_conclusion_id r"
    using perform_effect [OF kc_reachable_inv [OF prems(1)] prems(2) eff q(1)] prems(3)
    by (auto simp: run_written_def run_step_def same_identity_def)
  from Cons.IH [OF reach insertI1 stored [THEN conjunct1] q(2)] step show ?case
    using stored by (metis converse_rtranclp_into_rtranclp)
qed

definition demo_env :: kc_env where
  "demo_env = \<lparr>kv_digest = (\<lambda>v. case v of VDict d \<Rightarrow> ''d'' @ concat (map fst d) | _ \<Rightarrow> ''v''), kv_quote_digest = id, kv_id_digest = id, kv_facts = no_facts, kv_nfkc = id,
     kv_clock_text = (\<lambda>t. int_text (instant t))\<rparr>"

definition demo_frozen :: frozen_bundle where
  "demo_frozen = \<lparr>fb_bundle_id = ''b1'', fb_bundle_hash = ''h'', fb_payload = demo_bundle, fb_producer_sha = ''p'', fb_contract_checksum = ''k'', fb_snapshot_id = ''s1''\<rparr>"

definition demo_conclusion :: conclusion where
  "demo_conclusion = \<lparr>kc_contract = ''knowledge-conclusion.v1'', kc_conclusion_id = ''c1'', kc_scope = ''CONTENT_ONLY_RESEARCH'', kc_execution_eligible = False,
     kc_query = ''q'', kc_bundle_id = ''b1'', kc_snapshot_id = ''s1'', kc_verdict = SUPPORTED, kc_stance = UNCERTAIN, kc_summary = ''growth'',
     kc_findings = [demo_finding], kc_conditions = [], kc_risks = [], kc_contradictions = [], kc_limitations = [],
     kc_model = fallback_identity, kc_created_at = Aware 5\<rparr>"

definition demo_run :: kc_run where
  "demo_run = new_kc_run demo_env demo_request ''key'' ''p'' None ''c1'' (Aware 1)"

definition demo_store :: kc_store where
  "demo_store = snd (kc_reserve demo_env demo_request ''key'' ''p'' None ''c1'' (Aware 1) empty_kc_store)"

definition demo_ops :: "kc_op list" where
  "demo_ops = [RequestBundle, FreezeBundle demo_frozen, BeginSynthesis ''w'', BeginValidation None, CommitGrounded demo_conclusion None]"

lemma demo_reserved: "kc_reserve demo_env demo_request ''key'' ''p'' None ''c1'' (Aware 1) empty_kc_store = (Inr demo_run, demo_store)"
  by (simp add: demo_store_def demo_run_def kc_reserve_def repo_reserve_def empty_kc_store_def new_kc_run_def blank_def strip_def is_space_def)

lemma demo_start: "kc_reachable demo_env (demo_store, {demo_run})" "ks_runs demo_store (kr_conclusion_id demo_run) = Some demo_run"
  "kr_conclusion_id demo_run = ''c1''"
proof -
  have "kc_step demo_env (empty_kc_store, {}) (demo_store, insert demo_run {})"
    by (rule kc_step.reserve [OF _ demo_reserved]) (simp add: empty_kc_store_def)
  then show "kc_reachable demo_env (demo_store, {demo_run})" unfolding kc_reachable_def by (rule r_into_rtranclp)
qed (simp_all add: demo_store_def demo_run_def kc_reserve_def repo_reserve_def empty_kc_store_def new_kc_run_def blank_def strip_def is_space_def)

lemma demo_played:
  "(case play demo_env demo_ops (Aware 2) demo_run demo_store of Inl _ \<Rightarrow> None | Inr (r, s) \<Rightarrow> Some (kr_state r, kr_result r)) = Some (SUCCEEDED, Some demo_conclusion)"
  by code_simp

lemma seen_grows: "(kc_step env)\<^sup>*\<^sup>* st st' \<Longrightarrow> snd st \<subseteq> snd st'"
proof (induction rule: rtranclp_induct)
  case (step y z)
  from step(2) have "snd y \<subseteq> snd z" by (cases rule: kc_step.cases) (auto split: sum.splits)
  then show ?case using step(3) by blast
qed simp

lemma demo_end:
  obtains r s H where "(kc_step demo_env)\<^sup>*\<^sup>* (demo_store, {demo_run}) (s, H)" and "kc_reachable demo_env (s, H)"
    and "ks_runs s ''c1'' = Some r" and "kr_state r = SUCCEEDED" and "kr_result r = Some demo_conclusion"
proof -
  obtain r s where p: "play demo_env demo_ops (Aware 2) demo_run demo_store = Inr (r, s)" "kr_state r = SUCCEEDED" "kr_result r = Some demo_conclusion"
    using demo_played by (auto split: sum.splits prod.splits)
  from play_reachable [OF demo_start(1) _ demo_start(2) p(1)] p(2,3) demo_start(3) that show ?thesis by auto
qed

subsection \<open>Properties\<close>

lemma step_row:
  assumes "kc_step env st st'" and "kc_inv env st" and "ks_runs (fst st) i = Some r"
  shows "\<exists>r'. ks_runs (fst st') i = Some r' \<and> (r' = r \<and> ks_citations (fst st') i = ks_citations (fst st) i \<or> run_step r r')"
  using assms(1)
proof (cases rule: kc_step.cases)
  case (reserve s fresh q key policy meta now r0 s' H)
  from reserve_cases [OF reserve(4,3)] show ?thesis using assms(3) reserve(1-3) by auto
next
  case (act r0 H op now eff s res s')
  have st: "kc_inv env (s, H)" using assms(2) act(1) by simp
  from perform_effect [OF st act(3,4,5)] show ?thesis
  proof (elim disjE exE conjE)
    assume "s' = s"
    then show ?thesis using act assms(3) by simp
  next
    fix r' assume w: "res = Inr r'" "run_written env s r0 r' s'"
    show ?thesis
    proof (cases "i = kr_conclusion_id r0")
      case True
      then show ?thesis using w act(1,2) assms(3) by (auto simp: run_written_def)
    next
      case False
      then show ?thesis using w act(1,2) assms(3) by (auto simp: run_written_def split: if_splits)
    qed
  qed
qed (use assms(3) in \<open>auto simp: repo_audit_def append_lineage_audit_def Let_def\<close>)

lemma steps_inv: "(kc_step env)\<^sup>*\<^sup>* st st' \<Longrightarrow> kc_inv env st \<Longrightarrow> kc_inv env st'"
  by (induction rule: rtranclp_induct) (auto intro: kc_step_inv)

text \<open>C19: A succeeded run is backed by its frozen bundle. In every store the service can reach, however
  its workers interleave, a SUCCEEDED run has a frozen bundle of the requested snapshot and a result
  for that bundle and run whose findings are all grounded in it; the stored citations are exactly the
  ownership edges of those findings, without duplicates, and the result hash is the result's.\<close>

theorem succeeded_run_grounded:
  assumes "kc_reachable env (s, H)" and "ks_runs s i = Some r" and "kr_state r = SUCCEEDED"
  shows "\<exists>b c gs. kr_bundle r = Some b \<and> fb_snapshot_id b = kq_snapshot_id (kr_request r) \<and> kr_result r = Some c
    \<and> kc_conclusion_id c = i \<and> kc_bundle_id c = fb_bundle_id b
    \<and> ground_findings (kv_facts env) (fb_payload b) (kc_findings c) = Inr gs
    \<and> result_citations env (fb_payload b) c = Inr (repo_citations i s) \<and> distinct (map citation_key (repo_citations i s))
    \<and> kr_result_hash r = Some (result_hash env c)"
proof -
  have "row_ok env s i r" using kc_reachable_inv [OF assms(1)] assms(2) by (simp add: kc_inv_def)
  then obtain cits where "ks_citations s i = Some cits" "committed env r cits" "kr_conclusion_id r = i" "run_ok env r"
    using assms(3) by (auto simp: row_ok_def)
  then show ?thesis by (auto simp: committed_def run_ok_def repo_citations_def)
qed

lemma kept_by_steps:
  assumes "(kc_step env)\<^sup>*\<^sup>* st st'" and "kc_inv env st" and "ks_runs (fst st) i = Some r"
  shows "\<exists>r'. ks_runs (fst st') i = Some r' \<and> same_identity r r' \<and> kr_version r \<le> kr_version r'
    \<and> (\<forall>b. kr_bundle r = Some b \<longrightarrow> kr_bundle r' = Some b)
    \<and> (kr_state r = SUCCEEDED \<longrightarrow> r' = r \<and> ks_citations (fst st') i = ks_citations (fst st) i)"
  using assms
proof (induction rule: rtranclp_induct)
  case base
  then show ?case by auto
next
  case (step y z)
  then obtain q where q: "ks_runs (fst y) i = Some q" "same_identity r q" "kr_version r \<le> kr_version q"
    "\<forall>b. kr_bundle r = Some b \<longrightarrow> kr_bundle q = Some b" "kr_state r = SUCCEEDED \<longrightarrow> q = r \<and> ks_citations (fst y) i = ks_citations (fst st) i"
    by blast
  from step_row [OF step(2) steps_inv [OF step(1) assms(2)] q(1)]
  obtain q' where q': "ks_runs (fst z) i = Some q'" "q' = q \<and> ks_citations (fst z) i = ks_citations (fst y) i \<or> run_step q q'" by blast
  have "same_identity r q'" using q(2) q'(2) by (auto simp: run_step_def same_identity_def)
  moreover have "kr_version r \<le> kr_version q'" using q(3) q'(2) by (auto simp: run_step_def)
  moreover have "\<forall>b. kr_bundle r = Some b \<longrightarrow> kr_bundle q' = Some b" using q(4) q'(2) by (auto simp: run_step_def)
  moreover have "kr_state r = SUCCEEDED \<longrightarrow> q' = r \<and> ks_citations (fst z) i = ks_citations (fst st) i" using q(5) q'(2) by (auto simp: run_step_def)
  ultimately show ?case using q'(1) by blast
qed

lemma succeeded_run_grounded_witness:
  "\<exists>s H r b. kc_reachable demo_env (s, H) \<and> ks_runs s ''c1'' = Some r \<and> kr_bundle r = Some b
     \<and> result_citations demo_env (fb_payload b) demo_conclusion = Inr (repo_citations ''c1'' s)"
proof -
  obtain s H r where e: "kc_reachable demo_env (s, H)" "ks_runs s ''c1'' = Some r" "kr_state r = SUCCEEDED" "kr_result r = Some demo_conclusion"
    by (rule demo_end)
  then show ?thesis using succeeded_run_grounded [OF e(1-3)] by auto
qed

text \<open>Runs are frozen as they go. Whatever the workers do after a moment, a stored run keeps its
  identity, its raw and effective request and hashes, and its bundle once it has one; its version
  never falls; and once it has succeeded, run, result and citations never change again.\<close>

theorem runs_keep_frozen_inputs:
  assumes "kc_reachable env st" and "(kc_step env)\<^sup>*\<^sup>* st st'" and "ks_runs (fst st) i = Some r"
  shows "\<exists>r'. ks_runs (fst st') i = Some r' \<and> kr_request r' = kr_request r \<and> kr_raw_hash r' = kr_raw_hash r
    \<and> kr_effective_hash r' = kr_effective_hash r \<and> kr_version r \<le> kr_version r'
    \<and> (\<forall>b. kr_bundle r = Some b \<longrightarrow> kr_bundle r' = Some b)
    \<and> (kr_state r = SUCCEEDED \<longrightarrow> r' = r \<and> repo_citations i (fst st') = repo_citations i (fst st))"
  using kept_by_steps [OF assms(2) kc_reachable_inv [OF assms(1)] assms(3)]
  by (auto simp: same_identity_def repo_citations_def)

lemma runs_keep_frozen_inputs_witness:
  "\<exists>s H r. (kc_step demo_env)\<^sup>*\<^sup>* (demo_store, {demo_run}) (s, H) \<and> ks_runs s ''c1'' = Some r \<and> kr_raw_hash r = kr_raw_hash demo_run"
proof -
  obtain s H where e: "(kc_step demo_env)\<^sup>*\<^sup>* (demo_store, {demo_run}) (s, H)" by (rule demo_end)
  from runs_keep_frozen_inputs [OF demo_start(1) e, of "''c1''" demo_run] demo_start(2,3) e show ?thesis by auto
qed

text \<open>A stale worker has no effect. When a worker acts on a run that is no longer the stored one,
  whatever the operation, it is refused or gets back the run it had read; the store stays as it is.\<close>

theorem stale_observation_harmless:
  assumes "kc_reachable env (s, H)" and "r \<in> H" and "ks_runs s (kr_conclusion_id r) \<noteq> Some r"
    and "kc_plan env op now r = Inr eff" and "perform env eff s = (res, s')"
  shows "s' = s \<and> (\<forall>q. res = Inr q \<longrightarrow> q = r)"
  using perform_effect [OF kc_reachable_inv [OF assms(1)] assms(2,4,5)] assms(3) by (auto simp: run_written_def)

lemma stale_observation_harmless_witness:
  "\<exists>s H res. kc_reachable demo_env (s, H) \<and> kr_state (the (ks_runs s ''c1'')) = SUCCEEDED
     \<and> perform demo_env (Save (demo_run\<lparr>kr_state := BUNDLE_REQUESTED, kr_version := 1, kr_updated_at := Aware 9\<rparr>) 0 (Some absent_seal)) s = (res, s)"
proof -
  obtain s H r where e: "(kc_step demo_env)\<^sup>*\<^sup>* (demo_store, {demo_run}) (s, H)" "kc_reachable demo_env (s, H)"
    "ks_runs s ''c1'' = Some r" "kr_state r = SUCCEEDED" by (rule demo_end)
  let ?eff = "Save (demo_run\<lparr>kr_state := BUNDLE_REQUESTED, kr_version := 1, kr_updated_at := Aware 9\<rparr>) 0 (Some absent_seal)"
  have plan: "kc_plan demo_env RequestBundle (Aware 9) demo_run = Inr ?eff"
    by (simp add: plan_request_bundle_def save_transition_def kc_transition_def demo_run_def new_kc_run_def captured_seal_def seal_digest_def or_default_def absent_seal_def)
  have "demo_run \<in> H" using seen_grows [OF e(1)] by simp
  moreover have "ks_runs s (kr_conclusion_id demo_run) \<noteq> Some demo_run"
    using e(3,4) demo_start(3) by (auto simp: demo_run_def new_kc_run_def)
  ultimately have "snd (perform demo_env ?eff s) = s"
    using stale_observation_harmless [OF e(2) _ _ plan, of "fst (perform demo_env ?eff s)" "snd (perform demo_env ?eff s)"] by simp
  then show ?thesis using e by (metis option.sel prod.collapse)
qed

definition stored_results :: "kc_store \<Rightarrow> string \<rightharpoonup> conclusion" where
  "stored_results s i = (case ks_runs s i of None \<Rightarrow> None | Some r \<Rightarrow> kr_result r)"

text \<open>C20: The store refines a map of write-once cells from conclusion ids to results: every step of the
  service leaves the results alone or fills one empty cell.\<close>

theorem results_write_once:
  assumes "kc_reachable env st" and "kc_step env st st'"
  shows "stored_results (fst st') = stored_results (fst st)
    \<or> (\<exists>i c. stored_results (fst st) i = None \<and> stored_results (fst st') = (stored_results (fst st))(i \<mapsto> c))"
  using assms(2)
proof (cases rule: kc_step.cases)
  case (reserve s fresh q key policy meta now r s' H)
  have "stored_results s' = stored_results s"
    using reserve_cases [OF reserve(4,3)] reserve(3) by (auto simp: stored_results_def fun_eq_iff new_kc_run_def)
  then show ?thesis using reserve by simp
next
  case (act r H op now eff s res s')
  note inv = kc_reachable_inv [OF assms(1), unfolded act(1)]
  from perform_effect [OF inv act(3,4,5)] show ?thesis
  proof (elim disjE exE conjE)
    fix r' assume w: "run_written env s r r' s'"
    then have r: "ks_runs s (kr_conclusion_id r) = Some r" "kr_state r \<noteq> SUCCEEDED" and runs: "ks_runs s' = (ks_runs s)(kr_conclusion_id r \<mapsto> r')"
      by (simp_all add: run_written_def run_step_def)
    have ok: "run_ok env r" using inv r(1) by (simp add: kc_inv_def row_ok_def)
    have none: "stored_results s (kr_conclusion_id r) = None" using ok r by (simp add: stored_results_def run_ok_def)
    show ?thesis
    proof (cases "kr_result r'")
      case None
      then have "stored_results s' = stored_results s" using none by (auto simp: stored_results_def runs fun_eq_iff)
      then show ?thesis using act by simp
    next
      case (Some c)
      then have "stored_results s' = (stored_results s)(kr_conclusion_id r \<mapsto> c)" by (auto simp: stored_results_def runs fun_eq_iff)
      then show ?thesis using none act by auto
    qed
  qed (use act in simp)
qed (auto simp: stored_results_def repo_audit_def append_lineage_audit_def Let_def fun_eq_iff)


lemma results_write_once_witness:
  "\<exists>s. stored_results s = stored_results demo_store \<or> (\<exists>i c. stored_results demo_store i = None \<and> stored_results s = (stored_results demo_store)(i \<mapsto> c))"
  using results_write_once [OF demo_start(1) kc_step.audit [of demo_env demo_store "{demo_run}" "''a''" "''c1''" "''m''" "[]"]] by auto

text \<open>C21: A replay confirms and never reinterprets. On a succeeded run VERIFY_HASH always answers valid with
  the stored hash; a deterministic recomputation is answered only with a conclusion whose hash is the
  stored one; and no replay, whatever its mode and outcome, changes a run, a key or a citation.\<close>

theorem replay_confirms_result:
  assumes "kc_reachable env (s, H)" and "ks_runs s i = Some r" and "kr_state r = SUCCEEDED"
    and "kc_replay env read_finding reconstruct fresh i mode s = (a, s')"
  shows "(mode = ''VERIFY_HASH'' \<longrightarrow> (\<exists>h. kr_result_hash r = Some h \<and> a = Inr (HashVerified fresh True h)))
    \<and> (\<forall>x c h. a = Inr (Recomputed x c h) \<longrightarrow> kr_result_hash r = Some h \<and> h = result_hash env c)
    \<and> ks_runs s' = ks_runs s \<and> ks_by_key s' = ks_by_key s \<and> ks_citations s' = ks_citations s"
proof -
  have "row_ok env s i r" using kc_reachable_inv [OF assms(1)] assms(2) by (simp add: kc_inv_def)
  then obtain b c where r: "kr_bundle r = Some b" "kr_result r = Some c" "kr_result_hash r = Some (result_hash env c)"
    using assms(3) by (auto simp: row_ok_def committed_def)
  show ?thesis using assms(2,4) r
    by (auto simp: kc_replay_def repo_audit_def Let_def replay_model_def bindR_Inr_iff split: if_splits sum.splits)
qed

lemma replay_confirms_result_witness:
  "\<exists>s H h. kc_reachable demo_env (s, H) \<and> fst (kc_replay demo_env (\<lambda>_. Inl (ValueError [])) (\<lambda>_. Inl (ValueError [])) ''a1'' ''c1'' ''VERIFY_HASH'' s)
     = Inr (HashVerified ''a1'' True h)"
proof -
  obtain s H r where e: "kc_reachable demo_env (s, H)" "ks_runs s ''c1'' = Some r" "kr_state r = SUCCEEDED" by (rule demo_end)
  obtain a s' where p: "kc_replay demo_env (\<lambda>_. Inl (ValueError [])) (\<lambda>_. Inl (ValueError [])) ''a1'' ''c1'' ''VERIFY_HASH'' s = (a, s')"
    by fastforce
  from replay_confirms_result [OF e p] e(1) p show ?thesis by auto
qed

lemma step_key:
  assumes "kc_step env st st'" and "ks_by_key (fst st) k = Some i"
  shows "ks_by_key (fst st') k = Some i"
  using assms(1)
proof (cases rule: kc_step.cases)
  case (act r H op now eff s res s')
  have "ks_by_key s' = ks_by_key s" using act(5)
    by (cases eff) (auto simp: repo_save_run_def repo_commit_def split: option.splits if_splits)
  then show ?thesis using act(1,2) assms(2) by simp
qed (use assms(2) in \<open>auto simp: kc_reserve_def repo_reserve_def new_kc_run_def repo_audit_def append_lineage_audit_def Let_def
      split: if_splits option.splits\<close>)

lemma steps_key: "(kc_step env)\<^sup>*\<^sup>* st st' \<Longrightarrow> ks_by_key (fst st) k = Some i \<Longrightarrow> ks_by_key (fst st') k = Some i"
  by (induction rule: rtranclp_induct) (auto dest: step_key)

lemma reserve_result:
  assumes "kc_inv env (s, H)" and "ks_runs s fresh = None" and "kc_reserve env q key policy meta fresh now s = (Inr r, s1)"
  shows "ks_by_key s1 key = Some (kr_conclusion_id r) \<and> ks_runs s1 (kr_conclusion_id r) = Some r \<and> kr_raw_hash r = request_hash env q policy"
proof -
  have row: "kr_conclusion_id x = i" if "ks_runs s i = Some x" for i x using assms(1) that by (simp add: kc_inv_def row_ok_def)
  show ?thesis using assms(3) row by (auto simp: kc_reserve_def repo_reserve_def new_kc_run_def split: if_splits option.splits)
qed

text \<open>One key, one run. After a reservation under a key, whatever happens meanwhile, a later
  reservation under the same key changes nothing: it returns the current state of the same run when
  the caller's request and policy hash to the same value, and is refused as a conflict otherwise.\<close>

theorem reserve_idempotent:
  assumes "kc_reachable env (s, H)" and "ks_runs s fresh = None" and "kc_reserve env q key policy meta fresh now s = (Inr r, s1)"
    and "(kc_step env)\<^sup>*\<^sup>* (s1, insert r H) (s2, H2)" and "kc_reserve env q' key policy' meta' fresh' now' s2 = (res, s3)"
  shows "s3 = s2 \<and> (if request_hash env q' policy' = request_hash env q policy
      then \<exists>r'. res = Inr r' \<and> ks_runs s2 (kr_conclusion_id r) = Some r'
      else \<exists>e. res = Inl e)"
proof -
  have step: "kc_step env (s, H) (s1, insert r H)" by (rule kc_step.reserve [OF assms(2,3)])
  note inv = kc_reachable_inv [OF assms(1)]
  note r = reserve_result [OF inv assms(2,3)]
  have inv1: "kc_inv env (s1, insert r H)" by (rule kc_step_inv [OF step inv])
  have key: "ks_by_key s2 key = Some (kr_conclusion_id r)" using steps_key [OF assms(4)] r by simp
  obtain r' where r': "ks_runs s2 (kr_conclusion_id r) = Some r'" "kr_raw_hash r' = kr_raw_hash r"
    using kept_by_steps [OF assms(4) inv1, of "kr_conclusion_id r" r] r by (auto simp: same_identity_def)
  have "blank key \<longrightarrow> False" using assms(3) by (auto simp: kc_reserve_def)
  then show ?thesis using assms(5) key r' r by (auto simp: kc_reserve_def repo_reserve_def new_kc_run_def split: if_splits)
qed

lemma reserve_idempotent_witness:
  "fst (kc_reserve demo_env demo_request ''key'' ''p'' None ''c2'' (Aware 7) demo_store) = Inr demo_run"
proof -
  have fresh: "ks_runs empty_kc_store ''c1'' = None" by (simp add: empty_kc_store_def)
  have start: "kc_reachable demo_env (empty_kc_store, {})" by (simp add: kc_reachable_def)
  obtain res s3 where p: "kc_reserve demo_env demo_request ''key'' ''p'' None ''c2'' (Aware 7) demo_store = (res, s3)" by fastforce
  show ?thesis using reserve_idempotent [OF start fresh demo_reserved rtranclp.rtrancl_refl p] demo_start(2) p by auto
qed

end
