(* ===== verification/SynthesisCorrect.thy ===== *)
theory SynthesisCorrect
  imports Synthesis
begin

text \<open>
  Correctness of the orchestration in \<open>Synthesis\<close>: a Hoare logic over the steps of the run service
  (\<open>triple\<close>) shows that a returned conclusion is the committed one; a count of provider calls; and the
  progress of a call whose provider is down.
\<close>

subsection \<open>Seen runs\<close>

text \<open>Every stored run has been seen; a seen run that has succeeded is the stored one.\<close>

definition seen_ok :: "kc_env \<Rightarrow> kc_store \<times> kc_run set \<Rightarrow> bool" where
  "seen_ok env st \<longleftrightarrow> (\<forall>i r. ks_runs (fst st) i = Some r \<longrightarrow> r \<in> snd st)
     \<and> (\<forall>r \<in> snd st. run_ok env r \<and> (kr_state r = SUCCEEDED \<longrightarrow> ks_runs (fst st) (kr_conclusion_id r) = Some r))"

lemma seen_ok_update:
  assumes "seen_ok env (s, H)" and "ks_runs s' = (ks_runs s)(i \<mapsto> r)" and "kr_conclusion_id r = i" and "run_ok env r"
    and "\<And>x. x \<in> H \<Longrightarrow> kr_state x = SUCCEEDED \<Longrightarrow> kr_conclusion_id x \<noteq> i"
  shows "seen_ok env (s', insert r H)"
proof -
  have old: "\<forall>j x. ks_runs s j = Some x \<longrightarrow> x \<in> H" "\<forall>x \<in> H. run_ok env x \<and> (kr_state x = SUCCEEDED \<longrightarrow> ks_runs s (kr_conclusion_id x) = Some x)"
    using assms(1) by (simp_all add: seen_ok_def)
  have "x \<in> insert r H" if "ks_runs s' j = Some x" for j x using that old(1) by (cases "j = i") (auto simp: assms(2))
  moreover have "run_ok env x \<and> (kr_state x = SUCCEEDED \<longrightarrow> ks_runs s' (kr_conclusion_id x) = Some x)" if "x \<in> insert r H" for x
  proof (cases "x = r")
    case False
    then have "x \<in> H" using that by simp
    then show ?thesis using old(2) assms(5) [of x] by (auto simp: assms(2))
  qed (simp add: assms(2,3,4))
  ultimately show ?thesis by (simp add: seen_ok_def)
qed

lemma seen_ok_succeeded: "seen_ok env (s, H) \<Longrightarrow> x \<in> H \<Longrightarrow> kr_state x = SUCCEEDED \<Longrightarrow> ks_runs s (kr_conclusion_id x) = Some x"
  by (simp add: seen_ok_def)

lemma seen_ok_step:
  assumes "kc_step env st st'" and "kc_inv env st" and "seen_ok env st"
  shows "seen_ok env st'"
  using assms(1)
proof (cases rule: kc_step.cases)
  case (reserve s fresh q key policy meta now r s' H)
  have st: "seen_ok env (s, H)" using assms(3) reserve(1) by simp
  note new = new_kc_run_ok [of env q key policy meta fresh now]
  from reserve_cases [OF reserve(4,3)] show ?thesis
  proof (elim disjE conjE exE)
    fix i assume "s' = s" "ks_runs s i = Some r"
    then show ?thesis using st unfolding reserve(2) by (auto simp: seen_ok_def)
  next
    assume r: "r = new_kc_run env q key policy meta fresh now"
      and s': "s' = s\<lparr>ks_by_key := (ks_by_key s)(key \<mapsto> fresh), ks_runs := (ks_runs s)(fresh \<mapsto> r)\<rparr>"
    have "kr_conclusion_id x \<noteq> fresh" if "x \<in> H" "kr_state x = SUCCEEDED" for x using seen_ok_succeeded [OF st that] reserve(3) by auto
    then show ?thesis using seen_ok_update [OF st, of s' fresh r] new unfolding reserve(2) by (simp add: s' r)
  qed
next
  case (act r H op now eff s res s')
  have inv: "kc_inv env (s, H)" and st: "seen_ok env (s, H)" using assms(2,3) act(1) by simp_all
  from perform_effect [OF inv act(3,4,5)] show ?thesis
  proof (elim disjE exE conjE)
    assume "s' = s" "\<forall>q. res = Inr q \<longrightarrow> q = r"
    then have "st' = (s, H)" using act(2,3) by (cases res) (auto simp: insert_absorb)
    then show ?thesis using st by simp
  next
    fix r' assume res: "res = Inr r'" and w: "run_written env s r r' s'"
    have runs: "ks_runs s (kr_conclusion_id r) = Some r" "ks_runs s' = (ks_runs s)(kr_conclusion_id r \<mapsto> r')" "kr_state r \<noteq> SUCCEEDED"
      "kr_conclusion_id r' = kr_conclusion_id r" using w by (simp_all add: run_written_def run_step_def same_identity_def)
    have "run_ok env r" using st act(3) by (simp add: seen_ok_def)
    then have ok: "run_ok env r'" using w by (simp add: run_written_def)
    have "kr_conclusion_id x \<noteq> kr_conclusion_id r" if x: "x \<in> H" "kr_state x = SUCCEEDED" for x
      using seen_ok_succeeded [OF st x] runs(1,3) x(2) by (metis option.inject)
    then show ?thesis using seen_ok_update [OF st runs(2,4) ok] act(2) by (simp add: res)
  qed
next
  case (audit s H fresh i mode detail)
  then show ?thesis using assms(3) by (simp add: seen_ok_def repo_audit_def)
next
  case (lineage s H a)
  then show ?thesis using assms(3) by (simp add: seen_ok_def append_lineage_audit_def Let_def)
qed

lemma reachable_seen_ok:
  assumes "kc_reachable env st"
  shows "seen_ok env st"
  using assms unfolding kc_reachable_def
proof (induction rule: rtranclp_induct)
  case base
  then show ?case by (simp add: seen_ok_def empty_kc_store_def)
next
  case (step y z)
  have "kc_inv env y" using step(1) by (simp add: kc_reachable_def kc_reachable_inv)
  then show ?case using seen_ok_step step(2,3) by blast
qed

subsection \<open>Triples\<close>

text \<open>
  \<open>other_workers\<close>: what the others do are steps of the service too. A triple says that the operation,
  on a reachable store with the precondition that holds the run \<open>i\<close>, moves the store by steps of the service, and that a
  returned value meets the postcondition.
\<close>

definition other_workers :: "'w synth_env \<Rightarrow> bool" where
  "other_workers env \<longleftrightarrow> (\<forall>n k H. kc_reachable (se_kc env) (k, H) \<longrightarrow> (\<exists>H'. (kc_step (se_kc env))\<^sup>*\<^sup>* (k, H) (se_others env n k, H')))"

definition triple :: "'w synth_env \<Rightarrow> string \<Rightarrow> (kc_store \<Rightarrow> bool) \<Rightarrow> ('a, 'w) synth_op \<Rightarrow> ('a \<Rightarrow> kc_store \<Rightarrow> bool) \<Rightarrow> bool" where
  "triple env i P m Q \<longleftrightarrow> (\<forall>s H. kc_reachable (se_kc env) (sy_store s, H) \<longrightarrow> ks_runs (sy_store s) i \<noteq> None \<longrightarrow> P (sy_store s) \<longrightarrow>
     (\<exists>H'. (kc_step (se_kc env))\<^sup>*\<^sup>* (sy_store s, H) (sy_store (snd (m s)), H')) \<and> (\<forall>x. fst (m s) = Inr x \<longrightarrow> Q x (sy_store (snd (m s)))))"

lemma reachable_steps: "kc_reachable kc st \<Longrightarrow> (kc_step kc)\<^sup>*\<^sup>* st st' \<Longrightarrow> kc_reachable kc st'"
  unfolding kc_reachable_def by (rule rtranclp_trans)

lemma run_stays:
  assumes "kc_reachable kc st" and "(kc_step kc)\<^sup>*\<^sup>* st st'" and "ks_runs (fst st) i \<noteq> None"
  shows "ks_runs (fst st') i \<noteq> None"
proof -
  obtain r where "ks_runs (fst st) i = Some r" using assms(3) by blast
  then show ?thesis using kept_by_steps [OF assms(2) kc_reachable_inv [OF assms(1)]] by blast
qed

lemma triple_lift: "(\<And>x k. P k \<Longrightarrow> r = Inr x \<Longrightarrow> Q x k) \<Longrightarrow> triple env i P (liftM r) Q"
  by (auto simp: triple_def liftM_def)

lemma triple_raise [simp]: "triple env i P (raiseM e) Q"
  by (auto simp: triple_def raiseM_def)

lemma triple_state: "(\<And>s x. P (sy_store s) \<Longrightarrow> f s = Inr x \<Longrightarrow> Q x (sy_store s)) \<Longrightarrow> triple env i P (\<lambda>s. (f s, s)) Q"
  by (auto simp: triple_def)

lemma triple_weaken: "triple env i P m Q \<Longrightarrow> (\<And>k. P' k \<Longrightarrow> P k) \<Longrightarrow> (\<And>x k. Q x k \<Longrightarrow> Q' x k) \<Longrightarrow> triple env i P' m Q'"
  unfolding triple_def by blast

lemma triple_then:
  fixes env :: "'w synth_env"
  assumes "triple env i P m Q" and "\<And>x. triple env i (Q x) (k x) R"
  shows "triple env i P (thenM m k) R"
  unfolding triple_def
proof (intro allI impI)
  fix s :: "'w synth" and H assume r: "kc_reachable (se_kc env) (sy_store s, H)" and i: "ks_runs (sy_store s) i \<noteq> None" and P: "P (sy_store s)"
  obtain H1 where h1: "(kc_step (se_kc env))\<^sup>*\<^sup>* (sy_store s, H) (sy_store (snd (m s)), H1)" and q: "\<And>x. fst (m s) = Inr x \<Longrightarrow> Q x (sy_store (snd (m s)))"
    using assms(1) r i P unfolding triple_def by blast
  show "(\<exists>H'. (kc_step (se_kc env))\<^sup>*\<^sup>* (sy_store s, H) (sy_store (snd (thenM m k s)), H'))
      \<and> (\<forall>x. fst (thenM m k s) = Inr x \<longrightarrow> R x (sy_store (snd (thenM m k s))))"
  proof (cases "fst (m s)")
    case (Inl e)
    then have "thenM m k s = (Inl e, snd (m s))" by (cases "m s") (simp add: thenM_def)
    then show ?thesis using h1 by auto
  next
    case (Inr x)
    then have e: "thenM m k s = k x (snd (m s))" by (cases "m s") (simp add: thenM_def)
    have "kc_reachable (se_kc env) (sy_store (snd (m s)), H1)" by (rule reachable_steps [OF r h1])
    moreover have "ks_runs (sy_store (snd (m s))) i \<noteq> None" using run_stays [OF r h1, of i] i by simp
    ultimately obtain H2 where "(kc_step (se_kc env))\<^sup>*\<^sup>* (sy_store (snd (m s)), H1) (sy_store (snd (k x (snd (m s)))), H2)"
      "\<forall>y. fst (k x (snd (m s))) = Inr y \<longrightarrow> R y (sy_store (snd (k x (snd (m s)))))"
      using assms(2) [of x] q [OF Inr] unfolding triple_def by blast
    then show ?thesis using h1 by (metis e rtranclp_trans)
  qed
qed

lemma triple_except:
  fixes env :: "'w synth_env"
  assumes "triple env i P m Q" and "\<And>e. triple env i (\<lambda>_. True) (h e) Q"
  shows "triple env i P (exceptM m h) Q"
  unfolding triple_def
proof (intro allI impI)
  fix s :: "'w synth" and H assume r: "kc_reachable (se_kc env) (sy_store s, H)" and i: "ks_runs (sy_store s) i \<noteq> None" and P: "P (sy_store s)"
  obtain H1 where h1: "(kc_step (se_kc env))\<^sup>*\<^sup>* (sy_store s, H) (sy_store (snd (m s)), H1)" and q: "\<And>x. fst (m s) = Inr x \<Longrightarrow> Q x (sy_store (snd (m s)))"
    using assms(1) r i P unfolding triple_def by blast
  show "(\<exists>H'. (kc_step (se_kc env))\<^sup>*\<^sup>* (sy_store s, H) (sy_store (snd (exceptM m h s)), H'))
      \<and> (\<forall>x. fst (exceptM m h s) = Inr x \<longrightarrow> Q x (sy_store (snd (exceptM m h s))))"
  proof (cases "fst (m s)")
    case (Inr x)
    then have "exceptM m h s = (Inr x, snd (m s))" by (cases "m s") (simp add: exceptM_def)
    then show ?thesis using h1 q [OF Inr] by auto
  next
    case (Inl e)
    then have e: "exceptM m h s = h e (snd (m s))" by (cases "m s") (simp add: exceptM_def)
    have "kc_reachable (se_kc env) (sy_store (snd (m s)), H1)" by (rule reachable_steps [OF r h1])
    moreover have "ks_runs (sy_store (snd (m s))) i \<noteq> None" using run_stays [OF r h1, of i] i by simp
    ultimately obtain H2 where "(kc_step (se_kc env))\<^sup>*\<^sup>* (sy_store (snd (m s)), H1) (sy_store (snd (h e (snd (m s)))), H2)"
      "\<forall>y. fst (h e (snd (m s))) = Inr y \<longrightarrow> Q y (sy_store (snd (h e (snd (m s)))))"
      using assms(2) [of e] unfolding triple_def by blast
    then show ?thesis using h1 by (metis e rtranclp_trans)
  qed
qed

definition has_result :: "string \<Rightarrow> conclusion \<Rightarrow> kc_store \<Rightarrow> bool" where
  "has_result i c k \<longleftrightarrow> (\<exists>r. ks_runs k i = Some r \<and> kr_state r = SUCCEEDED \<and> kr_result r = Some c)"

definition run_of :: "string \<Rightarrow> kc_run \<Rightarrow> kc_store \<Rightarrow> bool" where
  "run_of i r k \<longleftrightarrow> kr_conclusion_id r = i \<and> (\<forall>c. kr_result r = Some c \<longrightarrow> has_result i c k)"

lemma seen_run_of:
  assumes "kc_reachable env (k, H)" and "r \<in> H"
  shows "run_of (kr_conclusion_id r) r k"
proof -
  have "run_ok env r" "kr_state r = SUCCEEDED \<longrightarrow> ks_runs k (kr_conclusion_id r) = Some r"
    using reachable_seen_ok [OF assms(1)] assms(2) by (simp_all add: seen_ok_def)
  then show ?thesis by (cases "kr_state r = SUCCEEDED") (auto simp: run_of_def has_result_def run_ok_def)
qed

lemma triple_access:
  fixes env :: "'w synth_env"
  assumes "other_workers env" and "\<And>k x t. f k = (x, t) \<Longrightarrow> t = k \<or> (\<forall>H. kc_step (se_kc env) (k, H) (t, H))"
    and "\<And>k x t H. f k = (x, t) \<Longrightarrow> kc_reachable (se_kc env) (k, H) \<Longrightarrow> ks_runs k i \<noteq> None \<Longrightarrow> Q x t"
  shows "triple env i P (access env f) Q"
  unfolding triple_def
proof (intro allI impI)
  fix s :: "'w synth" and H assume r: "kc_reachable (se_kc env) (sy_store s, H)" and i: "ks_runs (sy_store s) i \<noteq> None"
  let ?k = "se_others env (sy_tick s) (sy_store s)"
  obtain H1 where h1: "(kc_step (se_kc env))\<^sup>*\<^sup>* (sy_store s, H) (?k, H1)"
    using assms(1) r unfolding other_workers_def by blast
  obtain x t where f: "f ?k = (x, t)" by fastforce
  have r1: "kc_reachable (se_kc env) (?k, H1)" by (rule reachable_steps [OF r h1])
  have i1: "ks_runs ?k i \<noteq> None" using run_stays [OF r h1, of i] i by simp
  have "(kc_step (se_kc env))\<^sup>*\<^sup>* (?k, H1) (t, H1)" using assms(2) [OF f] by (metis r_into_rtranclp rtranclp.rtrancl_refl)
  then have "(kc_step (se_kc env))\<^sup>*\<^sup>* (sy_store s, H) (t, H1)" by (rule rtranclp_trans [OF h1])
  moreover have "access env f s = (Inr x, s\<lparr>sy_store := t, sy_tick := sy_tick s + 1\<rparr>)" by (simp add: access_def f)
  moreover have "Q x t" by (rule assms(3) [OF f r1 i1])
  ultimately show "(\<exists>H'. (kc_step (se_kc env))\<^sup>*\<^sup>* (sy_store s, H) (sy_store (snd (access env f s)), H'))
      \<and> (\<forall>y. fst (access env f s) = Inr y \<longrightarrow> Q y (sy_store (snd (access env f s))))" by auto
qed

lemma triple_read:
  assumes "other_workers env"
  shows "triple env i P (read_run env i) (\<lambda>x k. \<exists>r. x = Some r \<and> run_of i r k)"
  unfolding read_run_def
proof (rule triple_access [OF assms])
  fix k :: kc_store and x t H
  assume a: "(ks_runs k i, k) = (x, t)" and reach: "kc_reachable (se_kc env) (k, H)" and i: "ks_runs k i \<noteq> None"
  obtain r where r: "ks_runs k i = Some r" using i by blast
  have "r \<in> H" using reachable_seen_ok [OF reach] r by (simp add: seen_ok_def)
  moreover have "kr_conclusion_id r = i" using kc_reachable_inv [OF reach] r by (simp add: kc_inv_def row_ok_def)
  ultimately have "run_of i r k" using seen_run_of [OF reach, of r] by simp
  moreover have "x = Some r" "t = k" using a r by simp_all
  ultimately show "\<exists>r. x = Some r \<and> run_of i r t" by blast
qed simp

lemma triple_audit:
  assumes "other_workers env"
  shows "triple env i P (write_audit env j mode detail) (\<lambda>_ _. True)"
proof -
  have "triple env i P (access env (repo_audit u j mode detail)) (\<lambda>_ _. True)" for u
    by (rule triple_access [OF assms]) (auto simp: repo_audit_def intro: kc_step.audit [of _ _ _ u j mode detail, unfolded repo_audit_def, simplified])
  then show ?thesis by (simp add: triple_def write_audit_def)
qed


lemma run_service_eq:
  "run_service env op i s = (let k1 = se_others env (sy_tick s) (sy_store s); s1 = s\<lparr>sy_store := k1, sy_tick := sy_tick s + 1\<rparr> in
     case ks_runs k1 i of None \<Rightarrow> (Inl (KeyError i), s1)
     | Some r \<Rightarrow> (case kc_plan (se_kc env) op (se_clock env (sy_tick s1)) r of Inl e \<Rightarrow> (Inl e, s1)
         | Inr eff \<Rightarrow> (case perform (se_kc env) eff (se_others env (sy_tick s1) k1) of
             (res, t) \<Rightarrow> (res, s1\<lparr>sy_store := t, sy_tick := sy_tick s1 + 1\<rparr>))))"
  by (simp add: run_service_def read_run_def access_def thenM_def raiseM_def liftM_def Let_def split: option.splits sum.splits prod.splits)

lemma triple_service:
  fixes env :: "'w synth_env"
  assumes "other_workers env"
  shows "triple env i P (run_service env op i) (run_of i)"
  unfolding triple_def
proof (intro allI impI)
  fix s :: "'w synth" and H assume reach: "kc_reachable (se_kc env) (sy_store s, H)"
  let ?K = "kc_step (se_kc env)"
  let ?k1 = "se_others env (sy_tick s) (sy_store s)"
  obtain H1 where h1: "?K\<^sup>*\<^sup>* (sy_store s, H) (?k1, H1)" using assms reach unfolding other_workers_def by blast
  have r1: "kc_reachable (se_kc env) (?k1, H1)" by (rule reachable_steps [OF reach h1])
  let ?goal = "(\<exists>H'. ?K\<^sup>*\<^sup>* (sy_store s, H) (sy_store (snd (run_service env op i s)), H'))
      \<and> (\<forall>x. fst (run_service env op i s) = Inr x \<longrightarrow> run_of i x (sy_store (snd (run_service env op i s))))"
  show ?goal
  proof (cases "\<exists>r eff. ks_runs ?k1 i = Some r \<and> kc_plan (se_kc env) op (se_clock env (sy_tick s + 1)) r = Inr eff")
    case False
    then have "\<exists>e. run_service env op i s = (Inl e, s\<lparr>sy_store := ?k1, sy_tick := sy_tick s + 1\<rparr>)"
      by (auto simp: run_service_eq Let_def split: option.splits sum.splits)
    then show ?thesis using h1 by auto
  next
    case True
    then obtain r eff where r: "ks_runs ?k1 i = Some r" and eff: "kc_plan (se_kc env) op (se_clock env (sy_tick s + 1)) r = Inr eff" by blast
    let ?k2 = "se_others env (sy_tick s + 1) ?k1"
    obtain H2 where h2: "?K\<^sup>*\<^sup>* (?k1, H1) (?k2, H2)" using assms r1 unfolding other_workers_def by blast
    have r2: "kc_reachable (se_kc env) (?k2, H2)" by (rule reachable_steps [OF r1 h2])
    have in1: "r \<in> H1" using reachable_seen_ok [OF r1] r by (simp add: seen_ok_def)
    then have in2: "r \<in> H2" using seen_grows [OF h2] by auto
    have id: "kr_conclusion_id r = i" using kc_reachable_inv [OF r1] r by (simp add: kc_inv_def row_ok_def)
    obtain res t where p: "perform (se_kc env) eff ?k2 = (res, t)" by fastforce
    have run: "run_service env op i s = (res, s\<lparr>sy_store := t, sy_tick := sy_tick s + 2\<rparr>)"
      using r eff p by (simp add: run_service_eq Let_def)
    have step: "?K (?k2, H2) (t, case res of Inl e \<Rightarrow> H2 | Inr r' \<Rightarrow> insert r' H2)" by (rule kc_step.act [OF in2 eff p])
    have steps: "?K\<^sup>*\<^sup>* (sy_store s, H) (t, case res of Inl e \<Rightarrow> H2 | Inr r' \<Rightarrow> insert r' H2)"
      using h1 h2 step by (metis rtranclp.rtrancl_into_rtrancl rtranclp_trans)
    have "run_of i x t" if x: "res = Inr x" for x
    proof -
      have "kr_conclusion_id x = i" using perform_effect [OF kc_reachable_inv [OF r2] in2 eff p] x id
        by (auto simp: run_written_def run_step_def same_identity_def)
      moreover have "kc_reachable (se_kc env) (t, insert x H2)" using reachable_steps [OF reach steps] x by simp
      ultimately show ?thesis using seen_run_of [of "se_kc env" t "insert x H2" x] by simp
    qed
    then show ?thesis using steps run by auto
  qed
qed

lemma triple_ask:
  assumes "other_workers env"
  shows "triple env i P (ask_model env r q) (\<lambda>_ _. True)"
proof -
  have a: "triple env i (\<lambda>_. True) (thenM (write_audit env (kr_conclusion_id r) ''MODEL_FALLBACK'' [(''reason'', VStr ''MODEL_UNAVAILABLE'')])
      (\<lambda>_. liftM (Inr None))) (\<lambda>_ _. True)"
    by (rule triple_then [OF triple_audit [OF assms]]) (simp add: triple_lift)
  show ?thesis unfolding triple_def
  proof (intro allI impI)
    fix s :: "'a synth" and H assume reach: "kc_reachable (se_kc env) (sy_store s, H)" and i: "ks_runs (sy_store s) i \<noteq> None"
    obtain x w where c: "se_complete env q (sy_world s) = (x, w)" by fastforce
    show "(\<exists>H'. (kc_step (se_kc env))\<^sup>*\<^sup>* (sy_store s, H) (sy_store (snd (ask_model env r q s)), H'))
        \<and> (\<forall>x. fst (ask_model env r q s) = Inr x \<longrightarrow> True)"
    proof (cases "\<exists>e. x = Inl e \<and> exc_class e = ''StructuredModelUnavailable''")
      case True
      then have "ask_model env r q s = thenM (write_audit env (kr_conclusion_id r) ''MODEL_FALLBACK'' [(''reason'', VStr ''MODEL_UNAVAILABLE'')])
          (\<lambda>_. liftM (Inr None)) (s\<lparr>sy_world := w\<rparr>)" using c by (auto simp: ask_model_def)
      then show ?thesis using a [unfolded triple_def, rule_format, of "s\<lparr>sy_world := w\<rparr>" H] reach i by simp
    next
      case False
      then have "sy_store (snd (ask_model env r q s)) = sy_store s" using c by (auto simp: ask_model_def split: sum.splits)
      then show ?thesis by auto
    qed
  qed
qed

lemma triple_reject:
  assumes "other_workers env"
  shows "triple env i P (reject_binding env r) Q" and "triple env i P (reject_replacement env r) Q"
  unfolding reject_binding_def reject_replacement_def by (rule triple_then [OF triple_audit [OF assms]], simp)+

lemma triple_if: "(b \<Longrightarrow> triple env i P m Q) \<Longrightarrow> (\<not> b \<Longrightarrow> triple env i P n Q) \<Longrightarrow> triple env i P (if b then m else n) Q"
  by simp

lemma triple_pure: "(\<And>k. P k \<Longrightarrow> A) \<Longrightarrow> (A \<Longrightarrow> triple env i P m Q) \<Longrightarrow> triple env i P m Q"
  unfolding triple_def by blast

lemma triple_required: "triple env i (run_of i r) (liftM (required_result r)) (has_result i)"
  by (rule triple_lift) (auto simp: run_of_def required_result_def split: option.splits)

lemma triple_commit:
  assumes "other_workers env"
  shows "triple env i P (thenM (run_service env op i) (\<lambda>r. liftM (required_result r))) (has_result i)"
  by (rule triple_then [OF triple_service [OF assms] triple_required])

lemma triple_current:
  assumes "other_workers env"
  shows "triple env i P (current_bound env i expected) (\<lambda>x k. kr_conclusion_id (fst x) = i)"
  unfolding current_bound_def
proof (rule triple_then [OF triple_read [OF assms]])
  fix x
  show "triple env i (\<lambda>k. \<exists>r. x = Some r \<and> run_of i r k) (case x of None \<Rightarrow> raiseM concurrent_replacement
      | Some r \<Rightarrow> if captured env r \<noteq> expected then raiseM concurrent_replacement
          else liftM (bindR (unseal_attempts env r) (\<lambda>xs. Inr (r, xs)))) (\<lambda>x k. kr_conclusion_id (fst x) = i)"
    by (cases x) (auto intro!: triple_lift simp: run_of_def bindR_Inr_iff)
qed

lemma triple_validate:
  assumes "other_workers env"
  shows "triple env i P (validate_and_commit env i expected) (has_result i)"
proof -
  have a: "triple env i (run_of i v) (thenM (current_bound env (kr_conclusion_id v) expected) (\<lambda>(current, xs).
        if xs = [] then raiseM concurrent_replacement
        else (\<lambda>s. (bindR (model_conclusion env current (last xs) (se_clock env (sy_tick s))) (\<lambda>c. Inr (current, c)), s))))
      (\<lambda>y k. kr_conclusion_id (fst y) = i)" for v
  proof (rule triple_pure [where A = "kr_conclusion_id v = i"])
    assume v: "kr_conclusion_id v = i"
    show ?thesis unfolding v
    proof (rule triple_then [OF triple_current [OF assms]])
      fix x :: "kc_run \<times> attempt list"
      show "triple env i (\<lambda>k. kr_conclusion_id (fst x) = i) (case x of (current, xs) \<Rightarrow> if xs = [] then raiseM concurrent_replacement
        else (\<lambda>s. (bindR (model_conclusion env current (last xs) (se_clock env (sy_tick s))) (\<lambda>c. Inr (current, c)), s)))
        (\<lambda>y k. kr_conclusion_id (fst y) = i)"
        by (cases x) (auto intro!: triple_state simp: bindR_Inr_iff)
    qed
  qed (simp add: run_of_def)
  have b: "triple env i (\<lambda>k. kr_conclusion_id (fst y) = i) (case y of (current, c) \<Rightarrow> exceptM
       (thenM (run_service env (CommitGrounded c (Some expected)) (kr_conclusion_id current)) (\<lambda>r. liftM (required_result r)))
       (\<lambda>e. raiseM (if is_fence e then concurrent_replacement else e))) (has_result i)" for y
    by (rule triple_pure [where A = "kr_conclusion_id (fst y) = i"], assumption)
       (cases y, auto intro!: triple_except triple_commit [OF assms])
  show ?thesis unfolding validate_and_commit_def
    by (rule triple_then [OF triple_except [OF triple_then [OF triple_service [OF assms] a] triple_raise] b])
qed

lemma triple_commit_fallback:
  assumes "other_workers env" and "kr_conclusion_id r = i"
  shows "triple env i P (commit_fallback env r reason expected) (has_result i)"
proof (cases "kr_bundle r")
  case (Some b)
  show ?thesis unfolding commit_fallback_def Some option.case Let_def assms(2)
    by (rule triple_then [where Q = "\<lambda>_ _. True"], rule triple_state, rule TrueI,
        rule triple_then [OF triple_audit [OF assms(1)]], rule triple_except [OF triple_commit [OF assms(1)]],
        rule triple_if, rule triple_reject [OF assms(1)], rule triple_raise)
qed (simp add: commit_fallback_def)

lemma triple_fall_back:
  assumes "other_workers env" and "kr_conclusion_id r = i"
  shows "triple env i P (fall_back env r reason expected) (has_result i)"
  unfolding fall_back_def assms(2)
proof (rule triple_then [OF triple_read [OF assms(1)]])
  fix x
  let ?c = "case x of None \<Rightarrow> r | Some q \<Rightarrow> q"
  have start: "triple env i Q (if kr_state q = SYNTHESIZING
        then exceptM (run_service env (BeginValidation (Some expected)) (kr_conclusion_id q)) (\<lambda>e. raiseM (if is_conflict e then concurrent_replacement else e))
        else liftM (Inr q)) (\<lambda>y k. kr_conclusion_id y = i)" if q: "kr_conclusion_id q = i" for q Q
    unfolding q by (intro triple_if triple_except triple_lift triple_raise, rule triple_weaken [OF triple_service [OF assms(1)]])
      (auto simp: run_of_def q)
  have finish: "triple env i (\<lambda>k. kr_conclusion_id y = i) (if kr_state y \<noteq> VALIDATING then raiseM (ValueError ''FALLBACK_NOT_EXPECTED'')
        else commit_fallback env y reason expected) (has_result i)" for y
    by (rule triple_pure [where A = "kr_conclusion_id y = i"], assumption) (intro triple_if triple_raise triple_commit_fallback assms(1))
  show "triple env i (\<lambda>k. \<exists>q. x = Some q \<and> run_of i q k) (let current = ?c in
     if captured env current \<noteq> expected then reject_replacement env r
     else (case (kr_result current, kr_bundle current) of
         (Some c, _) \<Rightarrow> liftM (Inr c)
       | (None, None) \<Rightarrow> raiseM (ValueError ''BUNDLE_NOT_FROZEN'')
       | (None, Some _) \<Rightarrow>
           thenM (if kr_state current = SYNTHESIZING
                  then exceptM (run_service env (BeginValidation (Some expected)) (kr_conclusion_id current))
                         (\<lambda>e. raiseM (if is_conflict e then concurrent_replacement else e))
                  else liftM (Inr current)) (\<lambda>current.
           if kr_state current \<noteq> VALIDATING then raiseM (ValueError ''FALLBACK_NOT_EXPECTED'')
           else commit_fallback env current reason expected))) (has_result i)"
  proof (rule triple_pure [where A = "\<exists>q. x = Some q \<and> kr_conclusion_id q = i"])
    assume "\<exists>q. x = Some q \<and> kr_conclusion_id q = i"
    then obtain q where x: "x = Some q" and q: "kr_conclusion_id q = i" by blast
    show ?thesis unfolding Let_def x option.case
    proof (rule triple_if)
      show "triple env i P' (reject_replacement env r) (has_result i)" for P' by (rule triple_reject [OF assms(1)])
      show "triple env i (\<lambda>k. \<exists>q'. Some q = Some q' \<and> run_of i q' k) (case (kr_result q, kr_bundle q) of
         (Some c, _) \<Rightarrow> liftM (Inr c)
       | (None, None) \<Rightarrow> raiseM (ValueError ''BUNDLE_NOT_FROZEN'')
       | (None, Some _) \<Rightarrow>
           thenM (if kr_state q = SYNTHESIZING
                  then exceptM (run_service env (BeginValidation (Some expected)) (kr_conclusion_id q))
                         (\<lambda>e. raiseM (if is_conflict e then concurrent_replacement else e))
                  else liftM (Inr q)) (\<lambda>current.
           if kr_state current \<noteq> VALIDATING then raiseM (ValueError ''FALLBACK_NOT_EXPECTED'')
           else commit_fallback env current reason expected)) (has_result i)"
      proof (cases "kr_result q")
        case (Some c)
        then show ?thesis by (auto intro!: triple_lift simp: run_of_def)
      next
        case None
        show ?thesis by (cases "kr_bundle q", simp add: None) (simp only: None prod.case option.case, rule triple_then [OF start [OF q] finish])
      qed
    qed
  qed (auto simp: run_of_def)
qed

lemma triple_repair:
  assumes "other_workers env" and "kr_conclusion_id r = i"
  shows "triple env i P (repair_attempt env r primary) (has_result i)"
  unfolding repair_attempt_def assms(2)
proof (rule triple_then)
  show "triple env i P (exceptM (current_bound env i primary) (\<lambda>e. if is_replacement e then reject_replacement env r else raiseM e))
      (\<lambda>x k. kr_conclusion_id (fst x) = i)"
    by (intro triple_except triple_current triple_if triple_reject triple_raise assms(1))
next
  fix x :: "kc_run \<times> attempt list"
  obtain current xs where x: "x = (current, xs)" by (cases x)
  have last: "triple env i (run_of i sealed) (exceptM (thenM (current_bound env (kr_conclusion_id sealed) (captured env sealed)) (\<lambda>(cur, ys).
                    if ys = [] then raiseM (PyExc ''IndexError'' ''tuple index out of range'') else validate_and_commit env (kr_conclusion_id cur) (captured env sealed)))
           (\<lambda>e. if is_binding e then reject_binding env sealed
                else if is_replacement e then reject_replacement env sealed
                else if is_unusable e then fall_back env sealed ''MODEL_REPAIR_FAILED'' (captured env sealed)
                else raiseM e)) (has_result i)" for sealed
  proof (rule triple_pure [where A = "kr_conclusion_id sealed = i"])
    assume s: "kr_conclusion_id sealed = i"
    have inner: "triple env i (\<lambda>k. kr_conclusion_id (fst y) = i) (case y of (cur, ys) \<Rightarrow>
        if ys = [] then raiseM (PyExc ''IndexError'' ''tuple index out of range'') else validate_and_commit env (kr_conclusion_id cur) (captured env sealed))
        (has_result i)" for y :: "kc_run \<times> attempt list"
      by (rule triple_pure [where A = "kr_conclusion_id (fst y) = i"], assumption) (cases y, auto intro!: triple_validate [OF assms(1)])
    show ?thesis unfolding s
      by (intro triple_except triple_then [OF triple_current [OF assms(1)] inner] triple_if triple_reject triple_fall_back triple_raise assms(1) s)
  qed (simp add: run_of_def)
  show "triple env i (\<lambda>k. kr_conclusion_id (fst x) = i) (case x of (current, xs) \<Rightarrow>
     if length xs \<noteq> 1 then reject_replacement env r
     else thenM (liftM (repair_request (se_kc env) current (hd xs))) (\<lambda>q.
     thenM (ask_model env current q) (\<lambda>answer. case answer of
       None \<Rightarrow> fall_back env r ''MODEL_REPAIR_FAILED'' primary
     | Some a \<Rightarrow>
         thenM (exceptM (thenM (liftM (seal_attempt env REPAIR a current)) (\<lambda>row. run_service env (SealAttempt row (Some primary)) (kr_conclusion_id current)))
                  (\<lambda>e. if is_fence e then reject_replacement env current else raiseM e)) (\<lambda>sealed.
         exceptM (thenM (current_bound env (kr_conclusion_id sealed) (captured env sealed)) (\<lambda>(cur, ys).
                    if ys = [] then raiseM (PyExc ''IndexError'' ''tuple index out of range'') else validate_and_commit env (kr_conclusion_id cur) (captured env sealed)))
           (\<lambda>e. if is_binding e then reject_binding env sealed
                else if is_replacement e then reject_replacement env sealed
                else if is_unusable e then fall_back env sealed ''MODEL_REPAIR_FAILED'' (captured env sealed)
                else raiseM e))))) (has_result i)"
  proof (rule triple_pure [where A = "kr_conclusion_id (fst x) = i"], assumption)
    assume "kr_conclusion_id (fst x) = i"
    then have c: "kr_conclusion_id current = i" by (simp add: x)
    have seal: "triple env i Q (exceptM (thenM (liftM (seal_attempt env REPAIR a current)) (\<lambda>row. run_service env (SealAttempt row (Some primary)) i))
                  (\<lambda>e. if is_fence e then reject_replacement env current else raiseM e)) (run_of i)" for a Q
      by (intro triple_except triple_if triple_reject triple_raise assms(1), rule triple_then [where Q = "\<lambda>_ _. True"], rule triple_lift, rule TrueI,
          rule triple_service [OF assms(1)])
    show ?thesis unfolding x prod.case c
      apply (intro triple_if triple_reject assms(1))
      apply (rule triple_then [where Q = "\<lambda>_ _. True"], rule triple_lift, rule TrueI)
      apply (rule triple_then [OF triple_ask [OF assms(1)]])
      subgoal for q answer
        by (cases answer) (simp_all add: triple_fall_back [OF assms] triple_then [OF seal last])
      done
  qed
qed

lemma triple_resume:
  assumes "other_workers env" and "kr_conclusion_id r = i"
  shows "triple env i P (resume_sealed env r xs) (has_result i)"
  unfolding resume_sealed_def assms(2)
  by (intro triple_if triple_raise triple_except triple_validate triple_reject triple_repair triple_fall_back assms)

lemma triple_primary:
  assumes "other_workers env" and "kr_conclusion_id r = i"
  shows "triple env i P (call_primary env r) (has_result i)"
  unfolding call_primary_def assms(2)
proof (rule triple_then [where Q = "\<lambda>_ _. True"], rule triple_lift, rule TrueI, rule triple_then [OF triple_ask [OF assms(1)]])
  fix answer
  have resume: "triple env i (run_of i sealed) (thenM (liftM (unseal_attempts env sealed)) (\<lambda>xs. resume_sealed env sealed xs)) (has_result i)" for sealed
    by (rule triple_pure [where A = "kr_conclusion_id sealed = i"], simp add: run_of_def)
       (rule triple_then [where Q = "\<lambda>_ _. True"], rule triple_lift, rule TrueI, rule triple_resume [OF assms(1)])
  show "triple env i (\<lambda>k. True) (case answer of
       None \<Rightarrow> fall_back env r ''MODEL_UNAVAILABLE'' (captured env r)
     | Some a \<Rightarrow> thenM (liftM (seal_attempt env PRIMARY a r)) (\<lambda>row.
         thenM (run_service env (SealAttempt row None) i) (\<lambda>sealed.
         thenM (liftM (unseal_attempts env sealed)) (\<lambda>xs. resume_sealed env sealed xs)))) (has_result i)"
  proof (cases answer)
    case (Some a)
    show ?thesis unfolding Some option.case
      by (rule triple_then [where Q = "\<lambda>_ _. True"], rule triple_lift, rule TrueI, rule triple_then [OF triple_service [OF assms(1)] resume])
  qed (simp add: triple_fall_back [OF assms])
qed

lemma triple_conclude_run:
  assumes "other_workers env" and "kr_conclusion_id r = i"
  shows "triple env i P (conclude_run env r) (has_result i)"
proof -
  have w: "triple env i P (with_sealed env r k x) (has_result i)" if "\<And>xs. triple env i P (k xs) (has_result i)" for k and x :: "'z result"
    unfolding with_sealed_def by (cases x) (use that in \<open>auto intro!: triple_if triple_reject triple_fall_back triple_raise assms\<close>)
  show ?thesis unfolding conclude_run_def
    by (intro triple_if triple_raise w triple_resume triple_fall_back triple_primary assms)
qed

text \<open>C22: A returned conclusion is the committed one. Whatever the other workers do in between and whatever
  the model answers, when \<open>conclude\<close> returns a conclusion the stored run has succeeded with exactly this
  conclusion as its result; and all it did to the store are steps of the run service.\<close>

theorem conclude_returns_committed:
  assumes "other_workers env" and "kc_reachable (se_kc env) (sy_store s, H)" and "ks_runs (sy_store s) i \<noteq> None"
    and "conclude env i worker s = (Inr c, s')"
  shows "\<exists>r H'. ks_runs (sy_store s') i = Some r \<and> kr_state r = SUCCEEDED \<and> kr_result r = Some c
    \<and> (kc_step (se_kc env))\<^sup>*\<^sup>* (sy_store s, H) (sy_store s', H')"
proof -
  have "triple env i (\<lambda>_. True) (conclude env i worker) (has_result i)"
    unfolding conclude_def
  proof (rule triple_then [OF triple_read [OF assms(1)]])
    fix x
    show "triple env i (\<lambda>k. \<exists>r. x = Some r \<and> run_of i r k) (case x of None \<Rightarrow> raiseM (KeyError i)
       | Some r \<Rightarrow> (case (kr_result r, kr_bundle r) of (Some c, _) \<Rightarrow> liftM (Inr c)
         | (None, None) \<Rightarrow> raiseM (ValueError ''BUNDLE_NOT_FROZEN'')
         | (None, Some _) \<Rightarrow> thenM (if kr_state r = BUNDLE_FROZEN then run_service env (BeginSynthesis worker) i else liftM (Inr r)) (conclude_run env)))
       (has_result i)"
    proof (cases x)
      case (Some r)
      have go: "triple env i (\<lambda>k. kr_conclusion_id y = i) (conclude_run env y) (has_result i)" for y
        by (rule triple_pure [where A = "kr_conclusion_id y = i"], assumption) (rule triple_conclude_run [OF assms(1)])
      have start: "triple env i (run_of i r) (if kr_state r = BUNDLE_FROZEN then run_service env (BeginSynthesis worker) i else liftM (Inr r))
          (\<lambda>y k. kr_conclusion_id y = i)"
        by (intro triple_if triple_lift, rule triple_weaken [OF triple_service [OF assms(1)]]) (auto simp: run_of_def)
      show ?thesis
      proof (cases "kr_result r")
        case None
        then show ?thesis using triple_then [OF start go] by (cases "kr_bundle r") (simp_all add: Some)
      next
        case (Some c')
        then show ?thesis by (auto intro!: triple_lift simp: \<open>x = Some r\<close> run_of_def)
      qed
    qed simp
  qed
  then obtain H' where "(kc_step (se_kc env))\<^sup>*\<^sup>* (sy_store s, H) (sy_store s', H')" "has_result i c (sy_store s')"
    using assms(2-4) unfolding triple_def by (metis fst_conv snd_conv)
  then show ?thesis by (auto simp: has_result_def)
qed

text \<open>A run with a frozen bundle and a provider that answers with one cited finding.\<close>

definition demo_payload :: model_payload where
  "demo_payload = \<lparr>mp_verdict = SUPPORTED, mp_stance = UNCERTAIN, mp_findings = [demo_finding], mp_summary_index = 0, mp_conditions = [], mp_risks = [],
     mp_contradictions = [], mp_limitations = []\<rparr>"

definition answer_env :: "nat synth_env" where
  "answer_env = \<lparr>se_kc = demo_env, se_others = (\<lambda>_ k. k), se_clock = (\<lambda>n. Aware 9), se_uuid = (\<lambda>n. ''u''),
     se_complete = (\<lambda>_ w. (Inr \<lparr>ma_json = VDict [(''x'', VInt 1)], ma_response_id = ''r'', ma_provider = ''p'', ma_model = ''m''\<rparr>, w + 1)),
     se_base64 = id, se_load = (\<lambda>_. Inr (VDict [(''x'', VInt 1)])), se_read_payload = (\<lambda>_. Inr demo_payload)\<rparr>"

definition frozen_start :: "nat synth option" where
  "frozen_start = (case play demo_env [RequestBundle, FreezeBundle demo_frozen] (Aware 2) demo_run demo_store of
     Inl _ \<Rightarrow> None | Inr (r, k) \<Rightarrow> Some \<lparr>sy_store = k, sy_world = 0, sy_tick = 0\<rparr>)"

lemma answer_concludes: "(case frozen_start of None \<Rightarrow> False | Some s \<Rightarrow> (case conclude answer_env ''c1'' ''w'' s of (Inl _, _) \<Rightarrow> False
    | (Inr c, t) \<Rightarrow> kc_findings c = [demo_finding] \<and> cm_mode (kc_model c) = MODEL \<and> sy_world t = 1))"
  by code_simp

lemma answer_start:
  obtains s H c t where "frozen_start = Some s" "kc_reachable demo_env (sy_store s, H)" "ks_runs (sy_store s) ''c1'' \<noteq> None"
    and "conclude answer_env ''c1'' ''w'' s = (Inr c, t)" and "kc_findings c = [demo_finding]"
proof -
  obtain s c t where s: "frozen_start = Some s" and c: "conclude answer_env ''c1'' ''w'' s = (Inr c, t)" "kc_findings c = [demo_finding]"
    using answer_concludes by (auto split: option.splits prod.splits sum.splits)
  obtain r k where p: "play demo_env [RequestBundle, FreezeBundle demo_frozen] (Aware 2) demo_run demo_store = Inr (r, k)" and k: "sy_store s = k"
    using s by (auto simp: frozen_start_def split: sum.splits)
  from play_reachable [OF demo_start(1) _ demo_start(2) p] obtain H where "kc_reachable demo_env (k, H)" "ks_runs k (kr_conclusion_id demo_run) = Some r"
    by auto
  then show ?thesis using that [OF s _ _ c] k demo_start(3) by auto
qed

lemma answer_alone: "other_workers answer_env"
  by (auto simp: other_workers_def answer_env_def)

theorem conclude_returns_committed_witness:
  "\<exists>s c t r. frozen_start = Some s \<and> conclude answer_env ''c1'' ''w'' s = (Inr c, t)
     \<and> ks_runs (sy_store t) ''c1'' = Some r \<and> kr_state r = SUCCEEDED \<and> kr_result r = Some c"
proof -
  obtain s H c t where d: "frozen_start = Some s" "kc_reachable demo_env (sy_store s, H)" "ks_runs (sy_store s) ''c1'' \<noteq> None"
    "conclude answer_env ''c1'' ''w'' s = (Inr c, t)" by (rule answer_start)
  have "kc_reachable (se_kc answer_env) (sy_store s, H)" using d(2) by (simp add: answer_env_def)
  from conclude_returns_committed [OF answer_alone this d(3,4)] d show ?thesis by blast
qed

subsection \<open>Calls of the model\<close>

definition calls_at_most :: "('w \<Rightarrow> nat) \<Rightarrow> nat \<Rightarrow> ('a, 'w) synth_op \<Rightarrow> bool" where
  "calls_at_most cnt n m \<longleftrightarrow> (\<forall>s. cnt (sy_world (snd (m s))) \<le> cnt (sy_world s) + n)"

lemma calls_free [simp]: "calls_at_most cnt n (liftM r)" "calls_at_most cnt n (raiseM e)" "calls_at_most cnt n (\<lambda>s. (f s, s))"
  by (simp_all add: calls_at_most_def liftM_def raiseM_def)

lemma calls_then:
  assumes "calls_at_most cnt n m" and "\<And>x. calls_at_most cnt k (f x)"
  shows "calls_at_most cnt (n + k) (thenM m f)"
  unfolding calls_at_most_def
proof
  fix s
  obtain x t where m: "m s = (x, t)" by fastforce
  have a: "cnt (sy_world t) \<le> cnt (sy_world s) + n" using assms(1) m unfolding calls_at_most_def by (metis snd_conv)
  show "cnt (sy_world (snd (thenM m f s))) \<le> cnt (sy_world s) + (n + k)"
  proof (cases x)
    case (Inr y)
    have "cnt (sy_world (snd (f y t))) \<le> cnt (sy_world t) + k" using assms(2) [of y] unfolding calls_at_most_def by blast
    then show ?thesis using a Inr by (simp add: thenM_def m)
  qed (use a in \<open>simp add: thenM_def m\<close>)
qed

lemma calls_then0: "calls_at_most cnt 0 m \<Longrightarrow> (\<And>x. calls_at_most cnt k (f x)) \<Longrightarrow> calls_at_most cnt k (thenM m f)"
  using calls_then [of cnt 0 m k f] by simp

lemma calls_except:
  assumes "calls_at_most cnt n m" and "\<And>e. calls_at_most cnt k (h e)"
  shows "calls_at_most cnt (n + k) (exceptM m h)"
  unfolding calls_at_most_def
proof
  fix s
  obtain x t where m: "m s = (x, t)" by fastforce
  have a: "cnt (sy_world t) \<le> cnt (sy_world s) + n" using assms(1) m unfolding calls_at_most_def by (metis snd_conv)
  show "cnt (sy_world (snd (exceptM m h s))) \<le> cnt (sy_world s) + (n + k)"
  proof (cases x)
    case (Inl e)
    have "cnt (sy_world (snd (h e t))) \<le> cnt (sy_world t) + k" using assms(2) [of e] unfolding calls_at_most_def by blast
    then show ?thesis using a Inl by (simp add: exceptM_def m)
  qed (use a in \<open>simp add: exceptM_def m\<close>)
qed

lemma calls_except0: "calls_at_most cnt 0 m \<Longrightarrow> (\<And>e. calls_at_most cnt k (h e)) \<Longrightarrow> calls_at_most cnt k (exceptM m h)"
  using calls_except [of cnt 0 m k h] by simp

lemma calls_if: "calls_at_most cnt n m \<Longrightarrow> calls_at_most cnt n k \<Longrightarrow> calls_at_most cnt n (if b then m else k)"
  by simp

lemma calls_access [simp]: "calls_at_most cnt n (access env f)"
  by (simp add: calls_at_most_def access_def split: prod.splits)

lemma calls_repo [simp]: "calls_at_most cnt n (read_run env i)" "calls_at_most cnt n (write_audit env i mode d)" "calls_at_most cnt n (run_service env op i)"
  by (auto simp: calls_at_most_def read_run_def write_audit_def access_def run_service_eq Let_def split: prod.splits option.splits sum.splits)

lemma calls_reject [simp]: "calls_at_most cnt n (reject_binding env r)" "calls_at_most cnt n (reject_replacement env r)"
  unfolding reject_binding_def reject_replacement_def by (rule calls_then0, simp, simp)+

lemma calls_current [simp]: "calls_at_most cnt n (current_bound env i expected)"
  unfolding current_bound_def by (rule calls_then0) (auto split: option.splits)

lemma calls_validate [simp]: "calls_at_most cnt n (validate_and_commit env i expected)"
  unfolding validate_and_commit_def
  by (rule calls_then0, rule calls_except0, rule calls_then0, simp, rule calls_then0)
     (auto split: prod.splits intro!: calls_except0 calls_then0)

lemma calls_commit_fallback [simp]: "calls_at_most cnt n (commit_fallback env r reason expected)"
  unfolding commit_fallback_def Let_def
  by (auto split: option.splits intro!: calls_then0 [where f = "\<lambda>c. thenM (write_audit env u v w) (g c)" for u v w g] calls_then0 calls_except0 calls_if)

lemma calls_fall_back [simp]: "calls_at_most cnt n (fall_back env r reason expected)"
  unfolding fall_back_def Let_def
  by (rule calls_then0, simp) (auto split: option.splits intro!: calls_then0 calls_except0 calls_if)

definition counted :: "'w synth_env \<Rightarrow> ('w \<Rightarrow> nat) \<Rightarrow> bool" where
  "counted env cnt \<longleftrightarrow> (\<forall>q w. cnt (snd (se_complete env q w)) \<le> cnt w + 1)"

lemma calls_ask:
  fixes env :: "'w synth_env"
  assumes "counted env cnt"
  shows "calls_at_most cnt 1 (ask_model env r q)"
  unfolding calls_at_most_def
proof
  fix s :: "'w synth"
  let ?fall = "thenM (write_audit env (kr_conclusion_id r) ''MODEL_FALLBACK'' [(''reason'', VStr ''MODEL_UNAVAILABLE'')])
     (\<lambda>_. liftM (Inr None :: model_answer option result))"
  obtain x w where c: "se_complete env q (sy_world s) = (x, w)" by fastforce
  have w: "cnt w \<le> cnt (sy_world s) + 1" using assms c unfolding counted_def by (metis snd_conv)
  have "calls_at_most cnt 0 ?fall" by (rule calls_then0) simp_all
  from this [unfolded calls_at_most_def, rule_format, of "s\<lparr>sy_world := w\<rparr>"]
  have "cnt (sy_world (snd (?fall (s\<lparr>sy_world := w\<rparr>)))) \<le> cnt w" by simp
  then show "cnt (sy_world (snd (ask_model env r q s))) \<le> cnt (sy_world s) + 1"
    using w by (cases x) (auto simp: ask_model_def c)
qed

lemma calls_repair:
  assumes "counted env cnt"
  shows "calls_at_most cnt 1 (repair_attempt env r primary)"
proof -
  have rest: "calls_at_most cnt 0 (case answer of
       None \<Rightarrow> fall_back env r ''MODEL_REPAIR_FAILED'' primary
     | Some a \<Rightarrow>
         thenM (exceptM (thenM (liftM (seal_attempt env REPAIR a current)) (\<lambda>row. run_service env (SealAttempt row (Some primary)) (kr_conclusion_id current)))
                  (\<lambda>e. if is_fence e then reject_replacement env current else raiseM e)) (\<lambda>sealed.
         exceptM (thenM (current_bound env (kr_conclusion_id sealed) (captured env sealed)) (\<lambda>(cur, ys).
                    if ys = [] then raiseM (PyExc ''IndexError'' ''tuple index out of range'') else validate_and_commit env (kr_conclusion_id cur) (captured env sealed)))
           (\<lambda>e. if is_binding e then reject_binding env sealed
                else if is_replacement e then reject_replacement env sealed
                else if is_unusable e then fall_back env sealed ''MODEL_REPAIR_FAILED'' (captured env sealed)
                else raiseM e)))" for answer current
    by (cases answer) (auto intro!: calls_then0 calls_except0 calls_if split: prod.splits)
  have ask: "calls_at_most cnt 1 (thenM (ask_model env current q) k)" if "\<And>x. calls_at_most cnt 0 (k x)"
    for current q and k :: "model_answer option \<Rightarrow> (conclusion, 'a) synth_op"
    using calls_then [OF calls_ask [OF assms] that] by simp
  show ?thesis unfolding repair_attempt_def
    apply (rule calls_then0, rule calls_except0, simp, simp)
    subgoal for x
      by (cases x) (auto simp del: One_nat_def intro!: calls_if calls_then0 [OF calls_free(1)] ask rest)
    done
qed

lemma calls_resume:
  assumes "counted env cnt"
  shows "calls_at_most cnt 1 (resume_sealed env r xs)"
  unfolding resume_sealed_def by (intro calls_if calls_free calls_except0 calls_validate calls_reject calls_fall_back calls_repair assms)

lemma calls_primary:
  assumes "counted env cnt"
  shows "calls_at_most cnt 2 (call_primary env r)"
proof -
  have rest: "calls_at_most cnt 1 (case answer of
       None \<Rightarrow> fall_back env r ''MODEL_UNAVAILABLE'' (captured env r)
     | Some a \<Rightarrow> thenM (liftM (seal_attempt env PRIMARY a r)) (\<lambda>row.
         thenM (run_service env (SealAttempt row None) (kr_conclusion_id r)) (\<lambda>sealed.
         thenM (liftM (unseal_attempts env sealed)) (\<lambda>xs. resume_sealed env sealed xs))))" for answer
    by (cases answer) (auto simp del: One_nat_def intro!: calls_then0 calls_resume assms)
  have "calls_at_most cnt (1 + 1) (thenM (ask_model env r q) (\<lambda>answer. case answer of
       None \<Rightarrow> fall_back env r ''MODEL_UNAVAILABLE'' (captured env r)
     | Some a \<Rightarrow> thenM (liftM (seal_attempt env PRIMARY a r)) (\<lambda>row.
         thenM (run_service env (SealAttempt row None) (kr_conclusion_id r)) (\<lambda>sealed.
         thenM (liftM (unseal_attempts env sealed)) (\<lambda>xs. resume_sealed env sealed xs)))))" for q
    by (rule calls_then [OF calls_ask [OF assms] rest])
  then show ?thesis unfolding call_primary_def one_add_one by (rule calls_then0 [OF calls_free(1)])
qed

text \<open>The model is called at most twice. One call of \<open>conclude\<close> makes at most one primary and one
  repair request, whatever happens to the store meanwhile, and none when the run has its result.\<close>

theorem conclude_calls_bounded:
  assumes "counted env cnt" and "conclude env i worker s = (res, s')"
  shows "cnt (sy_world s') \<le> cnt (sy_world s) + 2
    \<and> (\<forall>r. ks_runs (se_others env (sy_tick s) (sy_store s)) i = Some r \<longrightarrow> kr_result r \<noteq> None \<longrightarrow> sy_world s' = sy_world s)"
proof -
  have mono: "calls_at_most cnt 2 (resume_sealed env r xs)" for r xs
    using calls_resume [OF assms(1), of r xs] unfolding calls_at_most_def by (meson add_le_mono le_refl le_trans one_le_numeral)
  have w: "calls_at_most cnt 2 (with_sealed env r k x)" if "\<And>xs. calls_at_most cnt 2 (k xs)" for r k and x :: "'z result"
    unfolding with_sealed_def by (cases x) (auto intro!: calls_if that)
  have run: "calls_at_most cnt 2 (conclude_run env r)" for r
    unfolding conclude_run_def by (intro calls_if calls_free w calls_fall_back mono calls_primary assms(1))
  have "calls_at_most cnt 2 (conclude env i worker)"
    unfolding conclude_def by (rule calls_then0, simp) (auto split: option.splits intro!: calls_then0 calls_if run)
  then have "cnt (sy_world s') \<le> cnt (sy_world s) + 2" using assms(2) unfolding calls_at_most_def by (metis snd_conv)
  moreover have "sy_world s' = sy_world s" if "ks_runs (se_others env (sy_tick s) (sy_store s)) i = Some r" "kr_result r \<noteq> None" for r
    using assms(2) that by (auto simp: conclude_def thenM_def read_run_def access_def liftM_def)
  ultimately show ?thesis by blast
qed

theorem conclude_calls_bounded_witness:
  "\<exists>s c t. frozen_start = Some s \<and> conclude answer_env ''c1'' ''w'' s = (Inr c, t) \<and> sy_world t \<le> sy_world s + 2"
proof -
  obtain s H c t where d: "frozen_start = Some s" "kc_reachable demo_env (sy_store s, H)" "ks_runs (sy_store s) ''c1'' \<noteq> None"
    "conclude answer_env ''c1'' ''w'' s = (Inr c, t)" by (rule answer_start)
  have "counted answer_env id" by (simp add: counted_def answer_env_def)
  from conclude_calls_bounded [OF this d(4)] d show ?thesis by auto
qed

subsection \<open>Progress without a model\<close>



lemma or_default_same [simp]: "or_default (Some x) x = x"
  by (simp add: or_default_def)





lemma audit_keeps_runs [simp]: "ks_runs (snd (repo_audit u i mode d k)) = ks_runs k"
  by (simp add: repo_audit_def)



















end
