(* ===== verification/RegimeMachine.thy ===== *)
theory RegimeMachine
  imports Grounding
begin

text \<open>
  The persistent regime state machine (\<open>engines/regime/regime_state_machine.py\<close>) over its repository
  (\<open>MarketRegimeRepository\<close> of \<open>storage/repositories/research_repository.py\<close>): one row per market and
  the history of its periods. A trading date is a day number; \<open>normalize_trading_date\<close> has been applied
  to \<open>as_of\<close> by the caller of the definitions. Of several open periods with the same start the query
  may return any; the model takes the first, and the invariant shows that there is only one.
\<close>

subsection \<open>State\<close>

record regime_row =
  mr_confirmed :: string
  mr_since :: int
  mr_candidate :: "string option"
  mr_candidate_since :: "int option"
  mr_candidate_days :: int
  mr_last :: "int option"
  mr_confirmed_days :: int
  mr_confidence :: "pyfloat option"
  mr_features :: mapping
  mr_reason :: mapping

record regime_period =
  rp_market :: string
  rp_previous :: "string option"
  rp_new :: string
  rp_started :: int
  rp_ended :: "int option"
  rp_confidence :: "pyfloat option"
  rp_evidence :: mapping

record regime_store =
  rs_states :: "string \<rightharpoonup> regime_row"
  rs_history :: "regime_period list"

definition empty_regime_store :: regime_store where
  "empty_regime_store = \<lparr>rs_states = Map.empty, rs_history = []\<rparr>"

record regime_config =
  cf_days :: "string \<rightharpoonup> int"
  cf_min_days :: int
  cf_gap :: pyfloat
  cf_emergency :: "string list"

definition default_confirmation_days :: "string \<rightharpoonup> int" where
  "default_confirmation_days = [''high_position_retreat'' \<mapsto> 1, ''downtrend_market'' \<mapsto> 2, ''crowding_market'' \<mapsto> 2,
     ''rotation_market'' \<mapsto> 2, ''range_market'' \<mapsto> 3]"

definition default_emergency :: "string list" where
  "default_emergency = [''high_position_retreat'', ''downtrend_market'']"

definition regime_machine :: "(string \<rightharpoonup> int) \<Rightarrow> int \<Rightarrow> pyfloat \<Rightarrow> string list \<Rightarrow> regime_config" where
  "regime_machine days min_days gap emergency = \<lparr>cf_days = default_confirmation_days ++ days, cf_min_days = min_days, cf_gap = gap,
     cf_emergency = (if emergency = [] then default_emergency else emergency)\<rparr>"

subsection \<open>The repository\<close>

definition save_state :: "string \<Rightarrow> regime_row \<Rightarrow> regime_store \<Rightarrow> regime_store" where
  "save_state m row s = s\<lparr>rs_states := (rs_states s)(m \<mapsto> row)\<rparr>"

definition add_history :: "regime_period \<Rightarrow> regime_store \<Rightarrow> regime_store" where
  "add_history p s = s\<lparr>rs_history := rs_history s @ [p]\<rparr>"

definition open_period :: "string \<Rightarrow> regime_period \<Rightarrow> bool" where
  "open_period m p \<longleftrightarrow> rp_market p = m \<and> rp_ended p = None"

fun latest_started :: "regime_period list \<Rightarrow> regime_period option" where
  "latest_started [] = None"
| "latest_started (p # ps) = (case latest_started ps of None \<Rightarrow> Some p | Some q \<Rightarrow> if rp_started p \<ge> rp_started q then Some p else Some q)"

fun close_first :: "regime_period \<Rightarrow> int \<Rightarrow> regime_period list \<Rightarrow> regime_period list" where
  "close_first a d [] = []"
| "close_first a d (p # ps) = (if p = a then p\<lparr>rp_ended := Some d\<rparr> # ps else p # close_first a d ps)"

definition close_active_history :: "string \<Rightarrow> int \<Rightarrow> regime_store \<Rightarrow> regime_store" where
  "close_active_history m d s = (case latest_started (filter (open_period m) (rs_history s)) of
     None \<Rightarrow> s | Some a \<Rightarrow> s\<lparr>rs_history := close_first a d (rs_history s)\<rparr>)"

subsection \<open>One evaluation\<close>

record regime_response =
  rr_previous :: "string option"
  rr_candidate :: string
  rr_confirmed :: string
  rr_since :: int
  rr_status :: string
  rr_candidate_days :: int
  rr_confirmed_days :: int
  rr_last :: "int option"
  rr_switched :: bool

definition response :: "string option \<Rightarrow> regime_row \<Rightarrow> string \<Rightarrow> string \<Rightarrow> bool \<Rightarrow> regime_response" where
  "response previous row candidate status switched =
     \<lparr>rr_previous = previous, rr_candidate = candidate, rr_confirmed = mr_confirmed row, rr_since = mr_since row, rr_status = status,
      rr_candidate_days = mr_candidate_days row, rr_confirmed_days = mr_confirmed_days row, rr_last = mr_last row, rr_switched = switched\<rparr>"

definition reason :: "mapping \<Rightarrow> mapping \<Rightarrow> mapping" where
  "reason base evidence = merged base evidence"

definition count_days :: "int \<Rightarrow> int" where
  "count_days d = (if d = 0 then 1 else d)"

definition required_days :: "regime_config \<Rightarrow> string \<Rightarrow> int" where
  "required_days cfg c = (case cf_days cfg c of None \<Rightarrow> 2 | Some n \<Rightarrow> n)"

definition is_emergency :: "regime_config \<Rightarrow> string \<Rightarrow> bool" where
  "is_emergency cfg c \<longleftrightarrow> c \<in> set (cf_emergency cfg)"

definition confidence_ok :: "regime_config \<Rightarrow> string \<Rightarrow> pyfloat option \<Rightarrow> pyfloat option \<Rightarrow> bool" where
  "confidence_ok cfg c confidence old \<longleftrightarrow> is_emergency cfg c \<or> (case (confidence, old) of
     (Some new, Some o') \<Rightarrow> f_le (f_add o' (cf_gap cfg)) new | _ \<Rightarrow> True)"

definition duration_ok :: "regime_config \<Rightarrow> string \<Rightarrow> int \<Rightarrow> bool" where
  "duration_ok cfg c days \<longleftrightarrow> is_emergency cfg c \<or> cf_min_days cfg \<le> count_days days"

record evaluation =
  ev_market :: string
  ev_candidate :: string
  ev_date :: int
  ev_confidence :: "pyfloat option"
  ev_features :: mapping
  ev_reason :: mapping

definition first_row :: "evaluation \<Rightarrow> regime_row" where
  "first_row e = \<lparr>mr_confirmed = ev_candidate e, mr_since = ev_date e, mr_candidate = None, mr_candidate_since = None, mr_candidate_days = 0,
     mr_last = Some (ev_date e), mr_confirmed_days = 1, mr_confidence = ev_confidence e, mr_features = ev_features e,
     mr_reason = reason [(''reason'', VStr ''initial_classification'')] (ev_reason e)\<rparr>"

definition same_day_row :: "evaluation \<Rightarrow> regime_row \<Rightarrow> regime_row" where
  "same_day_row e row = row\<lparr>mr_features := ev_features e, mr_reason := reason [(''reason'', VStr ''same_trading_day_evidence_update'')] (ev_reason e)\<rparr>"

definition counted_row :: "evaluation \<Rightarrow> regime_row \<Rightarrow> regime_row" where
  "counted_row e row = row\<lparr>mr_features := ev_features e, mr_last := Some (ev_date e), mr_confirmed_days := count_days (mr_confirmed_days row) + 1\<rparr>"

definition reaffirmed_row :: "evaluation \<Rightarrow> regime_row \<Rightarrow> regime_row" where
  "reaffirmed_row e row = row\<lparr>mr_candidate := None, mr_candidate_since := None, mr_candidate_days := 0, mr_confidence := ev_confidence e,
     mr_reason := reason [(''reason'', VStr ''confirmed_regime_reaffirmed'')] (ev_reason e)\<rparr>"

definition candidate_row :: "evaluation \<Rightarrow> regime_row \<Rightarrow> regime_row" where
  "candidate_row e row = (if mr_candidate row = Some (ev_candidate e) then row\<lparr>mr_candidate_days := mr_candidate_days row + 1\<rparr>
     else row\<lparr>mr_candidate := Some (ev_candidate e), mr_candidate_since := Some (ev_date e), mr_candidate_days := 1\<rparr>)"

definition switched_row :: "regime_config \<Rightarrow> evaluation \<Rightarrow> regime_row \<Rightarrow> regime_row" where
  "switched_row cfg e row = row\<lparr>mr_confirmed := ev_candidate e, mr_since := ev_date e, mr_confidence := ev_confidence e, mr_candidate := None,
     mr_candidate_since := None, mr_candidate_days := 0, mr_confirmed_days := 1,
     mr_reason := reason [(''reason'', VStr (if is_emergency cfg (ev_candidate e) then ''emergency_transition'' else ''confirmation_threshold_met'')),
       (''confirmation_days'', VInt (required_days cfg (ev_candidate e)))] (ev_reason e)\<rparr>"

definition watched_row :: "regime_config \<Rightarrow> evaluation \<Rightarrow> regime_row \<Rightarrow> regime_row" where
  "watched_row cfg e row = row\<lparr>mr_reason := reason [(''reason'', VStr ''watch_switch''), (''confirmation_days'', VInt (required_days cfg (ev_candidate e))),
       (''confidence_ok'', VBool (confidence_ok cfg (ev_candidate e) (ev_confidence e) (mr_confidence row))),
       (''duration_ok'', VBool (duration_ok cfg (ev_candidate e) (mr_confirmed_days row)))] (ev_reason e)\<rparr>"

definition may_switch :: "regime_config \<Rightarrow> evaluation \<Rightarrow> regime_row \<Rightarrow> bool" where
  "may_switch cfg e row \<longleftrightarrow> required_days cfg (ev_candidate e) \<le> mr_candidate_days row
     \<and> confidence_ok cfg (ev_candidate e) (ev_confidence e) (mr_confidence row) \<and> duration_ok cfg (ev_candidate e) (mr_confirmed_days row)"

definition period :: "evaluation \<Rightarrow> string option \<Rightarrow> regime_period" where
  "period e previous = \<lparr>rp_market = ev_market e, rp_previous = previous, rp_new = ev_candidate e, rp_started = ev_date e, rp_ended = None,
     rp_confidence = ev_confidence e, rp_evidence = ev_features e\<rparr>"

definition advance :: "regime_config \<Rightarrow> evaluation \<Rightarrow> regime_store \<Rightarrow> regime_response \<times> regime_store" where
  "advance cfg e s = (let m = ev_market e; c = ev_candidate e in
     case rs_states s m of
       None \<Rightarrow> (response None (first_row e) c ''stable'' True, add_history (period e None) (save_state m (first_row e) s))
     | Some row \<Rightarrow> (let previous = mr_confirmed row in
         if mr_last row = Some (ev_date e) then
           (let row' = same_day_row e row in
            (response (Some previous) row' (case mr_candidate row of None \<Rightarrow> c | Some x \<Rightarrow> if x = [] then c else x)
               (if c = previous then ''stable'' else ''watch_switch'') False, save_state m row' s))
         else let row1 = counted_row e row in
         if c = previous then (let row' = reaffirmed_row e row1 in (response (Some previous) row' c ''stable'' False, save_state m row' s))
         else let row2 = candidate_row e row1 in
         if may_switch cfg e row2 then
           (let row' = switched_row cfg e row2 in
            (response (Some previous) row' c ''confirmed_switch'' True,
             add_history (period e (Some previous)) (save_state m row' (close_active_history m (ev_date e) s))))
         else (let row' = watched_row cfg e row2 in (response (Some previous) row' c ''watch_switch'' False, save_state m row' s))))"

definition resolve_regime_transition :: "string option \<Rightarrow> string \<Rightarrow> string \<times> string \<times> int" where
  "resolve_regime_transition previous candidate = (case previous of
     None \<Rightarrow> (candidate, ''stable'', 0)
   | Some p \<Rightarrow> if p = candidate then (candidate, ''stable'', 0) else (p, ''watch_switch'', 1))"

text \<open>A run of evaluations, with the counted candidates of every market, latest first.\<close>

definition is_counted :: "evaluation \<Rightarrow> regime_store \<Rightarrow> bool" where
  "is_counted e s \<longleftrightarrow> (case rs_states s (ev_market e) of None \<Rightarrow> True | Some row \<Rightarrow> mr_last row \<noteq> Some (ev_date e))"

fun regime_run :: "regime_config \<Rightarrow> evaluation list \<Rightarrow> regime_store \<times> (string \<Rightarrow> string list) \<Rightarrow> regime_store \<times> (string \<Rightarrow> string list)" where
  "regime_run cfg [] st = st"
| "regime_run cfg (e # es) (s, h) = regime_run cfg es (snd (advance cfg e s),
     if is_counted e s then h(ev_market e := ev_candidate e # h (ev_market e)) else h)"


subsection \<open>Rows and counted evaluations\<close>

definition regime_row_ok :: "regime_row \<Rightarrow> bool" where
  "regime_row_ok row \<longleftrightarrow> 1 \<le> mr_confirmed_days row \<and> (case mr_candidate row of
     None \<Rightarrow> mr_candidate_days row = 0 \<and> mr_candidate_since row = None
   | Some c \<Rightarrow> c \<noteq> mr_confirmed row \<and> 1 \<le> mr_candidate_days row \<and> mr_candidate_since row \<noteq> None)"

definition proposed :: "string \<Rightarrow> int \<Rightarrow> string list \<Rightarrow> bool" where
  "proposed c n h \<longleftrightarrow> take (nat n) h = replicate (nat n) c"

lemma proposed_Cons: "proposed c n h \<Longrightarrow> 0 \<le> n \<Longrightarrow> proposed c (n + 1) (c # h)"
  by (simp add: proposed_def nat_add_distrib)

lemma proposed_less: "proposed c n h \<Longrightarrow> k \<le> n \<Longrightarrow> proposed c k h"
  unfolding proposed_def using take_take [of "nat k" "nat n" h] by (metis min.absorb1 nat_mono take_replicate)

definition log_ok :: "regime_store \<times> (string \<Rightarrow> string list) \<Rightarrow> bool" where
  "log_ok st \<longleftrightarrow> (\<forall>m row. rs_states (fst st) m = Some row \<longrightarrow> regime_row_ok row
     \<and> (\<forall>c. mr_candidate row = Some c \<longrightarrow> proposed c (mr_candidate_days row) (snd st m)))"

lemmas row_simps = first_row_def same_day_row_def counted_row_def reaffirmed_row_def candidate_row_def switched_row_def watched_row_def

lemma states_save [simp]: "rs_states (save_state m row s) = (rs_states s)(m \<mapsto> row)" "rs_history (save_state m row s) = rs_history s"
  by (simp_all add: save_state_def)

lemma states_history [simp]: "rs_states (add_history p s) = rs_states s" "rs_history (add_history p s) = rs_history s @ [p]"
  by (simp_all add: add_history_def)

lemma states_close [simp]: "rs_states (close_active_history m d s) = rs_states s"
  by (simp add: close_active_history_def split: option.split)

text \<open>The four ways an evaluation of a known market can go.\<close>

lemma advance_cases:
  assumes "rs_states s (ev_market e) = Some row"
  obtains (same_day) "mr_last row = Some (ev_date e)" "snd (advance cfg e s) = save_state (ev_market e) (same_day_row e row) s"
      "\<not> rr_switched (fst (advance cfg e s))"
  | (reaffirmed) "mr_last row \<noteq> Some (ev_date e)" "ev_candidate e = mr_confirmed row" "\<not> rr_switched (fst (advance cfg e s))"
      "snd (advance cfg e s) = save_state (ev_market e) (reaffirmed_row e (counted_row e row)) s"
  | (switched) "mr_last row \<noteq> Some (ev_date e)" "ev_candidate e \<noteq> mr_confirmed row" "may_switch cfg e (candidate_row e (counted_row e row))"
      "rr_switched (fst (advance cfg e s))" "snd (advance cfg e s) = add_history (period e (Some (mr_confirmed row)))
        (save_state (ev_market e) (switched_row cfg e (candidate_row e (counted_row e row))) (close_active_history (ev_market e) (ev_date e) s))"
  | (watched) "mr_last row \<noteq> Some (ev_date e)" "ev_candidate e \<noteq> mr_confirmed row" "\<not> rr_switched (fst (advance cfg e s))"
      "snd (advance cfg e s) = save_state (ev_market e) (watched_row cfg e (candidate_row e (counted_row e row))) s"
proof (cases "mr_last row = Some (ev_date e)")
  case True
  then show ?thesis using same_day assms by (simp add: advance_def Let_def response_def)
next
  case day: False
  show ?thesis
  proof (cases "ev_candidate e = mr_confirmed row")
    case True
    then show ?thesis using reaffirmed day assms by (simp add: advance_def Let_def response_def)
  next
    case False
    then show ?thesis using switched watched day assms
      by (cases "may_switch cfg e (candidate_row e (counted_row e row))") (simp_all add: advance_def Let_def response_def)
  qed
qed

lemma first_advance:
  assumes "rs_states s (ev_market e) = None"
  shows "advance cfg e s = (response None (first_row e) (ev_candidate e) ''stable'' True, add_history (period e None) (save_state (ev_market e) (first_row e) s))"
  using assms by (simp add: advance_def Let_def)

definition logged :: "evaluation \<Rightarrow> regime_store \<Rightarrow> (string \<Rightarrow> string list) \<Rightarrow> string \<Rightarrow> string list" where
  "logged e s h = (if is_counted e s then h(ev_market e := ev_candidate e # h (ev_market e)) else h)"

lemma log_ok_update:
  assumes "log_ok (s, h)" and "rs_states s' = (rs_states s)(ev_market e \<mapsto> row)" and "regime_row_ok row"
    and "\<And>c. mr_candidate row = Some c \<Longrightarrow> proposed c (mr_candidate_days row) (logged e s h (ev_market e))"
  shows "log_ok (s', logged e s h)"
  using assms by (auto simp: log_ok_def logged_def split: if_splits)

lemma advance_log_ok:
  assumes "log_ok (s, h)"
  shows "log_ok (snd (advance cfg e s), logged e s h)"
proof (cases "rs_states s (ev_market e)")
  case None
  show ?thesis by (rule log_ok_update [OF assms]) (auto simp: first_advance [OF None] first_row_def regime_row_ok_def)
next
  case (Some row)
  have row: "regime_row_ok row" "\<And>c. mr_candidate row = Some c \<Longrightarrow> proposed c (mr_candidate_days row) (h (ev_market e))"
    using assms Some by (auto simp: log_ok_def)
  have cand: "regime_row_ok (candidate_row e (counted_row e row))" if "ev_candidate e \<noteq> mr_confirmed row"
    using row(1) that by (auto simp: regime_row_ok_def row_simps count_days_def split: option.splits if_splits)
  have days: "proposed (ev_candidate e) (mr_candidate_days (candidate_row e (counted_row e row))) (ev_candidate e # h (ev_market e))"
    using row by (auto simp: candidate_row_def counted_row_def regime_row_ok_def proposed_def [of _ 1] intro: proposed_Cons split: option.splits)
  from Some show ?thesis
  proof (cases rule: advance_cases [of _ _ _ cfg])
    case same_day
    have "\<not> is_counted e s" using Some same_day(1) by (simp add: is_counted_def)
    then show ?thesis using row same_day(2) by (intro log_ok_update [OF assms, where row = "same_day_row e row"]) (auto simp: row_simps regime_row_ok_def logged_def split: option.splits)
  next
    case reaffirmed
    then show ?thesis using row(1) by (intro log_ok_update [OF assms, where row = "reaffirmed_row e (counted_row e row)"]) (auto simp: row_simps regime_row_ok_def count_days_def)
  next
    case switched
    then show ?thesis
      by (intro log_ok_update [OF assms, where row = "switched_row cfg e (candidate_row e (counted_row e row))"]) (auto simp: switched_row_def regime_row_ok_def)
  next
    case watched
    have c: "is_counted e s" using Some watched(1) by (simp add: is_counted_def)
    have "mr_candidate (watched_row cfg e (candidate_row e (counted_row e row))) = Some (ev_candidate e)"
      by (auto simp: row_simps)
    then show ?thesis using cand [OF watched(2)] days watched(4) c
      by (intro log_ok_update [OF assms, where row = "watched_row cfg e (candidate_row e (counted_row e row))"]) (auto simp: watched_row_def regime_row_ok_def logged_def split: option.splits)
  qed
qed

lemma regime_run_ok:
  assumes "\<And>e s h. P (s, h) \<Longrightarrow> P (snd (advance cfg e s), logged e s h)" and "P st"
  shows "P (regime_run cfg es st)"
  using assms(2)
proof (induction es arbitrary: st)
  case (Cons e es)
  obtain s h where st: "st = (s, h)" by fastforce
  show ?case using Cons.IH assms(1) Cons.prems by (simp add: st logged_def)
qed simp

text \<open>C24: A regime switches only after its confirmation days. When an evaluation moves a market away from
  its confirmed regime, the candidate was the one proposed at every one of the last required counted
  evaluations of that market, and, unless it is an emergency regime, the old regime had its minimum
  number of days and a known confidence rose by the configured gap.\<close>

theorem switch_needs_confirmation:
  assumes "regime_run cfg es (empty_regime_store, \<lambda>_. []) = (s, h)" and "rs_states s (ev_market e) = Some row"
    and "rr_switched (fst (advance cfg e s))"
  shows "proposed (ev_candidate e) (required_days cfg (ev_candidate e)) (ev_candidate e # h (ev_market e))
    \<and> ev_candidate e \<noteq> mr_confirmed row
    \<and> (is_emergency cfg (ev_candidate e) \<or> cf_min_days cfg \<le> mr_confirmed_days row + 1
        \<and> (\<forall>old new. mr_confidence row = Some old \<longrightarrow> ev_confidence e = Some new \<longrightarrow> f_le (f_add old (cf_gap cfg)) new))"
proof -
  have "log_ok (regime_run cfg es (empty_regime_store, \<lambda>_. []))"
    by (rule regime_run_ok [where P = log_ok], rule advance_log_ok) (simp_all add: log_ok_def empty_regime_store_def)
  then have ok: "regime_row_ok row" "\<And>c. mr_candidate row = Some c \<Longrightarrow> proposed c (mr_candidate_days row) (h (ev_market e))"
    using assms(1,2) by (auto simp: log_ok_def)
  have sw: "may_switch cfg e (candidate_row e (counted_row e row)) \<and> ev_candidate e \<noteq> mr_confirmed row"
    using assms(2,3) by (cases rule: advance_cases [of _ _ _ cfg]) auto
  have "proposed (ev_candidate e) (mr_candidate_days (candidate_row e (counted_row e row))) (ev_candidate e # h (ev_market e))"
    using ok by (auto simp: candidate_row_def counted_row_def regime_row_ok_def proposed_def [of _ 1] intro: proposed_Cons split: option.splits)
  then have "proposed (ev_candidate e) (required_days cfg (ev_candidate e)) (ev_candidate e # h (ev_market e))"
    using sw by (auto simp: may_switch_def intro: proposed_less)
  then show ?thesis using sw ok(1)
    by (auto simp: may_switch_def confidence_ok_def duration_ok_def row_simps count_days_def regime_row_ok_def split: if_splits)
qed


subsection \<open>History\<close>

definition periods :: "string \<Rightarrow> regime_store \<Rightarrow> regime_period list" where
  "periods m s = filter (\<lambda>p. rp_market p = m) (rs_history s)"

fun chained :: "regime_period list \<Rightarrow> bool" where
  "chained [] \<longleftrightarrow> True"
| "chained [p] \<longleftrightarrow> rp_ended p = None"
| "chained (p # q # ps) \<longleftrightarrow> rp_ended p = Some (rp_started q) \<and> rp_previous q = Some (rp_new p) \<and> chained (q # ps)"

fun market_ok :: "regime_period list \<Rightarrow> regime_row option \<Rightarrow> bool" where
  "market_ok qs None \<longleftrightarrow> qs = []"
| "market_ok qs (Some row) \<longleftrightarrow> (\<exists>ps p. qs = ps @ [p] \<and> chained (ps @ [p]) \<and> rp_previous (hd (ps @ [p])) = None
     \<and> rp_new p = mr_confirmed row \<and> rp_started p = mr_since row)"

definition history_ok :: "regime_store \<Rightarrow> bool" where
  "history_ok s \<longleftrightarrow> (\<forall>m. market_ok (periods m s) (rs_states s m))"

lemma chained_closed: "chained (ps @ [p]) \<Longrightarrow> (\<forall>q \<in> set ps. rp_ended q \<noteq> None) \<and> rp_ended p = None"
  by (induction ps rule: chained.induct) auto

lemma chained_extend:
  "chained (ps @ [p]) \<Longrightarrow> rp_previous q = Some (rp_new p) \<Longrightarrow> rp_ended q = None \<Longrightarrow> chained (ps @ [p\<lparr>rp_ended := Some (rp_started q)\<rparr>, q])"
  by (induction ps rule: chained.induct) auto

lemma close_first_other: "\<not> P a \<Longrightarrow> \<not> P (a\<lparr>rp_ended := Some d\<rparr>) \<Longrightarrow> filter P (close_first a d ps) = filter P ps"
  by (induction ps) auto

lemma close_first_market: "P a \<Longrightarrow> P (a\<lparr>rp_ended := Some d\<rparr>) \<Longrightarrow> filter P (close_first a d ps) = close_first a d (filter P ps)"
  by (induction ps) auto

lemma close_first_last: "a \<notin> set ps \<Longrightarrow> close_first a d (ps @ [a]) = ps @ [a\<lparr>rp_ended := Some d\<rparr>]"
  by (induction ps) auto

lemma close_active:
  assumes "periods m s = ps @ [p]" and "chained (ps @ [p])"
  shows "periods m (close_active_history m d s) = ps @ [p\<lparr>rp_ended := Some d\<rparr>]"
    and "m' \<noteq> m \<Longrightarrow> periods m' (close_active_history m d s) = periods m' s"
proof -
  note c = chained_closed [OF assms(2)]
  have "filter (open_period m) (rs_history s) = filter (\<lambda>q. rp_ended q = None) (periods m s)"
    by (auto simp: periods_def open_period_def intro!: filter_cong)
  also have "\<dots> = [p]" using c by (auto simp: assms(1) filter_empty_conv)
  finally have act: "close_active_history m d s = s\<lparr>rs_history := close_first p d (rs_history s)\<rparr>"
    by (simp add: close_active_history_def)
  have "p \<in> set (periods m s)" by (simp add: assms(1))
  then have m: "rp_market p = m" by (simp add: periods_def)
  have "p \<notin> set ps" using c by auto
  then show "periods m (close_active_history m d s) = ps @ [p\<lparr>rp_ended := Some d\<rparr>]"
    using assms(1) m by (simp add: act periods_def close_first_market close_first_last)
  show "periods m' (close_active_history m d s) = periods m' s" if "m' \<noteq> m"
    using that m by (simp add: act periods_def close_first_other)
qed

lemma periods_add [simp]: "periods m (add_history p s) = periods m s @ (if rp_market p = m then [p] else [])" "periods m (save_state m' row s) = periods m s"
  by (simp_all add: periods_def)

lemma history_ok_keep:
  assumes "history_ok s" and "rs_states s m = Some row" and "mr_confirmed row' = mr_confirmed row" and "mr_since row' = mr_since row"
  shows "history_ok (save_state m row' s)"
  unfolding history_ok_def
proof
  fix m'
  have "market_ok (periods m' s) (rs_states s m')" using assms(1) by (simp add: history_ok_def)
  then show "market_ok (periods m' (save_state m row' s)) (rs_states (save_state m row' s) m')"
    using assms(2-4) by (cases "m' = m") simp_all
qed

lemma advance_history_ok:
  assumes "history_ok s"
  shows "history_ok (snd (advance cfg e s))"
proof (cases "rs_states s (ev_market e)")
  case None
  have all: "market_ok (periods m s) (rs_states s m)" for m using assms by (simp add: history_ok_def)
  have "periods (ev_market e) s = []" using all [of "ev_market e"] None by simp
  then have "market_ok (periods m (snd (advance cfg e s))) (rs_states (snd (advance cfg e s)) m)" for m
    using all [of m] by (cases "m = ev_market e") (simp_all add: first_advance [OF None] period_def first_row_def)
  then show ?thesis by (simp add: history_ok_def)
next
  case (Some row)
  from Some show ?thesis
  proof (cases rule: advance_cases [of _ _ _ cfg])
    case same_day
    then show ?thesis using history_ok_keep [OF assms Some] by (simp add: same_day_row_def)
  next
    case reaffirmed
    then show ?thesis using history_ok_keep [OF assms Some] by (simp add: reaffirmed_row_def counted_row_def)
  next
    case watched
    then show ?thesis using history_ok_keep [OF assms Some] by (simp add: watched_row_def candidate_row_def counted_row_def)
  next
    case switched
    let ?m = "ev_market e"
    have "market_ok (periods ?m s) (Some row)" using assms Some unfolding history_ok_def by metis
    then obtain ps p where p: "periods ?m s = ps @ [p]" "chained (ps @ [p])" "rp_previous (hd (ps @ [p])) = None" "rp_new p = mr_confirmed row"
      by auto
    let ?p = "p\<lparr>rp_ended := Some (ev_date e)\<rparr>" and ?q = "period e (Some (mr_confirmed row))"
    have new: "periods ?m (snd (advance cfg e s)) = (ps @ [?p]) @ [?q]" using close_active(1) [OF p(1,2)] by (simp add: switched(5) period_def)
    have "chained ((ps @ [?p]) @ [?q])" using chained_extend [OF p(2), of ?q] p(4) by (simp add: period_def)
    moreover have "rp_previous (hd ((ps @ [?p]) @ [?q])) = None" using p(3) by (cases ps) auto
    moreover have "rp_new ?q = ev_candidate e \<and> rp_started ?q = ev_date e" by (simp add: period_def)
    ultimately have own: "market_ok (periods ?m (snd (advance cfg e s))) (rs_states (snd (advance cfg e s)) ?m)"
      unfolding new by (simp add: switched(5) switched_row_def)
    have other: "periods m (snd (advance cfg e s)) = periods m s" if "m \<noteq> ?m" for m
      using that close_active(2) [OF p(1,2)] by (simp add: switched(5) period_def)
    have "market_ok (periods m (snd (advance cfg e s))) (rs_states (snd (advance cfg e s)) m)" for m
    proof (cases "m = ?m")
      case False
      have "market_ok (periods m s) (rs_states s m)" using assms by (simp add: history_ok_def)
      then show ?thesis using other [OF False] False by (simp add: switched(5))
    qed (use own in simp)
    then show ?thesis by (simp add: history_ok_def)
  qed
qed

text \<open>C25: The history is one chain of periods. After any evaluations the periods of a market follow each
  other without gap: each names its predecessor and starts on the day the predecessor ended, only
  the last is open, and it is the confirmed regime of the market's row with its start day.\<close>

theorem history_is_a_chain:
  assumes "regime_run cfg es (empty_regime_store, \<lambda>_. []) = (s, h)" and "rs_states s m = Some row"
  shows "\<exists>ps p. periods m s = ps @ [p] \<and> chained (ps @ [p]) \<and> rp_previous (hd (ps @ [p])) = None
    \<and> rp_new p = mr_confirmed row \<and> rp_started p = mr_since row \<and> (\<forall>q \<in> set ps. rp_ended q \<noteq> None)"
proof -
  have "(\<lambda>st. history_ok (fst st)) (regime_run cfg es (empty_regime_store, \<lambda>_. []))"
    by (rule regime_run_ok) (simp_all add: advance_history_ok, simp add: history_ok_def periods_def empty_regime_store_def)
  then have "market_ok (periods m s) (Some row)" using assms unfolding history_ok_def by (metis fst_conv)
  then obtain ps p where "periods m s = ps @ [p]" "chained (ps @ [p])" "rp_previous (hd (ps @ [p])) = None" "rp_new p = mr_confirmed row"
    "rp_started p = mr_since row" by auto
  then show ?thesis using chained_closed by blast
qed

subsection \<open>Days\<close>

text \<open>Evaluations of one trading day are idempotent in their decision. A second evaluation on the day of
  the last one never switches and keeps every field of the row except the features and the reason;
  the history is unchanged.\<close>

theorem same_day_idempotent:
  assumes "rs_states s (ev_market e) = Some row" and "mr_last row = Some (ev_date e)"
  shows "\<not> rr_switched (fst (advance cfg e s)) \<and> rs_history (snd (advance cfg e s)) = rs_history s
    \<and> (\<exists>row'. rs_states (snd (advance cfg e s)) = (rs_states s)(ev_market e \<mapsto> row') \<and> row'\<lparr>mr_features := mr_features row, mr_reason := mr_reason row\<rparr> = row)"
proof -
  have "rs_states (snd (advance cfg e s)) = (rs_states s)(ev_market e \<mapsto> same_day_row e row)" "rs_history (snd (advance cfg e s)) = rs_history s"
    "\<not> rr_switched (fst (advance cfg e s))"
    using assms by (simp_all add: advance_def Let_def response_def)
  moreover have "(same_day_row e row)\<lparr>mr_features := mr_features row, mr_reason := mr_reason row\<rparr> = row" by (simp add: same_day_row_def)
  ultimately show ?thesis by blast
qed

definition plain :: "string \<Rightarrow> string \<Rightarrow> int \<Rightarrow> evaluation" where
  "plain m x d = \<lparr>ev_market = m, ev_candidate = x, ev_date = d, ev_confidence = None, ev_features = [], ev_reason = []\<rparr>"

text \<open>Only the last day is remembered. Evaluations that go back and forth between two days are all counted,
  so a regime that needs three confirmation days is confirmed with two distinct days.\<close>

theorem revisited_days_are_counted:
  assumes "d1 \<noteq> d2" and "a \<noteq> c" and "required_days cfg c \<le> 3" and "cf_min_days cfg \<le> 4" and "rs_states s m = None"
  shows "\<exists>row. rs_states (fst (regime_run cfg [plain m a d1, plain m c d2, plain m c d1, plain m c d2] (s, h))) m = Some row \<and> mr_confirmed row = c"
  using assms(1-4)
  by (simp add: plain_def advance_def assms(5) Let_def row_simps may_switch_def confidence_ok_def duration_ok_def count_days_def)

subsection \<open>Witnesses\<close>

definition demo_machine :: regime_config where
  "demo_machine = regime_machine Map.empty 2 (lit (8/100)) []"

lemma demo_machine_days: "required_days demo_machine ''rotation_market'' = 2" "required_days demo_machine ''range_market'' = 3"
  "\<not> is_emergency demo_machine ''rotation_market''" "cf_min_days demo_machine = 2"
  by (simp_all add: demo_machine_def regime_machine_def required_days_def default_confirmation_days_def is_emergency_def default_emergency_def)

lemma demo_regime_run:
  obtains s h row where "regime_run demo_machine [plain ''CN'' ''range_market'' 1, plain ''CN'' ''rotation_market'' 2] (empty_regime_store, \<lambda>_. []) = (s, h)"
    and "rs_states s ''CN'' = Some row" and "rr_switched (fst (advance demo_machine (plain ''CN'' ''rotation_market'' 3) s))"
    and "h ''CN'' = [''rotation_market'', ''range_market'']" and "mr_last row = Some 2"
  by (simp add: plain_def advance_def Let_def row_simps may_switch_def confidence_ok_def duration_ok_def count_days_def demo_machine_days
      empty_regime_store_def is_counted_def response_def)

theorem switch_needs_confirmation_witness:
  "proposed ''rotation_market'' 2 [''rotation_market'', ''rotation_market'', ''range_market'']"
proof -
  obtain s h row where d: "regime_run demo_machine [plain ''CN'' ''range_market'' 1, plain ''CN'' ''rotation_market'' 2] (empty_regime_store, \<lambda>_. []) = (s, h)"
    "rs_states s ''CN'' = Some row" "rr_switched (fst (advance demo_machine (plain ''CN'' ''rotation_market'' 3) s))"
    "h ''CN'' = [''rotation_market'', ''range_market'']" by (rule demo_regime_run)
  have "rs_states s (ev_market (plain ''CN'' ''rotation_market'' 3)) = Some row" using d(2) by (simp add: plain_def)
  from switch_needs_confirmation [OF d(1) this d(3)] show ?thesis using d(4) by (simp add: plain_def demo_machine_days)
qed

theorem history_is_a_chain_witness:
  "\<exists>s h ps p. regime_run demo_machine [plain ''CN'' ''range_market'' 1, plain ''CN'' ''rotation_market'' 2] (empty_regime_store, \<lambda>_. []) = (s, h)
     \<and> periods ''CN'' s = ps @ [p] \<and> chained (ps @ [p])"
proof -
  obtain s h row where d: "regime_run demo_machine [plain ''CN'' ''range_market'' 1, plain ''CN'' ''rotation_market'' 2] (empty_regime_store, \<lambda>_. []) = (s, h)"
    "rs_states s ''CN'' = Some row" by (rule demo_regime_run)
  from history_is_a_chain [OF d] d(1) show ?thesis by blast
qed

theorem same_day_idempotent_witness:
  "\<exists>s h. regime_run demo_machine [plain ''CN'' ''range_market'' 1, plain ''CN'' ''rotation_market'' 2] (empty_regime_store, \<lambda>_. []) = (s, h)
     \<and> \<not> rr_switched (fst (advance demo_machine (plain ''CN'' ''rotation_market'' 2) s))"
proof -
  obtain s h row where d: "regime_run demo_machine [plain ''CN'' ''range_market'' 1, plain ''CN'' ''rotation_market'' 2] (empty_regime_store, \<lambda>_. []) = (s, h)"
    "rs_states s ''CN'' = Some row" "mr_last row = Some 2" by (rule demo_regime_run)
  have "rs_states s (ev_market (plain ''CN'' ''rotation_market'' 2)) = Some row" "mr_last row = Some (ev_date (plain ''CN'' ''rotation_market'' 2))"
    using d(2,3) by (simp_all add: plain_def)
  from same_day_idempotent [OF this] d(1) show ?thesis by blast
qed

theorem revisited_days_are_counted_witness:
  "\<exists>row. rs_states (fst (regime_run demo_machine [plain ''CN'' ''rotation_market'' 1, plain ''CN'' ''range_market'' 2,
     plain ''CN'' ''range_market'' 1, plain ''CN'' ''range_market'' 2] (empty_regime_store, \<lambda>_. []))) ''CN'' = Some row \<and> mr_confirmed row = ''range_market''"
  by (rule revisited_days_are_counted) (simp_all add: demo_machine_days empty_regime_store_def)

end
