(* ===== verification/RegimeScores.thy ===== *)
theory RegimeScores
  imports RegimeMachine "HOL-Library.Product_Lexorder"
begin

text \<open>
  The regime classifier (\<open>engines/regime/regime_preclassifier.py\<close>), the retreat detector, the hint
  judge and the calibration statistics (\<open>calibration.py\<close>). Sub-scores are doubles; a missing or \<open>None\<close>
  sub-score is the missing entry of a map. The thresholds of the YAML file are an argument, with
  \<open>None\<close> for an entry that is not there. Outcome rows are an argument; their excess returns are not NaN.
\<close>

type_synonym sub_scores = "string \<rightharpoonup> pyfloat"

definition regimes :: "string list" where
  "regimes = [''high_position_retreat'', ''downtrend_market'', ''crowding_market'', ''range_market'', ''rotation_market'']"

definition unknown_regime :: string where
  "unknown_regime = ''UNKNOWN''"

definition required_features :: "(string \<times> string list) list" where
  "required_features = [(''high_position_retreat'', [''retreat_score'']), (''downtrend_market'', [''drawdown_risk'', ''breadth'']),
     (''crowding_market'', [''crowding_score'']), (''range_market'', [''breadth'', ''range_score'']), (''rotation_market'', [''rotation_score'', ''breadth''])]"

record regime_thresholds =
  rt_retreat :: "pyfloat option"
  rt_drawdown :: "pyfloat option"
  rt_down_breadth :: "pyfloat option"
  rt_range_lo :: "pyfloat option"
  rt_range_hi :: "pyfloat option"
  rt_rotation_breadth :: "pyfloat option"
  rt_center :: "pyfloat option"
  rt_base :: "pyfloat option"

definition threshold :: "pyfloat option \<Rightarrow> rat \<Rightarrow> pyfloat" where
  "threshold t d = (case t of None \<Rightarrow> lit d | Some v \<Rightarrow> v)"

definition need :: "pyfloat option \<Rightarrow> string \<Rightarrow> pyfloat result" where
  "need t k = (case t of None \<Rightarrow> Inl (KeyError k) | Some v \<Rightarrow> Inr v)"

definition quotient :: "pyfloat \<Rightarrow> pyfloat \<Rightarrow> pyfloat result" where
  "quotient a b = (case f_div a b of None \<Rightarrow> Inl (PyExc ''ZeroDivisionError'' ''float division by zero'') | Some q \<Rightarrow> Inr q)"

subsection \<open>The rule cascade\<close>

record preclass =
  pc_primary :: string
  pc_secondary :: "string option"
  pc_confidence :: pyfloat
  pc_missing :: "string list"

definition preclassify_missing :: "sub_scores \<Rightarrow> string list" where
  "preclassify_missing f = filter (\<lambda>n. f n = None) [''breadth'', ''crowding_score'', ''drawdown_risk'', ''retreat_score'']"

definition preclassify_primary :: "regime_thresholds \<Rightarrow> pyfloat \<Rightarrow> pyfloat \<Rightarrow> pyfloat \<Rightarrow> pyfloat \<Rightarrow> string result" where
  "preclassify_primary th retreat drawdown breadth crowding =
     bindR (need (rt_retreat th) ''min_retreat_score'') (\<lambda>t.
     if f_le t retreat then Inr ''high_position_retreat''
     else bindR (need (rt_drawdown th) ''min_drawdown_risk'') (\<lambda>d.
     bindR (if f_le d drawdown then bindR (need (rt_down_breadth th) ''max_breadth'') (\<lambda>b. Inr (f_le breadth b)) else Inr False) (\<lambda>down.
     if down then Inr ''downtrend_market''
     else if f_le (lit (72/100)) crowding then Inr ''crowding_market''
     else bindR (need (rt_range_lo th) ''min_breadth'') (\<lambda>lo.
       bindR (if f_le lo breadth then bindR (need (rt_range_hi th) ''max_breadth'') (\<lambda>hi. Inr (f_le breadth hi)) else Inr False) (\<lambda>mid.
       Inr (if mid then ''range_market'' else ''rotation_market''))))))"

definition preclassify_regime :: "regime_thresholds \<Rightarrow> sub_scores \<Rightarrow> preclass result" where
  "preclassify_regime th f =
     (case (f ''retreat_score'', f ''drawdown_risk'', f ''breadth'', f ''crowding_score'') of
        (Some retreat, Some drawdown, Some breadth, Some crowding) \<Rightarrow>
          bindR (preclassify_primary th retreat drawdown breadth crowding) (\<lambda>primary.
          Inr \<lparr>pc_primary = primary, pc_secondary = Some (if primary \<noteq> ''rotation_market'' then ''rotation_market'' else ''range_market''),
            pc_confidence = py_round 4 (py_max (py_max crowding (f_sub (Fin 1) drawdown)) (lit (55/100))), pc_missing = []\<rparr>)
      | _ \<Rightarrow> Inr \<lparr>pc_primary = unknown_regime, pc_secondary = None, pc_confidence = Fin 0, pc_missing = preclassify_missing f\<rparr>)"

subsection \<open>Memberships\<close>

definition ramp_up :: "pyfloat \<Rightarrow> pyfloat \<Rightarrow> pyfloat \<Rightarrow> pyfloat result" where
  "ramp_up x lo hi = (if f_le hi lo then Inr (if f_le hi x then Fin 1 else Fin 0)
     else bindR (quotient (f_sub x lo) (f_sub hi lo)) (\<lambda>q. Inr (py_max (Fin 0) (py_min (Fin 1) q))))"

definition ramp_down :: "pyfloat \<Rightarrow> pyfloat \<Rightarrow> pyfloat \<Rightarrow> pyfloat result" where
  "ramp_down x lo hi = bindR (ramp_up x lo hi) (\<lambda>u. Inr (f_sub (Fin 1) u))"

definition band :: "pyfloat \<Rightarrow> pyfloat \<Rightarrow> pyfloat \<Rightarrow> pyfloat \<Rightarrow> pyfloat result" where
  "band x lo hi soft = (if f_le lo x \<and> f_le x hi then Inr (Fin 1)
     else if f_lt x lo then ramp_up x (f_sub lo soft) lo else ramp_down x hi (f_add hi soft))"

text \<open>A weighted sum of two parts, each of which may be missing.\<close>

definition two_parts :: "pyfloat result option \<Rightarrow> pyfloat result option \<Rightarrow> pyfloat result" where
  "two_parts a b = (case (a, b) of
     (None, None) \<Rightarrow> Inr (Fin 0)
   | (Some x, None) \<Rightarrow> x
   | (None, Some y) \<Rightarrow> y
   | (Some x, Some y) \<Rightarrow> bindR x (\<lambda>u. bindR y (\<lambda>v. Inr (f_add u v))))"

definition weighted :: "rat \<Rightarrow> pyfloat result \<Rightarrow> pyfloat result" where
  "weighted w x = bindR x (\<lambda>v. Inr (f_mul (lit w) v))"

definition raw_membership :: "regime_thresholds \<Rightarrow> sub_scores \<Rightarrow> string \<Rightarrow> pyfloat result" where
  "raw_membership th f regime =
     (let breadth = f ''breadth''; up = (\<lambda>x t a b. ramp_up x (f_sub t (lit a)) (f_add t (lit b))); down = (\<lambda>x t a b. ramp_down x (f_sub t (lit a)) (f_add t (lit b))) in
      if regime = ''high_position_retreat'' then
        (case f ''retreat_score'' of None \<Rightarrow> Inr (Fin 0) | Some x \<Rightarrow> up x (threshold (rt_retreat th) (65/100)) (25/100) (5/100))
      else if regime = ''downtrend_market'' then
        two_parts (map_option (\<lambda>x. weighted (6/10) (up x (threshold (rt_drawdown th) (6/10)) (20/100) (10/100))) (f ''drawdown_risk''))
                  (map_option (\<lambda>x. weighted (4/10) (down x (threshold (rt_down_breadth th) (35/100)) (10/100) (15/100))) breadth)
      else if regime = ''crowding_market'' then
        (case f ''crowding_score'' of None \<Rightarrow> Inr (Fin 0) | Some x \<Rightarrow> up x (threshold (rt_center th) (72/100)) (15/100) (10/100))
      else if regime = ''range_market'' then
        two_parts (map_option (\<lambda>x. weighted (5/10) (band x (threshold (rt_range_lo th) (35/100)) (threshold (rt_range_hi th) (6/10)) (lit (10/100)))) breadth)
                  (map_option (\<lambda>x. weighted (5/10) (Inr x)) (f ''range_score''))
      else
        two_parts (map_option (\<lambda>x. weighted (55/100) (Inr x)) (f ''rotation_score''))
                  (map_option (\<lambda>x. weighted (45/100) (up x (threshold (rt_rotation_breadth th) (45/100)) (10/100) (15/100))) breadth))"

definition missing_fields :: "sub_scores \<Rightarrow> string list" where
  "missing_fields f = sort (filter (\<lambda>n. f n = None) (dedup (concat (map snd required_features))))"

definition regime_memberships :: "regime_thresholds \<Rightarrow> sub_scores \<Rightarrow> pyfloat list result" where
  "regime_memberships th f = mapR (\<lambda>r. bindR (raw_membership th f r) (\<lambda>v. Inr (f_add (threshold (rt_base th) (2/100)) v))) regimes"

subsection \<open>Probabilities\<close>

definition total_slots :: nat where
  "total_slots = length (concat (map snd required_features))"

definition missing_slots :: "sub_scores \<Rightarrow> nat" where
  "missing_slots f = length (filter (\<lambda>n. f n = None) (concat (map snd required_features)))"

definition unknown_mass :: "sub_scores \<Rightarrow> pyfloat" where
  "unknown_mass f = f_of_rat (of_nat (missing_slots f) / of_nat total_slots)"

fun first_max :: "(string \<times> pyfloat) \<Rightarrow> (string \<times> pyfloat) list \<Rightarrow> string \<times> pyfloat" where
  "first_max b [] = b"
| "first_max b (x # xs) = first_max (if f_lt (snd b) (snd x) then x else b) xs"

record classification =
  cl_probabilities :: "(string \<times> pyfloat) list"
  cl_unknown :: pyfloat
  cl_primary :: string
  cl_confidence :: pyfloat
  cl_memberships :: "(string \<times> pyfloat) list"
  cl_missing :: "string list"

definition shares :: "pyfloat list \<Rightarrow> pyfloat \<Rightarrow> (pyfloat list \<times> pyfloat) result" where
  "shares ms unknown = (let mass = f_add (f_sum ms) unknown in
     if f_le mass (Fin 0) then Inr (map (\<lambda>_. Fin 0) ms, Fin 1)
     else bindR (mapR (\<lambda>m. bindR (quotient m mass) (\<lambda>q. Inr (py_round 4 q))) ms) (\<lambda>ps.
       bindR (quotient unknown mass) (\<lambda>u. Inr (ps, py_round 4 u))))"

definition classify_regime :: "regime_thresholds \<Rightarrow> sub_scores \<Rightarrow> classification result" where
  "classify_regime th f =
     bindR (regime_memberships th f) (\<lambda>ms.
     bindR (shares ms (unknown_mass f)) (\<lambda>(ps, unknown).
     let rows = zip regimes ps; best = first_max (hd rows) (tl rows);
         top = (if f_lt (snd best) unknown then (unknown_regime, Fin 0) else best)
     in Inr \<lparr>cl_probabilities = rows, cl_unknown = unknown, cl_primary = fst top, cl_confidence = py_round 4 (snd top),
          cl_memberships = zip regimes (map (py_round 4) ms), cl_missing = missing_fields f\<rparr>))"

definition cleaned_hint :: "sub_scores \<Rightarrow> sub_scores" where
  "cleaned_hint hint = (\<lambda>r. if r \<in> set regimes then map_option (\<lambda>v. py_max (Fin 0) v) (hint r) else None)"

definition deterministic_only :: "sub_scores \<Rightarrow> (string \<times> pyfloat) list" where
  "deterministic_only det = map (\<lambda>r. (r, py_round 4 (case det r of None \<Rightarrow> Fin 0 | Some v \<Rightarrow> v))) regimes"

definition hint_values :: "sub_scores \<Rightarrow> pyfloat list" where
  "hint_values cleaned = concat (map (\<lambda>r. case cleaned r of None \<Rightarrow> [] | Some v \<Rightarrow> [v]) regimes)"

definition blend_one :: "sub_scores \<Rightarrow> sub_scores \<Rightarrow> pyfloat \<Rightarrow> pyfloat \<Rightarrow> string \<Rightarrow> pyfloat result" where
  "blend_one det cleaned mass w r =
     bindR (quotient (case cleaned r of None \<Rightarrow> Fin 0 | Some v \<Rightarrow> v) mass) (\<lambda>q.
     Inr (f_add (f_mul (f_sub (Fin 1) w) (case det r of None \<Rightarrow> Fin 0 | Some v \<Rightarrow> v)) (f_mul w q)))"

definition blend_probabilities :: "sub_scores \<Rightarrow> sub_scores \<Rightarrow> pyfloat \<Rightarrow> (string \<times> pyfloat) list result" where
  "blend_probabilities det hint weight =
     (let cleaned = cleaned_hint hint; mass = f_sum (hint_values cleaned) in
      if hint_values cleaned = [] \<or> f_le mass (Fin 0) then Inr (deterministic_only det)
      else let w = py_max (Fin 0) (py_min (Fin 1) weight) in
        bindR (mapR (blend_one det cleaned mass w) regimes) (\<lambda>vs.
        let all = f_sum vs in
        if f_le all (Fin 0) then Inr (map (\<lambda>r. (r, py_round 4 (lit (1 / 5)))) regimes)
        else bindR (mapR (\<lambda>v. bindR (quotient v all) (\<lambda>q. Inr (py_round 4 q))) vs) (\<lambda>ps. Inr (zip regimes ps))))"

subsection \<open>Retreat and hints\<close>

record retreat =
  rd_score :: pyfloat
  rd_is_retreat :: bool

definition detect_retreat :: "pyfloat \<Rightarrow> pyfloat \<Rightarrow> pyfloat \<Rightarrow> int \<Rightarrow> retreat" where
  "detect_retreat leader losses breakdown negatives =
     (let count = py_min (f_of_rat (of_int negatives / 10)) (Fin 1);
          score = f_add (f_add (f_add (f_mul leader (lit (35/100))) (f_mul losses (lit (25/100)))) (f_mul breakdown (lit (25/100)))) (f_mul count (lit (15/100)));
          clipped = py_round 4 (py_max (Fin 0) (py_min (Fin 1) score))
      in \<lparr>rd_score = clipped, rd_is_retreat = f_le (lit (65/100)) clipped\<rparr>)"

definition judge_with_hint :: "sub_scores \<Rightarrow> string option \<Rightarrow> (string \<times> pyfloat) list \<times> string option" where
  "judge_with_hint f hint = (map (\<lambda>(r, k). (r, py_round 4 (case f k of None \<Rightarrow> Fin 0 | Some v \<Rightarrow> v)))
     [(''crowding_market'', ''crowding_score''), (''rotation_market'', ''rotation_score''), (''range_market'', ''range_score''),
      (''downtrend_market'', ''drawdown_risk''), (''high_position_retreat'', ''retreat_score'')], hint)"

subsection \<open>Calibration\<close>

record decision_outcome =
  or_regime :: "string option"
  or_skill :: "string option"
  or_thesis :: mapping
  or_trace :: "pyval list"
  or_themes :: "pyval list"
  or_horizon :: "int option"
  or_excess :: "pyfloat option"

fun truthy_entry :: "mapping \<Rightarrow> string list \<Rightarrow> pyval option" where
  "truthy_entry d [] = None"
| "truthy_entry d (k # ks) = (if truthy (get_item d k) then Some (get_item d k) else truthy_entry d ks)"

definition preferred_dict :: "pyval \<Rightarrow> string option" where
  "preferred_dict v = (case v of VDict ((k, _) # _) \<Rightarrow> Some k | _ \<Rightarrow> None)"

definition preferred :: "pyval \<Rightarrow> string option" where
  "preferred v = (case v of VList (x # _) \<Rightarrow> Some (py_str x) | _ \<Rightarrow> preferred_dict v)"

fun trace_strategy :: "pyval list \<Rightarrow> string option" where
  "trace_strategy [] = None"
| "trace_strategy (VDict item # xs) = (case truthy_entry item [''strategy_key'', ''strategy''] of
     Some v \<Rightarrow> Some (py_str v)
   | None \<Rightarrow> (case py_or (get_item item ''output'') (get_item item ''result'') of
        VDict payload \<Rightarrow> (case preferred_dict (get_item payload ''preferred_strategies'') of Some k \<Rightarrow> Some k | None \<Rightarrow> trace_strategy xs)
      | _ \<Rightarrow> trace_strategy xs))"
| "trace_strategy (_ # xs) = trace_strategy xs"

definition extract_strategy_key :: "decision_outcome \<Rightarrow> string" where
  "extract_strategy_key r = (if \<not> falsy_text (or_skill r) then the (or_skill r)
     else case truthy_entry (or_thesis r) [''strategy_key'', ''strategy'', ''strategy_code''] of
       Some v \<Rightarrow> py_str v
     | None \<Rightarrow> (case (case py_or (get_item (or_thesis r) ''route'') (VDict []) of VDict route \<Rightarrow> preferred (get_item route ''preferred_strategies'') | _ \<Rightarrow> None) of
         Some k \<Rightarrow> k
       | None \<Rightarrow> (case trace_strategy (or_trace r) of
           Some k \<Rightarrow> k
         | None \<Rightarrow> (case or_themes r of t # _ \<Rightarrow> ''theme:'' @ py_str t | [] \<Rightarrow> ''UNKNOWN''))))"

type_synonym group_key = "string \<times> string \<times> int"

definition row_group :: "int list \<Rightarrow> decision_outcome \<Rightarrow> (group_key \<times> pyfloat) option" where
  "row_group horizons r = (case (or_horizon r, or_excess r) of
     (Some h, Some x) \<Rightarrow> if falsy_text (or_regime r) \<or> horizons \<noteq> [] \<and> h \<notin> set horizons then None
        else Some ((the (or_regime r), extract_strategy_key r, h), x)
   | _ \<Rightarrow> None)"

fun group_rows :: "(group_key \<times> pyfloat) list \<Rightarrow> (group_key \<times> pyfloat list) list \<Rightarrow> (group_key \<times> pyfloat list) list" where
  "group_rows [] gs = gs"
| "group_rows ((k, x) # rows) gs = group_rows rows (dict_set gs k ((case dict_get gs k of None \<Rightarrow> [] | Some xs \<Rightarrow> xs) @ [x]))"

text \<open>\<open>statistics.mean\<close> adds exactly and rounds once; infinities are added apart.\<close>

definition fin_part :: "pyfloat \<Rightarrow> rat" where
  "fin_part v = (case v of Fin q \<Rightarrow> q | _ \<Rightarrow> 0)"

definition stat_mean :: "pyfloat list \<Rightarrow> pyfloat" where
  "stat_mean xs = (case filter (\<lambda>x. \<not> is_finite x) xs of
     [] \<Rightarrow> f_of_rat (sum_list (map fin_part xs) / of_nat (length xs))
   | y # ys \<Rightarrow> foldl f_add y ys)"

fun insert_float :: "pyfloat \<Rightarrow> pyfloat list \<Rightarrow> pyfloat list" where
  "insert_float x [] = [x]"
| "insert_float x (y # ys) = (if f_lt x y then x # y # ys else y # insert_float x ys)"

definition sort_floats :: "pyfloat list \<Rightarrow> pyfloat list" where
  "sort_floats xs = foldl (\<lambda>acc x. insert_float x acc) [] xs"

definition half :: "pyfloat \<Rightarrow> pyfloat" where
  "half v = (case v of Fin q \<Rightarrow> f_of_rat (q / 2) | _ \<Rightarrow> v)"

definition stat_median :: "pyfloat list \<Rightarrow> pyfloat" where
  "stat_median xs = (let s = sort_floats xs; n = length s in
     if n mod 2 = 1 then s ! (n div 2) else half (f_add (s ! (n div 2 - 1)) (s ! (n div 2))))"

record strategy_stats =
  ss_regime :: string
  ss_strategy :: string
  ss_horizon :: int
  ss_samples :: int
  ss_mean :: pyfloat
  ss_median :: pyfloat
  ss_hit_rate :: pyfloat

definition stats_row :: "group_key \<times> pyfloat list \<Rightarrow> strategy_stats" where
  "stats_row g = (case g of ((regime, strategy, horizon), xs) \<Rightarrow>
     \<lparr>ss_regime = regime, ss_strategy = strategy, ss_horizon = horizon, ss_samples = int (length xs), ss_mean = py_round 6 (stat_mean xs),
      ss_median = py_round 6 (stat_median xs),
      ss_hit_rate = py_round 4 (f_of_rat (of_nat (length (filter (f_lt (Fin 0)) xs)) / of_nat (length xs)))\<rparr>)"

definition selected_rows :: "int list \<Rightarrow> decision_outcome list \<Rightarrow> (group_key \<times> pyfloat) list" where
  "selected_rows horizons rows = concat (map (\<lambda>r. case row_group horizons r of None \<Rightarrow> [] | Some g \<Rightarrow> [g]) rows)"

definition regime_strategy_stats :: "int list \<Rightarrow> decision_outcome list \<Rightarrow> strategy_stats list" where
  "regime_strategy_stats horizons rows = map stats_row (sort_key fst (group_rows (selected_rows horizons rows) []))"

record route_summary =
  su_samples :: int
  su_hit_rate :: pyfloat
  su_mean :: pyfloat
  su_horizons :: "(string \<times> int \<times> pyfloat \<times> pyfloat) list"

definition weighted_average :: "(strategy_stats \<Rightarrow> pyfloat) \<Rightarrow> strategy_stats list \<Rightarrow> int \<Rightarrow> pyfloat result" where
  "weighted_average v rows n = quotient (f_sum (map (\<lambda>r. f_mul (v r) (f_of_rat (of_int (ss_samples r)))) rows)) (f_of_rat (of_int n))"

definition route_entry :: "strategy_stats list \<Rightarrow> string \<Rightarrow> int \<Rightarrow> string \<Rightarrow> (string \<times> route_summary) list result" where
  "route_entry stats regime min_samples strategy =
     (let rows = filter (\<lambda>r. ss_regime r = regime \<and> ss_strategy r = strategy) stats in
      if rows = [] \<or> Max (set (map ss_samples rows)) < min_samples then Inr []
      else let n = sum_list (map ss_samples rows) in
        bindR (weighted_average ss_hit_rate rows n) (\<lambda>hits.
        bindR (weighted_average ss_mean rows n) (\<lambda>excess.
        Inr [(strategy, \<lparr>su_samples = Max (set (map ss_samples rows)), su_hit_rate = py_round 4 hits, su_mean = py_round 6 excess,
          su_horizons = foldl (\<lambda>d r. dict_set d (int_text (ss_horizon r)) (ss_samples r, ss_hit_rate r, ss_mean r)) [] rows\<rparr>)])))"

definition summarize_for_route :: "strategy_stats list \<Rightarrow> string \<Rightarrow> string list \<Rightarrow> int \<Rightarrow> (string \<times> route_summary) list result" where
  "summarize_for_route stats regime strategies min_samples =
     bindR (mapR (route_entry stats regime min_samples) strategies) (\<lambda>entries. Inr (foldl (\<lambda>d (k, v). dict_set d k v) [] (concat entries)))"


subsection \<open>Bounds of the classification\<close>

definition in_range :: "rat \<Rightarrow> pyfloat \<Rightarrow> bool" where
  "in_range b v \<longleftrightarrow> (\<exists>q. v = Fin q \<and> 0 \<le> q \<and> q \<le> b \<and> wf_float v)"

lemma range_of_rat: "0 \<le> x \<Longrightarrow> x \<le> of_int n \<Longrightarrow> n \<le> 8 \<Longrightarrow> in_range (of_int n) (f_of_rat x)"
proof -
  assume x: "0 \<le> x" "x \<le> of_int n" "n \<le> 8"
  then have n: "0 \<le> n" by (metis of_int_0_le_iff order_trans)
  have r: "rep64 (of_int n)" using n x(3) by (intro rep64_of_int) auto
  have hi: "rn64 x \<le> of_int n" by (rule rn64_le_rep [OF x(2) r])
  have lo: "0 \<le> rn64 x" by (rule rn64_nonneg [OF x(1)])
  have "(of_int n :: rat) \<le> 8" using x(3) by (metis of_int_le_numeral_iff)
  then have "f_of_rat x = Fin (rn64 x)" using lo hi by (auto simp: f_of_rat_def Let_def)
  then show ?thesis using lo hi f_of_rat_wf [of x] by (auto simp: in_range_def)
qed

lemma range_mono: "in_range a v \<Longrightarrow> a \<le> b \<Longrightarrow> in_range b v"
  by (auto simp: in_range_def)

lemma range_le: "in_range b v \<Longrightarrow> f_le (Fin 0) v \<and> v \<noteq> NaN"
  by (auto simp: in_range_def)

lemma range_add: "in_range (of_int a) x \<Longrightarrow> in_range (of_int b) y \<Longrightarrow> a + b \<le> 8 \<Longrightarrow> in_range (of_int (a + b)) (f_add x y)"
  unfolding in_range_def by (auto intro!: range_of_rat [unfolded in_range_def, simplified] simp del: of_int_add simp add: of_int_add [symmetric])

lemma range_mul: "in_range 1 x \<Longrightarrow> in_range 1 y \<Longrightarrow> in_range 1 (f_mul x y)"
  using range_of_rat [of _ 1] by (auto simp: in_range_def f_mul_def mult_le_one)

lemma range_one: "in_range 1 (Fin 1)" "in_range 1 (Fin 0)"
  using range_of_rat [of 1 1] range_of_rat [of 0 1] by (simp_all add: f_of_rat_of_int [of 1, simplified])

lemma range_lit: "0 \<le> q \<Longrightarrow> q \<le> 1 \<Longrightarrow> in_range 1 (lit q)"
  using range_of_rat [of q 1] by simp

lemma wf_f_div: "f_div a b = Some q \<Longrightarrow> wf_float q"
  by (auto simp: f_div_def f_inf_sign_def split: pyfloat.splits if_splits)

lemma range_clip: "wf_float q \<Longrightarrow> in_range 1 (py_max (Fin 0) (py_min (Fin 1) q))"
  using range_one by (cases q) (auto simp: py_max_def py_min_def in_range_def)

lemma ramp_up_range: "ramp_up x lo hi = Inr u \<Longrightarrow> in_range 1 u"
  by (auto simp: ramp_up_def quotient_def bindR_Inr_iff range_one intro!: range_clip split: if_splits option.splits dest: wf_f_div)

lemma range_complement: "in_range 1 u \<Longrightarrow> in_range 1 (f_sub (Fin 1) u)"
  using range_of_rat [of _ 1] by (auto simp: in_range_def f_sub_def)

lemma ramp_down_range: "ramp_down x lo hi = Inr u \<Longrightarrow> in_range 1 u"
  by (auto simp: ramp_down_def bindR_Inr_iff dest: ramp_up_range intro: range_complement)

lemma band_range: "band x lo hi soft = Inr u \<Longrightarrow> in_range 1 u"
  by (auto simp: band_def range_one dest: ramp_up_range ramp_down_range split: if_splits)

lemma weighted_range: "weighted w x = Inr v \<Longrightarrow> 0 \<le> w \<Longrightarrow> w \<le> 1 \<Longrightarrow> (\<And>u. x = Inr u \<Longrightarrow> in_range 1 u) \<Longrightarrow> in_range 1 v"
  by (auto simp: weighted_def bindR_Inr_iff intro!: range_mul range_lit)

lemma two_parts_range:
  assumes "two_parts a b = Inr v" and "\<And>x u. a = Some x \<Longrightarrow> x = Inr u \<Longrightarrow> in_range 1 u" and "\<And>x u. b = Some x \<Longrightarrow> x = Inr u \<Longrightarrow> in_range 1 u"
  shows "in_range 2 v"
  using assms range_add [of 1 _ 1] range_mono [of 1 _ 2] range_mono [OF range_one(2), of 2]
  by (auto simp: two_parts_def bindR_Inr_iff split: option.splits)

definition unit_scores :: "sub_scores \<Rightarrow> bool" where
  "unit_scores f \<longleftrightarrow> (\<forall>n v. f n = Some v \<longrightarrow> in_range 1 v)"

lemma unit_scoresD: "unit_scores f \<Longrightarrow> f n = Some v \<Longrightarrow> in_range 1 v"
  by (simp add: unit_scores_def)

lemma two_weighted:
  assumes "two_parts (map_option (\<lambda>x. weighted a (g x)) u) (map_option (\<lambda>x. weighted b (h x)) w) = Inr v" and "0 \<le> a" "a \<le> 1" "0 \<le> b" "b \<le> 1"
    and "\<And>x y. u = Some x \<Longrightarrow> g x = Inr y \<Longrightarrow> in_range 1 y" and "\<And>x y. w = Some x \<Longrightarrow> h x = Inr y \<Longrightarrow> in_range 1 y"
  shows "in_range 2 v"
proof (rule two_parts_range [OF assms(1)])
  show "in_range 1 z" if "map_option (\<lambda>x. weighted a (g x)) u = Some x" "x = Inr z" for x z
    using that assms(2,3,6) by (cases u) (auto intro: weighted_range)
  show "in_range 1 z" if "map_option (\<lambda>x. weighted b (h x)) w = Some x" "x = Inr z" for x z
    using that assms(4,5,7) by (cases w) (auto intro: weighted_range)
qed

lemma raw_range:
  assumes "raw_membership th f r = Inr v" and "unit_scores f"
  shows "in_range 2 v"
proof -
  note ramps = ramp_up_range ramp_down_range band_range
  have one: "in_range 1 u \<Longrightarrow> in_range 2 u" for u using range_mono [of 1 u 2] by simp
  consider "r = ''high_position_retreat''" | "r = ''downtrend_market''" | "r = ''crowding_market''" | "r = ''range_market''"
    | "r \<notin> {''high_position_retreat'', ''downtrend_market'', ''crowding_market'', ''range_market''}" by auto
  then show ?thesis
  proof cases
    case 1
    then show ?thesis using assms(1) ramps(1) one range_one(2) by (cases "f ''retreat_score''") (auto simp: raw_membership_def Let_def)
  next
    case 2
    then show ?thesis using assms(1) ramps by (auto simp: raw_membership_def Let_def elim!: two_weighted)
  next
    case 3
    then show ?thesis using assms(1) ramps(1) one range_one(2) by (cases "f ''crowding_score''") (auto simp: raw_membership_def Let_def)
  next
    case 4
    then show ?thesis using assms(1) ramps unit_scoresD [OF assms(2)] by (auto simp: raw_membership_def Let_def elim!: two_weighted)
  next
    case 5
    then show ?thesis using assms(1) ramps unit_scoresD [OF assms(2)] by (auto simp: raw_membership_def Let_def elim!: two_weighted)
  qed
qed

lemma mapR_in:
  assumes "mapR f xs = Inr ys" and "y \<in> set ys"
  shows "\<exists>x \<in> set xs. f x = Inr y"
proof -
  have "list_all2 (\<lambda>x y. f x = Inr y) xs ys" using assms(1) by (simp add: mapR_list_all2)
  then obtain n where "n < length xs" "ys ! n = y" "f (xs ! n) = Inr (ys ! n)"
    using assms(2) by (auto simp: list_all2_conv_all_nth in_set_conv_nth)
  then show ?thesis using nth_mem by fastforce
qed

lemma memberships_range:
  assumes "regime_memberships th f = Inr ms" and "unit_scores f" and "in_range 1 (threshold (rt_base th) (2/100))"
  shows "length ms = length regimes \<and> (\<forall>m \<in> set ms. in_range 3 m)"
proof -
  have "in_range 3 m" if m: "m \<in> set ms" for m
  proof -
    obtain r v where "raw_membership th f r = Inr v" "m = f_add (threshold (rt_base th) (2/100)) v"
      using mapR_in [OF assms(1) [unfolded regime_memberships_def] m] by (auto simp: bindR_Inr_iff)
    then show ?thesis using raw_range [OF _ assms(2)] range_add [of 1 _ 2] assms(3) by force
  qed
  then show ?thesis using mapR_length assms(1) unfolding regime_memberships_def by blast
qed

lemma f_le_add1: "wf_float a \<Longrightarrow> f_le (Fin 0) a \<Longrightarrow> f_le (Fin 0) b \<Longrightarrow> f_le a (f_add a b)"
  by (cases a; cases b) (auto intro!: f_of_rat_ge_Fin)

lemma f_le_add2: "wf_float b \<Longrightarrow> f_le (Fin 0) a \<Longrightarrow> f_le (Fin 0) b \<Longrightarrow> f_le b (f_add a b)"
  by (cases a; cases b) (auto intro!: f_of_rat_ge_Fin)

lemma foldl_add_bounds:
  assumes "wf_float acc" and "f_le (Fin 0) acc" and "\<forall>x \<in> set xs. wf_float x \<and> f_le (Fin 0) x"
  shows "f_le acc (foldl f_add acc xs) \<and> wf_float (foldl f_add acc xs) \<and> (\<forall>x \<in> set xs. f_le x (foldl f_add acc xs))"
  using assms
proof (induction xs arbitrary: acc)
  case Nil
  then show ?case by (cases acc) auto
next
  case (Cons x xs)
  have a: "wf_float (f_add acc x)" "f_le (Fin 0) (f_add acc x)" using Cons.prems f_add_nonneg by (simp_all add: wf_f_add)
  note ih = Cons.IH [OF a]
  have "f_le acc (f_add acc x)" "f_le x (f_add acc x)" using Cons.prems f_le_add1 f_le_add2 by simp_all
  then show ?case using ih Cons.prems by (auto intro: f_le_trans)
qed

lemma f_sum_bounds:
  assumes "\<forall>x \<in> set xs. in_range b x"
  shows "f_le (Fin 0) (f_sum xs) \<and> wf_float (f_sum xs) \<and> (\<forall>x \<in> set xs. f_le x (f_sum xs))"
proof -
  have "\<forall>x \<in> set xs. wf_float x \<and> f_le (Fin 0) x" using assms by (auto simp: in_range_def)
  then show ?thesis using foldl_add_bounds [of "Fin 0" xs] by (simp add: f_sum_def)
qed

lemma quotient_range:
  assumes "quotient m s = Inr q" and "in_range b m" and "f_le m s" and "\<not> f_le s (Fin 0)"
  shows "in_range 1 q"
proof -
  obtain x where x: "m = Fin x" "0 \<le> x" using assms(2) by (auto simp: in_range_def)
  show ?thesis
  proof (cases s)
    case (Fin y)
    then have "0 < y" "x \<le> y" using assms(3,4) x by auto
    then show ?thesis using assms(1) x Fin range_of_rat [of "x / y" 1] by (auto simp: quotient_def f_div_def)
  qed (use assms x range_one in \<open>auto simp: quotient_def f_div_def\<close>)
qed

lemma round_range: "in_range 1 v \<Longrightarrow> in_range 1 (py_round 4 v)"
proof -
  assume v: "in_range 1 v"
  then obtain q where q: "v = Fin q" "0 \<le> q" "q \<le> 1" by (auto simp: in_range_def)
  have "half_even (q * 10 ^ 4) \<le> 10 ^ 4" using q(3) by (intro half_even_le_int) simp
  moreover have "0 \<le> half_even (q * 10 ^ 4)" using q(2) by (intro half_even_nonneg) simp
  ultimately have "0 \<le> (of_int (half_even (q * 10 ^ 4)) / 10 ^ 4 :: rat)" "(of_int (half_even (q * 10 ^ 4)) / 10 ^ 4 :: rat) \<le> 1" by simp_all
  then show ?thesis using range_of_rat [of _ 1] by (simp add: q(1))
qed

lemma shares_range:
  assumes "shares ms u = Inr (ps, v)" and "\<forall>m \<in> set ms. in_range b m" and "in_range 1 u"
  shows "length ps = length ms \<and> (\<forall>p \<in> set ps. in_range 1 p) \<and> in_range 1 v \<and> (u = Fin 0 \<longrightarrow> ms \<noteq> [] \<longrightarrow> (\<exists>m \<in> set ms. f_lt (Fin 0) m) \<longrightarrow> v = Fin 0)"
proof -
  let ?s = "f_add (f_sum ms) u"
  note sum = f_sum_bounds [OF assms(2)]
  have u: "wf_float u" "f_le (Fin 0) u" using assms(3) by (auto simp: in_range_def)
  have up: "f_le (f_sum ms) ?s" "f_le u ?s" using sum u f_le_add1 f_le_add2 by blast+
  show ?thesis
  proof (cases "f_le ?s (Fin 0)")
    case True
    have "\<not> f_lt (Fin 0) m" if "m \<in> set ms" for m
      using f_le_trans [OF conjunct2 [OF conjunct2 [OF sum], rule_format, OF that] f_le_trans [OF up(1) True]] by (cases m) auto
    then show ?thesis using assms(1) True range_one by (auto simp: shares_def Let_def)
  next
    case False
    obtain us where us: "mapR (\<lambda>m. bindR (quotient m ?s) (\<lambda>q. Inr (py_round 4 q))) ms = Inr ps" "quotient u ?s = Inr us" "v = py_round 4 us"
      using assms(1) False by (auto simp: shares_def Let_def bindR_Inr_iff)
    have "in_range 1 p" if p: "p \<in> set ps" for p
    proof -
      obtain m q where m: "m \<in> set ms" "quotient m ?s = Inr q" "p = py_round 4 q"
        using mapR_in [OF us(1) p] by (auto simp: bindR_Inr_iff)
      have "f_le m ?s" using sum m(1) up(1) f_le_trans by blast
      then show ?thesis using quotient_range [OF m(2) _ _ False] assms(2) m(1,3) round_range by blast
    qed
    then have "length ps = length ms \<and> (\<forall>p \<in> set ps. in_range 1 p)" using mapR_length [OF us(1)] by blast
    moreover have "in_range 1 v" using quotient_range [OF us(2) assms(3) up(2) False] us(3) round_range by simp
    moreover have "v = Fin 0" if "u = Fin 0"
      using us(2,3) that False f_le_not_NaN [OF up(1)] by (cases ?s) (auto simp: quotient_def f_div_def half_even_of_int [of 0, simplified])
    ultimately show ?thesis by blast
  qed
qed

lemma first_max_in: "first_max b xs \<in> set (b # xs)"
  by (induction b xs rule: first_max.induct) auto

lemma first_max_greatest:
  assumes "\<forall>x \<in> set (b # xs). snd x \<noteq> NaN"
  shows "\<forall>x \<in> set (b # xs). f_le (snd x) (snd (first_max b xs))"
  using assms
proof (induction xs arbitrary: b)
  case (Cons y ys)
  define c where "c = (if f_lt (snd b) (snd y) then y else b)"
  have ok: "\<forall>x \<in> set (c # ys). snd x \<noteq> NaN" using Cons.prems by (simp add: c_def)
  have le: "f_le (snd b) (snd c)" "f_le (snd y) (snd c)" using Cons.prems by (simp_all add: c_def f_lt_imp_le f_not_lt)
  have eq: "first_max b (y # ys) = first_max c ys" by (simp add: c_def)
  have ih: "f_le (snd c) (snd (first_max c ys))" "\<forall>x \<in> set ys. f_le (snd x) (snd (first_max c ys))" using Cons.IH [OF ok] by simp_all
  show ?case unfolding eq using ih f_le_trans [OF le(1) ih(1)] f_le_trans [OF le(2) ih(1)] by simp
qed simp

text \<open>C26: The classification is a distribution with a consistent winner. For sub-scores and a base membership in the unit interval
  every probability, the unknown share and the confidence lie in the unit interval; the primary
  regime is one of the five with the greatest probability, which no unknown share exceeds and which is reported, rounded to four places, as the confidence, or it is UNKNOWN, and then the
  unknown share exceeds the probability of every regime; and when no sub-score is missing and the base is positive it is not UNKNOWN. With UNKNOWN the code reports
  confidence 0, where its docstring promises the greatest regime probability.\<close>

theorem classification_consistent:
  assumes "classify_regime th f = Inr c" and "unit_scores f" and "in_range 1 (threshold (rt_base th) (2/100))"
  shows "map fst (cl_probabilities c) = regimes \<and> (\<forall>x \<in> set (cl_probabilities c). in_range 1 (snd x)) \<and> in_range 1 (cl_unknown c)
    \<and> in_range 1 (cl_confidence c)
    \<and> (cl_primary c = unknown_regime \<and> (\<forall>x \<in> set (cl_probabilities c). f_lt (snd x) (cl_unknown c)) \<and> cl_confidence c = Fin 0
       \<or> (\<exists>p. (cl_primary c, p) \<in> set (cl_probabilities c) \<and> f_le (cl_unknown c) p \<and> cl_confidence c = py_round 4 p \<and> (\<forall>x \<in> set (cl_probabilities c). f_le (snd x) p)))
    \<and> (missing_slots f = 0 \<and> f_lt (Fin 0) (threshold (rt_base th) (2/100)) \<longrightarrow> cl_primary c \<in> set regimes)"
proof -
  obtain ms ps u where ms: "regime_memberships th f = Inr ms" and sh: "shares ms (unknown_mass f) = Inr (ps, u)"
    and c: "cl_probabilities c = zip regimes ps" "cl_unknown c = u"
      "cl_primary c = fst (if f_lt (snd (first_max (hd (zip regimes ps)) (tl (zip regimes ps)))) u then (unknown_regime, Fin 0) else first_max (hd (zip regimes ps)) (tl (zip regimes ps)))"
      "cl_confidence c = py_round 4 (snd (if f_lt (snd (first_max (hd (zip regimes ps)) (tl (zip regimes ps)))) u then (unknown_regime, Fin 0) else first_max (hd (zip regimes ps)) (tl (zip regimes ps))))"
    using assms(1) by (auto simp: classify_regime_def Let_def bindR_Inr_iff)
  note m = memberships_range [OF ms assms(2,3)]
  have mass: "in_range 1 (unknown_mass f)"
    unfolding unknown_mass_def using range_of_rat [of "of_nat (missing_slots f) / of_nat total_slots" 1]
    by (simp add: missing_slots_def total_slots_def required_features_def)
  note s = shares_range [OF sh conjunct2 [OF m] mass]
  have len: "length ps = length regimes" using s m by simp
  let ?rows = "zip regimes ps" and ?best = "first_max (hd (zip regimes ps)) (tl (zip regimes ps))"
  have ne: "?rows \<noteq> []" using len by (auto simp: regimes_def)
  have rows: "set (hd ?rows # tl ?rows) = set ?rows" using ne by simp
  have unit: "in_range 1 (snd x)" if "x \<in> set ?rows" for x using s set_zip_rightD [of "fst x" "snd x"] that by fastforce
  have best: "?best \<in> set ?rows" using first_max_in [of "hd ?rows" "tl ?rows"] unfolding rows .
  have great: "f_le (snd x) (snd ?best)" if "x \<in> set ?rows" for x
    using first_max_greatest [of "hd ?rows" "tl ?rows"] that unit range_le unfolding rows by blast
  have zero: "py_round 4 (Fin 0) = Fin 0" using half_even_of_int [of 0] by simp
  have "fst ?best \<in> set regimes" using best by (metis in_set_zipE prod.collapse)
  moreover have "u = Fin 0" if "missing_slots f = 0 \<and> f_lt (Fin 0) (threshold (rt_base th) (2/100))"
  proof -
    obtain x where x: "x \<in> set ms" using m by (cases ms) (auto simp: regimes_def)
    obtain v r where v: "x = f_add (threshold (rt_base th) (2/100)) v" "raw_membership th f r = Inr v"
      using mapR_in [OF ms [unfolded regime_memberships_def] x] by (auto simp: bindR_Inr_iff)
    have "f_le (threshold (rt_base th) (2/100)) x"
      unfolding v(1) using raw_range [OF v(2) assms(2)] assms(3) by (auto simp: in_range_def intro!: f_le_add1)
    then have "f_lt (Fin 0) x" using that f_lt_le_trans by blast
    then show ?thesis using s x that by (auto simp: unknown_mass_def)
  qed
  moreover have "\<not> f_lt (snd ?best) (Fin 0)" using unit [OF best] by (auto simp: in_range_def)
  moreover have "in_range 1 (cl_confidence c)" using unit [OF best] round_range range_one(2) zero by (simp add: c(4))
  moreover have "f_lt (snd x) u" if "f_lt (snd ?best) u" "x \<in> set ?rows" for x using f_le_lt_trans [OF great [OF that(2)] that(1)] .
  moreover have "f_le u (snd ?best)" if "\<not> f_lt (snd ?best) u"
    using that unit [OF best] s f_not_lt [of "snd ?best" u] by (auto simp: in_range_def dest: f_le_not_NaN)
  ultimately show ?thesis
    using unit s len best great zero by (cases ?best) (auto simp: c unknown_regime_def)
qed

subsection \<open>The classifier never raises\<close>

text \<open>Doubles lie on the grid of the smallest subnormal, so the difference of two different ones does
  not vanish and no ramp divides by zero.\<close>

lemma powi_above:
  assumes "k \<le> e"
  shows "\<exists>n. (2::rat) powi e = of_int n * 2 powi k"
proof -
  obtain n where "e = int n + k" using zle_iff_zadd [of k e] assms by (auto simp: add.commute)
  then have "(2::rat) powi e = of_int (2 ^ n) * 2 powi k" by (simp add: power_int_add)
  then show ?thesis by blast
qed

lemma rep64_grid:
  assumes "rep64 x"
  obtains k where "x = of_int k * 2 powi (- 1074)"
proof (cases "x = 0")
  case True
  then show ?thesis using that [of 0] by simp
next
  case False
  obtain m e where x: "x = of_int m * 2 powi e" and e: "- 1074 \<le> e"
  proof
    show "x = of_int (half_even (x / 2 powi ulp_exp x)) * 2 powi ulp_exp x" using assms False by (simp add: rep64_def rn64_def)
    show "- 1074 \<le> ulp_exp x" by (simp add: ulp_exp_def)
  qed
  obtain n where "(2::rat) powi e = of_int n * 2 powi (- 1074)" using powi_above [OF e] by blast
  then have "x = of_int (m * n) * 2 powi (- 1074)" unfolding x by (simp only: of_int_mult mult.assoc)
  then show ?thesis by (rule that)
qed

lemma sub_not_zero:
  assumes "wf_float a" and "wf_float b" and "\<not> f_le a b"
  shows "f_sub a b \<noteq> Fin 0"
proof (cases "is_finite a \<and> is_finite b")
  case True
  then obtain x y where xy: "a = Fin x" "b = Fin y" by (cases a; cases b) auto
  define g :: rat where "g = 2 powi (- 1074)"
  have g: "0 < g" "rep64 g" using rep64_scaled [of 1 "- 1074"] zero_less_power_int [of "2::rat" "- 1074"] by (simp_all only: g_def) simp_all
  have "rep64 x" "rep64 y" using assms(1,2) by (simp_all add: xy)
  then obtain k l where kl: "x = of_int k * g" "y = of_int l * g" unfolding g_def by (metis rep64_grid)
  have "y < x" using assms(3) xy by simp
  then have "l < k" unfolding kl using g(1) by (simp add: mult_less_cancel_right)
  then have "1 * g \<le> of_int (k - l) * g" using g(1) by (intro mult_right_mono) simp_all
  then have "g \<le> x - y" unfolding kl by (simp add: left_diff_distrib)
  then have "rn64 (x - y) \<noteq> 0" using rn64_ge_rep [OF _ g(2), of "x - y"] g(1) by linarith
  then show ?thesis by (auto simp: xy f_sub_def f_of_rat_def Let_def)
qed (use assms in \<open>cases a; cases b; auto simp: f_sub_def\<close>)

lemma quotient_total: "b \<noteq> Fin 0 \<Longrightarrow> \<exists>q. quotient a b = Inr q"
  by (cases a; cases b) (auto simp: quotient_def f_div_def)

lemma ramp_up_total: "wf_float lo \<Longrightarrow> wf_float hi \<Longrightarrow> \<exists>u. ramp_up x lo hi = Inr u"
  using quotient_total [OF sub_not_zero, of hi lo "f_sub x lo"] by (auto simp: ramp_up_def)

lemma ramp_down_total: "wf_float lo \<Longrightarrow> wf_float hi \<Longrightarrow> \<exists>u. ramp_down x lo hi = Inr u"
  using ramp_up_total [of lo hi x] by (auto simp: ramp_down_def)

lemma band_total: "wf_float lo \<Longrightarrow> wf_float hi \<Longrightarrow> \<exists>u. band x lo hi soft = Inr u"
  using ramp_up_total [of "f_sub lo soft" lo x] ramp_down_total [of hi "f_add hi soft" x] by (simp add: band_def wf_f_add wf_f_sub)

lemma two_weighted_total:
  assumes "\<And>x. \<exists>u. g x = Inr u" and "\<And>x. \<exists>u. h x = Inr u"
  shows "\<exists>v. two_parts (map_option (\<lambda>x. weighted a (g x)) u) (map_option (\<lambda>x. weighted b (h x)) w) = Inr v"
proof -
  obtain g' where "g x = Inr (g' x)" for x using assms(1) by metis
  moreover obtain h' where "h x = Inr (h' x)" for x using assms(2) by metis
  ultimately show ?thesis by (cases u; cases w) (simp_all add: two_parts_def weighted_def)
qed

lemma threshold_wf: "(\<And>v. t = Some v \<Longrightarrow> wf_float v) \<Longrightarrow> wf_float (threshold t d)"
  by (cases t) (simp_all add: threshold_def)

lemma raw_total:
  assumes "\<And>v. rt_range_lo th = Some v \<Longrightarrow> wf_float v" and "\<And>v. rt_range_hi th = Some v \<Longrightarrow> wf_float v"
  shows "\<exists>u. raw_membership th f r = Inr u"
proof -
  have up: "\<exists>u. ramp_up x (f_sub t a) (f_add t b) = Inr u" and down: "\<exists>u. ramp_down x (f_sub t a) (f_add t b) = Inr u" for x t a b
    by (simp_all add: ramp_up_total ramp_down_total wf_f_add wf_f_sub)
  have bnd: "\<exists>u. band x (threshold (rt_range_lo th) a) (threshold (rt_range_hi th) b) soft = Inr u" for x a b soft
    using assms by (intro band_total threshold_wf)
  note two = two_weighted_total
  consider "r = ''high_position_retreat''" | "r = ''downtrend_market''" | "r = ''crowding_market''" | "r = ''range_market''"
    | "r \<notin> {''high_position_retreat'', ''downtrend_market'', ''crowding_market'', ''range_market''}" by auto
  then show ?thesis
  proof cases
    case 1
    then show ?thesis using up by (cases "f ''retreat_score''") (simp_all add: raw_membership_def Let_def)
  next
    case 2
    then show ?thesis unfolding raw_membership_def Let_def by (simp del: map_option_eq_Some) (intro two up down)
  next
    case 3
    then show ?thesis using up by (cases "f ''crowding_score''") (simp_all add: raw_membership_def Let_def)
  next
    case 4
    then show ?thesis unfolding raw_membership_def Let_def by simp (intro two bnd, blast)
  next
    case 5
    then show ?thesis unfolding raw_membership_def Let_def by simp (intro two up, blast)
  qed
qed

lemma mapR_total:
  assumes "\<And>x. \<exists>y. f x = Inr y"
  shows "\<exists>ys. mapR f xs = Inr ys"
proof (induction xs)
  case (Cons x xs)
  then show ?case using assms [of x] by (auto simp: bindR_Inr_iff)
qed simp

text \<open>C27: The classifier never raises. Whatever sub-scores are present or missing, NaN and infinities included,
  and for any thresholds that are doubles, a classification is returned: no ramp and no
  normalisation divides by zero.\<close>

theorem classifier_never_raises:
  assumes "\<And>v. rt_range_lo th = Some v \<Longrightarrow> wf_float v" and "\<And>v. rt_range_hi th = Some v \<Longrightarrow> wf_float v"
  shows "\<exists>c. classify_regime th f = Inr c"
proof -
  obtain ms where ms: "regime_memberships th f = Inr ms"
    using mapR_total [of "\<lambda>r. bindR (raw_membership th f r) (\<lambda>v. Inr (f_add (threshold (rt_base th) (2/100)) v))" regimes] raw_total [of th f, OF assms]
    by (auto simp: regime_memberships_def bindR_Inr_iff)
  let ?s = "f_add (f_sum ms) (unknown_mass f)"
  have q: "\<exists>q. quotient m ?s = Inr q" if "\<not> f_le ?s (Fin 0)" for m using that by (intro quotient_total) auto
  have "\<exists>x. shares ms (unknown_mass f) = Inr x"
  proof (cases "f_le ?s (Fin 0)")
    case False
    have "\<exists>ps. mapR (\<lambda>m. bindR (quotient m ?s) (\<lambda>q. Inr (py_round 4 q))) ms = Inr ps" using q [OF False] by (intro mapR_total) (auto simp: bindR_Inr_iff)
    then show ?thesis using q [OF False] False by (auto simp: shares_def Let_def bindR_Inr_iff)
  qed (simp add: shares_def)
  then show ?thesis by (auto simp: classify_regime_def ms Let_def)
qed

subsection \<open>Calibration\<close>

lemma dict_set_keys: "map fst (dict_set d k v) = (if k \<in> set (map fst d) then map fst d else map fst d @ [k])"
  by (induction d k v rule: dict_set.induct) auto

lemma group_rows_get:
  "dict_get (group_rows rows gs) k = (case (dict_get gs k, map snd (filter (\<lambda>g. fst g = k) rows)) of
     (None, []) \<Rightarrow> None | (None, xs) \<Rightarrow> Some xs | (Some ys, xs) \<Rightarrow> Some (ys @ xs))"
  by (induction rows gs rule: group_rows.induct) (auto split: option.splits list.splits)

lemma group_rows_keys:
  "distinct (map fst gs) \<Longrightarrow> distinct (map fst (group_rows rows gs)) \<and> set (map fst (group_rows rows gs)) = set (map fst gs) \<union> set (map fst rows)"
proof (induction rows gs rule: group_rows.induct)
  case (2 k x rows gs)
  have "distinct (map fst (dict_set gs k ((case dict_get gs k of None \<Rightarrow> [] | Some xs \<Rightarrow> xs) @ [x])))"
    unfolding dict_set_keys using "2.prems" by simp
  from "2.IH" [OF this] show ?case unfolding group_rows.simps dict_set_keys by (auto split: if_splits)
qed simp

lemma sorted_entries:
  fixes d :: "('k::linorder \<times> 'v) list"
  assumes "distinct (map fst d)"
  shows "sort_key fst d = map (\<lambda>k. (k, the (dict_get d k))) (sorted_list_of_set (set (map fst d)))"
proof -
  have "distinct (map fst (sort_key fst d)) \<and> sorted (map fst (sort_key fst d))" using assms by (simp add: distinct_map distinct_sort)
  then have keys: "map fst (sort_key fst d) = sorted_list_of_set (set (map fst d))"
    by (intro sorted_distinct_set_unique) auto
  have "e = (fst e, the (dict_get d (fst e)))" if "e \<in> set d" for e
    using map_of_is_SomeI [OF assms, of "fst e" "snd e"] that by (simp add: dict_get_def)
  then have "map (\<lambda>e. (fst e, the (dict_get d (fst e)))) (sort_key fst d) = sort_key fst d" by (intro map_idI) simp
  then show ?thesis unfolding keys [symmetric] by (simp add: comp_def)
qed

text \<open>C28: The calibration equals its declarative reading: one row for every combination of regime, strategy and
  horizon among the selected outcomes, in ascending order, computed from exactly the excess
  returns of the outcomes of that combination, in their order.\<close>

theorem calibration_groups_exactly:
  "regime_strategy_stats horizons rows = map (\<lambda>k. stats_row (k, map snd (filter (\<lambda>g. fst g = k) (selected_rows horizons rows))))
     (sorted_list_of_set (set (map fst (selected_rows horizons rows))))"
proof -
  let ?rows = "selected_rows horizons rows"
  let ?d = "group_rows ?rows []"
  have d: "distinct (map fst ?d)" "set (map fst ?d) = set (map fst ?rows)" using group_rows_keys [of "[]" ?rows] by simp_all
  have "the (dict_get ?d k) = map snd (filter (\<lambda>g. fst g = k) ?rows)" if "k \<in> set (map fst ?rows)" for k
  proof -
    have "map snd (filter (\<lambda>g. fst g = k) ?rows) \<noteq> []" using that by (auto simp: filter_empty_conv)
    then show ?thesis by (auto simp: group_rows_get split: list.splits)
  qed
  then show ?thesis unfolding regime_strategy_stats_def sorted_entries [OF d(1)] d(2) by simp
qed

subsection \<open>Witness\<close>

definition no_thresholds :: regime_thresholds where
  "no_thresholds = \<lparr>rt_retreat = None, rt_drawdown = None, rt_down_breadth = None, rt_range_lo = None, rt_range_hi = None,
     rt_rotation_breadth = None, rt_center = None, rt_base = None\<rparr>"

definition half_scores :: sub_scores where
  "half_scores = (\<lambda>_. Some (Fin (1/2)))"

theorem classifier_never_raises_witness:
  "\<exists>c. classify_regime no_thresholds half_scores = Inr c"
  by (rule classifier_never_raises) (simp_all add: no_thresholds_def)

theorem classification_consistent_witness:
  "\<exists>c. classify_regime no_thresholds half_scores = Inr c \<and> cl_primary c \<in> set regimes"
proof -
  obtain c where c: "classify_regime no_thresholds half_scores = Inr c"
    using classifier_never_raises_witness by blast
  have "wf_float (Fin (1/2))" using rep64_scaled [of 1 "- 1"] by simp
  then have u: "unit_scores half_scores" by (simp add: unit_scores_def half_scores_def in_range_def exI [of _ "1/2"])
  have b: "threshold (rt_base no_thresholds) (2/100) = lit (2/100)" by (simp add: no_thresholds_def threshold_def)
  have p: "f_lt (Fin 0) (lit (2/100))" by code_simp
  have "missing_slots half_scores = 0" by (simp add: missing_slots_def half_scores_def)
  then show ?thesis using classification_consistent [OF c u, unfolded b, OF range_lit] p c by simp
qed

end
