(* ===== verification/PriceRules.thy ===== *)
theory PriceRules
  imports Grounding
begin

text \<open>
  Price-limit rules of the exchange: the metadata readers of \<open>engines/market/price_limit_metadata.py\<close>, the
  versioned rules of \<open>engines/market/price_limit_rules.py\<close>, and the tradability and cost functions of
  \<open>engines/backtest/execution.py\<close>. A metadata cell is a dictionary; a trading day is its proleptic ordinal;
  prices are doubles. Upper-casing touches ASCII letters. \<open>Decimal\<close> arithmetic is exact up to the 28 digits of the
  default context, and \<open>Decimal(str(x))\<close> is the shortest decimal that reads back as \<open>x\<close>.
\<close>

subsection \<open>Metadata\<close>

definition upper_limit_price_keys :: "string list" where
  "upper_limit_price_keys = [''upper_limit_price'', ''UpperLimitPrice'', ''up_limit_price'', utf8 [230, 182, 168, 229, 129, 156, 228, 187, 183]]"

definition lower_limit_price_keys :: "string list" where
  "lower_limit_price_keys = [''lower_limit_price'', ''LowerLimitPrice'', ''down_limit_price'', utf8 [232, 183, 140, 229, 129, 156, 228, 187, 183]]"

definition limit_up_rate_keys :: "string list" where
  "limit_up_rate_keys = [''limit_up_rate'', ''LimitUpRate'', ''up_limit_rate'', utf8 [230, 182, 168, 229, 129, 156, 229, 185, 133, 229, 186, 166]]"

definition limit_down_rate_keys :: "string list" where
  "limit_down_rate_keys = [''limit_down_rate'', ''LimitDownRate'', ''down_limit_rate'', utf8 [232, 183, 140, 229, 129, 156, 229, 185, 133, 229, 186, 166]]"

definition risk_warning_keys :: "string list" where
  "risk_warning_keys = [''is_risk_warning'', ''is_st'', ''risk_warning'']"

definition name_keys :: "string list" where
  "name_keys = [''name'', ''stock_name'', ''instrument_name'']"

definition listing_stage_keys :: "string list" where
  "listing_stage_keys = [''listing_stage'', ''trade_status'']"

definition absent :: "pyval \<Rightarrow> bool" where
  "absent v \<longleftrightarrow> v = VNone \<or> v = VStr []"

datatype parsed_price = PriceMissing | PriceValid pyfloat | PriceInvalid string

definition invalid_price :: "string \<Rightarrow> string" where
  "invalid_price field = ''PRICE_LIMIT_PRICE_INVALID:'' @ field"

text \<open>\<open>float(value)\<close> inside \<open>try ... except (TypeError, ValueError)\<close>: an overflow still escapes.\<close>

definition try_float :: "pyval \<Rightarrow> pyfloat option result" where
  "try_float v = (case py_float v of Inr f \<Rightarrow> Inr (Some f)
     | Inl e \<Rightarrow> if exc_class e = ''TypeError'' \<or> exc_class e = ''ValueError'' then Inr None else Inl e)"

definition parse_optional_price :: "pyval \<Rightarrow> string \<Rightarrow> parsed_price result" where
  "parse_optional_price v field = (if absent v then Inr PriceMissing
     else bindR (try_float v) (\<lambda>x. Inr (case x of
         None \<Rightarrow> PriceInvalid (invalid_price field @ '':not_numeric'')
       | Some p \<Rightarrow> if \<not> is_finite p \<or> f_le p (Fin 0) then PriceInvalid (invalid_price field @ '':non_positive_or_non_finite'') else PriceValid p)))"

fun first_present :: "mapping \<Rightarrow> string list \<Rightarrow> pyval" where
  "first_present d [] = VNone"
| "first_present d (k # ks) = (case dict_get d k of None \<Rightarrow> first_present d ks | Some v \<Rightarrow> if absent v then first_present d ks else v)"

definition risk_words :: "string list" where
  "risk_words = [''1'', ''true'', ''yes'', ''y'', ''on'', ''st'', ''*st'', utf8 [239, 188, 138, 115, 116]]"

definition extract_risk_warning :: "mapping \<Rightarrow> bool option" where
  "extract_risk_warning d = (case first_present d risk_warning_keys of
     VNone \<Rightarrow> (case first_present d name_keys of VNone \<Rightarrow> None | name \<Rightarrow> Some (str_in ''ST'' (str_upper (py_str name))))
   | VStr s \<Rightarrow> Some (str_lower (strip s) \<in> set risk_words)
   | v \<Rightarrow> Some (truthy v))"

definition extract_listing_stage :: "mapping \<Rightarrow> string option" where
  "extract_listing_stage d = (case first_present d listing_stage_keys of VNone \<Rightarrow> None | v \<Rightarrow> Some (str_upper (strip (py_str v))))"

definition extract_upper_limit_price :: "mapping \<Rightarrow> pyval" where
  "extract_upper_limit_price d = first_present d upper_limit_price_keys"

definition extract_lower_limit_price :: "mapping \<Rightarrow> pyval" where
  "extract_lower_limit_price d = first_present d lower_limit_price_keys"

definition extract_limit_up_rate :: "mapping \<Rightarrow> pyval" where
  "extract_limit_up_rate d = first_present d limit_up_rate_keys"

definition extract_limit_down_rate :: "mapping \<Rightarrow> pyval" where
  "extract_limit_down_rate d = first_present d limit_down_rate_keys"

text \<open>\<open>float(str(v).replace("%", "").replace(",", ""))\<close>.\<close>

definition rate_of :: "pyval \<Rightarrow> pyfloat option" where
  "rate_of v = parse_float (filter (\<lambda>c. c \<noteq> CHR ''%'' \<and> c \<noteq> CHR '','') (py_str v))"

definition percent :: "pyfloat \<Rightarrow> pyfloat" where
  "percent r = (case f_div r (Fin 100) of None \<Rightarrow> r | Some q \<Rightarrow> q)"

definition valid_rate_value :: "pyval \<Rightarrow> bool" where
  "valid_rate_value v \<longleftrightarrow> \<not> absent v \<and> (case rate_of v of None \<Rightarrow> False
     | Some r \<Rightarrow> is_finite r \<and> \<not> f_le r (Fin 0) \<and> f_le (if f_lt (Fin 1) r then percent r else r) (Fin 1))"

record meta_capabilities =
  mc_buy_rule :: bool
  mc_sell_rule :: bool
  mc_actual_upper :: bool
  mc_actual_lower :: bool
  mc_rate_upper :: bool
  mc_rate_lower :: bool
  mc_risk :: bool
  mc_stage :: bool

definition is_valid_price :: "parsed_price \<Rightarrow> bool" where
  "is_valid_price p = (case p of PriceValid _ \<Rightarrow> True | _ \<Rightarrow> False)"

definition inspect_price_limit_meta :: "mapping \<Rightarrow> pyfloat option \<Rightarrow> pyfloat option \<Rightarrow> meta_capabilities result" where
  "inspect_price_limit_meta d upper lower =
     bindR (parse_optional_price (case upper of Some p \<Rightarrow> VFloat p | None \<Rightarrow> extract_upper_limit_price d) ''upper_limit_price'') (\<lambda>u.
     bindR (parse_optional_price (case lower of Some p \<Rightarrow> VFloat p | None \<Rightarrow> extract_lower_limit_price d) ''lower_limit_price'') (\<lambda>l.
     let rate_upper = valid_rate_value (extract_limit_up_rate d); rate_lower = valid_rate_value (extract_limit_down_rate d);
         risk = (extract_risk_warning d \<noteq> None); stage = (extract_listing_stage d \<noteq> None)
     in Inr \<lparr>mc_buy_rule = is_valid_price u \<or> rate_upper \<or> risk \<or> stage, mc_sell_rule = is_valid_price l \<or> rate_lower \<or> risk \<or> stage,
          mc_actual_upper = is_valid_price u, mc_actual_lower = is_valid_price l, mc_rate_upper = rate_upper, mc_rate_lower = rate_lower,
          mc_risk = risk, mc_stage = stage\<rparr>))"

subsection \<open>Rules\<close>

definition star_board :: string where
  "star_board = utf8 [231, 167, 145, 229, 136, 155, 230, 157, 191]"

definition chinext_board :: string where
  "chinext_board = utf8 [229, 136, 155, 228, 184, 154, 230, 157, 191]"

definition bse_board :: string where
  "bse_board = utf8 [229, 140, 151, 228, 186, 164, 230, 137, 128]"

definition main_board :: string where
  "main_board = utf8 [228, 184, 187, 230, 157, 191]"

definition st_10_effective_day :: int where
  "st_10_effective_day = 739803"

record limit_rule =
  lr_board :: string
  lr_up :: "pyfloat option"
  lr_down :: "pyfloat option"
  lr_has_limit :: bool
  lr_source :: string
  lr_version :: string

definition rule_error :: "string \<Rightarrow> exc" where
  "rule_error s = ValueError (''PRICE_LIMIT_RULE_'' @ s)"

definition validated :: "limit_rule \<Rightarrow> limit_rule result" where
  "validated r = (if \<not> lr_has_limit r then Inr r
     else (case lr_up r of None \<Rightarrow> Inl (rule_error ''INCOMPLETE:limit_up_pct'')
     | Some up \<Rightarrow> (case lr_down r of None \<Rightarrow> Inl (rule_error ''INCOMPLETE:limit_down_pct'')
     | Some down \<Rightarrow> if \<not> is_finite up \<or> \<not> is_finite down then Inl (rule_error ''INVALID:non_finite'')
         else if f_le up (Fin 0) then Inl (rule_error ''INVALID:limit_up_pct'')
         else if f_le down (Fin 0) then Inl (rule_error ''INVALID:limit_down_pct'')
         else Inr r)))"

definition code_of :: "string \<Rightarrow> string" where
  "code_of symbol = strip (hd (split_on CHR ''.'' symbol))"

definition board_of :: "string \<Rightarrow> string" where
  "board_of symbol = (let code = code_of symbol in
     if starts_with code ''688'' then star_board
     else if starts_with code ''300'' \<or> starts_with code ''301'' then chinext_board
     else if starts_with code ''920'' \<or> starts_with code ''8'' \<or> starts_with code ''4'' then bse_board
     else main_board)"

definition normalize_rate :: "pyfloat \<Rightarrow> pyfloat result" where
  "normalize_rate v = (if \<not> is_finite v then Inl (rule_error ''INVALID:non_finite'')
     else if f_le v (Fin 0) then Inl (rule_error ''INVALID:non_positive'')
     else let n = (if f_lt (Fin 1) v then percent v else v) in
       if f_lt (Fin 1) n then Inl (rule_error ''INVALID:greater_than_100_percent'') else Inr n)"

fun first_float :: "mapping \<Rightarrow> string list \<Rightarrow> pyfloat option" where
  "first_float d [] = None"
| "first_float d (k # ks) = (case dict_get d k of None \<Rightarrow> first_float d ks
     | Some v \<Rightarrow> if absent v then first_float d ks else (case rate_of v of None \<Rightarrow> first_float d ks | Some r \<Rightarrow> Some r))"

definition quote_limit_rule :: "string \<Rightarrow> mapping \<Rightarrow> limit_rule option result" where
  "quote_limit_rule board d = (let up = first_float d limit_up_rate_keys; down = first_float d limit_down_rate_keys in
     if up = None \<and> down = None then Inr None
     else bindR (normalize_rate (case up of Some x \<Rightarrow> x | None \<Rightarrow> the down)) (\<lambda>up'.
       bindR (normalize_rate (case down of Some x \<Rightarrow> x | None \<Rightarrow> up')) (\<lambda>down'.
       Inr (Some \<lparr>lr_board = board, lr_up = Some up', lr_down = Some down', lr_has_limit = True, lr_source = ''quote'', lr_version = ''QUOTE_LIMIT_RATE''\<rparr>))))"

definition local_rule :: "string \<Rightarrow> rat \<Rightarrow> string \<Rightarrow> limit_rule" where
  "local_rule board pct version = \<lparr>lr_board = board, lr_up = Some (lit pct), lr_down = Some (lit pct), lr_has_limit = True, lr_source = ''rule'', lr_version = version\<rparr>"

definition no_limit_stages :: "string list" where
  "no_limit_stages = [''IPO_FIRST_DAY'', ''RELISTING_FIRST_DAY'', ''NO_LIMIT'', ''NONE_LIMIT'']"

definition board_rule :: "string \<Rightarrow> bool \<Rightarrow> int \<Rightarrow> limit_rule" where
  "board_rule board risky day =
     (if board = star_board then local_rule board (20/100) ''STAR_20''
      else if board = chinext_board then local_rule board (20/100) ''CHINEXT_20''
      else if board = bse_board then local_rule board (30/100) ''BSE_30''
      else if risky \<and> day < st_10_effective_day then local_rule board (5/100) ''MAIN_BOARD_ST_PRE_20260706''
      else if risky then local_rule board (10/100) ''MAIN_BOARD_ST_FROM_20260706''
      else local_rule board (10/100) ''MAIN_BOARD_10'')"

definition resolve_price_limit_rule :: "string \<Rightarrow> int option \<Rightarrow> mapping \<Rightarrow> mapping \<Rightarrow> bool option \<Rightarrow> string option \<Rightarrow> limit_rule result" where
  "resolve_price_limit_rule symbol day quote security_meta is_risk_warning listing_stage = (case day of
     None \<Rightarrow> Inl (ValueError ''trade_date is required to resolve historical price-limit rules'')
   | Some d \<Rightarrow>
     (let payload = merged security_meta quote; board = board_of symbol;
          stage = str_upper (if \<not> falsy_text listing_stage then the listing_stage else (case extract_listing_stage payload of None \<Rightarrow> [] | Some s \<Rightarrow> s))
      in if stage \<in> set no_limit_stages
         then validated \<lparr>lr_board = board, lr_up = None, lr_down = None, lr_has_limit = False, lr_source = ''listing_stage'', lr_version = stage\<rparr>
         else bindR (quote_limit_rule board payload) (\<lambda>q. case q of
             Some r \<Rightarrow> validated r
           | None \<Rightarrow> validated (board_rule board (case is_risk_warning of Some b \<Rightarrow> b | None \<Rightarrow> extract_risk_warning payload = Some True) d))))"

subsection \<open>Ticks\<close>

text \<open>The decimal a positive double prints as, and the exponent of its last digit.\<close>

definition shortest_decimal :: "rat \<Rightarrow> rat" where
  "shortest_decimal x = (case parse_number (pos_float_text x) of None \<Rightarrow> x | Some q \<Rightarrow> q)"

definition decimal_of :: "rat \<Rightarrow> rat" where
  "decimal_of x = (if x = 0 then 0 else if x < 0 then - shortest_decimal (- x) else shortest_decimal x)"

definition decimal_exponent :: "rat \<Rightarrow> int" where
  "decimal_exponent x = (case split_first (\<lambda>c. c = CHR ''e'') (pos_float_text x) of (m, ex) \<Rightarrow>
     (case ex of None \<Rightarrow> 0 | Some t \<Rightarrow> (case signed t of (sg, ds) \<Rightarrow> sg * digits_value ds))
     - (case split_first (\<lambda>c. c = CHR ''.'') m of (_, None) \<Rightarrow> 0 | (_, Some part) \<Rightarrow> int (length part)))"

definition round28 :: "rat \<Rightarrow> rat" where
  "round28 x = (if x = 0 then 0 else let e = ilog10 \<bar>x\<bar> - 27 in of_int (half_even (x / 10 powi e)) * 10 powi e)"

definition half_up :: "rat \<Rightarrow> int" where
  "half_up x = (if x < 0 then - \<lfloor>1/2 - x\<rfloor> else \<lfloor>x + 1/2\<rfloor>)"

definition invalid_operation :: exc where
  "invalid_operation = PyExc ''InvalidOperation'' []"

definition quantize :: "int \<Rightarrow> rat \<Rightarrow> rat result" where
  "quantize e x = (let c = half_up (x / 10 powi e) in if 10 ^ 28 \<le> \<bar>c\<bar> then Inl invalid_operation else Inr (of_int c * 10 powi e))"

text \<open>The tick is a positive finite double: its callers make sure of it.\<close>

definition round_to_tick :: "pyfloat \<Rightarrow> rat \<Rightarrow> pyfloat result" where
  "round_to_tick price tick_size = (case price of
     Fin p \<Rightarrow> (let tick = shortest_decimal tick_size in
       bindR (quantize 0 (round28 (decimal_of p / tick))) (\<lambda>units.
       bindR (quantize (decimal_exponent tick_size) (round28 (units * tick))) (\<lambda>q. Inr (f_of_rat q))))
   | NaN \<Rightarrow> Inr NaN
   | _ \<Rightarrow> Inl invalid_operation)"

fun tick_from :: "mapping \<Rightarrow> string list \<Rightarrow> rat result" where
  "tick_from d [] = Inr (rn64 (1/100))"
| "tick_from d (k # ks) = (if absent (get_item d k) then tick_from d ks
     else bindR (try_float (get_item d k)) (\<lambda>x. case x of Some (Fin t) \<Rightarrow> if 0 < t then Inr t else tick_from d ks | _ \<Rightarrow> tick_from d ks))"

definition resolve_tick_size :: "mapping \<Rightarrow> rat result" where
  "resolve_tick_size quote = tick_from quote [''tick_size'', ''price_tick'', ''min_price_change'']"

subsection \<open>Tradability\<close>

record trade_context =
  tc_symbol :: string
  tc_day :: "int option"
  tc_prev_close :: pyfloat
  tc_open :: pyfloat
  tc_quote :: mapping
  tc_upper :: "pyfloat option"
  tc_lower :: "pyfloat option"

definition meta_risk_warning :: "mapping \<Rightarrow> bool option" where
  "meta_risk_warning d = (let v = get_item d ''is_risk_warning'' in if absent v then None else Some (truthy v))"

definition checked_limit_price :: "pyfloat option \<Rightarrow> string \<Rightarrow> pyfloat option result" where
  "checked_limit_price v field = (case v of None \<Rightarrow> Inr None
     | Some p \<Rightarrow> if \<not> is_finite p \<or> f_le p (Fin 0) then Inl (ValueError (invalid_price field)) else Inr (Some p))"

definition limit_pct :: "(limit_rule \<Rightarrow> pyfloat option) \<Rightarrow> string \<Rightarrow> string \<Rightarrow> bool option \<Rightarrow> int option \<Rightarrow> mapping \<Rightarrow> pyfloat option result" where
  "limit_pct side field symbol is_st day quote =
     bindR (resolve_price_limit_rule symbol day quote [] is_st None) (\<lambda>r.
     if \<not> lr_has_limit r then Inr None
     else (case side r of None \<Rightarrow> Inl (rule_error (''INCOMPLETE:'' @ field)) | Some pct \<Rightarrow> Inr (Some pct)))"

definition price_limit_up_pct :: "string \<Rightarrow> bool option \<Rightarrow> int option \<Rightarrow> mapping \<Rightarrow> pyfloat result" where
  "price_limit_up_pct symbol is_st day quote = bindR (limit_pct lr_up ''limit_up_pct'' symbol is_st day quote) (\<lambda>p. Inr (case p of None \<Rightarrow> PInf | Some x \<Rightarrow> x))"

definition price_limit_down_pct :: "string \<Rightarrow> bool option \<Rightarrow> int option \<Rightarrow> mapping \<Rightarrow> pyfloat result" where
  "price_limit_down_pct symbol is_st day quote = bindR (limit_pct lr_down ''limit_down_pct'' symbol is_st day quote) (\<lambda>p. Inr (case p of None \<Rightarrow> PInf | Some x \<Rightarrow> x))"

definition limit_up_price :: "pyfloat \<Rightarrow> string \<Rightarrow> bool option \<Rightarrow> int option \<Rightarrow> mapping \<Rightarrow> pyfloat result" where
  "limit_up_price prev symbol is_st day quote =
     bindR (limit_pct lr_up ''limit_up_pct'' symbol is_st day quote) (\<lambda>p. case p of None \<Rightarrow> Inr PInf
     | Some pct \<Rightarrow> bindR (resolve_tick_size quote) (\<lambda>tick. round_to_tick (f_mul prev (f_add (Fin 1) pct)) tick))"

definition limit_down_price :: "pyfloat \<Rightarrow> string \<Rightarrow> bool option \<Rightarrow> int option \<Rightarrow> mapping \<Rightarrow> pyfloat result" where
  "limit_down_price prev symbol is_st day quote =
     bindR (limit_pct lr_down ''limit_down_pct'' symbol is_st day quote) (\<lambda>p. case p of None \<Rightarrow> Inr NInf
     | Some pct \<Rightarrow> bindR (resolve_tick_size quote) (\<lambda>tick. round_to_tick (f_mul prev (f_sub (Fin 1) pct)) tick))"

definition can_buy :: "pyfloat \<Rightarrow> pyfloat \<Rightarrow> string \<Rightarrow> bool option \<Rightarrow> int option \<Rightarrow> mapping \<Rightarrow> bool result" where
  "can_buy price prev symbol is_st day quote = bindR (limit_up_price prev symbol is_st day quote) (\<lambda>u. Inr (f_lt price u))"

definition can_sell :: "pyfloat \<Rightarrow> pyfloat \<Rightarrow> string \<Rightarrow> bool option \<Rightarrow> int option \<Rightarrow> mapping \<Rightarrow> bool result" where
  "can_sell price prev symbol is_st day quote = bindR (limit_down_price prev symbol is_st day quote) (\<lambda>l. Inr (f_lt l price))"

definition can_buy_with_context :: "trade_context \<Rightarrow> bool result" where
  "can_buy_with_context c = bindR (checked_limit_price (tc_upper c) ''upper_limit_price'') (\<lambda>u. case u of
     Some p \<Rightarrow> Inr (f_lt (tc_open c) p)
   | None \<Rightarrow> can_buy (tc_open c) (tc_prev_close c) (tc_symbol c) (meta_risk_warning (tc_quote c)) (tc_day c) (tc_quote c))"

definition can_sell_with_context :: "trade_context \<Rightarrow> bool result" where
  "can_sell_with_context c = bindR (checked_limit_price (tc_lower c) ''lower_limit_price'') (\<lambda>l. case l of
     Some p \<Rightarrow> Inr (f_lt p (tc_open c))
   | None \<Rightarrow> can_sell (tc_open c) (tc_prev_close c) (tc_symbol c) (meta_risk_warning (tc_quote c)) (tc_day c) (tc_quote c))"

definition is_suspended :: "pyfloat option \<Rightarrow> bool" where
  "is_suspended volume = (case volume of None \<Rightarrow> True | Some v \<Rightarrow> v = NaN \<or> f_le v (Fin 0))"

definition commission_rate :: pyfloat where
  "commission_rate = lit (25/100000)"

definition commission_min :: pyfloat where
  "commission_min = Fin 5"

definition stamp_tax_rate :: pyfloat where
  "stamp_tax_rate = lit (5/10000)"

definition slippage_rate :: pyfloat where
  "slippage_rate = lit (1/1000)"

text \<open>The constants as the doubles they are, for evaluation.\<close>

lemma rate_codes [code]:
  "commission_rate = Fin (1152921504606847 / 4611686018427387904)"
  "stamp_tax_rate = Fin (1152921504606847 / 2305843009213693952)"
  "slippage_rate = Fin (1152921504606847 / 1152921504606846976)"
  unfolding commission_rate_def stamp_tax_rate_def slippage_rate_def by code_simp+

definition cost_of :: "pyfloat \<Rightarrow> string \<Rightarrow> pyfloat" where
  "cost_of value side = (if f_le value (Fin 0) then Fin 0
     else f_add (f_add (py_max (f_mul value commission_rate) commission_min) (if side = ''sell'' then f_mul value stamp_tax_rate else Fin 0))
            (f_mul value slippage_rate))"

subsection \<open>Resolved rules\<close>

definition rate_ok :: "pyfloat option \<Rightarrow> bool" where
  "rate_ok p \<longleftrightarrow> (\<exists>x. p = Some (Fin x) \<and> 0 < x \<and> x \<le> 1)"

lemma percent_positive:
  assumes "1 < x"
  shows "1/128 \<le> rn64 (x / 100)"
proof (rule rn64_ge_rep)
  show "rep64 (1/128)" using rep64_scaled [of 1 "- 7"] by simp
  show "1/128 \<le> x / 100" using assms by simp
qed

lemma normalize_rate_ok:
  assumes "normalize_rate v = Inr n"
  shows "rate_ok (Some n)"
proof (cases v)
  case (Fin x)
  then show ?thesis using assms percent_positive [of x]
    by (auto simp: normalize_rate_def rate_ok_def percent_def f_div_def Let_def not_less f_of_rat_def split: if_splits)
qed (use assms in \<open>simp_all add: normalize_rate_def\<close>)

lemma validated_ok: "validated r = Inr r' \<Longrightarrow> r' = r"
  by (auto simp: validated_def split: if_splits option.splits)

lemma local_rate_ok: "0 < q \<Longrightarrow> q \<le> 1 \<Longrightarrow> f_lt (Fin 0) (lit q) \<Longrightarrow> rate_ok (Some (lit q))"
  using f_of_rat_le_Fin [of q 1] rep64_of_int [of 1] by (cases "f_of_rat q") (auto simp: rate_ok_def)

lemma board_rates: "f_lt (Fin 0) (lit (20/100))" "f_lt (Fin 0) (lit (30/100))" "f_lt (Fin 0) (lit (10/100))" "f_lt (Fin 0) (lit (5/100))"
  by code_simp+

lemma board_rule_ok: "rate_ok (lr_up (board_rule b risky d)) \<and> rate_ok (lr_down (board_rule b risky d)) \<and> lr_board (board_rule b risky d) = b \<and> lr_has_limit (board_rule b risky d)"
  using board_rates local_rate_ok by (simp add: board_rule_def local_rule_def)

lemma quote_rule_ok:
  assumes "quote_limit_rule b d = Inr (Some r)"
  shows "rate_ok (lr_up r) \<and> rate_ok (lr_down r) \<and> lr_board r = b \<and> lr_has_limit r"
  using assms normalize_rate_ok by (auto simp: quote_limit_rule_def Let_def bindR_Inr_iff split: if_splits)

text \<open>C32: A resolved price-limit rule is sound. It belongs to the board of the symbol; either both its limits are
  fractions above 0 and at most 1, whether they come from the quote, as rates or percentages, or from the
  board, or it has no limits and the symbol is in a stage without limits.\<close>

theorem resolved_rule_sound:
  assumes "resolve_price_limit_rule symbol day quote meta risk stage = Inr r"
  shows "lr_board r = board_of symbol \<and> (if lr_has_limit r then rate_ok (lr_up r) \<and> rate_ok (lr_down r) else lr_version r \<in> set no_limit_stages)"
proof -
  obtain d where d: "day = Some d" using assms by (cases day) (auto simp: resolve_price_limit_rule_def)
  define payload where "payload = merged meta quote"
  define st where "st = str_upper (if \<not> falsy_text stage then the stage else (case extract_listing_stage payload of None \<Rightarrow> [] | Some s \<Rightarrow> s))"
  have r: "(if st \<in> set no_limit_stages
      then validated \<lparr>lr_board = board_of symbol, lr_up = None, lr_down = None, lr_has_limit = False, lr_source = ''listing_stage'', lr_version = st\<rparr>
      else bindR (quote_limit_rule (board_of symbol) payload) (\<lambda>q. case q of Some r \<Rightarrow> validated r
        | None \<Rightarrow> validated (board_rule (board_of symbol) (case risk of Some b \<Rightarrow> b | None \<Rightarrow> extract_risk_warning payload = Some True) d))) = Inr r"
    using assms unfolding resolve_price_limit_rule_def d option.case Let_def st_def payload_def .
  show ?thesis
  proof (cases "st \<in> set no_limit_stages")
    case True
    then show ?thesis using r validated_ok by fastforce
  next
    case False
    then obtain q where q: "quote_limit_rule (board_of symbol) payload = Inr q" using r by (auto simp: bindR_Inr_iff)
    show ?thesis
    proof (cases q)
      case None
      then show ?thesis using r False q validated_ok board_rule_ok by fastforce
    next
      case (Some r')
      then show ?thesis using r False q validated_ok quote_rule_ok [of "board_of symbol" payload r'] by fastforce
    qed
  qed
qed

theorem resolved_rule_sound_witness:
  "\<exists>r. resolve_price_limit_rule ''600519.SH'' (Some 739000) [(''limit_up_rate'', VStr ''20%'')] [] None None = Inr r \<and> rate_ok (lr_up r)"
proof -
  have "(case resolve_price_limit_rule ''600519.SH'' (Some 739000) [(''limit_up_rate'', VStr ''20%'')] [] None None of Inl _ \<Rightarrow> False | Inr r \<Rightarrow> lr_has_limit r)"
    by code_simp
  then obtain r where r: "resolve_price_limit_rule ''600519.SH'' (Some 739000) [(''limit_up_rate'', VStr ''20%'')] [] None None = Inr r" "lr_has_limit r"
    by (auto split: sum.splits)
  from resolved_rule_sound [OF r(1)] r show ?thesis by simp
qed

end
