(* ===== verification/Backtest.thy ===== *)
theory Backtest
  imports PriceRules
begin

text \<open>
  The portfolio backtest: fills of \<open>engines/backtest/events.py\<close> and \<open>execution_model.py\<close>, the position book of
  \<open>execution.py\<close>, and portfolio state, rebalancing day and run of \<open>portfolio_backtest.py\<close>. Panels are lists of rows, one row
  per symbol, all of the shape of the scores. A date is its ordinal; \<open>date_text\<close> is its text and event
  times are minutes since day 0, in one time zone. Arguments are the event ids (\<open>fresh\<close>), numpy's mean, and pydantic's
  reading of the score metadata. NumPy's division by zero is an infinity or NaN, not an exception.
\<close>

subsection \<open>Events\<close>

datatype execution_model = NEXT_OPEN | NEXT_CLOSE | VWAP | LIMIT_PRICE

record signal_event =
  sg_id :: string
  sg_symbol :: string
  sg_side :: string
  sg_time :: int

record order_event =
  oe_id :: string
  oe_signal_id :: string
  oe_symbol :: string
  oe_side :: string
  oe_time :: int
  oe_model :: execution_model
  oe_quantity :: pyfloat
  oe_limit :: "pyfloat option"

record fill_event =
  fe_id :: string
  fe_order_id :: string
  fe_symbol :: string
  fe_side :: string
  fe_time :: int
  fe_expected :: "pyfloat option"
  fe_price :: "pyfloat option"
  fe_slippage :: "pyfloat option"
  fe_reject :: "string option"

definition lookahead :: "string \<Rightarrow> exc" where
  "lookahead s = ValueError (''LOOKAHEAD_VIOLATION: '' @ s)"

definition schedule_order :: "string \<Rightarrow> signal_event \<Rightarrow> int \<Rightarrow> execution_model \<Rightarrow> pyfloat \<Rightarrow> pyfloat option \<Rightarrow> order_event result" where
  "schedule_order i signal next_session model quantity limit_price =
     (if next_session \<le> sg_time signal then Inl (lookahead ''order time must be after signal time'')
      else Inr \<lparr>oe_id = i, oe_signal_id = sg_id signal, oe_symbol = sg_symbol signal, oe_side = sg_side signal, oe_time = next_session,
        oe_model = model, oe_quantity = quantity, oe_limit = limit_price\<rparr>)"

definition positive :: "pyval \<Rightarrow> pyfloat option result" where
  "positive v = bindR (try_float v) (\<lambda>x. Inr (case x of None \<Rightarrow> None | Some f \<Rightarrow> if f_lt (Fin 0) f then Some f else None))"

definition vwap_of :: "mapping \<Rightarrow> pyfloat option result" where
  "vwap_of bar = bindR (positive (get_item bar ''volume'')) (\<lambda>volume. bindR (positive (get_item bar ''amount'')) (\<lambda>amount.
     case (volume, amount) of (Some v, Some a) \<Rightarrow> Inr (f_div a v) | _ \<Rightarrow> positive (get_item bar ''vwap'')))"

definition limit_reached :: "mapping \<Rightarrow> pyfloat option \<Rightarrow> bool result" where
  "limit_reached bar limit = bindR (positive (get_item bar ''low'')) (\<lambda>low. bindR (positive (get_item bar ''high'')) (\<lambda>high.
     Inr (case (limit, low, high) of (Some p, Some l, Some h) \<Rightarrow> f_le l p \<and> f_le p h | _ \<Rightarrow> False)))"

definition fill_price :: "execution_model \<Rightarrow> mapping \<Rightarrow> pyfloat option \<Rightarrow> (pyfloat option \<times> string option) result" where
  "fill_price model bar limit = (case model of
     NEXT_OPEN \<Rightarrow> bindR (positive (get_item bar ''open'')) (\<lambda>p. Inr (p, None))
   | NEXT_CLOSE \<Rightarrow> bindR (positive (get_item bar ''close'')) (\<lambda>p. Inr (p, None))
   | VWAP \<Rightarrow> bindR (vwap_of bar) (\<lambda>p. Inr (p, None))
   | LIMIT_PRICE \<Rightarrow> bindR (limit_reached bar limit) (\<lambda>ok. Inr (if ok then (limit, None) else (None, Some ''LIMIT_PRICE_NOT_REACHED''))))"

definition resolve_fill :: "string \<Rightarrow> order_event \<Rightarrow> signal_event \<Rightarrow> mapping \<Rightarrow> int \<Rightarrow> fill_event result" where
  "resolve_fill i order signal bar fill_time =
     bindR (fill_price (oe_model order) bar (oe_limit order)) (\<lambda>(price, reason).
     if fill_time \<le> sg_time signal then Inl (lookahead ''fill_time must be after signal_time'')
     else Inr \<lparr>fe_id = i, fe_order_id = oe_id order, fe_symbol = oe_symbol order, fe_side = oe_side order, fe_time = fill_time,
        fe_expected = price, fe_price = price, fe_slippage = map_option (\<lambda>p. f_sub p p) price, fe_reject = reason\<rparr>)"

subsection \<open>Position book\<close>

record position_lot =
  pl_shares :: pyfloat
  pl_available :: int

type_synonym position_book = "position_lot list"

definition book_add :: "pyfloat \<Rightarrow> int \<Rightarrow> position_book \<Rightarrow> position_book" where
  "book_add shares buy_date b = b @ [\<lparr>pl_shares = shares, pl_available = buy_date + 1\<rparr>]"

definition total_shares :: "position_book \<Rightarrow> pyfloat" where
  "total_shares b = f_sum (map pl_shares b)"

definition available_shares :: "int \<Rightarrow> position_book \<Rightarrow> pyfloat" where
  "available_shares d b = f_sum (map pl_shares (filter (\<lambda>l. pl_available l \<le> d) b))"

definition pop_epsilon :: pyfloat where
  "pop_epsilon = lit (1 / 10 ^ 12)"

fun pop_lots :: "int \<Rightarrow> pyfloat \<Rightarrow> position_book \<Rightarrow> position_book" where
  "pop_lots d remaining [] = []"
| "pop_lots d remaining (l # ls) =
     (if f_le remaining pop_epsilon then l # ls
      else if d < pl_available l then l # pop_lots d remaining ls
      else let take = py_min (pl_shares l) remaining in l\<lparr>pl_shares := f_sub (pl_shares l) take\<rparr> # pop_lots d (f_sub remaining take) ls)"

definition dust :: pyfloat where
  "dust = lit (1 / 10 ^ 9)"

definition target_share :: pyfloat where
  "target_share = lit (99/100)"

text \<open>The constants as the doubles they are, for evaluation.\<close>

lemma constant_codes [code]:
  "dust = Fin (4835703278458517 / 4835703278458516698824704)"
  "pop_epsilon = Fin (4951760157141521 / 4951760157141521099596496896)"
  "target_share = Fin (4458563631096791 / 4503599627370496)"
  unfolding dust_def pop_epsilon_def target_share_def by code_simp+

definition pop_available :: "pyfloat \<Rightarrow> int \<Rightarrow> position_book \<Rightarrow> pyfloat \<times> position_book" where
  "pop_available shares d b = (let remaining = py_min shares (available_shares d b) in
     (remaining, filter (\<lambda>l. f_lt dust (pl_shares l)) (pop_lots d remaining b)))"

subsection \<open>Panels and portfolio state\<close>

record panels =
  pa_symbols :: "string list"
  pa_dates :: "int list"
  pa_scores :: "pyfloat list list"
  pa_opens :: "pyfloat list list"
  pa_highs :: "pyfloat list list"
  pa_lows :: "pyfloat list list"
  pa_closes :: "pyfloat list list"
  pa_volumes :: "pyfloat list list"
  pa_meta :: "mapping list list option"
  pa_upper :: "pyval list list option"
  pa_lower :: "pyval list list option"
  pa_limits :: "pyfloat list list option"
  pa_amounts :: "pyfloat list list option"

definition cell :: "'a list list \<Rightarrow> nat \<Rightarrow> nat \<Rightarrow> 'a" where
  "cell p i t = p ! i ! t"

definition shape :: "'a list list \<Rightarrow> nat \<times> nat" where
  "shape p = (length p, case p of [] \<Rightarrow> 0 | r # _ \<Rightarrow> length r)"

definition valid_price :: "pyfloat \<Rightarrow> bool" where
  "valid_price v \<longleftrightarrow> \<not> (v = NaN \<or> f_le v (Fin 0))"

definition np_div :: "pyfloat \<Rightarrow> pyfloat \<Rightarrow> pyfloat" where
  "np_div x y = (case f_div x y of Some q \<Rightarrow> q | None \<Rightarrow> if f_lt (Fin 0) x then PInf else if f_lt x (Fin 0) then NInf else NaN)"

record trade =
  tr_date :: int
  tr_symbol :: string
  tr_side :: string
  tr_shares :: pyfloat
  tr_price :: pyfloat
  tr_value :: pyfloat
  tr_cost :: pyfloat

record limit_stats =
  ls_unique :: int
  ls_meta :: int
  ls_buy_meta :: int
  ls_sell_meta :: int
  ls_actual :: int
  ls_rate :: int
  ls_fallback :: int
  ls_buy_fallback :: int
  ls_sell_fallback :: int
  ls_any_fallback :: int
  ls_both_fallback :: int
  ls_buy_ambiguous :: int
  ls_sell_ambiguous :: int
  ls_invalid_upper :: int
  ls_invalid_lower :: int
  ls_conflicts :: "string list"

definition empty_stats :: limit_stats where
  "empty_stats = \<lparr>ls_unique = 0, ls_meta = 0, ls_buy_meta = 0, ls_sell_meta = 0, ls_actual = 0, ls_rate = 0, ls_fallback = 0,
     ls_buy_fallback = 0, ls_sell_fallback = 0, ls_any_fallback = 0, ls_both_fallback = 0, ls_buy_ambiguous = 0, ls_sell_ambiguous = 0,
     ls_invalid_upper = 0, ls_invalid_lower = 0, ls_conflicts = []\<rparr>"

definition add_conflict :: "string \<Rightarrow> limit_stats \<Rightarrow> limit_stats" where
  "add_conflict c s = (if c \<in> set (ls_conflicts s) then s else s\<lparr>ls_conflicts := ls_conflicts s @ [c]\<rparr>)"

text \<open>The cached rule context of a symbol, with whether its buy or sell rule is ambiguous.\<close>

type_synonym rule_entry = "trade_context \<times> bool \<times> bool"

record portfolio =
  pf_cash :: pyfloat
  pf_books :: "(nat \<times> position_book) list"
  pf_trades :: "trade list"
  pf_events :: "(signal_event \<times> order_event \<times> fill_event) list"
  pf_stats :: limit_stats
  pf_cache :: "(nat \<times> rule_entry) list"

type_synonym 'a day_op = "portfolio \<Rightarrow> ('a \<times> portfolio) result"

definition thenD :: "'a day_op \<Rightarrow> ('a \<Rightarrow> 'b day_op) \<Rightarrow> 'b day_op" where
  "thenD m k = (\<lambda>s. bindR (m s) (\<lambda>(x, s'). k x s'))"

definition giveD :: "'a \<Rightarrow> 'a day_op" where
  "giveD x = (\<lambda>s. Inr (x, s))"

fun each_day_op :: "('a \<Rightarrow> 'b \<Rightarrow> 'b day_op) \<Rightarrow> 'a list \<Rightarrow> 'b \<Rightarrow> 'b day_op" where
  "each_day_op f [] acc = giveD acc"
| "each_day_op f (x # xs) acc = thenD (f x acc) (each_day_op f xs)"

definition shares_of :: "portfolio \<Rightarrow> nat \<Rightarrow> pyfloat" where
  "shares_of s i = (case dict_get (pf_books s) i of None \<Rightarrow> Fin 0 | Some b \<Rightarrow> total_shares b)"

definition min_trade_value :: pyfloat where
  "min_trade_value = Fin 1"

text \<open>\<open>float(int(shares // 100) * 100)\<close>, with Python's floor division of doubles.\<close>

definition floor_div :: "rat \<Rightarrow> rat \<Rightarrow> rat" where
  "floor_div x y = (let m = x - y * (if 0 \<le> x / y then of_int \<lfloor>x / y\<rfloor> else of_int \<lceil>x / y\<rceil>);
       q = rn64 (rn64 (x - m) / y); q' = (if m \<noteq> 0 \<and> (y < 0) \<noteq> (m < 0) then rn64 (q - 1) else q);
       n = of_int \<lfloor>q'\<rfloor>
     in if 1/2 < q' - n then n + 1 else n)"

definition round_buy_shares :: "pyfloat \<Rightarrow> pyfloat result" where
  "round_buy_shares shares = (case shares of
     Fin x \<Rightarrow> Inr (f_of_rat (of_int (\<lfloor>floor_div x 100\<rfloor> * 100)))
   | _ \<Rightarrow> Inl (ValueError ''cannot convert float NaN to integer''))"

definition sell_trade :: "int \<Rightarrow> string \<Rightarrow> pyfloat \<Rightarrow> pyfloat \<Rightarrow> trade" where
  "sell_trade date symbol sold price = (let value = f_mul sold price in
     \<lparr>tr_date = date, tr_symbol = symbol, tr_side = ''sell'', tr_shares = sold, tr_price = price, tr_value = value, tr_cost = cost_of value ''sell''\<rparr>)"

definition sell :: "(string \<Rightarrow> nat \<Rightarrow> pyfloat \<Rightarrow> pyfloat \<Rightarrow> bool day_op) \<Rightarrow> panels \<Rightarrow> nat \<Rightarrow> nat \<Rightarrow> pyfloat \<Rightarrow> pyfloat \<Rightarrow> pyfloat day_op" where
  "sell execute pn i t shares price s = (case dict_get (pf_books s) i of
     None \<Rightarrow> Inr (Fin 0, s)
   | Some b \<Rightarrow> (let sold = py_min shares (available_shares (int t) b) in
       if f_le sold (Fin 0) then Inr (Fin 0, s)
       else thenD (execute ''sell'' i sold price) (\<lambda>ok s'.
         if \<not> ok then Inr (Fin 0, s')
         else (case pop_available sold (int t) b of (sold', b') \<Rightarrow>
           let tr = sell_trade (pa_dates pn ! t) (pa_symbols pn ! i) sold' price in
           Inr (tr_value tr, s'\<lparr>pf_cash := f_add (pf_cash s') (f_sub (tr_value tr) (tr_cost tr)), pf_books := dict_set (pf_books s') i b',
             pf_trades := pf_trades s' @ [tr]\<rparr>))) s))"

definition cash_limit :: "pyfloat \<Rightarrow> pyfloat" where
  "cash_limit cash = f_add cash dust"

definition affordable :: "pyfloat \<Rightarrow> pyfloat \<Rightarrow> pyfloat \<Rightarrow> bool" where
  "affordable cash value cost \<longleftrightarrow> \<not> f_lt (cash_limit cash) (f_add value cost)"

text \<open>The loop \<open>for _ in range(2)\<close> that shrinks the value until it fits with its cost.\<close>

fun fit_value :: "nat \<Rightarrow> pyfloat \<Rightarrow> pyfloat \<Rightarrow> pyfloat" where
  "fit_value 0 cash value = value"
| "fit_value (Suc n) cash value = (let cost = cost_of value ''buy'' in
     if f_le (f_add value cost) (cash_limit cash) then value else fit_value n cash (py_max (f_sub cash cost) (Fin 0)))"

definition buy_trade :: "int \<Rightarrow> string \<Rightarrow> pyfloat \<Rightarrow> pyfloat \<Rightarrow> trade" where
  "buy_trade date symbol shares price = (let value = f_mul shares price in
     \<lparr>tr_date = date, tr_symbol = symbol, tr_side = ''buy'', tr_shares = shares, tr_price = price, tr_value = value, tr_cost = cost_of value ''buy''\<rparr>)"

text \<open>The shares a value buys, in whole lots: none when the value is too small, fewer when the cost does not fit.\<close>

definition plan_buy :: "pyfloat \<Rightarrow> pyfloat \<Rightarrow> pyfloat \<Rightarrow> pyfloat option result" where
  "plan_buy cash value price =
     (if f_le value min_trade_value then Inr None
      else bindR (round_buy_shares (np_div value price)) (\<lambda>shares.
        let value1 = f_mul shares price; cost1 = cost_of value1 ''buy'' in
        if f_le shares (Fin 0) \<or> f_le value1 min_trade_value then Inr None
        else if f_lt (cash_limit cash) (f_add value1 cost1)
        then bindR (round_buy_shares (np_div (py_max (f_sub cash cost1) (Fin 0)) price)) (\<lambda>shares2.
          let value2 = f_mul shares2 price; cost2 = cost_of value2 ''buy'' in
          if f_le shares2 (Fin 0) \<or> f_lt (cash_limit cash) (f_add value2 cost2) then Inr None else Inr (Some shares2))
        else Inr (Some shares)))"

definition buy :: "(string \<Rightarrow> nat \<Rightarrow> pyfloat \<Rightarrow> pyfloat \<Rightarrow> bool day_op) \<Rightarrow> panels \<Rightarrow> nat \<Rightarrow> nat \<Rightarrow> pyfloat \<Rightarrow> pyfloat \<Rightarrow> pyfloat day_op" where
  "buy execute pn i t value price s = (let v = py_min value (pf_cash s) in
     if f_le v min_trade_value then Inr (Fin 0, s)
     else bindR (plan_buy (pf_cash s) (fit_value 2 (pf_cash s) v) price) (\<lambda>p. case p of
         None \<Rightarrow> Inr (Fin 0, s)
       | Some shares \<Rightarrow> thenD (execute ''buy'' i shares price) (\<lambda>ok s'.
           if \<not> ok then Inr (Fin 0, s')
           else let tr = buy_trade (pa_dates pn ! t) (pa_symbols pn ! i) shares price in
             Inr (tr_value tr, s'\<lparr>pf_cash := f_sub (pf_cash s') (f_add (tr_value tr) (tr_cost tr)),
               pf_books := dict_set (pf_books s') i (book_add shares (int t) (case dict_get (pf_books s') i of None \<Rightarrow> [] | Some b \<Rightarrow> b)),
               pf_trades := pf_trades s' @ [tr]\<rparr>)) s))"

subsection \<open>One rebalancing day\<close>

record backtest_config =
  bc_model :: execution_model
  bc_top_k :: nat
  bc_fail_ambiguous :: bool
  bc_fail_invalid :: bool
  bc_fresh :: "nat \<Rightarrow> string"
  bc_date_text :: "int \<Rightarrow> string"

definition typical_price :: "panels \<Rightarrow> nat \<Rightarrow> nat \<Rightarrow> pyfloat" where
  "typical_price pn i t = np_div (f_add (f_add (cell (pa_highs pn) i t) (cell (pa_lows pn) i t)) (cell (pa_closes pn) i t)) (Fin 3)"

definition vwap_price :: "panels \<Rightarrow> nat \<Rightarrow> nat \<Rightarrow> pyfloat" where
  "vwap_price pn i t = (case pa_amounts pn of None \<Rightarrow> typical_price pn i t
     | Some amounts \<Rightarrow> (let v = np_div (cell amounts i t) (cell (pa_volumes pn) i t) in
         if is_finite v \<and> f_lt (Fin 0) v then v else typical_price pn i t))"

definition execution_price :: "execution_model \<Rightarrow> panels \<Rightarrow> nat \<Rightarrow> nat \<Rightarrow> pyfloat" where
  "execution_price m pn i t = (case m of
     NEXT_OPEN \<Rightarrow> cell (pa_opens pn) i t
   | NEXT_CLOSE \<Rightarrow> cell (pa_closes pn) i t
   | VWAP \<Rightarrow> vwap_price pn i t
   | LIMIT_PRICE \<Rightarrow> (case pa_limits pn of None \<Rightarrow> NaN | Some p \<Rightarrow> cell p i t))"

definition tradable :: "backtest_config \<Rightarrow> panels \<Rightarrow> nat \<Rightarrow> nat \<Rightarrow> bool" where
  "tradable c pn t i = (let price = execution_price (bc_model c) pn i t; high = cell (pa_highs pn) i t; low = cell (pa_lows pn) i t in
     if is_suspended (Some (cell (pa_volumes pn) i t)) \<or> \<not> valid_price price then False
     else if high = NaN \<or> low = NaN then True
     else \<not> (bc_model c = LIMIT_PRICE \<and> \<not> (f_le low price \<and> f_le price high)))"

definition count_stat :: "((int \<Rightarrow> int) \<Rightarrow> limit_stats \<Rightarrow> limit_stats) \<Rightarrow> bool \<Rightarrow> limit_stats \<Rightarrow> limit_stats" where
  "count_stat upd b s = (if b then upd (\<lambda>n. n + 1) s else s)"

definition invalid_cell :: "string \<Rightarrow> limit_stats \<Rightarrow> limit_stats" where
  "invalid_cell field s = (if field = ''upper_limit_price''
     then ls_invalid_upper_update (\<lambda>n. n + 1) (add_conflict ''INVALID_UPPER_LIMIT_PRICE'' s)
     else ls_invalid_lower_update (\<lambda>n. n + 1) (add_conflict ''INVALID_LOWER_LIMIT_PRICE'' s))"

definition parse_limit_cell :: "bool \<Rightarrow> pyval \<Rightarrow> string \<Rightarrow> bool \<Rightarrow> pyfloat option day_op" where
  "parse_limit_cell fail_on_invalid v field nan_missing = (\<lambda>s.
     bindR (if nan_missing \<and> v \<noteq> VNone then try_float v else Inr None) (\<lambda>x.
     if x = Some NaN then Inr (None, s)
     else bindR (parse_optional_price v field) (\<lambda>p. case p of
         PriceMissing \<Rightarrow> Inr (None, s)
       | PriceValid q \<Rightarrow> Inr (Some q, s)
       | PriceInvalid e \<Rightarrow> if fail_on_invalid then Inl (ValueError e) else Inr (None, s\<lparr>pf_stats := invalid_cell field (pf_stats s)\<rparr>))))"

definition optional_cell :: "backtest_config \<Rightarrow> pyval list list option \<Rightarrow> nat \<Rightarrow> nat \<Rightarrow> string \<Rightarrow> pyfloat option day_op" where
  "optional_cell c p i t field = (case p of None \<Rightarrow> giveD None | Some cells \<Rightarrow> parse_limit_cell (bc_fail_invalid c) (cell cells i t) field True)"

definition prices_conflict :: "pyfloat option \<Rightarrow> pyfloat option \<Rightarrow> bool" where
  "prices_conflict a b = (case (a, b) of (Some x, Some y) \<Rightarrow> (let d = f_sub x y in f_lt dust (if f_lt d (Fin 0) then f_neg d else d)) | _ \<Rightarrow> False)"

definition covered :: "meta_capabilities \<Rightarrow> limit_stats \<Rightarrow> limit_stats" where
  "covered k s =
     count_stat ls_rate_update (mc_rate_upper k \<or> mc_rate_lower k)
     (count_stat ls_actual_update (mc_actual_upper k \<or> mc_actual_lower k)
     (count_stat ls_sell_meta_update (mc_sell_rule k)
     (count_stat ls_buy_meta_update (mc_buy_rule k)
     (count_stat ls_both_fallback_update (\<not> mc_buy_rule k \<and> \<not> mc_sell_rule k)
     (count_stat ls_any_fallback_update (\<not> mc_buy_rule k \<or> \<not> mc_sell_rule k)
     (count_stat ls_sell_fallback_update (\<not> mc_sell_rule k)
     (count_stat ls_buy_fallback_update (\<not> mc_buy_rule k)
     (count_stat ls_fallback_update (\<not> (mc_buy_rule k \<or> mc_sell_rule k))
     (count_stat ls_meta_update (mc_buy_rule k \<or> mc_sell_rule k)
     (count_stat ls_unique_update True s))))))))))"

definition base_ambiguous :: "string \<Rightarrow> int \<Rightarrow> mapping \<Rightarrow> bool" where
  "base_ambiguous symbol day meta \<longleftrightarrow> day < st_10_effective_day \<and> board_of symbol = main_board
     \<and> extract_risk_warning meta = None \<and> extract_listing_stage meta = None"

definition conflict_stats :: "bool \<Rightarrow> bool \<Rightarrow> limit_stats \<Rightarrow> limit_stats" where
  "conflict_stats upper lower s = (let s1 = (if upper then add_conflict ''UPPER_LIMIT_PRICE_CONFLICT'' s else s) in
     if lower then add_conflict ''LOWER_LIMIT_PRICE_CONFLICT'' s1 else s1)"

definition either :: "pyfloat option \<Rightarrow> pyfloat option \<Rightarrow> pyfloat option" where
  "either a b = (case a of Some x \<Rightarrow> Some x | None \<Rightarrow> b)"

definition build_context :: "backtest_config \<Rightarrow> panels \<Rightarrow> nat \<Rightarrow> nat \<Rightarrow> rule_entry day_op" where
  "build_context c pn t i =
     (let meta = (case pa_meta pn of None \<Rightarrow> [] | Some cells \<Rightarrow> cell cells i t); symbol = pa_symbols pn ! i; day = pa_dates pn ! t in
      thenD (optional_cell c (pa_upper pn) i t ''upper_limit_price'') (\<lambda>panel_upper.
      thenD (optional_cell c (pa_lower pn) i t ''lower_limit_price'') (\<lambda>panel_lower.
      thenD (parse_limit_cell (bc_fail_invalid c) (extract_upper_limit_price meta) ''upper_limit_price'' False) (\<lambda>meta_upper.
      thenD (parse_limit_cell (bc_fail_invalid c) (extract_lower_limit_price meta) ''lower_limit_price'' False) (\<lambda>meta_lower s.
      let upper = either panel_upper meta_upper; lower = either panel_lower meta_lower in
      bindR (inspect_price_limit_meta meta upper lower) (\<lambda>k.
      let base = base_ambiguous symbol day meta;
          no_buy = (base \<and> upper = None \<and> absent (extract_limit_up_rate meta));
          no_sell = (base \<and> lower = None \<and> absent (extract_limit_down_rate meta));
          stats = count_stat ls_sell_ambiguous_update no_sell (count_stat ls_buy_ambiguous_update no_buy
            (conflict_stats (prices_conflict panel_upper meta_upper) (prices_conflict panel_lower meta_lower) (covered k (pf_stats s))));
          entry = (\<lparr>tc_symbol = symbol, tc_day = Some day, tc_prev_close = cell (pa_closes pn) i (t - 1),
            tc_open = execution_price (bc_model c) pn i t, tc_quote = meta, tc_upper = upper, tc_lower = lower\<rparr>, no_buy, no_sell)
      in Inr (entry, s\<lparr>pf_stats := stats, pf_cache := dict_set (pf_cache s) i entry\<rparr>)))))))"

definition rule_context :: "backtest_config \<Rightarrow> panels \<Rightarrow> nat \<Rightarrow> nat \<Rightarrow> rule_entry day_op" where
  "rule_context c pn t i s = (case dict_get (pf_cache s) i of Some e \<Rightarrow> Inr (e, s) | None \<Rightarrow> build_context c pn t i s)"

definition unrestricted :: "panels \<Rightarrow> nat \<Rightarrow> nat \<Rightarrow> bool" where
  "unrestricted pn t i \<longleftrightarrow> t = 0 \<or> \<not> valid_price (cell (pa_closes pn) i (t - 1))"

definition ambiguous_rule :: "backtest_config \<Rightarrow> panels \<Rightarrow> nat \<Rightarrow> nat \<Rightarrow> string \<Rightarrow> exc" where
  "ambiguous_rule c pn t i side = ValueError (''BACKTEST_'' @ side @ ''_RULE_AMBIGUOUS:'' @ pa_symbols pn ! i @ ''@'' @ bc_date_text c (pa_dates pn ! t))"

definition sell_allowed :: "backtest_config \<Rightarrow> panels \<Rightarrow> nat \<Rightarrow> nat \<Rightarrow> bool day_op" where
  "sell_allowed c pn t i = (if unrestricted pn t i then giveD True
     else thenD (rule_context c pn t i) (\<lambda>(ctx, no_buy, no_sell) s.
       if bc_fail_ambiguous c \<and> no_sell then Inl (ambiguous_rule c pn t i ''SELL'')
       else bindR (can_sell_with_context ctx) (\<lambda>ok. Inr (ok, s))))"

definition buy_allowed :: "backtest_config \<Rightarrow> panels \<Rightarrow> nat \<Rightarrow> nat \<Rightarrow> bool day_op" where
  "buy_allowed c pn t i = (if unrestricted pn t i then giveD True
     else thenD (rule_context c pn t i) (\<lambda>(ctx, no_buy, no_sell) s.
       if bc_fail_ambiguous c \<and> no_buy then Inl (ambiguous_rule c pn t i ''BUY'')
       else bindR (can_buy_with_context ctx) (\<lambda>ok. Inr (ok, s))))"

definition event_time :: "int \<Rightarrow> bool \<Rightarrow> int" where
  "event_time date close = date * 1440 + (if close then 15 * 60 + 30 else 9 * 60 + 30)"

definition bar_of :: "backtest_config \<Rightarrow> panels \<Rightarrow> nat \<Rightarrow> nat \<Rightarrow> mapping" where
  "bar_of c pn t i = [(''open'', VFloat (cell (pa_opens pn) i t)), (''high'', VFloat (cell (pa_highs pn) i t)), (''low'', VFloat (cell (pa_lows pn) i t)),
     (''close'', VFloat (cell (pa_closes pn) i t)), (''volume'', VFloat (cell (pa_volumes pn) i t)),
     (''amount'', case pa_amounts pn of None \<Rightarrow> VNone | Some p \<Rightarrow> VFloat (cell p i t)),
     (''vwap'', if bc_model c = VWAP then VFloat (execution_price VWAP pn i t) else VNone)]"

definition execute_event_trade :: "backtest_config \<Rightarrow> panels \<Rightarrow> nat \<Rightarrow> string \<Rightarrow> nat \<Rightarrow> pyfloat \<Rightarrow> pyfloat \<Rightarrow> bool day_op" where
  "execute_event_trade c pn t side i quantity price s =
     (let dates = pa_dates pn; n = 3 * length (pf_events s);
          anchor = (if t = 0 then event_time (dates ! 0) False - 1440 else event_time (dates ! (t - 1)) True);
          fill_time = event_time (dates ! t) (bc_model c = NEXT_CLOSE);
          signal = \<lparr>sg_id = bc_fresh c n, sg_symbol = pa_symbols pn ! i, sg_side = str_upper side, sg_time = anchor\<rparr>
      in bindR (schedule_order (bc_fresh c (n + 1)) signal fill_time (bc_model c) quantity (if bc_model c = LIMIT_PRICE then Some price else None)) (\<lambda>order.
         bindR (resolve_fill (bc_fresh c (n + 2)) order signal (bar_of c pn t i) fill_time) (\<lambda>fill.
         Inr (fe_price fill \<noteq> None \<and> fe_reject fill = None, s\<lparr>pf_events := pf_events s @ [(signal, order, fill)]\<rparr>))))"

fun insert_desc :: "(nat \<Rightarrow> pyfloat) \<Rightarrow> nat \<Rightarrow> nat list \<Rightarrow> nat list" where
  "insert_desc key x [] = [x]"
| "insert_desc key x (y # ys) = (if f_lt (key y) (key x) then x # y # ys else y # insert_desc key x ys)"

definition sort_desc :: "(nat \<Rightarrow> pyfloat) \<Rightarrow> nat list \<Rightarrow> nat list" where
  "sort_desc key xs = foldl (\<lambda>acc x. insert_desc key x acc) [] xs"

definition eligible :: "backtest_config \<Rightarrow> panels \<Rightarrow> nat \<Rightarrow> nat list" where
  "eligible c pn t = filter (\<lambda>i. cell (pa_scores pn) i t \<noteq> NaN \<and> tradable c pn t i) [0..<length (pa_scores pn)]"

definition ranking :: "backtest_config \<Rightarrow> panels \<Rightarrow> nat \<Rightarrow> nat list" where
  "ranking c pn t = sort_desc (\<lambda>i. cell (pa_scores pn) i t) (eligible c pn t)"

fun any_blocked :: "backtest_config \<Rightarrow> panels \<Rightarrow> nat \<Rightarrow> nat list \<Rightarrow> bool day_op" where
  "any_blocked c pn t [] = giveD False"
| "any_blocked c pn t (i # is) = thenD (buy_allowed c pn t i) (\<lambda>ok s.
     if \<not> ok \<and> f_le (shares_of s i) dust then Inr (True, s) else any_blocked c pn t is s)"

definition keep_buyable :: "backtest_config \<Rightarrow> panels \<Rightarrow> nat \<Rightarrow> nat \<Rightarrow> nat list \<Rightarrow> nat list day_op" where
  "keep_buyable c pn t i acc = thenD (buy_allowed c pn t i) (\<lambda>ok s. Inr (if ok \<or> f_lt dust (shares_of s i) then acc @ [i] else acc, s))"

definition choose_targets :: "backtest_config \<Rightarrow> panels \<Rightarrow> nat \<Rightarrow> nat list day_op" where
  "choose_targets c pn t = (let order = ranking c pn t; first = take (bc_top_k c) order in
     thenD (any_blocked c pn t first) (\<lambda>blocked.
     if blocked then thenD (each_day_op (keep_buyable c pn t) order []) (\<lambda>kept. giveD (take (bc_top_k c) kept))
     else giveD first))"

definition mark :: "backtest_config \<Rightarrow> panels \<Rightarrow> pyfloat list \<Rightarrow> nat \<Rightarrow> nat \<Rightarrow> pyfloat" where
  "mark c pn last_close t i = (let price = execution_price (bc_model c) pn i t in if valid_price price then price else last_close ! i)"

definition position_value :: "backtest_config \<Rightarrow> panels \<Rightarrow> pyfloat list \<Rightarrow> nat \<Rightarrow> portfolio \<Rightarrow> nat \<Rightarrow> pyfloat" where
  "position_value c pn last_close t s i = (let price = mark c pn last_close t i in if valid_price price then f_mul (shares_of s i) price else Fin 0)"

definition drop_position :: "backtest_config \<Rightarrow> panels \<Rightarrow> nat \<Rightarrow> nat list \<Rightarrow> nat \<Rightarrow> pyfloat \<Rightarrow> pyfloat day_op" where
  "drop_position c pn t targets i traded s =
     (if i \<in> set targets \<or> f_le (shares_of s i) dust \<or> \<not> tradable c pn t i then Inr (traded, s)
      else thenD (sell_allowed c pn t i) (\<lambda>ok s'. if \<not> ok then Inr (traded, s')
        else thenD (sell (execute_event_trade c pn t) pn i t (shares_of s' i) (execution_price (bc_model c) pn i t)) (\<lambda>v. giveD (f_add traded v)) s') s)"

definition reduce_position :: "backtest_config \<Rightarrow> panels \<Rightarrow> pyfloat list \<Rightarrow> nat \<Rightarrow> pyfloat \<Rightarrow> nat \<Rightarrow> pyfloat \<Rightarrow> pyfloat day_op" where
  "reduce_position c pn last_close t goal i traded s =
     (let excess = f_sub (position_value c pn last_close t s i) goal; price = execution_price (bc_model c) pn i t in
      if f_le excess min_trade_value \<or> \<not> tradable c pn t i then Inr (traded, s)
      else thenD (sell_allowed c pn t i) (\<lambda>ok s'. if \<not> ok then Inr (traded, s')
        else thenD (sell (execute_event_trade c pn t) pn i t (np_div excess price) price) (\<lambda>v. giveD (f_add traded v)) s') s)"

definition raise_position :: "backtest_config \<Rightarrow> panels \<Rightarrow> pyfloat list \<Rightarrow> nat \<Rightarrow> pyfloat \<Rightarrow> nat \<Rightarrow> pyfloat \<Rightarrow> pyfloat day_op" where
  "raise_position c pn last_close t goal i traded s =
     (let gap = f_sub goal (position_value c pn last_close t s i); price = execution_price (bc_model c) pn i t in
      if f_le gap min_trade_value then Inr (traded, s)
      else thenD (buy_allowed c pn t i) (\<lambda>ok s'. if \<not> ok then Inr (traded, s')
        else thenD (buy (execute_event_trade c pn t) pn i t gap price) (\<lambda>v. giveD (f_add traded v)) s') s)"

definition equity_open :: "backtest_config \<Rightarrow> panels \<Rightarrow> pyfloat list \<Rightarrow> nat \<Rightarrow> portfolio \<Rightarrow> pyfloat" where
  "equity_open c pn last_close t s = foldl (\<lambda>e i. if f_le (shares_of s i) dust \<or> \<not> valid_price (mark c pn last_close t i) then e
     else f_add e (f_mul (shares_of s i) (mark c pn last_close t i))) (pf_cash s) (map fst (pf_books s))"

definition rebalance_day :: "backtest_config \<Rightarrow> panels \<Rightarrow> pyfloat list \<Rightarrow> nat \<Rightarrow> pyfloat day_op" where
  "rebalance_day c pn last_close t s0 =
     thenD (choose_targets c pn t) (\<lambda>targets s1.
     thenD (each_day_op (drop_position c pn t targets) (map fst (pf_books s1)) (Fin 0)) (\<lambda>traded s2.
       if targets = [] then Inr (traded, s2)
       else let goal = np_div (f_mul (equity_open c pn last_close t s2) target_share) (f_of_rat (of_nat (length (remdups targets)))) in
         thenD (each_day_op (reduce_position c pn last_close t goal) targets traded)
           (each_day_op (raise_position c pn last_close t goal) targets) s2) s1) (s0\<lparr>pf_cache := []\<rparr>)"

subsection \<open>The run\<close>

record score_metadata =
  sm_feature :: int
  sm_available :: int
  sm_executable :: int
  sm_executable_day :: int
  sm_snapshot :: string
  sm_data_version :: "string option"

record backtest_request =
  br_interval :: int
  br_mask :: "bool list option"
  br_top_k :: "int option"
  br_cash :: pyfloat
  br_metadata :: "mapping list"
  br_unsafe :: bool
  br_model :: execution_model

record backtest_env =
  be_fail_ambiguous :: bool
  be_fail_invalid :: bool
  be_fresh :: "nat \<Rightarrow> string"
  be_date_text :: "int \<Rightarrow> string"
  be_read_meta :: "mapping \<Rightarrow> string + score_metadata"
  be_mean :: "pyfloat list \<Rightarrow> pyfloat"

definition unknown_versions :: "string list" where
  "unknown_versions = [[], ''UNKNOWN'', ''NONE'', ''NULL'', ''N/A'', ''NA'']"

definition is_known_version :: "string \<Rightarrow> bool" where
  "is_known_version v \<longleftrightarrow> str_upper (strip v) \<notin> set unknown_versions"

definition lookahead_violation :: "string \<Rightarrow> exc" where
  "lookahead_violation s = PyExc ''LookaheadViolation'' s"

definition with_default :: "mapping \<Rightarrow> string \<Rightarrow> pyval \<Rightarrow> mapping" where
  "with_default d k v = (if dict_get d k = None then dict_set d k v else d)"

definition complete_meta :: "mapping \<Rightarrow> mapping" where
  "complete_meta d = (let d1 = (case dict_get d ''execution_time'' of None \<Rightarrow> d | Some v \<Rightarrow> with_default d ''executable_from'' v) in
     with_default (with_default d1 ''data_snapshot_id'' (VStr ''UNKNOWN'')) ''algorithm_version'' (VStr ''UNKNOWN''))"

definition check_metadata :: "(int \<Rightarrow> string) \<Rightarrow> int \<Rightarrow> score_metadata \<Rightarrow> unit result" where
  "check_metadata date_text day m =
     (let lead = ''LOOKAHEAD_VIOLATION at '' @ date_text day in
      if sm_available m < sm_feature m then Inl (lookahead_violation (lead @ '': feature_time after available_at''))
      else if sm_executable m \<le> sm_available m then Inl (lookahead_violation lead)
      else if \<not> is_known_version (sm_snapshot m) then Inl (lookahead_violation (lead @ '': data_snapshot_id is required''))
      else if (case sm_data_version m of None \<Rightarrow> False | Some v \<Rightarrow> \<not> is_known_version v) then Inl (lookahead_violation (lead @ '': data_version is required''))
      else if sm_executable_day m \<noteq> day then Inl (lookahead_violation (lead @ '': executable_from date''))
      else Inr ())"

definition check_score_time_contract :: "backtest_env \<Rightarrow> backtest_request \<Rightarrow> int \<Rightarrow> nat \<Rightarrow> unit result" where
  "check_score_time_contract env q day t =
     (if br_metadata q = [] then (if br_unsafe q then Inr () else Inl (lookahead_violation ''score_metadata is mandatory''))
      else if length (br_metadata q) \<le> t \<or> br_metadata q ! t = []
      then (if br_unsafe q then Inr () else Inl (lookahead_violation (''score metadata missing at '' @ be_date_text env day)))
      else (case be_read_meta env (complete_meta (br_metadata q ! t)) of
          Inl e \<Rightarrow> Inl (lookahead_violation (''invalid score metadata at '' @ be_date_text env day @ '': '' @ e))
        | Inr m \<Rightarrow> check_metadata (be_date_text env) day m))"

definition effective_top_k :: "int option \<Rightarrow> nat \<Rightarrow> nat" where
  "effective_top_k k n = (let wanted = (case k of Some k \<Rightarrow> k | None \<Rightarrow> max 5 (case f_mul (f_of_rat (of_nat n)) (lit (1/100)) of Fin x \<Rightarrow> \<lfloor>x\<rfloor> | _ \<Rightarrow> 0)) in
     nat (max 1 (min wanted (int n))))"

definition refresh_closes :: "panels \<Rightarrow> nat \<Rightarrow> pyfloat list \<Rightarrow> pyfloat list" where
  "refresh_closes pn t last_close = map (\<lambda>i. if valid_price (cell (pa_closes pn) i t) then cell (pa_closes pn) i t else last_close ! i) [0..<length last_close]"

definition daily_returns :: "panels \<Rightarrow> nat \<Rightarrow> pyfloat list" where
  "daily_returns pn t = concat (map (\<lambda>i. let prev = cell (pa_closes pn) i (t - 1); cur = cell (pa_closes pn) i t in
     if valid_price prev \<and> valid_price cur then [f_sub (np_div cur prev) (Fin 1)] else []) [0..<length (pa_scores pn)])"

definition next_benchmark :: "(pyfloat list \<Rightarrow> pyfloat) \<Rightarrow> panels \<Rightarrow> nat \<Rightarrow> pyfloat \<Rightarrow> pyfloat" where
  "next_benchmark mean pn t prev = (let rets = daily_returns pn t in f_mul prev (if rets \<noteq> [] then f_add (Fin 1) (mean rets) else Fin 1))"

definition should_rebalance :: "backtest_request \<Rightarrow> nat \<Rightarrow> bool" where
  "should_rebalance q t = (case br_mask q of Some days \<Rightarrow> days ! t | None \<Rightarrow> int t mod max 1 (br_interval q) = 0)"

definition close_mark :: "panels \<Rightarrow> pyfloat list \<Rightarrow> nat \<Rightarrow> nat \<Rightarrow> pyfloat" where
  "close_mark pn last_close t i = (let price = cell (pa_closes pn) i t in if valid_price price then price else last_close ! i)"

definition equity_at :: "panels \<Rightarrow> pyfloat list \<Rightarrow> nat \<Rightarrow> portfolio \<Rightarrow> pyfloat" where
  "equity_at pn last_close t s = f_add (pf_cash s) (f_sum (map (\<lambda>i. f_mul (shares_of s i) (close_mark pn last_close t i))
     (filter (\<lambda>i. valid_price (close_mark pn last_close t i)) (map fst (pf_books s)))))"

definition holdings :: "panels \<Rightarrow> portfolio \<Rightarrow> (string \<times> pyfloat) list" where
  "holdings pn s = foldl (\<lambda>d i. if f_lt dust (shares_of s i) then dict_set d (pa_symbols pn ! i) (shares_of s i) else d) [] (map fst (pf_books s))"

record daily_stats =
  dy_date :: int
  dy_flags :: "string list"
  dy_counts :: "(string \<times> int) list"

definition stat_fields :: "(string \<times> (limit_stats \<Rightarrow> int)) list" where
  "stat_fields = [(''unique_cells'', ls_unique), (''meta_covered_cells'', ls_meta), (''buy_meta_covered_cells'', ls_buy_meta),
     (''sell_meta_covered_cells'', ls_sell_meta), (''buy_fallback_cells'', ls_buy_fallback), (''sell_fallback_cells'', ls_sell_fallback),
     (''any_side_fallback_cells'', ls_any_fallback), (''both_sides_fallback_cells'', ls_both_fallback),
     (''invalid_upper_limit_price_count'', ls_invalid_upper), (''invalid_lower_limit_price_count'', ls_invalid_lower)]"

definition daily_pl_stats :: "int \<Rightarrow> limit_stats \<Rightarrow> limit_stats \<Rightarrow> daily_stats" where
  "daily_pl_stats date old new = \<lparr>dy_date = date, dy_flags = sort (filter (\<lambda>c. c \<notin> set (ls_conflicts old)) (ls_conflicts new)),
     dy_counts = map (\<lambda>(k, f). (k, f new - f old)) stat_fields\<rparr>"

record day_log =
  dl_equity :: "pyfloat list"
  dl_benchmark :: "pyfloat list"
  dl_turnover :: "pyfloat list"
  dl_holdings :: "(string \<times> pyfloat) list list"
  dl_stats :: "daily_stats list"

record run_state =
  rn_portfolio :: portfolio
  rn_last_close :: "pyfloat list"
  rn_log :: day_log

definition trade_day :: "backtest_env \<Rightarrow> backtest_request \<Rightarrow> backtest_config \<Rightarrow> panels \<Rightarrow> pyfloat list \<Rightarrow> nat \<Rightarrow> portfolio
    \<Rightarrow> (pyfloat \<times> daily_stats list \<times> portfolio) result" where
  "trade_day env q c pn last_close t s = (if \<not> should_rebalance q t then Inr (Fin 0, [], s)
     else bindR (check_score_time_contract env q (pa_dates pn ! t) t) (\<lambda>_.
       bindR (rebalance_day c pn last_close t s) (\<lambda>(traded, s'). Inr (traded, [daily_pl_stats (pa_dates pn ! t) (pf_stats s) (pf_stats s')], s'))))"

definition backtest_day :: "backtest_env \<Rightarrow> backtest_request \<Rightarrow> backtest_config \<Rightarrow> panels \<Rightarrow> run_state \<Rightarrow> nat \<Rightarrow> run_state result" where
  "backtest_day env q c pn r t =
     (let last_close = refresh_closes pn t (rn_last_close r); g = rn_log r;
          bench = (if t = 0 then br_cash q else next_benchmark (be_mean env) pn t (last (dl_benchmark g)))
      in bindR (trade_day env q c pn last_close t (rn_portfolio r)) (\<lambda>(traded, stats, s).
         let equity = equity_at pn last_close t s in
         Inr \<lparr>rn_portfolio = s, rn_last_close = last_close, rn_log = \<lparr>dl_equity = dl_equity g @ [equity], dl_benchmark = dl_benchmark g @ [bench],
           dl_turnover = dl_turnover g @ [if f_lt (Fin 0) equity then np_div traded equity else Fin 0],
           dl_holdings = dl_holdings g @ [holdings pn s], dl_stats = dl_stats g @ stats\<rparr>\<rparr>))"

definition check_shape :: "'a list list option \<Rightarrow> nat \<times> nat \<Rightarrow> string \<Rightarrow> unit result" where
  "check_shape p expected field = (case p of None \<Rightarrow> Inr () | Some x \<Rightarrow> if shape x = expected then Inr () else Inl (ValueError (field @ '' shape mismatch'')))"

definition check_panels :: "backtest_request \<Rightarrow> panels \<Rightarrow> unit result" where
  "check_panels q pn = (let d = shape (pa_scores pn) in
     bindR (if (case br_mask q of None \<Rightarrow> False | Some m \<Rightarrow> length m \<noteq> snd d) then Inl (ValueError ''REBALANCE_MASK_LENGTH_MISMATCH'') else Inr ()) (\<lambda>_.
     bindR (check_shape (pa_meta pn) d ''security_meta'') (\<lambda>_. bindR (check_shape (pa_upper pn) d ''upper_limit_prices'') (\<lambda>_.
     bindR (check_shape (pa_lower pn) d ''lower_limit_prices'') (\<lambda>_. bindR (check_shape (pa_limits pn) d ''limit_prices'') (\<lambda>_.
     bindR (check_shape (pa_amounts pn) d ''amounts'') (\<lambda>_.
     if br_model q = LIMIT_PRICE \<and> pa_limits pn = None then Inl (ValueError ''LIMIT_PRICE requires limit_prices panel'') else Inr ())))))))"

record backtest_result =
  bk_log :: day_log
  bk_trades :: "trade list"
  bk_events :: "(signal_event \<times> order_event \<times> fill_event) list"
  bk_stats :: limit_stats
  bk_coverage :: "pyfloat option list"
  bk_flags :: "string list"

definition start_portfolio :: "pyfloat \<Rightarrow> portfolio" where
  "start_portfolio cash = \<lparr>pf_cash = cash, pf_books = [], pf_trades = [], pf_events = [], pf_stats = empty_stats, pf_cache = []\<rparr>"

definition coverage :: "limit_stats \<Rightarrow> int \<Rightarrow> pyfloat option" where
  "coverage s n = (if ls_unique s = 0 then None else Some (py_round 6 (f_of_rat (of_int n / of_int (ls_unique s)))))"

definition quality_flags :: "backtest_request \<Rightarrow> panels \<Rightarrow> limit_stats \<Rightarrow> string list" where
  "quality_flags q pn s = (if br_model q = VWAP \<and> pa_amounts pn = None then [''VWAP_APPROXIMATED''] else [])
     @ (if ls_buy_ambiguous s \<noteq> 0 \<or> ls_sell_ambiguous s \<noteq> 0 then [''BACKTEST_HISTORICAL_RISK_STATUS_UNAVAILABLE''] else []) @ sort (ls_conflicts s)"

definition config_of :: "backtest_env \<Rightarrow> backtest_request \<Rightarrow> panels \<Rightarrow> backtest_config" where
  "config_of env q pn = \<lparr>bc_model = br_model q, bc_top_k = effective_top_k (br_top_k q) (length (pa_scores pn)), bc_fail_ambiguous = be_fail_ambiguous env,
     bc_fail_invalid = be_fail_invalid env, bc_fresh = be_fresh env, bc_date_text = be_date_text env\<rparr>"

definition run_topk_backtest :: "backtest_env \<Rightarrow> backtest_request \<Rightarrow> panels \<Rightarrow> backtest_result result" where
  "run_topk_backtest env q pn =
     bindR (check_panels q pn) (\<lambda>_.
     let start = \<lparr>rn_portfolio = start_portfolio (br_cash q), rn_last_close = replicate (length (pa_scores pn)) NaN,
           rn_log = \<lparr>dl_equity = [], dl_benchmark = [], dl_turnover = [], dl_holdings = [], dl_stats = []\<rparr>\<rparr>
     in bindR (foldR (backtest_day env q (config_of env q pn) pn) start [0..<snd (shape (pa_scores pn))]) (\<lambda>r.
        let s = rn_portfolio r; k = pf_stats s in
        Inr \<lparr>bk_log = rn_log r, bk_trades = pf_trades s, bk_events = pf_events s, bk_stats = k,
          bk_coverage = [coverage k (ls_meta k), coverage k (ls_buy_meta k), coverage k (ls_sell_meta k), coverage k (ls_actual k)],
          bk_flags = quality_flags q pn k\<rparr>))"

end
