(* ===== verification/BacktestSteps.thy ===== *)
theory BacktestSteps
  imports Backtest
begin

text \<open>
  A rebalancing day refines a step relation: rules are read, a trade is tried and rejected, a position is sold, a
  position is bought. The relation is stated over the panels alone; the caches and the order in which the code consults
  the rules are gone.
\<close>

subsection \<open>What a rebalancing day may do\<close>

definition cell_price :: "bool \<Rightarrow> pyval \<Rightarrow> string \<Rightarrow> pyfloat option" where
  "cell_price nan_missing v field = (if nan_missing \<and> v \<noteq> VNone \<and> try_float v = Inr (Some NaN) then None
     else case parse_optional_price v field of Inr (PriceValid q) \<Rightarrow> Some q | _ \<Rightarrow> None)"

definition panel_price :: "pyval list list option \<Rightarrow> nat \<Rightarrow> nat \<Rightarrow> string \<Rightarrow> pyfloat option" where
  "panel_price p i t field = (case p of None \<Rightarrow> None | Some cells \<Rightarrow> cell_price True (cell cells i t) field)"

definition meta_of :: "panels \<Rightarrow> nat \<Rightarrow> nat \<Rightarrow> mapping" where
  "meta_of pn i t = (case pa_meta pn of None \<Rightarrow> [] | Some cells \<Rightarrow> cell cells i t)"

definition context_of :: "backtest_config \<Rightarrow> panels \<Rightarrow> nat \<Rightarrow> nat \<Rightarrow> trade_context" where
  "context_of c pn t i = \<lparr>tc_symbol = pa_symbols pn ! i, tc_day = Some (pa_dates pn ! t), tc_prev_close = cell (pa_closes pn) i (t - 1),
     tc_open = execution_price (bc_model c) pn i t, tc_quote = meta_of pn i t,
     tc_upper = either (panel_price (pa_upper pn) i t ''upper_limit_price'') (cell_price False (extract_upper_limit_price (meta_of pn i t)) ''upper_limit_price''),
     tc_lower = either (panel_price (pa_lower pn) i t ''lower_limit_price'') (cell_price False (extract_lower_limit_price (meta_of pn i t)) ''lower_limit_price'')\<rparr>"

definition may_buy :: "backtest_config \<Rightarrow> panels \<Rightarrow> nat \<Rightarrow> nat \<Rightarrow> bool" where
  "may_buy c pn t i \<longleftrightarrow> tradable c pn t i \<and> (unrestricted pn t i \<or> can_buy_with_context (context_of c pn t i) = Inr True)"

definition may_sell :: "backtest_config \<Rightarrow> panels \<Rightarrow> nat \<Rightarrow> nat \<Rightarrow> bool" where
  "may_sell c pn t i \<longleftrightarrow> tradable c pn t i \<and> (unrestricted pn t i \<or> can_sell_with_context (context_of c pn t i) = Inr True)"

definition cache_ok :: "backtest_config \<Rightarrow> panels \<Rightarrow> nat \<Rightarrow> portfolio \<Rightarrow> bool" where
  "cache_ok c pn t s \<longleftrightarrow> (\<forall>i e. dict_get (pf_cache s) i = Some e \<longrightarrow> fst e = context_of c pn t i)"

text \<open>Reading rules changes nothing but the statistics and the cache.\<close>

definition same_ledger :: "portfolio \<Rightarrow> portfolio \<Rightarrow> bool" where
  "same_ledger s s' \<longleftrightarrow> s' = s\<lparr>pf_stats := pf_stats s', pf_cache := pf_cache s'\<rparr>"

lemma same_ledger_refl [simp]: "same_ledger s s"
  by (simp add: same_ledger_def)

lemma same_ledger_fields:
  assumes "same_ledger s s'"
  shows "pf_cash s' = pf_cash s" "pf_books s' = pf_books s" "pf_trades s' = pf_trades s" "pf_events s' = pf_events s"
  using arg_cong [OF assms [unfolded same_ledger_def], of pf_cash] arg_cong [OF assms [unfolded same_ledger_def], of pf_books]
    arg_cong [OF assms [unfolded same_ledger_def], of pf_trades] arg_cong [OF assms [unfolded same_ledger_def], of pf_events] by simp_all

lemma same_ledger_trans: "same_ledger s s' \<Longrightarrow> same_ledger s' s'' \<Longrightarrow> same_ledger s s''"
  by (cases s; cases s'; cases s'') (simp add: same_ledger_def)

lemma thenD_Inr: "thenD m k s = Inr (y, s'') \<longleftrightarrow> (\<exists>x s'. m s = Inr (x, s') \<and> k x s' = Inr (y, s''))"
  by (auto simp: thenD_def bindR_Inr_iff)

lemma parse_limit_cell_price:
  assumes "parse_limit_cell stop v field nan_missing s = Inr (x, s')"
  shows "x = cell_price nan_missing v field \<and> same_ledger s s' \<and> pf_cache s' = pf_cache s"
proof -
  obtain y where y: "(if nan_missing \<and> v \<noteq> VNone then try_float v else Inr None) = Inr y"
    and r: "(if y = Some NaN then Inr (None, s) else bindR (parse_optional_price v field) (\<lambda>p. case p of PriceMissing \<Rightarrow> Inr (None, s) | PriceValid q \<Rightarrow> Inr (Some q, s)
        | PriceInvalid e \<Rightarrow> if stop then Inl (ValueError e) else Inr (None, s\<lparr>pf_stats := invalid_cell field (pf_stats s)\<rparr>))) = Inr (x, s')"
    using assms by (auto simp: parse_limit_cell_def bindR_Inr_iff)
  have nan: "y = Some NaN \<longleftrightarrow> nan_missing \<and> v \<noteq> VNone \<and> try_float v = Inr (Some NaN)" using y by (auto split: if_splits)
  show ?thesis
  proof (cases "y = Some NaN")
    case True
    then show ?thesis using r nan by (simp add: cell_price_def)
  next
    case False
    then obtain p where p: "parse_optional_price v field = Inr p" using r by (auto simp: bindR_Inr_iff)
    show ?thesis using r p False nan by (cases p) (auto simp: cell_price_def same_ledger_def split: if_splits)
  qed
qed

lemma optional_cell_price:
  assumes "optional_cell c p i t field s = Inr (x, s')"
  shows "x = panel_price p i t field \<and> same_ledger s s' \<and> pf_cache s' = pf_cache s"
  using assms parse_limit_cell_price by (auto simp: optional_cell_def panel_price_def giveD_def split: option.splits)

lemma build_context_correct:
  assumes "build_context c pn t i s = Inr (e, s')" and "cache_ok c pn t s"
  shows "fst e = context_of c pn t i \<and> same_ledger s s' \<and> cache_ok c pn t s'"
proof -
  obtain pu s1 pl s2 mu s3 ml s4 where s: "optional_cell c (pa_upper pn) i t ''upper_limit_price'' s = Inr (pu, s1)"
      "optional_cell c (pa_lower pn) i t ''lower_limit_price'' s1 = Inr (pl, s2)"
      "parse_limit_cell (bc_fail_invalid c) (extract_upper_limit_price (meta_of pn i t)) ''upper_limit_price'' False s2 = Inr (mu, s3)"
      "parse_limit_cell (bc_fail_invalid c) (extract_lower_limit_price (meta_of pn i t)) ''lower_limit_price'' False s3 = Inr (ml, s4)"
    and e: "fst e = \<lparr>tc_symbol = pa_symbols pn ! i, tc_day = Some (pa_dates pn ! t), tc_prev_close = cell (pa_closes pn) i (t - 1),
        tc_open = execution_price (bc_model c) pn i t, tc_quote = meta_of pn i t, tc_upper = either pu mu, tc_lower = either pl ml\<rparr>"
      "pf_cache s' = dict_set (pf_cache s4) i e" "same_ledger s4 s'"
    using assms(1) by (fastforce simp: build_context_def Let_def thenD_Inr bindR_Inr_iff meta_of_def same_ledger_def)
  note p = optional_cell_price [OF s(1)] optional_cell_price [OF s(2)] parse_limit_cell_price [OF s(3)] parse_limit_cell_price [OF s(4)]
  have "fst e = context_of c pn t i" using e(1) p by (simp add: context_of_def)
  moreover have "same_ledger s s'" using p e(3) same_ledger_trans by blast
  ultimately show ?thesis using assms(2) p e(2) by (auto simp: cache_ok_def)
qed

lemma rule_context_correct:
  assumes "rule_context c pn t i s = Inr (e, s')" and "cache_ok c pn t s"
  shows "fst e = context_of c pn t i \<and> same_ledger s s' \<and> cache_ok c pn t s'"
proof (cases "dict_get (pf_cache s) i")
  case None
  then show ?thesis using assms build_context_correct by (simp add: rule_context_def)
next
  case (Some d)
  then have "d = e" "s = s'" using assms(1) by (simp_all add: rule_context_def)
  then show ?thesis using assms(2) Some unfolding cache_ok_def by (cases e) auto
qed

lemma buy_allowed_correct:
  assumes "buy_allowed c pn t i s = Inr (ok, s')" and "cache_ok c pn t s"
  shows "same_ledger s s' \<and> cache_ok c pn t s' \<and> (ok \<longrightarrow> tradable c pn t i \<longrightarrow> may_buy c pn t i)"
  using assms rule_context_correct by (fastforce simp: buy_allowed_def may_buy_def giveD_def thenD_Inr bindR_Inr_iff split: if_splits)

lemma sell_allowed_correct:
  assumes "sell_allowed c pn t i s = Inr (ok, s')" and "cache_ok c pn t s"
  shows "same_ledger s s' \<and> cache_ok c pn t s' \<and> (ok \<longrightarrow> tradable c pn t i \<longrightarrow> may_sell c pn t i)"
  using assms rule_context_correct by (fastforce simp: sell_allowed_def may_sell_def giveD_def thenD_Inr bindR_Inr_iff split: if_splits)

text \<open>An event triple of a trade that was tried.\<close>

fun trade_event :: "backtest_config \<Rightarrow> panels \<Rightarrow> nat \<Rightarrow> string \<Rightarrow> nat \<Rightarrow> pyfloat \<Rightarrow> signal_event \<times> order_event \<times> fill_event \<Rightarrow> bool" where
  "trade_event c pn t side i quantity (sg, od, fl) \<longleftrightarrow>
     sg_symbol sg = pa_symbols pn ! i \<and> oe_symbol od = pa_symbols pn ! i \<and> fe_symbol fl = pa_symbols pn ! i
     \<and> sg_side sg = str_upper side \<and> oe_side od = str_upper side \<and> fe_side fl = str_upper side
     \<and> oe_signal_id od = sg_id sg \<and> fe_order_id fl = oe_id od \<and> oe_quantity od = quantity \<and> oe_model od = bc_model c
     \<and> sg_time sg < oe_time od \<and> oe_time od = fe_time fl \<and> fe_time fl = event_time (pa_dates pn ! t) (bc_model c = NEXT_CLOSE)
     \<and> (bc_model c \<noteq> VWAP \<longrightarrow> valid_price (execution_price (bc_model c) pn i t)
         \<longrightarrow> fe_price fl = None \<or> fe_price fl = Some (execution_price (bc_model c) pn i t))"

fun accepted :: "signal_event \<times> order_event \<times> fill_event \<Rightarrow> bool" where
  "accepted (sg, od, fl) \<longleftrightarrow> fe_price fl \<noteq> None \<and> fe_reject fl = None"

lemma positive_price: "valid_price p \<Longrightarrow> positive (VFloat p) = Inr (Some p)"
  by (cases p) (auto simp: positive_def try_float_def py_float_def valid_price_def)

lemma fill_price_cases:
  assumes "fill_price (bc_model c) (bar_of c pn t i) (if bc_model c = LIMIT_PRICE then Some (execution_price (bc_model c) pn i t) else None) = Inr (p, r)"
    and "bc_model c \<noteq> VWAP" and "valid_price (execution_price (bc_model c) pn i t)"
  shows "p = None \<or> p = Some (execution_price (bc_model c) pn i t)"
  using assms
  by (cases "bc_model c") (auto simp: fill_price_def execution_price_def bar_of_def get_item_def positive_price bindR_Inr_iff split: if_splits)

lemma execute_event:
  assumes "execute_event_trade c pn t side i quantity (execution_price (bc_model c) pn i t) s = Inr (ok, s')"
  obtains e where "s' = s\<lparr>pf_events := pf_events s @ [e]\<rparr>" and "trade_event c pn t side i quantity e" and "ok = accepted e"
proof -
  let ?p = "execution_price (bc_model c) pn i t" and ?at = "event_time (pa_dates pn ! t) (bc_model c = NEXT_CLOSE)"
  define oi fi where "oi = bc_fresh c (3 * length (pf_events s) + 1)" and "fi = bc_fresh c (3 * length (pf_events s) + 2)"
  define sg where "sg = \<lparr>sg_id = bc_fresh c (3 * length (pf_events s)), sg_symbol = pa_symbols pn ! i, sg_side = str_upper side,
     sg_time = (if t = 0 then event_time (pa_dates pn ! 0) False - 1440 else event_time (pa_dates pn ! (t - 1)) True)\<rparr>"
  obtain od fl where od: "schedule_order oi sg ?at (bc_model c) quantity (if bc_model c = LIMIT_PRICE then Some ?p else None) = Inr od"
    and fl: "resolve_fill fi od sg (bar_of c pn t i) ?at = Inr fl"
    and r: "(fe_price fl \<noteq> None \<and> fe_reject fl = None, s\<lparr>pf_events := pf_events s @ [(sg, od, fl)]\<rparr>) = (ok, s')"
    using assms unfolding execute_event_trade_def Let_def sg_def [symmetric] oi_def [symmetric] fi_def [symmetric]
    by (simp only: bindR_Inr_iff sum.inject) blast
  have e: "s' = s\<lparr>pf_events := pf_events s @ [(sg, od, fl)]\<rparr>" "ok = accepted (sg, od, fl)" using r by auto
  have sg: "sg_symbol sg = pa_symbols pn ! i" "sg_side sg = str_upper side" by (simp_all add: sg_def)
  have o1: "oe_id od = oi" "oe_signal_id od = sg_id sg" "oe_symbol od = sg_symbol sg" "oe_side od = sg_side sg" "oe_time od = ?at"
      "oe_model od = bc_model c" "oe_quantity od = quantity" "oe_limit od = (if bc_model c = LIMIT_PRICE then Some ?p else None)" "sg_time sg < ?at"
    using od by (auto simp: schedule_order_def split: if_splits)
  obtain p r where p: "fill_price (bc_model c) (bar_of c pn t i) (if bc_model c = LIMIT_PRICE then Some ?p else None) = Inr (p, r)"
    and f1: "fe_order_id fl = oi" "fe_symbol fl = sg_symbol sg" "fe_side fl = sg_side sg" "fe_time fl = ?at" "fe_price fl = p"
    using fl by (auto simp: resolve_fill_def o1 bindR_Inr_iff split: if_splits)
  have "trade_event c pn t side i quantity (sg, od, fl)" using sg o1 f1 fill_price_cases [OF p] by auto
  then show ?thesis using e that by blast
qed


text \<open>A step of a rebalancing day: rules are read, a trade is tried and rejected, a position is sold or bought.\<close>

definition whole_lots :: "pyfloat \<Rightarrow> bool" where
  "whole_lots shares \<longleftrightarrow> (\<exists>x. round_buy_shares x = Inr shares) \<and> f_lt (Fin 0) shares"

inductive trade_step :: "backtest_config \<Rightarrow> panels \<Rightarrow> nat \<Rightarrow> portfolio \<Rightarrow> portfolio \<Rightarrow> bool" for c pn t where
  rules_read: "same_ledger s s' \<Longrightarrow> trade_step c pn t s s'"
| rejected: "trade_event c pn t side i quantity e \<Longrightarrow> \<not> accepted e \<Longrightarrow> trade_step c pn t s (s\<lparr>pf_events := pf_events s @ [e]\<rparr>)"
| sold: "may_sell c pn t i \<Longrightarrow> i < length (pa_scores pn) \<Longrightarrow> dict_get (pf_books s) i = Some b \<Longrightarrow> trade_event c pn t ''sell'' i sold e \<Longrightarrow> accepted e
    \<Longrightarrow> \<not> f_le sold (Fin 0) \<Longrightarrow> pop_available sold (int t) b = (sold', b') \<Longrightarrow> tr = sell_trade (pa_dates pn ! t) (pa_symbols pn ! i) sold' (execution_price (bc_model c) pn i t)
    \<Longrightarrow> trade_step c pn t s (s\<lparr>pf_events := pf_events s @ [e], pf_cash := f_add (pf_cash s) (f_sub (tr_value tr) (tr_cost tr)),
         pf_books := dict_set (pf_books s) i b', pf_trades := pf_trades s @ [tr]\<rparr>)"
| bought: "may_buy c pn t i \<Longrightarrow> i < length (pa_scores pn) \<Longrightarrow> trade_event c pn t ''buy'' i shares e \<Longrightarrow> accepted e \<Longrightarrow> whole_lots shares
    \<Longrightarrow> tr = buy_trade (pa_dates pn ! t) (pa_symbols pn ! i) shares (execution_price (bc_model c) pn i t) \<Longrightarrow> affordable (pf_cash s) (tr_value tr) (tr_cost tr)
    \<Longrightarrow> trade_step c pn t s (s\<lparr>pf_events := pf_events s @ [e], pf_cash := f_sub (pf_cash s) (f_add (tr_value tr) (tr_cost tr)),
         pf_books := dict_set (pf_books s) i (book_add shares (int t) (case dict_get (pf_books s) i of None \<Rightarrow> [] | Some b \<Rightarrow> b)),
         pf_trades := pf_trades s @ [tr]\<rparr>)"

abbreviation trade_steps :: "backtest_config \<Rightarrow> panels \<Rightarrow> nat \<Rightarrow> portfolio \<Rightarrow> portfolio \<Rightarrow> bool" where
  "trade_steps c pn t \<equiv> (trade_step c pn t)\<^sup>*\<^sup>*"

lemma round_buy_positive: "round_buy_shares x = Inr y \<Longrightarrow> \<not> f_le y (Fin 0) \<Longrightarrow> f_lt (Fin 0) y"
  by (cases x; cases y) (auto simp: round_buy_shares_def f_of_rat_def Let_def split: if_splits)

lemma plan_buy_shares:
  assumes "plan_buy cash value price = Inr (Some shares)"
  shows "whole_lots shares \<and> affordable cash (f_mul shares price) (cost_of (f_mul shares price) ''buy'')"
  using assms round_buy_positive by (auto simp: plan_buy_def whole_lots_def affordable_def bindR_Inr_iff Let_def split: if_splits)

lemma sell_step:
  assumes "sell (execute_event_trade c pn t) pn i t shares (execution_price (bc_model c) pn i t) s = Inr (v, s')"
    and "may_sell c pn t i" and "i < length (pa_scores pn)"
  shows "(trade_step c pn t)\<^sup>=\<^sup>= s s' \<and> pf_cache s' = pf_cache s"
proof (cases "dict_get (pf_books s) i")
  case None
  then show ?thesis using assms(1) by (auto simp: sell_def)
next
  case (Some b)
  let ?sold = "py_min shares (available_shares (int t) b)"
  show ?thesis
  proof (cases "f_le ?sold (Fin 0)")
    case True
    then show ?thesis using assms(1) Some by (auto simp: sell_def)
  next
    case False
    obtain ok s1 where x: "execute_event_trade c pn t ''sell'' i ?sold (execution_price (bc_model c) pn i t) s = Inr (ok, s1)"
      using assms(1) Some False by (auto simp: sell_def thenD_Inr Let_def)
    obtain e where e: "s1 = s\<lparr>pf_events := pf_events s @ [e]\<rparr>" "trade_event c pn t ''sell'' i ?sold e" "ok = accepted e" using x by (rule execute_event)
    obtain sold' b' where p: "pop_available ?sold (int t) b = (sold', b')" by fastforce
    show ?thesis
    proof (cases ok)
      case True
      then show ?thesis using assms(1) Some False x e p trade_step.sold [OF assms(2,3) Some e(2) _ False p refl]
        by (auto simp: sell_def thenD_def Let_def)
    next
      case not_ok: False
      then show ?thesis using assms(1) Some False x e trade_step.rejected [OF e(2)] by (auto simp: sell_def thenD_def Let_def)
    qed
  qed
qed

lemma buy_step:
  assumes "buy (execute_event_trade c pn t) pn i t value (execution_price (bc_model c) pn i t) s = Inr (v, s')"
    and "may_buy c pn t i" and "i < length (pa_scores pn)"
  shows "(trade_step c pn t)\<^sup>=\<^sup>= s s' \<and> pf_cache s' = pf_cache s"
proof (cases "f_le (py_min value (pf_cash s)) min_trade_value")
  case True
  then show ?thesis using assms(1) by (auto simp: buy_def)
next
  case False
  let ?p = "execution_price (bc_model c) pn i t"
  obtain p where p: "plan_buy (pf_cash s) (fit_value 2 (pf_cash s) (py_min value (pf_cash s))) ?p = Inr p"
    using assms(1) False by (auto simp: buy_def Let_def bindR_Inr_iff)
  show ?thesis
  proof (cases p)
    case None
    then show ?thesis using assms(1) False p by (auto simp: buy_def)
  next
    case (Some shares)
    obtain ok s1 where x: "execute_event_trade c pn t ''buy'' i shares ?p s = Inr (ok, s1)"
      using assms(1) p Some False by (auto simp: buy_def thenD_Inr Let_def)
    obtain e where e: "s1 = s\<lparr>pf_events := pf_events s @ [e]\<rparr>" "trade_event c pn t ''buy'' i shares e" "ok = accepted e" using x by (rule execute_event)
    note plan = plan_buy_shares [OF p [unfolded Some]]
    show ?thesis
    proof (cases ok)
      case True
      then show ?thesis using assms(1) False x e p Some trade_step.bought [OF assms(2,3) e(2) _ conjunct1 [OF plan] refl] plan
        by (auto simp: buy_def thenD_def Let_def buy_trade_def)
    next
      case not_ok: False
      then show ?thesis using assms(1) False x e p Some trade_step.rejected [OF e(2)] by (auto simp: buy_def thenD_def Let_def)
    qed
  qed
qed


lemma set_insert_desc [simp]: "set (insert_desc key x ys) = insert x (set ys)"
  by (induction ys) auto

lemma set_ranking: "set (ranking c pn t) = set (eligible c pn t)"
proof -
  have "set (foldl (\<lambda>acc x. insert_desc key x acc) ys xs) = set ys \<union> set xs" for key ys xs
    by (induction xs arbitrary: ys) auto
  then show ?thesis by (simp add: ranking_def sort_desc_def)
qed

lemma eligibleD: "i \<in> set (eligible c pn t) \<Longrightarrow> i < length (pa_scores pn) \<and> tradable c pn t i"
  by (simp add: eligible_def)

definition reads :: "backtest_config \<Rightarrow> panels \<Rightarrow> nat \<Rightarrow> portfolio \<Rightarrow> portfolio \<Rightarrow> bool" where
  "reads c pn t s s' \<longleftrightarrow> same_ledger s s' \<and> cache_ok c pn t s'"

lemma reads_refl [simp]: "cache_ok c pn t s \<Longrightarrow> reads c pn t s s"
  by (simp add: reads_def)

lemma readsD: "reads c pn t s s' \<Longrightarrow> cache_ok c pn t s'" "reads c pn t s s' \<Longrightarrow> same_ledger s s'"
  by (simp_all add: reads_def)

lemma reads_trans: "reads c pn t s s' \<Longrightarrow> reads c pn t s' s'' \<Longrightarrow> reads c pn t s s''"
  by (auto simp: reads_def intro: same_ledger_trans)

lemma buy_allowed_reads: "buy_allowed c pn t i s = Inr (ok, s') \<Longrightarrow> cache_ok c pn t s \<Longrightarrow> reads c pn t s s'"
  using buy_allowed_correct by (auto simp: reads_def)

lemma any_blocked_reads: "any_blocked c pn t is s = Inr (b, s') \<Longrightarrow> cache_ok c pn t s \<Longrightarrow> reads c pn t s s'"
proof (induction "is" arbitrary: s)
  case (Cons i "is")
  then show ?case using buy_allowed_reads [of c pn t i s] readsD(1) reads_trans by (fastforce simp: thenD_Inr split: if_splits)
qed (simp add: giveD_def)

lemma each_day_opI:
  assumes "each_day_op f xs acc s = Inr (y, s')" and "P acc s"
    and "\<And>x acc s y s'. x \<in> set xs \<Longrightarrow> f x acc s = Inr (y, s') \<Longrightarrow> P acc s \<Longrightarrow> P y s'"
  shows "P y s'"
  using assms
proof (induction xs arbitrary: acc s)
  case (Cons x xs)
  obtain a s1 where x: "f x acc s = Inr (a, s1)" "each_day_op f xs a s1 = Inr (y, s')" using Cons.prems(1) by (auto simp: thenD_Inr)
  have "P a s1" by (rule Cons.prems(3) [OF _ x(1) Cons.prems(2)]) simp
  then show ?case using Cons.IH [OF x(2)] Cons.prems(3) by (meson list.set_intros(2))
qed (simp add: giveD_def)

lemma keep_buyable_reads:
  assumes "keep_buyable c pn t i acc s = Inr (acc', s')" and "cache_ok c pn t s"
  shows "reads c pn t s s' \<and> set acc' \<subseteq> insert i (set acc)"
  using assms buy_allowed_reads by (auto simp: keep_buyable_def thenD_Inr split: if_splits)

lemma choose_targets_reads:
  assumes "choose_targets c pn t s = Inr (targets, s')" and "cache_ok c pn t s"
  shows "reads c pn t s s' \<and> set targets \<subseteq> set (eligible c pn t)"
proof -
  let ?order = "ranking c pn t"
  obtain b s1 where b: "any_blocked c pn t (take (bc_top_k c) ?order) s = Inr (b, s1)"
    and r: "(if b then thenD (each_day_op (keep_buyable c pn t) ?order []) (\<lambda>kept. giveD (take (bc_top_k c) kept)) else giveD (take (bc_top_k c) ?order)) s1 = Inr (targets, s')"
    using assms(1) by (auto simp: choose_targets_def Let_def thenD_Inr)
  have s1: "reads c pn t s s1" using any_blocked_reads [OF b assms(2)] .
  show ?thesis
  proof (cases b)
    case False
    then show ?thesis using r s1 set_take_subset [of "bc_top_k c" ?order] by (auto simp: giveD_def set_ranking)
  next
    case True
    then obtain kept where k: "each_day_op (keep_buyable c pn t) ?order [] s1 = Inr (kept, s')" "targets = take (bc_top_k c) kept"
      using r by (auto simp: thenD_Inr giveD_def)
    have "reads c pn t s s' \<and> set kept \<subseteq> set ?order"
    proof (rule each_day_opI [OF k(1), where P = "\<lambda>acc s'. reads c pn t s s' \<and> set acc \<subseteq> set ?order"])
      show "reads c pn t s q \<and> set y \<subseteq> set ?order"
        if "i \<in> set ?order" "keep_buyable c pn t i acc p = Inr (y, q)" "reads c pn t s p \<and> set acc \<subseteq> set ?order" for i acc p y q
        using keep_buyable_reads [OF that(2)] that(1,3) readsD(1) reads_trans by blast
    qed (simp add: s1)
    then show ?thesis using k(2) set_take_subset [of "bc_top_k c" kept] by (auto simp: set_ranking)
  qed
qed

text \<open>A state reached from \<open>s0\<close> by steps of the day, with a correct cache.\<close>

definition reached :: "backtest_config \<Rightarrow> panels \<Rightarrow> nat \<Rightarrow> portfolio \<Rightarrow> portfolio \<Rightarrow> bool" where
  "reached c pn t s0 s \<longleftrightarrow> trade_steps c pn t s0 s \<and> cache_ok c pn t s"

lemma reached_reads: "reached c pn t s0 s \<Longrightarrow> reads c pn t s s' \<Longrightarrow> reached c pn t s0 s'"
  unfolding reached_def reads_def using trade_step.rules_read [of s s' c pn t] by (meson rtranclp.rtrancl_into_rtrancl)

lemma reached_step: "reached c pn t s0 s \<Longrightarrow> (trade_step c pn t)\<^sup>=\<^sup>= s s' \<and> pf_cache s' = pf_cache s \<Longrightarrow> reached c pn t s0 s'"
  unfolding reached_def cache_ok_def by (auto intro: rtranclp.rtrancl_into_rtrancl)

lemma guarded_sell_reached:
  assumes "thenD (sell_allowed c pn t i) (\<lambda>ok s'. if \<not> ok then Inr (traded, s')
      else thenD (sell (execute_event_trade c pn t) pn i t (n s') (execution_price (bc_model c) pn i t)) (\<lambda>v. giveD (f_add traded v)) s') s = Inr (y, s')"
    and "reached c pn t s0 s" and "i < length (pa_scores pn)" and "tradable c pn t i"
  shows "reached c pn t s0 s'"
proof -
  obtain ok s1 where ok: "sell_allowed c pn t i s = Inr (ok, s1)"
    and k: "(if \<not> ok then Inr (traded, s1) else thenD (sell (execute_event_trade c pn t) pn i t (n s1) (execution_price (bc_model c) pn i t))
       (\<lambda>v. giveD (f_add traded v)) s1) = Inr (y, s')"
    using assms(1) by (auto simp only: thenD_Inr)
  have c: "reads c pn t s s1" "ok \<Longrightarrow> may_sell c pn t i" using sell_allowed_correct [OF ok] assms(2,4) by (auto simp: reads_def reached_def)
  have s1: "reached c pn t s0 s1" using reached_reads [OF assms(2) c(1)] .
  show ?thesis
  proof (cases ok)
    case True
    then obtain v where "sell (execute_event_trade c pn t) pn i t (n s1) (execution_price (bc_model c) pn i t) s1 = Inr (v, s')"
      using k by (auto simp: thenD_Inr giveD_def)
    then show ?thesis using sell_step c(2) True assms(3) reached_step [OF s1] by blast
  next
    case False
    then show ?thesis using k s1 by simp
  qed
qed

lemma drop_position_reached:
  assumes "drop_position c pn t targets i traded s = Inr (y, s')" and "reached c pn t s0 s" and "i < length (pa_scores pn)"
  shows "reached c pn t s0 s'"
proof (cases "i \<in> set targets \<or> f_le (shares_of s i) dust \<or> \<not> tradable c pn t i")
  case True
  then show ?thesis using assms by (auto simp: drop_position_def)
next
  case False
  from assms(1) show ?thesis unfolding drop_position_def if_not_P [OF False] by (rule guarded_sell_reached) (use assms False in simp_all)
qed

lemma reduce_position_reached:
  assumes "reduce_position c pn lc t goal i traded s = Inr (y, s')" and "reached c pn t s0 s" and "i < length (pa_scores pn)"
  shows "reached c pn t s0 s'"
proof (cases "f_le (f_sub (position_value c pn lc t s i) goal) min_trade_value \<or> \<not> tradable c pn t i")
  case True
  then show ?thesis using assms by (auto simp: reduce_position_def Let_def)
next
  case False
  from assms(1) show ?thesis unfolding reduce_position_def Let_def if_not_P [OF False] by (rule guarded_sell_reached) (use assms False in simp_all)
qed

lemma raise_position_reached:
  assumes "raise_position c pn lc t goal i traded s = Inr (y, s')" and "reached c pn t s0 s" and "i \<in> set (eligible c pn t)"
  shows "reached c pn t s0 s'"
proof (cases "f_le (f_sub goal (position_value c pn lc t s i)) min_trade_value")
  case True
  then show ?thesis using assms by (auto simp: raise_position_def Let_def)
next
  case False
  note i = eligibleD [OF assms(3)]
  obtain ok s1 where ok: "buy_allowed c pn t i s = Inr (ok, s1)" using assms(1) False by (auto simp: raise_position_def Let_def thenD_Inr)
  have c: "reads c pn t s s1" "ok \<Longrightarrow> may_buy c pn t i" using buy_allowed_correct [OF ok] assms(2) i by (auto simp: reads_def reached_def)
  have s1: "reached c pn t s0 s1" using reached_reads [OF assms(2) c(1)] .
  show ?thesis
  proof (cases ok)
    case True
    then obtain v n where "buy (execute_event_trade c pn t) pn i t n (execution_price (bc_model c) pn i t) s1 = Inr (v, s')"
      using assms(1) False ok by (auto simp: raise_position_def Let_def thenD_Inr giveD_def)
    then show ?thesis using buy_step c(2) True i reached_step [OF s1] by blast
  next
    case no: False
    then show ?thesis using assms(1) False ok s1 by (auto simp: raise_position_def Let_def thenD_Inr)
  qed
qed

definition books_known :: "panels \<Rightarrow> portfolio \<Rightarrow> bool" where
  "books_known pn s \<longleftrightarrow> (\<forall>i \<in> set (map fst (pf_books s)). i < length (pa_scores pn))"

theorem rebalance_day_steps:
  assumes "rebalance_day c pn lc t s = Inr (v, s')" and "books_known pn s"
  shows "trade_steps c pn t s s'"
proof -
  let ?s0 = "s\<lparr>pf_cache := []\<rparr>"
  obtain targets s1 traded s2 where s1: "choose_targets c pn t ?s0 = Inr (targets, s1)"
    and s2: "each_day_op (drop_position c pn t targets) (map fst (pf_books s1)) (Fin 0) s1 = Inr (traded, s2)"
    and s3: "(if targets = [] then Inr (traded, s2)
       else let goal = np_div (f_mul (equity_open c pn lc t s2) target_share) (f_of_rat (of_nat (length (remdups targets)))) in
         thenD (each_day_op (reduce_position c pn lc t goal) targets traded) (each_day_op (raise_position c pn lc t goal) targets) s2) = Inr (v, s')"
    using assms(1) unfolding rebalance_day_def by (auto simp: thenD_Inr)
  have s0: "trade_step c pn t s ?s0" by (rule rules_read) (simp add: same_ledger_def)
  have c0: "cache_ok c pn t ?s0" by (simp add: cache_ok_def)
  note ch = choose_targets_reads [OF s1 c0]
  have r0: "reached c pn t s ?s0" using s0 c0 by (auto simp: reached_def)
  have r1: "reached c pn t s s1" using reached_reads [OF r0] ch by blast
  have b1: "pf_books s1 = pf_books s" using same_ledger_fields(2) [OF readsD(2) [OF conjunct1 [OF ch]]] by simp
  have r2: "reached c pn t s s2"
    by (rule each_day_opI [OF s2, where P = "\<lambda>_. reached c pn t s"])
      (use r1 drop_position_reached assms(2) b1 in \<open>auto simp: books_known_def\<close>)
  show ?thesis
  proof (cases "targets = []")
    case True
    then show ?thesis using s3 r2 by (simp add: reached_def)
  next
    case False
    obtain goal traded' s3 where g: "each_day_op (reduce_position c pn lc t goal) targets traded s2 = Inr (traded', s3)"
      "each_day_op (raise_position c pn lc t goal) targets traded' s3 = Inr (v, s')" using s3 False by (auto simp: Let_def thenD_Inr)
    have i: "i \<in> set (eligible c pn t)" if "i \<in> set targets" for i using ch that by blast
    have r3: "reached c pn t s s3"
      by (rule each_day_opI [OF g(1), where P = "\<lambda>_. reached c pn t s"]) (use r2 reduce_position_reached i eligibleD in \<open>blast\<close>)+
    have "reached c pn t s s'"
      by (rule each_day_opI [OF g(2), where P = "\<lambda>_. reached c pn t s"]) (use r3 raise_position_reached i in \<open>blast\<close>)+
    then show ?thesis by (simp add: reached_def)
  qed
qed

end
