(* ===== verification/BacktestCorrect.thy ===== *)
theory BacktestCorrect
  imports BacktestSteps
begin

text \<open>
  What holds of a backtest: every trade of a run is legal, purchases are locked until the next
  day, and a purchase never overdraws the account. The proofs are rule inductions over the trade steps
  and inductions over the days of a run.
\<close>

subsection \<open>Every trade of a run\<close>

definition legal_trade :: "backtest_env \<Rightarrow> backtest_request \<Rightarrow> panels \<Rightarrow> (signal_event \<times> order_event \<times> fill_event) list \<Rightarrow> trade \<Rightarrow> bool" where
  "legal_trade env q pn events tr \<longleftrightarrow> (\<exists>t i n e. t < length (pa_dates pn) \<and> i < length (pa_scores pn) \<and> should_rebalance q t
     \<and> check_score_time_contract env q (pa_dates pn ! t) t = Inr ()
     \<and> tr_date tr = pa_dates pn ! t \<and> tr_symbol tr = pa_symbols pn ! i \<and> tr_price tr = execution_price (br_model q) pn i t
     \<and> e \<in> set events \<and> accepted e \<and> trade_event (config_of env q pn) pn t (tr_side tr) i n e
     \<and> (tr_side tr = ''buy'' \<and> may_buy (config_of env q pn) pn t i \<and> whole_lots (tr_shares tr) \<and> n = tr_shares tr
        \<or> tr_side tr = ''sell'' \<and> may_sell (config_of env q pn) pn t i))"

lemma legal_trade_mono: "legal_trade env q pn es tr \<Longrightarrow> set es \<subseteq> set es' \<Longrightarrow> legal_trade env q pn es' tr"
  unfolding legal_trade_def by blast

definition ledger_ok :: "backtest_env \<Rightarrow> backtest_request \<Rightarrow> panels \<Rightarrow> portfolio \<Rightarrow> bool" where
  "ledger_ok env q pn s \<longleftrightarrow> books_known pn s \<and> (\<forall>tr \<in> set (pf_trades s). legal_trade env q pn (pf_events s) tr)
     \<and> (\<forall>(sg, od, fl) \<in> set (pf_events s). sg_time sg < fe_time fl \<and> oe_signal_id od = sg_id sg \<and> fe_order_id fl = oe_id od)"

lemma dict_set_keys_mem: "i \<in> set (map fst (dict_set d k v)) \<longleftrightarrow> i = k \<or> i \<in> set (map fst d)"
  by (induction d k v rule: dict_set.induct) auto

lemma ledger_ok_add:
  assumes "ledger_ok env q pn s" and "legal_trade env q pn (pf_events s @ [e]) tr" and "i < length (pa_scores pn)" and "trade_event c pn t side i n e"
  shows "ledger_ok env q pn (s\<lparr>pf_events := pf_events s @ [e], pf_cash := cash, pf_books := dict_set (pf_books s) i b, pf_trades := pf_trades s @ [tr]\<rparr>)"
  using assms legal_trade_mono [of env q pn "pf_events s" _ "pf_events s @ [e]"]
  by (cases e) (auto simp: ledger_ok_def books_known_def dict_set_keys_mem simp del: set_map)

lemma trade_step_ok:
  assumes "trade_step (config_of env q pn) pn t s s'" and "ledger_ok env q pn s" and "t < length (pa_dates pn)" and "should_rebalance q t"
    and "check_score_time_contract env q (pa_dates pn ! t) t = Inr ()"
  shows "ledger_ok env q pn s'"
  using assms(1,2)
proof cases
  case rules_read
  then show ?thesis using assms(2) same_ledger_fields [OF rules_read] by (simp add: ledger_ok_def books_known_def)
next
  case (rejected side i n e)
  then show ?thesis using assms(2) legal_trade_mono [of env q pn "pf_events s" _ "pf_events s @ [e]"]
    by (cases e) (auto simp: ledger_ok_def books_known_def)
next
  case (sold i b n e sold' b' tr)
  have "legal_trade env q pn (pf_events s @ [e]) tr"
    unfolding legal_trade_def
    by (rule exI [of _ t], rule exI [of _ i], rule exI [of _ n], rule exI [of _ e])
      (use sold assms(3-5) in \<open>simp add: sell_trade_def Let_def config_of_def\<close>)
  then show ?thesis unfolding sold(1) using assms(2) sold by (intro ledger_ok_add)
next
  case (bought i n e tr)
  have "legal_trade env q pn (pf_events s @ [e]) tr"
    unfolding legal_trade_def
    by (rule exI [of _ t], rule exI [of _ i], rule exI [of _ n], rule exI [of _ e])
      (use bought assms(3-5) in \<open>simp add: buy_trade_def Let_def config_of_def\<close>)
  then show ?thesis unfolding bought(1) using assms(2) bought by (intro ledger_ok_add)
qed

lemma trade_steps_ok:
  assumes "trade_steps (config_of env q pn) pn t s s'" and "ledger_ok env q pn s" and "t < length (pa_dates pn)" and "should_rebalance q t"
    and "check_score_time_contract env q (pa_dates pn ! t) t = Inr ()"
  shows "ledger_ok env q pn s'"
  using assms(1,2) by (induction rule: rtranclp_induct) (auto intro: trade_step_ok assms(3-5))

definition start_run :: "backtest_request \<Rightarrow> panels \<Rightarrow> run_state" where
  "start_run q pn = \<lparr>rn_portfolio = start_portfolio (br_cash q), rn_last_close = replicate (length (pa_scores pn)) NaN,
     rn_log = \<lparr>dl_equity = [], dl_benchmark = [], dl_turnover = [], dl_holdings = [], dl_stats = []\<rparr>\<rparr>"

definition run_days :: "backtest_env \<Rightarrow> backtest_request \<Rightarrow> panels \<Rightarrow> nat \<Rightarrow> run_state result" where
  "run_days env q pn n = foldR (backtest_day env q (config_of env q pn) pn) (start_run q pn) [0..<n]"

lemma foldR_append: "foldR f s (xs @ ys) = bindR (foldR f s xs) (\<lambda>s'. foldR f s' ys)"
  by (induction xs arbitrary: s) (auto simp: bindR_def split: sum.splits)

lemma run_days_Suc: "run_days env q pn (Suc n) = bindR (run_days env q pn n) (\<lambda>r. backtest_day env q (config_of env q pn) pn r n)"
proof -
  have "bindR m (\<lambda>s'. bindR (f s') Inr) = bindR m f" for m :: "'a result" and f :: "'a \<Rightarrow> 'b result"
    by (cases m) (auto simp: bindR_def split: sum.splits)
  then show ?thesis by (simp add: run_days_def foldR_append)
qed

text \<open>A day of a run either leaves the portfolio alone or rebalances it under the score contract.\<close>

lemma backtest_day_cases:
  assumes "backtest_day env q c pn r t = Inr r'"
  obtains (idle) "rn_portfolio r' = rn_portfolio r"
  | (rebalanced) v lc where "should_rebalance q t" "check_score_time_contract env q (pa_dates pn ! t) t = Inr ()"
      "rebalance_day c pn lc t (rn_portfolio r) = Inr (v, rn_portfolio r')"
proof -
  obtain traded stats s where d: "trade_day env q c pn (refresh_closes pn t (rn_last_close r)) t (rn_portfolio r) = Inr (traded, stats, s)" "rn_portfolio r' = s"
    using assms by (auto simp: backtest_day_def Let_def bindR_Inr_iff)
  show ?thesis using d idle rebalanced by (auto simp: trade_day_def bindR_Inr_iff split: if_splits)
qed

lemma run_days_ok:
  assumes "run_days env q pn n = Inr r" and "n \<le> length (pa_dates pn)"
  shows "ledger_ok env q pn (rn_portfolio r)"
  using assms
proof (induction n arbitrary: r)
  case 0
  then have "rn_portfolio r = start_portfolio (br_cash q)" by (auto simp: run_days_def start_run_def)
  then show ?case by (simp add: start_portfolio_def ledger_ok_def books_known_def)
next
  case (Suc n)
  obtain r0 where r0: "run_days env q pn n = Inr r0" "backtest_day env q (config_of env q pn) pn r0 n = Inr r"
    using Suc.prems(1) by (auto simp: run_days_Suc bindR_Inr_iff)
  have ok: "ledger_ok env q pn (rn_portfolio r0)" using Suc.IH [OF r0(1)] Suc.prems(2) by simp
  from r0(2) show ?case
  proof (cases rule: backtest_day_cases)
    case idle
    then show ?thesis using ok by simp
  next
    case (rebalanced v lc)
    have "trade_steps (config_of env q pn) pn n (rn_portfolio r0) (rn_portfolio r)"
      using rebalance_day_steps [OF rebalanced(3)] ok by (simp add: ledger_ok_def)
    then show ?thesis using trade_steps_ok ok rebalanced(1,2) Suc.prems(2) by simp
  qed
qed

text \<open>C29: Every trade of a backtest is legal. It takes place on a rebalancing day whose score metadata passed the
  look-ahead contract, at the execution price of its symbol, on a day the symbol is not suspended; unless the symbol has no previous close,
  the price-limit rule of that day and symbol (actual limit price before limit rate before board rule) permits it; a bought
  quantity is a positive number of whole lots; and an accepted fill event stands behind it whose signal is earlier than the fill.\<close>

theorem every_trade_is_legal:
  assumes "run_topk_backtest env q pn = Inr res" and "snd (shape (pa_scores pn)) = length (pa_dates pn)" and "tr \<in> set (bk_trades res)"
  shows "legal_trade env q pn (bk_events res) tr \<and> (\<forall>(sg, od, fl) \<in> set (bk_events res). sg_time sg < fe_time fl \<and> oe_signal_id od = sg_id sg \<and> fe_order_id fl = oe_id od)"
proof -
  obtain r where r: "run_days env q pn (length (pa_dates pn)) = Inr r" "bk_trades res = pf_trades (rn_portfolio r)" "bk_events res = pf_events (rn_portfolio r)"
    using assms(1,2) by (auto simp: run_topk_backtest_def Let_def bindR_Inr_iff run_days_def start_run_def)
  show ?thesis using run_days_ok [OF r(1)] assms(3) unfolding r(2,3) ledger_ok_def by blast
qed

subsection \<open>T+1\<close>

definition book_of :: "portfolio \<Rightarrow> nat \<Rightarrow> position_book" where
  "book_of s i = (case dict_get (pf_books s) i of None \<Rightarrow> [] | Some b \<Rightarrow> b)"

definition locked_lots :: "nat \<Rightarrow> position_book \<Rightarrow> position_book" where
  "locked_lots t b = filter (\<lambda>l. int t < pl_available l) b"

definition bought_since :: "panels \<Rightarrow> nat \<Rightarrow> portfolio \<Rightarrow> portfolio \<Rightarrow> pyfloat list" where
  "bought_since pn i s s' = map tr_shares (filter (\<lambda>tr. tr_side tr = ''buy'' \<and> tr_symbol tr = pa_symbols pn ! i) (drop (length (pf_trades s)) (pf_trades s')))"

lemma locked_pop_lots: "locked_lots t (pop_lots (int t) r b) = locked_lots t b"
  by (induction "int t" r b rule: pop_lots.induct) (auto simp: locked_lots_def Let_def)

lemma locked_pop_available:
  assumes "\<forall>l \<in> set (locked_lots t b). f_lt dust (pl_shares l)"
  shows "locked_lots t (snd (pop_available shares (int t) b)) = locked_lots t b"
proof -
  have "locked_lots t (snd (pop_available shares (int t) b)) = filter (\<lambda>l. f_lt dust (pl_shares l)) (locked_lots t (pop_lots (int t) (py_min shares (available_shares (int t) b)) b))"
    by (simp add: pop_available_def locked_lots_def Let_def conj_commute)
  then show ?thesis using assms by (simp add: locked_pop_lots filter_id_conv)
qed

lemma round_buy_lots: "round_buy_shares x = Inr y \<Longrightarrow> \<exists>k. y = f_of_rat (of_int (k * 100))"
  by (cases x) (auto simp only: round_buy_shares_def pyfloat.case sum.inject sum.distinct)

lemma whole_lots_not_dust:
  assumes "whole_lots shares"
  shows "f_lt dust shares"
proof -
  obtain x where "round_buy_shares x = Inr shares" using assms by (auto simp: whole_lots_def)
  then obtain k where k: "shares = f_of_rat (of_int (k * 100))" using round_buy_lots by blast
  have "0 < k"
  proof (rule ccontr)
    assume "\<not> 0 < k"
    then have "(of_int (k * 100) :: rat) \<le> 0" by (simp only: of_int_le_0_iff)
    then have "f_le shares (Fin 0)" unfolding k by (rule f_of_rat_le_Fin) simp
    moreover have "f_lt (Fin 0) shares" using assms by (simp add: whole_lots_def)
    ultimately show False by (cases shares) simp_all
  qed
  then have "(1 :: rat) \<le> of_int (k * 100)" by (simp only: of_int_1_le_iff)
  moreover have "wf_float (Fin 1)" using rep64_of_int [of 1] by simp
  ultimately have "f_le (Fin 1) shares" unfolding k by (intro f_of_rat_ge_Fin)
  moreover have "f_lt dust (Fin 1)" by code_simp
  ultimately show ?thesis by (rule f_lt_le_trans [rotated])
qed

definition t_plus_1 :: "panels \<Rightarrow> nat \<Rightarrow> portfolio \<Rightarrow> portfolio \<Rightarrow> bool" where
  "t_plus_1 pn t s s' \<longleftrightarrow> length (pf_trades s) \<le> length (pf_trades s') \<and> (\<forall>i < length (pa_scores pn). map pl_shares (locked_lots t (book_of s' i)) = bought_since pn i s s')
     \<and> (\<forall>i. \<forall>l \<in> set (book_of s' i). pl_available l \<le> int t + 1) \<and> (\<forall>i. \<forall>l \<in> set (locked_lots t (book_of s' i)). f_lt dust (pl_shares l))"


lemma book_of_set [simp]: "book_of (s\<lparr>pf_events := es, pf_cash := cash, pf_books := dict_set (pf_books s) i b, pf_trades := ts\<rparr>) j = (if j = i then b else book_of s j)"
  by (simp add: book_of_def)

lemma pop_lots_available: "l \<in> set (pop_lots d r b) \<Longrightarrow> \<exists>l' \<in> set b. pl_available l = pl_available l'"
  by (induction d r b rule: pop_lots.induct) (auto simp: Let_def split: if_splits)

lemma pop_available_available: "l \<in> set (snd (pop_available x d b)) \<Longrightarrow> \<exists>l' \<in> set b. pl_available l = pl_available l'"
  using pop_lots_available by (fastforce simp: pop_available_def Let_def)

lemma bought_since_snoc:
  assumes "length (pf_trades s) \<le> length (pf_trades s')"
  shows "bought_since pn i s (s'\<lparr>pf_events := es, pf_cash := cash, pf_books := bs, pf_trades := pf_trades s' @ [tr]\<rparr>)
    = bought_since pn i s s' @ (if tr_side tr = ''buy'' \<and> tr_symbol tr = pa_symbols pn ! i then [tr_shares tr] else [])"
  using assms by (simp add: bought_since_def)

lemma trade_step_t_plus_1:
  assumes "trade_step c pn t s1 s'" and "t_plus_1 pn t s s1" and "distinct (pa_symbols pn)" and "length (pa_symbols pn) = length (pa_scores pn)"
  shows "t_plus_1 pn t s s'"
  using assms(1)
proof cases
  case rules_read
  have "book_of s' i = book_of s1 i" "bought_since pn i s s' = bought_since pn i s s1" for i
    using same_ledger_fields [OF rules_read] by (simp_all add: book_of_def bought_since_def)
  then show ?thesis using assms(2) same_ledger_fields(3) [OF rules_read] by (simp add: t_plus_1_def)
next
  case (rejected side i n e)
  have "book_of s' i = book_of s1 i" "bought_since pn i s s' = bought_since pn i s s1" for i
    by (simp_all add: rejected book_of_def bought_since_def)
  then show ?thesis using assms(2) by (simp add: t_plus_1_def rejected)
next
  case (sold i b n e sold' b' tr)
  note inv = assms(2) [unfolded t_plus_1_def]
  have len: "length (pf_trades s) \<le> length (pf_trades s1)" using inv by simp
  have b: "b = book_of s1 i" "b' = snd (pop_available n (int t) b)" using sold by (simp_all add: book_of_def)
  have same: "locked_lots t b' = locked_lots t (book_of s1 i)" unfolding b(2) b(1) [symmetric] by (rule locked_pop_available) (use inv b(1) in simp)
  have side: "tr_side tr \<noteq> ''buy''" by (simp add: sold sell_trade_def Let_def)
  have late: "pl_available l \<le> int t + 1" if "l \<in> set b'" for l
    using pop_available_available [of l n "int t" b] that b inv by metis
  show ?thesis unfolding t_plus_1_def sold(1) using inv len same side late by (auto simp: bought_since_snoc)
next
  case (bought i n e tr)
  note inv = assms(2) [unfolded t_plus_1_def]
  have len: "length (pf_trades s) \<le> length (pf_trades s1)" using inv by simp
  have tr: "tr_side tr = ''buy''" "tr_symbol tr = pa_symbols pn ! i" "tr_shares tr = n" by (simp_all add: bought buy_trade_def Let_def)
  have other: "pa_symbols pn ! i = pa_symbols pn ! j \<longleftrightarrow> j = i" if "j < length (pa_scores pn)" for j
    using that bought(3) assms(3,4) nth_eq_iff_index_eq by metis
  have add: "locked_lots t (book_add n (int t) b) = locked_lots t b @ [\<lparr>pl_shares = n, pl_available = int t + 1\<rparr>]" for b
    by (simp add: locked_lots_def book_add_def)
  have lots: "set (book_add n (int t) b) = insert \<lparr>pl_shares = n, pl_available = int t + 1\<rparr> (set b)" for b by (simp add: book_add_def)
  have b: "(case dict_get (pf_books s1) i of None \<Rightarrow> [] | Some b \<Rightarrow> b) = book_of s1 i" by (simp add: book_of_def)
  show ?thesis unfolding t_plus_1_def bought(1) b
    using inv len tr other whole_lots_not_dust [OF bought(6)] by (auto simp: bought_since_snoc add lots)
qed

lemma t_plus_1_start: "\<forall>i. \<forall>l \<in> set (book_of s i). pl_available l \<le> int t \<Longrightarrow> t_plus_1 pn t s s"
  by (force simp: t_plus_1_def locked_lots_def bought_since_def filter_empty_conv)

lemma run_days_settled:
  assumes "run_days env q pn n = Inr r" and "n \<le> length (pa_dates pn)" and "distinct (pa_symbols pn)" and "length (pa_symbols pn) = length (pa_scores pn)"
  shows "\<forall>i. \<forall>l \<in> set (book_of (rn_portfolio r) i). pl_available l \<le> int n"
  using assms(1,2)
proof (induction n arbitrary: r)
  case 0
  then have "rn_portfolio r = start_portfolio (br_cash q)" by (auto simp: run_days_def start_run_def)
  then show ?case by (simp add: start_portfolio_def book_of_def)
next
  case (Suc n)
  obtain r0 where r0: "run_days env q pn n = Inr r0" "backtest_day env q (config_of env q pn) pn r0 n = Inr r"
    using Suc.prems(1) by (auto simp: run_days_Suc bindR_Inr_iff)
  have old: "\<forall>i. \<forall>l \<in> set (book_of (rn_portfolio r0) i). pl_available l \<le> int n" using Suc.IH [OF r0(1)] Suc.prems(2) by simp
  from r0(2) show ?case
  proof (cases rule: backtest_day_cases)
    case idle
    then show ?thesis using old by fastforce
  next
    case (rebalanced v lc)
    have "trade_steps (config_of env q pn) pn n (rn_portfolio r0) (rn_portfolio r)"
      using rebalance_day_steps [OF rebalanced(3)] run_days_ok [OF r0(1)] Suc.prems(2) by (simp add: ledger_ok_def)
    then have "t_plus_1 pn n (rn_portfolio r0) (rn_portfolio r)"
      by (induction rule: rtranclp_induct) (use old t_plus_1_start trade_step_t_plus_1 assms(3,4) in blast)+
    then show ?thesis by (simp add: t_plus_1_def add.commute)
  qed
qed

text \<open>C30: T+1 holds. On every rebalancing day of a run the lots of a symbol that are locked until tomorrow are, at the end of the
  day, exactly the quantities bought on that day, in order: no sale of the day takes anything out of a purchase of the same day,
  and every other lot was bought on an earlier day.\<close>

theorem bought_today_stays_today:
  assumes "run_days env q pn t = Inr r" and "t \<le> length (pa_dates pn)" and "distinct (pa_symbols pn)" and "length (pa_symbols pn) = length (pa_scores pn)"
    and "rebalance_day (config_of env q pn) pn lc t (rn_portfolio r) = Inr (v, s')" and "i < length (pa_scores pn)"
  shows "map pl_shares (locked_lots t (book_of s' i)) = bought_since pn i (rn_portfolio r) s'"
proof -
  have "trade_steps (config_of env q pn) pn t (rn_portfolio r) s'"
    using rebalance_day_steps [OF assms(5)] run_days_ok [OF assms(1,2)] by (simp add: ledger_ok_def)
  then have "t_plus_1 pn t (rn_portfolio r) s'"
    by (induction rule: rtranclp_induct) (use run_days_settled [OF assms(1-4)] t_plus_1_start trade_step_t_plus_1 assms(3,4) in blast)+
  then show ?thesis using assms(6) by (simp add: t_plus_1_def)
qed

subsection \<open>Cash\<close>

lemma half_even_nearest: "\<bar>of_int (half_even z) - z\<bar> \<le> \<bar>of_int k - z\<bar>"
proof (cases "k = half_even z")
  case False
  then have "(1 :: rat) \<le> of_int \<bar>k - half_even z\<bar>" by (simp only: of_int_1_le_iff)
  then have "1 \<le> \<bar>of_int k - of_int (half_even z) :: rat\<bar>" by (simp only: of_int_abs of_int_diff)
  then show ?thesis using half_even_near [of z] by linarith
qed simp

lemma rn64_nearest_pos:
  assumes "0 < x" and "rep64 y"
  shows "\<bar>rn64 x - x\<bar> \<le> \<bar>y - x\<bar>"
proof -
  define e where "e = ulp_exp x"
  define u :: rat where "u = 2 powi e"
  have u: "0 < u" by (simp add: u_def)
  have grid: "\<bar>rn64 x - x\<bar> \<le> \<bar>of_int k * u - x\<bar>" for k
  proof -
    have r: "rn64 x = of_int (half_even (x / u)) * u" using assms(1) by (simp add: rn64_def u_def e_def)
    have d: "n * u - x = (n - x / u) * u" for n :: rat using u by (simp add: left_diff_distrib)
    have "\<bar>of_int (half_even (x / u)) - x / u\<bar> * u \<le> \<bar>of_int k - x / u\<bar> * u" using half_even_nearest u by (intro mult_right_mono) auto
    then show ?thesis unfolding r d abs_mult using u by simp
  qed
  consider "y \<le> 0" | "0 < y" "e \<le> ulp_exp y" | "0 < y" "ulp_exp y < e" by linarith
  then show ?thesis
  proof cases
    case 1
    then show ?thesis using grid [of 0] assms(1) by simp
  next
    case 2
    have y: "y = of_int (half_even (y / 2 powi ulp_exp y)) * 2 powi ulp_exp y" using assms(2) 2(1) by (simp add: rep64_def rn64_def)
    have "(2 :: rat) powi ulp_exp y = of_int (2 ^ nat (ulp_exp y - e)) * u" using powi_int_scale [of e "nat (ulp_exp y - e)"] 2(2) by (simp add: u_def)
    then obtain k where "y = of_int k * u" using y by (metis mult.assoc of_int_mult)
    then show ?thesis using grid [of k] by simp
  next
    case 3
    have e: "e = ilog2 x - 52" using 3(2) assms(1) by (auto simp: e_def ulp_exp_def split: if_splits)
    have "ilog2 y < ilog2 x" using 3 e by (auto simp: ulp_exp_def)
    then have "(2::rat) powi (ilog2 y + 1) \<le> 2 powi ilog2 x" by (intro powi_mono) simp
    then have "y \<le> 2 powi ilog2 x" using ilog2_bounds(2) [OF 3(1)] by linarith
    moreover have "2 powi ilog2 x \<le> x" by (rule ilog2_bounds(1) [OF assms(1)])
    moreover have "(2 :: rat) powi ilog2 x = of_int (2 ^ 52) * u" using powi_int_scale [of e 52] by (simp add: e u_def)
    ultimately show ?thesis using grid [of "2 ^ 52"] by simp
  qed
qed

lemma rn64_nearest:
  assumes "rep64 y"
  shows "\<bar>rn64 x - x\<bar> \<le> \<bar>y - x\<bar>"
proof -
  consider "0 < x" | "x = 0" | "0 < - x" by linarith
  then show ?thesis
  proof cases
    case 3
    then show ?thesis using rn64_nearest_pos [of "- x" "- y"] assms by (simp add: abs_minus_commute)
  qed (use assms rn64_nearest_pos in simp_all)
qed

definition overdraft :: rat where
  "overdraft = 2 * (4835703278458517 / 4835703278458516698824704)"

lemma overdraft_wf: "wf_float (Fin (- overdraft))"
proof -
  have "rep64 (of_int 4835703278458517 * 2 powi (- 81))" by (rule rep64_scaled) simp_all
  moreover have eq: "of_int 4835703278458517 * 2 powi (- 81) = overdraft" by (simp add: overdraft_def power_int_minus)
  ultimately have "rep64 overdraft" by (simp only: eq)
  then show ?thesis by (simp add: overdraft_def)
qed

lemma affordable_leaves:
  assumes "affordable (Fin x) value cost" and "wf_float (Fin x)" and "0 \<le> x" and "x \<le> 2 ^ 1000" and "f_le (Fin 0) (f_add value cost)"
  shows "f_le (Fin (- overdraft)) (f_sub (Fin x) (f_add value cost))"
proof -
  define d where "d = overdraft / 2"
  have d: "dust = Fin d" "0 < d" "d \<le> 1" by (simp_all add: d_def overdraft_def constant_codes)
  have "\<bar>rn64 (x + d) - (x + d)\<bar> \<le> \<bar>x - (x + d)\<bar>" by (rule rn64_nearest) (use assms(2) in simp)
  then have near: "rn64 (x + d) \<le> x + overdraft" using d(2) d_def by linarith
  have "overdraft \<le> 2" by (simp add: overdraft_def)
  then have "rn64 (x + d) < 2 ^ 1024" using near assms(4) by (simp add: power_numeral)
  moreover have "0 \<le> rn64 (x + d)" using assms(3) d(2) by (intro rn64_nonneg) simp
  ultimately have lim: "f_of_rat (x + d) = Fin (rn64 (x + d))" by (simp add: f_of_rat_def Let_def)
  obtain f where f: "f_add value cost = Fin f" "f \<le> rn64 (x + d)"
    using assms(1,5) by (cases "f_add value cost") (auto simp: affordable_def cash_limit_def d(1) lim)
  then have "f \<le> x + overdraft" using near by simp
  then have "f_le (Fin (- overdraft)) (f_of_rat (x - f))" using overdraft_wf by (intro f_of_rat_ge_Fin) simp_all
  then show ?thesis by (simp add: f(1) f_sub_def)
qed


lemma f_mul_nonneg_or_nan:
  assumes "f_le (Fin 0) a" and "f_lt (Fin 0) b"
  shows "f_le (Fin 0) (f_mul a b) \<or> f_mul a b = NaN"
  using assms by (cases a; cases b) (auto simp: f_mul_def f_inf_sign_def f_of_rat_ge_Fin intro!: f_of_rat_ge_Fin split: if_splits)

lemma f_mul_Fin_nonneg:
  assumes "f_le (Fin 0) a" and "0 < q"
  shows "f_le (Fin 0) (f_mul a (Fin q))"
  using assms by (cases a) (auto simp: f_mul_def f_inf_sign_def intro!: f_of_rat_ge_Fin)

lemma cost_nonneg:
  assumes "f_le (Fin 0) value"
  shows "f_le (Fin 0) (cost_of value side)"
proof -
  have c: "f_le (Fin 0) (py_max (f_mul value commission_rate) commission_min)"
    using f_mul_Fin_nonneg [OF assms] by (simp add: rate_codes commission_min_def py_max_def)
  have t: "f_le (Fin 0) (if side = ''sell'' then f_mul value stamp_tax_rate else Fin 0)" using f_mul_Fin_nonneg [OF assms] by (simp add: rate_codes)
  have s: "f_le (Fin 0) (f_mul value slippage_rate)" using f_mul_Fin_nonneg [OF assms] by (simp add: rate_codes)
  show ?thesis using f_add_nonneg [OF f_add_nonneg [OF c t] s] by (simp add: cost_of_def)
qed

lemma purchase_nonneg:
  assumes "whole_lots shares" and "valid_price price"
  shows "f_le (Fin 0) (f_mul shares price)"
proof -
  obtain k where "shares = f_of_rat (of_int (k * 100))" using assms(1) round_buy_lots by (auto simp: whole_lots_def)
  then have "shares \<noteq> NaN \<and> f_lt (Fin 0) shares" using assms(1) by (auto simp: whole_lots_def f_of_rat_def Let_def)
  then show ?thesis using assms(2) by (cases shares; cases price) (auto simp: valid_price_def f_mul_def f_inf_sign_def intro!: f_of_rat_ge_Fin)
qed

text \<open>C31: A purchase never overdraws the account by more than rounding. Whatever value is asked for, a purchase from a
  balance of at most 2^1000 leaves at least -2e-9: the commission with its minimum, the slippage and the
  rounding of every intermediate result included.\<close>

theorem buy_never_overdraws:
  assumes "buy (execute_event_trade c pn t) pn i t value price s = Inr (v, s')"
    and "pf_cash s = Fin x" and "wf_float (Fin x)" and "0 \<le> x" and "x \<le> 2 ^ 1000" and "valid_price price"
  shows "f_le (Fin (- overdraft)) (pf_cash s')"
proof -
  have cash: "f_le (Fin (- overdraft)) (pf_cash s)" using assms(2,4) by (simp add: overdraft_def)
  have ev: "pf_cash s1 = pf_cash s" if "execute_event_trade c pn t ''buy'' i n price s = Inr (ok, s1)" for n ok s1
    using that by (auto simp: execute_event_trade_def Let_def bindR_Inr_iff)
  show ?thesis
  proof (cases "f_le (py_min value (pf_cash s)) min_trade_value")
    case True
    then show ?thesis using assms(1) cash by (auto simp: buy_def)
  next
    case False
    obtain p where p: "plan_buy (pf_cash s) (fit_value 2 (pf_cash s) (py_min value (pf_cash s))) price = Inr p"
      using assms(1) False by (auto simp: buy_def Let_def bindR_Inr_iff)
    show ?thesis
    proof (cases p)
      case None
      then show ?thesis using assms(1) False p cash by (auto simp: buy_def)
    next
      case (Some shares)
      let ?spent = "f_mul shares price"
      note plan = plan_buy_shares [OF p [unfolded Some]]
      have "f_le (Fin 0) (f_add ?spent (cost_of ?spent ''buy''))"
        using purchase_nonneg assms(6) plan cost_nonneg by (intro f_add_nonneg) blast+
      then have spent: "f_le (Fin (- overdraft)) (f_sub (Fin x) (f_add ?spent (cost_of ?spent ''buy'')))"
        using plan assms(2-5) by (intro affordable_leaves) simp_all
      show ?thesis using assms(1) False p Some cash spent ev assms(2)
        by (auto simp: buy_def Let_def thenD_Inr buy_trade_def split: if_splits)
    qed
  qed
qed

subsection \<open>Witnesses\<close>

definition demo_env :: backtest_env where
  "demo_env = \<lparr>be_fail_ambiguous = True, be_fail_invalid = True, be_fresh = (\<lambda>_. []), be_date_text = (\<lambda>_. []), be_read_meta = (\<lambda>_. Inl []), be_mean = (\<lambda>_. Fin 0)\<rparr>"

definition demo_request :: backtest_request where
  "demo_request = \<lparr>br_interval = 1, br_mask = None, br_top_k = Some 1, br_cash = Fin 2048, br_metadata = [], br_unsafe = True, br_model = NEXT_OPEN\<rparr>"

definition demo_panels :: panels where
  "demo_panels = \<lparr>pa_symbols = [''600519''], pa_dates = [739000], pa_scores = [[Fin 1]], pa_opens = [[Fin 8]], pa_highs = [[Fin 8]], pa_lows = [[Fin 8]],
     pa_closes = [[Fin 8]], pa_volumes = [[Fin 64]], pa_meta = None, pa_upper = None, pa_lower = None, pa_limits = None, pa_amounts = None\<rparr>"

lemma demo_backtest: "(case run_topk_backtest demo_env demo_request demo_panels of Inl _ \<Rightarrow> [] | Inr r \<Rightarrow> map tr_shares (bk_trades r)) = [Fin 200]"
  by code_simp

lemma demo_run:
  obtains res tr r v s' lc where "run_topk_backtest demo_env demo_request demo_panels = Inr res" and "tr \<in> set (bk_trades res)"
    and "run_days demo_env demo_request demo_panels 0 = Inr r" and "rebalance_day (config_of demo_env demo_request demo_panels) demo_panels lc 0 (rn_portfolio r) = Inr (v, s')"
proof -
  obtain res where res: "run_topk_backtest demo_env demo_request demo_panels = Inr res" "map tr_shares (bk_trades res) = [Fin 200]"
    using demo_backtest by (cases "run_topk_backtest demo_env demo_request demo_panels") auto
  obtain tr where tr: "tr \<in> set (bk_trades res)" using res(2) by (cases "bk_trades res") auto
  have one: "snd (shape (pa_scores demo_panels)) = Suc 0" by (simp add: demo_panels_def shape_def)
  obtain r' where r': "run_days demo_env demo_request demo_panels (Suc 0) = Inr r'" "bk_trades res = pf_trades (rn_portfolio r')"
    using res(1) one by (auto simp: run_topk_backtest_def Let_def bindR_Inr_iff run_days_def start_run_def)
  obtain r where r: "run_days demo_env demo_request demo_panels 0 = Inr r"
      "backtest_day demo_env demo_request (config_of demo_env demo_request demo_panels) demo_panels r 0 = Inr r'"
    using r'(1) by (auto simp: run_days_Suc bindR_Inr_iff)
  have empty: "pf_trades (rn_portfolio r) = []" using r(1) by (auto simp: run_days_def start_run_def start_portfolio_def)
  from r(2) show ?thesis
  proof (cases rule: backtest_day_cases)
    case idle
    then show ?thesis using empty tr r'(2) by simp
  next
    case (rebalanced v lc)
    then show ?thesis using that res(1) tr r(1) by (cases v) blast
  qed
qed

theorem every_trade_is_legal_witness:
  "\<exists>res tr. run_topk_backtest demo_env demo_request demo_panels = Inr res \<and> tr \<in> set (bk_trades res)
     \<and> legal_trade demo_env demo_request demo_panels (bk_events res) tr"
proof -
  obtain res tr where r: "run_topk_backtest demo_env demo_request demo_panels = Inr res" "tr \<in> set (bk_trades res)" by (rule demo_run)
  have d: "snd (shape (pa_scores demo_panels)) = length (pa_dates demo_panels)" by (simp add: demo_panels_def shape_def)
  from every_trade_is_legal [OF r(1) d r(2)] r show ?thesis by blast
qed

theorem bought_today_stays_today_witness:
  "\<exists>r v lc s'. run_days demo_env demo_request demo_panels 0 = Inr r
     \<and> rebalance_day (config_of demo_env demo_request demo_panels) demo_panels lc 0 (rn_portfolio r) = Inr (v, s')
     \<and> map pl_shares (locked_lots 0 (book_of s' 0)) = bought_since demo_panels 0 (rn_portfolio r) s'"
proof -
  obtain r v s' lc where r: "run_days demo_env demo_request demo_panels 0 = Inr r"
      "rebalance_day (config_of demo_env demo_request demo_panels) demo_panels lc 0 (rn_portfolio r) = Inr (v, s')" by (rule demo_run)
  have "distinct (pa_symbols demo_panels)" "length (pa_symbols demo_panels) = length (pa_scores demo_panels)" "0 < length (pa_scores demo_panels)"
    by (simp_all add: demo_panels_def)
  from bought_today_stays_today [OF r(1) le0 this(1,2) r(2) this(3)] r show ?thesis by blast
qed

theorem buy_never_overdraws_witness:
  "\<exists>v s'. buy (execute_event_trade (config_of demo_env demo_request demo_panels) demo_panels 0) demo_panels 0 0 (Fin 2048) (Fin 8) (start_portfolio (Fin 2048)) = Inr (v, s')
     \<and> f_le (Fin (- overdraft)) (pf_cash s')"
proof -
  let ?b = "buy (execute_event_trade (config_of demo_env demo_request demo_panels) demo_panels 0) demo_panels 0 0 (Fin 2048) (Fin 8) (start_portfolio (Fin 2048))"
  have "\<not> isl ?b" by code_simp
  then obtain v s' where b: "?b = Inr (v, s')" by (metis not_islE surj_pair)
  have "wf_float (Fin 2048)" using rep64_of_int [of 2048] by simp
  from buy_never_overdraws [OF b _ this] b show ?thesis by (simp add: start_portfolio_def valid_price_def)
qed

end
