(* ===== verification/Readiness.thy ===== *)
theory Readiness
  imports Grounding
begin

text \<open>
  Formal readiness: the fail-closed check of the upstream capabilities (\<open>app/application/readiness/service.py\<close>), the
  policy it applies and its manifest (\<open>formal_policy.py\<close>, \<open>contract_paths.py\<close>), and the readiness report of
  the conclusion surface (\<open>knowledge_conclusion.py\<close>). Times are microseconds. The probes, the files of the contracts and the
  digest are arguments. The last successes are shared by the threads that check: between two accesses of
  one thread to the cache others may record any answers they got (\<open>gaps\<close>).
\<close>

subsection \<open>Contract references\<close>

record contract_files =
  cf_resolve :: "string \<Rightarrow> string list option"
  cf_is_file :: "string list \<Rightarrow> bool"
  cf_digest :: "string list \<Rightarrow> string"

definition contract_path_error :: "string \<Rightarrow> exc" where
  "contract_path_error m = PyExc ''ContractPathError'' m"

text \<open>The real location of a file, when it lies under the real location of \<open>contracts/\<close>.\<close>

definition resolve_contract_file :: "contract_files \<Rightarrow> string \<Rightarrow> string list result" where
  "resolve_contract_file fs path = (case (cf_resolve fs ''contracts'', cf_resolve fs path) of
     (Some home, Some p) \<Rightarrow> if take (length home) p = home then Inr p else Inl (contract_path_error ''CONTRACT_PATH_OUTSIDE_ROOT'')
   | _ \<Rightarrow> Inl (contract_path_error ''CONTRACT_PATH_UNRESOLVABLE''))"

definition is_separator :: "char \<Rightarrow> bool" where
  "is_separator c \<longleftrightarrow> c = CHR ''/'' \<or> c = CHR 0x5C"

definition is_letter :: "char \<Rightarrow> bool" where
  "is_letter c = (let n = of_char (lower_char c) :: int in 97 \<le> n \<and> n \<le> 122)"

text \<open>A POSIX root, a Windows root or a Windows drive.\<close>

definition absolute_reference :: "string \<Rightarrow> bool" where
  "absolute_reference r = (case r of [] \<Rightarrow> False | c # cs \<Rightarrow> is_separator c \<or> is_letter c \<and> (case cs of [] \<Rightarrow> False | d # _ \<Rightarrow> d = CHR '':''))"

definition path_parts :: "string \<Rightarrow> string list" where
  "path_parts r = split_on CHR ''/'' (map (\<lambda>c. if c = CHR 0x5C then CHR ''/'' else c) r)"

definition resolve_contract_reference :: "contract_files \<Rightarrow> string \<Rightarrow> string list result" where
  "resolve_contract_reference fs r =
     (if r = [] then Inl (contract_path_error ''CONTRACT_PATH_EMPTY'')
      else if absolute_reference r then Inl (contract_path_error ''CONTRACT_PATH_ABSOLUTE'')
      else if ''..'' \<in> set (path_parts r) then Inl (contract_path_error ''CONTRACT_PATH_TRAVERSAL'')
      else resolve_contract_file fs r)"

subsection \<open>Policy\<close>

record readiness_policy =
  po_version :: string
  po_max_age :: pyfloat
  po_require_pit :: bool
  po_required :: "string list"
  po_expected :: "(string \<times> string) list"
  po_ttl :: pyfloat
  po_checksums :: "(string \<times> string) list"
  po_error :: "string option"

definition default_policy :: readiness_policy where
  "default_policy = \<lparr>po_version = ''formal-readiness.v1'', po_max_age = Fin 300, po_require_pit = True, po_required = [], po_expected = [],
     po_ttl = Fin 30, po_checksums = [], po_error = None\<rparr>"

definition manifest_components :: "(string \<times> string) list" where
  "manifest_components = [(''quant'', ''market-data.v1''), (''stock_factor'', ''factor.v1''), (''stock_content'', ''content.v1'')]"

definition manifest_error :: "string \<Rightarrow> string \<Rightarrow> exc" where
  "manifest_error code contract = ValueError (code @ '':'' @ contract)"

text \<open>One contract of the manifest: its schema file exists, has the recorded digest and is not past its sunset.\<close>

definition check_contract :: "contract_files \<Rightarrow> string \<Rightarrow> mapping \<Rightarrow> string \<Rightarrow> string result" where
  "check_contract fs today contracts contract = (case get_item contracts contract of
     VDict item \<Rightarrow>
       if \<not> truthy (get_item item ''schema'') \<or> \<not> truthy (get_item item ''checksum'') then Inl (manifest_error ''CONTRACT_MANIFEST_MISSING'' contract)
       else (case resolve_contract_reference fs (py_str (get_item item ''schema'')) of
         Inl e \<Rightarrow> Inl (if exc_class e = ''ContractPathError'' then manifest_error (exc_message e) contract else e)
       | Inr path \<Rightarrow>
         if \<not> cf_is_file fs path then Inl (manifest_error ''CONTRACT_SCHEMA_MISSING'' contract)
         else let digest = ''sha256:'' @ cf_digest fs path; sunset = get_item item ''sunset_at'' in
           if get_item item ''checksum'' \<noteq> VStr digest then Inl (manifest_error ''CONTRACT_CHECKSUM_MISMATCH'' contract)
           else if truthy sunset \<and> py_str sunset < today then Inl (manifest_error ''CONTRACT_SUNSET'' contract)
           else Inr digest)
   | _ \<Rightarrow> Inl (manifest_error ''CONTRACT_MANIFEST_MISSING'' contract))"

definition policy_from_manifest :: "contract_files \<Rightarrow> string \<Rightarrow> string \<Rightarrow> mapping \<Rightarrow> readiness_policy result" where
  "policy_from_manifest fs today path document = bindR (resolve_contract_file fs path) (\<lambda>_.
     case py_or (get_item document ''contracts'') (VDict []) of
       VDict contracts \<Rightarrow> bindR (mapR (\<lambda>(_, c). bindR (check_contract fs today contracts c) (\<lambda>d. Inr (c, d))) manifest_components) (\<lambda>locks.
         Inr (default_policy\<lparr>po_expected := manifest_components, po_required := map snd manifest_components, po_checksums := locks\<rparr>))
     | _ \<Rightarrow> Inl (PyExc ''AttributeError'' ''object has no attribute get''))"

subsection \<open>Capabilities and their cache\<close>

record capability_status =
  cs_component :: string
  cs_reachable :: bool
  cs_contract :: "string option"
  cs_snapshot_age :: "pyfloat option"
  cs_quality :: "string option"
  cs_pit :: "bool option"
  cs_reason :: "string option"

definition unreachable_status :: "string \<Rightarrow> string \<Rightarrow> capability_status" where
  "unreachable_status name reason = \<lparr>cs_component = name, cs_reachable = False, cs_contract = None, cs_snapshot_age = None, cs_quality = None,
     cs_pit = None, cs_reason = Some reason\<rparr>"

datatype probe_answer = Answered capability_status | TimedOut | Broken

definition contract_mismatch :: "readiness_policy \<Rightarrow> string \<Rightarrow> string \<Rightarrow> bool" where
  "contract_mismatch pol name contract \<longleftrightarrow>
     (case dict_get (po_expected pol) name of None \<Rightarrow> False | Some e \<Rightarrow> e \<noteq> [] \<and> contract \<noteq> e)
     \<or> po_required pol \<noteq> [] \<and> contract \<notin> set (po_required pol)"

definition validation_reasons :: "readiness_policy \<Rightarrow> string \<Rightarrow> capability_status \<Rightarrow> string list" where
  "validation_reasons pol name s =
     (if cs_component s \<noteq> name then [''CAPABILITY_IDENTITY_MISMATCH''] else [])
     @ (case cs_contract s of None \<Rightarrow> [''CONTRACT_UNVERIFIED''] | Some c \<Rightarrow> if contract_mismatch pol name c then [''CONTRACT_MISMATCH''] else [])
     @ (case cs_snapshot_age s of None \<Rightarrow> [''FRESHNESS_UNVERIFIED''] | Some a \<Rightarrow> if f_lt (po_max_age pol) a then [''SNAPSHOT_STALE''] else [])
     @ (if po_require_pit pol \<and> cs_pit s \<noteq> Some True then [''PIT_UNVERIFIED''] else [])
     @ (if cs_quality s = Some ''PASS'' then [] else if cs_quality s = None then [''QUALITY_UNVERIFIED''] else [''QUALITY_FAILED''])"

type_synonym status_cache = "string \<rightharpoonup> capability_status \<times> int"

text \<open>An answer and its effect on the cache: a reachable capability is kept when it passes every gate and forgotten otherwise.\<close>

type_synonym answer = "string \<times> capability_status \<times> int"

definition record_answer :: "readiness_policy \<Rightarrow> answer \<Rightarrow> status_cache \<Rightarrow> status_cache" where
  "record_answer pol a cache = (case a of (name, s, now) \<Rightarrow>
     if \<not> cs_reachable s then cache
     else if validation_reasons pol name s \<noteq> [] then cache(name := None) else cache(name \<mapsto> (s, now)))"

definition other_threads :: "readiness_policy \<Rightarrow> answer list \<Rightarrow> status_cache \<Rightarrow> status_cache" where
  "other_threads pol as cache = foldl (\<lambda>c a. record_answer pol a c) cache as"

definition elapsed :: "int \<Rightarrow> int \<Rightarrow> pyfloat" where
  "elapsed now t = f_of_rat (of_int (now - t) / 10 ^ 6)"

definition cached_or_failed :: "readiness_policy \<Rightarrow> status_cache \<Rightarrow> string \<Rightarrow> int \<Rightarrow> string \<Rightarrow> capability_status" where
  "cached_or_failed pol cache name now reason = (case cache name of
     None \<Rightarrow> unreachable_status name reason
   | Some (s, stored_at) \<Rightarrow> (let age = elapsed now stored_at; fresh = f_le age (po_ttl pol) in
       s\<lparr>cs_component := name, cs_reachable := fresh, cs_snapshot_age := map_option (\<lambda>a. f_add a age) (cs_snapshot_age s),
         cs_reason := Some (if fresh then ''CACHED_LAST_SUCCESS'' else ''CAPABILITY_CACHE_EXPIRED'')\<rparr>))"

definition probe_status :: "readiness_policy \<Rightarrow> probe_answer option \<Rightarrow> string \<Rightarrow> int \<Rightarrow> status_cache \<Rightarrow> capability_status \<times> status_cache" where
  "probe_status pol probe name now cache = (case probe of
     None \<Rightarrow> (unreachable_status name ''CAPABILITY_PROBE_MISSING'', cache)
   | Some (Answered s) \<Rightarrow> (s, record_answer pol (name, s, now) cache)
   | Some TimedOut \<Rightarrow> (cached_or_failed pol cache name now ''UPSTREAM_TIMEOUT'', cache)
   | Some Broken \<Rightarrow> (cached_or_failed pol cache name now ''UPSTREAM_PROBE_ERROR'', cache))"

record component_report =
  cr_status :: capability_status
  cr_cached :: "(int \<times> pyfloat) option"

definition status_reasons :: "readiness_policy \<Rightarrow> string \<Rightarrow> capability_status \<Rightarrow> string list" where
  "status_reasons pol name s = (if \<not> cs_reachable s
     then [if falsy_text (cs_reason s) then ''UPSTREAM_UNAVAILABLE'' else the (cs_reason s)]
     else validation_reasons pol name s)"

type_synonym gaps = "string \<Rightarrow> nat \<Rightarrow> answer list"

text \<open>One component. The report looks the cache up twice: whether the name is there, then its entry.\<close>

definition check_component :: "readiness_policy \<Rightarrow> (string \<rightharpoonup> probe_answer) \<Rightarrow> gaps \<Rightarrow> int \<Rightarrow> string \<Rightarrow> status_cache
    \<Rightarrow> (component_report \<times> string list \<times> status_cache) result" where
  "check_component pol probes gaps now name cache =
     (case probe_status pol (probes name) name now (other_threads pol (gaps name 0) cache) of (s, c1) \<Rightarrow>
      let c2 = other_threads pol (gaps name 1) c1 in
      if cs_reason s = Some ''CACHED_LAST_SUCCESS'' \<and> c2 name \<noteq> None
      then let c3 = other_threads pol (gaps name 2) c2 in
        (case c3 name of None \<Rightarrow> Inl (KeyError name)
         | Some (_, t) \<Rightarrow> Inr (\<lparr>cr_status = s, cr_cached = Some (t, py_max (Fin 0) (elapsed now t))\<rparr>, status_reasons pol name s, c3))
      else Inr (\<lparr>cr_status = s, cr_cached = None\<rparr>, status_reasons pol name s, c2))"

record readiness_result =
  rr_ready :: bool
  rr_checked_at :: string
  rr_policy :: string
  rr_components :: "(string \<times> component_report) list"
  rr_reasons :: "string list"

definition formal_components :: "string list" where
  "formal_components = [''quant'', ''stock_factor'', ''stock_content'']"

definition fixture_status :: "readiness_policy \<Rightarrow> string \<Rightarrow> capability_status" where
  "fixture_status pol name = \<lparr>cs_component = name, cs_reachable = True, cs_contract = dict_get (po_expected pol) name, cs_snapshot_age = Some (Fin 0),
     cs_quality = Some ''PASS'', cs_pit = Some True, cs_reason = Some ''DETERMINISTIC_FIXTURE''\<rparr>"

fun check_components :: "readiness_policy \<Rightarrow> (string \<rightharpoonup> probe_answer) \<Rightarrow> gaps \<Rightarrow> int \<Rightarrow> string list \<Rightarrow> status_cache
    \<Rightarrow> ((string \<times> component_report) list \<times> string list \<times> status_cache) result" where
  "check_components pol probes gaps now [] cache = Inr ([], [], cache)"
| "check_components pol probes gaps now (n # ns) cache = bindR (check_component pol probes gaps now n cache) (\<lambda>(r, why, c).
     bindR (check_components pol probes gaps now ns c) (\<lambda>(rs, whys, c'). Inr ((n, r) # rs, why @ whys, c')))"

definition readiness_check :: "readiness_policy \<Rightarrow> bool \<Rightarrow> (int \<Rightarrow> string) \<Rightarrow> (string \<rightharpoonup> probe_answer) \<Rightarrow> gaps \<Rightarrow> int \<Rightarrow> status_cache
    \<Rightarrow> (readiness_result \<times> status_cache) result" where
  "readiness_check pol fixture isoformat probes gaps now cache =
     (if fixture then Inr (\<lparr>rr_ready = True, rr_checked_at = isoformat now, rr_policy = po_version pol,
          rr_components = map (\<lambda>n. (n, \<lparr>cr_status = fixture_status pol n, cr_cached = None\<rparr>)) formal_components,
          rr_reasons = [''DETERMINISTIC_FIXTURE_MODE'']\<rparr>, cache)
      else bindR (check_components pol probes gaps now formal_components cache) (\<lambda>(rs, whys, c).
        let reasons = (if falsy_text (po_error pol) then [] else [''CONTRACT_MANIFEST_INVALID'']) @ whys in
        Inr (\<lparr>rr_ready = (reasons = []), rr_checked_at = isoformat now, rr_policy = po_version pol, rr_components = rs, rr_reasons = dedup reasons\<rparr>, c)))"

subsection \<open>Readiness of the conclusion surface\<close>

text \<open>A probe answers a text, or raises an error that counts as failed.\<close>

definition probe_text :: "string option \<Rightarrow> string" where
  "probe_text p = (case p of None \<Rightarrow> ''failed'' | Some s \<Rightarrow> s)"

definition truthy_setting :: "string \<Rightarrow> bool" where
  "truthy_setting v \<longleftrightarrow> str_lower (strip v) \<in> {''1'', ''true'', ''yes''}"

definition auth_policy :: "string \<Rightarrow> string" where
  "auth_policy v = (let mode = str_lower (strip v) in if mode \<in> {''none'', ''bearer''} then mode else ''invalid'')"

definition content_service_probe :: "mapping \<Rightarrow> string" where
  "content_service_probe payload = (if get_item payload ''status'' \<in> {VStr ''ready'', VStr ''ok''} \<or> get_item payload ''ready'' = VBool True
     then ''ok'' else ''failed'')"

definition first_string :: "mapping \<Rightarrow> string list \<Rightarrow> string option" where
  "first_string d ks = (case first_such (\<lambda>k. is_str (get_item d k)) ks of None \<Rightarrow> None | Some k \<Rightarrow> Some (py_str (get_item d k)))"

definition content_contract_checksum :: "mapping \<Rightarrow> string option" where
  "content_contract_checksum payload = (case get_item payload ''contract_checksum'' of
     VStr s \<Rightarrow> Some s
   | _ \<Rightarrow> (case (case get_item payload ''producer'' of VDict p \<Rightarrow> first_string p [''contract_checksum''] | _ \<Rightarrow> None) of
       Some s \<Rightarrow> Some s
     | None \<Rightarrow> (case get_item payload ''components'' of
         VDict cs \<Rightarrow> (case get_item cs ''contract_checksum'' of VDict c \<Rightarrow> first_string c [''checksum'', ''value'', ''actual_checksum''] | _ \<Rightarrow> None)
       | _ \<Rightarrow> None)))"

definition content_contract_probe :: "string list \<Rightarrow> mapping \<Rightarrow> string" where
  "content_contract_probe locked payload = (case content_contract_checksum payload of
     None \<Rightarrow> ''failed'' | Some s \<Rightarrow> if s \<in> set locked then ''ok'' else ''failed'')"

definition schema_probe :: "string list \<Rightarrow> string" where
  "schema_probe versions = (if {''042_knowledge_conclusion_runs.sql'', ''043_knowledge_conclusion_lineage_audit.sql''} \<subseteq> set versions then ''ok'' else ''failed'')"

record conclusion_probes =
  cp_knowledge_only :: bool
  cp_schema :: "string option"
  cp_repository :: "string option"
  cp_content_service :: "string option"
  cp_content_contract :: "string option"
  cp_model :: "string option"
  cp_fallback :: string
  cp_utc_aware :: bool
  cp_auth :: string

definition required_checks :: "string list" where
  "required_checks = [''profile'', ''schema'', ''repository'', ''content_service'', ''content_contract'', ''clock'']"

definition conclusion_readiness :: "conclusion_probes \<Rightarrow> bool \<times> (string \<times> string) list" where
  "conclusion_readiness p = (let checks = [
       (''profile'', if cp_knowledge_only p then ''ok'' else ''failed''), (''schema'', probe_text (cp_schema p)),
       (''repository'', probe_text (cp_repository p)), (''content_service'', probe_text (cp_content_service p)),
       (''content_contract'', probe_text (cp_content_contract p)), (''model'', probe_text (cp_model p)),
       (''fallback'', if truthy_setting (cp_fallback p) then ''enabled'' else ''disabled''), (''clock'', if cp_utc_aware p then ''ok'' else ''failed''),
       (''auth_policy'', auth_policy (cp_auth p))]
     in ((\<forall>n \<in> set required_checks. dict_get checks n = Some ''ok'')
         \<and> (dict_get checks ''model'' = Some ''ok'' \<or> dict_get checks ''fallback'' = Some ''enabled''), checks))"

subsection \<open>What a positive answer rests on\<close>

text \<open>Every entry of the cache is an answer of the history that passed all gates when it came.\<close>

definition cached_from :: "readiness_policy \<Rightarrow> answer set \<Rightarrow> status_cache \<Rightarrow> bool" where
  "cached_from pol seen cache \<longleftrightarrow> (\<forall>n s t. cache n = Some (s, t) \<longrightarrow> (n, s, t) \<in> seen \<and> cs_reachable s \<and> validation_reasons pol n s = [])"

lemma cached_from_empty [simp]: "cached_from pol seen Map.empty"
  by (simp add: cached_from_def)

lemma cached_from_mono: "cached_from pol seen c \<Longrightarrow> seen \<subseteq> seen' \<Longrightarrow> cached_from pol seen' c"
  unfolding cached_from_def by blast

lemma record_answer_from: "cached_from pol seen c \<Longrightarrow> a \<in> seen \<Longrightarrow> cached_from pol seen (record_answer pol a c)"
  by (cases a) (auto simp: cached_from_def record_answer_def)

lemma other_threads_from: "cached_from pol seen c \<Longrightarrow> set as \<subseteq> seen \<Longrightarrow> cached_from pol seen (other_threads pol as c)"
  unfolding other_threads_def by (induction as arbitrary: c) (auto intro: record_answer_from)

lemma probe_status_from:
  assumes "cached_from pol seen c" and "\<And>s. probe = Some (Answered s) \<Longrightarrow> (name, s, now) \<in> seen"
  shows "cached_from pol seen (snd (probe_status pol probe name now c))"
  using assms by (auto simp: probe_status_def record_answer_from split: option.splits probe_answer.splits)

definition answered_now :: "(string \<rightharpoonup> probe_answer) \<Rightarrow> int \<Rightarrow> answer set" where
  "answered_now probes now = {(n, s, now) | n s. probes n = Some (Answered s)}"

definition gap_answers :: "gaps \<Rightarrow> answer set" where
  "gap_answers gaps = (\<Union>n k. set (gaps n k))"

text \<open>What a component of a ready result rests on: its answer now, or an answer in the cache that is young enough.\<close>

definition supported_by :: "readiness_policy \<Rightarrow> (string \<rightharpoonup> probe_answer) \<Rightarrow> int \<Rightarrow> answer set \<Rightarrow> string \<Rightarrow> capability_status \<Rightarrow> bool" where
  "supported_by pol probes now seen name s \<longleftrightarrow> cs_reachable s \<and> validation_reasons pol name s = []
     \<and> (probes name = Some (Answered s)
      \<or> (probes name = Some TimedOut \<or> probes name = Some Broken)
        \<and> (\<exists>s0 t. (name, s0, t) \<in> seen \<and> cs_reachable s0 \<and> validation_reasons pol name s0 = [] \<and> f_le (elapsed now t) (po_ttl pol)
           \<and> s = s0\<lparr>cs_component := name, cs_reachable := True, cs_snapshot_age := map_option (\<lambda>a. f_add a (elapsed now t)) (cs_snapshot_age s0),
                cs_reason := Some ''CACHED_LAST_SUCCESS''\<rparr>))"

lemma cached_supported:
  assumes "cached_from pol seen c" and "s = cached_or_failed pol c name now reason" and "cs_reachable s"
  obtains s0 t where "(name, s0, t) \<in> seen" and "cs_reachable s0" and "validation_reasons pol name s0 = []" and "f_le (elapsed now t) (po_ttl pol)"
    and "s = s0\<lparr>cs_component := name, cs_reachable := True, cs_snapshot_age := map_option (\<lambda>a. f_add a (elapsed now t)) (cs_snapshot_age s0),
           cs_reason := Some ''CACHED_LAST_SUCCESS''\<rparr>"
proof (cases "c name")
  case None
  then show ?thesis using assms(2,3) by (simp add: cached_or_failed_def unreachable_status_def)
next
  case (Some st)
  obtain s0 t where st: "st = (s0, t)" by (cases st)
  have fresh: "f_le (elapsed now t) (po_ttl pol)" using assms(2,3) Some st by (simp add: cached_or_failed_def Let_def)
  then show ?thesis using that [of s0 t] assms(1,2) Some st by (simp add: cached_from_def cached_or_failed_def Let_def)
qed

lemma check_component_correct:
  assumes "check_component pol probes gaps now name c = Inr (r, why, c')" and "cached_from pol seen c"
    and "gap_answers gaps \<subseteq> seen" and "answered_now probes now \<subseteq> seen"
  shows "cached_from pol seen c'" and "why = [] \<Longrightarrow> supported_by pol probes now seen name (cr_status r)"
proof -
  have gap: "cached_from pol seen (other_threads pol (gaps name k) d)" if "cached_from pol seen d" for k d
    using that assms(3) by (intro other_threads_from) (auto simp: gap_answers_def)
  define c0 where "c0 = other_threads pol (gaps name 0) c"
  obtain s c1 where p: "probe_status pol (probes name) name now c0 = (s, c1)" by fastforce
  have c0: "cached_from pol seen c0" unfolding c0_def using gap assms(2) .
  have "cached_from pol seen (snd (probe_status pol (probes name) name now c0))"
    by (rule probe_status_from [OF c0]) (use assms(4) in \<open>auto simp: answered_now_def\<close>)
  then have c1: "cached_from pol seen c1" by (simp add: p)
  show "cached_from pol seen c'"
    using assms(1) gap [OF c1] gap [OF gap [OF c1]]
    unfolding check_component_def c0_def [symmetric] p by (auto simp: Let_def split: if_splits option.splits)
  have s: "cr_status r = s" "why = status_reasons pol name s"
    using assms(1) unfolding check_component_def c0_def [symmetric] p by (auto simp: Let_def split: if_splits option.splits)
  assume "why = []"
  then have ok: "cs_reachable s" "validation_reasons pol name s = []" using s(2) by (auto simp: status_reasons_def split: if_splits)
  show "supported_by pol probes now seen name (cr_status r)"
  proof (cases "probes name")
    case None
    then show ?thesis using p ok(1) by (auto simp: probe_status_def unreachable_status_def)
  next
    case (Some a)
    show ?thesis
    proof (cases a)
      case (Answered s')
      then show ?thesis using Some p ok s(1) by (simp add: supported_by_def probe_status_def)
    next
      case TimedOut
      then have e: "s = cached_or_failed pol c0 name now ''UPSTREAM_TIMEOUT''" using Some p by (auto simp: probe_status_def)
      show ?thesis using cached_supported [OF c0 e ok(1)] Some TimedOut ok s(1) unfolding supported_by_def by metis
    next
      case Broken
      then have e: "s = cached_or_failed pol c0 name now ''UPSTREAM_PROBE_ERROR''" using Some p by (auto simp: probe_status_def)
      show ?thesis using cached_supported [OF c0 e ok(1)] Some Broken ok s(1) unfolding supported_by_def by metis
    qed
  qed
qed

lemma check_components_correct:
  assumes "check_components pol probes gaps now ns c = Inr (rs, whys, c')" and "cached_from pol seen c"
    and "gap_answers gaps \<subseteq> seen" and "answered_now probes now \<subseteq> seen"
  shows "cached_from pol seen c' \<and> map fst rs = ns \<and> (whys = [] \<longrightarrow> (\<forall>(n, r) \<in> set rs. supported_by pol probes now seen n (cr_status r)))"
  using assms(1,2)
proof (induction ns arbitrary: c rs whys c')
  case Nil
  then show ?case by simp
next
  case (Cons n ns)
  obtain r why c1 rs' whys' where one: "check_component pol probes gaps now n c = Inr (r, why, c1)"
      "check_components pol probes gaps now ns c1 = Inr (rs', whys', c')" "rs = (n, r) # rs'" "whys = why @ whys'"
    using Cons.prems(1) by (auto simp: bindR_Inr_iff)
  note component = check_component_correct [OF one(1) Cons.prems(2) assms(3,4)]
  show ?case using Cons.IH [OF one(2) component(1)] component(2) one(3,4) by auto
qed

text \<open>C33: Readiness is never claimed without evidence. Whatever answers this and other threads have recorded before
  and record meanwhile, a check outside fixture mode that reports ready has, for each of the three upstream components, a
  status that passes every gate of the policy (identity, contract, freshness, point in time, quality), and that status is the answer
  of its probe now, or, only when the probe failed, an answer that passed every gate when it was recorded, is not older than the time to live
  and whose snapshot age has been raised by the time in the cache.\<close>

theorem ready_is_supported:
  assumes "readiness_check pol False isoformat probes gaps now (other_threads pol history Map.empty) = Inr (r, c)" and "rr_ready r"
  shows "map fst (rr_components r) = formal_components
     \<and> (\<forall>(n, rep) \<in> set (rr_components r). supported_by pol probes now (set history \<union> gap_answers gaps \<union> answered_now probes now) n (cr_status rep))"
proof -
  obtain rs whys c' where k: "check_components pol probes gaps now formal_components (other_threads pol history Map.empty) = Inr (rs, whys, c')"
      "rr_components r = rs" "rr_ready r \<longrightarrow> whys = []"
  proof -
    obtain x where x: "check_components pol probes gaps now formal_components (other_threads pol history Map.empty) = Inr x"
        "(case x of (rs, whys, d) \<Rightarrow> let reasons = (if falsy_text (po_error pol) then [] else [''CONTRACT_MANIFEST_INVALID'']) @ whys in
           Inr (\<lparr>rr_ready = (reasons = []), rr_checked_at = isoformat now, rr_policy = po_version pol, rr_components = rs, rr_reasons = dedup reasons\<rparr>, d)) = (Inr (r, c) :: (readiness_result \<times> status_cache) result)"
      using assms(1) unfolding readiness_check_def if_False bindR_Inr_iff by blast
    obtain rs whys d where xs: "x = (rs, whys, d)" by (cases x)
    show ?thesis using that [of rs whys d] x unfolding xs by (auto simp: Let_def)
  qed
  have "cached_from pol (set history \<union> gap_answers gaps \<union> answered_now probes now) (other_threads pol history Map.empty)"
    by (rule other_threads_from) auto
  from check_components_correct [OF k(1) this] show ?thesis using k(2,3) assms(2) by auto
qed

definition demo_policy :: readiness_policy where
  "demo_policy = default_policy\<lparr>po_expected := manifest_components, po_required := map snd manifest_components\<rparr>"

definition demo_status :: "string \<Rightarrow> int \<Rightarrow> capability_status" where
  "demo_status n age = \<lparr>cs_component = n, cs_reachable = True, cs_contract = dict_get manifest_components n, cs_snapshot_age = Some (Fin (of_int age)),
     cs_quality = Some ''PASS'', cs_pit = Some True, cs_reason = None\<rparr>"

definition demo_probes :: "string \<Rightarrow> probe_answer option" where
  "demo_probes n = (if n = ''quant'' then Some TimedOut else Some (Answered (demo_status n 1)))"

definition demo_history :: "answer list" where
  "demo_history = [(''quant'', demo_status ''quant'' 8, 0)]"

theorem ready_is_supported_witness:
  "\<exists>r c. readiness_check demo_policy False (\<lambda>_. []) demo_probes (\<lambda>_ _. []) 16000000 (other_threads demo_policy demo_history Map.empty) = Inr (r, c)
     \<and> map fst (rr_components r) = formal_components
     \<and> (\<forall>(n, rep) \<in> set (rr_components r). supported_by demo_policy demo_probes 16000000 (set demo_history \<union> gap_answers (\<lambda>_ _. []) \<union> answered_now demo_probes 16000000) n (cr_status rep))"
proof -
  let ?q = "readiness_check demo_policy False (\<lambda>_. []) demo_probes (\<lambda>_ _. []) 16000000 (other_threads demo_policy demo_history Map.empty)"
  have "(case ?q of Inl _ \<Rightarrow> False | Inr (r, _) \<Rightarrow> rr_ready r)" by code_simp
  then obtain r c where r: "?q = Inr (r, c)" "rr_ready r" by (auto split: sum.splits)
  from ready_is_supported [OF this] r(1) show ?thesis by blast
qed

text \<open>C34: Two threads can make a check raise. When the probe of a component fails and its last success is used, another thread
  that records a bad answer between the two look-ups of the report removes the entry, and the check
  ends with a key error instead of a result.\<close>

theorem cache_race_raises:
  assumes "probes ''quant'' = Some TimedOut" and "cs_reachable s" and "validation_reasons pol ''quant'' s = []" and "f_le (elapsed now t) (po_ttl pol)"
    and "cs_reachable bad" and "validation_reasons pol ''quant'' bad \<noteq> []"
  shows "readiness_check pol False isoformat probes (\<lambda>n k. if n = ''quant'' \<and> k = 2 then [(''quant'', bad, now)] else []) now
      (other_threads pol [(''quant'', s, t)] Map.empty) = Inl (KeyError ''quant'')"
  using assms by (simp add: readiness_check_def formal_components_def check_component_def probe_status_def other_threads_def record_answer_def
      cached_or_failed_def Let_def)

theorem cache_race_raises_witness:
  "readiness_check demo_policy False (\<lambda>_. []) demo_probes (\<lambda>n k. if n = ''quant'' \<and> k = 2 then [(''quant'', (demo_status ''quant'' 1000), 16000000)] else []) 16000000
      (other_threads demo_policy [(''quant'', demo_status ''quant'' 8, 0)] Map.empty) = Inl (KeyError ''quant'')"
  by (rule cache_race_raises) code_simp+

subsection \<open>Contracts of the manifest\<close>

lemma check_contract_locked:
  assumes "check_contract fs today contracts c = Inr d"
  obtains item r path where "get_item contracts c = VDict item" and "r = py_str (get_item item ''schema'')" and "resolve_contract_reference fs r = Inr path"
    and "cf_is_file fs path" and "d = ''sha256:'' @ cf_digest fs path" and "get_item item ''checksum'' = VStr d"
  using assms that by (auto simp: check_contract_def Let_def split: pyval.splits if_splits sum.splits)

lemma resolved_inside:
  assumes "resolve_contract_reference fs r = Inr path"
  shows "r \<noteq> [] \<and> \<not> absolute_reference r \<and> ''..'' \<notin> set (path_parts r) \<and> cf_resolve fs r = Some path
    \<and> (\<exists>home. cf_resolve fs ''contracts'' = Some home \<and> take (length home) path = home)"
  using assms by (auto simp: resolve_contract_reference_def resolve_contract_file_def split: if_splits option.splits)

text \<open>A policy read from a manifest expects exactly the three contracts of the upstream components, and each of them is locked: its
  schema reference is relative, without parent steps, its real location is a file under \<open>contracts/\<close>, and the digest of that file is the
  checksum of the manifest.\<close>

theorem manifest_contracts_locked:
  assumes "policy_from_manifest fs today path document = Inr pol"
  shows "po_expected pol = manifest_components \<and> po_required pol = map snd manifest_components \<and> map fst (po_checksums pol) = map snd manifest_components
     \<and> (\<exists>contracts. py_or (get_item document ''contracts'') (VDict []) = VDict contracts
         \<and> (\<forall>(c, d) \<in> set (po_checksums pol). \<exists>item r p home. get_item contracts c = VDict item
            \<and> r = py_str (get_item item ''schema'') \<and> r \<noteq> [] \<and> \<not> absolute_reference r \<and> ''..'' \<notin> set (path_parts r)
            \<and> cf_resolve fs r = Some p \<and> cf_resolve fs ''contracts'' = Some home \<and> take (length home) p = home \<and> cf_is_file fs p
            \<and> d = ''sha256:'' @ cf_digest fs p \<and> get_item item ''checksum'' = VStr d))"
proof -
  obtain contracts locks where m: "py_or (get_item document ''contracts'') (VDict []) = VDict contracts"
      "mapR (\<lambda>(_, c). bindR (check_contract fs today contracts c) (\<lambda>d. Inr (c, d))) manifest_components = Inr locks"
      "pol = default_policy\<lparr>po_expected := manifest_components, po_required := map snd manifest_components, po_checksums := locks\<rparr>"
    using assms by (auto simp: policy_from_manifest_def bindR_Inr_iff split: pyval.splits)
  have each: "list_all2 (\<lambda>(_, c) (c', d). c' = c \<and> check_contract fs today contracts c = Inr d) manifest_components locks"
    using m(2) unfolding mapR_list_all2 by (rule list_all2_mono) (auto simp: bindR_Inr_iff)
  then have fst: "map fst locks = map snd manifest_components"
    by (auto simp: list_all2_conv_all_nth intro!: nth_equalityI)
  have locked: "\<exists>item r p home. get_item contracts c = VDict item
            \<and> r = py_str (get_item item ''schema'') \<and> r \<noteq> [] \<and> \<not> absolute_reference r \<and> ''..'' \<notin> set (path_parts r)
            \<and> cf_resolve fs r = Some p \<and> cf_resolve fs ''contracts'' = Some home \<and> take (length home) p = home \<and> cf_is_file fs p
            \<and> d = ''sha256:'' @ cf_digest fs p \<and> get_item item ''checksum'' = VStr d" if "(c, d) \<in> set locks" for c d
  proof -
    have "check_contract fs today contracts c = Inr d" using each that by (auto simp: list_all2_conv_all_nth in_set_conv_nth)
    then obtain item r p where o: "get_item contracts c = VDict item" "r = py_str (get_item item ''schema'')" "resolve_contract_reference fs r = Inr p"
        "cf_is_file fs p" "d = ''sha256:'' @ cf_digest fs p" "get_item item ''checksum'' = VStr d" by (rule check_contract_locked)
    obtain home where h: "cf_resolve fs ''contracts'' = Some home" "take (length home) p = home" using resolved_inside [OF o(3)] by blast
    show ?thesis by (rule exI [of _ item], rule exI [of _ r], rule exI [of _ p], rule exI [of _ home]) (use o h resolved_inside [OF o(3)] in simp)
  qed
  show ?thesis using m fst locked by (auto simp: default_policy_def)
qed

definition demo_files :: contract_files where
  "demo_files = \<lparr>cf_resolve = (\<lambda>r. Some (split_on CHR ''/'' r)), cf_is_file = (\<lambda>_. True), cf_digest = (\<lambda>p. last p)\<rparr>"

definition demo_manifest :: mapping where
  "demo_manifest = [(''contracts'', VDict (map (\<lambda>(_, c). (c, VDict [(''schema'', VStr (''contracts/'' @ c)), (''checksum'', VStr (''sha256:'' @ c))])) manifest_components))]"

theorem manifest_contracts_locked_witness:
  "\<exists>pol. policy_from_manifest demo_files ''2026-01-01'' ''contracts/manifest.yaml'' demo_manifest = Inr pol \<and> po_expected pol = manifest_components"
proof -
  have "\<not> isl (policy_from_manifest demo_files ''2026-01-01'' ''contracts/manifest.yaml'' demo_manifest)" by code_simp
  then obtain pol where pol: "policy_from_manifest demo_files ''2026-01-01'' ''contracts/manifest.yaml'' demo_manifest = Inr pol" by (rule not_islE)
  from manifest_contracts_locked [OF pol] pol show ?thesis by blast
qed

end
