(* ===== verification/TradingClock.thy ===== *)
theory TradingClock
  imports Grounding
begin

text \<open>
  Trading calendars and the business clock: \<open>engines/market/trading_clock.py\<close>, \<open>market_clock.py\<close> and
  \<open>trading_calendar.py\<close>. A date is its proleptic ordinal, a time of day its microseconds since midnight, an instant
  the microseconds since the start of day 0 in UTC. The quant service (\<open>feed\<close>), the UTC offsets of Shanghai (\<open>offset\<close>) and the text
  of a date are arguments. A calendar operation passes the state of the calendar on, since the quant-backed one loads lazily.
\<close>

subsection \<open>Dates and times\<close>

definition max_day :: int where
  "max_day = 3652059"

definition weekday :: "int \<Rightarrow> int" where
  "weekday d = (d + 6) mod 7"

definition out_of_range :: exc where
  "out_of_range = PyExc ''OverflowError'' ''date value out of range''"

definition shift_day :: "int \<Rightarrow> int \<Rightarrow> int result" where
  "shift_day d n = (if 1 \<le> d + n \<and> d + n \<le> max_day then Inr (d + n) else Inl out_of_range)"

definition is_leap :: "int \<Rightarrow> bool" where
  "is_leap y \<longleftrightarrow> y mod 4 = 0 \<and> (y mod 100 \<noteq> 0 \<or> y mod 400 = 0)"

definition days_before_year :: "int \<Rightarrow> int" where
  "days_before_year y = (let z = y - 1 in z * 365 + z div 4 - z div 100 + z div 400)"

definition month_lengths :: "int \<Rightarrow> int list" where
  "month_lengths y = [31, if is_leap y then 29 else 28, 31, 30, 31, 30, 31, 31, 30, 31, 30, 31]"

text \<open>\<open>date(y, m, d)\<close>, with None for its \<open>ValueError\<close>.\<close>

definition civil_day :: "int \<Rightarrow> int \<Rightarrow> int \<Rightarrow> int option" where
  "civil_day y m d = (if 1 \<le> y \<and> y \<le> 9999 \<and> 1 \<le> m \<and> m \<le> 12 \<and> 1 \<le> d \<and> d \<le> month_lengths y ! nat (m - 1)
     then Some (days_before_year y + sum_list (take (nat (m - 1)) (month_lengths y)) + d) else None)"

definition digits_of :: "string \<Rightarrow> int option" where
  "digits_of s = (if s \<noteq> [] \<and> (\<forall>c \<in> set s. is_digit c) then Some (digits_value s) else None)"

text \<open>The first Monday of ISO week 1, and the day of an ISO week date.\<close>

definition iso_year_start :: "int \<Rightarrow> int" where
  "iso_year_start y = (let first = days_before_year y + 1; w = weekday first in if 3 < w then first - w + 7 else first - w)"

definition iso_week_day :: "int \<Rightarrow> int \<Rightarrow> int \<Rightarrow> int option" where
  "iso_week_day y w d = (let day = iso_year_start y + (w - 1) * 7 + d - 1 in
     if 1 \<le> y \<and> y \<le> 9999 \<and> 1 \<le> w \<and> day < (if w = 53 then iso_year_start (y + 1) else day + 1) \<and> w \<le> 53 \<and> 1 \<le> d \<and> d \<le> 7 \<and> 1 \<le> day \<and> day \<le> max_day
     then Some day else None)"

text \<open>\<open>date.fromisoformat\<close> on the extended forms \<open>YYYY-MM-DD\<close>, \<open>YYYY-Www-D\<close> and \<open>YYYY-Www\<close>.\<close>

definition iso_date :: "string \<Rightarrow> int option" where
  "iso_date s = (case (digits_of (take 4 s), drop 4 s) of
     (Some y, [h, c1, c2, c3]) \<Rightarrow> if h = CHR ''-'' \<and> c1 = CHR ''W'' then (case digits_of [c2, c3] of Some w \<Rightarrow> iso_week_day y w 1 | None \<Rightarrow> None) else None
   | (Some y, [h, c1, c2, h2, c3, c4]) \<Rightarrow>
       if h = CHR ''-'' \<and> c1 = CHR ''W'' \<and> c3 = CHR ''-''
       then (case (digits_of [c2, h2], digits_of [c4]) of (Some w, Some d) \<Rightarrow> iso_week_day y w d | _ \<Rightarrow> None)
       else if h = CHR ''-'' \<and> h2 = CHR ''-''
       then (case (digits_of [c1, c2], digits_of [c3, c4]) of (Some m, Some d) \<Rightarrow> civil_day y m d | _ \<Rightarrow> None)
       else None
   | _ \<Rightarrow> None)"

text \<open>\<open>date(int(s[:4]), int(s[4:6]), int(s[6:8]))\<close>.\<close>

definition compact_date :: "string \<Rightarrow> int option" where
  "compact_date s = (case (parse_int (take 4 s), parse_int (take 2 (drop 4 s)), parse_int (take 2 (drop 6 s))) of
     (Some y, Some m, Some d) \<Rightarrow> civil_day y m d | _ \<Rightarrow> None)"

definition row_date :: "string \<Rightarrow> int option" where
  "row_date s = (if CHR ''-'' \<in> set s then iso_date (take 10 s) else compact_date s)"

definition clock_time :: "int \<Rightarrow> int \<Rightarrow> int \<Rightarrow> int option" where
  "clock_time h m s = (if 0 \<le> h \<and> h \<le> 23 \<and> 0 \<le> m \<and> m \<le> 59 \<and> 0 \<le> s \<and> s \<le> 59 then Some (((h * 60 + m) * 60 + s) * 1000000) else None)"

text \<open>\<open>time.fromisoformat\<close> on hours, minutes and seconds, with or without colons and a leading \<open>T\<close>. Fractions and
  UTC offsets do not occur in the times of a session.\<close>

definition two_digits :: "string \<Rightarrow> int option" where
  "two_digits s = (if length s = 2 then digits_of s else None)"

definition iso_time :: "string \<Rightarrow> int option" where
  "iso_time s = (let t = (case s of [] \<Rightarrow> [] | c # cs \<Rightarrow> if c = CHR ''T'' then cs else s);
       parts = (if CHR '':'' \<in> set t then split_on CHR '':'' t else if length t = 4 then [take 2 t, drop 2 t]
          else if length t = 6 then [take 2 t, take 2 (drop 2 t), drop 4 t] else [t])
     in (case map two_digits parts of
       [Some h] \<Rightarrow> clock_time h 0 0 | [Some h, Some m] \<Rightarrow> clock_time h m 0 | [Some h, Some m, Some x] \<Rightarrow> clock_time h m x | _ \<Rightarrow> None))"

definition opening_time :: int where
  "opening_time = ((9 * 60 + 30) * 60) * 1000000"

definition closing_time :: int where
  "closing_time = (15 * 3600) * 1000000"

definition parse_time :: "pyval \<Rightarrow> int \<Rightarrow> int" where
  "parse_time v fallback = (if v = VNone then fallback else (case iso_time (take 8 (py_str v)) of None \<Rightarrow> fallback | Some t \<Rightarrow> t))"

text \<open>A datetime: its local day and time, and its UTC offset when it has one.\<close>

record moment =
  mo_day :: int
  mo_time :: int
  mo_offset :: "int option"

datatype date_value = Day int | Moment moment

definition day_of :: "date_value \<Rightarrow> int" where
  "day_of v = (case v of Day d \<Rightarrow> d | Moment m \<Rightarrow> mo_day m)"

subsection \<open>Calendar operations\<close>

type_synonym ('s, 'a) cal_op = "'s \<Rightarrow> 'a result \<times> 's"

definition thenC :: "('s, 'a) cal_op \<Rightarrow> ('a \<Rightarrow> ('s, 'b) cal_op) \<Rightarrow> ('s, 'b) cal_op" where
  "thenC m k = (\<lambda>s. case m s of (Inl e, s') \<Rightarrow> (Inl e, s') | (Inr x, s') \<Rightarrow> k x s')"

definition liftC :: "'a result \<Rightarrow> ('s, 'a) cal_op" where
  "liftC r = (\<lambda>s. (r, s))"

lemma thenC_Inr: "thenC m k s = (Inr y, t) \<longleftrightarrow> (\<exists>x u. m s = (Inr x, u) \<and> k x u = (Inr y, t))"
  by (auto simp: thenC_def split: prod.splits sum.splits)

lemma thenC_simp: "m s = (Inr x, u) \<Longrightarrow> thenC m k s = k x u"
  by (simp add: thenC_def)

fun repeat_step :: "nat \<Rightarrow> (int \<Rightarrow> ('s, int) cal_op) \<Rightarrow> int \<Rightarrow> ('s, int) cal_op" where
  "repeat_step 0 step d = liftC (Inr d)"
| "repeat_step (Suc n) step d = thenC (step d) (repeat_step n step)"

text \<open>The body of \<open>advance_sessions\<close>, the same in all three calendars.\<close>

definition advance_with :: "(int \<Rightarrow> ('s, int) cal_op) \<Rightarrow> (int \<Rightarrow> ('s, int) cal_op) \<Rightarrow> (int \<Rightarrow> ('s, int) cal_op) \<Rightarrow> int \<Rightarrow> int \<Rightarrow> ('s, int) cal_op" where
  "advance_with adjust succ pred d n = thenC (adjust d) (repeat_step (nat \<bar>n\<bar>) (if 0 \<le> n then succ else pred))"

subsection \<open>The weekday calendar\<close>

function back_to_weekday :: "int \<Rightarrow> int result" where
  "back_to_weekday d = (if weekday d < 5 then Inr d else if d - 1 < 1 then Inl out_of_range else back_to_weekday (d - 1))"
  by auto
termination
  by (relation "measure (\<lambda>d. nat (weekday d))") (auto simp: weekday_def, presburger)

function on_to_weekday :: "int \<Rightarrow> int result" where
  "on_to_weekday d = (if weekday d < 5 then Inr d else if max_day < d + 1 then Inl out_of_range else on_to_weekday (d + 1))"
  by auto
termination
  by (relation "measure (\<lambda>d. if weekday d < 5 then 0 else nat (7 - weekday d))") (auto simp: weekday_def, presburger+)

declare back_to_weekday.simps [simp del] on_to_weekday.simps [simp del]

definition weekday_normalize :: "int \<Rightarrow> int result" where
  "weekday_normalize d = back_to_weekday d"

definition weekday_next :: "int \<Rightarrow> int result" where
  "weekday_next d = bindR (shift_day d 1) on_to_weekday"

definition weekday_previous :: "int \<Rightarrow> int result" where
  "weekday_previous d = bindR (shift_day d (- 1)) back_to_weekday"

definition weekday_advance :: "int \<Rightarrow> int \<Rightarrow> (unit, int) cal_op" where
  "weekday_advance = advance_with (\<lambda>d. liftC (weekday_normalize d)) (\<lambda>d. liftC (weekday_next d)) (\<lambda>d. liftC (weekday_previous d))"

subsection \<open>The snapshot calendar\<close>

record calendar_session =
  sn_day :: int
  sn_open :: bool
  sn_opening :: int
  sn_closing :: int

type_synonym snapshot_calendar = "(int \<times> calendar_session) list"

definition snapshot_of :: "calendar_session list \<Rightarrow> snapshot_calendar" where
  "snapshot_of sessions = foldl (\<lambda>d s. dict_set d (sn_day s) s) [] sessions"

definition row_session :: "mapping \<Rightarrow> calendar_session option" where
  "row_session row = (case py_or (py_or (get_item row ''date'') (get_item row ''trading_date'')) (get_item row ''trade_date'') of
     VNone \<Rightarrow> None
   | raw \<Rightarrow> (case row_date (py_str raw) of None \<Rightarrow> None
     | Some d \<Rightarrow> Some \<lparr>sn_day = d, sn_open = truthy (get_default row ''is_open'' (get_default row ''open'' (VBool True))),
         sn_opening = parse_time (get_item row ''open_time'') opening_time, sn_closing = parse_time (get_item row ''close_time'') closing_time\<rparr>))"

fun row_sessions :: "pyval list \<Rightarrow> calendar_session list result" where
  "row_sessions [] = Inr []"
| "row_sessions (VDict row # rows) = bindR (row_sessions rows) (\<lambda>ss. Inr (case row_session row of None \<Rightarrow> ss | Some s \<Rightarrow> s # ss))"
| "row_sessions (_ # rows) = Inl (PyExc ''AttributeError'' ''object has no attribute get'')"

definition from_rows :: "pyval list \<Rightarrow> snapshot_calendar result" where
  "from_rows rows = bindR (row_sessions rows) (\<lambda>ss. Inr (snapshot_of ss))"

definition open_days :: "snapshot_calendar \<Rightarrow> int list" where
  "open_days c = map sn_day (filter sn_open (map snd c))"

definition unavailable :: "string \<Rightarrow> exc" where
  "unavailable m = PyExc ''CalendarUnavailable'' m"

definition snapshot_normalize :: "(int \<Rightarrow> string) \<Rightarrow> snapshot_calendar \<Rightarrow> int \<Rightarrow> int result" where
  "snapshot_normalize text c d = (case filter (\<lambda>x. x \<le> d) (open_days c) of
     [] \<Rightarrow> Inl (unavailable (''calendar snapshot has no open session at or before '' @ text d)) | x # xs \<Rightarrow> Inr (fold max xs x))"

definition snapshot_next :: "(int \<Rightarrow> string) \<Rightarrow> snapshot_calendar \<Rightarrow> int \<Rightarrow> int result" where
  "snapshot_next text c d = (case filter (\<lambda>x. d < x) (open_days c) of
     [] \<Rightarrow> Inl (unavailable (''calendar snapshot has no next session after '' @ text d)) | x # xs \<Rightarrow> Inr (fold min xs x))"

definition snapshot_previous :: "(int \<Rightarrow> string) \<Rightarrow> snapshot_calendar \<Rightarrow> int \<Rightarrow> int result" where
  "snapshot_previous text c d = (case filter (\<lambda>x. x < d) (open_days c) of
     [] \<Rightarrow> Inl (unavailable (''calendar snapshot has no previous session before '' @ text d)) | x # xs \<Rightarrow> Inr (fold max xs x))"

definition snapshot_trading :: "snapshot_calendar \<Rightarrow> int \<Rightarrow> bool" where
  "snapshot_trading c d = (case dict_get c d of None \<Rightarrow> False | Some s \<Rightarrow> sn_open s)"

definition snapshot_times :: "(int \<Rightarrow> string) \<Rightarrow> snapshot_calendar \<Rightarrow> int \<Rightarrow> (int \<times> int) result" where
  "snapshot_times text c d = (case dict_get c d of
     Some s \<Rightarrow> if sn_open s then Inr (sn_opening s, sn_closing s) else Inl (unavailable (''calendar snapshot has no open session for '' @ text d))
   | None \<Rightarrow> Inl (unavailable (''calendar snapshot has no open session for '' @ text d)))"

definition snapshot_advance :: "(int \<Rightarrow> string) \<Rightarrow> snapshot_calendar \<Rightarrow> int \<Rightarrow> int \<Rightarrow> (unit, int) cal_op" where
  "snapshot_advance text c = advance_with (\<lambda>d. liftC (snapshot_normalize text c d)) (\<lambda>d. liftC (snapshot_next text c d)) (\<lambda>d. liftC (snapshot_previous text c d))"

subsection \<open>The quant-backed calendar\<close>

record quant_calendar =
  qc_snapshot :: snapshot_calendar
  qc_range :: "(int \<times> int) option"

definition new_quant_calendar :: quant_calendar where
  "new_quant_calendar = \<lparr>qc_snapshot = [], qc_range = None\<rparr>"

type_synonym feed = "int \<Rightarrow> int \<Rightarrow> pyval result"

definition payload_rows :: "pyval \<Rightarrow> pyval list result" where
  "payload_rows raw = (let rows = (case raw of VDict d \<Rightarrow> get_default d ''items'' (get_default d ''sessions'' (VList [])) | _ \<Rightarrow> raw) in
     if \<not> truthy rows then Inr []
     else (case rows of VList xs \<Rightarrow> Inr xs | VDict d \<Rightarrow> Inr (map (\<lambda>(k, _). VStr k) d) | VStr s \<Rightarrow> Inr (map (\<lambda>c. VStr [c]) s)
       | _ \<Rightarrow> Inl (TypeError ''object is not iterable'')))"

definition read_payload :: "pyval \<Rightarrow> snapshot_calendar result" where
  "read_payload raw = (if (case raw of VDict d \<Rightarrow> get_item d ''contract_version'' \<notin> {VNone, VStr ''market-calendar.v1''} | _ \<Rightarrow> False)
     then Inl (unavailable ''trading calendar contract version mismatch'') else bindR (payload_rows raw) from_rows)"

definition loaded_for :: "quant_calendar \<Rightarrow> int \<Rightarrow> bool" where
  "loaded_for q d = (case qc_range q of None \<Rightarrow> False | Some (a, b) \<Rightarrow> a \<le> d \<and> d \<le> b)"

definition refresh_calendar :: "feed \<Rightarrow> int \<Rightarrow> (quant_calendar, unit) cal_op" where
  "refresh_calendar feed d q = (case (shift_day d (- 370), shift_day d 30) of
     (Inr a, Inr b) \<Rightarrow>
       if loaded_for q d then (Inr (), q)
       else (case bindR (feed a b) read_payload of Inl e \<Rightarrow> (Inl e, q) | Inr c \<Rightarrow> (Inr (), \<lparr>qc_snapshot = c, qc_range = Some (a, b)\<rparr>))
   | (Inl e, _) \<Rightarrow> (Inl e, q)
   | (_, Inl e) \<Rightarrow> (Inl e, q))"

definition look_up :: "(snapshot_calendar \<Rightarrow> 'a result) \<Rightarrow> (quant_calendar, 'a) cal_op" where
  "look_up f = (\<lambda>q. (f (qc_snapshot q), q))"

text \<open>A look-up that is repeated after another load, from another day, when the snapshot has no answer.\<close>

definition look_up_again :: "feed \<Rightarrow> (snapshot_calendar \<Rightarrow> int result) \<Rightarrow> int result \<Rightarrow> (quant_calendar, int) cal_op" where
  "look_up_again feed f from_day q = (case f (qc_snapshot q) of
     Inr e \<Rightarrow> (Inr e, q)
   | Inl e \<Rightarrow> if exc_class e \<noteq> ''CalendarUnavailable'' then (Inl e, q)
       else thenC (liftC from_day) (\<lambda>d. thenC (refresh_calendar feed d) (\<lambda>_. look_up f)) (q\<lparr>qc_range := None\<rparr>))"

definition quant_trading :: "feed \<Rightarrow> int \<Rightarrow> (quant_calendar, bool) cal_op" where
  "quant_trading feed d = thenC (refresh_calendar feed d) (\<lambda>_. look_up (\<lambda>c. Inr (snapshot_trading c d)))"

definition quant_next :: "feed \<Rightarrow> (int \<Rightarrow> string) \<Rightarrow> int \<Rightarrow> (quant_calendar, int) cal_op" where
  "quant_next feed text d = thenC (refresh_calendar feed d) (\<lambda>_. look_up_again feed (\<lambda>c. snapshot_next text c d) (shift_day d 31))"

definition quant_previous :: "feed \<Rightarrow> (int \<Rightarrow> string) \<Rightarrow> int \<Rightarrow> (quant_calendar, int) cal_op" where
  "quant_previous feed text d = thenC (refresh_calendar feed d) (\<lambda>_. look_up_again feed (\<lambda>c. snapshot_previous text c d) (shift_day d (- 1)))"

definition quant_normalize :: "feed \<Rightarrow> (int \<Rightarrow> string) \<Rightarrow> int \<Rightarrow> (quant_calendar, int) cal_op" where
  "quant_normalize feed text d = thenC (refresh_calendar feed d) (\<lambda>_. look_up (\<lambda>c. snapshot_normalize text c d))"

definition quant_times :: "feed \<Rightarrow> (int \<Rightarrow> string) \<Rightarrow> int \<Rightarrow> (quant_calendar, int \<times> int) cal_op" where
  "quant_times feed text d = thenC (refresh_calendar feed d) (\<lambda>_. look_up (\<lambda>c. snapshot_times text c d))"

definition quant_advance :: "feed \<Rightarrow> (int \<Rightarrow> string) \<Rightarrow> int \<Rightarrow> int \<Rightarrow> (quant_calendar, int) cal_op" where
  "quant_advance feed text = advance_with (quant_normalize feed text) (quant_next feed text) (quant_previous feed text)"

subsection \<open>The clock\<close>

datatype calendar = WeekdayCalendar | SnapshotCalendar snapshot_calendar | QuantCalendar quant_calendar

record clock_env =
  ce_feed :: feed
  ce_text :: "int \<Rightarrow> string"
  ce_offset :: "int \<Rightarrow> int"
  ce_local_offset :: "int \<Rightarrow> int \<Rightarrow> int"

definition pure_calendar :: "'a result \<Rightarrow> (calendar, 'a) cal_op" where
  "pure_calendar r = (\<lambda>c. (r, c))"

definition quant_calendar_op :: "quant_calendar \<Rightarrow> (quant_calendar, 'a) cal_op \<Rightarrow> 'a result \<times> calendar" where
  "quant_calendar_op q f = (case f q of (r, q') \<Rightarrow> (r, QuantCalendar q'))"

definition calendar_normalize :: "clock_env \<Rightarrow> int \<Rightarrow> (calendar, int) cal_op" where
  "calendar_normalize env d cal = (case cal of
     WeekdayCalendar \<Rightarrow> (weekday_normalize d, cal)
   | SnapshotCalendar c \<Rightarrow> (snapshot_normalize (ce_text env) c d, cal)
   | QuantCalendar q \<Rightarrow> quant_calendar_op q (quant_normalize (ce_feed env) (ce_text env) d))"

definition calendar_next :: "clock_env \<Rightarrow> int \<Rightarrow> (calendar, int) cal_op" where
  "calendar_next env d cal = (case cal of
     WeekdayCalendar \<Rightarrow> (weekday_next d, cal)
   | SnapshotCalendar c \<Rightarrow> (snapshot_next (ce_text env) c d, cal)
   | QuantCalendar q \<Rightarrow> quant_calendar_op q (quant_next (ce_feed env) (ce_text env) d))"

definition calendar_previous :: "clock_env \<Rightarrow> int \<Rightarrow> (calendar, int) cal_op" where
  "calendar_previous env d cal = (case cal of
     WeekdayCalendar \<Rightarrow> (weekday_previous d, cal)
   | SnapshotCalendar c \<Rightarrow> (snapshot_previous (ce_text env) c d, cal)
   | QuantCalendar q \<Rightarrow> quant_calendar_op q (quant_previous (ce_feed env) (ce_text env) d))"

definition calendar_trading :: "clock_env \<Rightarrow> int \<Rightarrow> (calendar, bool) cal_op" where
  "calendar_trading env d cal = (case cal of
     WeekdayCalendar \<Rightarrow> (Inr (weekday d < 5), cal)
   | SnapshotCalendar c \<Rightarrow> (Inr (snapshot_trading c d), cal)
   | QuantCalendar q \<Rightarrow> quant_calendar_op q (quant_trading (ce_feed env) d))"

definition calendar_times :: "clock_env \<Rightarrow> int \<Rightarrow> (calendar, int \<times> int) cal_op" where
  "calendar_times env d cal = (case cal of
     WeekdayCalendar \<Rightarrow> (Inr (opening_time, closing_time), cal)
   | SnapshotCalendar c \<Rightarrow> (snapshot_times (ce_text env) c d, cal)
   | QuantCalendar q \<Rightarrow> quant_calendar_op q (quant_times (ce_feed env) (ce_text env) d))"

definition calendar_advance :: "clock_env \<Rightarrow> int \<Rightarrow> int \<Rightarrow> (calendar, int) cal_op" where
  "calendar_advance env = advance_with (calendar_normalize env) (calendar_next env) (calendar_previous env)"

definition calendar_degraded :: "calendar \<Rightarrow> bool" where
  "calendar_degraded cal \<longleftrightarrow> cal = WeekdayCalendar"

definition day_length :: int where
  "day_length = 86400000000"

text \<open>A datetime without offset counts as UTC; the result is the local day and time in Shanghai.\<close>

definition utc_instant :: "moment \<Rightarrow> int" where
  "utc_instant m = mo_day m * day_length + mo_time m - (case mo_offset m of None \<Rightarrow> 0 | Some z \<Rightarrow> z)"

definition localize :: "clock_env \<Rightarrow> moment \<Rightarrow> moment" where
  "localize env m = (let u = utc_instant m; z = ce_offset env u; w = u + z in
     \<lparr>mo_day = w div day_length, mo_time = w mod day_length, mo_offset = Some z\<rparr>)"

definition calendar_date :: "clock_env \<Rightarrow> moment \<Rightarrow> int" where
  "calendar_date env m = mo_day (localize env m)"

definition current_trading_session :: "clock_env \<Rightarrow> moment \<Rightarrow> (calendar, int) cal_op" where
  "current_trading_session env m = calendar_normalize env (calendar_date env m)"

definition session_phase :: "clock_env \<Rightarrow> moment \<Rightarrow> (calendar, string) cal_op" where
  "session_phase env m = (let instant = localize env m; day = calendar_date env instant in
     thenC (calendar_trading env day) (\<lambda>is_open.
     if \<not> is_open then liftC (Inr ''CLOSED'')
     else thenC (current_trading_session env instant) (\<lambda>session.
       thenC (calendar_times env session) (\<lambda>(opening, closing).
       liftC (Inr (if mo_time instant < opening then ''PRE_OPEN'' else if closing \<le> mo_time instant then ''AFTER_CLOSE'' else ''OPEN''))))))"

definition after_close :: "clock_env \<Rightarrow> int \<Rightarrow> int \<Rightarrow> int result" where
  "after_close env d hour = (if 0 \<le> hour \<and> hour \<le> 23 then Inr (d * day_length + hour * 3600000000 - ce_local_offset env d (hour * 3600000000))
     else Inl (ValueError ''hour must be in 0..23''))"

subsection \<open>The default clock\<close>

type_synonym default_clock = "calendar option"

definition configure_default_clock :: "calendar \<Rightarrow> default_clock \<Rightarrow> default_clock" where
  "configure_default_clock c g = Some c"

definition get_default_clock :: "default_clock \<Rightarrow> calendar \<times> default_clock" where
  "get_default_clock g = (case g of None \<Rightarrow> (WeekdayCalendar, Some WeekdayCalendar) | Some c \<Rightarrow> (c, g))"

text \<open>The functions of \<open>trading_calendar.py\<close> work on the given calendar, or on the default one and keep its state.\<close>

definition with_clock :: "(calendar, 'a) cal_op \<Rightarrow> calendar option \<Rightarrow> default_clock \<Rightarrow> 'a result \<times> calendar option \<times> default_clock" where
  "with_clock f given g = (case given of
     Some c \<Rightarrow> (case f c of (r, c') \<Rightarrow> (r, Some c', g))
   | None \<Rightarrow> (case f (fst (get_default_clock g)) of (r, c') \<Rightarrow> (r, None, Some c')))"

definition next_trading_day :: "clock_env \<Rightarrow> int \<Rightarrow> calendar option \<Rightarrow> default_clock \<Rightarrow> int result \<times> calendar option \<times> default_clock" where
  "next_trading_day env d = with_clock (calendar_next env d)"

definition previous_trading_day :: "clock_env \<Rightarrow> int \<Rightarrow> calendar option \<Rightarrow> default_clock \<Rightarrow> int result \<times> calendar option \<times> default_clock" where
  "previous_trading_day env d = with_clock (calendar_previous env d)"

definition latest_available_trading_day :: "clock_env \<Rightarrow> int \<Rightarrow> date_value option \<Rightarrow> calendar option \<Rightarrow> default_clock \<Rightarrow> int result \<times> calendar option \<times> default_clock" where
  "latest_available_trading_day env today v = with_clock (calendar_normalize env (case v of None \<Rightarrow> today | Some d \<Rightarrow> day_of d))"

definition normalize_trading_date :: "clock_env \<Rightarrow> date_value \<Rightarrow> calendar option \<Rightarrow> default_clock \<Rightarrow> int result \<times> calendar option \<times> default_clock" where
  "normalize_trading_date env v = with_clock (calendar_normalize env (day_of v))"

definition advance_trading_days :: "clock_env \<Rightarrow> int \<Rightarrow> int \<Rightarrow> calendar option \<Rightarrow> default_clock \<Rightarrow> int result \<times> calendar option \<times> default_clock" where
  "advance_trading_days env d n = with_clock (calendar_advance env d n)"

end
