(* ===== verification/TradingSessions.thy ===== *)
theory TradingSessions
  imports TradingClock
begin

text \<open>
  What the calendars of the trading clock answer. The locale \<open>session_calendar\<close> states the contract of the three step
  operations against a set of open days and derives what \<open>advance_sessions\<close> does; the weekday calendar, a snapshot,
  the quant-backed calendar and the calendar of the clock are its interpretations.
\<close>

subsection \<open>The contract of a calendar\<close>

definition latest_open :: "(int \<Rightarrow> bool) \<Rightarrow> int \<Rightarrow> int \<Rightarrow> bool" where
  "latest_open is_open d e \<longleftrightarrow> is_open e \<and> e \<le> d \<and> (\<forall>x. e < x \<and> x \<le> d \<longrightarrow> \<not> is_open x)"

definition next_open :: "(int \<Rightarrow> bool) \<Rightarrow> int \<Rightarrow> int \<Rightarrow> bool" where
  "next_open is_open d e \<longleftrightarrow> is_open e \<and> d < e \<and> (\<forall>x. d < x \<and> x < e \<longrightarrow> \<not> is_open x)"

definition sessions :: "(int \<Rightarrow> bool) \<Rightarrow> int \<Rightarrow> int \<Rightarrow> int set" where
  "sessions is_open a b = {x. a < x \<and> x \<le> b \<and> is_open x}"

lemma sessions_finite [simp]: "finite (sessions is_open a b)"
  by (rule finite_subset [of _ "{a..b}"]) (auto simp: sessions_def)

lemma sessions_empty [simp]: "b \<le> a \<Longrightarrow> sessions is_open a b = {}"
  by (auto simp: sessions_def)

lemma sessions_after_next: "next_open is_open d x \<Longrightarrow> x \<le> e \<Longrightarrow> sessions is_open d e = insert x (sessions is_open x e)"
  by (auto simp: sessions_def next_open_def not_less)

lemma sessions_skip_closed: "latest_open is_open d b \<Longrightarrow> sessions is_open b e = sessions is_open d e \<or> e < b"
  by (auto simp: sessions_def latest_open_def not_le)

lemma sessions_until_closed: "latest_open is_open d b \<Longrightarrow> e \<le> b \<Longrightarrow> sessions is_open e b = sessions is_open e d"
  by (auto simp: sessions_def latest_open_def) (meson not_le)+

lemma latest_open_self: "is_open d \<Longrightarrow> latest_open is_open d e \<longleftrightarrow> e = d"
  by (auto simp: latest_open_def) (meson le_less order_refl)

lemma latest_open_unique: "latest_open is_open d e \<Longrightarrow> latest_open is_open d e' \<Longrightarrow> e = e'"
  by (metis latest_open_def linorder_neqE)

locale session_calendar =
  fixes adjust succ pred :: "int \<Rightarrow> ('s, int) cal_op" and is_open :: "int \<Rightarrow> bool" and valid :: "'s \<Rightarrow> bool"
  assumes adjust_law: "valid s \<Longrightarrow> adjust d s = (Inr e, s') \<Longrightarrow> valid s' \<and> latest_open is_open d e"
    and succ_law: "valid s \<Longrightarrow> succ d s = (Inr e, s') \<Longrightarrow> valid s' \<and> next_open is_open d e"
    and pred_law: "valid s \<Longrightarrow> pred d s = (Inr e, s') \<Longrightarrow> valid s' \<and> latest_open is_open (d - 1) e"
begin

lemma repeat_succ:
  assumes "repeat_step n succ d s = (Inr e, s')" and "valid s"
  shows "valid s' \<and> d \<le> e \<and> (is_open d \<or> 0 < n \<longrightarrow> is_open e) \<and> card (sessions is_open d e) = n"
  using assms
proof (induction n arbitrary: d s)
  case 0
  then show ?case by (simp add: liftC_def)
next
  case (Suc n)
  obtain x u where x: "succ d s = (Inr x, u)" "repeat_step n succ x u = (Inr e, s')" using Suc.prems(1) by (auto simp: thenC_Inr)
  note one = succ_law [OF Suc.prems(2) x(1)]
  note rest = Suc.IH [OF x(2) conjunct1 [OF one]]
  have "sessions is_open d e = insert x (sessions is_open x e)" using one rest by (intro sessions_after_next) auto
  moreover have "x \<notin> sessions is_open x e" by (simp add: sessions_def)
  ultimately show ?case using one rest by (auto simp: next_open_def)
qed

lemma repeat_pred:
  assumes "repeat_step n pred d s = (Inr e, s')" and "valid s" and "is_open d"
  shows "valid s' \<and> e \<le> d \<and> is_open e \<and> card (sessions is_open e d) = n"
  using assms
proof (induction n arbitrary: d s)
  case 0
  then show ?case by (simp add: liftC_def)
next
  case (Suc n)
  obtain x u where x: "pred d s = (Inr x, u)" "repeat_step n pred x u = (Inr e, s')" using Suc.prems(1) by (auto simp: thenC_Inr)
  note one = pred_law [OF Suc.prems(2) x(1)]
  have open_x: "is_open x" using one by (simp add: latest_open_def)
  note rest = Suc.IH [OF x(2) conjunct1 [OF one] open_x]
  have "sessions is_open e (d - 1) = sessions is_open e x" using one rest sessions_until_closed [of is_open "d - 1" x e] by simp
  moreover have "sessions is_open e d = insert d (sessions is_open e (d - 1))"
    using Suc.prems(3) one rest by (auto simp: sessions_def latest_open_def)
  moreover have "d \<notin> sessions is_open e (d - 1)" by (simp add: sessions_def)
  ultimately show ?case using one rest by (auto simp: latest_open_def)
qed

lemma advance_counts:
  assumes "advance_with adjust succ pred d n s = (Inr e, s')" and "valid s"
  shows "valid s' \<and> is_open e \<and> (if 0 \<le> n then card (sessions is_open d e) = nat n else card (sessions is_open e d) = nat (- n)) \<and> (n = 0 \<longrightarrow> latest_open is_open d e)
     \<and> (n < 0 \<longrightarrow> e \<le> d)"
proof -
  obtain b u where b: "adjust d s = (Inr b, u)" "repeat_step (nat \<bar>n\<bar>) (if 0 \<le> n then succ else pred) b u = (Inr e, s')"
    using assms(1) by (auto simp: advance_with_def thenC_Inr)
  note base = adjust_law [OF assms(2) b(1)]
  have open_b: "is_open b" using base by (simp add: latest_open_def)
  show ?thesis
  proof (cases "0 \<le> n")
    case True
    note r = repeat_succ [OF b(2) [unfolded if_P [OF True]] conjunct1 [OF base]]
    have "sessions is_open b e = sessions is_open d e" using sessions_skip_closed [of is_open d b e] base r by auto
    then show ?thesis using r base True open_b b(2) by (auto simp: liftC_def)
  next
    case False
    note r = repeat_pred [OF b(2) [unfolded if_not_P [OF False]] conjunct1 [OF base] open_b]
    have "sessions is_open e b = sessions is_open e d" using sessions_until_closed [of is_open d b e] base r by auto
    then show ?thesis using r base False by (auto simp: latest_open_def)
  qed
qed

lemma advance_back:
  assumes "advance_with adjust succ pred d n s = (Inr e, s')" and "valid s" and "0 \<le> n" and "advance_with adjust succ pred e (- n) s' = (Inr b, s'')"
  shows "latest_open is_open d b"
proof -
  note there = advance_counts [OF assms(1,2)]
  note home = advance_counts [OF assms(4) conjunct1 [OF there]]
  show ?thesis
  proof (cases "n = 0")
    case True
    then show ?thesis using there home by (auto simp: latest_open_self)
  next
    case False
    have same: "card (sessions is_open b e) = card (sessions is_open d e)" "card (sessions is_open d e) = nat n" "is_open b" "b \<le> e"
      using there home False assms(3) by auto
    have "b \<le> d"
    proof (rule ccontr)
      assume "\<not> b \<le> d"
      then have "sessions is_open b e \<subseteq> sessions is_open d e" "b \<in> sessions is_open d e" "b \<notin> sessions is_open b e"
        using same(3,4) by (simp_all add: sessions_def subset_iff)
      then have "sessions is_open b e \<subset> sessions is_open d e" by blast
      then show False using same(1) psubset_card_mono [OF sessions_finite] by (metis less_irrefl)
    qed
    then have "sessions is_open d e = sessions is_open b e" using same(1)
      by (intro card_subset_eq [OF sessions_finite]) (auto simp: sessions_def)
    moreover have "d < e" using same(2) False assms(3) by (cases "e \<le> d") auto
    ultimately have "\<not> is_open x" if "b < x" "x \<le> d" for x
    proof -
      assume a: "sessions is_open d e = sessions is_open b e" "d < e"
      have "x \<notin> sessions is_open b e" unfolding a(1) [symmetric] using that by (simp add: sessions_def)
      then show ?thesis using that a(2) by (simp add: sessions_def)
    qed
    then show ?thesis using \<open>b \<le> d\<close> same(3) by (simp add: latest_open_def)
  qed
qed

end

subsection \<open>The weekday calendar\<close>

definition is_weekday :: "int \<Rightarrow> bool" where
  "is_weekday d \<longleftrightarrow> weekday d < 5"

lemma shift_day_Inr: "shift_day d n = Inr e \<longleftrightarrow> e = d + n \<and> 1 \<le> e \<and> e \<le> max_day"
  by (auto simp: shift_day_def)

lemma back_to_weekday_latest: "back_to_weekday d = Inr e \<Longrightarrow> latest_open is_weekday d e"
proof (induction d rule: back_to_weekday.induct)
  case (1 d)
  show ?case
  proof (cases "weekday d < 5")
    case True
    then show ?thesis using 1(2) by (auto simp: back_to_weekday.simps [of d] latest_open_def is_weekday_def)
  next
    case False
    then have "back_to_weekday (d - 1) = Inr e" "\<not> d - 1 < 1" using 1(2) by (auto simp: back_to_weekday.simps [of d] split: if_splits)
    then have "latest_open is_weekday (d - 1) e" using 1(1) False by blast
    then show ?thesis using False by (auto simp: latest_open_def is_weekday_def) (metis zle_diff1_eq le_less)
  qed
qed

lemma on_to_weekday_next: "on_to_weekday d = Inr e \<Longrightarrow> next_open is_weekday (d - 1) e"
proof (induction d rule: on_to_weekday.induct)
  case (1 d)
  show ?case
  proof (cases "weekday d < 5")
    case True
    then show ?thesis using 1(2) by (auto simp: on_to_weekday.simps [of d] next_open_def is_weekday_def)
  next
    case False
    then have "on_to_weekday (d + 1) = Inr e" "\<not> max_day < d + 1" using 1(2) by (auto simp: on_to_weekday.simps [of d] split: if_splits)
    then have "next_open is_weekday d e" using 1(1) False by fastforce
    then show ?thesis using False unfolding next_open_def is_weekday_def by (metis add_le_cancel_right le_less zle_add1_eq_le diff_add_cancel less_trans zle_diff1_eq)
  qed
qed

lemma weekday_latest: "weekday_normalize d = Inr e \<Longrightarrow> latest_open is_weekday d e"
  by (simp add: weekday_normalize_def back_to_weekday_latest)

lemma weekday_after: "weekday_next d = Inr e \<Longrightarrow> next_open is_weekday d e"
  using on_to_weekday_next [of "d + 1" e] by (auto simp: weekday_next_def bindR_Inr_iff shift_day_Inr)

lemma weekday_before: "weekday_previous d = Inr e \<Longrightarrow> latest_open is_weekday (d - 1) e"
  using back_to_weekday_latest [of "d - 1" e] by (auto simp: weekday_previous_def bindR_Inr_iff shift_day_Inr)

interpretation weekdays: session_calendar "\<lambda>d. liftC (weekday_normalize d)" "\<lambda>d. liftC (weekday_next d)" "\<lambda>d. liftC (weekday_previous d)" is_weekday "\<lambda>_ :: unit. True"
  by unfold_locales (auto simp: liftC_def weekday_latest weekday_after weekday_before)

subsection \<open>A snapshot\<close>

lemma snapshot_latest: "snapshot_normalize text c d = Inr e \<Longrightarrow> latest_open (\<lambda>x. x \<in> set (open_days c)) d e"
proof (unfold snapshot_normalize_def, cases "filter (\<lambda>x. x \<le> d) (open_days c)")
  case (Cons x xs)
  assume "(case filter (\<lambda>x. x \<le> d) (open_days c) of [] \<Rightarrow> Inl (unavailable (''calendar snapshot has no open session at or before '' @ text d)) | x # xs \<Rightarrow> Inr (fold max xs x)) = Inr e"
  then have "e = fold max xs x" using Cons by simp
  then have "e = Max (set (filter (\<lambda>x. x \<le> d) (open_days c)))" unfolding Cons by (simp only: Max.set_eq_fold)
  then have "e \<in> set (filter (\<lambda>x. x \<le> d) (open_days c))" "\<forall>x \<in> set (filter (\<lambda>x. x \<le> d) (open_days c)). x \<le> e"
    using Cons Max_in [of "set (filter (\<lambda>x. x \<le> d) (open_days c))"] by (auto simp del: set_filter)
  then show ?thesis by (auto simp: latest_open_def)
qed simp

lemma snapshot_previous_normalize: "(\<exists>e'. snapshot_previous text c d = Inr e') \<longleftrightarrow> (\<exists>e'. snapshot_normalize text c (d - 1) = Inr e')"
    "snapshot_previous text c d = Inr e \<longleftrightarrow> snapshot_normalize text c (d - 1) = Inr e"
  by (auto simp: snapshot_previous_def snapshot_normalize_def split: list.splits)

lemma snapshot_after: "snapshot_next text c d = Inr e \<Longrightarrow> next_open (\<lambda>x. x \<in> set (open_days c)) d e"
proof (unfold snapshot_next_def, cases "filter (\<lambda>x. d < x) (open_days c)")
  case (Cons x xs)
  assume "(case filter (\<lambda>x. d < x) (open_days c) of [] \<Rightarrow> Inl (unavailable (''calendar snapshot has no next session after '' @ text d)) | x # xs \<Rightarrow> Inr (fold min xs x)) = Inr e"
  then have "e = fold min xs x" using Cons by simp
  then have "e = Min (set (filter (\<lambda>x. d < x) (open_days c)))" unfolding Cons by (simp only: Min.set_eq_fold)
  then have "e \<in> set (filter (\<lambda>x. d < x) (open_days c))" "\<forall>x \<in> set (filter (\<lambda>x. d < x) (open_days c)). e \<le> x"
    using Cons Min_in [of "set (filter (\<lambda>x. d < x) (open_days c))"] by (auto simp del: set_filter)
  then show ?thesis by (auto simp: next_open_def)
qed simp

interpretation snapshots: session_calendar "\<lambda>d. liftC (snapshot_normalize label c d)" "\<lambda>d. liftC (snapshot_next label c d)"
    "\<lambda>d. liftC (snapshot_previous label c d)" "\<lambda>x. x \<in> set (open_days c)" "\<lambda>_ :: unit. True" for label c
  by unfold_locales (auto simp: liftC_def snapshot_latest snapshot_after snapshot_previous_normalize)

subsection \<open>The quant-backed calendar\<close>

text \<open>The quant service is truthful when every readable reply holds exactly the open days of the requested range.\<close>

definition truthful :: "feed \<Rightarrow> (int \<Rightarrow> bool) \<Rightarrow> bool" where
  "truthful feed is_open \<longleftrightarrow> (\<forall>a b c. bindR (feed a b) read_payload = Inr c \<longrightarrow> set (open_days c) = {x. a \<le> x \<and> x \<le> b \<and> is_open x})"

definition keyed :: "snapshot_calendar \<Rightarrow> bool" where
  "keyed c \<longleftrightarrow> distinct (map fst c) \<and> (\<forall>(d, s) \<in> set c. sn_day s = d)"

definition loads :: "(int \<Rightarrow> bool) \<Rightarrow> quant_calendar \<Rightarrow> bool" where
  "loads is_open q \<longleftrightarrow> keyed (qc_snapshot q) \<and> (case qc_range q of None \<Rightarrow> True | Some (a, b) \<Rightarrow> set (open_days (qc_snapshot q)) = {x. a \<le> x \<and> x \<le> b \<and> is_open x})"

lemma keys_dict_set: "set (map fst (dict_set d k v)) = insert k (set (map fst d))"
  by (induction d k v rule: dict_set.induct) auto

lemma keyed_set: "keyed c \<Longrightarrow> keyed (dict_set c (sn_day s) s)"
proof (induction c "sn_day s" s rule: dict_set.induct)
  case (1 v)
  then show ?case by (simp add: keyed_def)
next
  case (2 k v d s)
  then show ?case using keys_dict_set [of d "sn_day s" s] by (auto simp: keyed_def simp del: set_map)
qed

lemma keyed_snapshot: "keyed (snapshot_of ss)"
proof -
  have "keyed c \<Longrightarrow> keyed (foldl (\<lambda>d s. dict_set d (sn_day s) s) c ss)" for c
    by (induction ss arbitrary: c) (auto intro: keyed_set)
  from this [of "[]"] show ?thesis by (simp add: snapshot_of_def keyed_def)
qed

lemma keyed_payload: "read_payload raw = Inr c \<Longrightarrow> keyed c"
  by (auto simp: read_payload_def from_rows_def bindR_Inr_iff keyed_snapshot split: if_splits)

lemma keyed_trading:
  assumes "keyed c"
  shows "snapshot_trading c d \<longleftrightarrow> d \<in> set (open_days c)"
proof -
  have get: "dict_get c d = Some s \<longleftrightarrow> (d, s) \<in> set c" for s using assms by (simp add: keyed_def dict_get_def)
  have "snapshot_trading c d \<longleftrightarrow> (\<exists>s. dict_get c d = Some s \<and> sn_open s)" by (simp add: snapshot_trading_def split: option.splits)
  also have "\<dots> \<longleftrightarrow> (\<exists>s. (d, s) \<in> set c \<and> sn_open s)" unfolding get ..
  also have "\<dots> \<longleftrightarrow> d \<in> set (open_days c)" using assms unfolding keyed_def open_days_def by force
  finally show ?thesis .
qed

lemma refresh_loads:
  assumes "refresh_calendar feed d q = (Inr x, q')" and "truthful feed is_open" and "loads is_open q"
  shows "loads is_open q' \<and> loaded_for q' d \<and> (qc_range q = None \<longrightarrow> qc_range q' = Some (d - 370, d + 30))"
proof (cases "loaded_for q d")
  case True
  then show ?thesis using assms(1,3) by (auto simp: refresh_calendar_def loaded_for_def split: sum.splits option.splits)
next
  case False
  then obtain c where c: "bindR (feed (d - 370) (d + 30)) read_payload = Inr c" "q' = \<lparr>qc_snapshot = c, qc_range = Some (d - 370, d + 30)\<rparr>"
    using assms(1) by (auto simp: refresh_calendar_def shift_day_Inr split: sum.splits)
  have "keyed c" using c(1) keyed_payload by (auto simp: bindR_Inr_iff)
  moreover have "set (open_days c) = {x. d - 370 \<le> x \<and> x \<le> d + 30 \<and> is_open x}" using c(1) assms(2) unfolding truthful_def by blast
  ultimately show ?thesis by (simp add: c(2) loads_def loaded_for_def)
qed

lemma loaded_open: "loads is_open q \<Longrightarrow> loaded_for q d \<Longrightarrow> \<exists>a b. a \<le> d \<and> d \<le> b \<and> set (open_days (qc_snapshot q)) = {x. a \<le> x \<and> x \<le> b \<and> is_open x}"
  by (auto simp: loads_def loaded_for_def split: option.splits)

lemma loaded_next: "loads is_open q \<Longrightarrow> loaded_for q d \<Longrightarrow> snapshot_next label (qc_snapshot q) d = Inr e \<Longrightarrow> next_open is_open d e"
  using snapshot_after [of label "qc_snapshot q" d e] loaded_open [of is_open q d] by (fastforce simp: next_open_def)

lemma loaded_latest: "loads is_open q \<Longrightarrow> loaded_for q d \<Longrightarrow> snapshot_normalize label (qc_snapshot q) d = Inr e \<Longrightarrow> latest_open is_open d e"
  using snapshot_latest [of label "qc_snapshot q" d e] loaded_open [of is_open q d] by (fastforce simp: latest_open_def)

lemma loaded_previous: "loads is_open q \<Longrightarrow> loaded_for q d \<Longrightarrow> snapshot_previous label (qc_snapshot q) d = Inr e \<Longrightarrow> latest_open is_open (d - 1) e"
  using snapshot_latest [of label "qc_snapshot q" "d - 1" e] loaded_open [of is_open q d] by (fastforce simp: latest_open_def snapshot_previous_normalize)

lemma look_up_again_correct:
  assumes "look_up_again feed f from_day q = (Inr e, q')" and "truthful feed is_open" and "loads is_open q" and "loaded_for q d"
    and "from_day = Inr d' \<Longrightarrow> d' - 370 \<le> d \<and> d \<le> d' + 30"
    and "\<And>p. loads is_open p \<Longrightarrow> loaded_for p d \<Longrightarrow> f (qc_snapshot p) = Inr e \<Longrightarrow> correct e"
    and "\<And>d''. from_day = Inr d'' \<Longrightarrow> d'' = d'"
  shows "loads is_open q' \<and> correct e"
proof (cases "f (qc_snapshot q)")
  case (Inr e')
  then have "e = e'" "q' = q" using assms(1) by (simp_all add: look_up_again_def)
  then show ?thesis using Inr assms(3) assms(6) [OF assms(3,4)] by simp
next
  case (Inl x)
  obtain p d'' where p0: "from_day = Inr d''" "refresh_calendar feed d'' (q\<lparr>qc_range := None\<rparr>) = (Inr (), p)" "f (qc_snapshot p) = Inr e" "q' = p"
    using assms(1) Inl by (auto simp: look_up_again_def thenC_Inr liftC_def look_up_def split: if_splits)
  note p = p0 [unfolded assms(7) [OF p0(1)]]
  have "loads is_open (q\<lparr>qc_range := None\<rparr>)" using assms(3) by (simp add: loads_def)
  note fresh = refresh_loads [OF p(2) assms(2) this]
  then have "loaded_for p d" using assms(5) p(1) by (auto simp: loaded_for_def)
  then show ?thesis using fresh p(3,4) assms(6) by blast
qed

interpretation quant: session_calendar "quant_normalize feed label" "quant_next feed label" "quant_previous feed label" is_open
    "\<lambda>q. truthful feed is_open \<and> loads is_open q" for feed label is_open
proof
  fix q q' :: quant_calendar and d e :: int
  assume ok: "truthful feed is_open \<and> loads is_open q"
  show "(truthful feed is_open \<and> loads is_open q') \<and> latest_open is_open d e" if n: "quant_normalize feed label d q = (Inr e, q')"
  proof -
    obtain p where p: "refresh_calendar feed d q = (Inr (), p)" "snapshot_normalize label (qc_snapshot p) d = Inr e" "q' = p"
      using n by (auto simp: quant_normalize_def thenC_Inr look_up_def)
    show ?thesis using refresh_loads [OF p(1)] ok p(2,3) loaded_latest by blast
  qed
  show "(truthful feed is_open \<and> loads is_open q') \<and> next_open is_open d e" if n: "quant_next feed label d q = (Inr e, q')"
  proof -
    obtain p where p: "refresh_calendar feed d q = (Inr (), p)" "look_up_again feed (\<lambda>c. snapshot_next label c d) (shift_day d 31) p = (Inr e, q')"
      using n by (auto simp: quant_next_def thenC_Inr)
    have l: "loads is_open p" "loaded_for p d" using refresh_loads [OF p(1)] ok by blast+
    have "loads is_open q' \<and> next_open is_open d e"
      by (rule look_up_again_correct [OF p(2) conjunct1 [OF ok] l, where d' = "d + 31"]) (simp_all add: shift_day_Inr loaded_next)
    then show ?thesis using ok by blast
  qed
  show "(truthful feed is_open \<and> loads is_open q') \<and> latest_open is_open (d - 1) e" if n: "quant_previous feed label d q = (Inr e, q')"
  proof -
    obtain p where p: "refresh_calendar feed d q = (Inr (), p)" "look_up_again feed (\<lambda>c. snapshot_previous label c d) (shift_day d (- 1)) p = (Inr e, q')"
      using n by (auto simp: quant_previous_def thenC_Inr)
    have l: "loads is_open p" "loaded_for p d" using refresh_loads [OF p(1)] ok by blast+
    have "loads is_open q' \<and> latest_open is_open (d - 1) e"
      by (rule look_up_again_correct [OF p(2) conjunct1 [OF ok] l, where d' = "d - 1"]) (simp_all add: shift_day_Inr loaded_previous)
    then show ?thesis using ok by blast
  qed
qed

subsection \<open>The calendar of a clock\<close>

definition calendar_shows :: "clock_env \<Rightarrow> (int \<Rightarrow> bool) \<Rightarrow> calendar \<Rightarrow> bool" where
  "calendar_shows env is_open cal = (case cal of
     WeekdayCalendar \<Rightarrow> is_open = is_weekday
   | SnapshotCalendar c \<Rightarrow> keyed c \<and> is_open = (\<lambda>x. x \<in> set (open_days c))
   | QuantCalendar q \<Rightarrow> truthful (ce_feed env) is_open \<and> loads is_open q)"

interpretation clocks: session_calendar "calendar_normalize env" "calendar_next env" "calendar_previous env" is_open "calendar_shows env is_open" for env is_open
proof
  fix c c' :: calendar and d e :: int
  assume ok: "calendar_shows env is_open c"
  show "calendar_shows env is_open c' \<and> latest_open is_open d e" if "calendar_normalize env d c = (Inr e, c')"
    using that ok weekday_latest snapshot_latest quant.adjust_law
    by (cases c) (auto simp: calendar_normalize_def calendar_shows_def quant_calendar_op_def liftC_def split: prod.splits)
  show "calendar_shows env is_open c' \<and> next_open is_open d e" if "calendar_next env d c = (Inr e, c')"
    using that ok weekday_after snapshot_after quant.succ_law
    by (cases c) (auto simp: calendar_next_def calendar_shows_def quant_calendar_op_def liftC_def split: prod.splits)
  show "calendar_shows env is_open c' \<and> latest_open is_open (d - 1) e" if "calendar_previous env d c = (Inr e, c')"
    using that ok weekday_before snapshot_latest quant.pred_law
    by (cases c) (auto simp: calendar_previous_def calendar_shows_def quant_calendar_op_def liftC_def snapshot_previous_normalize split: prod.splits)
qed

lemma calendar_trading_law:
  assumes "calendar_shows env is_open c" and "calendar_trading env d c = (Inr b, c')"
  shows "calendar_shows env is_open c' \<and> b = is_open d"
proof (cases c)
  case (QuantCalendar q)
  then obtain p where p: "refresh_calendar (ce_feed env) d q = (Inr (), p)" "b = snapshot_trading (qc_snapshot p) d" "c' = QuantCalendar p"
    using assms(2) by (auto simp: calendar_trading_def quant_calendar_op_def quant_trading_def thenC_Inr look_up_def split: prod.splits)
  have l: "truthful (ce_feed env) is_open" "loads is_open p" "loaded_for p d"
    using refresh_loads [OF p(1)] assms(1) QuantCalendar by (auto simp: calendar_shows_def)
  have "keyed (qc_snapshot p)" using l(2) by (simp add: loads_def)
  then show ?thesis using l p keyed_trading loaded_open [OF l(2,3)] by (auto simp: calendar_shows_def)
qed (use assms keyed_trading in \<open>auto simp: calendar_trading_def calendar_shows_def is_weekday_def\<close>)

text \<open>C35: Advancing by sessions counts exactly. Whichever calendar the clock has (weekdays, a snapshot, or the lazily loaded quant
  calendar in any state of its cache, as long as the service is truthful), if \<open>advance_sessions(day, n)\<close> answers a day, that
  day is open and exactly \<open>n\<close> sessions lie after the given day up to it; backwards, exactly \<open>-n\<close> sessions lie after it up to the given
  day; and going \<open>n\<close> sessions forth and back ends at the latest session at or before the given day.\<close>

theorem advance_counts_sessions:
  assumes "calendar_advance env d n cal = (Inr e, cal')" and "calendar_shows env is_open cal"
  shows "calendar_shows env is_open cal' \<and> is_open e
     \<and> (if 0 \<le> n then card (sessions is_open d e) = nat n else card (sessions is_open e d) = nat (- n))
     \<and> (0 \<le> n \<longrightarrow> (\<forall>b cal''. calendar_advance env e (- n) cal' = (Inr b, cal'') \<longrightarrow> latest_open is_open d b))"
  using clocks.advance_counts [OF assms [unfolded calendar_advance_def]]
    clocks.advance_back [OF assms [unfolded calendar_advance_def]] unfolding calendar_advance_def by blast

text \<open>A quant service with two sessions in April 2024, as rows of one range.\<close>

definition april_rows :: pyval where
  "april_rows = VDict [(''contract_version'', VStr ''market-calendar.v1''), (''items'', VList [VDict [(''date'', VStr ''2024-04-22'')],
     VDict [(''trade_date'', VInt 20240423), (''is_open'', VInt 0)], VDict [(''trade_date'', VStr ''20240424''), (''close_time'', VStr ''11:30'')]])]"

definition april_env :: clock_env where
  "april_env = \<lparr>ce_feed = (\<lambda>a b. if a \<le> 738998 \<and> 739000 \<le> b then Inr april_rows else Inl (RuntimeError [])), ce_text = (\<lambda>_. []),
     ce_offset = (\<lambda>_. 28800000000), ce_local_offset = (\<lambda>_ _. 28800000000)\<rparr>"

definition april_open :: "int \<Rightarrow> bool" where
  "april_open d \<longleftrightarrow> d = 738998 \<or> d = 739000"

lemma april_shown: "calendar_shows april_env april_open (QuantCalendar new_quant_calendar)"
proof -
  have "open_days (case read_payload april_rows of Inl _ \<Rightarrow> [] | Inr c \<Rightarrow> c) = [738998, 739000]" by code_simp
  moreover have "\<not> isl (read_payload april_rows)" by code_simp
  ultimately have "set (open_days c) = {x. a \<le> x \<and> x \<le> b \<and> april_open x}" if "read_payload april_rows = Inr c" "a \<le> 738998" "739000 \<le> b" for a b c
    using that by (auto simp: april_open_def)
  then have "truthful (ce_feed april_env) april_open" by (auto simp: truthful_def april_env_def bindR_Inr_iff split: if_splits)
  then show ?thesis by (simp add: calendar_shows_def loads_def new_quant_calendar_def keyed_def)
qed

theorem advance_counts_sessions_witness:
  "\<exists>cal'. calendar_advance april_env 738998 1 (QuantCalendar new_quant_calendar) = (Inr 739000, cal')
     \<and> card (sessions april_open 738998 739000) = 1"
proof -
  let ?r = "calendar_advance april_env 738998 1 (QuantCalendar new_quant_calendar)"
  have "fst ?r = Inr 739000" by code_simp
  then obtain cal' where r: "?r = (Inr 739000, cal')" by (cases ?r) auto
  from advance_counts_sessions [OF r april_shown] r show ?thesis by auto
qed

text \<open>The phase of a moment follows the session of its local day: \<open>CLOSED\<close> exactly when the day is not open, and otherwise
  before, within or after the times that the calendar has for that day.\<close>

theorem session_phase_correct:
  assumes "session_phase env m cal = (Inr p, cal')" and "calendar_shows env is_open cal"
  shows "if is_open (calendar_date env m)
    then (\<exists>c opening closing. calendar_shows env is_open c \<and> calendar_times env (calendar_date env m) c = (Inr (opening, closing), cal')
       \<and> p = (if mo_time (localize env m) < opening then ''PRE_OPEN'' else if mo_time (localize env m) < closing then ''OPEN'' else ''AFTER_CLOSE''))
    else p = ''CLOSED''"
proof -
  have again: "utc_instant (localize env m) = utc_instant m" by (simp add: utc_instant_def localize_def Let_def day_length_def)
  then have day: "calendar_date env (localize env m) = calendar_date env m" by (simp add: calendar_date_def localize_def)
  obtain b c where t: "calendar_trading env (calendar_date env m) cal = (Inr b, c)" "(if \<not> b then liftC (Inr ''CLOSED'')
     else thenC (current_trading_session env (localize env m)) (\<lambda>session. thenC (calendar_times env session) (\<lambda>(opening, closing).
       liftC (Inr (if mo_time (localize env m) < opening then ''PRE_OPEN'' else if closing \<le> mo_time (localize env m) then ''AFTER_CLOSE'' else ''OPEN''))))) c = (Inr p, cal')"
    using assms(1) unfolding session_phase_def Let_def thenC_Inr day by blast
  have shown: "calendar_shows env is_open c" "b = is_open (calendar_date env m)" using calendar_trading_law [OF assms(2) t(1)] by blast+
  show ?thesis
  proof (cases b)
    case False
    then show ?thesis using t(2) shown(2) by (simp add: liftC_def)
  next
    case True
    obtain e c1 o1 c2 where s: "calendar_normalize env (calendar_date env m) c = (Inr e, c1)" "calendar_times env e c1 = (Inr (o1, c2), cal')"
        "p = (if mo_time (localize env m) < o1 then ''PRE_OPEN'' else if c2 \<le> mo_time (localize env m) then ''AFTER_CLOSE'' else ''OPEN'')"
      using t(2) True by (auto simp: thenC_Inr current_trading_session_def day liftC_def)
    have c1: "calendar_shows env is_open c1" "e = calendar_date env m"
      using clocks.adjust_law [OF shown(1) s(1)] True shown(2) by (auto simp: latest_open_self)
    have "is_open (calendar_date env m)" using True shown(2) by simp
    show ?thesis unfolding if_P [OF \<open>is_open (calendar_date env m)\<close>]
      by (intro exI [where x = c1] exI [where x = o1] exI [where x = c2] conjI) (use s(2,3) c1 in \<open>simp_all add: not_less\<close>)
  qed
qed

definition april_noon :: moment where
  "april_noon = \<lparr>mo_day = 739000, mo_time = 14400000000, mo_offset = None\<rparr>"

theorem session_phase_correct_witness:
  "\<exists>cal'. session_phase april_env april_noon (QuantCalendar new_quant_calendar) = (Inr ''AFTER_CLOSE'', cal')
     \<and> (\<exists>c opening closing. calendar_shows april_env april_open c \<and> calendar_times april_env (calendar_date april_env april_noon) c = (Inr (opening, closing), cal'))"
proof -
  let ?r = "session_phase april_env april_noon (QuantCalendar new_quant_calendar)"
  have "fst ?r = Inr ''AFTER_CLOSE''" by code_simp
  then obtain cal' where r: "?r = (Inr ''AFTER_CLOSE'', cal')" by (cases ?r) auto
  have "april_open (calendar_date april_env april_noon)" by code_simp
  then show ?thesis using session_phase_correct [OF r april_shown] r by auto
qed

subsection \<open>Answers and failures\<close>

lemma back_returns: "1 \<le> d \<Longrightarrow> \<exists>e. back_to_weekday d = Inr e \<and> 1 \<le> e"
proof (induction d rule: back_to_weekday.induct)
  case (1 d)
  show ?case
  proof (cases "weekday d < 5")
    case True
    then show ?thesis using 1(2) by (simp add: back_to_weekday.simps [of d])
  next
    case False
    then have "1 < d" using 1(2) by (cases "d = 1") (auto simp: weekday_def)
    then show ?thesis using 1(1) False by (simp add: back_to_weekday.simps [of d])
  qed
qed

lemma on_returns: "d + (if weekday d < 5 then 0 else 7 - weekday d) \<le> max_day \<Longrightarrow> \<exists>e. on_to_weekday d = Inr e \<and> e = d + (if weekday d < 5 then 0 else 7 - weekday d)"
proof (induction d rule: on_to_weekday.induct)
  case (1 d)
  show ?case
  proof (cases "weekday d < 5")
    case True
    then show ?thesis by (simp add: on_to_weekday.simps [of d])
  next
    case False
    then have w: "weekday d = 5 \<and> weekday (d + 1) = 6 \<or> weekday d = 6 \<and> weekday (d + 1) = 0" unfolding weekday_def by presburger
    then show ?thesis using 1 False by (auto simp: on_to_weekday.simps [of d])
  qed
qed

lemma next_returns: "1 \<le> d \<Longrightarrow> d + 3 \<le> max_day \<Longrightarrow> \<exists>e. weekday_next d = Inr e \<and> d < e \<and> e \<le> d + 3"
proof -
  assume d: "1 \<le> d" "d + 3 \<le> max_day"
  have "5 \<le> weekday (d + 1) \<Longrightarrow> 7 - weekday (d + 1) \<le> 2" "weekday (d + 1) < 7" by (simp_all add: weekday_def)
  then show ?thesis using on_returns [of "d + 1"] d by (auto simp: weekday_next_def shift_day_def split: if_splits)
qed

lemma weekday_next_le: "weekday_next d = Inr e \<Longrightarrow> 1 \<le> d \<Longrightarrow> d + 3 \<le> max_day \<Longrightarrow> d < e \<and> e \<le> d + 3"
  using next_returns by fastforce

lemma previous_returns: "1 < d \<Longrightarrow> d \<le> max_day \<Longrightarrow> \<exists>e. weekday_previous d = Inr e \<and> 1 \<le> e \<and> e < d"
  using back_returns [of "d - 1"] back_to_weekday_latest [of "d - 1"] by (fastforce simp: weekday_previous_def shift_day_def latest_open_def)

abbreviation next_op :: "int \<Rightarrow> (unit, int) cal_op" where
  "next_op d \<equiv> liftC (weekday_next d)"

abbreviation previous_op :: "int \<Rightarrow> (unit, int) cal_op" where
  "previous_op d \<equiv> liftC (weekday_previous d)"

lemma forth_returns: "1 \<le> d \<Longrightarrow> d + 3 * int n \<le> max_day \<Longrightarrow> \<exists>e. repeat_step n next_op d () = (Inr e, ()) \<and> 1 \<le> e \<and> e \<le> d + 3 * int n"
proof (induction n arbitrary: d)
  case 0
  then show ?case by (simp add: liftC_def)
next
  case (Suc n)
  obtain x where x: "weekday_next d = Inr x" "d < x" "x \<le> d + 3" using next_returns [of d] Suc.prems by auto
  show ?case using Suc.IH [of x] x Suc.prems by (force simp: thenC_def liftC_def)
qed

lemma back_and_forth_returns:
  assumes "n \<le> card (sessions is_weekday 0 (d - 1))" and "d \<le> max_day"
  shows "\<exists>e. repeat_step n previous_op d () = (Inr e, ()) \<and> e \<le> d"
  using assms
proof (induction n arbitrary: d)
  case 0
  then show ?case by (simp add: liftC_def)
next
  case (Suc n)
  have d: "1 < d" using Suc.prems(1) by (cases "d - 1 \<le> 0") auto
  obtain x where x: "weekday_previous d = Inr x" "1 \<le> x" "x < d" using previous_returns [OF d Suc.prems(2)] by auto
  have l: "latest_open is_weekday (d - 1) x" using weekday_before [OF x(1)] .
  have "sessions is_weekday 0 (d - 1) = insert x (sessions is_weekday 0 (x - 1))"
    using l x(2) by (auto simp: sessions_def latest_open_def) (metis linorder_not_less order_le_less zle_diff1_eq)+
  moreover have "x \<notin> sessions is_weekday 0 (x - 1)" by (simp add: sessions_def)
  ultimately have "n \<le> card (sessions is_weekday 0 (x - 1))" using Suc.prems(1) by simp
  then obtain e where "repeat_step n previous_op x () = (Inr e, ())" "e \<le> x" using Suc.IH [of x] x Suc.prems(2) by auto
  then show ?case using x by (auto simp: thenC_def liftC_def)
qed

text \<open>C36: The weekday calendar never fails far enough from the ends of the calendar: advancing by any number of sessions that
  fits (three days each) returns, and going back by as many returns the latest weekday at or before the start.\<close>

theorem weekday_advance_returns:
  assumes "1 \<le> d" and "d + 3 * n \<le> max_day" and "0 \<le> n"
  shows "\<exists>e b. weekday_advance d n () = (Inr e, ()) \<and> weekday_advance e (- n) () = (Inr b, ()) \<and> latest_open is_weekday d b"
proof -
  obtain s where s: "weekday_normalize d = Inr s" "1 \<le> s" using back_returns [OF assms(1)] by (auto simp: weekday_normalize_def)
  have sd: "latest_open is_weekday d s" by (rule weekday_latest [OF s(1)])
  have le: "s + 3 * int (nat n) \<le> max_day" using sd assms(2,3) by (simp add: latest_open_def)
  obtain e where e: "repeat_step (nat n) next_op s () = (Inr e, ())" "1 \<le> e" "e \<le> s + 3 * int (nat n)" using forth_returns [OF s(2) le] by auto
  have adv: "weekday_advance d n () = (Inr e, ())" using s e assms(3) by (simp add: weekday_advance_def advance_with_def thenC_def liftC_def)
  have there: "is_weekday e" "card (sessions is_weekday d e) = nat n" "n = 0 \<longrightarrow> latest_open is_weekday d e"
    using weekdays.advance_counts [OF adv [unfolded weekday_advance_def]] assms(3) by auto
  have e_norm: "weekday_normalize e = Inr e" using there(1) by (simp add: weekday_normalize_def back_to_weekday.simps [of e] is_weekday_def)
  have "nat n \<le> card (sessions is_weekday 0 (e - 1))"
  proof (cases "n = 0")
    case False
    have "s < e"
    proof (rule ccontr)
      assume "\<not> s < e"
      then have "sessions is_weekday d e = {}" using sd by (intro sessions_empty) (simp add: latest_open_def)
      then show False using there(2) False assms(3) by simp
    qed
    then have "insert s (sessions is_weekday d e - {e}) \<subseteq> sessions is_weekday 0 (e - 1)" and "s \<notin> sessions is_weekday d e" and "e \<in> sessions is_weekday d e"
      using sd s(2) there(1) by (auto simp: sessions_def latest_open_def)
    then have "card (insert s (sessions is_weekday d e - {e})) = nat n" using there(2) False assms(3) by (simp add: card_insert_if)
    then show ?thesis using card_mono [OF sessions_finite \<open>insert s (sessions is_weekday d e - {e}) \<subseteq> sessions is_weekday 0 (e - 1)\<close>] by simp
  qed simp
  then obtain b where b: "repeat_step (nat n) previous_op e () = (Inr b, ())" using back_and_forth_returns [of "nat n" e] e le by auto
  have "weekday_advance e (- n) () = (Inr b, ())"
  proof (cases "n = 0")
    case True
    then show ?thesis using e_norm b by (simp add: weekday_advance_def advance_with_def thenC_def liftC_def)
  next
    case False
    then show ?thesis using e_norm b assms(3) by (simp add: weekday_advance_def advance_with_def thenC_def liftC_def)
  qed
  then show ?thesis using adv weekdays.advance_back [OF adv [unfolded weekday_advance_def] TrueI assms(3)] by (auto simp: weekday_advance_def)
qed

theorem weekday_advance_returns_witness:
  "\<exists>e b. weekday_advance 739000 5 () = (Inr e, ()) \<and> weekday_advance e (- 5) () = (Inr b, ()) \<and> latest_open is_weekday 739000 b"
  using weekday_advance_returns [of 739000 5] by (simp add: max_day_def)

text \<open>Normalizing does not load again. When the first day of the loaded range is closed, \<open>normalize\<close> raises on it, although
  \<open>previous_session\<close> from the same state loads an earlier range and answers.\<close>

theorem normalize_fails_at_range_edge:
  assumes "loads is_open q" and "qc_range q = Some (d, r)" and "d \<le> r" and "\<not> is_open d" and "371 < d" and "d + 30 \<le> max_day"
    and "bindR (feed (d - 371) (d + 29)) read_payload = Inr c" and "set (open_days c) = {x. d - 371 \<le> x \<and> x \<le> d + 29 \<and> is_open x}"
    and "is_open y" and "d - 371 \<le> y" and "y < d"
  shows "quant_normalize feed label d q = (Inl (unavailable (''calendar snapshot has no open session at or before '' @ label d)), q)
     \<and> (\<exists>e q'. quant_previous feed label d q = (Inr e, q') \<and> y \<le> e \<and> e < d)"
proof -
  have days: "set (open_days (qc_snapshot q)) = {x. d \<le> x \<and> x \<le> r \<and> is_open x}" using assms(1,2) by (simp add: loads_def)
  have later: "d < x" if "x \<in> set (open_days (qc_snapshot q))" for x using that assms(4) unfolding days by (cases "x = d") auto
  have none: "filter (\<lambda>x. x \<le> d) (open_days (qc_snapshot q)) = []" "filter (\<lambda>x. x < d) (open_days (qc_snapshot q)) = []"
    using later by (force simp: filter_empty_conv)+
  have refresh: "refresh_calendar feed d q = (Inr (), q)" using assms(2,3,5,6) by (simp add: refresh_calendar_def shift_day_def loaded_for_def)
  have first: "quant_normalize feed label d q = (Inl (unavailable (''calendar snapshot has no open session at or before '' @ label d)), q)"
    by (simp add: quant_normalize_def thenC_def refresh look_up_def snapshot_normalize_def none)
  let ?q = "\<lparr>qc_snapshot = c, qc_range = Some (d - 371, d + 29)\<rparr>"
  have again: "refresh_calendar feed (d - 1) (q\<lparr>qc_range := None\<rparr>) = (Inr (), ?q)"
    using assms(5,6,7) by (simp add: refresh_calendar_def shift_day_def loaded_for_def add.commute [of 29 d])
  have "y \<in> set (filter (\<lambda>x. x \<le> d - 1) (open_days c))" using assms(8-11) assms(5,6) by auto
  then obtain e where e: "snapshot_normalize label c (d - 1) = Inr e" by (cases "filter (\<lambda>x. x \<le> d - 1) (open_days c)") (auto simp: snapshot_normalize_def filter_empty_conv)
  have late: "latest_open (\<lambda>x. x \<in> set (open_days c)) (d - 1) e" using e by (rule snapshot_latest)
  have first_try: "snapshot_previous label (qc_snapshot q) d = Inl (unavailable (''calendar snapshot has no previous session before '' @ label d))"
    by (simp add: snapshot_previous_def none)
  have from_day: "shift_day d (- 1) = Inr (d - 1)" using assms(5,6) by (simp add: shift_day_def)
  have again_look: "snapshot_previous label c d = Inr e" using e by (simp add: snapshot_previous_normalize)
  have "quant_previous feed label d q = (Inr e, ?q)"
    unfolding quant_previous_def thenC_simp [where m = "refresh_calendar feed d", OF refresh] using first_try from_day again again_look
    by (simp add: look_up_again_def unavailable_def thenC_def liftC_def look_up_def)
  moreover have "y \<le> e \<and> e < d" using late assms(8-11) assms(6) unfolding latest_open_def by force
  ultimately show ?thesis using first by blast
qed

definition edge_feed :: feed where
  "edge_feed a b = (if a = 738638 then Inr (VList [VDict [(''date'', VStr ''2024-04-24'')]]) else Inl (RuntimeError []))"

theorem normalize_fails_at_range_edge_witness:
  "quant_normalize edge_feed (\<lambda>_. []) 739009 \<lparr>qc_snapshot = [], qc_range = Some (739009, 739409)\<rparr>
     = (Inl (unavailable ''calendar snapshot has no open session at or before ''), \<lparr>qc_snapshot = [], qc_range = Some (739009, 739409)\<rparr>)
   \<and> (\<exists>e q'. quant_previous edge_feed (\<lambda>_. []) 739009 \<lparr>qc_snapshot = [], qc_range = Some (739009, 739409)\<rparr> = (Inr e, q') \<and> 739000 \<le> e \<and> e < 739009)"
proof -
  let ?open = "\<lambda>x :: int. x = 739000"
  have "\<not> isl (bindR (edge_feed 738638 739038) read_payload)" by code_simp
  then obtain c where c: "bindR (edge_feed 738638 739038) read_payload = Inr c" by (rule not_islE)
  have "open_days (case bindR (edge_feed 738638 739038) read_payload of Inl _ \<Rightarrow> [] | Inr c \<Rightarrow> c) = [739000]" by code_simp
  then have "set (open_days c) = {x. 738638 \<le> x \<and> x \<le> 739038 \<and> ?open x}" using c by auto
  with c show ?thesis
    using normalize_fails_at_range_edge [of ?open "\<lparr>qc_snapshot = [], qc_range = Some (739009, 739409)\<rparr>" 739009 739409 edge_feed c 739000 "\<lambda>_. []"]
    by (simp add: loads_def keyed_def open_days_def max_day_def)
qed

end
