(* ===== verification/BundleSchema.thy ===== *)
theory BundleSchema
  imports Grounding
begin

text \<open>
  The two JSON schemas a content bundle is held against, \<open>contracts/fixtures/content-knowledge-bundle.v1.json\<close> and \<open>.v2.json\<close>: the
  keywords they use, with the meaning JSON Schema draft 2020-12 gives them (the program leaves the check to the \<open>jsonschema\<close> package), and the
  definitions of both files in their order of use. Every object of both schemas is closed. Whether a text has a format (\<open>date-time\<close>, \<open>uri\<close>) is an argument: \<open>jsonschema\<close> leaves it to
  further packages that may be absent. Both files ask for at least one character where they bound a length, and for 64 hexadecimal digits where they have a pattern.
\<close>

datatype schema = OfTypes "string list" | NonEmpty | Constant string | Choice "string list" | Digest string "char list"
  | Formatted "string list" string | Between "string list" "int option" "int option" | ArrayOf "string list" nat "nat option" schema
  | Closed "(string \<times> bool \<times> schema) list"

text \<open>A boolean is not a number; a float with an integral value is an integer.\<close>

definition of_type :: "pyval \<Rightarrow> string \<Rightarrow> bool" where
  "of_type v t = (case v of VNone \<Rightarrow> t = ''null'' | VBool _ \<Rightarrow> t = ''boolean'' | VStr _ \<Rightarrow> t = ''string'' | VList _ \<Rightarrow> t = ''array'' | VDict _ \<Rightarrow> t = ''object''
     | VInt _ \<Rightarrow> t = ''number'' \<or> t = ''integer''
     | VFloat f \<Rightarrow> t = ''number'' \<or> t = ''integer'' \<and> (case f of Fin x \<Rightarrow> of_int \<lfloor>x\<rfloor> = x | _ \<Rightarrow> False))"

definition typed :: "string list \<Rightarrow> pyval \<Rightarrow> bool" where
  "typed ts v \<longleftrightarrow> list_ex (of_type v) ts"

definition not_below :: "int option \<Rightarrow> pyval \<Rightarrow> bool" where
  "not_below bound v = (case bound of None \<Rightarrow> True | Some n \<Rightarrow> (case v of VInt i \<Rightarrow> n \<le> i | VFloat f \<Rightarrow> \<not> f_lt f (Fin (of_int n)) | _ \<Rightarrow> True))"

definition not_above :: "int option \<Rightarrow> pyval \<Rightarrow> bool" where
  "not_above bound v = (case bound of None \<Rightarrow> True | Some n \<Rightarrow> (case v of VInt i \<Rightarrow> i \<le> n | VFloat f \<Rightarrow> \<not> f_lt (Fin (of_int n)) f | _ \<Rightarrow> True))"

text \<open>\<open>^prefix[letters]{64}$\<close>: the end is also found before a final newline.\<close>

definition digest_text :: "string \<Rightarrow> char list \<Rightarrow> string \<Rightarrow> bool" where
  "digest_text prefix letters s = (let n = length prefix; digits = drop n s in
     take n s = prefix \<and> list_all (\<lambda>c. c \<in> set letters) (take 64 digits) \<and> (length digits = 64 \<or> length digits = 65 \<and> last digits = CHR 0x0A))"

fun conforms :: "(string \<Rightarrow> string \<Rightarrow> bool) \<Rightarrow> schema \<Rightarrow> pyval \<Rightarrow> bool"
  and conforms_fields :: "(string \<Rightarrow> string \<Rightarrow> bool) \<Rightarrow> (string \<times> bool \<times> schema) list \<Rightarrow> mapping \<Rightarrow> bool" where
  "conforms has_format (OfTypes ts) v = typed ts v"
| "conforms has_format NonEmpty v = (case v of VStr s \<Rightarrow> s \<noteq> [] | _ \<Rightarrow> False)"
| "conforms has_format (Constant c) v = (case v of VStr s \<Rightarrow> s = c | _ \<Rightarrow> False)"
| "conforms has_format (Choice cs) v = (case v of VStr s \<Rightarrow> s \<in> set cs | _ \<Rightarrow> False)"
| "conforms has_format (Digest prefix letters) v = (case v of VStr s \<Rightarrow> digest_text prefix letters s | _ \<Rightarrow> False)"
| "conforms has_format (Formatted ts format) v = (typed ts v \<and> (case v of VStr s \<Rightarrow> has_format format s | _ \<Rightarrow> True))"
| "conforms has_format (Between ts least most) v = (typed ts v \<and> not_below least v \<and> not_above most v)"
| "conforms has_format (ArrayOf ts least most s) v = (typed ts v
     \<and> (case v of VList xs \<Rightarrow> least \<le> length xs \<and> (case most of None \<Rightarrow> True | Some n \<Rightarrow> length xs \<le> n) \<and> list_all (conforms has_format s) xs | _ \<Rightarrow> True))"
| "conforms has_format (Closed fs) v = (case v of VDict d \<Rightarrow> list_all (\<lambda>(k, _). k \<in> fst ` set fs) d \<and> conforms_fields has_format fs d | _ \<Rightarrow> False)"
| "conforms_fields has_format [] d = True"
| "conforms_fields has_format ((k, required, s) # fs) d =
     ((case dict_get d k of None \<Rightarrow> \<not> required | Some v \<Rightarrow> conforms has_format s v) \<and> conforms_fields has_format fs d)"

definition lower_hex :: "char list" where "lower_hex = ''abcdef0123456789''"
definition upper_hex :: "char list" where "upper_hex = ''ABCDEF0123456789''"
definition any_hex :: "char list" where "any_hex = ''abcdef0123456789ABCDEF''"

subsection \<open>Contract v1\<close>

definition v1_schema_instant :: schema where
  "v1_schema_instant = Formatted [''string''] ''date-time''"

definition v1_schema_non_empty :: schema where
  "v1_schema_non_empty = NonEmpty"

definition v1_schema_request :: schema where
  "v1_schema_request = Closed [(''content_snapshot_id'', True, v1_schema_non_empty), (''query'', True, v1_schema_non_empty), (''symbol'', True, v1_schema_non_empty),
     (''business_as_of'', True, v1_schema_instant), (''knowledge_as_of'', True, v1_schema_instant), (''availability_as_of'', True, v1_schema_instant),
     (''minimum_support_status'', True, v1_schema_non_empty), (''max_items'', True, Between [''integer''] (Some 1) (Some 100)),
     (''policy'', True, Constant ''PUBLIC_STRICT''), (''policy_version'', True, v1_schema_non_empty)]"

definition v1_schema_source :: schema where
  "v1_schema_source = Closed [(''source_type'', True, v1_schema_non_empty), (''source_identity_hash'', True, v1_schema_non_empty), (''source_version_id'', True, v1_schema_non_empty),
     (''canonical_url'', True, Formatted [''string''] ''uri''), (''title'', False, v1_schema_non_empty), (''author'', False, v1_schema_non_empty),
     (''published_at'', False, v1_schema_instant), (''source_content_hash'', True, v1_schema_non_empty)]"

definition v1_schema_subject :: schema where
  "v1_schema_subject = Closed [(''type'', True, v1_schema_non_empty), (''key'', True, v1_schema_non_empty)]"

definition v1_schema_json_scalar :: schema where
  "v1_schema_json_scalar = OfTypes [''string'', ''number'', ''boolean'', ''null'']"

definition v1_schema_object :: schema where
  "v1_schema_object = Closed [(''value'', True, v1_schema_json_scalar), (''unit'', True, OfTypes [''string'', ''null''])]"

definition v1_schema_temporal :: schema where
  "v1_schema_temporal = Closed [(''target_start'', True, v1_schema_instant), (''target_end'', True, v1_schema_instant), (''precision'', True, v1_schema_non_empty)]"

definition v1_schema_evidence :: schema where
  "v1_schema_evidence = Closed [(''evidence_id'', True, v1_schema_non_empty), (''ownership'', True, Choice [''PRIMARY'', ''SECONDARY'']), (''artifact_id'', True, v1_schema_non_empty),
     (''segment_id'', True, v1_schema_non_empty), (''start_ms'', True, Between [''integer''] (Some 0) None),
     (''end_ms'', True, Between [''integer''] (Some 0) None), (''quote'', True, v1_schema_non_empty), (''quote_hash'', True, v1_schema_non_empty),
     (''modality'', True, v1_schema_non_empty)]"

definition v1_schema_verification :: schema where
  "v1_schema_verification = Closed [(''status'', True, v1_schema_non_empty), (''reason_codes'', True, ArrayOf [''array''] 0 None (v1_schema_non_empty))]"

definition v1_schema_item :: schema where
  "v1_schema_item = Closed [(''knowledge_id'', True, v1_schema_non_empty), (''claim_id'', True, v1_schema_non_empty), (''occurrence_id'', True, v1_schema_non_empty),
     (''statement'', True, v1_schema_non_empty), (''subject'', True, v1_schema_subject), (''predicate'', True, v1_schema_non_empty),
     (''object'', True, v1_schema_object), (''condition'', False, OfTypes [''string'', ''null'']), (''invalidation'', False, OfTypes [''string'', ''null'']),
     (''support_status'', True, v1_schema_non_empty), (''lifecycle_status'', True, Constant ''ACTIVE''),
     (''confidence'', False, OfTypes [''number'', ''null'']), (''temporal'', True, v1_schema_temporal),
     (''evidence'', True, ArrayOf [''array''] 1 None (v1_schema_evidence)), (''verification'', True, v1_schema_verification),
     (''contradiction_group_id'', False, OfTypes [''string'', ''null'']), (''grounding_status'', True, Constant ''GROUNDED'')]"

definition v1_schema_quality :: schema where
  "v1_schema_quality = Closed [(''knowledge_count'', True, Between [''integer''] (Some 0) None), (''grounded_ratio'', True, Between [''number''] (Some 0) (Some 1)),
     (''numeric_grounded_ratio'', True, Between [''number''] (Some 0) (Some 1)),
     (''transcript_coverage'', False, Between [''number'', ''null''] (Some 0) (Some 1)),
     (''warnings'', True, ArrayOf [''array''] 0 None (v1_schema_non_empty))]"

definition v1_schema_producer :: schema where
  "v1_schema_producer = Closed [(''service'', True, Constant ''stock_content''), (''service_version'', True, v1_schema_non_empty), (''git_commit'', True, v1_schema_non_empty),
     (''pipeline_version'', True, v1_schema_non_empty), (''contract_checksum'', True, Digest ''sha256:'' upper_hex)]"

definition schema_v1 :: schema where
  "schema_v1 = Closed [(''contract'', True, Constant ''content-knowledge-bundle.v1''), (''schema_version'', True, Constant ''1.0.0''),
     (''canonicalization_version'', True, Constant ''content-bundle-c14n-v1''), (''bundle_id'', True, Digest ''ckb_'' lower_hex),
     (''bundle_hash'', True, Digest ''sha256:'' lower_hex), (''request_hash'', True, Digest ''sha256:'' lower_hex), (''content_snapshot_id'', True, NonEmpty),
     (''query'', True, NonEmpty), (''business_as_of'', True, Formatted [''string''] ''date-time''),
     (''knowledge_as_of'', True, Formatted [''string''] ''date-time''), (''availability_as_of'', True, Formatted [''string''] ''date-time''),
     (''request'', True, v1_schema_request), (''source'', True, v1_schema_source), (''items'', True, ArrayOf [''array''] 0 None (v1_schema_item)),
     (''quality'', True, v1_schema_quality), (''producer'', True, v1_schema_producer)]"

subsection \<open>Contract v2\<close>

definition v2_schema_non_empty :: schema where
  "v2_schema_non_empty = NonEmpty"

definition v2_schema_instant :: schema where
  "v2_schema_instant = Formatted [''string''] ''date-time''"

definition v2_schema_hash :: schema where
  "v2_schema_hash = Digest ''sha256:'' any_hex"

definition v2_schema_nullable_string :: schema where
  "v2_schema_nullable_string = OfTypes [''string'', ''null'']"

definition v2_schema_request :: schema where
  "v2_schema_request = Closed [(''content_snapshot_id'', True, v2_schema_non_empty), (''query'', True, v2_schema_non_empty), (''symbol'', True, v2_schema_non_empty),
     (''business_as_of'', True, v2_schema_instant), (''knowledge_as_of'', True, v2_schema_instant), (''availability_as_of'', True, v2_schema_instant),
     (''minimum_support_status'', True, v2_schema_non_empty), (''max_items'', True, Between [''integer''] (Some 1) (Some 100)),
     (''policy'', True, Constant ''PUBLIC_STRICT''), (''policy_version'', True, v2_schema_non_empty),
     (''contract_version'', True, Constant ''content-knowledge-bundle.v2''), (''subject_scope'', True, Choice [''SUBJECT_ONLY'', ''ALL_SUBJECTS''])]"

definition v2_schema_scope :: schema where
  "v2_schema_scope = Closed [(''subject_scope'', True, Choice [''SUBJECT_ONLY'', ''ALL_SUBJECTS'']), (''requested_subject'', True, OfTypes [''string'', ''null''])]"

definition v2_schema_source :: schema where
  "v2_schema_source = Closed [(''source_type'', True, v2_schema_non_empty), (''source_identity_hash'', True, v2_schema_non_empty), (''source_version_id'', True, v2_schema_non_empty),
     (''canonical_url'', True, Formatted [''string''] ''uri''), (''title'', False, v2_schema_non_empty), (''author'', False, v2_schema_non_empty),
     (''published_at'', False, v2_schema_instant), (''source_content_hash'', True, v2_schema_non_empty)]"

definition v2_schema_subject :: schema where
  "v2_schema_subject = Closed [(''type'', True, v2_schema_non_empty), (''key'', True, v2_schema_non_empty)]"

definition v2_schema_object :: schema where
  "v2_schema_object = Closed [(''value'', True, OfTypes [''string'', ''number'', ''boolean'', ''null'']), (''unit'', True, OfTypes [''string'', ''null''])]"

definition v2_schema_attribution :: schema where
  "v2_schema_attribution = Closed [(''attributed'', True, OfTypes [''boolean'']), (''source_label'', True, OfTypes [''string'', ''null'']),
     (''speaker'', False, OfTypes [''string'', ''null''])]"

definition v2_schema_detail :: schema where
  "v2_schema_detail = Closed [(''explanation'', False, v2_schema_nullable_string), (''mechanism'', False, v2_schema_nullable_string),
     (''procedure'', False, v2_schema_nullable_string), (''formula'', False, v2_schema_nullable_string), (''example'', False, v2_schema_nullable_string),
     (''scope'', False, v2_schema_nullable_string), (''risks'', False, v2_schema_nullable_string)]"

definition v2_schema_temporal :: schema where
  "v2_schema_temporal = Closed [(''kind'', True, Choice [''EVENT'', ''AS_OF'', ''FORECAST_TARGET'', ''RECURRING_RULE'', ''UNKNOWN'']),
     (''start'', True, Formatted [''string'', ''null''] ''date-time''), (''end'', True, Formatted [''string'', ''null''] ''date-time''),
     (''as_of'', True, Formatted [''string'', ''null''] ''date-time''), (''rule'', True, OfTypes [''string'', ''null'']),
     (''label'', True, OfTypes [''string'', ''null'']), (''precision'', True, v2_schema_non_empty), (''explicitly_unknown'', True, OfTypes [''boolean''])]"

definition v2_schema_locator :: schema where
  "v2_schema_locator = Closed [(''segment_id'', True, OfTypes [''string'', ''null'']), (''frame_id'', True, OfTypes [''string'', ''null'']),
     (''start_ms'', True, Between [''integer''] (Some 0) None), (''end_ms'', True, Between [''integer''] (Some 0) None),
     (''bbox'', True, ArrayOf [''array'', ''null''] 4 (Some 4) (OfTypes [''number'']))]"

definition v2_schema_model :: schema where
  "v2_schema_model = Closed [(''name'', True, v2_schema_non_empty), (''version'', True, v2_schema_non_empty),
     (''confidence'', True, Between [''number'', ''null''] (Some 0) (Some 1))]"

definition v2_schema_evidence :: schema where
  "v2_schema_evidence = Closed [(''evidence_id'', True, v2_schema_non_empty), (''ownership'', True, Choice [''PRIMARY'', ''SECONDARY'']),
     (''modality'', True, Choice [''transcript'', ''frame'', ''ocr'', ''vision'']), (''artifact_id'', True, v2_schema_non_empty),
     (''artifact_hash'', True, v2_schema_hash), (''locator'', True, v2_schema_locator), (''content'', True, v2_schema_non_empty),
     (''model'', False, v2_schema_model)]"

definition v2_schema_review :: schema where
  "v2_schema_review = Closed [(''status'', True, Choice [''NOT_REQUIRED'', ''HUMAN_REVIEW_REQUIRED'', ''REVIEWED'']),
     (''reason_codes'', True, ArrayOf [''array''] 0 None (v2_schema_non_empty))]"

definition v2_schema_verification :: schema where
  "v2_schema_verification = Closed [(''status'', True, v2_schema_non_empty), (''reason_codes'', True, ArrayOf [''array''] 0 None (v2_schema_non_empty))]"

definition v2_schema_item :: schema where
  "v2_schema_item = Closed [(''knowledge_id'', True, v2_schema_non_empty), (''claim_id'', True, v2_schema_non_empty), (''occurrence_id'', True, v2_schema_non_empty),
     (''statement'', True, v2_schema_non_empty), (''subject'', True, v2_schema_subject), (''predicate'', True, v2_schema_non_empty),
     (''object'', True, v2_schema_object), (''condition'', False, v2_schema_nullable_string), (''invalidation'', False, v2_schema_nullable_string),
     (''primary_domain'', True, Choice [''PORTFOLIO_RISK_MANAGEMENT'', ''FINANCIAL_SECTOR_CAPITAL_POLICY'', ''AI_INFERENCE_COMPUTE'', ''INFORMATION_INFRASTRUCTURE_POLICY'', ''CENTRAL_BANK_GOLD_RESERVES'', ''UNKNOWN'']),
     (''claim_nature'', True, v2_schema_non_empty), (''attribution'', True, v2_schema_attribution),
     (''source_grade'', True, Choice [''PRIMARY'', ''SECONDARY'', ''SOURCE_ASSERTION'', ''UNKNOWN'']), (''detail'', True, v2_schema_detail),
     (''temporal'', True, v2_schema_temporal), (''evidence'', True, ArrayOf [''array''] 1 None (v2_schema_evidence)),
     (''occurrence_review'', True, v2_schema_review), (''support_status'', True, v2_schema_non_empty), (''lifecycle_status'', True, Constant ''ACTIVE''),
     (''confidence'', False, OfTypes [''number'', ''null'']), (''verification'', True, v2_schema_verification),
     (''external_truth_status'', True, Choice [''NOT_CHECKED'', ''NOT_FOUND'', ''EXTERNALLY_VERIFIED'', ''EXTERNAL_CONFLICT'']),
     (''contradiction_group_id'', False, OfTypes [''string'', ''null'']), (''grounding_status'', True, Constant ''GROUNDED'')]"

definition v2_schema_quality :: schema where
  "v2_schema_quality = Closed [(''candidate_count'', True, Between [''integer''] (Some 0) None), (''eligible_candidate_count'', True, Between [''integer''] (Some 0) None),
     (''excluded_candidate_count'', True, Between [''integer''] (Some 0) None), (''truncated_candidate_count'', True, Between [''integer''] (Some 0) None),
     (''knowledge_count'', True, Between [''integer''] (Some 0) None), (''grounded_count'', True, Between [''integer''] (Some 0) None),
     (''numeric_candidate_count'', True, Between [''integer''] (Some 0) None), (''numeric_grounded_count'', True, Between [''integer''] (Some 0) None),
     (''human_review_required_count'', True, Between [''integer''] (Some 0) None), (''conflict_count'', True, Between [''integer''] (Some 0) None),
     (''secondary_only_count'', True, Between [''integer''] (Some 0) None), (''external_truth_not_checked_count'', True, Between [''integer''] (Some 0) None),
     (''grounded_ratio'', True, Between [''number''] (Some 0) (Some 1)), (''numeric_grounded_ratio'', True, Between [''number''] (Some 0) (Some 1)),
     (''transcript_coverage'', False, Between [''number'', ''null''] (Some 0) (Some 1)),
     (''warnings'', True, ArrayOf [''array''] 0 None (v2_schema_non_empty))]"

definition v2_schema_producer :: schema where
  "v2_schema_producer = Closed [(''service'', True, Constant ''stock_content''), (''service_version'', True, v2_schema_non_empty), (''git_commit'', True, v2_schema_non_empty),
     (''pipeline_version'', True, v2_schema_non_empty), (''contract_checksum'', True, Digest ''sha256:'' upper_hex)]"

definition schema_v2 :: schema where
  "schema_v2 = Closed [(''contract'', True, Constant ''content-knowledge-bundle.v2''), (''schema_version'', True, Constant ''2.0.0''),
     (''canonicalization_version'', True, Constant ''content-bundle-c14n-v2''), (''bundle_id'', True, Digest ''ckb_'' lower_hex),
     (''bundle_hash'', True, v2_schema_hash), (''request_hash'', True, v2_schema_hash), (''content_snapshot_id'', True, v2_schema_non_empty),
     (''query'', True, v2_schema_non_empty), (''request'', True, v2_schema_request), (''scope'', True, v2_schema_scope), (''source'', True, v2_schema_source),
     (''business_as_of'', True, v2_schema_instant), (''knowledge_as_of'', True, v2_schema_instant), (''availability_as_of'', True, v2_schema_instant),
     (''items'', True, ArrayOf [''array''] 0 None (v2_schema_item)), (''quality'', True, v2_schema_quality), (''producer'', True, v2_schema_producer)]"

subsection \<open>What conforming gives\<close>

text \<open>A field of a conforming object is one of those the schema names, and conforms to the schema of its name.\<close>

lemma conforms_fields_get:
  assumes "conforms_fields has_format fs d" and "(k, required, s) \<in> set fs" and "dict_get d k = Some v"
  shows "conforms has_format s v"
  using assms by (induction has_format fs d rule: conforms_conforms_fields.induct(2) [where P = "\<lambda>_ _ _. True"]) auto

lemma conforms_closed:
  assumes "conforms has_format (Closed fs) v"
  obtains d where "v = VDict d" and "fst ` set d \<subseteq> fst ` set fs" and "conforms_fields has_format fs d"
  using assms that by (cases v) (fastforce simp: list_all_iff)+

lemma closed_unknown_field:
  assumes "conforms has_format (Closed fs) (VDict d)" and "k \<notin> fst ` set fs"
  shows "dict_get d k = None"
  using assms conforms_closed [OF assms(1)] by (auto simp: dict_get_def map_of_eq_None_iff)

lemma conforms_required:
  assumes "conforms has_format (Closed fs) (VDict d)" and "(k, True, s) \<in> set fs"
  shows "conforms has_format s (get_item d k)"
proof -
  have fields: "conforms_fields has_format fs d" using assms(1) by simp
  then have "\<not> dict_get d k = None" using assms(2)
    by (induction has_format fs d rule: conforms_conforms_fields.induct(2) [where P = "\<lambda>_ _ _. True"]) (auto split: option.splits)
  then show ?thesis using conforms_fields_get [OF fields assms(2)] by (auto simp: get_item_def)
qed

lemma conforms_array:
  assumes "conforms has_format (ArrayOf [''array''] least most s) v"
  shows "\<exists>xs. v = VList xs \<and> list_all (conforms has_format s) xs"
  using assms by (cases v) (auto simp: typed_def of_type_def)

text \<open>The fields of an item, of its evidence and of its temporal part, as the schemas close them.\<close>

lemma v1_items_conform:
  assumes "conforms has_format schema_v1 (VDict data)"
  shows "\<exists>items. get_item data ''items'' = VList items \<and> list_all (conforms has_format v1_schema_item) items"
  by (rule conforms_array) (rule conforms_required [OF assms [unfolded schema_v1_def]], simp)

lemma v1_item_closed:
  assumes "conforms has_format v1_schema_item v"
  shows "\<exists>item rows. v = VDict item \<and> get_item item ''evidence'' = VList rows \<and> list_all (conforms has_format v1_schema_evidence) rows
    \<and> (\<forall>k \<in> {''available_at'', ''known_at'', ''business_at''}. dict_get item k = None)"
proof -
  obtain item where v: "v = VDict item" using assms unfolding v1_schema_item_def by (rule conforms_closed)
  note closed = assms [unfolded v v1_schema_item_def]
  have unknown: "\<forall>k \<in> {''available_at'', ''known_at'', ''business_at''}. dict_get item k = None"
    by (intro ballI closed_unknown_field [OF closed]) auto
  have "\<exists>rows. get_item item ''evidence'' = VList rows \<and> list_all (conforms has_format v1_schema_evidence) rows"
    by (rule conforms_array) (rule conforms_required [OF closed], simp)
  then show ?thesis using v unknown by blast
qed

lemma v1_evidence_closed:
  assumes "conforms has_format v1_schema_evidence v"
  shows "\<exists>row. v = VDict row \<and> (\<forall>k \<in> {''available_at'', ''known_at''}. dict_get row k = None)"
proof -
  obtain row where v: "v = VDict row" using assms unfolding v1_schema_evidence_def by (rule conforms_closed)
  have "\<forall>k \<in> {''available_at'', ''known_at''}. dict_get row k = None"
    by (intro ballI closed_unknown_field [OF assms [unfolded v v1_schema_evidence_def]]) auto
  then show ?thesis using v by blast
qed

lemma v2_items_conform:
  assumes "conforms has_format schema_v2 (VDict data)"
  shows "\<exists>items. get_item data ''items'' = VList (map VDict items) \<and> (\<forall>item \<in> set items. conforms has_format v2_schema_item (VDict item))"
proof -
  have "\<exists>vs. get_item data ''items'' = VList vs \<and> list_all (conforms has_format v2_schema_item) vs"
    by (rule conforms_array) (rule conforms_required [OF assms [unfolded schema_v2_def]], simp)
  then obtain vs where vs: "get_item data ''items'' = VList vs" "list_all (conforms has_format v2_schema_item) vs" by blast
  have "\<exists>item. v = VDict item" if "v \<in> set vs" for v
    using vs(2) that unfolding v2_schema_item_def list_all_iff by (metis conforms_closed)
  then obtain g where "\<forall>v \<in> set vs. v = VDict (g v)" by metis
  then have "vs = map VDict (map g vs)" by (induction vs) simp_all
  then show ?thesis using vs by (intro exI [of _ "map g vs"]) (simp add: list_all_iff comp_def del: map_map, metis image_eqI list.set_map)
qed

lemma conforms_choice: "conforms has_format (Choice cs) v \<Longrightarrow> \<exists>c \<in> set cs. v = VStr c"
  by (cases v) auto

lemma conforms_boolean: "conforms has_format (OfTypes [''boolean'']) v \<Longrightarrow> \<exists>b. v = VBool b"
  by (cases v) (simp_all add: typed_def of_type_def)

lemma conforms_text_or_null:
  assumes "conforms has_format (OfTypes [''string'', ''null'']) v \<or> conforms has_format (Formatted [''string'', ''null''] format) v"
  shows "v = VNone \<or> is_str v"
  using assms by (cases v) (simp_all add: typed_def of_type_def)

definition temporal_kinds :: "string list" where
  "temporal_kinds = [''EVENT'', ''AS_OF'', ''FORECAST_TARGET'', ''RECURRING_RULE'', ''UNKNOWN'']"

lemma v2_temporal_conforms:
  assumes "conforms has_format v2_schema_temporal (VDict t)"
  shows "(\<exists>kind \<in> set temporal_kinds. get_item t ''kind'' = VStr kind) \<and> (\<exists>b. get_item t ''explicitly_unknown'' = VBool b)
    \<and> (\<forall>k \<in> {''start'', ''end'', ''as_of''}. get_item t k = VNone \<or> is_str (get_item t k))"
proof -
  note field = conforms_required [OF assms [unfolded v2_schema_temporal_def]]
  have kind: "conforms has_format (Choice temporal_kinds) (get_item t ''kind'')"
    unfolding temporal_kinds_def by (rule field) simp
  have unknown: "conforms has_format (OfTypes [''boolean'']) (get_item t ''explicitly_unknown'')" by (rule field) simp
  have "conforms has_format (Formatted [''string'', ''null''] ''date-time'') (get_item t k)" if "k \<in> {''start'', ''end'', ''as_of''}" for k
    by (rule field) (use that in auto)
  then have "\<forall>k \<in> {''start'', ''end'', ''as_of''}. get_item t k = VNone \<or> is_str (get_item t k)"
    using conforms_text_or_null by metis
  then show ?thesis using conforms_choice [OF kind] conforms_boolean [OF unknown] by simp
qed

lemma v2_item_temporal:
  assumes "conforms has_format v2_schema_item (VDict item)"
  shows "conforms has_format v2_schema_temporal (get_item item ''temporal'')"
  by (rule conforms_required [OF assms [unfolded v2_schema_item_def]]) simp

end
