(* ===== verification/BundleRules.thy ===== *)
theory BundleRules
  imports BundleSchema
begin

text \<open>
  The fail-closed validator of content bundles (\<open>app/application/knowledge_conclusion/bundle_validator.py\<close>): the canonical
  encoding, the integrity check, the request, and the checks of the contracts v1 and v2. The JSON schemas are those of \<open>BundleSchema\<close>. Arguments are
  whether a text has a JSON Schema format, SHA-256, Unicode NFC, the instant of an aware ISO datetime, the ISO text of an instant, the parts of a URL with the
  standing of its host, and whether a text has a decimal digit. Texts are UTF-8 bytes; \<open>casefold\<close> acts on ASCII letters. The values on which the later
  checks could raise something else in Python (a list where a set test expects a text, an integer too large for a float as a ratio or a confidence) are refused by the
  schema first; here those checks fail with their own code. The sort keys of evidence rows hold texts and integers.
\<close>

subsection \<open>Canonical encoding\<close>

record url_parts =
  up_scheme :: string
  up_host :: string
  up_bare :: bool
  up_global_ip :: "bool option"

record validator_env =
  ve_format :: "string \<Rightarrow> string \<Rightarrow> bool"
  ve_sha :: "string \<Rightarrow> string"
  ve_nfc :: "string \<Rightarrow> string"
  ve_instant :: "string \<Rightarrow> int option"
  ve_iso :: "int \<Rightarrow> string"
  ve_url :: "string \<Rightarrow> url_parts"
  ve_has_digit :: "string \<Rightarrow> bool"

definition bundle_error :: "string \<Rightarrow> exc" where
  "bundle_error code = PyExc ''BundleValidationError'' code"

definition accept_if :: "bool \<Rightarrow> string \<Rightarrow> unit result" where
  "accept_if ok code = (if ok then Inr () else Inl (bundle_error code))"

lemma accept_if_Inr [simp]: "accept_if ok code = Inr u \<longleftrightarrow> ok"
  by (simp add: accept_if_def)

fun all_checks :: "unit result list \<Rightarrow> unit result" where
  "all_checks [] = Inr ()"
| "all_checks (c # cs) = bindR c (\<lambda>_. all_checks cs)"

lemma all_checks_Inr: "all_checks cs = Inr () \<longleftrightarrow> (\<forall>c \<in> set cs. c = Inr ())"
  by (induction cs) (auto simp: bindR_Inr_iff)

definition drop_zeros :: "string \<Rightarrow> string" where
  "drop_zeros s = (let t = rev (dropWhile (\<lambda>c. c = CHR ''0'') (rev s)) in if t \<noteq> [] \<and> last t = CHR ''.'' then butlast t else t)"

text \<open>The shortest decimal of a positive double, written out without exponent.\<close>

definition positional :: "rat \<Rightarrow> string" where
  "positional x = (case float_digits x 1 16 of (ds, p) \<Rightarrow>
     if p \<le> 0 then drop_zeros (''0.'' @ replicate (nat (- p)) CHR ''0'' @ ds)
     else if int (length ds) \<le> p then ds @ replicate (nat p - length ds) CHR ''0''
     else drop_zeros (take (nat p) ds @ ''.'' @ drop (nat p) ds))"

definition decimal_text :: "pyfloat \<Rightarrow> string result" where
  "decimal_text f = (case f of
     Fin x \<Rightarrow> Inr (if x = 0 then ''0'' else if x < 0 then ''-'' @ positional (- x) else positional x)
   | _ \<Rightarrow> Inl (bundle_error ''CONTENT_SCHEMA_INVALID''))"

text \<open>The expression of the code also accepts the decimal digits of other scripts; \<open>fromisoformat\<close> refuses them, so that such a text is kept as it is either way.\<close>

definition looks_like_timestamp :: "string \<Rightarrow> bool" where
  "looks_like_timestamp s = (case s of
     a # b # c # d # h1 # m # n # h2 # x # y # t # _ \<Rightarrow> (\<forall>k \<in> {a, b, c, d, m, n, x, y}. is_digit k) \<and> h1 = CHR ''-'' \<and> h2 = CHR ''-'' \<and> t = CHR ''T''
   | _ \<Rightarrow> False)"

definition timestamp_or_text :: "validator_env \<Rightarrow> string \<Rightarrow> string" where
  "timestamp_or_text env s = (let n = ve_nfc env s in
     if \<not> looks_like_timestamp n then n else (case ve_instant env n of None \<Rightarrow> n | Some u \<Rightarrow> ve_iso env u))"

definition set_arrays :: "string list" where
  "set_arrays = [''reason_codes'', ''warnings'', ''evidence_refs'', ''evidence_ids'']"

definition text_at :: "mapping \<Rightarrow> string \<Rightarrow> string" where
  "text_at d k = py_str (get_default d k (VStr []))"

definition dict_or_empty :: "pyval \<Rightarrow> mapping" where
  "dict_or_empty v = (case v of VDict d \<Rightarrow> d | _ \<Rightarrow> [])"

definition bundle_item_key :: "mapping \<Rightarrow> string list" where
  "bundle_item_key item = (let subject = dict_or_empty (get_item item ''subject''); temporal = dict_or_empty (get_item item ''temporal'') in
     [text_at subject ''type'', text_at subject ''key'', text_at item ''predicate'', text_at temporal ''target_start'', text_at temporal ''target_end'',
      text_at item ''occurrence_id'', py_str (get_default item ''knowledge_id'' (get_default item ''claim_id'' (VStr [])))])"

definition int_value :: "pyval \<Rightarrow> int option" where
  "int_value v = (case v of VInt i \<Rightarrow> Some i | VBool b \<Rightarrow> Some (if b then 1 else 0) | _ \<Rightarrow> None)"

datatype evidence_key = RowKey string int int | TextKey string | NoKey

definition evidence_key_of :: "pyval \<Rightarrow> string result \<Rightarrow> evidence_key" where
  "evidence_key_of v text = (case v of
     VDict d \<Rightarrow> (case (int_value (get_default d ''start_ms'' (VInt (- 1))), int_value (get_default d ''end_ms'' (VInt (- 1)))) of
         (Some a, Some b) \<Rightarrow> RowKey (text_at d ''evidence_id'') a b | _ \<Rightarrow> NoKey)
   | _ \<Rightarrow> (case text of Inr t \<Rightarrow> TextKey t | Inl _ \<Rightarrow> NoKey))"

definition key_parts :: "evidence_key \<Rightarrow> string \<times> int list" where
  "key_parts k = (case k of RowKey s a b \<Rightarrow> (s, [a, b]) | TextKey s \<Rightarrow> (s, []) | NoKey \<Rightarrow> ([], []))"

definition comparable :: "evidence_key list \<Rightarrow> bool" where
  "comparable ks \<longleftrightarrow> (\<forall>k \<in> set ks. case k of RowKey _ _ _ \<Rightarrow> True | _ \<Rightarrow> False) \<or> (\<forall>k \<in> set ks. case k of TextKey _ \<Rightarrow> True | _ \<Rightarrow> False) \<or> length ks \<le> 1"

text \<open>The elements of a list with their own canonical text (for the order) and their text under the parent key.\<close>

type_synonym encoded = "pyval \<times> string result \<times> string result"

definition sorted_elements :: "string option \<Rightarrow> encoded list \<Rightarrow> encoded list result" where
  "sorted_elements parent xs =
     (if parent \<in> Some ` set set_arrays then bindR (mapR (\<lambda>(_, own, _). own) xs) (\<lambda>ts. Inr (map snd (sort_key fst (zip ts xs))))
      else if parent = Some ''items'' \<and> (\<forall>(v, _) \<in> set xs. is_dict v) then Inr (sort_key (\<lambda>(v, _). bundle_item_key (dict_or_empty v)) xs)
      else if parent = Some ''evidence''
      then (let ks = map (\<lambda>(v, own, _). evidence_key_of v own) xs in
        bindR (mapR (\<lambda>(v, own, _). if is_dict v then Inr [] else own) xs) (\<lambda>_.
        if comparable ks then Inr (map snd (sort_key (\<lambda>(k, _). fst (key_parts k)) (sort_key (\<lambda>(k, _). snd (key_parts k)) (zip ks xs)))) else Inl (TypeError ''not supported between instances'')))
      else Inr xs)"

definition list_text :: "string option \<Rightarrow> encoded list \<Rightarrow> string result" where
  "list_text parent xs = bindR (sorted_elements parent xs) (\<lambda>ys. bindR (mapR (\<lambda>(_, _, t). t) ys) (\<lambda>ts. Inr (''['' @ join_with '','' ts @ '']'')))"

text \<open>The fields under their normalized keys, a later one replacing an earlier one, in the order of the keys.\<close>

definition dict_text :: "(string \<times> string result) list \<Rightarrow> string result" where
  "dict_text fs = bindR (mapR (\<lambda>(k, r). bindR r (\<lambda>t. Inr (json_string k @ '':'' @ t))) (sort_key fst (foldl (\<lambda>d (k, r). dict_set d k r) [] fs)))
     (\<lambda>ts. Inr (CHR ''{'' # join_with '','' ts @ ''}''))"

fun c14n :: "validator_env \<Rightarrow> string option \<Rightarrow> pyval \<Rightarrow> string result"
  and c14n_items :: "validator_env \<Rightarrow> string option \<Rightarrow> pyval list \<Rightarrow> encoded list"
  and c14n_fields :: "validator_env \<Rightarrow> mapping \<Rightarrow> (string \<times> string result) list" where
  "c14n env parent VNone = Inr ''null''"
| "c14n env parent (VBool b) = Inr (if b then ''true'' else ''false'')"
| "c14n env parent (VStr s) = Inr (json_string (timestamp_or_text env s))"
| "c14n env parent (VInt i) = Inr (int_text i)"
| "c14n env parent (VFloat f) = decimal_text f"
| "c14n env parent (VDict d) = dict_text (c14n_fields env d)"
| "c14n env parent (VList xs) = list_text parent (c14n_items env parent xs)"
| "c14n_items env parent [] = []"
| "c14n_items env parent (x # xs) = (x, c14n env None x, c14n env parent x) # c14n_items env parent xs"
| "c14n_fields env [] = []"
| "c14n_fields env ((k, v) # d) = (ve_nfc env k, c14n env (Some (ve_nfc env k)) v) # c14n_fields env d"

lemma c14n_own: "\<not> is_list x \<Longrightarrow> c14n env None x = c14n env parent x"
  by (cases x) simp_all

lemma c14n_items_code [code]:
  "c14n_items env parent [] = []"
  "c14n_items env parent (x # xs) = (let t = c14n env parent x in (x, if is_list x then c14n env None x else t, t) # c14n_items env parent xs)"
  by (simp_all add: Let_def c14n_own [of x env parent])

definition canonical_json :: "validator_env \<Rightarrow> mapping \<Rightarrow> string result" where
  "canonical_json env d = c14n env None (VDict d)"

subsection \<open>Locks, request and integrity\<close>

definition contract_v1 :: string where "contract_v1 = ''content-knowledge-bundle.v1''"
definition contract_v2 :: string where "contract_v2 = ''content-knowledge-bundle.v2''"

definition checksum_v1 :: string where
  "checksum_v1 = ''sha256:EBFD13B78622C3846890438A4FB3CB858278F571FDAB247CDD72EF18CA211621''"

definition checksum_v2 :: string where
  "checksum_v2 = ''sha256:23C1D9C6BE131CBA8F270F01F7F45EB5D3148EE219EDF43D689F1C5707115800''"

definition locked_versions :: "pyval \<Rightarrow> (string \<times> string \<times> string) option" where
  "locked_versions contract = (if contract = VStr contract_v1 then Some (''1.0.0'', ''content-bundle-c14n-v1'', checksum_v1)
     else if contract = VStr contract_v2 then Some (''2.0.0'', ''content-bundle-c14n-v2'', checksum_v2) else None)"

definition material :: "mapping \<Rightarrow> mapping" where
  "material data = filter (\<lambda>(k, _). k \<notin> {''bundle_id'', ''bundle_hash''}) data"

definition verify_integrity :: "validator_env \<Rightarrow> mapping \<Rightarrow> (string \<times> string) result" where
  "verify_integrity env data = (case locked_versions (get_item data ''contract'') of
     None \<Rightarrow> Inl (bundle_error ''CONTENT_CONTRACT_MISMATCH'')
   | Some (schema, c14n_version, checksum) \<Rightarrow>
     bindR (accept_if (get_item data ''schema_version'' = VStr schema \<and> get_item data ''canonicalization_version'' = VStr c14n_version) ''CONTENT_CONTRACT_MISMATCH'') (\<lambda>_.
     case get_item data ''producer'' of
       VDict producer \<Rightarrow>
         bindR (accept_if (get_item producer ''service'' = VStr ''stock_content'' \<and> get_item producer ''contract_checksum'' = VStr checksum) ''CONTENT_CONTRACT_MISMATCH'') (\<lambda>_.
         bindR (canonical_json env (material data)) (\<lambda>text.
         let digest = ve_sha env text; expected_hash = ''sha256:'' @ digest; expected_id = ''ckb_'' @ digest in
         if get_item data ''bundle_hash'' \<noteq> VStr expected_hash \<or> get_item data ''bundle_id'' \<noteq> VStr expected_id
         then Inl (bundle_error ''CONTENT_BUNDLE_TAMPERED'') else Inr (expected_id, expected_hash)))
     | _ \<Rightarrow> Inl (bundle_error ''CONTENT_CONTRACT_MISMATCH'')))"

record bundle_request =
  kb_snapshot :: string
  kb_query :: string
  kb_symbol :: string
  kb_business :: "int option"
  kb_knowledge :: "int option"
  kb_availability :: "int option"
  kb_support :: string
  kb_max_items :: int
  kb_policy :: string
  kb_policy_version :: string
  kb_contract :: string

definition mutable_snapshots :: "string list" where
  "mutable_snapshots = [''latest'', ''current'', ''default'']"

definition policy_version :: string where
  "policy_version = ''content-bundle-policy.v1''"

definition subject_scope_of :: "string \<Rightarrow> string" where
  "subject_scope_of symbol = (if str_upper (strip symbol) = ''UNSPECIFIED'' then ''ALL_SUBJECTS'' else ''SUBJECT_ONLY'')"

text \<open>A clock is the instant of an aware datetime, None for one without offset.\<close>

definition bundle_request_payload :: "validator_env \<Rightarrow> bundle_request \<Rightarrow> mapping result" where
  "bundle_request_payload env q =
     bindR (accept_if (\<not> blank (kb_snapshot q) \<and> \<not> blank (kb_query q) \<and> \<not> blank (kb_symbol q)) ''CONTENT_SNAPSHOT_MISMATCH'') (\<lambda>_.
     bindR (accept_if (str_lower (strip (kb_snapshot q)) \<notin> set mutable_snapshots) ''CONTENT_SNAPSHOT_MISMATCH'') (\<lambda>_.
     bindR (accept_if (kb_support q = ''SOURCE_SUPPORTED'' \<and> kb_policy q = ''PUBLIC_STRICT'' \<and> kb_policy_version q = policy_version) ''CONTENT_CONTRACT_MISMATCH'') (\<lambda>_.
     bindR (accept_if (1 \<le> kb_max_items q \<and> kb_max_items q \<le> 100) ''CONTENT_SCHEMA_INVALID'') (\<lambda>_.
     case (kb_business q, kb_knowledge q, kb_availability q) of
       (Some b, Some k, Some a) \<Rightarrow>
         (let payload = [(''content_snapshot_id'', VStr (strip (kb_snapshot q))), (''query'', VStr (strip (kb_query q))), (''symbol'', VStr (strip (kb_symbol q))),
              (''business_as_of'', VStr (ve_iso env b)), (''knowledge_as_of'', VStr (ve_iso env k)), (''availability_as_of'', VStr (ve_iso env a)),
              (''minimum_support_status'', VStr ''SOURCE_SUPPORTED''), (''max_items'', VInt (kb_max_items q)), (''policy'', VStr ''PUBLIC_STRICT''),
              (''policy_version'', VStr policy_version)]
          in if kb_contract q = contract_v2
             then Inr (payload @ [(''contract_version'', VStr contract_v2), (''subject_scope'', VStr (subject_scope_of (kb_symbol q)))])
             else if kb_contract q = contract_v1 then Inr payload else Inl (bundle_error ''CONTENT_CONTRACT_MISMATCH''))
     | _ \<Rightarrow> Inl (bundle_error ''CONTENT_AS_OF_VIOLATION'')))))"

definition bundle_request_hash :: "validator_env \<Rightarrow> mapping \<Rightarrow> string result" where
  "bundle_request_hash env request = bindR (canonical_json env request) (\<lambda>t. Inr (''sha256:'' @ ve_sha env t))"

definition bundle_time :: "validator_env \<Rightarrow> pyval \<Rightarrow> int result" where
  "bundle_time env v = (case ve_instant env (py_str v) of None \<Rightarrow> Inl (bundle_error ''CONTENT_AS_OF_VIOLATION'') | Some u \<Rightarrow> Inr u)"

definition text_filled :: "pyval \<Rightarrow> bool" where
  "text_filled v = (case v of VStr s \<Rightarrow> \<not> blank s | _ \<Rightarrow> False)"

definition clock_names :: "string list" where
  "clock_names = [''business_as_of'', ''knowledge_as_of'', ''availability_as_of'']"

definition check_request_bindings :: "validator_env \<Rightarrow> mapping \<Rightarrow> unit result" where
  "check_request_bindings env q =
     bindR (accept_if (get_item q ''minimum_support_status'' = VStr ''SOURCE_SUPPORTED'' \<and> get_item q ''policy'' = VStr ''PUBLIC_STRICT''
        \<and> get_item q ''policy_version'' = VStr policy_version) ''CONTENT_CONTRACT_MISMATCH'') (\<lambda>_.
     bindR (accept_if (case get_item q ''content_snapshot_id'' of VStr s \<Rightarrow> \<not> blank s \<and> str_lower (strip s) \<notin> set mutable_snapshots | _ \<Rightarrow> False) ''CONTENT_SNAPSHOT_MISMATCH'') (\<lambda>_.
     bindR (accept_if (case get_item q ''max_items'' of VInt n \<Rightarrow> 1 \<le> n \<and> n \<le> 100 | _ \<Rightarrow> False) ''CONTENT_SCHEMA_INVALID'') (\<lambda>_.
     bindR (accept_if (text_filled (get_item q ''query'') \<and> text_filled (get_item q ''symbol'')) ''CONTENT_SCHEMA_INVALID'') (\<lambda>_.
     bindR (mapR (\<lambda>n. bundle_time env (get_item q n)) clock_names) (\<lambda>_. Inr ())))))"

subsection \<open>Secrets and addresses\<close>

definition secret_words :: "string list" where
  "secret_words = [''authorization'', ''token'', ''secret'', ''api_key'', ''password'', ''cookie'']"

definition unsafe_words :: "string list" where
  "unsafe_words = [''cookie'', ''header'', ''storage'', ''signed'', ''prompt'', ''raw_response'', ''pii'']"

text \<open>A secret word as a part between underscores; the end may be before a final newline.\<close>

definition secret_key :: "string \<Rightarrow> bool" where
  "secret_key k = (let l = str_lower k; cut = (if l \<noteq> [] \<and> last l = CHR 0x0A then butlast l else l) in
     \<exists>w \<in> set secret_words. str_in (''_'' @ w @ ''_'') (''_'' @ l @ ''_'') \<or> str_in (''_'' @ w @ ''_'') (''_'' @ cut @ ''_''))"

definition unsafe_key :: "string \<Rightarrow> bool" where
  "unsafe_key k \<longleftrightarrow> (\<exists>w \<in> set unsafe_words. str_in w (str_lower k))"

fun has_secret :: "pyval \<Rightarrow> bool"
  and has_secret_item :: "pyval list \<Rightarrow> bool"
  and has_secret_field :: "mapping \<Rightarrow> bool" where
  "has_secret (VDict d) = has_secret_field d"
| "has_secret (VList xs) = has_secret_item xs"
| "has_secret _ = False"
| "has_secret_item [] = False"
| "has_secret_item (x # xs) = (has_secret x \<or> has_secret_item xs)"
| "has_secret_field [] = False"
| "has_secret_field ((k, v) # d) = (secret_key k \<or> unsafe_key k \<or> has_secret v \<or> has_secret_field d)"

definition reject_secrets :: "pyval \<Rightarrow> unit result" where
  "reject_secrets v = accept_if (\<not> has_secret v) ''CONTENT_EVIDENCE_REFERENCE_INVALID''"

lemma starts_with_code [code]:
  "starts_with s [] = True" "starts_with [] (d # p) = False" "starts_with (c # s) (d # p) = (c = d \<and> starts_with s p)"
  by (auto simp: starts_with_def)

definition ends_with :: "string \<Rightarrow> string \<Rightarrow> bool" where
  "ends_with s p \<longleftrightarrow> starts_with (rev s) (rev p)"

definition private_host :: "url_parts \<Rightarrow> bool" where
  "private_host u = (case up_global_ip u of Some g \<Rightarrow> \<not> g
     | None \<Rightarrow> str_lower (up_host u) = ''localhost'' \<or> ends_with (str_lower (up_host u)) ''.localhost'')"

definition safe_url :: "validator_env \<Rightarrow> pyval \<Rightarrow> unit result" where
  "safe_url env v = (case v of
     VStr s \<Rightarrow> (let u = ve_url env s in accept_if (up_scheme u = ''https'' \<and> up_host u \<noteq> [] \<and> up_bare u \<and> \<not> private_host u) ''CONTENT_EVIDENCE_REFERENCE_INVALID'')
   | _ \<Rightarrow> Inl (bundle_error ''CONTENT_EVIDENCE_REFERENCE_INVALID''))"

definition optional_url :: "validator_env \<Rightarrow> pyval \<Rightarrow> unit result" where
  "optional_url env v = (if v = VNone then Inr () else safe_url env v)"

end
