(* ===== verification/BundleValidator.thy ===== *)
theory BundleValidator
  imports BundleRules
begin

text \<open>
  Validation of a content bundle of contract v1 or v2: integrity, schema, request, point in time, items and their evidence, quality
  counts. What a validated bundle is known to satisfy is stated in \<open>BundleCorrect\<close>.
\<close>

subsection \<open>Contract v1\<close>

definition not_future :: "validator_env \<Rightarrow> mapping \<Rightarrow> string \<Rightarrow> int \<Rightarrow> unit result" where
  "not_future env row key limit = (case dict_get row key of None \<Rightarrow> Inr ()
     | Some v \<Rightarrow> bindR (bundle_time env v) (\<lambda>u. accept_if (u \<le> limit) ''CONTENT_AS_OF_VIOLATION''))"

text \<open>The elements of a value that is iterated: a list, or the (unusable) characters or keys of a text or dictionary.\<close>

definition iterated :: "pyval \<Rightarrow> pyval list result" where
  "iterated v = (case v of VList xs \<Rightarrow> Inr xs | VDict d \<Rightarrow> Inr (map (\<lambda>(k, _). VStr k) d) | VStr s \<Rightarrow> Inr (map (\<lambda>c. VStr [c]) s)
     | _ \<Rightarrow> Inl (TypeError ''object is not iterable''))"

definition bundle_items :: "mapping \<Rightarrow> pyval list result" where
  "bundle_items data = (case dict_get data ''items'' of None \<Rightarrow> Inl (KeyError ''items'') | Some v \<Rightarrow> iterated v)"

definition read_clocks :: "validator_env \<Rightarrow> mapping \<Rightarrow> mapping \<Rightarrow> (string \<times> int) list result" where
  "read_clocks env data request = bindR (mapR (\<lambda>n. bindR (bundle_time env (get_item request n)) (\<lambda>u. Inr (n, u))) clock_names) (\<lambda>clocks.
     bindR (mapR (\<lambda>(n, u). bindR (bundle_time env (get_item data n)) (\<lambda>w. accept_if (w = u) ''CONTENT_AS_OF_VIOLATION'')) clocks) (\<lambda>_. Inr clocks))"

definition clock_of :: "(string \<times> int) list \<Rightarrow> string \<Rightarrow> int" where
  "clock_of clocks n = the (map_of clocks n)"

definition evidence_pit :: "validator_env \<Rightarrow> (string \<times> int) list \<Rightarrow> pyval \<Rightarrow> unit result" where
  "evidence_pit env clocks v = (case v of
     VDict row \<Rightarrow> all_checks [not_future env row ''available_at'' (clock_of clocks ''availability_as_of''), not_future env row ''known_at'' (clock_of clocks ''knowledge_as_of'')]
   | _ \<Rightarrow> Inr ())"

definition item_pit :: "validator_env \<Rightarrow> (string \<times> int) list \<Rightarrow> pyval \<Rightarrow> unit result" where
  "item_pit env clocks v = (case v of
     VDict item \<Rightarrow> bindR (all_checks [not_future env item ''available_at'' (clock_of clocks ''availability_as_of''),
         not_future env item ''known_at'' (clock_of clocks ''knowledge_as_of''), not_future env item ''business_at'' (clock_of clocks ''business_as_of'')]) (\<lambda>_.
       bindR (iterated (get_default item ''evidence'' (get_default item ''evidences'' (VList [])))) (\<lambda>rows. all_checks (map (evidence_pit env clocks) rows)))
   | _ \<Rightarrow> Inl (bundle_error ''CONTENT_SCHEMA_INVALID''))"

definition validate_pit :: "validator_env \<Rightarrow> mapping \<Rightarrow> mapping \<Rightarrow> unit result" where
  "validate_pit env data request = bindR (read_clocks env data request) (\<lambda>clocks. bindR (bundle_items data) (\<lambda>items. all_checks (map (item_pit env clocks) items)))"

definition evidence_id_of :: "mapping \<Rightarrow> pyval" where
  "evidence_id_of row = get_default row ''evidence_id'' (get_item row ''id'')"

definition owner_of :: "mapping \<Rightarrow> pyval" where
  "owner_of row = get_default row ''knowledge_id'' (get_item row ''owner_knowledge_id'')"

definition rows_by_id :: "pyval list \<Rightarrow> (pyval \<times> mapping) list" where
  "rows_by_id rows = foldl (\<lambda>d v. case v of VDict row \<Rightarrow> dict_set d (evidence_id_of row) row | _ \<Rightarrow> d) [] rows"

definition reference_error :: exc where
  "reference_error = bundle_error ''CONTENT_EVIDENCE_REFERENCE_INVALID''"

text \<open>The evidence rows an item selects: those it refers to, or all of them.\<close>

definition chosen_rows :: "mapping \<Rightarrow> mapping list result" where
  "chosen_rows item = (case get_item item ''evidence'' of
     VList rows \<Rightarrow> (let by_id = rows_by_id rows in
       if rows = [] \<or> length by_id \<noteq> length rows \<or> (\<exists>(i, _) \<in> set by_id. \<not> is_str i \<and> i \<noteq> VNone) then Inl reference_error
       else (case get_item item ''evidence_refs'' of
           VNone \<Rightarrow> Inr (map snd by_id)
         | VList refs \<Rightarrow> if refs = [] \<or> (\<exists>r \<in> set refs. \<not> is_str r \<or> dict_get by_id r = None) then Inl reference_error
             else Inr (map (\<lambda>r. the (dict_get by_id r)) refs)
         | _ \<Rightarrow> Inl reference_error))
   | _ \<Rightarrow> Inl reference_error)"

type_synonym owners = "(string \<times> string) list"

definition claim_row :: "validator_env \<Rightarrow> string \<Rightarrow> owners \<Rightarrow> mapping \<Rightarrow> owners result" where
  "claim_row env kid owners row =
     bindR (if owner_of row \<noteq> VNone \<and> owner_of row \<noteq> VStr kid then Inl reference_error else Inr ()) (\<lambda>_.
     bindR (case evidence_id_of row of
         VStr eid \<Rightarrow> (case dict_get owners eid of None \<Rightarrow> Inr (dict_set owners eid kid) | Some holder \<Rightarrow> if holder = kid then Inr owners else Inl reference_error)
       | _ \<Rightarrow> Inr owners) (\<lambda>owners'.
     bindR (optional_url env (get_item row ''canonical_url'')) (\<lambda>_. Inr owners')))"

record item_row =
  ir_item :: mapping
  ir_id :: string
  ir_evidence :: "mapping list"

definition claim_item :: "validator_env \<Rightarrow> string list \<times> owners \<times> item_row list \<Rightarrow> pyval \<Rightarrow> (string list \<times> owners \<times> item_row list) result" where
  "claim_item env st v = (case st of (ids, owners, done_rows) \<Rightarrow> (case v of
     VDict item \<Rightarrow> (case py_or (get_item item ''knowledge_id'') (get_item item ''id'') of
         VStr kid \<Rightarrow> if blank kid \<or> kid \<in> set ids then Inl reference_error
           else bindR (chosen_rows item) (\<lambda>rows. bindR (foldR (claim_row env kid) owners rows) (\<lambda>owners'.
             bindR (reject_secrets v) (\<lambda>_. Inr (ids @ [kid], owners', done_rows @ [\<lparr>ir_item = item, ir_id = kid, ir_evidence = rows\<rparr>]))))
       | _ \<Rightarrow> Inl reference_error)
   | _ \<Rightarrow> Inl (bundle_error ''CONTENT_SCHEMA_INVALID'')))"

definition support_statuses :: "pyval set" where
  "support_statuses = {VStr ''SOURCE_SUPPORTED'', VStr ''CROSS_MODAL_SUPPORTED''}"

definition is_primary_row :: "mapping \<Rightarrow> bool" where
  "is_primary_row row \<longleftrightarrow> get_item row ''ownership'' = VStr ''PRIMARY'' \<or> get_item row ''is_primary'' = VBool True
     \<or> get_item row ''primary_evidence'' = VBool True \<or> get_item row ''evidence_role'' = VStr ''PRIMARY''"

definition item_quality :: "item_row \<Rightarrow> unit result" where
  "item_quality r = (let item = ir_item r in
     accept_if (get_item item ''support_status'' \<in> support_statuses
       \<and> get_default item ''lifecycle_status'' (get_item item ''lifecycle'') = VStr ''ACTIVE''
       \<and> get_default item ''grounding_status'' (if get_item item ''grounded'' = VBool True then VStr ''GROUNDED'' else VNone) = VStr ''GROUNDED''
       \<and> get_item item ''claim_schema_version'' \<in> {VNone, VStr ''claim.atomic.v1''} \<and> get_item item ''legacy_grounding_incomplete'' \<noteq> VBool True
       \<and> (\<exists>row \<in> set (ir_evidence r). is_primary_row row)) ''CONTENT_QUALITY_REJECTED'')"

text \<open>A finite number that is not a boolean. Where it is used the schema has bounded the number by 1, so that \<open>float()\<close> does not overflow.\<close>

definition finite_number :: "pyval \<Rightarrow> pyfloat option" where
  "finite_number v = (case v of
     VInt i \<Rightarrow> if is_finite (f_of_rat (of_int i)) then Some (f_of_rat (of_int i)) else None
   | VFloat f \<Rightarrow> if is_finite f then Some f else None
   | _ \<Rightarrow> None)"

definition unit_ratio :: "pyval \<Rightarrow> bool" where
  "unit_ratio v \<longleftrightarrow> (case finite_number v of None \<Rightarrow> False | Some f \<Rightarrow> f_le (Fin 0) f \<and> f_le f (Fin 1))"

definition bundle_quality :: "mapping \<Rightarrow> nat \<Rightarrow> unit result" where
  "bundle_quality data n = (case get_item data ''quality'' of
     VDict q \<Rightarrow> accept_if (py_eq (get_item q ''knowledge_count'') (VInt (int n)) \<and> is_list (get_item q ''warnings'')
       \<and> unit_ratio (get_item q ''grounded_ratio'') \<and> unit_ratio (get_item q ''numeric_grounded_ratio'')) ''CONTENT_QUALITY_REJECTED''
   | _ \<Rightarrow> Inl (bundle_error ''CONTENT_QUALITY_REJECTED''))"

definition bundle_source_ok :: "validator_env \<Rightarrow> mapping \<Rightarrow> unit result" where
  "bundle_source_ok env data = (case get_item data ''source'' of VDict s \<Rightarrow> optional_url env (get_item s ''canonical_url'') | _ \<Rightarrow> Inl reference_error)"

definition validate_items :: "validator_env \<Rightarrow> mapping \<Rightarrow> unit result" where
  "validate_items env data = (case dict_get data ''items'' of
     None \<Rightarrow> Inl (KeyError ''items'')
   | Some (VList items) \<Rightarrow>
       if items = [] then Inl (bundle_error ''CONTENT_QUALITY_REJECTED'')
       else bindR (foldR (claim_item env) ([], [], []) items) (\<lambda>(_, _, rows).
         all_checks (map item_quality rows @ [bundle_quality data (length items), bundle_source_ok env data, reject_secrets (VDict data)]))
   | Some _ \<Rightarrow> Inl (bundle_error ''CONTENT_QUALITY_REJECTED''))"

record content_bundle =
  cb_id :: string
  cb_hash :: string
  cb_request_hash :: string
  cb_snapshot :: string
  cb_producer_sha :: string
  cb_checksum :: string
  cb_payload :: mapping

definition request_fields :: "string list" where
  "request_fields = [''content_snapshot_id'', ''query'', ''symbol'', ''business_as_of'', ''knowledge_as_of'', ''availability_as_of'', ''minimum_support_status'',
     ''max_items'', ''policy'', ''policy_version'']"

definition check_request_hash :: "validator_env \<Rightarrow> mapping \<Rightarrow> mapping \<Rightarrow> bundle_request option \<Rightarrow> unit result" where
  "check_request_hash env data request expected =
     bindR (bundle_request_hash env request) (\<lambda>h.
     bindR (accept_if (get_item data ''request_hash'' = VStr h) ''CONTENT_BUNDLE_TAMPERED'') (\<lambda>_.
     case expected of None \<Rightarrow> Inr ()
     | Some q \<Rightarrow> bindR (bundle_request_payload env q) (\<lambda>p. bindR (bundle_request_hash env p) (\<lambda>e.
         accept_if (get_item data ''request_hash'' = VStr e) ''CONTENT_SNAPSHOT_MISMATCH''))))"

definition check_snapshot :: "mapping \<Rightarrow> mapping \<Rightarrow> unit result" where
  "check_snapshot data request = accept_if (py_eq (get_item data ''content_snapshot_id'') (get_item request ''content_snapshot_id'')
     \<and> py_eq (get_item data ''query'') (get_item request ''query'')) ''CONTENT_SNAPSHOT_MISMATCH''"

definition built_bundle :: "mapping \<Rightarrow> mapping \<Rightarrow> string \<Rightarrow> content_bundle result" where
  "built_bundle data producer checksum = (case dict_get producer ''git_commit'' of
     None \<Rightarrow> Inl (KeyError ''git_commit'')
   | Some sha \<Rightarrow> Inr \<lparr>cb_id = py_str (get_item data ''bundle_id''), cb_hash = py_str (get_item data ''bundle_hash''),
       cb_request_hash = py_str (get_item data ''request_hash''), cb_snapshot = py_str (get_item data ''content_snapshot_id''),
       cb_producer_sha = py_str sha, cb_checksum = checksum, cb_payload = data\<rparr>)"

definition validate_v1 :: "validator_env \<Rightarrow> bundle_request option \<Rightarrow> mapping \<Rightarrow> content_bundle result" where
  "validate_v1 env expected data =
     bindR (verify_integrity env data) (\<lambda>_.
     bindR (accept_if (conforms (ve_format env) schema_v1 (VDict data)) ''CONTENT_SCHEMA_INVALID'') (\<lambda>_.
     case (get_item data ''producer'', get_item data ''request'') of
       (VDict producer, VDict request) \<Rightarrow>
         if set (map fst request) \<noteq> set request_fields then Inl (bundle_error ''CONTENT_SCHEMA_INVALID'')
         else bindR (all_checks [check_request_bindings env request, check_request_hash env data request expected, check_snapshot data request,
            validate_pit env data request, validate_items env data]) (\<lambda>_. built_bundle data producer checksum_v1)
     | _ \<Rightarrow> Inl (bundle_error ''CONTENT_SCHEMA_INVALID'')))"

subsection \<open>Contract v2\<close>

definition v2_request_fields :: "string list" where
  "v2_request_fields = request_fields @ [''contract_version'', ''subject_scope'']"

definition check_scope :: "mapping \<Rightarrow> mapping \<Rightarrow> unit result" where
  "check_scope data request = (let scope_of = subject_scope_of (py_str (get_item request ''symbol'')) in
     bindR (accept_if (get_item request ''subject_scope'' \<in> {VStr ''SUBJECT_ONLY'', VStr ''ALL_SUBJECTS''}) ''CONTENT_SCHEMA_INVALID'') (\<lambda>_.
     bindR (accept_if (get_item request ''subject_scope'' = VStr scope_of) ''CONTENT_SNAPSHOT_MISMATCH'') (\<lambda>_.
     case get_item data ''scope'' of
       VDict scope \<Rightarrow> accept_if (get_item scope ''subject_scope'' = VStr scope_of \<and> (scope_of = ''ALL_SUBJECTS'' \<longleftrightarrow> get_item scope ''requested_subject'' = VNone)
         \<and> (scope_of = ''SUBJECT_ONLY'' \<longrightarrow> py_eq (get_item scope ''requested_subject'') (get_item request ''symbol''))) ''CONTENT_SNAPSHOT_MISMATCH''
     | _ \<Rightarrow> Inl (bundle_error ''CONTENT_SNAPSHOT_MISMATCH''))))"

definition v2_temporal :: "validator_env \<Rightarrow> int \<Rightarrow> mapping \<Rightarrow> unit result" where
  "v2_temporal env available t = (let kind = get_item t ''kind'' in
     if kind = VStr ''UNKNOWN''
     then accept_if (get_item t ''explicitly_unknown'' = VBool True \<and> (\<forall>k \<in> {''start'', ''end'', ''as_of'', ''rule''}. get_item t k = VNone)) ''CONTENT_AS_OF_VIOLATION''
     else if truthy (get_item t ''explicitly_unknown'') then Inl (bundle_error ''CONTENT_AS_OF_VIOLATION'')
     else all_checks (map (\<lambda>k. if get_item t k = VNone \<or> kind = VStr ''FORECAST_TARGET'' then Inr ()
        else bindR (bundle_time env (get_item t k)) (\<lambda>u. accept_if (u \<le> available) ''CONTENT_AS_OF_VIOLATION'')) [''start'', ''end'', ''as_of'']))"

definition v2_item_pit :: "validator_env \<Rightarrow> (string \<times> int) list \<Rightarrow> pyval \<Rightarrow> unit result" where
  "v2_item_pit env clocks v = (case v of
     VDict item \<Rightarrow> (case get_item item ''temporal'' of VDict t \<Rightarrow> v2_temporal env (clock_of clocks ''availability_as_of'') t | _ \<Rightarrow> Inl (bundle_error ''CONTENT_SCHEMA_INVALID''))
   | _ \<Rightarrow> Inl (bundle_error ''CONTENT_SCHEMA_INVALID''))"

definition validate_v2_pit :: "validator_env \<Rightarrow> mapping \<Rightarrow> mapping \<Rightarrow> unit result" where
  "validate_v2_pit env data request = bindR (read_clocks env data request) (\<lambda>clocks. bindR (bundle_items data) (\<lambda>items. all_checks (map (v2_item_pit env clocks) items)))"

definition is_attributed :: "mapping \<Rightarrow> bool" where
  "is_attributed a \<longleftrightarrow> get_item a ''attributed'' = VBool True \<and> text_filled (get_item a ''source_label'')"

definition attribution_natures :: "pyval set" where
  "attribution_natures = {VStr ''OPINION'', VStr ''FORECAST'', VStr ''CAUSAL_THESIS'', VStr ''SOURCE_OPINION'', VStr ''SOURCE_FORECAST''}"

definition needs_attribution :: "mapping \<Rightarrow> bool" where
  "needs_attribution item \<longleftrightarrow> get_item item ''claim_nature'' \<in> attribution_natures
     \<or> get_item item ''source_grade'' \<in> {VStr ''SECONDARY'', VStr ''UNKNOWN''} \<and> get_item item ''external_truth_status'' \<noteq> VStr ''EXTERNALLY_VERIFIED''"

text \<open>\<open>re.sub(r"\s+", " ", s).strip().casefold()\<close>.\<close>

fun collapse_spaces :: "string \<Rightarrow> string" where
  "collapse_spaces [] = []"
| "collapse_spaces [c] = (if is_space c then '' '' else [c])"
| "collapse_spaces (c # d # cs) = (if is_space c then (if is_space d then collapse_spaces (d # cs) else '' '' @ collapse_spaces (d # cs)) else c # collapse_spaces (d # cs))"

definition detail_form :: "string \<Rightarrow> string" where
  "detail_form s = str_lower (strip (collapse_spaces s))"

definition detail_texts :: "mapping \<Rightarrow> string list" where
  "detail_texts item = (case get_item item ''detail'' of
     VDict d \<Rightarrow> concat (map (\<lambda>(_, v). case v of VStr s \<Rightarrow> if blank s then [] else [s] | _ \<Rightarrow> []) d) | _ \<Rightarrow> [])"

definition adds_detail :: "mapping \<Rightarrow> bool" where
  "adds_detail item \<longleftrightarrow> (\<exists>s \<in> set (detail_texts item). detail_form s \<noteq> detail_form (py_str (py_or (get_item item ''statement'') (VStr []))))"

definition modal_kinds :: "pyval set" where
  "modal_kinds = {VStr ''frame'', VStr ''ocr'', VStr ''vision''}"

definition model_confident :: "pyval \<Rightarrow> bool" where
  "model_confident v = (case v of
     VDict m \<Rightarrow> text_filled (get_item m ''name'') \<and> text_filled (get_item m ''version'') \<and> unit_ratio (get_item m ''confidence'')
   | _ \<Rightarrow> False)"

definition row_well_formed :: "mapping \<Rightarrow> bool" where
  "row_well_formed row \<longleftrightarrow> (case get_item row ''locator'' of
     VDict l \<Rightarrow> (case (int_value (get_item l ''start_ms''), int_value (get_item l ''end_ms'')) of (Some a, Some b) \<Rightarrow> a \<le> b | _ \<Rightarrow> False)
       \<and> (get_item row ''modality'' \<in> modal_kinds \<longrightarrow> text_filled (get_item l ''frame_id'') \<and> is_str (get_item row ''artifact_hash''))
       \<and> (get_item row ''modality'' \<in> {VStr ''ocr'', VStr ''vision''} \<longrightarrow> model_confident (get_item row ''model''))
   | _ \<Rightarrow> False)"

definition v2_row :: "string list \<Rightarrow> pyval \<Rightarrow> string list result" where
  "v2_row seen v = (case v of
     VDict row \<Rightarrow> (case get_item row ''evidence_id'' of
         VStr eid \<Rightarrow> if eid = [] \<or> eid \<in> set seen \<or> \<not> row_well_formed row then Inl reference_error else Inr (eid # seen)
       | _ \<Rightarrow> Inl reference_error)
   | _ \<Rightarrow> Inl reference_error)"

definition primary_transcript :: "mapping \<Rightarrow> bool" where
  "primary_transcript row \<longleftrightarrow> get_item row ''ownership'' = VStr ''PRIMARY'' \<and> get_item row ''modality'' = VStr ''transcript''"

definition v2_supported :: "mapping \<Rightarrow> pyval list \<Rightarrow> bool" where
  "v2_supported item rows \<longleftrightarrow> get_item item ''support_status'' \<in> support_statuses \<and> (\<exists>row \<in> set (dict_items rows). primary_transcript row)
     \<and> (get_item item ''support_status'' = VStr ''CROSS_MODAL_SUPPORTED'' \<longrightarrow> (\<exists>row \<in> set (dict_items rows). py_str (get_item row ''modality'') \<in> {''frame'', ''ocr'', ''vision''}))"

definition subject_key :: "mapping \<Rightarrow> string result" where
  "subject_key item = (case py_or (get_item item ''subject'') (VDict []) of VDict s \<Rightarrow> Inr (text_at s ''key'') | _ \<Rightarrow> Inl (PyExc ''AttributeError'' ''object has no attribute get''))"

definition v2_item_claims :: "mapping \<Rightarrow> unit result" where
  "v2_item_claims item =
     bindR (subject_key item) (\<lambda>key.
     bindR (accept_if (str_upper key \<noteq> ''UNSPECIFIED'') ''CONTENT_SCHEMA_INVALID'') (\<lambda>_.
     case get_item item ''attribution'' of
       VDict a \<Rightarrow>
         bindR (accept_if (needs_attribution item \<longrightarrow> is_attributed a) ''CONTENT_QUALITY_REJECTED'') (\<lambda>_.
         bindR (accept_if (adds_detail item) ''CONTENT_QUALITY_REJECTED'') (\<lambda>_.
         case get_item item ''occurrence_review'' of
           VDict r \<Rightarrow> bindR (accept_if (is_list (get_item r ''reason_codes'')) ''CONTENT_SCHEMA_INVALID'') (\<lambda>_.
             accept_if (get_item r ''status'' \<noteq> VStr ''HUMAN_REVIEW_REQUIRED'' \<and> \<not> truthy (get_item item ''contradiction_group_id'')) ''CONTENT_QUALITY_REJECTED'')
         | _ \<Rightarrow> Inl (bundle_error ''CONTENT_SCHEMA_INVALID'')))
     | _ \<Rightarrow> Inl (bundle_error ''CONTENT_SCHEMA_INVALID'')))"

definition v2_item :: "string list \<times> string list \<Rightarrow> pyval \<Rightarrow> (string list \<times> string list) result" where
  "v2_item st v = (case st of (ids, seen) \<Rightarrow> (case v of
     VDict item \<Rightarrow> (case get_item item ''knowledge_id'' of
         VStr kid \<Rightarrow> if kid = [] \<or> kid \<in> set ids then Inl reference_error
           else bindR (v2_item_claims item) (\<lambda>_. case get_item item ''evidence'' of
             VList rows \<Rightarrow> if rows = [] then Inl reference_error
               else bindR (foldR v2_row seen rows) (\<lambda>seen'. bindR (accept_if (v2_supported item rows) ''CONTENT_QUALITY_REJECTED'') (\<lambda>_. Inr (kid # ids, seen')))
           | _ \<Rightarrow> Inl reference_error)
       | _ \<Rightarrow> Inl reference_error)
   | _ \<Rightarrow> Inl (bundle_error ''CONTENT_SCHEMA_INVALID'')))"

definition validate_v2_items :: "mapping \<Rightarrow> unit result" where
  "validate_v2_items data = bindR (bundle_items data) (\<lambda>items. bindR (foldR v2_item ([], []) items) (\<lambda>_. Inr ()))"

definition v2_public_qualified :: "mapping \<Rightarrow> bool" where
  "v2_public_qualified item \<longleftrightarrow> get_item item ''support_status'' \<in> support_statuses \<and> get_item item ''lifecycle_status'' = VStr ''ACTIVE''
     \<and> get_item item ''grounding_status'' = VStr ''GROUNDED''
     \<and> (case get_item item ''occurrence_review'' of VDict r \<Rightarrow> get_item r ''status'' \<noteq> VStr ''HUMAN_REVIEW_REQUIRED'' \<and> \<not> truthy (get_item r ''reason_codes'') | _ \<Rightarrow> False)
     \<and> \<not> truthy (get_item item ''contradiction_group_id'')
     \<and> (case get_item item ''evidence'' of VList rows \<Rightarrow> (\<exists>row \<in> set (dict_items rows). primary_transcript row) | _ \<Rightarrow> False)"

definition v2_externally_grounded :: "mapping \<Rightarrow> bool" where
  "v2_externally_grounded item \<longleftrightarrow> get_item item ''source_grade'' = VStr ''PRIMARY'' \<and> get_item item ''external_truth_status'' = VStr ''EXTERNALLY_VERIFIED''"

definition v2_numeric :: "validator_env \<Rightarrow> mapping \<Rightarrow> bool" where
  "v2_numeric env item \<longleftrightarrow> (case get_item item ''object'' of VDict ob \<Rightarrow> (case get_item ob ''value'' of VInt _ \<Rightarrow> True | VFloat _ \<Rightarrow> True | _ \<Rightarrow> False) | _ \<Rightarrow> False)
     \<or> ve_has_digit env (py_str (py_or (get_item item ''statement'') (VStr [])))"

definition count_keys :: "string list" where
  "count_keys = [''candidate_count'', ''eligible_candidate_count'', ''excluded_candidate_count'', ''truncated_candidate_count'', ''knowledge_count'', ''grounded_count'',
     ''numeric_candidate_count'', ''numeric_grounded_count'', ''human_review_required_count'', ''conflict_count'', ''secondary_only_count'', ''external_truth_not_checked_count'']"

definition tally :: "mapping \<Rightarrow> string \<Rightarrow> int" where
  "tally q k = (case get_item q k of VInt n \<Rightarrow> n | _ \<Rightarrow> - 1)"

definition close_floats :: "pyfloat \<Rightarrow> pyfloat \<Rightarrow> bool" where
  "close_floats a b \<longleftrightarrow> f_eq a b \<or> (let d = f_sub b a in f_le (if f_lt d (Fin 0) then f_neg d else d) (f_of_rat (1 / 10 ^ 12)))"

definition tally_ratio :: "mapping \<Rightarrow> string \<Rightarrow> string \<Rightarrow> string \<Rightarrow> bool" where
  "tally_ratio q ratio numerator denominator \<longleftrightarrow> (case finite_number (get_item q ratio) of None \<Rightarrow> False
     | Some actual \<Rightarrow> close_floats actual (if tally q denominator = 0 then Fin 0 else f_of_rat (of_int (tally q numerator) / of_int (tally q denominator))))"

definition tallies_consistent :: "mapping \<Rightarrow> nat \<Rightarrow> bool" where
  "tallies_consistent q n \<longleftrightarrow> (\<forall>k \<in> set count_keys. 0 \<le> tally q k)
     \<and> tally q ''knowledge_count'' = int n \<and> tally q ''candidate_count'' = tally q ''eligible_candidate_count'' + tally q ''excluded_candidate_count''
     \<and> tally q ''eligible_candidate_count'' = tally q ''knowledge_count'' + tally q ''truncated_candidate_count''
     \<and> tally q ''grounded_count'' \<le> tally q ''knowledge_count'' \<and> tally q ''numeric_candidate_count'' \<le> tally q ''knowledge_count''
     \<and> tally q ''numeric_grounded_count'' \<le> tally q ''numeric_candidate_count''
     \<and> (\<forall>k \<in> {''human_review_required_count'', ''conflict_count'', ''secondary_only_count'', ''external_truth_not_checked_count''}. tally q k \<le> tally q ''candidate_count'')
     \<and> tally_ratio q ''grounded_ratio'' ''grounded_count'' ''knowledge_count'' \<and> tally_ratio q ''numeric_grounded_ratio'' ''numeric_grounded_count'' ''numeric_candidate_count''
     \<and> (tally q ''human_review_required_count'' \<noteq> 0 \<or> tally q ''conflict_count'' \<noteq> 0 \<longrightarrow> tally q ''excluded_candidate_count'' \<noteq> 0)"

definition tallies_match :: "validator_env \<Rightarrow> mapping \<Rightarrow> mapping list \<Rightarrow> bool" where
  "tallies_match env q items \<longleftrightarrow> (let qualified = filter v2_public_qualified items; numeric = filter (v2_numeric env) qualified in
     length qualified = length items \<and> tally q ''grounded_count'' = int (length (filter v2_externally_grounded qualified))
     \<and> tally q ''numeric_candidate_count'' = int (length numeric) \<and> tally q ''numeric_grounded_count'' = int (length (filter v2_externally_grounded numeric)))"

definition validate_v2_quality :: "validator_env \<Rightarrow> mapping \<Rightarrow> unit result" where
  "validate_v2_quality env data = (case (get_item data ''quality'', get_item data ''items'') of
     (VDict q, VList items) \<Rightarrow> accept_if (is_list (get_item q ''warnings'') \<and> tallies_consistent q (length items) \<and> tallies_match env q (dict_items items)) ''CONTENT_QUALITY_REJECTED''
   | _ \<Rightarrow> Inl (bundle_error ''CONTENT_QUALITY_REJECTED''))"

definition v2_expected :: "bundle_request option \<Rightarrow> unit result" where
  "v2_expected expected = (case expected of None \<Rightarrow> Inr () | Some q \<Rightarrow> accept_if (kb_contract q = contract_v2) ''CONTENT_CONTRACT_MISMATCH'')"

definition v2_request_hash_check :: "validator_env \<Rightarrow> mapping \<Rightarrow> mapping \<Rightarrow> bundle_request option \<Rightarrow> unit result" where
  "v2_request_hash_check env data request expected =
     all_checks [check_request_hash env data request None, v2_expected expected, check_request_hash env data request expected]"

definition validate_v2 :: "validator_env \<Rightarrow> bundle_request option \<Rightarrow> mapping \<Rightarrow> content_bundle result" where
  "validate_v2 env expected data =
     bindR (verify_integrity env data) (\<lambda>_.
     bindR (accept_if (conforms (ve_format env) schema_v2 (VDict data)) ''CONTENT_SCHEMA_INVALID'') (\<lambda>_.
     case (get_item data ''producer'', get_item data ''request'') of
       (VDict producer, VDict request) \<Rightarrow>
         if set (map fst request) \<noteq> set v2_request_fields \<or> get_item request ''contract_version'' \<noteq> VStr contract_v2 then Inl (bundle_error ''CONTENT_SCHEMA_INVALID'')
         else bindR (all_checks [check_request_bindings env request, check_scope data request, v2_request_hash_check env data request expected, check_snapshot data request,
            validate_v2_pit env data request, validate_v2_items data, validate_v2_quality env data, reject_secrets (VDict data)]) (\<lambda>_. built_bundle data producer checksum_v2)
     | _ \<Rightarrow> Inl (bundle_error ''CONTENT_SCHEMA_INVALID'')))"

definition validate_bundle :: "validator_env \<Rightarrow> bundle_request option \<Rightarrow> mapping \<Rightarrow> content_bundle result" where
  "validate_bundle env expected data = (if get_item data ''contract'' = VStr contract_v2 then validate_v2 env expected data else validate_v1 env expected data)"

end
