(* ===== verification/BundleCorrect.thy ===== *)
theory BundleCorrect
  imports BundleValidator "HOL-Library.Multiset"
begin

text \<open>
  What a validated content bundle is known to satisfy: its identity is the digest of its content; its clocks are those of its request, and outside
  forecast targets no item of a v2 bundle is dated after its availability clock; each evidence row of a v1 bundle has one owner; the opinions of a v2 bundle
  stay attributed, and its grounded count counts exactly the externally verified items of a primary source. The canonical encoding does not depend on the order of the fields.
\<close>

subsection \<open>Inversion of the checks\<close>

lemma bindR_unit: "bindR c (\<lambda>_. k) = Inr y \<longleftrightarrow> (\<exists>x. c = Inr x) \<and> k = Inr y"
  by (cases c) auto

lemma all_checks_map: "all_checks (map f xs) = Inr () \<longleftrightarrow> (\<forall>x \<in> set xs. f x = Inr ())"
  by (simp add: all_checks_Inr)

lemma mapR_unit: "(\<exists>us. mapR f xs = Inr us) \<longleftrightarrow> (\<forall>x \<in> set xs. \<exists>u. f x = Inr u)"
  by (induction xs) (auto simp: bindR_Inr_iff)

lemma bundle_time_Inr: "bundle_time env v = Inr u \<longleftrightarrow> ve_instant env (py_str v) = Some u"
  by (simp add: bundle_time_def split: option.splits)

lemma both_dicts:
  assumes "(case (a, b) of (VDict p, VDict q) \<Rightarrow> f p q | _ \<Rightarrow> Inl e) = Inr y"
  obtains p q where "a = VDict p" and "b = VDict q" and "f p q = Inr y"
  using assms by (cases a; cases b) auto

lemma gated:
  assumes "(if wrong then Inl e else bindR (all_checks cs) (\<lambda>_. k)) = Inr y"
  shows "\<forall>c \<in> set cs. c = Inr ()" and "k = Inr y"
  using assms by (auto simp: bindR_unit all_checks_Inr split: if_splits)

lemma verify_integrity_Inr:
  assumes "verify_integrity env data = Inr (i, h)"
  obtains content where "canonical_json env (material data) = Inr content" and "i = ''ckb_'' @ ve_sha env content" and "h = ''sha256:'' @ ve_sha env content"
    and "get_item data ''bundle_id'' = VStr i" and "get_item data ''bundle_hash'' = VStr h"
  using assms by (auto simp: verify_integrity_def Let_def bindR_Inr_iff split: option.splits prod.splits pyval.splits if_splits)

lemma check_request_hash_Inr:
  assumes "check_request_hash env data request expected = Inr ()"
  obtains h where "bundle_request_hash env request = Inr h" and "get_item data ''request_hash'' = VStr h"
    and "\<forall>q. expected = Some q \<longrightarrow> (\<exists>p. bundle_request_payload env q = Inr p \<and> bundle_request_hash env p = Inr h)"
  using assms by (auto simp: check_request_hash_def bindR_Inr_iff split: option.splits)

lemma built_bundle_Inr:
  assumes "built_bundle data producer checksum = Inr b"
  shows "cb_payload b = data" and "cb_id b = py_str (get_item data ''bundle_id'')" and "cb_hash b = py_str (get_item data ''bundle_hash'')"
    and "cb_request_hash b = py_str (get_item data ''request_hash'')"
  using assms by (auto simp: built_bundle_def split: option.splits)

lemma validate_v1_Inr:
  assumes "validate_v1 env expected data = Inr b"
  obtains i h producer request where "verify_integrity env data = Inr (i, h)" and "get_item data ''request'' = VDict request"
    and "check_request_hash env data request expected = Inr ()" and "validate_pit env data request = Inr ()" and "validate_items env data = Inr ()"
    and "built_bundle data producer checksum_v1 = Inr b" and "conforms (ve_format env) schema_v1 (VDict data)"
proof -
  obtain i h where ih: "verify_integrity env data = Inr (i, h)" and sch: "conforms (ve_format env) schema_v1 (VDict data)" and rest: "(case (get_item data ''producer'', get_item data ''request'') of
       (VDict producer, VDict request) \<Rightarrow> if set (map fst request) \<noteq> set request_fields then Inl (bundle_error ''CONTENT_SCHEMA_INVALID'')
         else bindR (all_checks [check_request_bindings env request, check_request_hash env data request expected, check_snapshot data request,
            validate_pit env data request, validate_items env data]) (\<lambda>_. built_bundle data producer checksum_v1)
     | _ \<Rightarrow> Inl (bundle_error ''CONTENT_SCHEMA_INVALID'')) = Inr b"
    using assms unfolding validate_v1_def by (auto simp only: bindR_Inr_iff accept_if_Inr)
  from both_dicts [OF rest] obtain producer request where request: "get_item data ''request'' = VDict request"
    and gate: "(if set (map fst request) \<noteq> set request_fields then Inl (bundle_error ''CONTENT_SCHEMA_INVALID'')
         else bindR (all_checks [check_request_bindings env request, check_request_hash env data request expected, check_snapshot data request,
            validate_pit env data request, validate_items env data]) (\<lambda>_. built_bundle data producer checksum_v1)) = Inr b"
    by blast
  note checks = gated(1) [OF gate]
  show thesis
    by (rule that [OF ih request _ _ _ gated(2) [OF gate] sch]) (rule checks [rule_format], simp)+
qed

lemma validate_v2_Inr:
  assumes "validate_v2 env expected data = Inr b"
  obtains i h producer request where "verify_integrity env data = Inr (i, h)" and "get_item data ''request'' = VDict request"
    and "check_request_hash env data request expected = Inr ()" and "validate_v2_pit env data request = Inr ()" and "validate_v2_items data = Inr ()"
    and "validate_v2_quality env data = Inr ()" and "built_bundle data producer checksum_v2 = Inr b" and "conforms (ve_format env) schema_v2 (VDict data)"
proof -
  obtain i h where ih: "verify_integrity env data = Inr (i, h)" and sch: "conforms (ve_format env) schema_v2 (VDict data)" and rest: "(case (get_item data ''producer'', get_item data ''request'') of
       (VDict producer, VDict request) \<Rightarrow> if set (map fst request) \<noteq> set v2_request_fields \<or> get_item request ''contract_version'' \<noteq> VStr contract_v2 then Inl (bundle_error ''CONTENT_SCHEMA_INVALID'')
         else bindR (all_checks [check_request_bindings env request, check_scope data request, v2_request_hash_check env data request expected, check_snapshot data request,
            validate_v2_pit env data request, validate_v2_items data, validate_v2_quality env data, reject_secrets (VDict data)]) (\<lambda>_. built_bundle data producer checksum_v2)
     | _ \<Rightarrow> Inl (bundle_error ''CONTENT_SCHEMA_INVALID'')) = Inr b"
    using assms unfolding validate_v2_def by (auto simp only: bindR_Inr_iff accept_if_Inr)
  from both_dicts [OF rest] obtain producer request where request: "get_item data ''request'' = VDict request"
    and gate: "(if set (map fst request) \<noteq> set v2_request_fields \<or> get_item request ''contract_version'' \<noteq> VStr contract_v2 then Inl (bundle_error ''CONTENT_SCHEMA_INVALID'')
         else bindR (all_checks [check_request_bindings env request, check_scope data request, v2_request_hash_check env data request expected, check_snapshot data request,
            validate_v2_pit env data request, validate_v2_items data, validate_v2_quality env data, reject_secrets (VDict data)]) (\<lambda>_. built_bundle data producer checksum_v2)) = Inr b"
    by blast
  note checks = gated(1) [OF gate]
  have "v2_request_hash_check env data request expected = Inr ()"
    by (rule checks [rule_format]) simp
  then have "check_request_hash env data request expected = Inr ()"
    unfolding v2_request_hash_check_def all_checks_Inr by simp
  then show thesis
    by (rule that [OF ih request _ _ _ _ gated(2) [OF gate] sch]) (rule checks [rule_format], simp)+
qed

subsection \<open>Integrity\<close>

lemma bundle_identity:
  assumes "verify_integrity env data = Inr (i, h)" and "check_request_hash env data request expected = Inr ()" and "built_bundle data producer checksum = Inr b"
  shows "cb_payload b = data \<and> (\<exists>content asked. canonical_json env (material data) = Inr content \<and> cb_id b = ''ckb_'' @ ve_sha env content \<and> cb_hash b = ''sha256:'' @ ve_sha env content
    \<and> canonical_json env request = Inr asked \<and> cb_request_hash b = ''sha256:'' @ ve_sha env asked
    \<and> (\<forall>q. expected = Some q \<longrightarrow> (\<exists>p. bundle_request_payload env q = Inr p \<and> bundle_request_hash env p = Inr (cb_request_hash b))))"
proof -
  note built = built_bundle_Inr [OF assms(3)]
  obtain content where content: "canonical_json env (material data) = Inr content" "i = ''ckb_'' @ ve_sha env content" "h = ''sha256:'' @ ve_sha env content"
    "get_item data ''bundle_id'' = VStr i" "get_item data ''bundle_hash'' = VStr h"
    using verify_integrity_Inr [OF assms(1)] .
  obtain rh where rh: "bundle_request_hash env request = Inr rh" "get_item data ''request_hash'' = VStr rh"
    "\<forall>q. expected = Some q \<longrightarrow> (\<exists>p. bundle_request_payload env q = Inr p \<and> bundle_request_hash env p = Inr rh)"
    using check_request_hash_Inr [OF assms(2)] .
  obtain asked where asked: "canonical_json env request = Inr asked" "rh = ''sha256:'' @ ve_sha env asked"
    using rh(1) by (auto simp: bundle_request_hash_def bindR_Inr_iff)
  have "cb_payload b = data" "cb_id b = i" "cb_hash b = h" "cb_request_hash b = rh"
    using built content(4,5) rh(2) by (simp_all add: py_str_def)
  then show ?thesis
    using content(1-3) asked rh(3) by blast
qed

text \<open>C37: A bundle that passed validation, under either contract, carries the digest of the canonical encoding of everything in it but its two
  identity fields; its request hash is the digest of its own request, and of the request the caller made where one is given.\<close>

theorem validated_bundle_identity:
  assumes "validate_bundle env expected data = Inr b"
  shows "\<exists>request content asked. cb_payload b = data \<and> get_item data ''request'' = VDict request
    \<and> canonical_json env (material data) = Inr content \<and> cb_id b = ''ckb_'' @ ve_sha env content \<and> cb_hash b = ''sha256:'' @ ve_sha env content
    \<and> canonical_json env request = Inr asked \<and> cb_request_hash b = ''sha256:'' @ ve_sha env asked
    \<and> (\<forall>q. expected = Some q \<longrightarrow> (\<exists>p. bundle_request_payload env q = Inr p \<and> bundle_request_hash env p = Inr (cb_request_hash b)))"
proof (cases "get_item data ''contract'' = VStr contract_v2")
  case True
  then have "validate_v2 env expected data = Inr b" using assms by (simp add: validate_bundle_def)
  then show ?thesis
  proof (rule validate_v2_Inr, goal_cases)
    case (1 i h producer request)
    show ?case using bundle_identity [OF 1(1,3,7)] 1(2) by blast
  qed
next
  case False
  then have "validate_v1 env expected data = Inr b" using assms by (simp add: validate_bundle_def)
  then show ?thesis
  proof (rule validate_v1_Inr, goal_cases)
    case (1 i h producer request)
    show ?case using bundle_identity [OF 1(1,3,6)] 1(2) by blast
  qed
qed

subsection \<open>Point in time\<close>

lemma read_clocks_Inr:
  assumes "read_clocks env data request = Inr clocks"
  obtains bu kn av where "clocks = [(''business_as_of'', bu), (''knowledge_as_of'', kn), (''availability_as_of'', av)]"
    and "map (\<lambda>n. ve_instant env (py_str (get_item request n))) clock_names = map Some [bu, kn, av]"
    and "map (\<lambda>n. ve_instant env (py_str (get_item data n))) clock_names = map Some [bu, kn, av]"
  using assms by (auto simp: read_clocks_def clock_names_def bindR_Inr_iff bundle_time_Inr)

lemma validate_items_list:
  assumes "validate_items env data = Inr ()"
  obtains items ids owners rows where "dict_get data ''items'' = Some (VList items)" and "items \<noteq> []"
    and "foldR (claim_item env) ([], [], []) items = Inr (ids, owners, rows)" and "\<forall>r \<in> set rows. item_quality r = Inr ()"
  using assms by (auto simp: validate_items_def bindR_Inr_iff all_checks_Inr split: option.splits pyval.splits if_splits)

text \<open>The clocks of a validated v1 bundle are those of its request. The schema closes its items and evidence rows to fields other than the instants
  the validator holds against the clocks, so that this check of the items never applies: an item is not bounded in time by validation.\<close>

theorem v1_clocks_agree:
  assumes "validate_v1 env expected data = Inr b"
  shows "\<exists>request items clocks. get_item data ''request'' = VDict request \<and> get_item data ''items'' = VList items
    \<and> map (\<lambda>n. ve_instant env (py_str (get_item data n))) clock_names = map Some clocks
    \<and> map (\<lambda>n. ve_instant env (py_str (get_item request n))) clock_names = map Some clocks
    \<and> (\<forall>v \<in> set items. \<forall>limits. item_pit env limits v = Inr ())"
proof -
  obtain request where request: "get_item data ''request'' = VDict request" and pit: "validate_pit env data request = Inr ()"
    and sch: "conforms (ve_format env) schema_v1 (VDict data)"
    using validate_v1_Inr [OF assms] by metis
  obtain items where items: "get_item data ''items'' = VList items" "list_all (conforms (ve_format env) v1_schema_item) items"
    using v1_items_conform [OF sch] by blast
  obtain clocks where clocks: "read_clocks env data request = Inr clocks" using pit by (auto simp: validate_pit_def bindR_Inr_iff)
  have free: "item_pit env limits v = Inr ()" if "v \<in> set items" for v limits
  proof -
    have "conforms (ve_format env) v1_schema_item v" using items(2) that by (simp add: list_all_iff)
    then obtain item rows where v: "v = VDict item" "get_item item ''evidence'' = VList rows" "list_all (conforms (ve_format env) v1_schema_evidence) rows"
      and none: "\<forall>k \<in> {''available_at'', ''known_at'', ''business_at''}. dict_get item k = None"
      using v1_item_closed by blast
    have "evidence_pit env limits row = Inr ()" if "row \<in> set rows" for row
      using v1_evidence_closed [of "ve_format env" row] v(3) that by (auto simp: list_all_iff evidence_pit_def not_future_def)
    moreover have "get_default item ''evidence'' x = VList rows" for x
      using v(2) by (auto simp: get_default_def get_item_def split: option.splits)
    ultimately show ?thesis
      using none by (simp add: v(1) item_pit_def not_future_def iterated_def all_checks_map)
  qed
  from clocks obtain bu kn av where "map (\<lambda>n. ve_instant env (py_str (get_item request n))) clock_names = map Some [bu, kn, av]"
    "map (\<lambda>n. ve_instant env (py_str (get_item data n))) clock_names = map Some [bu, kn, av]"
    by (rule read_clocks_Inr)
  then show ?thesis using request items(1) free by blast
qed

text \<open>What the time part of a v2 item may say when the availability clock is \<open>av\<close>.\<close>

definition dated_by :: "validator_env \<Rightarrow> int \<Rightarrow> mapping \<Rightarrow> bool" where
  "dated_by env av t \<longleftrightarrow> (\<exists>kind \<in> set temporal_kinds. get_item t ''kind'' = VStr kind
     \<and> get_item t ''explicitly_unknown'' = VBool (kind = ''UNKNOWN'')
     \<and> (kind = ''UNKNOWN'' \<longrightarrow> (\<forall>k \<in> {''start'', ''end'', ''as_of'', ''rule''}. get_item t k = VNone))
     \<and> (kind \<in> {''EVENT'', ''AS_OF'', ''RECURRING_RULE''} \<longrightarrow>
         (\<forall>k \<in> {''start'', ''end'', ''as_of''}. get_item t k = VNone \<or> (\<exists>s u. get_item t k = VStr s \<and> ve_instant env s = Some u \<and> u \<le> av))))"

lemma v2_temporal_dated:
  assumes "v2_temporal env av t = Inr ()" and "conforms (ve_format env) v2_schema_temporal (VDict t)"
  shows "dated_by env av t"
proof -
  obtain kind b where kind: "kind \<in> set temporal_kinds" "get_item t ''kind'' = VStr kind" and b: "get_item t ''explicitly_unknown'' = VBool b"
    and texts: "\<forall>k \<in> {''start'', ''end'', ''as_of''}. get_item t k = VNone \<or> is_str (get_item t k)"
    using v2_temporal_conforms [OF assms(2)] by blast
  show ?thesis
  proof (cases "kind = ''UNKNOWN''")
    case True
    then show ?thesis using assms(1) kind b unfolding v2_temporal_def dated_by_def by (intro bexI [of _ kind]) simp_all
  next
    case False
    have limits: "\<not> b" "\<forall>k \<in> {''start'', ''end'', ''as_of''}. get_item t k = VNone \<or> kind = ''FORECAST_TARGET'' \<or> (\<exists>u \<le> av. ve_instant env (py_str (get_item t k)) = Some u)"
      using assms(1) False kind(2) b by (auto simp: v2_temporal_def Let_def bindR_Inr_iff bundle_time_Inr split: if_splits)
    have "\<exists>s u. get_item t k = VStr s \<and> ve_instant env s = Some u \<and> u \<le> av"
      if "k \<in> {''start'', ''end'', ''as_of''}" "get_item t k \<noteq> VNone" "kind \<noteq> ''FORECAST_TARGET''" for k
    proof -
      have "is_str (get_item t k)" using texts that(1,2) by blast
      then obtain s where "get_item t k = VStr s" by (cases "get_item t k") simp_all
      then show ?thesis using limits(2) that by (auto simp: py_str_def)
    qed
    then show ?thesis
      using False kind b limits(1) unfolding dated_by_def by (intro bexI [of _ kind]) (auto)
  qed
qed

text \<open>C38: In a validated v2 bundle the three clocks of the bundle are those of its request, and every item says when it holds: it is explicitly of
  unknown time and then has no dates and no rule, or it is an event, a statement as of a date or a recurring rule and none of its dates is later than the
  availability clock, or it is a forecast target, whose dates are not bounded.\<close>

theorem v2_bundle_is_point_in_time:
  assumes "validate_v2 env expected data = Inr b"
  shows "\<exists>request items business knowledge available. get_item data ''request'' = VDict request \<and> get_item data ''items'' = VList (map VDict items)
    \<and> map (\<lambda>n. ve_instant env (py_str (get_item data n))) clock_names = map Some [business, knowledge, available]
    \<and> map (\<lambda>n. ve_instant env (py_str (get_item request n))) clock_names = map Some [business, knowledge, available]
    \<and> (\<forall>item \<in> set items. \<exists>t. get_item item ''temporal'' = VDict t \<and> dated_by env available t)"
proof -
  obtain request where request: "get_item data ''request'' = VDict request" and pit: "validate_v2_pit env data request = Inr ()"
    and sch: "conforms (ve_format env) schema_v2 (VDict data)"
    using validate_v2_Inr [OF assms] by metis
  obtain items where items: "get_item data ''items'' = VList (map VDict items)" "\<forall>item \<in> set items. conforms (ve_format env) v2_schema_item (VDict item)"
    using v2_items_conform [OF sch] by blast
  have "bundle_items data = Inr (map VDict items)"
    using items(1) by (auto simp: bundle_items_def get_item_def iterated_def split: option.splits)
  then obtain clocks where clocks: "read_clocks env data request = Inr clocks" and checks: "\<forall>item \<in> set items. v2_item_pit env clocks (VDict item) = Inr ()"
    using pit by (auto simp: validate_v2_pit_def bindR_Inr_iff all_checks_map)
  from clocks obtain bu kn av where shape: "clocks = [(''business_as_of'', bu), (''knowledge_as_of'', kn), (''availability_as_of'', av)]"
    and same: "map (\<lambda>n. ve_instant env (py_str (get_item request n))) clock_names = map Some [bu, kn, av]"
      "map (\<lambda>n. ve_instant env (py_str (get_item data n))) clock_names = map Some [bu, kn, av]"
    by (rule read_clocks_Inr)
  have "\<exists>t. get_item item ''temporal'' = VDict t \<and> dated_by env av t" if item: "item \<in> set items" for item
  proof -
    obtain t where t: "get_item item ''temporal'' = VDict t" "v2_temporal env (clock_of clocks ''availability_as_of'') t = Inr ()"
      using bspec [OF checks item] by (cases "get_item item ''temporal''") (simp_all add: v2_item_pit_def)
    have "conforms (ve_format env) v2_schema_temporal (VDict t)" using v2_item_temporal items(2) item t(1) by metis
    then show ?thesis using t v2_temporal_dated by (simp add: shape clock_of_def)
  qed
  then show ?thesis using request same items(1) by blast
qed

subsection \<open>Owners of evidence\<close>

definition row_ids :: "mapping list \<Rightarrow> string set" where
  "row_ids rows = {eid. \<exists>row \<in> set rows. evidence_id_of row = VStr eid}"

lemma map_le_keeps:
  assumes "m \<subseteq>\<^sub>m m'" and "m k = Some v"
  shows "m' k = Some v"
  using assms unfolding map_le_def by (metis domI)

lemma claim_row_owner:
  assumes "claim_row env kid owners row = Inr owners'"
  shows "map_of owners \<subseteq>\<^sub>m map_of owners'" and "\<And>eid. evidence_id_of row = VStr eid \<Longrightarrow> map_of owners' eid = Some kid"
  using assms by (auto simp: claim_row_def bindR_Inr_iff map_le_def dict_get_def dom_def dict_get_set [unfolded dict_get_def] split: pyval.splits option.splits if_splits)

lemma claim_rows_owner:
  assumes "foldR (claim_row env kid) owners rows = Inr owners'"
  shows "map_of owners \<subseteq>\<^sub>m map_of owners' \<and> (\<forall>eid \<in> row_ids rows. map_of owners' eid = Some kid)"
  using assms
proof (induction rows arbitrary: owners)
  case Nil
  then show ?case by (simp add: row_ids_def)
next
  case (Cons row rows)
  then obtain mid where mid: "claim_row env kid owners row = Inr mid" "foldR (claim_row env kid) mid rows = Inr owners'"
    by (auto simp: bindR_Inr_iff)
  note first = claim_row_owner [OF mid(1)] and rest = Cons.IH [OF mid(2)]
  have "map_of owners' eid = Some kid" if "evidence_id_of row = VStr eid" for eid
    using map_le_keeps [OF conjunct1 [OF rest] first(2) [OF that]] .
  then show ?case
    using first(1) rest map_le_trans by (auto simp: row_ids_def)
qed

definition owned_rows :: "string list \<times> owners \<times> item_row list \<Rightarrow> bool" where
  "owned_rows st \<longleftrightarrow> (case st of (ids, owners, rows) \<Rightarrow> map ir_id rows = ids \<and> distinct ids
     \<and> (\<forall>r \<in> set rows. chosen_rows (ir_item r) = Inr (ir_evidence r) \<and> (\<forall>eid \<in> row_ids (ir_evidence r). map_of owners eid = Some (ir_id r))))"

lemma claim_item_owned:
  assumes "claim_item env st v = Inr st'" and "owned_rows st"
  shows "owned_rows st'"
proof -
  obtain ids owners rows where st: "st = (ids, owners, rows)" by (cases st)
  from assms(1) obtain item kid ev owners' where v: "v = VDict item" and fresh: "kid \<notin> set ids" and ev: "chosen_rows item = Inr ev"
    and fold: "foldR (claim_row env kid) owners ev = Inr owners'"
    and st': "st' = (ids @ [kid], owners', rows @ [\<lparr>ir_item = item, ir_id = kid, ir_evidence = ev\<rparr>])"
    by (auto simp: claim_item_def st bindR_Inr_iff split: pyval.splits if_splits)
  have old: "map_of owners' eid = Some (ir_id r)" if "r \<in> set rows" and "eid \<in> row_ids (ir_evidence r)" for r eid
    using assms(2) that claim_rows_owner [OF fold] map_le_keeps unfolding st owned_rows_def by fast
  show ?thesis
    using assms(2) claim_rows_owner [OF fold] fresh ev old unfolding st st' owned_rows_def by auto
qed

lemma claim_items_same:
  assumes "foldR (claim_item env) (ids, owners, rows) items = Inr (ids', owners', rows')"
  shows "map (\<lambda>r. VDict (ir_item r)) rows' = map (\<lambda>r. VDict (ir_item r)) rows @ items"
  using assms
proof (induction items arbitrary: ids owners rows)
  case Nil
  then show ?case by simp
next
  case (Cons v items)
  then obtain mid where mid: "claim_item env (ids, owners, rows) v = Inr mid" "foldR (claim_item env) mid items = Inr (ids', owners', rows')"
    by (auto simp: bindR_Inr_iff)
  from mid(1) obtain item kid ev own where v: "v = VDict item" and m: "mid = (ids @ [kid], own, rows @ [\<lparr>ir_item = item, ir_id = kid, ir_evidence = ev\<rparr>])"
    by (auto simp: claim_item_def bindR_Inr_iff split: pyval.splits if_splits)
  show ?case using Cons.IH [OF mid(2) [unfolded m]] v by simp
qed

text \<open>In a validated v1 bundle the knowledge ids are distinct, every item selects its evidence by its own references, no evidence id selected
  by one item is selected by another, and every item is supported, active, grounded and has a primary row among those it selects.\<close>

theorem v1_evidence_has_one_owner:
  assumes "validate_v1 env expected data = Inr b"
  shows "\<exists>items (rows :: item_row list). get_item data ''items'' = VList items \<and> items = map (\<lambda>r. VDict (ir_item r)) rows \<and> distinct (map ir_id rows)
    \<and> (\<forall>r \<in> set rows. chosen_rows (ir_item r) = Inr (ir_evidence r) \<and> get_item (ir_item r) ''support_status'' \<in> support_statuses \<and> (\<exists>row \<in> set (ir_evidence r). is_primary_row row))
    \<and> (\<forall>r \<in> set rows. \<forall>r' \<in> set rows. row_ids (ir_evidence r) \<inter> row_ids (ir_evidence r') \<noteq> {} \<longrightarrow> ir_id r = ir_id r')"
proof -
  have its: "validate_items env data = Inr ()" using validate_v1_Inr [OF assms] by metis
  obtain items ids owners rows where items: "dict_get data ''items'' = Some (VList items)"
    and fold: "foldR (claim_item env) ([], [], []) items = Inr (ids, owners, rows)" and quality: "\<forall>r \<in> set rows. item_quality r = Inr ()"
    using validate_items_list [OF its] by metis
  have owned: "owned_rows (ids, owners, rows)"
    by (rule foldR_invariant [OF fold]) (simp_all add: owned_rows_def [of "([], [], [])"] claim_item_owned)
  have same: "items = map (\<lambda>r. VDict (ir_item r)) rows"
    using claim_items_same [OF fold] by simp
  have one: "\<forall>r \<in> set rows. \<forall>r' \<in> set rows. row_ids (ir_evidence r) \<inter> row_ids (ir_evidence r') \<noteq> {} \<longrightarrow> ir_id r = ir_id r'"
  proof (intro ballI impI)
    fix r r' assume r: "r \<in> set rows" "r' \<in> set rows" and "row_ids (ir_evidence r) \<inter> row_ids (ir_evidence r') \<noteq> {}"
    then obtain eid where "eid \<in> row_ids (ir_evidence r)" "eid \<in> row_ids (ir_evidence r')" by blast
    then have "map_of owners eid = Some (ir_id r)" "map_of owners eid = Some (ir_id r')"
      using owned r unfolding owned_rows_def prod.case by blast+
    then show "ir_id r = ir_id r'" by simp
  qed
  have "\<forall>r \<in> set rows. chosen_rows (ir_item r) = Inr (ir_evidence r) \<and> get_item (ir_item r) ''support_status'' \<in> support_statuses \<and> (\<exists>row \<in> set (ir_evidence r). is_primary_row row)"
    using owned quality by (auto simp: owned_rows_def item_quality_def Let_def)
  moreover have "distinct (map ir_id rows)" using owned by (auto simp: owned_rows_def)
  moreover have "get_item data ''items'' = VList items" using items by (simp add: get_item_def)
  ultimately show ?thesis using same one by (intro exI [of _ items] exI [of _ rows] conjI)
qed

subsection \<open>Contract v2: attribution and counts\<close>

definition row_id_list :: "pyval \<Rightarrow> string list" where
  "row_id_list v = (case v of VDict row \<Rightarrow> (case get_item row ''evidence_id'' of VStr eid \<Rightarrow> [eid] | _ \<Rightarrow> []) | _ \<Rightarrow> [])"

definition evidence_id_list :: "mapping \<Rightarrow> string list" where
  "evidence_id_list item = (case get_item item ''evidence'' of VList rows \<Rightarrow> concat (map row_id_list rows) | _ \<Rightarrow> [])"

lemma v2_row_Inr:
  assumes "v2_row seen v = Inr seen'"
  shows "\<exists>eid. row_id_list v = [eid] \<and> eid \<notin> set seen \<and> seen' = eid # seen"
  using assms by (auto simp: v2_row_def row_id_list_def split: pyval.splits if_splits)

lemma v2_rows_Inr:
  assumes "foldR v2_row seen rows = Inr seen'"
  shows "seen' = rev (concat (map row_id_list rows)) @ seen \<and> (distinct seen \<longrightarrow> distinct seen')"
  using assms
proof (induction rows arbitrary: seen)
  case Nil
  then show ?case by simp
next
  case (Cons v rows)
  then obtain mid where mid: "v2_row seen v = Inr mid" "foldR v2_row mid rows = Inr seen'"
    by (auto simp: bindR_Inr_iff)
  obtain eid where eid: "row_id_list v = [eid]" "eid \<notin> set seen" "mid = eid # seen"
    using v2_row_Inr [OF mid(1)] by blast
  note rest = Cons.IH [OF mid(2) [unfolded eid(3)]]
  have "distinct seen'" if "distinct seen" using rest eid(2) that by fastforce
  then show ?case using rest eid(1) by simp
qed

definition v2_item_safe :: "mapping \<Rightarrow> bool" where
  "v2_item_safe item \<longleftrightarrow> (needs_attribution item \<longrightarrow> (\<exists>a. get_item item ''attribution'' = VDict a \<and> is_attributed a))
     \<and> (\<exists>rows. get_item item ''evidence'' = VList rows \<and> v2_supported item rows)"

lemma v2_item_Inr:
  assumes "v2_item (ids, seen) v = Inr (ids', seen')"
  shows "\<exists>item kid. v = VDict item \<and> get_item item ''knowledge_id'' = VStr kid \<and> kid \<notin> set ids \<and> ids' = kid # ids \<and> v2_item_safe item
     \<and> seen' = rev (evidence_id_list item) @ seen \<and> (distinct seen \<longrightarrow> distinct seen')"
proof -
  obtain item where v: "v = VDict item" using assms by (auto simp: v2_item_def split: pyval.splits)
  obtain kid where kid: "get_item item ''knowledge_id'' = VStr kid" "kid \<notin> set ids" and claims: "v2_item_claims item = Inr ()"
    and rest: "(case get_item item ''evidence'' of
             VList rows \<Rightarrow> if rows = [] then Inl reference_error
               else bindR (foldR v2_row seen rows) (\<lambda>seen'. bindR (accept_if (v2_supported item rows) ''CONTENT_QUALITY_REJECTED'') (\<lambda>_. Inr (kid # ids, seen')))
           | _ \<Rightarrow> Inl reference_error) = Inr (ids', seen')"
    using assms unfolding v v2_item_def prod.case pyval.case by (cases "get_item item ''knowledge_id''") (auto simp: bindR_unit split: if_splits)
  obtain rows where rows: "get_item item ''evidence'' = VList rows" and fold: "foldR v2_row seen rows = Inr seen'" and sup: "v2_supported item rows" and ids': "ids' = kid # ids"
    using rest by (auto simp: bindR_Inr_iff split: pyval.splits if_splits)
  have "needs_attribution item \<longrightarrow> (\<exists>a. get_item item ''attribution'' = VDict a \<and> is_attributed a)"
    using claims by (auto simp: v2_item_claims_def bindR_Inr_iff split: pyval.splits)
  then have "v2_item_safe item" using rows sup by (auto simp: v2_item_safe_def)
  moreover have "evidence_id_list item = concat (map row_id_list rows)" using rows by (simp add: evidence_id_list_def)
  moreover from this have "seen' = rev (evidence_id_list item) @ seen" and "distinct seen \<longrightarrow> distinct seen'"
    using v2_rows_Inr [OF fold] by (simp only:, blast)
  ultimately show ?thesis using v kid ids' by blast
qed

lemma v2_items_Inr:
  assumes "foldR v2_item (ids, seen) vs = Inr (ids', seen')" and "distinct ids" and "distinct seen"
  shows "\<exists>items. vs = map VDict items \<and> (\<forall>item \<in> set items. v2_item_safe item)
     \<and> seen' = rev (concat (map evidence_id_list items)) @ seen \<and> distinct seen'
     \<and> (\<exists>kids. map (\<lambda>item. get_item item ''knowledge_id'') items = map VStr kids \<and> ids' = rev kids @ ids) \<and> distinct ids'"
  using assms
proof (induction vs arbitrary: ids seen)
  case Nil
  then show ?case by (intro exI [of _ "[]"]) simp
next
  case (Cons v vs)
  then obtain mid where mid: "v2_item (ids, seen) v = Inr mid" "foldR v2_item mid vs = Inr (ids', seen')"
    by (auto simp: bindR_Inr_iff)
  obtain i s where m: "mid = (i, s)" by (cases mid)
  obtain item kid where item: "v = VDict item" "get_item item ''knowledge_id'' = VStr kid" "kid \<notin> set ids" "i = kid # ids" "v2_item_safe item"
    "s = rev (evidence_id_list item) @ seen" "distinct s"
    using v2_item_Inr [OF mid(1) [unfolded m]] Cons.prems(3) by blast
  have "distinct i" using item Cons.prems(2) by simp
  from Cons.IH [OF mid(2) [unfolded m] this item(7)] obtain items kids where rest: "vs = map VDict items" "\<forall>item \<in> set items. v2_item_safe item"
    "seen' = rev (concat (map evidence_id_list items)) @ s" "distinct seen'" "map (\<lambda>item. get_item item ''knowledge_id'') items = map VStr kids"
    "ids' = rev kids @ i" "distinct ids'" by blast
  show ?case
    using item rest by (intro exI [of _ "item # items"] conjI exI [of _ "kid # kids"]) simp_all
qed

lemma dict_items_dicts [simp]: "dict_items (map VDict items) = items"
  by (induction items) (simp_all add: dict_items_def)

lemma quality_tallies:
  assumes "validate_v2_quality env data = Inr ()" and "get_item data ''items'' = VList (map VDict items)" and "get_item data ''quality'' = VDict q"
  shows "tally q ''grounded_count'' = int (length (filter v2_externally_grounded items))" and "tally q ''knowledge_count'' = int (length items)"
    and "tally q ''candidate_count'' = tally q ''knowledge_count'' + tally q ''truncated_candidate_count'' + tally q ''excluded_candidate_count''"
proof -
  have checks: "tallies_consistent q (length items)" "tallies_match env q items"
    using assms by (simp_all add: validate_v2_quality_def)
  from checks(2) have len: "length (filter v2_public_qualified items) = length items"
    and g: "tally q ''grounded_count'' = int (length (filter v2_externally_grounded (filter v2_public_qualified items)))"
    by (simp_all add: tallies_match_def Let_def)
  have "filter v2_public_qualified items = items" using len by (metis filter_id_conv length_filter_less less_irrefl)
  then show "tally q ''grounded_count'' = int (length (filter v2_externally_grounded items))" using g by simp
  show "tally q ''knowledge_count'' = int (length items)"
    and "tally q ''candidate_count'' = tally q ''knowledge_count'' + tally q ''truncated_candidate_count'' + tally q ''excluded_candidate_count''"
    using checks(1) unfolding tallies_consistent_def by linarith+
qed

text \<open>C39: In a validated v2 bundle knowledge ids and evidence ids are globally distinct; an opinion, forecast or causal thesis, and a secondary statement that
  was not verified, is attributed to a labelled source; every item has a primary transcript row; and the grounded count of the bundle counts exactly the
  items of a primary source that were verified externally, whatever their nature, so that it never counts an item of a secondary source.\<close>

theorem v2_opinions_stay_attributed:
  assumes "validate_v2 env expected data = Inr b"
  shows "\<exists>items kids q. get_item data ''items'' = VList (map VDict items) \<and> map (\<lambda>item. get_item item ''knowledge_id'') items = map VStr kids \<and> distinct kids
    \<and> distinct (concat (map evidence_id_list items)) \<and> (\<forall>item \<in> set items. v2_item_safe item) \<and> get_item data ''quality'' = VDict q
    \<and> tally q ''grounded_count'' = int (length (filter v2_externally_grounded items))
    \<and> tally q ''grounded_count'' + int (length (filter (\<lambda>item. get_item item ''source_grade'' = VStr ''SECONDARY'') items)) \<le> int (length items)
    \<and> tally q ''candidate_count'' = int (length items) + tally q ''truncated_candidate_count'' + tally q ''excluded_candidate_count''"
proof -
  have its: "validate_v2_items data = Inr ()" and quality: "validate_v2_quality env data = Inr ()"
    using validate_v2_Inr [OF assms] by metis+
  obtain q vs where q: "get_item data ''quality'' = VDict q" and vs: "get_item data ''items'' = VList vs"
    using quality by (auto simp: validate_v2_quality_def split: pyval.splits)
  have "dict_get data ''items'' = Some (VList vs)" using vs by (auto simp: get_item_def split: option.splits)
  then obtain ids seen where fold: "foldR v2_item ([], []) vs = Inr (ids, seen)"
    using its by (auto simp: validate_v2_items_def bundle_items_def iterated_def bindR_Inr_iff)
  obtain items kids where items: "vs = map VDict items" "\<forall>item \<in> set items. v2_item_safe item" "distinct (concat (map evidence_id_list items))"
    "map (\<lambda>item. get_item item ''knowledge_id'') items = map VStr kids" "distinct kids"
    using v2_items_Inr [OF fold] by auto
  note tallies = quality_tallies [OF quality vs [unfolded items(1)] q]
  have "length (filter v2_externally_grounded items) + length (filter (\<lambda>item. get_item item ''source_grade'' = VStr ''SECONDARY'') items) \<le> length items"
    by (induction items) (auto simp: v2_externally_grounded_def)
  then have "tally q ''grounded_count'' + int (length (filter (\<lambda>item. get_item item ''source_grade'' = VStr ''SECONDARY'') items)) \<le> int (length items)"
    using tallies(1) by simp
  then show ?thesis
    using vs items q tallies by (intro exI [of _ items] exI [of _ kids] exI [of _ q] conjI) simp_all
qed

subsection \<open>Order of the fields\<close>

lemma c14n_fields_map: "c14n_fields env d = map (\<lambda>(k, v). (ve_nfc env k, c14n env (Some (ve_nfc env k)) v)) d"
  by (induction d) auto

lemma dict_set_new:
  assumes "k \<notin> fst ` set d"
  shows "dict_set d k v = d @ [(k, v)]"
  using assms by (induction d k v rule: dict_set.induct) auto

lemma foldl_dict_set:
  assumes "distinct (map fst (d @ fs))"
  shows "foldl (\<lambda>d (k, r). dict_set d k r) d fs = d @ fs"
  using assms
proof (induction fs arbitrary: d)
  case Nil
  then show ?case by simp
next
  case (Cons kr fs)
  obtain k r where kr: "kr = (k, r)" by (cases kr)
  have "dict_set d k r = d @ [(k, r)]" using Cons.prems kr by (intro dict_set_new) auto
  then show ?case using Cons.IH [of "d @ [(k, r)]"] Cons.prems kr by simp
qed

lemma sort_fields_permuted:
  assumes "mset e = mset d" and "distinct (map fst d)"
  shows "sort_key fst e = sort_key fst d"
proof (rule sort_key_inj_key_eq)
  show "mset e = mset (sort_key fst d)" using assms(1) by simp
  have "distinct (map fst e)" using assms by (metis mset_map mset_eq_imp_distinct_iff)
  then show "inj_on fst (set e)" by (simp add: distinct_map)
qed simp

lemma c14n_permuted:
  assumes "mset e = mset d" and "distinct (map (\<lambda>(k, _). ve_nfc env k) d)"
  shows "c14n env parent (VDict e) = c14n env parent (VDict d)"
proof -
  have keys: "map fst (c14n_fields env x) = map (\<lambda>(k, _). ve_nfc env k) x" for x
    by (simp add: c14n_fields_map case_prod_unfold comp_def)
  have m: "mset (c14n_fields env e) = mset (c14n_fields env d)"
    using assms(1) by (simp add: c14n_fields_map)
  have d: "distinct (map fst (c14n_fields env d))" using assms(2) by (simp add: keys)
  then have e: "distinct (map fst (c14n_fields env e))" using m by (metis mset_map mset_eq_imp_distinct_iff)
  have "foldl (\<lambda>d (k, r). dict_set d k r) [] (c14n_fields env x) = c14n_fields env x" if "distinct (map fst (c14n_fields env x))" for x
    using foldl_dict_set [of "[]" "c14n_fields env x"] that by simp
  then show ?thesis
    using sort_fields_permuted [OF m d] d e by (simp add: dict_text_def)
qed

lemma get_item_permuted:
  assumes "mset e = mset d" and "distinct (map fst d)"
  shows "get_item e k = get_item d k"
proof -
  have "distinct (map fst e)" using assms by (metis mset_map mset_eq_imp_distinct_iff)
  moreover have "set e = set d" using assms(1) by (rule mset_eq_setD)
  ultimately have "map_of e = map_of d" using assms(2) by (simp add: map_of_inject_set)
  then show ?thesis by (simp add: get_item_def dict_get_def)
qed

text \<open>The identity of a bundle does not depend on the order in which its fields arrive: when the normalized field names are distinct, any
  reordering of them has the same verdict of the integrity check and the same id and hash.\<close>

theorem integrity_ignores_field_order:
  assumes "mset e = mset d" and "distinct (map (\<lambda>(k, _). ve_nfc env k) d)"
  shows "verify_integrity env e = verify_integrity env d"
proof -
  have "distinct (map (\<lambda>(k, _). ve_nfc env k) (material d))"
    unfolding material_def by (rule distinct_map_filter [OF assms(2)])
  moreover have "mset (material e) = mset (material d)"
    using assms(1) by (simp add: material_def)
  ultimately have "canonical_json env (material e) = canonical_json env (material d)"
    unfolding canonical_json_def by (intro c14n_permuted)
  moreover have "get_item e k = get_item d k" for k
  proof (rule get_item_permuted [OF assms(1)])
    show "distinct (map fst d)" using assms(2) by (auto simp: distinct_map inj_on_def case_prod_unfold dest: arg_cong)
  qed
  ultimately show ?thesis by (simp only: verify_integrity_def)
qed

subsection \<open>Concrete bundles\<close>

text \<open>The digest of a sample is the length of its content, padded to 64 digits.\<close>

definition padded :: "string \<Rightarrow> string" where
  "padded n = replicate (64 - length n) CHR ''0'' @ n"

definition sample_env :: validator_env where
  "sample_env = \<lparr>ve_format = \<lambda>_ _. True, ve_sha = \<lambda>s. padded (nat_text (length s)), ve_nfc = \<lambda>s. s,
     ve_instant = \<lambda>s. if s = ''2026-01-05T09:00:00Z'' then Some 1767603600 else if s = ''2026-01-02T09:00:00Z'' then Some 1767344400 else None,
     ve_iso = \<lambda>i. if i = 1767603600 then ''2026-01-05T09:00:00Z'' else ''2026-01-02T09:00:00Z'',
     ve_url = \<lambda>_. \<lparr>up_scheme = ''https'', up_host = ''example.org'', up_bare = True, up_global_ip = None\<rparr>,
     ve_has_digit = \<lambda>s. \<exists>c \<in> set s. is_digit c\<rparr>"

definition sample_request :: mapping where
  "sample_request = [(''content_snapshot_id'', VStr ''snap-7''), (''query'', VStr ''margin''), (''symbol'', VStr ''600519''), (''business_as_of'', VStr ''2026-01-05T09:00:00Z''),
     (''knowledge_as_of'', VStr ''2026-01-05T09:00:00Z''), (''availability_as_of'', VStr ''2026-01-05T09:00:00Z''), (''minimum_support_status'', VStr ''SOURCE_SUPPORTED''),
     (''max_items'', VInt 5), (''policy'', VStr ''PUBLIC_STRICT''), (''policy_version'', VStr policy_version)]"

definition sample_query :: bundle_request where
  "sample_query = \<lparr>kb_snapshot = ''snap-7'', kb_query = '' margin'', kb_symbol = ''600519'', kb_business = Some 1767603600, kb_knowledge = Some 1767603600,
     kb_availability = Some 1767603600, kb_support = ''SOURCE_SUPPORTED'', kb_max_items = 5, kb_policy = ''PUBLIC_STRICT'', kb_policy_version = policy_version, kb_contract = contract_v1\<rparr>"

definition sample_producer :: "string \<Rightarrow> mapping" where
  "sample_producer checksum = [(''service'', VStr ''stock_content''), (''service_version'', VStr ''1''), (''git_commit'', VStr ''abc''),
     (''pipeline_version'', VStr ''1''), (''contract_checksum'', VStr checksum)]"

definition sample_source :: mapping where
  "sample_source = [(''source_type'', VStr ''video''), (''source_identity_hash'', VStr ''h1''), (''source_version_id'', VStr ''v1''),
     (''canonical_url'', VStr ''https://example.org''), (''source_content_hash'', VStr ''h2'')]"

definition sample_claim :: mapping where
  "sample_claim = [(''knowledge_id'', VStr ''k1''), (''claim_id'', VStr ''c1''), (''occurrence_id'', VStr ''o1''), (''statement'', VStr ''margin grows''),
     (''subject'', VDict [(''type'', VStr ''stock''), (''key'', VStr ''600519'')]), (''predicate'', VStr ''grows''), (''object'', VDict [(''value'', VNone), (''unit'', VNone)]),
     (''support_status'', VStr ''SOURCE_SUPPORTED''), (''lifecycle_status'', VStr ''ACTIVE''), (''grounding_status'', VStr ''GROUNDED''),
     (''verification'', VDict [(''status'', VStr ''ok''), (''reason_codes'', VList [])])]"

definition sample_item_v1 :: mapping where
  "sample_item_v1 = sample_claim @
     [(''temporal'', VDict [(''target_start'', VStr ''2026-01-02T09:00:00Z''), (''target_end'', VStr ''2026-01-02T09:00:00Z''), (''precision'', VStr ''day'')]),
      (''evidence'', VList [VDict [(''evidence_id'', VStr ''e1''), (''ownership'', VStr ''PRIMARY''), (''artifact_id'', VStr ''a1''), (''segment_id'', VStr ''s1''),
        (''start_ms'', VInt 0), (''end_ms'', VInt 9), (''quote'', VStr ''margin''), (''quote_hash'', VStr ''h3''), (''modality'', VStr ''transcript'')]])]"

definition sample_clocks :: mapping where
  "sample_clocks = [(''business_as_of'', VStr ''2026-01-05T09:00:00Z''), (''knowledge_as_of'', VStr ''2026-01-05T09:00:00Z''), (''availability_as_of'', VStr ''2026-01-05T09:00:00Z'')]"

definition sample_digests :: "string \<Rightarrow> string \<Rightarrow> mapping" where
  "sample_digests asked digest = [(''request_hash'', VStr (''sha256:'' @ padded asked)), (''bundle_id'', VStr (''ckb_'' @ padded digest)), (''bundle_hash'', VStr (''sha256:'' @ padded digest))]"

definition sample_v1 :: "string \<Rightarrow> string \<Rightarrow> mapping" where
  "sample_v1 asked digest = [(''contract'', VStr contract_v1), (''schema_version'', VStr ''1.0.0''), (''canonicalization_version'', VStr ''content-bundle-c14n-v1''),
     (''producer'', VDict (sample_producer checksum_v1)), (''request'', VDict sample_request), (''content_snapshot_id'', VStr ''snap-7''), (''query'', VStr ''margin''),
     (''items'', VList [VDict sample_item_v1]), (''source'', VDict sample_source),
     (''quality'', VDict [(''knowledge_count'', VInt 1), (''warnings'', VList []), (''grounded_ratio'', VInt 1), (''numeric_grounded_ratio'', VInt 0)])]
     @ sample_clocks @ sample_digests asked digest"

definition sample_item_v2 :: mapping where
  "sample_item_v2 = sample_claim @
     [(''primary_domain'', VStr ''UNKNOWN''), (''claim_nature'', VStr ''OPINION''), (''attribution'', VDict [(''attributed'', VBool True), (''source_label'', VStr ''host'')]),
      (''source_grade'', VStr ''SECONDARY''), (''external_truth_status'', VStr ''NOT_CHECKED''), (''detail'', VDict [(''mechanism'', VStr ''pricing'')]),
      (''occurrence_review'', VDict [(''status'', VStr ''NOT_REQUIRED''), (''reason_codes'', VList [])]),
      (''temporal'', VDict [(''kind'', VStr ''AS_OF''), (''start'', VNone), (''end'', VNone), (''as_of'', VStr ''2026-01-02T09:00:00Z''), (''rule'', VNone), (''label'', VNone),
        (''precision'', VStr ''day''), (''explicitly_unknown'', VBool False)]),
      (''evidence'', VList [VDict [(''evidence_id'', VStr ''e1''), (''ownership'', VStr ''PRIMARY''), (''modality'', VStr ''transcript''), (''artifact_id'', VStr ''a1''),
        (''artifact_hash'', VStr (''sha256:'' @ padded ''1'')), (''content'', VStr ''margin''),
        (''locator'', VDict [(''segment_id'', VStr ''s1''), (''frame_id'', VNone), (''start_ms'', VInt 0), (''end_ms'', VInt 9), (''bbox'', VNone)])]])]"

definition sample_counts :: mapping where
  "sample_counts = [(''warnings'', VList []), (''candidate_count'', VInt 2), (''eligible_candidate_count'', VInt 1), (''excluded_candidate_count'', VInt 1),
     (''truncated_candidate_count'', VInt 0), (''knowledge_count'', VInt 1), (''grounded_count'', VInt 0), (''numeric_candidate_count'', VInt 0), (''numeric_grounded_count'', VInt 0),
     (''human_review_required_count'', VInt 1), (''conflict_count'', VInt 0), (''secondary_only_count'', VInt 1), (''external_truth_not_checked_count'', VInt 1),
     (''grounded_ratio'', VInt 0), (''numeric_grounded_ratio'', VInt 0)]"

definition sample_v2 :: "string \<Rightarrow> string \<Rightarrow> mapping" where
  "sample_v2 asked digest = [(''contract'', VStr contract_v2), (''schema_version'', VStr ''2.0.0''), (''canonicalization_version'', VStr ''content-bundle-c14n-v2''),
     (''producer'', VDict (sample_producer checksum_v2)),
     (''request'', VDict (sample_request @ [(''contract_version'', VStr contract_v2), (''subject_scope'', VStr ''SUBJECT_ONLY'')])),
     (''scope'', VDict [(''subject_scope'', VStr ''SUBJECT_ONLY''), (''requested_subject'', VStr ''600519'')]), (''content_snapshot_id'', VStr ''snap-7''),
     (''query'', VStr ''margin''), (''source'', VDict sample_source), (''items'', VList [VDict sample_item_v2]), (''quality'', VDict sample_counts)]
     @ sample_clocks @ sample_digests asked digest"

lemma sample_v1_valid: "\<exists>b. validate_v1 sample_env (Some sample_query) (sample_v1 ''319'' ''1769'') = Inr b"
proof -
  have "\<not> isl (validate_v1 sample_env (Some sample_query) (sample_v1 ''319'' ''1769''))" by code_simp
  then show ?thesis by (rule not_islE) blast
qed

lemma sample_v2_valid: "\<exists>b. validate_v2 sample_env None (sample_v2 ''399'' ''2646'') = Inr b"
proof -
  have "\<not> isl (validate_v2 sample_env None (sample_v2 ''399'' ''2646''))" by code_simp
  then show ?thesis by (rule not_islE) blast
qed

lemma validated_bundle_identity_witness:
  "\<exists>b. validate_bundle sample_env (Some sample_query) (sample_v1 ''319'' ''1769'') = Inr b \<and> (\<exists>request content asked. cb_payload b = sample_v1 ''319'' ''1769'' \<and> get_item (sample_v1 ''319'' ''1769'') ''request'' = VDict request
    \<and> canonical_json sample_env (material (sample_v1 ''319'' ''1769'')) = Inr content \<and> cb_id b = ''ckb_'' @ ve_sha sample_env content \<and> cb_hash b = ''sha256:'' @ ve_sha sample_env content
    \<and> canonical_json sample_env request = Inr asked \<and> cb_request_hash b = ''sha256:'' @ ve_sha sample_env asked
    \<and> (\<forall>q. Some sample_query = Some q \<longrightarrow> (\<exists>p. bundle_request_payload sample_env q = Inr p \<and> bundle_request_hash sample_env p = Inr (cb_request_hash b))))"
proof -
  obtain b where "validate_v1 sample_env (Some sample_query) (sample_v1 ''319'' ''1769'') = Inr b" using sample_v1_valid by blast
  then have b: "validate_bundle sample_env (Some sample_query) (sample_v1 ''319'' ''1769'') = Inr b"
    by (simp add: validate_bundle_def sample_v1_def contract_v1_def contract_v2_def)
  show ?thesis by (rule exI [of _ b]) (rule conjI [OF b validated_bundle_identity [OF b]])
qed

lemma v2_bundle_is_point_in_time_witness:
  "\<exists>request items business knowledge available. get_item (sample_v2 ''399'' ''2646'') ''request'' = VDict request
    \<and> get_item (sample_v2 ''399'' ''2646'') ''items'' = VList (map VDict items)
    \<and> map (\<lambda>n. ve_instant sample_env (py_str (get_item (sample_v2 ''399'' ''2646'') n))) clock_names = map Some [business, knowledge, available]
    \<and> map (\<lambda>n. ve_instant sample_env (py_str (get_item request n))) clock_names = map Some [business, knowledge, available]
    \<and> (\<forall>item \<in> set items. \<exists>t. get_item item ''temporal'' = VDict t \<and> dated_by sample_env available t)"
proof -
  obtain b where b: "validate_v2 sample_env None (sample_v2 ''399'' ''2646'') = Inr b" using sample_v2_valid by blast
  show ?thesis by (rule v2_bundle_is_point_in_time [OF b])
qed

lemma v1_evidence_has_one_owner_witness:
  "\<exists>items (rows :: item_row list). get_item (sample_v1 ''319'' ''1769'') ''items'' = VList items \<and> items = map (\<lambda>r. VDict (ir_item r)) rows \<and> distinct (map ir_id rows)
    \<and> (\<forall>r \<in> set rows. chosen_rows (ir_item r) = Inr (ir_evidence r) \<and> get_item (ir_item r) ''support_status'' \<in> support_statuses \<and> (\<exists>row \<in> set (ir_evidence r). is_primary_row row))
    \<and> (\<forall>r \<in> set rows. \<forall>r' \<in> set rows. row_ids (ir_evidence r) \<inter> row_ids (ir_evidence r') \<noteq> {} \<longrightarrow> ir_id r = ir_id r')"
proof -
  obtain b where b: "validate_v1 sample_env (Some sample_query) (sample_v1 ''319'' ''1769'') = Inr b" using sample_v1_valid by blast
  show ?thesis by (rule v1_evidence_has_one_owner [OF b])
qed

lemma v2_opinions_stay_attributed_witness:
  "\<exists>items kids q. get_item (sample_v2 ''399'' ''2646'') ''items'' = VList (map VDict items) \<and> map (\<lambda>item. get_item item ''knowledge_id'') items = map VStr kids \<and> distinct kids
    \<and> distinct (concat (map evidence_id_list items)) \<and> (\<forall>item \<in> set items. v2_item_safe item) \<and> get_item (sample_v2 ''399'' ''2646'') ''quality'' = VDict q
    \<and> tally q ''grounded_count'' = int (length (filter v2_externally_grounded items))
    \<and> tally q ''grounded_count'' + int (length (filter (\<lambda>item. get_item item ''source_grade'' = VStr ''SECONDARY'') items)) \<le> int (length items)
    \<and> tally q ''candidate_count'' = int (length items) + tally q ''truncated_candidate_count'' + tally q ''excluded_candidate_count''"
proof -
  obtain b where b: "validate_v2 sample_env None (sample_v2 ''399'' ''2646'') = Inr b" using sample_v2_valid by blast
  show ?thesis by (rule v2_opinions_stay_attributed [OF b])
qed

lemma integrity_ignores_field_order_witness:
  "verify_integrity sample_env (rev (sample_v1 ''319'' ''1769'')) = verify_integrity sample_env (sample_v1 ''319'' ''1769'')"
  by (rule integrity_ignores_field_order) (simp_all add: sample_v1_def sample_env_def sample_clocks_def sample_digests_def)

end
