(* ===== verification/Lineage.thy ===== *)
theory Lineage
  imports KnowledgeRun BundleRules
begin

text \<open>
  Lineage of a succeeded conclusion, rebuilt from the stored run alone (\<open>app/application/knowledge_conclusion/lineage.py\<close>, views of
  \<open>app/domain/knowledge_conclusion_lineage.py\<close>): the run of the repository, the identity of its frozen bundle under the producer's encoding,
  its result hash, the ownership graph of the bundle and the stored citations, then one appended audit. Arguments are those of the run service
  (\<open>kc_env\<close>) and of the bundle encoding (\<open>validator_env\<close>), the uuid and the clock reading of the audit. Metrics are not modelled.
\<close>

subsection \<open>Views\<close>

record source_node =
  sn_id :: string
  sn_type :: "string option"
  sn_title :: "string option"

record lineage_transcript =
  lt_artifact :: string
  lt_node :: string
  lt_start :: "int option"
  lt_end :: "int option"

record lineage_evidence =
  le_id :: string
  le_knowledge :: string
  le_transcript :: "string option"
  le_claim :: string
  le_occurrence :: string

record lineage =
  lg_conclusion :: string
  lg_snapshot :: string
  lg_bundle_id :: string
  lg_bundle_hash :: string
  lg_result_hash :: string
  lg_sources :: "source_node list"
  lg_transcripts :: "lineage_transcript list"
  lg_evidence :: "lineage_evidence list"
  lg_claims :: "(string \<times> string) list"
  lg_occurrences :: "(string \<times> string \<times> string) list"
  lg_findings :: "kc_citation list"
  lg_producer :: string
  lg_checksum :: string
  lg_model :: conclusion_model
  lg_meta :: audit_metadata

definition lineage_error :: "string \<Rightarrow> exc" where
  "lineage_error detail = PyExc ''LineageIntegrityError'' detail"

definition demand :: "bool \<Rightarrow> string \<Rightarrow> unit result" where
  "demand ok detail = (if ok then Inr () else Inl (lineage_error detail))"

lemma demand_Inr [simp]: "demand ok detail = Inr u \<longleftrightarrow> ok"
  by (simp add: demand_def)

text \<open>Some exceptions of a call are raised as a lineage error.\<close>

definition raised_as :: "(exc \<Rightarrow> bool) \<Rightarrow> string \<Rightarrow> 'a result \<Rightarrow> 'a result" where
  "raised_as caught detail r = (case r of Inl e \<Rightarrow> Inl (if caught e then lineage_error detail else e) | Inr x \<Rightarrow> Inr x)"

lemma raised_as_Inr [simp]: "raised_as caught detail r = Inr x \<longleftrightarrow> r = Inr x"
  by (simp add: raised_as_def split: sum.splits)

subsection \<open>Fields of frozen rows\<close>

definition named_id :: "mapping \<Rightarrow> string list \<Rightarrow> string result" where
  "named_id row names = (case first_text row names [] of [] \<Rightarrow> Inl (lineage_error ''lineage identifier missing'') | c # cs \<Rightarrow> Inr (c # cs))"

text \<open>The length of a text in code points: its bytes without the continuation bytes.\<close>

definition points :: "string \<Rightarrow> nat" where
  "points s = length (filter (\<lambda>c. let n = of_char c :: nat in n < 128 \<or> 192 \<le> n) s)"

definition private_words :: "string list" where
  "private_words = [''http://'', ''https://'', ''secret'', ''token'', ''cookie'', ''authorization'', ''header'', ''signed'']"

definition safe_public :: "pyval \<Rightarrow> string option" where
  "safe_public v = (case nonblank_str v of None \<Rightarrow> None
     | Some s \<Rightarrow> if 256 < points s \<or> (\<exists>w \<in> set private_words. str_in w (str_lower s)) then None else Some s)"

definition milliseconds :: "pyval \<Rightarrow> int option result" where
  "milliseconds v = (case v of VNone \<Rightarrow> Inr None
     | VInt n \<Rightarrow> if 0 \<le> n then Inr (Some n) else Inl (lineage_error ''transcript timestamps must be nonnegative milliseconds'')
     | _ \<Rightarrow> Inl (lineage_error ''transcript timestamps must be nonnegative milliseconds''))"

definition in_order :: "int option \<Rightarrow> int option \<Rightarrow> bool" where
  "in_order a z = (case (a, z) of (Some x, Some y) \<Rightarrow> x \<le> y | _ \<Rightarrow> True)"

subsection \<open>The frozen bundle\<close>

definition frozen_identity :: "validator_env \<Rightarrow> frozen_bundle \<Rightarrow> unit result" where
  "frozen_identity venv b =
     bindR (raised_as (\<lambda>e. exc_class e = ''BundleValidationError'') ''frozen bundle integrity mismatch'' (verify_integrity venv (fb_payload b))) (\<lambda>(i, h).
     demand (i = fb_bundle_id b \<and> h = fb_bundle_hash b) ''frozen bundle identifier mismatch'')"

text \<open>The knowledge rows by id, a later row of an id in the place of the first one.\<close>

definition graph_rows :: "mapping \<Rightarrow> knowledge_record list" where
  "graph_rows payload = map snd (foldl (\<lambda>d k. dict_set d (kn_id k) k) [] (bundle_graph payload))"

definition cited_ids :: "finding list \<Rightarrow> string list" where
  "cited_ids findings = sort (remdups (concat (map fd_evidence_ids findings)))"

type_synonym edge_row = "lineage_evidence \<times> lineage_transcript option"

definition edge_row :: "string \<Rightarrow> mapping \<Rightarrow> knowledge_record list \<Rightarrow> string \<Rightarrow> edge_row result" where
  "edge_row node payload ks eid = (case evidence_by_id ks eid of
     None \<Rightarrow> Inl (lineage_error ''cited evidence missing from frozen graph'')
   | Some e \<Rightarrow> (case knowledge_by_id payload (er_knowledge e) of
       None \<Rightarrow> Inl (lineage_error ''evidence knowledge ownership missing'')
     | Some k \<Rightarrow>
         bindR (named_id (kn_raw k) [''claim_id'']) (\<lambda>claim.
         bindR (named_id (kn_raw k) [''occurrence_id'', ''claim_occurrence_id'']) (\<lambda>occurrence.
         bindR (milliseconds (get_item (er_raw e) ''start_ms'')) (\<lambda>a.
         bindR (milliseconds (get_item (er_raw e) ''end_ms'')) (\<lambda>z.
         bindR (demand (in_order a z) ''transcript range is reversed'') (\<lambda>_.
         let artifact = safe_public (get_item (er_raw e) ''artifact_id'') in
         Inr (\<lparr>le_id = eid, le_knowledge = er_knowledge e, le_transcript = artifact, le_claim = claim, le_occurrence = occurrence\<rparr>,
              map_option (\<lambda>t. \<lparr>lt_artifact = t, lt_node = node, lt_start = a, lt_end = z\<rparr>) artifact))))))))"

text \<open>\<open>row.start_ms or -1\<close>.\<close>

definition or_minus :: "int option \<Rightarrow> int" where
  "or_minus t = (case t of None \<Rightarrow> - 1 | Some n \<Rightarrow> if n = 0 then - 1 else n)"

definition transcript_order :: "lineage_transcript list \<Rightarrow> lineage_transcript list" where
  "transcript_order ts = sort_key lt_artifact (sort_key (\<lambda>t. or_minus (lt_start t)) (sort_key (\<lambda>t. or_minus (lt_end t)) (dedup ts)))"

record frozen_edges =
  fe_sources :: "source_node list"
  fe_transcripts :: "lineage_transcript list"
  fe_evidence :: "lineage_evidence list"

definition bundle_edges :: "validator_env \<Rightarrow> mapping \<Rightarrow> finding list \<Rightarrow> frozen_edges result" where
  "bundle_edges venv payload findings = (case get_item payload ''source'' of
     VDict source \<Rightarrow>
       bindR (canonical_json venv source) (\<lambda>source_text.
       let node = ''source-node:'' @ ve_sha venv source_text; ks = graph_rows payload; ids = cited_ids findings in
       bindR (demand (\<forall>i \<in> set ids. evidence_by_id ks i \<noteq> None) ''cited evidence missing from frozen graph'') (\<lambda>_.
       bindR (mapR (edge_row node payload ks) ids) (\<lambda>rows.
       Inr \<lparr>fe_sources = (if ids = [] then [] else [\<lparr>sn_id = node, sn_type = safe_public (py_or (get_item source ''source_type'') (get_item source ''kind'')),
              sn_title = safe_public (get_item source ''title'')\<rparr>]),
            fe_transcripts = transcript_order (concat (map (\<lambda>(_, t). case t of None \<Rightarrow> [] | Some x \<Rightarrow> [x]) rows)),
            fe_evidence = map fst rows\<rparr>)))
   | _ \<Rightarrow> Inl (lineage_error ''frozen source record missing''))"

definition claim_pairs :: "lineage_evidence list \<Rightarrow> (string \<times> string) list" where
  "claim_pairs es = sort_key fst (map (\<lambda>e. (le_claim e, le_id e)) es)"

definition occurrence_rows :: "lineage_evidence list \<Rightarrow> (string \<times> string \<times> string) list" where
  "occurrence_rows es = sort_key fst (sort_key (\<lambda>(_, c, _). c) (map (\<lambda>e. (le_occurrence e, le_claim e, le_id e)) es))"

definition citation_order :: "kc_citation list \<Rightarrow> kc_citation list" where
  "citation_order cs = sort_key ct_finding_index (sort_key ct_knowledge (sort_key ct_evidence cs))"

definition lineage_citations :: "kc_env \<Rightarrow> mapping \<Rightarrow> conclusion \<Rightarrow> kc_citation list \<Rightarrow> kc_citation list result" where
  "lineage_citations env payload c stored =
     bindR (result_citations env payload c) (\<lambda>cits.
     bindR (demand (distinct cits \<and> distinct stored) ''duplicate citation edge'') (\<lambda>_.
     bindR (demand (set stored = set cits) ''citation missing, mis-owned, or tampered'') (\<lambda>_. Inr (citation_order cits))))"

subsection \<open>Reconstruction and audit\<close>

definition fallback_reason :: "(string \<times> mapping) list \<Rightarrow> string option" where
  "fallback_reason events = foldl (\<lambda>acc (mode, detail). if mode = ''MODEL_FALLBACK'' then (case get_item detail ''reason'' of VStr s \<Rightarrow> Some s | _ \<Rightarrow> acc) else acc) None events"

definition opt_int :: "int option \<Rightarrow> pyval" where
  "opt_int t = (case t of None \<Rightarrow> VNone | Some n \<Rightarrow> VInt n)"

definition citation_dicts :: "kc_citation list \<Rightarrow> pyval" where
  "citation_dicts cs = VList (map (\<lambda>c. VDict [(''finding_index'', VInt (ct_finding_index c)), (''knowledge_id'', VStr (ct_knowledge c)), (''evidence_id'', VStr (ct_evidence c)),
     (''quote_hash'', VStr (ct_quote_hash c)), (''quote_hash_provenance'', VStr (ct_provenance c))]) cs)"

definition identity_material :: "lineage \<Rightarrow> mapping" where
  "identity_material v =
     [(''sources'', VList (map (\<lambda>n. VDict [(''source_node_id'', VStr (sn_id n)), (''source_type'', opt_str (sn_type n)), (''title'', opt_str (sn_title n))]) (lg_sources v))),
      (''transcripts'', VList (map (\<lambda>t. VDict [(''transcript_artifact_id'', VStr (lt_artifact t)), (''source_node_id'', VStr (lt_node t)), (''start_ms'', opt_int (lt_start t)),
         (''end_ms'', opt_int (lt_end t))]) (lg_transcripts v))),
      (''evidence'', VList (map (\<lambda>e. VDict [(''evidence_id'', VStr (le_id e)), (''knowledge_id'', VStr (le_knowledge e)), (''transcript_artifact_id'', opt_str (le_transcript e)),
         (''claim_id'', VStr (le_claim e)), (''occurrence_id'', VStr (le_occurrence e))]) (lg_evidence v))),
      (''claims'', VList (map (\<lambda>(c, e). VDict [(''claim_id'', VStr c), (''evidence_id'', VStr e)]) (lg_claims v))),
      (''occurrences'', VList (map (\<lambda>(q, c, e). VDict [(''occurrence_id'', VStr q), (''claim_id'', VStr c), (''evidence_id'', VStr e)]) (lg_occurrences v))),
      (''citations'', citation_dicts (lg_findings v))]"

definition audit_payload :: "kc_env \<Rightarrow> kc_run \<Rightarrow> lineage \<Rightarrow> string option \<Rightarrow> string \<Rightarrow> mapping" where
  "audit_payload env r v reason audit_id =
     [(''audit_id'', VStr audit_id), (''conclusion_id'', VStr (lg_conclusion v)), (''raw_request_hash'', VStr (kr_raw_hash r)),
      (''effective_request_hash'', VStr (kr_effective_hash r)), (''bundle_hash'', VStr (lg_bundle_hash v)), (''result_hash'', VStr (lg_result_hash v)),
      (''model_mode'', VStr (mode_text (cm_mode (lg_model v)))), (''model_provider'', VStr (cm_provider (lg_model v))), (''model_name'', VStr (cm_model (lg_model v))),
      (''prompt_version'', VStr (cm_prompt_version (lg_model v))), (''fallback_reason'', opt_str reason), (''profile'', VStr (am_profile (lg_meta v))),
      (''trace_id'', VStr (am_trace_id (lg_meta v))), (''producer_sha'', VStr (lg_producer v)), (''contract_checksum'', VStr (lg_checksum v)),
      (''consumer_sha'', VStr (am_consumer_sha (lg_meta v))), (''citations'', citation_dicts (lg_findings v)),
      (''lineage_identity_hash'', VStr (kv_digest env (VDict (identity_material v))))]"

definition append_audit :: "kc_env \<Rightarrow> string \<Rightarrow> py_datetime \<Rightarrow> kc_run \<Rightarrow> lineage \<Rightarrow> kc_store \<Rightarrow> unit result \<times> kc_store" where
  "append_audit env audit_id now r v s =
     (let reason = fallback_reason (audit_events (kr_conclusion_id r) s) in
      if cm_mode (lg_model v) = FALLBACK \<and> falsy_text reason then (Inl (lineage_error ''fallback audit reason missing''), s)
      else (let payload = audit_payload env r v reason audit_id in
        (Inr (), snd (append_lineage_audit (payload @ [(''audit_hash'', VStr (kv_digest env (VDict payload))), (''recorded_at'', VStr (kv_clock_text env now))]) s))))"

definition view_checks :: "kc_env \<Rightarrow> validator_env \<Rightarrow> kc_run \<Rightarrow> frozen_bundle \<Rightarrow> conclusion \<Rightarrow> string \<Rightarrow> unit result" where
  "view_checks env venv r b c h = all_checks
     [demand (kr_state r = SUCCEEDED) ''conclusion is not a succeeded frozen result'',
      demand (kr_audit r \<noteq> None) ''persisted consumer audit metadata missing'',
      bindR (raised_as is_value_error ''stored conclusion failed current content-only safety gate'' (revalidate_conclusion (kv_nfkc env) c)) (\<lambda>_. Inr ()),
      frozen_identity venv b,
      demand (get_item (fb_payload b) ''content_snapshot_id'' = VStr (fb_snapshot_id b)) ''frozen snapshot identifier mismatch'',
      demand (result_hash env c = h) ''committed result hash mismatch'',
      demand (kc_conclusion_id c = kr_conclusion_id r \<and> kc_bundle_id c = fb_bundle_id b) ''result ownership mismatch'',
      demand (kc_snapshot_id c = fb_snapshot_id b \<and> fb_snapshot_id b = kq_snapshot_id (kr_request r)) ''snapshot ownership mismatch'']"

definition built_view :: "kc_run \<Rightarrow> frozen_bundle \<Rightarrow> conclusion \<Rightarrow> string \<Rightarrow> frozen_edges \<Rightarrow> kc_citation list \<Rightarrow> lineage" where
  "built_view r b c h fe cits = \<lparr>lg_conclusion = kr_conclusion_id r, lg_snapshot = fb_snapshot_id b, lg_bundle_id = fb_bundle_id b, lg_bundle_hash = fb_bundle_hash b,
     lg_result_hash = h, lg_sources = fe_sources fe, lg_transcripts = fe_transcripts fe, lg_evidence = fe_evidence fe, lg_claims = claim_pairs (fe_evidence fe),
     lg_occurrences = occurrence_rows (fe_evidence fe), lg_findings = cits, lg_producer = fb_producer_sha b, lg_checksum = fb_contract_checksum b,
     lg_model = kc_model c, lg_meta = the (kr_audit r)\<rparr>"

definition lineage_view :: "kc_env \<Rightarrow> validator_env \<Rightarrow> kc_run \<Rightarrow> kc_citation list \<Rightarrow> lineage result" where
  "lineage_view env venv r stored = (case (kr_bundle r, kr_result r, kr_result_hash r) of
     (Some b, Some c, Some h) \<Rightarrow>
       bindR (view_checks env venv r b c h) (\<lambda>_.
       bindR (bundle_edges venv (fb_payload b) (kc_findings c)) (\<lambda>fe.
       bindR (lineage_citations env (fb_payload b) c stored) (\<lambda>cits. Inr (built_view r b c h fe cits))))
   | _ \<Rightarrow> Inl (lineage_error ''conclusion is not a succeeded frozen result''))"

definition reconstruct :: "kc_env \<Rightarrow> validator_env \<Rightarrow> string \<Rightarrow> py_datetime \<Rightarrow> string \<Rightarrow> kc_store \<Rightarrow> lineage result \<times> kc_store" where
  "reconstruct env venv audit_id now i s = (case ks_runs s i of
     None \<Rightarrow> (Inl (KeyError i), s)
   | Some r \<Rightarrow> (case lineage_view env venv r (repo_citations (kr_conclusion_id r) s) of
       Inl e \<Rightarrow> (Inl e, s)
     | Inr v \<Rightarrow> (case append_audit env audit_id now r v s of (res, s') \<Rightarrow> (bindR res (\<lambda>_. Inr v), s'))))"

subsection \<open>The rows that are read\<close>

lemma dict_set_values: "set (map snd (dict_set d k v)) \<subseteq> insert v (set (map snd d))"
  by (induction d k v rule: dict_set.induct) auto

lemma foldl_dict_values: "set (map snd (foldl (\<lambda>d k. dict_set d (f k) k) d xs)) \<subseteq> set (map snd d) \<union> set xs"
proof (induction xs arbitrary: d)
  case Nil
  then show ?case by simp
next
  case (Cons x xs)
  have "set (map snd (foldl (\<lambda>d k. dict_set d (f k) k) (dict_set d (f x) x) xs)) \<subseteq> set (map snd (dict_set d (f x) x)) \<union> set xs"
    by (rule Cons.IH)
  also have "\<dots> \<subseteq> set (map snd d) \<union> set (x # xs)" using dict_set_values [of d "f x" x] by auto
  finally show ?case by simp
qed

lemma graph_rows_in: "set (graph_rows payload) \<subseteq> set (bundle_graph payload)"
  using foldl_dict_values [of kn_id "[]" "bundle_graph payload"] by (simp add: graph_rows_def)

lemma evidence_by_id_Some:
  assumes "evidence_by_id ks i = Some e"
  shows "er_id e = i \<and> (\<exists>k \<in> set ks. e \<in> set (kn_evidence k))"
  using map_of_rev_Some [of er_id "concat (map kn_evidence ks)" i e] assms by (simp add: evidence_by_id_def)

definition traced :: "mapping \<Rightarrow> lineage_evidence \<Rightarrow> bool" where
  "traced payload row \<longleftrightarrow> (\<exists>k \<in> set (bundle_graph payload). \<exists>e \<in> set (kn_evidence k). er_id e = le_id row \<and> kn_id k = le_knowledge row)
     \<and> (\<exists>k \<in> set (bundle_graph payload). kn_id k = le_knowledge row \<and> named_id (kn_raw k) [''claim_id''] = Inr (le_claim row))"

lemma edge_row_traced:
  assumes "edge_row node payload (graph_rows payload) eid = Inr (row, t)"
  shows "le_id row = eid \<and> traced payload row"
proof -
  obtain e k where e: "evidence_by_id (graph_rows payload) eid = Some e" and k: "knowledge_by_id payload (er_knowledge e) = Some k"
    and row: "le_id row = eid" "le_knowledge row = er_knowledge e" "named_id (kn_raw k) [''claim_id''] = Inr (le_claim row)"
    using assms by (auto simp: edge_row_def Let_def bindR_Inr_iff split: option.splits)
  obtain k0 where k0: "k0 \<in> set (bundle_graph payload)" "e \<in> set (kn_evidence k0)" "er_id e = eid"
    using evidence_by_id_Some [OF e] graph_rows_in by blast
  have "er_knowledge e = kn_id k0" using bundle_graph_owns [OF k0(1,2)] by simp
  moreover have "k \<in> set (bundle_graph payload) \<and> kn_id k = er_knowledge e"
    using map_of_rev_Some [of kn_id "bundle_graph payload" "er_knowledge e" k] k by (simp add: knowledge_by_id_def)
  ultimately show ?thesis using k0 row by (auto simp: traced_def)
qed

lemma bundle_edges_Inr:
  assumes "bundle_edges venv payload findings = Inr fe"
  shows "map le_id (fe_evidence fe) = cited_ids findings \<and> (\<forall>row \<in> set (fe_evidence fe). traced payload row)"
proof -
  obtain node rows where rows: "mapR (edge_row node payload (graph_rows payload)) (cited_ids findings) = Inr rows" and fe: "fe_evidence fe = map fst rows"
    using assms by (auto simp: bundle_edges_def Let_def bindR_Inr_iff split: pyval.splits)
  have all: "list_all2 (\<lambda>eid row. edge_row node payload (graph_rows payload) eid = Inr row) (cited_ids findings) rows"
    using rows by (simp add: mapR_list_all2)
  have "list_all2 (\<lambda>eid row. le_id (fst row) = eid \<and> traced payload (fst row)) (cited_ids findings) rows"
    using all by (rule list_all2_mono) (metis edge_row_traced prod.collapse)
  then show ?thesis unfolding fe
    by (induction rule: list_all2_induct) auto
qed

lemma lineage_citations_iff:
  "lineage_citations env payload c stored = Inr ordered_cits \<longleftrightarrow>
     (\<exists>cits. result_citations env payload c = Inr cits \<and> distinct cits \<and> distinct stored \<and> set stored = set cits \<and> ordered_cits = citation_order cits)"
  unfolding lineage_citations_def bindR_Inr_iff demand_Inr by (simp, blast)

lemma set_citation_order [simp]: "set (citation_order cits) = set cits"
  by (simp add: citation_order_def)

lemma lineage_view_Inr:
  assumes "lineage_view env venv r stored = Inr v"
  obtains b c where "kr_state r = SUCCEEDED" and "kr_bundle r = Some b" and "kr_result r = Some c"
    and "verify_integrity venv (fb_payload b) = Inr (lg_bundle_id v, lg_bundle_hash v)" and "lg_result_hash v = result_hash env c"
    and "kr_result_hash r = Some (lg_result_hash v)" and "lg_conclusion v = kr_conclusion_id r"
    and "lineage_citations env (fb_payload b) c stored = Inr (lg_findings v)"
    and "map le_id (lg_evidence v) = cited_ids (kc_findings c)" and "\<forall>row \<in> set (lg_evidence v). traced (fb_payload b) row"
proof -
  obtain b c h where some: "kr_bundle r = Some b" "kr_result r = Some c" "kr_result_hash r = Some h"
    using assms by (auto simp: lineage_view_def split: option.splits)
  obtain fe cits where checks: "view_checks env venv r b c h = Inr ()"
    and edges: "bundle_edges venv (fb_payload b) (kc_findings c) = Inr fe" and cits: "lineage_citations env (fb_payload b) c stored = Inr cits"
    and v: "v = built_view r b c h fe cits"
    using assms by (auto simp: lineage_view_def some bindR_Inr_iff)
  have ok: "x = Inr ()" if "x \<in> {demand (kr_state r = SUCCEEDED) ''conclusion is not a succeeded frozen result'', frozen_identity venv b,
      demand (result_hash env c = h) ''committed result hash mismatch''}" for x
    using checks that unfolding view_checks_def all_checks_Inr by auto
  have state: "kr_state r = SUCCEEDED" and ident: "frozen_identity venv b = Inr ()" and hash: "result_hash env c = h"
    using ok [OF insertI1] ok [OF insertI2 [OF insertI1]] ok [OF insertI2 [OF insertI2 [OF insertI1]]] by simp_all
  have "verify_integrity venv (fb_payload b) = Inr (fb_bundle_id b, fb_bundle_hash b)"
    using ident by (auto simp: frozen_identity_def bindR_Inr_iff)
  then show thesis
    using that [OF state some(1,2)] some(3) hash cits bundle_edges_Inr [OF edges] by (simp add: v built_view_def)
qed

lemma append_audit_effect:
  assumes "append_audit env a now r v s = (res, s')"
  shows "ks_runs s' = ks_runs s \<and> ks_citations s' = ks_citations s \<and> ks_audits s' = ks_audits s"
    and "res = Inr () \<Longrightarrow> \<exists>audit. lineage_audits (lg_conclusion v) s' = lineage_audits (lg_conclusion v) s @ [audit]
       \<and> (\<forall>j. j \<noteq> lg_conclusion v \<longrightarrow> lineage_audits j s' = lineage_audits j s)"
  using assms by (auto simp: append_audit_def append_lineage_audit_def audit_payload_def lineage_audits_def py_str_def Let_def split: if_splits)

subsection \<open>Properties\<close>

text \<open>C40: A lineage is rebuilt only from a succeeded run whose frozen payload still has the identity it was frozen with and whose result still has the
  hash it was committed with; its citations are the stored ones; its evidence rows are exactly the evidence cited by the findings, each
  traced to a row of the frozen graph under its knowledge owner and that owner's claim; and one audit is appended, nothing else changes.\<close>

theorem lineage_traces_frozen_bundle:
  assumes "reconstruct env venv a now i s = (Inr v, s')"
  shows "\<exists>r b c audit. ks_runs s i = Some r \<and> kr_state r = SUCCEEDED \<and> kr_bundle r = Some b \<and> kr_result r = Some c
    \<and> verify_integrity venv (fb_payload b) = Inr (lg_bundle_id v, lg_bundle_hash v) \<and> kr_result_hash r = Some (result_hash env c)
    \<and> set (lg_findings v) = set (repo_citations (kr_conclusion_id r) s)
    \<and> set (map le_id (lg_evidence v)) = (\<Union>f \<in> set (kc_findings c). set (fd_evidence_ids f)) \<and> (\<forall>row \<in> set (lg_evidence v). traced (fb_payload b) row)
    \<and> ks_runs s' = ks_runs s \<and> ks_citations s' = ks_citations s
    \<and> lineage_audits (kr_conclusion_id r) s' = lineage_audits (kr_conclusion_id r) s @ [audit]"
proof -
  obtain r where r: "ks_runs s i = Some r" using assms by (auto simp: reconstruct_def split: option.splits)
  obtain view where view: "lineage_view env venv r (repo_citations (kr_conclusion_id r) s) = Inr v" and app: "append_audit env a now r v s = (Inr (), s')"
    using assms by (auto simp: reconstruct_def r bindR_Inr_iff split: sum.splits prod.splits)
  obtain b c where bc: "kr_state r = SUCCEEDED" "kr_bundle r = Some b" "kr_result r = Some c"
    "verify_integrity venv (fb_payload b) = Inr (lg_bundle_id v, lg_bundle_hash v)" "lg_result_hash v = result_hash env c"
    "kr_result_hash r = Some (lg_result_hash v)" "lg_conclusion v = kr_conclusion_id r"
    "lineage_citations env (fb_payload b) c (repo_citations (kr_conclusion_id r) s) = Inr (lg_findings v)"
    "map le_id (lg_evidence v) = cited_ids (kc_findings c)" "\<forall>row \<in> set (lg_evidence v). traced (fb_payload b) row"
    using lineage_view_Inr [OF view] .
  have "set (lg_findings v) = set (repo_citations (kr_conclusion_id r) s)"
    using bc(8) unfolding lineage_citations_iff by (elim exE conjE) simp
  moreover have "set (map le_id (lg_evidence v)) = (\<Union>f \<in> set (kc_findings c). set (fd_evidence_ids f))"
    unfolding bc(9) by (simp add: cited_ids_def)
  moreover obtain audit where "lineage_audits (kr_conclusion_id r) s' = lineage_audits (kr_conclusion_id r) s @ [audit]"
    using append_audit_effect(2) [OF app refl] bc(7) by auto
  ultimately show ?thesis
    using r bc(1-4,10) bc(6) [unfolded bc(5)] append_audit_effect(1) [OF app] by blast
qed

definition traced_payload :: mapping where
  "traced_payload = [(''contract'', VStr contract_v1), (''schema_version'', VStr ''1.0.0''), (''canonicalization_version'', VStr ''content-bundle-c14n-v1''),
     (''producer'', VDict [(''service'', VStr ''stock_content''), (''contract_checksum'', VStr checksum_v1)]), (''content_snapshot_id'', VStr ''s1''),
     (''source'', VDict [(''title'', VStr ''course'')]),
     (''items'', VList [VDict [(''id'', VStr ''k1''), (''claim_id'', VStr ''c1''), (''occurrence_id'', VStr ''o1''), (''statement'', VStr ''revenue growth''),
        (''evidence'', VList [VDict [(''evidence_id'', VStr ''e1''), (''quote'', VStr ''revenue growth''), (''artifact_id'', VStr ''a1''), (''start_ms'', VInt 0), (''end_ms'', VInt 9)]])]]),
     (''bundle_id'', VStr ''ckb_497''), (''bundle_hash'', VStr ''sha256:497'')]"

definition traced_env :: validator_env where
  "traced_env = \<lparr>ve_format = \<lambda>_ _. True, ve_sha = \<lambda>s. nat_text (length s), ve_nfc = \<lambda>s. s, ve_instant = \<lambda>_. None, ve_iso = \<lambda>_. [],
     ve_url = \<lambda>_. \<lparr>up_scheme = ''https'', up_host = ''h'', up_bare = True, up_global_ip = None\<rparr>, ve_has_digit = \<lambda>s. \<exists>c \<in> set s. is_digit c\<rparr>"

definition traced_conclusion :: conclusion where
  "traced_conclusion = demo_conclusion\<lparr>kc_bundle_id := ''ckb_497'',
     kc_findings := [\<lparr>fd_text = ''growth'', fd_knowledge_ids = [''k1''], fd_evidence_ids = [''e1''], fd_confidence = Fin (1 / 2)\<rparr>]\<rparr>"

definition traced_run :: kc_run where
  "traced_run = demo_run\<lparr>kr_state := SUCCEEDED, kr_audit := Some \<lparr>am_consumer_sha = ''s'', am_profile = ''p'', am_trace_id = ''t''\<rparr>,
     kr_bundle := Some \<lparr>fb_bundle_id = ''ckb_497'', fb_bundle_hash = ''sha256:497'', fb_payload = traced_payload, fb_producer_sha = ''p'', fb_contract_checksum = ''k'', fb_snapshot_id = ''s1''\<rparr>,
     kr_result := Some traced_conclusion, kr_result_hash := Some (result_hash demo_env traced_conclusion)\<rparr>"

definition traced_store :: kc_store where
  "traced_store = \<lparr>ks_runs = [''c1'' \<mapsto> traced_run], ks_by_key = Map.empty, ks_citations = [''c1'' \<mapsto>
     [\<lparr>ct_finding_index = 0, ct_knowledge = ''k1'', ct_evidence = ''e1'', ct_quote_hash = ''revenue growth'', ct_provenance = ''DERIVED_FROM_PRODUCER_QUOTE''\<rparr>]],
     ks_audits = [(''a'', ''c1'', ''MODEL_FALLBACK'', [(''reason'', VStr ''timeout'')])], ks_lineage = Map.empty\<rparr>"

lemma traced_reconstructs: "\<not> isl (fst (reconstruct demo_env traced_env ''u1'' (Aware 9) ''c1'' traced_store))"
  by code_simp

lemma lineage_traces_frozen_bundle_witness:
  "\<exists>v s' audit. reconstruct demo_env traced_env ''u1'' (Aware 9) ''c1'' traced_store = (Inr v, s') \<and> set (map le_id (lg_evidence v)) = {''e1''}
     \<and> set (lg_findings v) = set (repo_citations ''c1'' traced_store) \<and> lineage_audits ''c1'' s' = [audit]"
proof -
  obtain v s' where v: "reconstruct demo_env traced_env ''u1'' (Aware 9) ''c1'' traced_store = (Inr v, s')"
    using traced_reconstructs by (cases "reconstruct demo_env traced_env ''u1'' (Aware 9) ''c1'' traced_store") (auto elim: not_islE)
  have run: "ks_runs traced_store ''c1'' = Some traced_run" and result: "kr_result traced_run = Some traced_conclusion"
    and audits: "lineage_audits ''c1'' traced_store = []" and i: "kr_conclusion_id traced_run = ''c1''"
    and ids: "(\<Union>f \<in> set (kc_findings traced_conclusion). set (fd_evidence_ids f)) = {''e1''}"
    by (simp_all add: traced_store_def traced_run_def lineage_audits_def traced_conclusion_def demo_run_def new_kc_run_def)
  show ?thesis
    using lineage_traces_frozen_bundle [OF v] v run result audits i ids by auto
qed

text \<open>The citation check never refuses what the run service committed: in every store the service can reach, the stored citations of a
  succeeded run pass the comparison with the edges rebuilt from its frozen bundle, and the ordered answer is a permutation of them.\<close>

theorem committed_citations_reconstruct:
  assumes "kc_reachable env (s, H)" and "ks_runs s i = Some r" and "kr_state r = SUCCEEDED"
  shows "\<exists>b c cits. kr_bundle r = Some b \<and> kr_result r = Some c \<and> lineage_citations env (fb_payload b) c (repo_citations i s) = Inr cits
    \<and> set cits = set (repo_citations i s) \<and> length cits = length (repo_citations i s)"
proof -
  have "row_ok env s i r" using kc_reachable_inv [OF assms(1)] assms(2) by (simp add: kc_inv_def)
  then obtain cits b c where cits: "ks_citations s i = Some cits" and b: "kr_bundle r = Some b" "kr_result r = Some c"
    and rc: "result_citations env (fb_payload b) c = Inr cits" and dist: "distinct (map citation_key cits)"
    using assms(3) by (auto simp: row_ok_def committed_def)
  have stored: "repo_citations i s = cits" using cits by (simp add: repo_citations_def)
  have "distinct cits" using dist by (simp add: distinct_map)
  then have "lineage_citations env (fb_payload b) c (repo_citations i s) = Inr (citation_order cits)"
    unfolding lineage_citations_iff stored using rc by blast
  then show ?thesis using b stored by (simp add: citation_order_def)
qed

lemma committed_citations_reconstruct_witness:
  "\<exists>s H r b. kc_reachable demo_env (s, H) \<and> ks_runs s ''c1'' = Some r \<and> kr_bundle r = Some b
     \<and> (\<exists>cits. lineage_citations demo_env (fb_payload b) demo_conclusion (repo_citations ''c1'' s) = Inr cits)"
proof -
  obtain s H r where e: "kc_reachable demo_env (s, H)" "ks_runs s ''c1'' = Some r" "kr_state r = SUCCEEDED" "kr_result r = Some demo_conclusion"
    by (rule demo_end)
  then show ?thesis using committed_citations_reconstruct [OF e(1-3)] by auto
qed

end
