(* ===== verification/Memory.thy ===== *)
theory Memory
  imports Grounding
begin

text \<open>
  Memories of past decisions: their table with outcome evidence (\<open>MemoryRepository\<close> of \<open>storage/repositories/vector_repository.py\<close>), the
  evidence-weighted confidence (\<open>engines/memory/evidence.py\<close>), the lifecycle (\<open>lifecycle.py\<close>), and the merging of new candidates
  (\<open>memory_merger.py\<close>, \<open>conflict_resolver.py\<close>, \<open>memory_writer.py\<close>). An operation runs alone on the tables. Times are microseconds, a time without
  zone counts as UTC; the clock readings of one operation are one instant. The power \<open>0.5 ** x\<close> and the lifecycle section of the YAML configuration are arguments. Scopes
  hold lists of texts; relevance, quality and counters in JSON are numbers. The columns for the
  source date, related entities, deletion mark and times of creation are left out.
\<close>

subsection \<open>Weighted evidence\<close>

record lifecycle_config =
  lc_validate :: pyfloat
  lc_revalidate :: pyfloat
  lc_min_count :: int
  lc_threshold :: pyfloat
  lc_half_life :: pyfloat

definition default_lifecycle :: lifecycle_config where
  "default_lifecycle = \<lparr>lc_validate = f_of_rat (7 / 10), lc_revalidate = f_of_rat (3 / 10), lc_min_count = 3, lc_threshold = f_of_rat (1 / 100), lc_half_life = Fin 180\<rparr>"

text \<open>What the weighing reads of an evidence event.\<close>

record weighed_event =
  oe_excess :: "pyfloat option"
  oe_quality :: "pyfloat option"
  oe_applicability :: "pyfloat option"
  oe_created :: "int option"

definition clamp :: "pyfloat \<Rightarrow> pyfloat" where
  "clamp v = py_max (Fin 0) (py_min (Fin 1) v)"

definition magnitude :: "pyfloat \<Rightarrow> pyfloat" where
  "magnitude x = (if f_lt x (Fin 0) then f_neg x else x)"

definition divided :: "pyfloat \<Rightarrow> pyfloat \<Rightarrow> pyfloat result" where
  "divided a b = (case f_div a b of None \<Rightarrow> Inl (PyExc ''ZeroDivisionError'' ''float division by zero'') | Some x \<Rightarrow> Inr x)"

definition evidence_direction :: "lifecycle_config \<Rightarrow> weighed_event \<Rightarrow> rat" where
  "evidence_direction cfg e = (case oe_excess e of None \<Rightarrow> 0
     | Some x \<Rightarrow> if f_lt (Fin 0) (lc_threshold cfg) \<and> f_lt (magnitude x) (lc_threshold cfg) then 0
         else if f_lt (Fin 0) x then 1 else if f_lt x (Fin 0) then - 1 else 0)"

definition significance :: "lifecycle_config \<Rightarrow> pyfloat option \<Rightarrow> pyfloat result" where
  "significance cfg excess = (case excess of None \<Rightarrow> Inr (Fin 1)
     | Some x \<Rightarrow> if f_le (lc_threshold cfg) (Fin 0) then Inr (Fin 1) else bindR (divided (magnitude x) (lc_threshold cfg)) (\<lambda>s. Inr (py_min (Fin 1) s)))"

definition age_days :: "int \<Rightarrow> int \<Rightarrow> pyfloat result" where
  "age_days now created = bindR (divided (f_of_rat (of_int (now - created) / 10 ^ 6)) (Fin 86400)) (\<lambda>d. Inr (py_max d (Fin 0)))"

definition recency :: "(pyfloat \<Rightarrow> pyfloat) \<Rightarrow> lifecycle_config \<Rightarrow> int \<Rightarrow> int option \<Rightarrow> pyfloat result" where
  "recency half_power cfg now created = (case created of None \<Rightarrow> Inr (Fin 1)
     | Some t \<Rightarrow> if f_lt (Fin 0) (lc_half_life cfg) then bindR (age_days now t) (\<lambda>d. bindR (divided d (lc_half_life cfg)) (\<lambda>x. Inr (half_power x))) else Inr (Fin 1))"

definition clamped_or :: "pyfloat \<Rightarrow> pyfloat option \<Rightarrow> pyfloat" where
  "clamped_or d v = (case v of None \<Rightarrow> d | Some x \<Rightarrow> clamp x)"

definition evidence_weight_of :: "(pyfloat \<Rightarrow> pyfloat) \<Rightarrow> lifecycle_config \<Rightarrow> int \<Rightarrow> weighed_event \<Rightarrow> pyfloat result" where
  "evidence_weight_of half_power cfg now e =
     bindR (significance cfg (oe_excess e)) (\<lambda>s. bindR (recency half_power cfg now (oe_created e)) (\<lambda>r.
     Inr (f_mul (f_mul (f_mul (clamped_or (Fin (1 / 2)) (oe_quality e)) (clamped_or (Fin 1) (oe_applicability e))) s) r)))"

definition confidence_step :: "(pyfloat \<Rightarrow> pyfloat) \<Rightarrow> lifecycle_config \<Rightarrow> int \<Rightarrow> pyfloat \<times> pyfloat \<Rightarrow> weighed_event \<Rightarrow> (pyfloat \<times> pyfloat) result" where
  "confidence_step half_power cfg now st e = (case st of (balance, weights) \<Rightarrow>
     bindR (evidence_weight_of half_power cfg now e) (\<lambda>w. Inr (f_add balance (f_mul (Fin (evidence_direction cfg e)) w), f_add weights w)))"

definition weighted_confidence :: "(pyfloat \<Rightarrow> pyfloat) \<Rightarrow> lifecycle_config \<Rightarrow> int \<Rightarrow> weighed_event list \<Rightarrow> pyfloat result" where
  "weighted_confidence half_power cfg now es = (if es = [] then Inr (Fin (1 / 2))
     else bindR (foldR (confidence_step half_power cfg now) (Fin 0, Fin 0) es) (\<lambda>(balance, weights).
       bindR (divided (f_add (Fin 1) balance) (f_add (Fin 2) weights)) (\<lambda>c. Inr (clamp c))))"

subsection \<open>The tables\<close>

record memory_row =
  mm_id :: int
  mm_type :: string
  mm_subject :: "string option"
  mm_key :: "string option"
  mm_title :: string
  mm_content :: string
  mm_source :: string
  mm_status :: string
  mm_importance :: string
  mm_confidence :: pyfloat
  mm_temporal :: string
  mm_facts :: mapping
  mm_lessons :: "string list"
  mm_meta :: mapping
  mm_group :: "string option"
  mm_market :: pyval
  mm_regimes :: pyval
  mm_styles :: pyval
  mm_horizon :: pyval
  mm_themes :: pyval
  mm_valid_from :: "int option"
  mm_valid_to :: "int option"
  mm_last_seen :: "int option"

record evidence_row =
  me_id :: int
  me_memory :: int
  me_decision :: "string option"
  me_regime :: "string option"
  me_horizon :: "int option"
  me_excess :: "pyfloat option"
  me_sector :: "pyfloat option"
  me_quality :: "pyfloat option"
  me_applicability :: "pyfloat option"
  me_weight :: pyfloat
  me_created :: int

record memory_version =
  mv_memory :: int
  mv_version :: int
  mv_content :: string
  mv_facts :: mapping
  mv_confidence :: pyfloat
  mv_reason :: string

record memory_tables =
  mt_rows :: "memory_row list"
  mt_next :: int
  mt_evidence :: "evidence_row list"
  mt_next_evidence :: int
  mt_versions :: "memory_version list"
  mt_tasks :: "(string \<times> int \<times> string) list"

definition memory_get :: "int \<Rightarrow> memory_tables \<Rightarrow> memory_row option" where
  "memory_get i t = first_such (\<lambda>r. mm_id r = i) (mt_rows t)"

definition memory_by_key :: "string \<Rightarrow> memory_tables \<Rightarrow> memory_row option" where
  "memory_by_key k t = first_such (\<lambda>r. mm_key r = Some k) (mt_rows t)"

text \<open>The merge key is a unique column.\<close>

definition key_taken :: "memory_row list \<Rightarrow> int \<Rightarrow> string option \<Rightarrow> bool" where
  "key_taken rows i k \<longleftrightarrow> k \<noteq> None \<and> (\<exists>r \<in> set rows. mm_key r = k \<and> mm_id r \<noteq> i)"

definition integrity_error :: exc where
  "integrity_error = PyExc ''IntegrityError'' ''UNIQUE constraint failed: memory_record.merge_key''"

definition memory_create :: "memory_row \<Rightarrow> memory_tables \<Rightarrow> memory_row result \<times> memory_tables" where
  "memory_create r t = (let row = r\<lparr>mm_id := mt_next t\<rparr> in
     if key_taken (mt_rows t) (mt_next t) (mm_key r) then (Inl integrity_error, t)
     else (Inr row, t\<lparr>mt_rows := mt_rows t @ [row], mt_next := mt_next t + 1\<rparr>))"

definition memory_update :: "int \<Rightarrow> (memory_row \<Rightarrow> memory_row) \<Rightarrow> memory_tables \<Rightarrow> memory_row result \<times> memory_tables" where
  "memory_update i f t = (case memory_get i t of
     None \<Rightarrow> (Inl (PyExc ''FileNotFoundError'' (int_text i)), t)
   | Some r \<Rightarrow> if key_taken (mt_rows t) i (mm_key (f r)) then (Inl integrity_error, t)
       else (Inr (f r), t\<lparr>mt_rows := map (\<lambda>x. if mm_id x = i then f x else x) (mt_rows t)\<rparr>))"

definition same_event :: "int \<Rightarrow> string \<Rightarrow> int option \<Rightarrow> evidence_row \<Rightarrow> bool" where
  "same_event i d h e \<longleftrightarrow> me_memory e = i \<and> me_decision e = Some d \<and> me_horizon e = h"

definition add_evidence :: "evidence_row \<Rightarrow> memory_tables \<Rightarrow> evidence_row \<times> memory_tables" where
  "add_evidence e t = (case (case me_decision e of None \<Rightarrow> None | Some d \<Rightarrow> first_such (same_event (me_memory e) d (me_horizon e)) (mt_evidence t)) of
     Some old \<Rightarrow> (let row = e\<lparr>me_id := me_id old\<rparr> in (row, t\<lparr>mt_evidence := map (\<lambda>x. if me_id x = me_id old then row else x) (mt_evidence t)\<rparr>))
   | None \<Rightarrow> (let row = e\<lparr>me_id := mt_next_evidence t\<rparr> in
       (row, t\<lparr>mt_evidence := mt_evidence t @ [row], mt_next_evidence := mt_next_evidence t + 1\<rparr>)))"

definition list_evidence :: "int \<Rightarrow> memory_tables \<Rightarrow> evidence_row list" where
  "list_evidence i t = sort_key me_created (sort_key me_id (filter (\<lambda>e. me_memory e = i) (mt_evidence t)))"

subsection \<open>Lifecycle\<close>

definition event_of :: "evidence_row \<Rightarrow> weighed_event" where
  "event_of e = \<lparr>oe_excess = me_excess e, oe_quality = me_quality e, oe_applicability = me_applicability e, oe_created = Some (me_created e)\<rparr>"

definition ttl_days :: "string \<Rightarrow> int option" where
  "ttl_days kind = (if str_upper kind = ''MARKET_REGIME'' then Some 30 else if str_upper kind = ''THEME'' then Some 90 else None)"

definition due_at :: "memory_row \<Rightarrow> int option" where
  "due_at r = (case mm_valid_to r of Some t \<Rightarrow> Some t
     | None \<Rightarrow> (case (ttl_days (mm_type r), mm_last_seen r) of (Some d, Some t) \<Rightarrow> Some (t + d * 86400000000) | _ \<Rightarrow> None))"

definition ended_statuses :: "string list" where
  "ended_statuses = [''SUPERSEDED'', ''EXPIRED'', ''REJECTED'']"

definition is_due :: "int \<Rightarrow> memory_row \<Rightarrow> bool" where
  "is_due now r \<longleftrightarrow> str_upper (mm_status r) \<notin> set ended_statuses \<and> (case due_at r of None \<Rightarrow> False | Some t \<Rightarrow> t \<le> now)"

text \<open>\<open>xs[:n]\<close>.\<close>

definition slice_to :: "int \<Rightarrow> 'a list \<Rightarrow> 'a list" where
  "slice_to n xs = (if 0 \<le> n then take (nat n) xs else take (length xs - nat (- n)) xs)"

definition expire_row :: "memory_row \<Rightarrow> memory_row \<Rightarrow> memory_row" where
  "expire_row seen r = r\<lparr>mm_status := ''EXPIRED'', mm_valid_to := due_at seen\<rparr>"

fun expire_rows :: "int \<Rightarrow> memory_row list \<Rightarrow> memory_tables \<Rightarrow> int list result \<times> memory_tables" where
  "expire_rows now [] t = (Inr [], t)"
| "expire_rows now (r # rs) t = (if \<not> is_due now r then expire_rows now rs t
     else (case memory_update (mm_id r) (expire_row r) t of
         (Inl e, t') \<Rightarrow> (Inl e, t')
       | (Inr _, t') \<Rightarrow> (case expire_rows now rs t' of (res, t'') \<Rightarrow> (bindR res (\<lambda>ids. Inr (mm_id r # ids)), t''))))"

definition expire_due :: "int \<Rightarrow> int \<Rightarrow> memory_tables \<Rightarrow> int list result \<times> memory_tables" where
  "expire_due now limit t = expire_rows now (slice_to limit (sort_key mm_id (mt_rows t))) t"

definition memory_validate :: "int \<Rightarrow> memory_tables \<Rightarrow> memory_row result \<times> memory_tables" where
  "memory_validate i t = memory_update i (\<lambda>r. r\<lparr>mm_status := ''VALIDATED''\<rparr>) t"

definition streak_count :: "mapping \<Rightarrow> string \<Rightarrow> int result" where
  "streak_count meta k = py_int (get_default meta k (VInt 0))"

text \<open>The current streak of outcomes with one sign.\<close>

definition streaks :: "pyfloat option \<Rightarrow> int \<times> int \<Rightarrow> int \<times> int" where
  "streaks excess c = (case c of (support, failure) \<Rightarrow> (case excess of None \<Rightarrow> c
     | Some x \<Rightarrow> if f_le (Fin 0) x then (support + 1, 0) else (0, failure + 1)))"

definition next_status :: "lifecycle_config \<Rightarrow> int \<Rightarrow> pyfloat \<Rightarrow> string \<Rightarrow> string" where
  "next_status cfg n confidence status = (if lc_min_count cfg \<le> n
     then (if f_le (lc_validate cfg) confidence then ''VALIDATED'' else if f_le confidence (lc_revalidate cfg) then ''REVALIDATION_REQUIRED'' else status)
     else status)"

record outcome_report =
  mo_memory :: int
  mo_status :: string
  mo_support :: int
  mo_failure :: int
  mo_count :: int
  mo_confidence :: pyfloat

definition outcome_meta :: "(int \<Rightarrow> string) \<Rightarrow> int \<Rightarrow> pyfloat option \<Rightarrow> int \<times> int \<Rightarrow> pyfloat \<Rightarrow> int \<Rightarrow> int \<Rightarrow> mapping \<Rightarrow> mapping" where
  "outcome_meta isoformat now excess c confidence n eid meta = foldl (\<lambda>d (k, v). dict_set d k v) meta
     [(''outcome_support_count'', VInt (fst c)), (''outcome_failure_count'', VInt (snd c)),
      (''last_outcome_excess_return'', case excess of None \<Rightarrow> VNone | Some x \<Rightarrow> VFloat x), (''last_outcome_at'', VStr (isoformat now)),
      (''weighted_confidence'', VFloat confidence), (''evidence_count'', VInt n), (''last_evidence_id'', VInt eid)]"

text \<open>What the caller gives of an outcome; \<open>legacy\<close> is the positional excess return.\<close>

record outcome_input =
  oi_legacy :: "pyfloat option"
  oi_decision :: "string option"
  oi_regime :: "string option"
  oi_horizon :: "int option"
  oi_market :: "pyfloat option"
  oi_sector :: "pyfloat option"
  oi_quality :: "pyfloat option"
  oi_applicability :: "pyfloat option"

record memory_env =
  mn_half_power :: "pyfloat \<Rightarrow> pyfloat"
  mn_config :: lifecycle_config
  mn_isoformat :: "int \<Rightarrow> string"

definition market_excess :: "outcome_input \<Rightarrow> pyfloat option" where
  "market_excess x = (case oi_market x of None \<Rightarrow> oi_legacy x | Some v \<Rightarrow> Some v)"

definition new_evidence :: "int \<Rightarrow> int \<Rightarrow> pyfloat \<Rightarrow> outcome_input \<Rightarrow> evidence_row" where
  "new_evidence now i w x = \<lparr>me_id = 0, me_memory = i, me_decision = oi_decision x, me_regime = oi_regime x, me_horizon = oi_horizon x, me_excess = market_excess x,
     me_sector = oi_sector x, me_quality = oi_quality x, me_applicability = oi_applicability x, me_weight = w, me_created = now\<rparr>"

definition new_event :: "outcome_input \<Rightarrow> weighed_event" where
  "new_event x = \<lparr>oe_excess = market_excess x, oe_quality = oi_quality x, oe_applicability = oi_applicability x, oe_created = None\<rparr>"

text \<open>The confidence over all evidence and the new streaks.\<close>

definition assess_outcome :: "memory_env \<Rightarrow> int \<Rightarrow> outcome_input \<Rightarrow> mapping \<Rightarrow> evidence_row list \<Rightarrow> (pyfloat \<times> int \<times> int) result" where
  "assess_outcome env now x meta events = bindR (weighted_confidence (mn_half_power env) (mn_config env) now (map event_of events)) (\<lambda>c.
     bindR (streak_count meta ''outcome_support_count'') (\<lambda>s. bindR (streak_count meta ''outcome_failure_count'') (\<lambda>f. Inr (c, streaks (market_excess x) (s, f)))))"

definition memory_outcome_row :: "memory_env \<Rightarrow> int \<Rightarrow> outcome_input \<Rightarrow> pyfloat \<times> int \<times> int \<Rightarrow> int \<Rightarrow> int \<Rightarrow> memory_row \<Rightarrow> memory_row \<Rightarrow> memory_row" where
  "memory_outcome_row env now x a n eid r y = y\<lparr>mm_meta := outcome_meta (mn_isoformat env) now (market_excess x) (snd a) (fst a) n eid (mm_meta r),
     mm_status := next_status (mn_config env) n (fst a) (mm_status r)\<rparr>"

definition outcome_answer :: "int \<Rightarrow> pyfloat \<times> int \<times> int \<Rightarrow> int \<Rightarrow> memory_row \<Rightarrow> outcome_report" where
  "outcome_answer i a n y = \<lparr>mo_memory = i, mo_status = mm_status y, mo_support = fst (snd a), mo_failure = snd (snd a), mo_count = n, mo_confidence = fst a\<rparr>"

definition record_outcome :: "memory_env \<Rightarrow> int \<Rightarrow> int \<Rightarrow> outcome_input \<Rightarrow> memory_tables \<Rightarrow> outcome_report result \<times> memory_tables" where
  "record_outcome env now i x t = (case memory_get i t of
     None \<Rightarrow> (Inl (PyExc ''FileNotFoundError'' (int_text i)), t)
   | Some r \<Rightarrow> (case evidence_weight_of (mn_half_power env) (mn_config env) now (new_event x) of
       Inl e \<Rightarrow> (Inl e, t)
     | Inr w \<Rightarrow> (case add_evidence (new_evidence now i w x) t of (row, t1) \<Rightarrow>
         (let events = list_evidence i t1; n = int (length events) in
          case assess_outcome env now x (mm_meta r) events of
            Inl e \<Rightarrow> (Inl e, t1)
          | Inr a \<Rightarrow> (case memory_update i (memory_outcome_row env now x a n (me_id row) r) t1 of
              (Inl e, t2) \<Rightarrow> (Inl e, t2) | (Inr y, t2) \<Rightarrow> (Inr (outcome_answer i a n y), t2))))))"

subsection \<open>Merging\<close>

record memory_candidate =
  cd_type :: string
  cd_subject :: string
  cd_summary :: string
  cd_facts :: mapping
  cd_lessons :: "string list"
  cd_confidence :: pyfloat
  cd_importance :: pyfloat
  cd_temporal :: string
  cd_from :: "int option"
  cd_to :: "int option"
  cd_key :: string
  cd_scope :: mapping

definition importance_label :: "memory_candidate \<Rightarrow> string" where
  "importance_label c = (if f_le (f_of_rat (3 / 4)) (cd_importance c) then ''high'' else if f_le (cd_importance c) (f_of_rat (35 / 100)) then ''low'' else ''medium'')"

datatype conflict_type = VALUE_CONFLICT | STANCE_CONFLICT | TEMPORAL_UPDATE | OUTCOME_INVALIDATION | SOURCE_DISAGREEMENT

datatype memory_resolution = MergeFacts | RetainExisting conflict_type | Supersede conflict_type

definition conflicting_keys :: "string list" where
  "conflicting_keys = [''stance'', ''target_price'', ''valuation'', ''expected_growth'', ''catalyst_status'', ''risk_status'', ''strategy_effectiveness'', ''market_regime_applicability'']"

definition conflicts_of :: "mapping \<Rightarrow> mapping \<Rightarrow> string list" where
  "conflicts_of old new = filter (\<lambda>k. case (dict_get old k, dict_get new k) of (Some a, Some b) \<Rightarrow> \<not> py_eq a b | _ \<Rightarrow> False) conflicting_keys"

definition resolve_conflict :: "memory_row \<Rightarrow> memory_candidate \<Rightarrow> mapping \<Rightarrow> memory_resolution result" where
  "resolve_conflict old c source_meta = (let conflicts = conflicts_of (mm_facts old) (cd_facts c) in
     if conflicts = [] then Inr MergeFacts
     else bindR (py_float (get_default (mm_meta old) ''outcome_relevance'' (VInt 0))) (\<lambda>outcome.
       bindR (py_float (get_default source_meta ''source_quality'' (VFloat (Fin (1 / 2))))) (\<lambda>quality.
       Inr (if str_upper (mm_status old) = ''VALIDATED'' \<and> f_le (f_of_rat (7 / 10)) outcome \<and> f_lt quality (f_of_rat (7 / 10)) then RetainExisting SOURCE_DISAGREEMENT
         else if cd_temporal c \<in> {''TIME_SENSITIVE'', ''EVENT_BOUND''} then Supersede TEMPORAL_UPDATE
         else if ''stance'' \<in> set conflicts then Supersede STANCE_CONFLICT else Supersede VALUE_CONFLICT))))"

text \<open>\<open>list(dict.fromkeys(values)) or None\<close>.\<close>

definition unique_values :: "pyval list \<Rightarrow> pyval" where
  "unique_values xs = (case dedup xs of [] \<Rightarrow> VNone | ys \<Rightarrow> VList ys)"

definition listed :: "pyval \<Rightarrow> pyval list" where
  "listed v = (case v of VList xs \<Rightarrow> xs | _ \<Rightarrow> [])"

definition sub_dict :: "mapping \<Rightarrow> string \<Rightarrow> mapping" where
  "sub_dict d k = (case get_item d k of VDict s \<Rightarrow> s | _ \<Rightarrow> [])"

definition scoped :: "memory_candidate \<Rightarrow> mapping \<Rightarrow> memory_row \<Rightarrow> memory_row" where
  "scoped c meta r = (let facts = cd_facts c; explicit = cd_scope c; ms = sub_dict meta ''scope'';
       named = py_or (py_or (get_item explicit ''regimes'') (get_item ms ''regimes'')) (VList (listed (get_item facts ''applicable_regimes'')));
       regimes = (if \<not> truthy named \<and> truthy (get_item facts ''market_regime'') then VList [get_item facts ''market_regime''] else named);
       themes = py_or (py_or (get_item explicit ''themes'') (get_item ms ''themes'')) (VList (if truthy (get_item facts ''theme'') then [get_item facts ''theme''] else []))
     in r\<lparr>mm_market := py_or (get_item explicit ''market'') (get_item ms ''market''), mm_regimes := unique_values (listed regimes),
          mm_styles := py_or (get_item explicit ''styles'') (get_item ms ''styles''), mm_horizon := py_or (get_item explicit ''horizon_days'') (get_item ms ''horizon_days''),
          mm_themes := unique_values (listed themes)\<rparr>)"

definition memory_payload :: "int \<Rightarrow> memory_candidate \<Rightarrow> string \<Rightarrow> mapping \<Rightarrow> memory_row" where
  "memory_payload now c source meta = scoped c meta
     \<lparr>mm_id = 0, mm_type = cd_type c, mm_subject = Some (cd_subject c), mm_key = Some (cd_key c), mm_title = cd_subject c, mm_content = cd_summary c, mm_source = source,
      mm_status = ''ACTIVE'', mm_importance = importance_label c, mm_confidence = cd_confidence c, mm_temporal = cd_temporal c, mm_facts = cd_facts c, mm_lessons = cd_lessons c,
      mm_meta = meta, mm_group = None, mm_market = VNone, mm_regimes = VNone, mm_styles = VNone, mm_horizon = VNone, mm_themes = VNone,
      mm_valid_from = cd_from c, mm_valid_to = cd_to c, mm_last_seen = Some now\<rparr>"

definition union_scope :: "pyval \<Rightarrow> pyval \<Rightarrow> pyval" where
  "union_scope old new = unique_values (listed old @ listed new)"

text \<open>The row after an update: the payload, with the merged fields; the id and the conflict group stay.\<close>

definition merged_row :: "memory_row \<Rightarrow> memory_row \<Rightarrow> memory_row" where
  "merged_row old p = p\<lparr>mm_id := mm_id old, mm_group := mm_group old, mm_lessons := dedup (mm_lessons old @ mm_lessons p), mm_confidence := py_max (mm_confidence old) (mm_confidence p),
     mm_market := py_or (mm_market p) (mm_market old), mm_regimes := union_scope (mm_regimes old) (mm_regimes p), mm_styles := union_scope (mm_styles old) (mm_styles p),
     mm_horizon := (if mm_horizon p = VNone then mm_horizon old else mm_horizon p), mm_themes := union_scope (mm_themes old) (mm_themes p)\<rparr>"

definition enqueue_index :: "int \<Rightarrow> memory_tables \<Rightarrow> memory_tables" where
  "enqueue_index i t = t\<lparr>mt_tasks := mt_tasks t @ [(''memory_record'', i, ''financial_memory'')]\<rparr>"

definition write_created :: "memory_row \<Rightarrow> memory_tables \<Rightarrow> memory_row result \<times> memory_tables" where
  "write_created r t = (case memory_create r t of (Inl e, t') \<Rightarrow> (Inl e, t') | (Inr x, t') \<Rightarrow> (Inr x, enqueue_index (mm_id x) t'))"

definition write_updated :: "int \<Rightarrow> (memory_row \<Rightarrow> memory_row) \<Rightarrow> memory_tables \<Rightarrow> memory_row result \<times> memory_tables" where
  "write_updated i f t = (case memory_update i f t of (Inl e, t') \<Rightarrow> (Inl e, t') | (Inr x, t') \<Rightarrow> (Inr x, enqueue_index (mm_id x) t'))"

definition snapshot_memory :: "memory_row \<Rightarrow> string \<Rightarrow> memory_tables \<Rightarrow> memory_tables" where
  "snapshot_memory r reason t = (let n = int (length (filter (\<lambda>v. mv_memory v = mm_id r) (mt_versions t))) in
     t\<lparr>mt_versions := mt_versions t @ [\<lparr>mv_memory = mm_id r, mv_version = n + 1, mv_content = mm_content r, mv_facts = mm_facts r, mv_confidence = mm_confidence r, mv_reason = reason\<rparr>]\<rparr>)"

datatype merge_answer = Created int | Retained int conflict_type | Conflicted int int string conflict_type | Updated int

definition supersede :: "int \<Rightarrow> string \<Rightarrow> memory_candidate \<Rightarrow> string \<Rightarrow> memory_row \<Rightarrow> memory_row \<Rightarrow> conflict_type \<Rightarrow> memory_tables \<Rightarrow> merge_answer result \<times> memory_tables" where
  "supersede now fresh c source_id old p kind t = (let group = (case mm_group old of None \<Rightarrow> fresh | Some g \<Rightarrow> if g = [] then fresh else g) in
     case memory_update (mm_id old) (\<lambda>r. r\<lparr>mm_status := ''SUPERSEDED'', mm_group := Some group, mm_last_seen := Some now\<rparr>) t of
       (Inl e, t1) \<Rightarrow> (Inl e, t1)
     | (Inr _, t1) \<Rightarrow> (case write_created (p\<lparr>mm_key := Some (cd_key c @ ''::'' @ source_id), mm_group := Some group, mm_status := ''ACTIVE''\<rparr>) t1 of
         (Inl e, t2) \<Rightarrow> (Inl e, t2) | (Inr x, t2) \<Rightarrow> (Inr (Conflicted (mm_id x) (mm_id old) group kind), t2)))"

definition merge_memory :: "int \<Rightarrow> string \<Rightarrow> memory_candidate \<Rightarrow> string \<Rightarrow> string \<Rightarrow> mapping \<Rightarrow> memory_tables \<Rightarrow> merge_answer result \<times> memory_tables" where
  "merge_memory now fresh c source source_id meta t = (let p = memory_payload now c source meta in
     case memory_by_key (cd_key c) t of
       None \<Rightarrow> (case write_created p t of (res, t') \<Rightarrow> (bindR res (\<lambda>x. Inr (Created (mm_id x))), t'))
     | Some old \<Rightarrow> (let t1 = snapshot_memory old ''merge'' t in
         case resolve_conflict old c meta of
           Inl e \<Rightarrow> (Inl e, t1)
         | Inr (RetainExisting kind) \<Rightarrow> (case memory_update (mm_id old) (\<lambda>r. r\<lparr>mm_last_seen := Some now\<rparr>) t1 of (res, t2) \<Rightarrow> (bindR res (\<lambda>_. Inr (Retained (mm_id old) kind)), t2))
         | Inr (Supersede kind) \<Rightarrow> supersede now fresh c source_id old p kind t1
         | Inr MergeFacts \<Rightarrow> (case write_updated (mm_id old) (\<lambda>r. merged_row r p) t1 of (res, t2) \<Rightarrow> (bindR res (\<lambda>x. Inr (Updated (mm_id x))), t2))))"

subsection \<open>The operations on the tables\<close>

lemma first_such_append: "first_such p (xs @ ys) = (case first_such p xs of Some x \<Rightarrow> Some x | None \<Rightarrow> first_such p ys)"
  by (induction xs) auto

lemma first_such_map: "first_such p (map f xs) = map_option f (first_such (\<lambda>x. p (f x)) xs)"
  by (induction xs) auto

lemma first_such_unique:
  assumes "x \<in> set xs" "p x" "\<And>y. y \<in> set xs \<Longrightarrow> p y \<Longrightarrow> y = x"
  shows "first_such p xs = Some x"
proof (cases "first_such p xs")
  case None
  then show ?thesis using assms(1,2) by (auto simp: first_such_None)
next
  case (Some y)
  then show ?thesis using assms(3) first_such_Some [OF Some] by simp
qed

text \<open>What the schema promises: ids and merge keys name one memory, ids one piece of evidence, and a decision counts once per horizon.\<close>

definition unique_keys :: "memory_row list \<Rightarrow> bool" where
  "unique_keys rs \<longleftrightarrow> (\<forall>r \<in> set rs. \<forall>s \<in> set rs. mm_key r = mm_key s \<and> mm_key r \<noteq> None \<longrightarrow> mm_id r = mm_id s)"

definition rows_ok :: "memory_tables \<Rightarrow> bool" where
  "rows_ok t \<longleftrightarrow> distinct (map mm_id (mt_rows t)) \<and> (\<forall>r \<in> set (mt_rows t). mm_id r < mt_next t) \<and> unique_keys (mt_rows t)"

definition events_ok :: "memory_tables \<Rightarrow> bool" where
  "events_ok t \<longleftrightarrow> distinct (map me_id (mt_evidence t)) \<and> (\<forall>e \<in> set (mt_evidence t). me_id e < mt_next_evidence t)
     \<and> (\<forall>e \<in> set (mt_evidence t). \<forall>d. me_decision e = Some d \<longrightarrow> filter (same_event (me_memory e) d (me_horizon e)) (mt_evidence t) = [e])"

lemma same_id_same_row: "distinct (map mm_id rs) \<Longrightarrow> r \<in> set rs \<Longrightarrow> s \<in> set rs \<Longrightarrow> mm_id r = mm_id s \<Longrightarrow> r = s"
  by (metis (mono_tags, lifting) distinct_map inj_onD)

lemma memory_get_Some: "memory_get i t = Some r \<Longrightarrow> r \<in> set (mt_rows t) \<and> mm_id r = i"
  by (auto simp: memory_get_def dest: first_such_Some)

lemma memory_get_row:
  assumes "rows_ok t" "r \<in> set (mt_rows t)"
  shows "memory_get (mm_id r) t = Some r"
  unfolding memory_get_def by (rule first_such_unique) (use assms in \<open>auto simp: rows_ok_def intro: same_id_same_row\<close>)

lemma memory_by_key_Some: "memory_by_key k t = Some r \<Longrightarrow> r \<in> set (mt_rows t) \<and> mm_key r = Some k"
  by (auto simp: memory_by_key_def dest: first_such_Some)

lemma key_free:
  assumes "rows_ok t" "r \<in> set (mt_rows t)"
  shows "\<not> key_taken (mt_rows t) (mm_id r) (mm_key r)"
  using assms unfolding key_taken_def rows_ok_def unique_keys_def by metis

text \<open>A write that leaves the id and the merge key succeeds and changes one row.\<close>

lemma memory_update_row:
  assumes "rows_ok t" "r \<in> set (mt_rows t)" "mm_key (f r) = mm_key r"
  shows "memory_update (mm_id r) f t = (Inr (f r), t\<lparr>mt_rows := map (\<lambda>x. if mm_id x = mm_id r then f x else x) (mt_rows t)\<rparr>)"
  using memory_get_row [OF assms(1,2)] key_free [OF assms(1,2)] assms(3) by (simp add: memory_update_def)

subsection \<open>Expiry\<close>

lemma unique_keys_map:
  assumes "unique_keys rs" "\<And>r. mm_id (g r) = mm_id r" "\<And>r. mm_key (g r) = mm_key r"
  shows "unique_keys (map g rs)"
  using assms(1) unfolding unique_keys_def set_map ball_simps assms(2,3) .

lemma rows_ok_map:
  assumes ok: "rows_ok t" and g: "\<And>r. mm_id (g r) = mm_id r" "\<And>r. mm_key (g r) = mm_key r"
  shows "rows_ok (t\<lparr>mt_rows := map g (mt_rows t)\<rparr>)"
proof -
  have "map mm_id (map g (mt_rows t)) = map mm_id (mt_rows t)" by (simp add: g)
  then show ?thesis using ok unique_keys_map [of "mt_rows t" g, OF _ g] unfolding rows_ok_def by (simp add: g del: map_map)
qed

lemma rows_ok_update:
  assumes "rows_ok t" "\<And>r. mm_id (f r) = mm_id r" "\<And>r. mm_key (f r) = mm_key r"
  shows "rows_ok (t\<lparr>mt_rows := map (\<lambda>x. if mm_id x = i then f x else x) (mt_rows t)\<rparr>)"
proof (rule rows_ok_map [OF assms(1)])
  show "mm_id (if mm_id r = i then f r else r) = mm_id r" for r by (simp only: assms(2) if_cancel split: if_split) blast
  show "mm_key (if mm_id r = i then f r else r) = mm_key r" for r by (simp only: assms(3) if_cancel split: if_split) blast
qed

definition expired_rows :: "memory_row set \<Rightarrow> memory_row list \<Rightarrow> memory_row list" where
  "expired_rows due rs = map (\<lambda>r. if r \<in> due then expire_row r r else r) rs"

lemma expire_rows_exact:
  assumes "rows_ok t" "distinct (map mm_id rs)" "set rs \<subseteq> set (mt_rows t)"
  shows "expire_rows now rs t = (Inr (map mm_id (filter (is_due now) rs)), t\<lparr>mt_rows := expired_rows (set (filter (is_due now) rs)) (mt_rows t)\<rparr>)"
  using assms
proof (induction rs arbitrary: t)
  case Nil
  then show ?case by (simp add: expired_rows_def)
next
  case (Cons r rs)
  show ?case
  proof (cases "is_due now r")
    case False
    then show ?thesis using Cons by simp
  next
    case True
    let ?f = "\<lambda>x. if mm_id x = mm_id r then expire_row r x else x"
    let ?t = "t\<lparr>mt_rows := map ?f (mt_rows t)\<rparr>"
    have r: "r \<in> set (mt_rows t)" using Cons.prems by simp
    have upd: "memory_update (mm_id r) (expire_row r) t = (Inr (expire_row r r), ?t)"
      by (rule memory_update_row) (use Cons.prems r in \<open>simp_all add: expire_row_def\<close>)
    have keep: "?f x = x" if "x \<in> set rs" for x
    proof -
      have "mm_id x \<noteq> mm_id r" using that Cons.prems(2) by (metis (no_types, lifting) distinct.simps(2) image_eqI list.set_map list.simps(9))
      then show ?thesis by simp
    qed
    have sub: "set rs \<subseteq> set (mt_rows ?t)"
    proof
      fix x assume "x \<in> set rs"
      then have "?f x = x" "x \<in> set (mt_rows t)" using keep Cons.prems(3) by auto
      then show "x \<in> set (mt_rows ?t)" by (auto intro!: image_eqI [of _ _ x])
    qed
    have ok: "rows_ok ?t" by (rule rows_ok_update) (use Cons.prems(1) in \<open>simp_all add: expire_row_def\<close>)
    have due: "?f x \<in> set (filter (is_due now) rs) \<longleftrightarrow> x \<in> set (filter (is_due now) rs)" if x: "x \<in> set (mt_rows t)" for x
    proof (cases "mm_id x = mm_id r")
      case True
      then have "x = r" using x r Cons.prems(1) same_id_same_row by (auto simp: rows_ok_def)
      moreover have "mm_id (expire_row r r) = mm_id r" by (simp add: expire_row_def)
      ultimately show ?thesis using Cons.prems(2) by (metis (no_types, lifting) distinct.simps(2) filter_is_subset image_eqI list.set_map list.simps(9) subsetD)
    qed simp
    have "expired_rows (set (filter (is_due now) rs)) (mt_rows ?t) = expired_rows (set (filter (is_due now) (r # rs))) (mt_rows t)"
    proof -
      have "(if ?f x \<in> set (filter (is_due now) rs) then expire_row (?f x) (?f x) else ?f x) = (if x \<in> set (filter (is_due now) (r # rs)) then expire_row x x else x)"
        if x: "x \<in> set (mt_rows t)" for x
      proof (cases "mm_id x = mm_id r")
        case eq: True
        then have xr: "x = r" using x r Cons.prems(1) same_id_same_row by (auto simp: rows_ok_def)
        have "r \<notin> set rs" using Cons.prems(2) by auto
        then show ?thesis using due [OF x] eq xr True by auto
      next
        case False
        then have "x \<noteq> r" by auto
        then show ?thesis using False True by simp
      qed
      then show ?thesis by (simp add: expired_rows_def del: filter.simps)
    qed
    then show ?thesis using Cons.IH [OF ok _ sub] Cons.prems(2) True by (simp add: upd)
  qed
qed

lemma insort_key_map: "(\<And>x. f (g x) = f x) \<Longrightarrow> insort_key f (g x) (map g xs) = map g (insort_key f x xs)"
  by (induction xs) auto

lemma sort_key_map: "(\<And>x. f (g x) = f x) \<Longrightarrow> sort_key f (map g xs) = map g (sort_key f xs)"
  by (induction xs) (simp_all add: insort_key_map)

abbreviation expiry_page :: "int \<Rightarrow> memory_tables \<Rightarrow> memory_row list" where
  "expiry_page limit t \<equiv> take (nat limit) (sort_key mm_id (mt_rows t))"

lemma expire_page:
  assumes "rows_ok t" "0 \<le> limit"
  shows "expire_due now limit t = (Inr (map mm_id (filter (is_due now) (expiry_page limit t))), t\<lparr>mt_rows := expired_rows (set (filter (is_due now) (expiry_page limit t))) (mt_rows t)\<rparr>)"
proof -
  have "distinct (map mm_id (sort_key mm_id (mt_rows t)))"
    using assms(1) by (simp add: rows_ok_def distinct_map)
  then have "distinct (map mm_id (expiry_page limit t))" by (metis distinct_take take_map)
  moreover have "set (expiry_page limit t) \<subseteq> set (mt_rows t)" using set_take_subset [of _ "sort_key mm_id (mt_rows t)"] by simp
  ultimately show ?thesis using expire_rows_exact [OF assms(1)] assms(2) by (simp add: expire_due_def slice_to_def)
qed

lemma expired_not_due: "\<not> is_due now (expire_row r s)"
proof -
  have "str_upper ''EXPIRED'' = ''EXPIRED''" by code_simp
  then show ?thesis by (simp add: is_due_def expire_row_def ended_statuses_def)
qed

text \<open>Expiry is exact on its page and never leaves it: on consistent tables it marks exactly the live records whose end (the given one, or the time a
  record of its type keeps) has passed among the first \<open>limit\<close> ids, reports their ids in order, changes nothing else, and a second run at the same time finds nothing more.
  A record whose id lies past the page stays as it was, however many ended records fill the page.\<close>

theorem expiry_stays_on_its_page:
  assumes "rows_ok t" "0 \<le> limit" "expire_due now limit t = (res, t')"
  shows "(res = Inr (map mm_id (filter (is_due now) (expiry_page limit t))))
    \<and> (mt_rows t' = map (\<lambda>r. if r \<in> set (expiry_page limit t) \<and> is_due now r then r\<lparr>mm_status := ''EXPIRED'', mm_valid_to := due_at r\<rparr> else r) (mt_rows t))
    \<and> (\<forall>r \<in> set (drop (nat limit) (sort_key mm_id (mt_rows t))). r \<in> set (mt_rows t'))
    \<and> (expire_due now limit t' = (Inr [], t'))"
proof -
  let ?due = "set (filter (is_due now) (expiry_page limit t))"
  let ?g = "\<lambda>r. if r \<in> ?due then expire_row r r else r"
  have run: "res = Inr (map mm_id (filter (is_due now) (expiry_page limit t)))" "t' = t\<lparr>mt_rows := map ?g (mt_rows t)\<rparr>"
    using expire_page [OF assms(1,2)] assms(3) by (simp_all add: expired_rows_def)
  have id: "mm_id (?g r) = mm_id r" "mm_key (?g r) = mm_key r" for r by (simp_all add: expire_row_def)
  have c1: "res = Inr (map mm_id (filter (is_due now) (expiry_page limit t)))" by (rule run(1))
  have c2: "mt_rows t' = map (\<lambda>r. if r \<in> set (expiry_page limit t) \<and> is_due now r then r\<lparr>mm_status := ''EXPIRED'', mm_valid_to := due_at r\<rparr> else r) (mt_rows t)"
    by (simp add: run(2) expire_row_def conj_commute)
  have sorted: "distinct (sort_key mm_id (mt_rows t))" using assms(1) by (simp add: rows_ok_def distinct_map)
  have c3: "\<forall>r \<in> set (drop (nat limit) (sort_key mm_id (mt_rows t))). r \<in> set (mt_rows t')"
  proof
    fix r assume r: "r \<in> set (drop (nat limit) (sort_key mm_id (mt_rows t)))"
    then have "r \<notin> set (expiry_page limit t)" using set_take_disj_set_drop_if_distinct [OF sorted, of "nat limit" "nat limit"] by auto
    then have "?g r = r" by simp
    moreover have "r \<in> set (mt_rows t)" using r set_drop_subset [of _ "sort_key mm_id (mt_rows t)"] by auto
    ultimately show "r \<in> set (mt_rows t')" unfolding run(2) by (auto intro!: image_eqI [of _ _ r])
  qed
  have page: "expiry_page limit t' = map ?g (expiry_page limit t)"
    using sort_key_map [of mm_id ?g, OF id(1)] by (simp add: run(2) take_map)
  have "filter (is_due now) (expiry_page limit t') = []" by (auto simp: page filter_empty_conv expired_not_due)
  moreover have "rows_ok t'" unfolding run(2) by (rule rows_ok_map [OF assms(1) id])
  ultimately have c4: "expire_due now limit t' = (Inr [], t')" using expire_page [of t' limit now] assms(2) by (simp add: expired_rows_def)
  show ?thesis using c1 c2 c3 c4 by blast
qed

subsection \<open>Evidence\<close>

lemma clamp_bounds: "f_le (Fin 0) (clamp x) \<and> f_le (clamp x) (Fin 1)"
  by (cases x) (auto simp: clamp_def py_max_def py_min_def)

lemma weighted_confidence_bounds:
  assumes "weighted_confidence pw cfg now es = Inr c"
  shows "f_le (Fin 0) c \<and> f_le c (Fin 1)"
  using assms clamp_bounds by (auto simp: weighted_confidence_def bindR_Inr_iff split: if_splits)

lemma add_evidence_rows [simp]: "mt_rows (snd (add_evidence e t)) = mt_rows t" "mt_next (snd (add_evidence e t)) = mt_next t"
  "mt_versions (snd (add_evidence e t)) = mt_versions t" "me_memory (fst (add_evidence e t)) = me_memory e"
  by (auto simp: add_evidence_def Let_def split: option.splits)

text \<open>The upsert: a decision's row for the same horizon is replaced in place, anything else is appended.\<close>

lemma add_evidence_replaces:
  assumes "events_ok t" "me_decision e = Some d" "first_such (same_event (me_memory e) d (me_horizon e)) (mt_evidence t) = Some old" "add_evidence e t = (row, t')"
  shows "old \<in> set (mt_evidence t) \<and> same_event (me_memory e) d (me_horizon e) old \<and> row = e\<lparr>me_id := me_id old\<rparr>
    \<and> t' = t\<lparr>mt_evidence := map (\<lambda>x. if x = old then row else x) (mt_evidence t)\<rparr>"
proof -
  have old: "old \<in> set (mt_evidence t)" "same_event (me_memory e) d (me_horizon e) old" using first_such_Some [OF assms(3)] by auto
  have "me_id x = me_id old \<longleftrightarrow> x = old" if "x \<in> set (mt_evidence t)" for x
    using that old(1) assms(1) unfolding events_ok_def by (metis (mono_tags, lifting) distinct_map inj_onD)
  then show ?thesis using assms(2-4) old by (auto simp: add_evidence_def Let_def)
qed

lemma add_evidence_appends:
  assumes "\<And>d. me_decision e = Some d \<Longrightarrow> first_such (same_event (me_memory e) d (me_horizon e)) (mt_evidence t) = None" "add_evidence e t = (row, t')"
  shows "row = e\<lparr>me_id := mt_next_evidence t\<rparr> \<and> t' = t\<lparr>mt_evidence := mt_evidence t @ [row], mt_next_evidence := mt_next_evidence t + 1\<rparr>"
  using assms by (cases "me_decision e") (auto simp: add_evidence_def Let_def)

lemma add_evidence_cases:
  assumes "events_ok t" "add_evidence e t = (row, t')"
  obtains (replaced) d old where "me_decision e = Some d" "old \<in> set (mt_evidence t)" "same_event (me_memory e) d (me_horizon e) old" "row = e\<lparr>me_id := me_id old\<rparr>"
      "t' = t\<lparr>mt_evidence := map (\<lambda>x. if x = old then row else x) (mt_evidence t)\<rparr>"
    | (appended) "\<forall>d. me_decision e = Some d \<longrightarrow> filter (same_event (me_memory e) d (me_horizon e)) (mt_evidence t) = []" "row = e\<lparr>me_id := mt_next_evidence t\<rparr>"
      "t' = t\<lparr>mt_evidence := mt_evidence t @ [row], mt_next_evidence := mt_next_evidence t + 1\<rparr>"
proof (cases "\<exists>d old. me_decision e = Some d \<and> first_such (same_event (me_memory e) d (me_horizon e)) (mt_evidence t) = Some old")
  case True
  then show ?thesis using replaced add_evidence_replaces [OF assms(1) _ _ assms(2)] by blast
next
  case False
  then have none: "first_such (same_event (me_memory e) d (me_horizon e)) (mt_evidence t) = None" if "me_decision e = Some d" for d
    using that by (cases "first_such (same_event (me_memory e) d (me_horizon e)) (mt_evidence t)") auto
  then have "\<forall>d. me_decision e = Some d \<longrightarrow> filter (same_event (me_memory e) d (me_horizon e)) (mt_evidence t) = []"
    by (simp add: first_such_None filter_empty_conv)
  then show ?thesis using appended add_evidence_appends [OF none assms(2)] by blast
qed

lemma events_ok_add:
  assumes ok: "events_ok t" and add: "add_evidence e t = (row, t')"
  shows "events_ok t'"
  using ok add
proof (cases rule: add_evidence_cases)
  case (replaced d old)
  let ?g = "\<lambda>x. if x = old then row else x"
  have same: "same_event m k h (?g x) = same_event m k h x" "me_id (?g x) = me_id x" for m k h x
    using replaced(1,3,4) by (auto simp: same_event_def)
  have only: "filter (same_event (me_memory x) k (me_horizon x)) (map ?g (mt_evidence t)) = [?g x]"
    if "x \<in> set (mt_evidence t)" "me_decision x = Some k" for x k
  proof -
    have "filter (same_event (me_memory x) k (me_horizon x)) (mt_evidence t) = [x]" using ok that by (simp add: events_ok_def)
    then show ?thesis by (simp only: filter_map comp_def same list.map)
  qed
  have keys: "me_memory (?g x) = me_memory x \<and> me_horizon (?g x) = me_horizon x \<and> me_decision (?g x) = me_decision x" for x
    using replaced(1,3,4) by (auto simp: same_event_def)
  have "distinct (map me_id (map ?g (mt_evidence t)))" using ok unfolding map_map comp_def same events_ok_def by simp
  moreover have "\<forall>x \<in> set (mt_evidence t). me_id (?g x) < mt_next_evidence t" unfolding same using ok by (simp add: events_ok_def)
  moreover have "\<forall>x \<in> set (mt_evidence t). \<forall>k. me_decision (?g x) = Some k \<longrightarrow> filter (same_event (me_memory (?g x)) k (me_horizon (?g x))) (map ?g (mt_evidence t)) = [?g x]"
    using only keys by simp
  moreover have ev: "mt_evidence t' = map ?g (mt_evidence t)" "mt_next_evidence t' = mt_next_evidence t" by (simp_all add: replaced(5))
  ultimately show ?thesis unfolding events_ok_def ev set_map ball_simps by (intro conjI)
next
  case appended
  have fresh: "\<not> same_event (me_memory x) k (me_horizon x) row" if "x \<in> set (mt_evidence t)" "me_decision x = Some k" for x k
    using appended(1,2) that by (auto simp: same_event_def filter_empty_conv)
  show ?thesis using ok appended fresh unfolding events_ok_def by (auto simp: same_event_def)
qed

lemma add_evidence_others:
  assumes ok: "events_ok t" and add: "add_evidence e t = (row, t')" and m: "m \<noteq> me_memory e"
  shows "filter (\<lambda>x. me_memory x = m) (mt_evidence t') = filter (\<lambda>x. me_memory x = m) (mt_evidence t)"
  using ok add
proof (cases rule: add_evidence_cases)
  case (replaced d old)
  let ?g = "\<lambda>x. if x = old then row else x"
  have "me_memory (?g x) = me_memory x" for x using replaced(3,4) by (simp add: same_event_def)
  then have "filter (\<lambda>x. me_memory x = m) (map ?g (mt_evidence t)) = map ?g (filter (\<lambda>x. me_memory x = m) (mt_evidence t))"
    by (simp only: filter_map comp_def)
  also have "\<dots> = filter (\<lambda>x. me_memory x = m) (mt_evidence t)"
    by (rule map_idI) (use replaced(3) m in \<open>auto simp: same_event_def\<close>)
  finally show ?thesis by (simp add: replaced(5))
qed (use m in simp)

lemma add_evidence_stored:
  assumes ok: "events_ok t" and add: "add_evidence e t = (row, t')"
  shows "row \<in> set (mt_evidence t') \<and> row = e\<lparr>me_id := me_id row\<rparr>"
  using ok add by (cases rule: add_evidence_cases) auto

subsection \<open>Status by evidence\<close>

lemma list_evidence_mem: "set (list_evidence i t) = {e \<in> set (mt_evidence t). me_memory e = i}"
  by (auto simp: list_evidence_def)

lemma memory_update_Inr:
  assumes "memory_update i f t = (Inr x, t')"
  shows "\<exists>r. memory_get i t = Some r \<and> x = f r \<and> t' = t\<lparr>mt_rows := map (\<lambda>y. if mm_id y = i then f y else y) (mt_rows t)\<rparr>"
  using assms by (auto simp: memory_update_def split: option.splits if_splits)

lemma next_status_reason:
  assumes "next_status cfg n c s \<noteq> s"
  shows "lc_min_count cfg \<le> n \<and> (next_status cfg n c s = ''VALIDATED'' \<and> f_le (lc_validate cfg) c \<or> next_status cfg n c s = ''REVALIDATION_REQUIRED'' \<and> f_le c (lc_revalidate cfg))"
proof (cases "lc_min_count cfg \<le> n")
  case True
  then show ?thesis using assms by (cases "f_le (lc_validate cfg) c"; cases "f_le c (lc_revalidate cfg)") (simp_all add: next_status_def)
qed (use assms in \<open>simp add: next_status_def\<close>)

text \<open>A recorded outcome: the evidence row, the confidence over all of the memory's evidence, and the one row written.\<close>

lemma record_outcome_parts:
  assumes "record_outcome env now i x t = (Inr rep, t')"
  shows "\<exists>r w row t1 a. memory_get i t = Some r \<and> add_evidence (new_evidence now i w x) t = (row, t1) \<and> assess_outcome env now x (mm_meta r) (list_evidence i t1) = Inr a
     \<and> memory_update i (memory_outcome_row env now x a (int (length (list_evidence i t1))) (me_id row) r) t1 = (Inr (memory_outcome_row env now x a (int (length (list_evidence i t1))) (me_id row) r r), t')
     \<and> rep = outcome_answer i a (int (length (list_evidence i t1))) (memory_outcome_row env now x a (int (length (list_evidence i t1))) (me_id row) r r)"
proof -
  from assms obtain r where r: "memory_get i t = Some r" by (auto simp: record_outcome_def split: option.splits)
  from assms r obtain w where w: "evidence_weight_of (mn_half_power env) (mn_config env) now (new_event x) = Inr w"
    by (auto simp: record_outcome_def split: sum.splits)
  obtain row t1 where add: "add_evidence (new_evidence now i w x) t = (row, t1)" by (cases "add_evidence (new_evidence now i w x) t")
  let ?n = "int (length (list_evidence i t1))"
  note run = assms [unfolded record_outcome_def Let_def r option.case w sum.case add prod.case]
  from run obtain a where a: "assess_outcome env now x (mm_meta r) (list_evidence i t1) = Inr a" by (auto split: sum.splits)
  note run = run [unfolded a sum.case]
  from run obtain y where y: "memory_update i (memory_outcome_row env now x a ?n (me_id row) r) t1 = (Inr y, t')" "rep = outcome_answer i a ?n y"
    by (auto split: prod.splits sum.splits)
  have "memory_get i t1 = Some r" using r add_evidence_rows(1) [of "new_evidence now i w x" t] add by (simp add: memory_get_def)
  then have "y = memory_outcome_row env now x a ?n (me_id row) r r" using memory_update_Inr [OF y(1)] by auto
  then show ?thesis using r add a y by blast
qed

text \<open>A memory's status follows its evidence: an outcome recorded on consistent tables stores its evidence row, counts a decision once for a horizon, and recomputes the
  confidence, between 0 and 1, over every evidence row of the memory; the status changes only with enough evidence, to VALIDATED at a confidence of at least the upper bound or
  to REVALIDATION_REQUIRED at one of at most the lower bound. No other memory's row or evidence changes, and of this row only the status and the metadata.\<close>

theorem outcome_status_justified:
  assumes "events_ok t" "record_outcome env now i x t = (Inr rep, t')"
  shows "\<exists>r. memory_get i t = Some r
     \<and> weighted_confidence (mn_half_power env) (mn_config env) now (map event_of (list_evidence i t')) = Inr (mo_confidence rep)
     \<and> mo_count rep = int (length (list_evidence i t')) \<and> f_le (Fin 0) (mo_confidence rep) \<and> f_le (mo_confidence rep) (Fin 1)
     \<and> (mo_status rep \<noteq> mm_status r \<longrightarrow> lc_min_count (mn_config env) \<le> mo_count rep
          \<and> (mo_status rep = ''VALIDATED'' \<and> f_le (lc_validate (mn_config env)) (mo_confidence rep)
             \<or> mo_status rep = ''REVALIDATION_REQUIRED'' \<and> f_le (mo_confidence rep) (lc_revalidate (mn_config env))))
     \<and> (\<exists>meta. mt_rows t' = map (\<lambda>y. if mm_id y = i then y\<lparr>mm_meta := meta, mm_status := mo_status rep\<rparr> else y) (mt_rows t))
     \<and> (\<forall>m. m \<noteq> i \<longrightarrow> filter (\<lambda>e. me_memory e = m) (mt_evidence t') = filter (\<lambda>e. me_memory e = m) (mt_evidence t))
     \<and> (\<forall>d. oi_decision x = Some d \<longrightarrow> length (filter (same_event i d (oi_horizon x)) (mt_evidence t')) = 1)"
proof -
  obtain r w row t1 a where p: "memory_get i t = Some r" "add_evidence (new_evidence now i w x) t = (row, t1)" "assess_outcome env now x (mm_meta r) (list_evidence i t1) = Inr a"
     "memory_update i (memory_outcome_row env now x a (int (length (list_evidence i t1))) (me_id row) r) t1 = (Inr (memory_outcome_row env now x a (int (length (list_evidence i t1))) (me_id row) r r), t')"
     "rep = outcome_answer i a (int (length (list_evidence i t1))) (memory_outcome_row env now x a (int (length (list_evidence i t1))) (me_id row) r r)"
    using record_outcome_parts [OF assms(2)] by blast
  let ?n = "int (length (list_evidence i t1))"
  have rep: "mo_count rep = ?n" "mo_confidence rep = fst a" "mo_status rep = next_status (mn_config env) ?n (fst a) (mm_status r)"
    by (simp_all add: p(5) outcome_answer_def memory_outcome_row_def)
  have rows: "mt_rows t1 = mt_rows t" using add_evidence_rows(1) [of "new_evidence now i w x" t] p(2) by simp
  have t': "t' = t1\<lparr>mt_rows := map (\<lambda>y. if mm_id y = i then memory_outcome_row env now x a ?n (me_id row) r y else y) (mt_rows t)\<rparr>"
    using memory_update_Inr [OF p(4)] rows by auto
  then have ev: "mt_evidence t' = mt_evidence t1" "list_evidence i t' = list_evidence i t1" by (simp_all add: list_evidence_def)
  have conf: "weighted_confidence (mn_half_power env) (mn_config env) now (map event_of (list_evidence i t')) = Inr (mo_confidence rep)"
    using p(3) unfolding assess_outcome_def ev rep(2) by (auto simp: bindR_Inr_iff)
  have e: "me_memory (new_evidence now i w x) = i" "me_decision (new_evidence now i w x) = oi_decision x" "me_horizon (new_evidence now i w x) = oi_horizon x"
    by (simp_all add: new_evidence_def)
  have others: "filter (\<lambda>e. me_memory e = m) (mt_evidence t') = filter (\<lambda>e. me_memory e = m) (mt_evidence t)" if "m \<noteq> i" for m
    using add_evidence_others [OF assms(1) p(2)] that e(1) by (simp add: ev)
  have stored: "row \<in> set (mt_evidence t')" "me_memory row = i" "me_decision row = oi_decision x" "me_horizon row = oi_horizon x"
    using add_evidence_stored [OF assms(1) p(2)] e by (simp_all add: ev) (metis evidence_row.ext_inject evidence_row.surjective evidence_row.update_convs(1))+
  have "events_ok t1" by (rule events_ok_add [OF assms(1) p(2)])
  then have once: "filter (same_event i d (oi_horizon x)) (mt_evidence t') = [row]" if "oi_decision x = Some d" for d
    using stored that by (auto simp: events_ok_def ev)
  have written: "\<exists>meta. mt_rows t' = map (\<lambda>y. if mm_id y = i then y\<lparr>mm_meta := meta, mm_status := mo_status rep\<rparr> else y) (mt_rows t)"
    unfolding t' by (auto simp: memory_outcome_row_def rep)
  have reason: "mo_status rep \<noteq> mm_status r \<longrightarrow> lc_min_count (mn_config env) \<le> mo_count rep
          \<and> (mo_status rep = ''VALIDATED'' \<and> f_le (lc_validate (mn_config env)) (mo_confidence rep)
             \<or> mo_status rep = ''REVALIDATION_REQUIRED'' \<and> f_le (mo_confidence rep) (lc_revalidate (mn_config env)))"
    unfolding rep using next_status_reason by blast
  show ?thesis
    by (intro exI [of _ r] conjI p(1) conf reason written) (use weighted_confidence_bounds [OF conf] others once in \<open>simp_all add: rep ev\<close>)
qed

subsection \<open>Neutral evidence\<close>

text \<open>An outcome with no measured return and no given quality, seen at the time of weighing.\<close>

definition unmeasured :: "int \<Rightarrow> weighed_event \<Rightarrow> bool" where
  "unmeasured now e \<longleftrightarrow> oe_excess e = None \<and> oe_quality e = None \<and> oe_applicability e = None \<and> oe_created e = Some now"

lemma half_step: "\<bar>m\<bar> \<le> 2 ^ 52 \<Longrightarrow> f_of_rat (of_int m / 2) = Fin (of_int m / 2)"
proof -
  assume m: "\<bar>m\<bar> \<le> 2 ^ 52"
  have "rep64 (of_int m * 2 powi - 1)" by (rule rep64_scaled) (use m in simp_all)
  moreover have "\<bar>of_int m / 2 :: rat\<bar> < 2 ^ 1024"
  proof -
    have "\<bar>of_int m :: rat\<bar> \<le> 2 ^ 52" using m by (metis of_int_abs of_int_le_iff of_int_numeral of_int_power)
    then have "\<bar>of_int m / 2 :: rat\<bar> \<le> 2 ^ 52" by simp
    then show ?thesis by (rule le_less_trans) simp
  qed
  ultimately show ?thesis by (intro f_of_rat_rep) (simp_all add: power_int_minus)
qed

lemma unmeasured_weight:
  assumes "unmeasured now e" "pw (Fin 0) = Fin 1"
  shows "evidence_weight_of pw default_lifecycle now e = Inr (Fin (1 / 2)) \<and> evidence_direction default_lifecycle e = 0"
proof -
  have half: "f_of_rat (1 / 2) = Fin (1 / 2)" using half_step [of 1] by simp
  have "age_days now now = Inr (Fin 0)" by (simp add: age_days_def divided_def f_div_def py_max_def)
  then show ?thesis using assms half
    by (simp add: unmeasured_def evidence_weight_of_def significance_def recency_def default_lifecycle_def divided_def f_div_def f_mul_def clamped_or_def evidence_direction_def)
qed

lemma unmeasured_fold:
  assumes "\<forall>e \<in> set es. unmeasured now e" "pw (Fin 0) = Fin 1" "0 \<le> k" "k + int (length es) \<le> 2 ^ 52"
  shows "foldR (confidence_step pw default_lifecycle now) (Fin 0, Fin (of_int k / 2)) es = Inr (Fin 0, Fin (of_int (k + int (length es)) / 2))"
  using assms
proof (induction es arbitrary: k)
  case Nil
  then show ?case by simp
next
  case (Cons e es)
  have "f_add (Fin (of_int k / 2)) (Fin (1 / 2)) = Fin (of_int (k + 1) / 2)"
    using half_step [of "k + 1"] Cons.prems(3,4) by (simp add: add_divide_distrib)
  then have "confidence_step pw default_lifecycle now (Fin 0, Fin (of_int k / 2)) e = Inr (Fin 0, Fin (of_int (k + 1) / 2))"
    using unmeasured_weight [of now e pw] Cons.prems(1,2) by (simp add: confidence_step_def f_mul_def)
  then show ?case using Cons.IH [of "k + 1"] Cons.prems by (simp add: algebra_simps)
qed

text \<open>Neutral evidence does not pull towards one half: with the default configuration, three or more outcomes without a measured return, and nothing else, bring the
  confidence of a memory below one third and demand its revalidation, whatever its status was; more of them lower it further.\<close>

theorem unmeasured_outcomes_discredit:
  assumes "\<forall>e \<in> set es. unmeasured now e" "pw (Fin 0) = Fin 1" "3 \<le> length es" "length es \<le> 2 ^ 50"
  shows "\<exists>c. weighted_confidence pw default_lifecycle now es = Inr c \<and> f_le c (f_of_rat (2 / (4 + of_nat (length es)))) \<and> f_lt c (Fin (1 / 2))
     \<and> next_status default_lifecycle (int (length es)) c s = ''REVALIDATION_REQUIRED''"
proof -
  let ?n = "length es"
  have n: "int ?n \<le> 2 ^ 50" using assms(4) by (metis of_nat_le_iff of_nat_numeral of_nat_power)
  have fold: "foldR (confidence_step pw default_lifecycle now) (Fin 0, Fin 0) es = Inr (Fin 0, Fin (of_int (int ?n) / 2))"
    using unmeasured_fold [of es now pw 0] assms(1,2) n by simp
  have "f_of_rat (of_int (4 + int ?n) / 2) = Fin (of_int (4 + int ?n) / 2)" by (rule half_step) (use n in simp)
  then have sum: "f_add (Fin 2) (Fin (of_int (int ?n) / 2)) = Fin (of_int (4 + int ?n) / 2)" by (simp add: add_divide_distrib)
  have one: "f_add (Fin 1) (Fin 0) = Fin 1" using f_of_rat_of_int [of 1] by simp
  define c where "c = f_of_rat (2 / (4 + of_nat ?n))"
  have div: "divided (Fin 1) (Fin (of_int (4 + int ?n) / 2)) = Inr c" by (simp add: divided_def f_div_def c_def)
  have small: "f_le c (f_of_rat (3 / 10))" unfolding c_def
    by (rule f_of_rat_mono) (use assms(3) in \<open>simp add: field_simps\<close>)
  have low: "f_lt (f_of_rat (3 / 10)) (Fin (1 / 2))" "f_lt (f_of_rat (3 / 10)) (f_of_rat (7 / 10))" "f_lt (f_of_rat (3 / 10)) (Fin 1)" by code_simp+
  have nonneg: "f_le (Fin 0) c" by (simp add: c_def)
  have below: "f_lt c (Fin (1 / 2))" "f_lt c (f_of_rat (7 / 10))" "f_lt c (Fin 1)" using f_le_lt_trans [OF small] low by blast+
  have clamped: "clamp c = c"
  proof -
    have "py_min (Fin 1) c = c" using below(3) by (simp add: py_min_def)
    moreover have "py_max (Fin 0) c = c" using nonneg by (cases c) (auto simp: py_max_def)
    ultimately show ?thesis by (simp add: clamp_def)
  qed
  have "es \<noteq> []" using assms(3) by auto
  then have "weighted_confidence pw default_lifecycle now es = Inr c"
    unfolding weighted_confidence_def fold by (simp only: if_False bindR_simps prod.case sum one div clamped)
  moreover have "next_status default_lifecycle (int ?n) c s = ''REVALIDATION_REQUIRED''"
  proof -
    have "\<not> f_le (f_of_rat (7 / 10)) c" using below(2) f_le_lt_trans f_lt_irrefl by blast
    then show ?thesis using small assms(3) by (simp add: next_status_def default_lifecycle_def)
  qed
  moreover have "f_le c (f_of_rat (2 / (4 + of_nat ?n)))" by (simp add: c_def)
  ultimately show ?thesis using below(1) by blast
qed

subsection \<open>Conflicts\<close>

lemma snapshot_frame:
  "mt_rows (snapshot_memory r why t) = mt_rows t" "mt_next (snapshot_memory r why t) = mt_next t" "rows_ok (snapshot_memory r why t) = rows_ok t"
  "mt_evidence (snapshot_memory r why t) = mt_evidence t" "mt_next_evidence (snapshot_memory r why t) = mt_next_evidence t"
  by (simp_all add: snapshot_memory_def Let_def rows_ok_def)

lemma supersede_parts:
  assumes "supersede now fresh c sid old p kind t = (Inr ans, t')"
  shows "\<exists>g x t1. memory_update (mm_id old) (\<lambda>r. r\<lparr>mm_status := ''SUPERSEDED'', mm_group := Some g, mm_last_seen := Some now\<rparr>) t = (Inr x, t1)
    \<and> (\<exists>y. write_created (p\<lparr>mm_key := Some (cd_key c @ ''::'' @ sid), mm_group := Some g, mm_status := ''ACTIVE''\<rparr>) t1 = (Inr y, t') \<and> ans = Conflicted (mm_id y) (mm_id old) g kind)"
  using assms unfolding supersede_def Let_def by (fastforce split: prod.splits sum.splits)

lemma write_created_Inr:
  assumes "write_created r t = (Inr y, t')"
  shows "y = r\<lparr>mm_id := mt_next t\<rparr> \<and> \<not> key_taken (mt_rows t) (mt_next t) (mm_key r) \<and> mt_rows t' = mt_rows t @ [y] \<and> mt_next t' = mt_next t + 1
    \<and> mt_evidence t' = mt_evidence t \<and> mt_next_evidence t' = mt_next_evidence t \<and> mt_versions t' = mt_versions t"
  using assms by (auto simp: write_created_def memory_create_def enqueue_index_def Let_def split: if_splits prod.splits sum.splits)

lemma rows_ok_after:
  assumes "rows_ok t" "mt_rows t' = map g (mt_rows t)" "mt_next t' = mt_next t" "\<And>r. mm_id (g r) = mm_id r" "\<And>r. mm_key (g r) = mm_key r"
  shows "rows_ok t'"
  using rows_ok_map [OF assms(1), of g, OF assms(4,5)] assms(2,3) by (simp add: rows_ok_def)

lemma unique_keys_append:
  assumes "unique_keys rs" "\<not> key_taken rs (mm_id y) (mm_key y)"
  shows "unique_keys (rs @ [y])"
proof -
  have "mm_id r = mm_id y" if "r \<in> set rs" "mm_key r = mm_key y" "mm_key r \<noteq> None" for r
    using assms(2) that unfolding key_taken_def by metis
  then show ?thesis using assms(1) unfolding unique_keys_def by (metis Un_iff empty_iff insert_iff list.set set_append)
qed

lemma rows_ok_append:
  assumes "rows_ok t" "mt_rows t' = mt_rows t @ [y]" "mt_next t' = mt_next t + 1" "mm_id y = mt_next t" "\<not> key_taken (mt_rows t) (mt_next t) (mm_key y)"
  shows "rows_ok t'"
proof -
  have "unique_keys (mt_rows t')" using unique_keys_append [of "mt_rows t" y] assms by (simp add: rows_ok_def)
  moreover have "distinct (map mm_id (mt_rows t'))" using assms(1,2,4) by (auto simp: rows_ok_def)
  moreover have "\<forall>r \<in> set (mt_rows t'). mm_id r < mt_next t'" using assms(1-4) by (auto simp: rows_ok_def)
  ultimately show ?thesis by (simp add: rows_ok_def)
qed

lemma rows_ok_created:
  assumes "rows_ok t" "write_created r t = (Inr y, t')"
  shows "rows_ok t'"
  using rows_ok_append [OF assms(1), of t' y] write_created_Inr [OF assms(2)] by simp

lemma merge_conflict_parts:
  assumes "merge_memory now fresh c src sid meta t = (Inr (Conflicted n o_id g kind), t')"
  shows "\<exists>old t1 x y. memory_by_key (cd_key c) t = Some old \<and> mm_id old = o_id \<and> resolve_conflict old c meta = Inr (Supersede kind)
    \<and> memory_update o_id (\<lambda>r. r\<lparr>mm_status := ''SUPERSEDED'', mm_group := Some g, mm_last_seen := Some now\<rparr>) (snapshot_memory old ''merge'' t) = (Inr x, t1)
    \<and> write_created ((memory_payload now c src meta)\<lparr>mm_key := Some (cd_key c @ ''::'' @ sid), mm_group := Some g, mm_status := ''ACTIVE''\<rparr>) t1 = (Inr y, t') \<and> n = mm_id y"
proof (cases "memory_by_key (cd_key c) t")
  case None
  then show ?thesis using assms by (auto simp: merge_memory_def Let_def bindR_Inr_iff split: prod.splits)
next
  case (Some old)
  show ?thesis
  proof (cases "resolve_conflict old c meta")
    case (Inl e)
    then show ?thesis using assms Some by (simp add: merge_memory_def Let_def)
  next
    case (Inr res)
    note run = assms [unfolded merge_memory_def Let_def Some option.case Inr sum.case]
    show ?thesis
    proof (cases res)
      case (Supersede k)
      then have "supersede now fresh c sid old (memory_payload now c src meta) k (snapshot_memory old ''merge'' t) = (Inr (Conflicted n o_id g kind), t')"
        using run by simp
      from supersede_parts [OF this] show ?thesis using Some Inr Supersede by auto
    qed (use run in \<open>auto simp: bindR_Inr_iff split: prod.splits\<close>)
  qed
qed

lemma resolve_superseded:
  assumes "resolve_conflict old c meta = Inr (Supersede kind)" "mm_facts old' = mm_facts old" "mm_meta old' = mm_meta old" "mm_status old' = ''SUPERSEDED''"
  shows "\<exists>k. resolve_conflict old' c meta = Inr (Supersede k)"
proof -
  have up: "str_upper ''SUPERSEDED'' \<noteq> ''VALIDATED''" by code_simp
  show ?thesis using assms up by (auto simp: resolve_conflict_def Let_def bindR_Inr_iff split: if_splits)
qed

lemma supersede_taken:
  assumes "rows_ok t" "old \<in> set (mt_rows t)" "y \<in> set (mt_rows t)" "mm_id y \<noteq> mm_id old" "mm_key y = Some (cd_key c @ ''::'' @ sid)"
  shows "fst (supersede now fresh c sid old p kind t) = Inl integrity_error"
proof -
  define g where "g = (case mm_group old of None \<Rightarrow> fresh | Some g \<Rightarrow> if g = [] then fresh else g)"
  define up where "up = (\<lambda>r :: memory_row. r\<lparr>mm_status := ''SUPERSEDED'', mm_group := Some g, mm_last_seen := Some now\<rparr>)"
  define t2 where "t2 = t\<lparr>mt_rows := map (\<lambda>x. if mm_id x = mm_id old then up x else x) (mt_rows t)\<rparr>"
  have upd: "memory_update (mm_id old) up t = (Inr (up old), t2)"
    unfolding t2_def by (rule memory_update_row [OF assms(1,2)]) (simp add: up_def)
  have "y \<in> set (mt_rows t2)" "mt_next t2 = mt_next t" using assms(3,4) by (auto simp: t2_def)
  moreover have "mm_id y < mt_next t" using assms(1,3) by (simp add: rows_ok_def)
  ultimately have "key_taken (mt_rows t2) (mt_next t2) (mm_key y)" using assms(5) unfolding key_taken_def by force
  then have "write_created (p\<lparr>mm_key := Some (cd_key c @ ''::'' @ sid), mm_group := Some g, mm_status := ''ACTIVE''\<rparr>) t2 = (Inl integrity_error, t2)"
    by (simp add: write_created_def memory_create_def Let_def assms(5))
  then show ?thesis unfolding supersede_def Let_def g_def [symmetric] up_def [symmetric] upd by simp
qed

text \<open>After a conflict the successor of a memory is out of reach of the merge: on consistent tables the next candidate with the same merge key meets the superseded
  record again, not the active successor, which has the key with the source appended; and merging the same candidate from the same source again raises the unique-key error
  instead of finding its work done.\<close>

theorem conflict_retry_raises:
  assumes "rows_ok t" "merge_memory now fresh c src sid meta t = (Inr (Conflicted n o_id g kind), t1)"
  shows "(\<exists>r. memory_by_key (cd_key c) t1 = Some r \<and> mm_id r = o_id \<and> mm_status r = ''SUPERSEDED'')
    \<and> (\<exists>s \<in> set (mt_rows t1). mm_id s = n \<and> n \<noteq> o_id \<and> mm_status s = ''ACTIVE'' \<and> mm_key s = Some (cd_key c @ ''::'' @ sid) \<and> mm_facts s = cd_facts c)
    \<and> fst (merge_memory now' fresh' c src' sid meta t1) = Inl integrity_error"
proof -
  obtain old t0 x y where p: "memory_by_key (cd_key c) t = Some old" "mm_id old = o_id" "resolve_conflict old c meta = Inr (Supersede kind)"
    "memory_update o_id (\<lambda>r. r\<lparr>mm_status := ''SUPERSEDED'', mm_group := Some g, mm_last_seen := Some now\<rparr>) (snapshot_memory old ''merge'' t) = (Inr x, t0)"
    "write_created ((memory_payload now c src meta)\<lparr>mm_key := Some (cd_key c @ ''::'' @ sid), mm_group := Some g, mm_status := ''ACTIVE''\<rparr>) t0 = (Inr y, t1)" "n = mm_id y"
    using merge_conflict_parts [OF assms(2)] by blast
  let ?f = "\<lambda>r. r\<lparr>mm_status := ''SUPERSEDED'', mm_group := Some g, mm_last_seen := Some now\<rparr>"
  let ?g = "\<lambda>r. if mm_id r = o_id then ?f r else r"
  let ?key = "cd_key c @ ''::'' @ sid"
  have t0: "mt_rows t0 = map ?g (mt_rows t)" "mt_next t0 = mt_next t" using memory_update_Inr [OF p(4)] snapshot_frame(1,2) by auto
  have y: "mm_id y = mt_next t" "mm_status y = ''ACTIVE''" "mm_key y = Some ?key" "mm_facts y = cd_facts c" "mt_rows t1 = map ?g (mt_rows t) @ [y]" "mt_next t1 = mt_next t + 1"
    using write_created_Inr [OF p(5)] t0 by (auto simp: memory_payload_def scoped_def Let_def)
  have old: "old \<in> set (mt_rows t)" "mm_key old = Some (cd_key c)" using memory_by_key_Some [OF p(1)] by auto
  have less: "mm_id r < mt_next t" if "r \<in> set (mt_rows t)" for r using assms(1) that by (simp add: rows_ok_def)
  have same: "mm_key (?g r) = mm_key r" "mm_id (?g r) = mm_id r" for r by simp_all
  have found: "memory_by_key (cd_key c) t1 = Some (?f old)"
    using p(1) unfolding memory_by_key_def y(5) first_such_append first_such_map same by (simp add: p(2))
  have "rows_ok t0"
    by (rule rows_ok_after [OF assms(1) t0]) simp_all
  then have ok1: "rows_ok t1" by (rule rows_ok_created [OF _ p(5)])
  obtain k where k: "resolve_conflict (?f old) c meta = Inr (Supersede k)" using resolve_superseded [OF p(3), of "?f old"] by auto
  let ?s = "snapshot_memory (?f old) ''merge'' t1"
  have in1: "?f old \<in> set (mt_rows t1)" by (rule conjunct1 [OF memory_by_key_Some [OF found]])
  have s: "rows_ok ?s" "?f old \<in> set (mt_rows ?s)" "mt_rows ?s = mt_rows t1" "mt_next ?s = mt_next t + 1"
    unfolding snapshot_frame by (rule ok1 in1 refl y(6))+
  have ne: "mm_id y \<noteq> o_id" using y(1) less [OF old(1)] p(2) by simp
  have "fst (supersede now' fresh' c sid (?f old) q k ?s) = Inl integrity_error" for q
  proof (rule supersede_taken [OF s(1,2) _ _ y(3)])
    show "y \<in> set (mt_rows ?s)" unfolding snapshot_frame y(5) by simp
    show "mm_id y \<noteq> mm_id (?f old)" using ne p(2) by simp
  qed
  then have "fst (merge_memory now' fresh' c src' sid meta t1) = Inl integrity_error"
    unfolding merge_memory_def Let_def found option.case k sum.case memory_resolution.case by simp
  moreover have "mm_id (?f old) = o_id" "mm_status (?f old) = ''SUPERSEDED''" using p(2) by simp_all
  moreover have "y \<in> set (mt_rows t1)" using y(5) by simp
  ultimately show ?thesis using found y(2-4) p(6) ne by blast
qed

subsection \<open>The tables in use\<close>

text \<open>The operations of the services, each alone on the tables; an operation that raises keeps what it has written.\<close>

inductive memory_step :: "memory_tables \<Rightarrow> memory_tables \<Rightarrow> bool" where
  step_merge: "merge_memory now fresh c src sid meta t = (ans, t') \<Longrightarrow> memory_step t t'"
| step_outcome: "record_outcome env now i x t = (rep, t') \<Longrightarrow> memory_step t t'"
| step_expire: "0 \<le> limit \<Longrightarrow> expire_due now limit t = (ids, t') \<Longrightarrow> memory_step t t'"
| step_validate: "memory_validate i t = (r, t') \<Longrightarrow> memory_step t t'"

definition no_memories :: memory_tables where
  "no_memories = \<lparr>mt_rows = [], mt_next = 1, mt_evidence = [], mt_next_evidence = 1, mt_versions = [], mt_tasks = []\<rparr>"

definition same_events :: "memory_tables \<Rightarrow> memory_tables \<Rightarrow> bool" where
  "same_events t t' \<longleftrightarrow> mt_evidence t' = mt_evidence t \<and> mt_next_evidence t' = mt_next_evidence t"

definition tables_ok :: "memory_tables \<Rightarrow> bool" where
  "tables_ok t \<longleftrightarrow> rows_ok t \<and> events_ok t"

lemma events_ok_same: "events_ok t \<Longrightarrow> same_events t t' \<Longrightarrow> events_ok t'"
  unfolding events_ok_def same_events_def by simp

text \<open>A write that keeps the id and the merge key of every row keeps the tables consistent, and so does one that gives the row a key it already had.\<close>

lemma memory_update_ok:
  assumes "tables_ok t" "memory_update i f t = (res, t')" "\<And>r. memory_get i t = Some r \<Longrightarrow> mm_id (f r) = i \<and> mm_key (f r) = mm_key r"
  shows "tables_ok t' \<and> (mt_next t' = mt_next t)"
proof (cases res)
  case (Inl e)
  then show ?thesis using assms(1,2) by (auto simp: memory_update_def split: option.splits if_splits)
next
  case (Inr x)
  obtain r where r: "memory_get i t = Some r" and t': "t' = t\<lparr>mt_rows := map (\<lambda>y. if mm_id y = i then f y else y) (mt_rows t)\<rparr>"
    using memory_update_Inr [of i f t x t'] assms(2) Inr by blast
  let ?g = "\<lambda>y. if y = r then f r else y"
  have row: "r \<in> set (mt_rows t)" "mm_id r = i" using memory_get_Some [OF r] by auto
  have ok: "rows_ok t" using assms(1) by (simp add: tables_ok_def)
  have "y = r \<longleftrightarrow> mm_id y = i" if "y \<in> set (mt_rows t)" for y
    using ok row that same_id_same_row unfolding rows_ok_def by metis
  then have rows: "mt_rows t' = map ?g (mt_rows t)" unfolding t' by (auto intro!: map_cong)
  have "rows_ok t'" by (rule rows_ok_after [OF ok rows]) (use assms(3) [OF r] row(2) in \<open>simp_all add: t'\<close>)
  then show ?thesis using assms(1) events_ok_same [of t t'] by (simp add: tables_ok_def same_events_def t')
qed

lemma enqueue_ok [simp]: "tables_ok (enqueue_index i t) = tables_ok t"
  by (simp add: enqueue_index_def tables_ok_def rows_ok_def events_ok_def)

lemma snapshot_ok [simp]: "tables_ok (snapshot_memory r why t) = tables_ok t"
  using snapshot_frame [of r why t] by (simp add: tables_ok_def events_ok_def)

lemma write_updated_ok:
  assumes "tables_ok t" "write_updated i f t = (res, t')" "\<And>r. memory_get i t = Some r \<Longrightarrow> mm_id (f r) = i \<and> mm_key (f r) = mm_key r"
  shows "tables_ok t'"
proof -
  obtain u t1 where u: "memory_update i f t = (u, t1)" by (cases "memory_update i f t")
  have "tables_ok t1" using memory_update_ok [OF assms(1) u assms(3)] by blast
  then show ?thesis using assms(2) u by (auto simp: write_updated_def split: sum.splits)
qed

lemma write_created_ok:
  assumes "tables_ok t" "write_created r t = (res, t')"
  shows "tables_ok t'"
proof (cases res)
  case (Inl e)
  then show ?thesis using assms by (auto simp: write_created_def memory_create_def Let_def split: prod.splits sum.splits if_splits)
next
  case (Inr y)
  note made = write_created_Inr [OF assms(2) [unfolded Inr]]
  have "rows_ok t'" using rows_ok_created [OF _ assms(2) [unfolded Inr]] assms(1) by (simp add: tables_ok_def)
  moreover have "events_ok t'" using made events_ok_same [of t t'] assms(1) by (simp add: tables_ok_def same_events_def)
  ultimately show ?thesis by (simp add: tables_ok_def)
qed

lemma supersede_ok:
  assumes "tables_ok t" "supersede now fresh c sid old p kind t = (res, t')"
  shows "tables_ok t'"
proof -
  define g where "g = (case mm_group old of None \<Rightarrow> fresh | Some g \<Rightarrow> if g = [] then fresh else g)"
  obtain u t1 where u: "memory_update (mm_id old) (\<lambda>r. r\<lparr>mm_status := ''SUPERSEDED'', mm_group := Some g, mm_last_seen := Some now\<rparr>) t = (u, t1)"
    by (meson surj_pair)
  have t1: "tables_ok t1" using memory_update_ok [OF assms(1) u] memory_get_Some by auto
  note run = assms(2) [unfolded supersede_def Let_def g_def [symmetric] u prod.case]
  show ?thesis
  proof (cases u)
    case (Inl e)
    then show ?thesis using run t1 by simp
  next
    case (Inr x)
    let ?new = "p\<lparr>mm_key := Some (cd_key c @ ''::'' @ sid), mm_group := Some g, mm_status := ''ACTIVE''\<rparr>"
    obtain v t2 where v: "write_created ?new t1 = (v, t2)" by (meson surj_pair)
    have "t' = t2" using run unfolding Inr sum.case v prod.case by (auto split: sum.splits)
    then show ?thesis using write_created_ok [OF t1 v] by simp
  qed
qed

lemma merge_memory_ok:
  assumes "tables_ok t" "merge_memory now fresh c src sid meta t = (res, t')"
  shows "tables_ok t'"
proof (cases "memory_by_key (cd_key c) t")
  case None
  obtain v t1 where v: "write_created (memory_payload now c src meta) t = (v, t1)" by (meson surj_pair)
  have "t' = t1" using assms(2) by (simp add: merge_memory_def Let_def None v)
  then show ?thesis using write_created_ok [OF assms(1) v] by simp
next
  case (Some old)
  have key: "mm_key old = Some (cd_key c)" and old: "old \<in> set (mt_rows t)" using memory_by_key_Some [OF Some] by auto
  let ?s = "snapshot_memory old ''merge'' t"
  have s: "tables_ok ?s" using assms(1) by simp
  have got: "mm_id r = mm_id old" if "memory_get i ?s = Some r" "i = mm_id old" for r i using memory_get_Some [OF that(1)] that(2) by simp
  note run = assms(2) [unfolded merge_memory_def Let_def Some option.case]
  show ?thesis
  proof (cases "resolve_conflict old c meta")
    case (Inl e)
    then show ?thesis using run s by simp
  next
    case (Inr how)
    show ?thesis
    proof (cases how)
      case MergeFacts
      obtain v t1 where v: "write_updated (mm_id old) (\<lambda>r. merged_row r (memory_payload now c src meta)) ?s = (v, t1)" by (meson surj_pair)
      have "tables_ok t1"
      proof (rule write_updated_ok [OF s v])
        fix r assume r: "memory_get (mm_id old) ?s = Some r"
        have "r = old" using memory_get_row [of t old] assms(1) old r by (simp add: tables_ok_def memory_get_def snapshot_frame)
        then show "mm_id (merged_row r (memory_payload now c src meta)) = mm_id old \<and> mm_key (merged_row r (memory_payload now c src meta)) = mm_key r"
          by (simp add: merged_row_def memory_payload_def scoped_def Let_def key)
      qed
      moreover have "t' = t1" using run by (simp add: Inr MergeFacts v)
      ultimately show ?thesis by simp
    next
      case (RetainExisting kind)
      obtain v t1 where v: "memory_update (mm_id old) (\<lambda>r. r\<lparr>mm_last_seen := Some now\<rparr>) ?s = (v, t1)" by (meson surj_pair)
      have "tables_ok t1" using memory_update_ok [OF s v] memory_get_Some by auto
      moreover have "t' = t1" using run by (simp add: Inr RetainExisting v)
      ultimately show ?thesis by simp
    next
      case (Supersede kind)
      then show ?thesis using run Inr supersede_ok [OF s] by simp
    qed
  qed
qed

lemma record_outcome_ok:
  assumes "tables_ok t" "record_outcome env now i x t = (res, t')"
  shows "tables_ok t'"
proof -
  have "t' = t" if "memory_get i t = None" using assms(2) that by (simp add: record_outcome_def)
  moreover have "tables_ok t'" if r: "memory_get i t = Some r" for r
  proof (cases "evidence_weight_of (mn_half_power env) (mn_config env) now (new_event x)")
    case (Inl e)
    then show ?thesis using assms r by (simp add: record_outcome_def)
  next
    case (Inr w)
    obtain row t1 where add: "add_evidence (new_evidence now i w x) t = (row, t1)" by (cases "add_evidence (new_evidence now i w x) t")
    have rows: "mt_rows t1 = mt_rows t" "mt_next t1 = mt_next t"
      using add_evidence_rows [of "new_evidence now i w x" t] add by simp_all
    have t1: "tables_ok t1"
      using assms(1) events_ok_add [OF _ add] by (simp add: tables_ok_def rows_ok_def rows)
    note run = assms(2) [unfolded record_outcome_def Let_def r option.case Inr sum.case add prod.case]
    show ?thesis
    proof (cases "assess_outcome env now x (mm_meta r) (list_evidence i t1)")
      case (Inl e)
      then show ?thesis using run t1 by simp
    next
      case (Inr a)
      let ?f = "memory_outcome_row env now x a (int (length (list_evidence i t1))) (me_id row) r"
      obtain v t2 where v: "memory_update i ?f t1 = (v, t2)" by (meson surj_pair)
      have "tables_ok t2" using memory_update_ok [OF t1 v] memory_get_Some by (auto simp: memory_outcome_row_def)
      moreover have "t' = t2" using run unfolding Inr sum.case v prod.case by (auto split: sum.splits)
      ultimately show ?thesis by simp
    qed
  qed
  ultimately show ?thesis using assms(1) by (cases "memory_get i t") auto
qed

lemma expire_due_ok:
  assumes "tables_ok t" "0 \<le> limit" "expire_due now limit t = (res, t')"
  shows "tables_ok t'"
proof -
  have ok: "rows_ok t" using assms(1) by (simp add: tables_ok_def)
  let ?due = "set (filter (is_due now) (expiry_page limit t))"
  have t': "t' = t\<lparr>mt_rows := map (\<lambda>r. if r \<in> ?due then expire_row r r else r) (mt_rows t)\<rparr>"
    using expire_page [OF ok assms(2), of now] assms(3) by (simp add: expired_rows_def)
  have "rows_ok t'" unfolding t' by (rule rows_ok_map [OF ok]) (simp_all add: expire_row_def)
  then show ?thesis using assms(1) events_ok_same [of t t'] by (simp add: tables_ok_def same_events_def t')
qed

text \<open>Whatever the services have done to the empty tables, ids and merge keys name one memory, and a decision counts at most once for a memory and a horizon:
  the consistency the other theorems of this theory ask for.\<close>

theorem memory_tables_consistent:
  assumes "memory_step\<^sup>*\<^sup>* no_memories t"
  shows "rows_ok t \<and> events_ok t"
proof -
  have "tables_ok t"
    using assms
  proof (induction rule: rtranclp_induct)
    case base
    show ?case by (simp add: no_memories_def tables_ok_def rows_ok_def events_ok_def unique_keys_def)
  next
    case (step t t')
    from step(2) show ?case
    proof cases
      case (step_merge now fresh c src sid meta ans)
      then show ?thesis by (rule merge_memory_ok [OF step.IH])
    next
      case (step_outcome env now i x rep)
      then show ?thesis by (rule record_outcome_ok [OF step.IH])
    next
      case (step_expire limit now ids)
      then show ?thesis by (rule expire_due_ok [OF step.IH])
    next
      case (step_validate i r)
      have "mm_id (x\<lparr>mm_status := ''VALIDATED''\<rparr>) = i \<and> mm_key (x\<lparr>mm_status := ''VALIDATED''\<rparr>) = mm_key x" if "memory_get i t = Some x" for x
        using memory_get_Some [OF that] by simp
      then show ?thesis using memory_update_ok [OF step.IH step_validate [unfolded memory_validate_def]] by blast
    qed
  qed
  then show ?thesis by (simp add: tables_ok_def)
qed

end
