(* ===== verification/Spec2Isabelle.thy ===== *)
theory Spec2Isabelle
  imports DecisionRun PolicyV2 ModelGateway JobQueue Leases Replay Authorization TaskGraph ConflictResolver SynthesisCorrect RegimeScores BacktestCorrect Readiness TradingSessions BundleCorrect Lineage Memory
begin

text \<open>
  A verification library of the decision core of a stock-analysis agent, a Python program under \<open>src/\<close>.

  \<^bold>\<open>The program.\<close> A request for an investment decision becomes a decision run. Agents and language
  models, called through a model gateway, produce a proposal; opinions that disagree are
  reconciled; a policy engine checks the proposal and may lower its weight; the run is finalized
  with an event in an outbox, and an authorization may be issued for a finalized decision. Beside it stands the
  knowledge-conclusion pipeline: a content bundle is frozen, a model writes a conclusion over it, every finding is
  grounded in the bundle's knowledge and evidence, and a deterministic fallback answers when the model cannot.
  The bundle itself is validated fail-closed on arrival, and the lineage of a conclusion can be rebuilt from its stored run alone.
  Jobs, outcome evaluations and replays are shared between workers through leases, a regime
  state machine follows the state of the market, trading calendars count its sessions, and a backtest replays a
  strategy under the exchange's rules. Outcomes of decisions weigh on memories, which are merged, superseded and expired. Formal readiness says whether the upstream services may be relied on.

  \<^bold>\<open>Theories and sources.\<close> Every definition keeps the name of the function it translates, or says in its
  theory which statement it is.

  \<^item> Prelude: exceptions as values of \<open>exc + 'a\<close>, Python text, dictionaries as association lists with their
    insertion order, and the list lemmas the components share.
  \<^item> PyFloat: Python's floats as binary64 values: rationals with round-half-even, infinities, NaN, \<open>round\<close>,
    \<open>min\<close> and \<open>max\<close>, and their order laws. The two zeros are one value.
  \<^item> PyVal: the JSON-like values of \<open>dict[str, Any]\<close>, with truth, equality, text and the JSON check of
    \<open>contracts/immutable.py\<close>.
  \<^item> Machine: the locales of a versioned work unit with a transition table and linear stages, interpreted by
    DecisionRun and KnowledgeRun. Leases holds the locale of fenced leases, with three interpretations,
    ModelGateway the locale of relations a call preserves, with two, and TradingSessions the locale of a session calendar
    (\<open>session_calendar\<close>), with an interpretation for each of the three calendars and for the clock over them.
  \<^item> DecisionRun: \<open>app/domain/decision/run.py\<close>, \<open>app/ports/decision_repository.py\<close>, \<open>app/ports/outbox.py\<close>
    and \<open>app/application/decision/unit_of_work.py\<close>.
  \<^item> Proposal: \<open>contracts/proposal.py\<close>, the validators and the adapters between its two versions.
  \<^item> Policy and PolicyV2: \<open>engines/policy/\<close> and the check contracts of \<open>contracts/decision.py\<close>.
  \<^item> ModelGateway: \<open>app/model_gateway/\<close>: circuit breakers, retries, budget, routing and one complete call.
  \<^item> JobQueue: \<open>storage/repositories/job_repository.py\<close> and the worker round of \<open>workers/job_worker.py\<close>.
  \<^item> Leases and Replay: \<open>app/application/outcomes/lease_repository.py\<close>, the outcome worker, and
    \<open>app/application/replay/run_service.py\<close>.
  \<^item> Authorization: \<open>app/domain/decision/execution_authorization.py\<close> and \<open>authority.py\<close>.
  \<^item> TaskGraph and ConflictResolver: \<open>agent/task_graph.py\<close>, \<open>engines/decision/conflict_resolver.py\<close>.
  \<^item> Grounding, ActionLanguage and Conclusion: \<open>app/application/knowledge_conclusion/grounding.py\<close>,
    \<open>deterministic_fallback.py\<close> and \<open>app/domain/knowledge_conclusion.py\<close>.
  \<^item> KnowledgeRun: \<open>app/domain/knowledge_conclusion_run.py\<close>, its repository port and \<open>run_service.py\<close>.
  \<^item> Synthesis and SynthesisCorrect: \<open>synthesis.py\<close>, \<open>prompt.py\<close> and the model port.
  \<^item> RegimeMachine and RegimeScores: \<open>engines/regime/\<close> over \<open>MarketRegimeRepository\<close>.
  \<^item> PriceRules, Backtest, BacktestSteps and BacktestCorrect: \<open>engines/market/price_limit_metadata.py\<close> and \<open>price_limit_rules.py\<close>;
    \<open>execution.py\<close>, \<open>execution_model.py\<close>, \<open>events.py\<close> and \<open>portfolio_backtest.py\<close> of \<open>engines/backtest/\<close>.
  \<^item> TradingClock and TradingSessions: \<open>engines/market/trading_clock.py\<close>, \<open>market_clock.py\<close> and \<open>trading_calendar.py\<close>.
  \<^item> Readiness: \<open>app/application/readiness/\<close> and \<open>app/ports/upstream_capabilities.py\<close>.
  \<^item> BundleSchema: the two JSON schemas under \<open>contracts/fixtures/\<close>. BundleRules, BundleValidator and BundleCorrect:
    \<open>app/application/knowledge_conclusion/bundle_validator.py\<close> and the locks of \<open>app/ports/content_knowledge.py\<close>.
  \<^item> Lineage: \<open>app/application/knowledge_conclusion/lineage.py\<close>, over the store of KnowledgeRun and the encoding of BundleRules.
  \<^item> Memory: \<open>evidence.py\<close>, \<open>lifecycle.py\<close>, \<open>memory_merger.py\<close>, \<open>conflict_resolver.py\<close> and \<open>memory_writer.py\<close> of
    \<open>engines/memory/\<close>, over \<open>MemoryRepository\<close>.

  \<^bold>\<open>State.\<close> A table or an in-memory dictionary is a map or a list of records, passed in and returned. An
  operation that reads, decides and writes in one transaction is one step. Where the code reads first and writes later,
  as in the knowledge runs and their synthesis, the model has two steps, and other workers
  may act between them: their interference is any sequence of the repository's own steps.

  \<^bold>\<open>What the lemmas show.\<close> For each component an invariant of its state that all its operations keep
  (stage evidence of runs, shape of breakers, soundness of the job table, grounded results, chained
  periods); the effect of each operation on its branches, errors included; the fencing of stale versions, leases
  and observations; agreement of answers given to different workers; refinement of write-once cells;
  equivalence of authorization, task layers, fallback order and calibration with declarative readings; bounds of weights,
  calls and probabilities in binary64 arithmetic; and for the synthesis total correctness as Hoare triples. For the backtest
  every trade is legal under the rules of its day, purchases are not sold on the same day and cash is not overdrawn; the
  calendars agree with the n-th open day of an abstract set of sessions; a positive readiness rests on evidence that is young
  enough; a validated bundle has the identity of its content and the clocks of its request, a v2 bundle dates no event after them and keeps
  opinions attributed; a lineage traces exactly what was cited; the tables of memories stay
  consistent, and a memory's status changes only on the weight of its evidence.

  \<^bold>\<open>Termination and fuel.\<close> Loops over lists are recursion on the list. The layers of a task graph recurse
  on the remaining tasks, each round removing at least one. The retry loop and the structured-output repair
  recurse on the attempts left, as the code counts them. No definition has artificial fuel.

  \<^bold>\<open>Parameters.\<close> Code that is not in the repository is an argument: the SHA-256 digest of canonical
  JSON (\<open>digest\<close>; collisions are allowed, and statements that exclude them say so), clocks, uuids and random
  numbers, model providers, job handlers and calculators, Unicode NFKC, base64, and pydantic's reading of
  a provider payload. The eight regular expressions that extract hard facts are the argument
  \<open>facts\<close>. So are NumPy's mean and the event identifiers of the backtest, the format checks of JSON Schema, Unicode NFC, the instant of
  an ISO datetime and the parts of a URL (\<open>validator_env\<close>), the quant service and the UTC offsets of the clock, and the probes
  and contract files of readiness. Python's \<open>sum\<close> of floats is the plain left-to-right sum of CPython up to 3.11.

  \<^bold>\<open>Not modelled.\<close> HTTP routers, SQLAlchemy sessions and migrations, provider SDKs, prompts, telemetry, rendering,
  cron registration and scripts are I/O around the modelled code. Threads appear as interleaved steps, not
  as a memory model. Of the other engines, performance metrics and reports, technical patterns, themes, portfolio construction and retrieval are
  scoring over data frames and services; the decision replay and snapshot services and the agent supervision rerun language-model agents; extraction and
  retrieval of memories and outcome evaluation are left out. The manifest lists every part with its status.
\<close>

end
